(* ===== verification/PyTime.thy ===== *)
theory PyTime
  imports Prelude
begin

text \<open>
  The part of Python's \<open>datetime\<close> that the approval windows rest on.  An aware UTC datetime is
  its instant, a number of microseconds since 0001-01-01T00:00:00Z; the calendar conversion
  follows the proleptic Gregorian rules of the standard library, and \<open>iso_utc\<close> and
  \<open>parse_rfc3339\<close> are \<open>isoformat()\<close> without microseconds and \<open>fromisoformat\<close> on that format.
\<close>

type_synonym instant = nat

section \<open>Calendar\<close>

definition is_leap :: "nat \<Rightarrow> bool" where
  "is_leap y \<longleftrightarrow> y mod 4 = 0 \<and> (y mod 100 \<noteq> 0 \<or> y mod 400 = 0)"

definition days_in_year :: "nat \<Rightarrow> nat" where
  "days_in_year y = (if is_leap y then 366 else 365)"

text \<open>Days before the first of January of year \<open>z + 1\<close>.\<close>

definition days_before :: "nat \<Rightarrow> nat" where
  "days_before z = 365 * z + z div 4 - z div 100 + z div 400"

lemma days_before_Suc: "days_before (Suc z) = days_before z + days_in_year (Suc z)"
proof -
  define a b c where abc: "a = z div 4" "b = z div 100" "c = z div 400"
  have impl: "Suc z mod 400 = 0 \<Longrightarrow> Suc z mod 100 = 0" "Suc z mod 100 = 0 \<Longrightarrow> Suc z mod 4 = 0"
    using dvd_trans [of 100 400 "Suc z"] dvd_trans [of 4 100 "Suc z"]
    by (simp_all add: dvd_eq_mod_eq_0)
  have steps: "Suc z div 4 = (if Suc z mod 4 = 0 then Suc a else a)"
    "Suc z div 100 = (if Suc z mod 100 = 0 then Suc b else b)"
    "Suc z div 400 = (if Suc z mod 400 = 0 then Suc c else c)"
    by (simp_all add: abc div_Suc)
  have le: "b \<le> z" by (simp add: abc)
  show ?thesis
    unfolding days_before_def days_in_year_def is_leap_def steps abc [symmetric]
    using impl le
    by (cases "Suc z mod 4 = 0"; cases "Suc z mod 100 = 0"; cases "Suc z mod 400 = 0") simp_all
qed

lemma days_before_400: "days_before (400 * k + j) = 146097 * k + days_before j"
proof -
  define a b c where abc: "a = j div 4" "b = j div 100" "c = j div 400"
  have divs: "(400 * k + j) div 4 = 100 * k + a" "(400 * k + j) div 100 = 4 * k + b"
    "(400 * k + j) div 400 = k + c"
    using div_mult_self4 [of 4 "100 * k" j] div_mult_self4 [of 100 "4 * k" j]
      div_mult_self4 [of 400 k j] by (simp_all add: abc)
  have "b \<le> j" by (simp add: abc)
  then show ?thesis unfolding days_before_def divs abc [symmetric] by simp
qed

lemma days_in_year_pos [simp]: "0 < days_in_year y"
  by (simp add: days_in_year_def)

lemma days_before_mono: "y \<le> z \<Longrightarrow> days_before y \<le> days_before z"
  by (rule lift_Suc_mono_le [of days_before]) (simp_all add: days_before_Suc)

lemma days_before_less: "y < z \<Longrightarrow> days_before y + days_in_year (Suc y) \<le> days_before z"
  using days_before_mono [of "Suc y" z] by (simp add: days_before_Suc)

text \<open>The year of a day number, searched from a starting year; \<open>n\<close> days remain.\<close>

function year_search :: "nat \<Rightarrow> nat \<Rightarrow> nat \<times> nat" where
  "year_search z n =
     (if n < days_in_year (Suc z) then (z, n) else year_search (Suc z) (n - days_in_year (Suc z)))"
  by pat_completeness auto
termination
  by (relation "measure snd") (auto simp: days_in_year_def)

declare year_search.simps [simp del]

lemma year_search_sound:
  "year_search z n = (z', r) \<Longrightarrow>
     days_before z' + r = days_before z + n \<and> r < days_in_year (Suc z')"
proof (induction z n rule: year_search.induct)
  case (1 z n)
  then show ?case
    by (cases "n < days_in_year (Suc z)")
      (auto simp: days_before_Suc year_search.simps [of z n])
qed

text \<open>Month lengths and the month of a day of the year.\<close>

definition month_lengths :: "nat \<Rightarrow> nat list" where
  "month_lengths y = [31, if is_leap y then 29 else 28, 31, 30, 31, 30, 31, 31, 30, 31, 30, 31]"

lemma sum_list_month_lengths: "sum_list (month_lengths y) = days_in_year y"
  by (simp add: month_lengths_def days_in_year_def)

fun month_search :: "nat list \<Rightarrow> nat \<Rightarrow> nat \<times> nat" where
  "month_search [] d = (0, d)"
| "month_search (l # ls) d =
     (if d < l then (0, d) else (let (m, d') = month_search ls (d - l) in (Suc m, d')))"

lemma month_search_sound:
  "month_search ls d = (m, d') \<Longrightarrow> d < sum_list ls \<Longrightarrow>
     m < length ls \<and> d' < ls ! m \<and> sum_list (take m ls) + d' = d"
proof (induction ls arbitrary: d m)
  case Nil
  then show ?case by simp
next
  case (Cons l ls)
  show ?case
  proof (cases "d < l")
    case True
    with Cons.prems show ?thesis by auto
  next
    case False
    with Cons.prems obtain m' where "month_search ls (d - l) = (m', d')" and "m = Suc m'"
      by (auto split: prod.splits)
    moreover from False Cons.prems have "d - l < sum_list ls" by auto
    ultimately have "m' < length ls \<and> d' < ls ! m' \<and> sum_list (take m' ls) + d' = d - l"
      by (intro Cons.IH)
    with False \<open>m = Suc m'\<close> show ?thesis by auto
  qed
qed

text \<open>\<open>date.toordinal() - 1\<close> and its inverse; months and days of the month count from 1.\<close>

definition ymd_to_day :: "nat \<Rightarrow> nat \<Rightarrow> nat \<Rightarrow> nat" where
  "ymd_to_day y m d = days_before (y - 1) + sum_list (take (m - 1) (month_lengths y)) + (d - 1)"

definition day_to_ymd :: "nat \<Rightarrow> nat \<times> nat \<times> nat" where
  "day_to_ymd n =
     (let (z, r) = year_search (400 * (n div 146097)) (n mod 146097);
          (m, d) = month_search (month_lengths (Suc z)) r
      in (Suc z, Suc m, Suc d))"

definition valid_ymd :: "nat \<Rightarrow> nat \<Rightarrow> nat \<Rightarrow> bool" where
  "valid_ymd y m d \<longleftrightarrow>
     1 \<le> y \<and> y \<le> 9999 \<and> 1 \<le> m \<and> m \<le> 12 \<and> 1 \<le> d \<and> d \<le> month_lengths y ! (m - 1)"

lemma ymd_roundtrip_raw:
  assumes "day_to_ymd n = (y, m, d)"
  shows "ymd_to_day y m d = n \<and> 1 \<le> y \<and> 1 \<le> m \<and> m \<le> 12 \<and> 1 \<le> d
    \<and> d \<le> month_lengths y ! (m - 1) \<and> days_before (y - 1) \<le> n"
proof -
  obtain z r where zr: "year_search (400 * (n div 146097)) (n mod 146097) = (z, r)" by force
  obtain m' d' where md: "month_search (month_lengths (Suc z)) r = (m', d')" by force
  from assms zr md have eqs: "y = Suc z" "m = Suc m'" "d = Suc d'"
    by (auto simp: day_to_ymd_def)
  have "days_before (400 * (n div 146097)) = 146097 * (n div 146097)"
    using days_before_400 [of "n div 146097" 0] by (simp add: days_before_def)
  with year_search_sound [OF zr] have z: "days_before z + r = n" "r < days_in_year (Suc z)"
    by simp_all
  from month_search_sound [OF md] z
  have m: "m' < 12" "d' < month_lengths (Suc z) ! m'"
    "sum_list (take m' (month_lengths (Suc z))) + d' = r"
    by (auto simp: sum_list_month_lengths) (simp add: month_lengths_def)
  from z m show ?thesis by (auto simp: eqs ymd_to_day_def)
qed

definition max_day :: nat where
  "max_day = 3652059"

lemma max_day_eq: "max_day = days_before 9999"
  by (simp add: max_day_def days_before_def)

lemma ymd_roundtrip:
  assumes "n < max_day" and "day_to_ymd n = (y, m, d)"
  shows "ymd_to_day y m d = n" and "valid_ymd y m d"
proof -
  note raw = ymd_roundtrip_raw [OF assms(2)]
  have "y - 1 < 9999"
  proof (rule ccontr)
    assume "\<not> y - 1 < 9999"
    then have "max_day \<le> days_before (y - 1)"
      unfolding max_day_eq by (intro days_before_mono) simp
    with raw assms(1) show False by simp
  qed
  with raw show "ymd_to_day y m d = n" and "valid_ymd y m d"
    by (auto simp: valid_ymd_def)
qed

section \<open>Formatting and parsing\<close>

definition usec_per_day :: nat where "usec_per_day = 86400000000"

text \<open>The instants a Python datetime can hold (years 1 to 9999).\<close>

definition valid_instant :: "instant \<Rightarrow> bool" where
  "valid_instant t \<longleftrightarrow> t < max_day * usec_per_day"

definition pad2 :: "nat \<Rightarrow> string" where
  "pad2 n = [digit_char (n div 10), digit_char (n mod 10)]"

definition pad4 :: "nat \<Rightarrow> string" where
  "pad4 n = pad2 (n div 100) @ pad2 (n mod 100)"

text \<open>\<open>d.astimezone(utc).replace(microsecond=0).isoformat()\<close>.\<close>

definition iso_utc :: "instant \<Rightarrow> string" where
  "iso_utc t =
     (let s = t div 1000000; (y, m, d) = day_to_ymd (s div 86400); r = s mod 86400
      in pad4 y @ ''-'' @ pad2 m @ ''-'' @ pad2 d @ ''T'' @ pad2 (r div 3600) @ '':'' @
         pad2 (r div 60 mod 60) @ '':'' @ pad2 (r mod 60) @ ''+00:00'')"

text \<open>The shape \<open>\d{4}-\d{2}-\d{2}T\d{2}:\d{2}:\d{2}\+00:00\<close>, and the fields it holds.\<close>

definition rfc3339_fields :: "string \<Rightarrow> (nat \<times> nat \<times> nat \<times> nat \<times> nat \<times> nat) option" where
  "rfc3339_fields s =
     (let field = (\<lambda>i n. take n (drop i s)) in
      if length s = 25
         \<and> list_all is_digit (field 0 4 @ field 5 2 @ field 8 2 @ field 11 2 @ field 14 2 @ field 17 2)
         \<and> field 4 1 = ''-'' \<and> field 7 1 = ''-'' \<and> field 10 1 = ''T'' \<and> field 13 1 = '':''
         \<and> field 16 1 = '':'' \<and> field 19 6 = ''+00:00''
      then Some (read_nat (field 0 4), read_nat (field 5 2), read_nat (field 8 2),
                 read_nat (field 11 2), read_nat (field 14 2), read_nat (field 17 2))
      else None)"

definition is_rfc3339_utc :: "string \<Rightarrow> bool" where
  "is_rfc3339_utc s \<longleftrightarrow> rfc3339_fields s \<noteq> None"

definition parse_rfc3339 :: "string \<Rightarrow> (pyexc, instant) res" where
  "parse_rfc3339 s =
     (case rfc3339_fields s of
        None \<Rightarrow> Inl (ValueError ''Invalid isoformat string'')
      | Some (y, m, d, h, n, sec) \<Rightarrow>
          if valid_ymd y m d \<and> h < 24 \<and> n < 60 \<and> sec < 60
          then Inr ((((ymd_to_day y m d * 24 + h) * 60 + n) * 60 + sec) * 1000000)
          else Inl (ValueError ''out of range''))"

lemma pad2E:
  assumes "n < 100"
  obtains a b where "pad2 n = [a, b]" "is_digit a" "is_digit b" "read_nat [a, b] = n"
  using assms by (simp add: pad2_def read_nat_def less_mult_imp_div_less)

lemma pad4E:
  assumes "n < 10000"
  obtains a b c d where "pad4 n = [a, b, c, d]" "is_digit a" "is_digit b" "is_digit c" "is_digit d"
    "read_nat [a, b, c, d] = n"
proof -
  from assms have "n div 100 < 100" by simp
  then obtain a b where ab: "pad2 (n div 100) = [a, b]" "is_digit a" "is_digit b"
    "read_nat [a, b] = n div 100" by (rule pad2E)
  have "n mod 100 < 100" by simp
  then obtain c d where cd: "pad2 (n mod 100) = [c, d]" "is_digit c" "is_digit d"
    "read_nat [c, d] = n mod 100" by (rule pad2E)
  have "read_nat [a, b, c, d] = 100 * read_nat [a, b] + read_nat [c, d]"
    by (simp add: read_nat_def)
  also have "\<dots> = n" by (simp add: ab cd)
  finally show ?thesis using ab cd that by (simp add: pad4_def)
qed

lemma month_lengths_le: "m < 12 \<Longrightarrow> month_lengths y ! m \<le> 31"
  by (auto simp: month_lengths_def nth_Cons split: nat.splits)

lemma valid_ymd_bounds: "valid_ymd y m d \<Longrightarrow> y < 10000 \<and> m < 100 \<and> d < 100"
proof -
  assume v: "valid_ymd y m d"
  then have "month_lengths y ! (m - 1) \<le> 31"
    by (intro month_lengths_le) (auto simp: valid_ymd_def)
  with v show ?thesis by (auto simp: valid_ymd_def)
qed

lemma hms_roundtrip:
  "((s div 86400 * 24 + s mod 86400 div 3600) * 60 + s mod 86400 div 60 mod 60) * 60
     + s mod 86400 mod 60 = (s::nat)"
proof -
  define r where "r = s mod 86400"
  have "r div 3600 = r div 60 div 60" by (simp add: div_mult2_eq [symmetric])
  then have "r div 3600 * 60 + r div 60 mod 60 = r div 60" by simp
  moreover have "r div 60 * 60 + r mod 60 = r" by simp
  moreover have "s div 86400 * 86400 + r = s" by (simp add: r_def)
  ultimately show ?thesis unfolding r_def [symmetric] by (simp only: distrib_right)
qed

lemma iso_utc_fields:
  assumes "valid_instant t" and "day_to_ymd (t div 1000000 div 86400) = (y, m, d)"
  defines "r \<equiv> t div 1000000 mod 86400"
  shows "rfc3339_fields (iso_utc t) = Some (y, m, d, r div 3600, r div 60 mod 60, r mod 60)"
proof -
  from assms(1) have "t div 1000000 div 86400 < max_day"
    by (simp add: valid_instant_def usec_per_day_def div_mult2_eq [symmetric] less_mult_imp_div_less)
  with assms(2) have b: "y < 10000" "m < 100" "d < 100"
    using ymd_roundtrip(2) valid_ymd_bounds by blast+
  have "r < 86400" by (simp add: r_def)
  then have r: "r div 3600 < 100" "r div 60 mod 60 < 100" "r mod 60 < 100"
    by (simp_all add: less_mult_imp_div_less)
  obtain y1 y2 y3 y4 where Y: "pad4 y = [y1, y2, y3, y4]" "is_digit y1" "is_digit y2" "is_digit y3"
    "is_digit y4" "read_nat [y1, y2, y3, y4] = y" using b(1) by (rule pad4E)
  obtain m1 m2 where M: "pad2 m = [m1, m2]" "is_digit m1" "is_digit m2" "read_nat [m1, m2] = m"
    using b(2) by (rule pad2E)
  obtain d1 d2 where D: "pad2 d = [d1, d2]" "is_digit d1" "is_digit d2" "read_nat [d1, d2] = d"
    using b(3) by (rule pad2E)
  obtain h1 h2 where H: "pad2 (r div 3600) = [h1, h2]" "is_digit h1" "is_digit h2"
    "read_nat [h1, h2] = r div 3600" using r(1) by (rule pad2E)
  obtain n1 n2 where N: "pad2 (r div 60 mod 60) = [n1, n2]" "is_digit n1" "is_digit n2"
    "read_nat [n1, n2] = r div 60 mod 60" using r(2) by (rule pad2E)
  obtain s1 s2 where S: "pad2 (r mod 60) = [s1, s2]" "is_digit s1" "is_digit s2"
    "read_nat [s1, s2] = r mod 60" using r(3) by (rule pad2E)
  have "iso_utc t = [y1, y2, y3, y4, CHR ''-'', m1, m2, CHR ''-'', d1, d2, CHR ''T'', h1, h2,
      CHR '':'', n1, n2, CHR '':'', s1, s2, CHR ''+'', CHR ''0'', CHR ''0'', CHR '':'', CHR ''0'', CHR ''0'']"
    using assms(2) by (simp add: iso_utc_def Let_def r_def [symmetric] Y M D H N S)
  with Y M D H N S show ?thesis by (simp add: rfc3339_fields_def Let_def)
qed

lemma iso_utc_shape [simp]: "valid_instant t \<Longrightarrow> is_rfc3339_utc (iso_utc t)"
  using iso_utc_fields [of t] by (cases "day_to_ymd (t div 1000000 div 86400)") (auto simp: is_rfc3339_utc_def)

lemma parse_iso_utc:
  assumes "valid_instant t"
  shows "parse_rfc3339 (iso_utc t) = Inr (t div 1000000 * 1000000)"
proof -
  obtain y m d where ymd: "day_to_ymd (t div 1000000 div 86400) = (y, m, d)"
    using prod_cases3 by blast
  define s where "s = t div 1000000"
  from assms have "s div 86400 < max_day"
    by (simp add: s_def valid_instant_def usec_per_day_def div_mult2_eq [symmetric]
        less_mult_imp_div_less)
  with ymd have v: "valid_ymd y m d" and e: "ymd_to_day y m d = s div 86400"
    using ymd_roundtrip s_def by auto
  have "s mod 86400 div 3600 < 24" by (simp add: less_mult_imp_div_less)
  with v e hms_roundtrip [of s] iso_utc_fields [OF assms ymd] show ?thesis
    by (simp add: parse_rfc3339_def s_def [symmetric])
qed

end
