(* ===== verification/PyValue.thy ===== *)
theory PyValue
  imports Prelude PyTime
begin

text \<open>
  Dynamically typed Python values: what \<open>json.loads\<close> returns for a plan, and what a Firestore
  document holds.  A dict is an association list in insertion order whose keys are strings; a
  float is kept as its \<open>repr\<close>, because the modelled code never computes with one.
\<close>

datatype pyval =
    PNone
  | PBool bool
  | PInt int
  | PFloat string
  | PStr string
  | PTime instant
  | PList "pyval list"
  | PDict "(string \<times> pyval) list"

type_synonym pydict = "(string \<times> pyval) list"

section \<open>Dictionaries\<close>

definition dget_or :: "pydict \<Rightarrow> string \<Rightarrow> pyval \<Rightarrow> pyval" where
  "dget_or d k v = (case map_of d k of None \<Rightarrow> v | Some x \<Rightarrow> x)"

abbreviation dget :: "pydict \<Rightarrow> string \<Rightarrow> pyval" where
  "dget d k \<equiv> dget_or d k PNone"

fun dput :: "pydict \<Rightarrow> string \<Rightarrow> pyval \<Rightarrow> pydict" where
  "dput [] k v = [(k, v)]"
| "dput ((k', v') # d) k v = (if k' = k then (k, v) # d else (k', v') # dput d k v)"

definition dupdate :: "pydict \<Rightarrow> pydict \<Rightarrow> pydict" where
  "dupdate d upd = foldl (\<lambda>acc (k, v). dput acc k v) d upd"

lemma map_of_dput [simp, py_simps]: "map_of (dput d k v) = (map_of d)(k \<mapsto> v)"
  by (induction d) (auto simp: fun_upd_twist)

lemma dget_or_dput [simp, py_simps]:
  "dget_or (dput d k v) k' w = (if k' = k then v else dget_or d k' w)"
  by (simp add: dget_or_def)

lemma dget_or_Nil [simp]: "dget_or [] k v = v"
  by (simp add: dget_or_def)

lemma dget_or_Cons [simp]: "dget_or ((k', x) # d) k v = (if k' = k then x else dget_or d k v)"
  by (simp add: dget_or_def)

lemma map_of_dupdate: "map_of (dupdate d upd) k = (case map_of (rev upd) k of None \<Rightarrow> map_of d k | Some v \<Rightarrow> Some v)"
  unfolding dupdate_def
proof (induction upd arbitrary: d)
  case Nil
  then show ?case by simp
next
  case (Cons kv upd)
  then show ?case
    by (cases kv) (auto simp: map_add_def split: option.splits)
qed

lemma dupdate_simps [simp, py_simps]:
  "dupdate d [] = d"
  "dupdate d ((k, v) # upd) = dupdate (dput d k v) upd"
  by (simp_all add: dupdate_def)

definition dkeys :: "pydict \<Rightarrow> string list" where
  "dkeys d = map fst d"

lemma dput_keys: "set (dkeys (dput d k v)) = insert k (set (dkeys d))"
  by (simp add: dkeys_def dom_map_of_conv_image_fst [symmetric])

lemma dput_distinct: "distinct (dkeys d) \<Longrightarrow> distinct (dkeys (dput d k v))"
proof (induction d)
  case Nil
  then show ?case by (simp add: dkeys_def)
next
  case (Cons kv d)
  then show ?case using dput_keys [of d k v] by (cases kv) (auto simp: dkeys_def)
qed

section \<open>Type tests, truth value, hashing\<close>

fun as_dict :: "pyval \<Rightarrow> pydict option" where
  "as_dict (PDict d) = Some d"
| "as_dict _ = None"

fun as_list :: "pyval \<Rightarrow> pyval list option" where
  "as_list (PList l) = Some l"
| "as_list _ = None"

fun as_str :: "pyval \<Rightarrow> string option" where
  "as_str (PStr s) = Some s"
| "as_str _ = None"

lemma as_str_Some [simp]: "as_str v = Some s \<longleftrightarrow> v = PStr s"
  by (cases v) auto

lemma as_dict_Some [simp]: "as_dict v = Some d \<longleftrightarrow> v = PDict d"
  by (cases v) auto

lemma as_list_Some [simp]: "as_list v = Some l \<longleftrightarrow> v = PList l"
  by (cases v) auto

definition is_str :: "pyval \<Rightarrow> bool" where
  "is_str v \<longleftrightarrow> as_str v \<noteq> None"

lemma is_str_simps [simp]:
  "is_str (PStr s)" "\<not> is_str PNone" "\<not> is_str (PBool b)" "\<not> is_str (PInt i)"
  "\<not> is_str (PFloat f)" "\<not> is_str (PTime t)" "\<not> is_str (PList l)" "\<not> is_str (PDict d)"
  by (simp_all add: is_str_def)

lemma is_str_iff: "is_str v \<longleftrightarrow> (\<exists>s. v = PStr s)"
  by (cases v) auto

fun truthy :: "pyval \<Rightarrow> bool" where
  "truthy PNone = False"
| "truthy (PBool b) = b"
| "truthy (PInt i) = (i \<noteq> 0)"
| "truthy (PFloat r) = (r \<noteq> ''0.0'' \<and> r \<noteq> ''-0.0'')"
| "truthy (PStr s) = (s \<noteq> [])"
| "truthy (PTime _) = True"
| "truthy (PList l) = (l \<noteq> [])"
| "truthy (PDict d) = (d \<noteq> [])"

definition py_or :: "pyval \<Rightarrow> pyval \<Rightarrow> pyval" where
  "py_or a b = (if truthy a then a else b)"

text \<open>Lists and dicts are unhashable; a membership test in a set hashes its left operand first.\<close>

fun hashable :: "pyval \<Rightarrow> bool" where
  "hashable (PList _) = False"
| "hashable (PDict _) = False"
| "hashable _ = True"

definition in_set :: "pyval \<Rightarrow> string list \<Rightarrow> (pyexc, bool) res" where
  "in_set v S = (if hashable v then Inr (\<exists>s \<in> set S. v = PStr s) else Inl TypeError)"

lemma in_set_simps [simp, py_simps]:
  "in_set (PStr s) S = Inr (s \<in> set S)"
  "in_set PNone S = Inr False"
  by (auto simp: in_set_def)

lemma returns_in_set [simp]: "returns (in_set v S) \<longleftrightarrow> hashable v"
  by (simp add: in_set_def)

lemma in_set_True: "in_set v S = Inr True \<longleftrightarrow> (\<exists>s \<in> set S. v = PStr s)"
  by (cases v) (auto simp: in_set_def)

lemma in_set_False: "in_set v S = Inr False \<longleftrightarrow> hashable v \<and> (\<forall>s \<in> set S. v \<noteq> PStr s)"
  by (auto simp: in_set_def)

fun type_name :: "pyval \<Rightarrow> string" where
  "type_name PNone = ''NoneType''"
| "type_name (PBool _) = ''bool''"
| "type_name (PInt _) = ''int''"
| "type_name (PFloat _) = ''float''"
| "type_name (PStr _) = ''str''"
| "type_name (PTime _) = ''datetime''"
| "type_name (PList _) = ''list''"
| "type_name (PDict _) = ''dict''"

section \<open>repr and str\<close>

definition hex_digit :: "nat \<Rightarrow> char" where
  "hex_digit n = (if n < 10 then char_of (48 + n) else char_of (87 + n))"

definition hex2 :: "nat \<Rightarrow> string" where
  "hex2 n = [hex_digit (n div 16), hex_digit (n mod 16)]"

definition repr_char :: "char \<Rightarrow> char \<Rightarrow> string" where
  "repr_char q c =
     (let n = (of_char c :: nat) in
      if c = q \<or> n = 92 then [char_of (92::nat), c]
      else if n = 9 then [char_of (92::nat), CHR ''t'']
      else if n = 10 then [char_of (92::nat), CHR ''n'']
      else if n = 13 then [char_of (92::nat), CHR ''r'']
      else if n < 32 \<or> (127 \<le> n \<and> n \<le> 160) \<or> n = 173 then [char_of (92::nat), CHR ''x''] @ hex2 n
      else [c])"

definition squote :: char where "squote = char_of (39::nat)"
definition dquote :: char where "dquote = char_of (34::nat)"

definition repr_str :: "string \<Rightarrow> string" where
  "repr_str s =
     (let q = (if squote \<in> set s \<and> dquote \<notin> set s then dquote else squote)
      in [q] @ concat (map (repr_char q) s) @ [q])"

definition repr_time :: "instant \<Rightarrow> string" where
  "repr_time t =
     (let u = t mod 1000000; s = t div 1000000; (y, m, d) = day_to_ymd (s div 86400); r = s mod 86400;
          fields = [y, m, d, r div 3600, r div 60 mod 60]
                   @ (if u = 0 \<and> r mod 60 = 0 then [] else [r mod 60]) @ (if u = 0 then [] else [u])
      in ''datetime.datetime('' @ join_str '', '' (map show_nat fields) @
         '', tzinfo=datetime.timezone.utc)'')"

fun py_repr :: "pyval \<Rightarrow> string" where
  "py_repr PNone = ''None''"
| "py_repr (PBool b) = (if b then ''True'' else ''False'')"
| "py_repr (PInt i) = show_int i"
| "py_repr (PFloat r) = r"
| "py_repr (PStr s) = repr_str s"
| "py_repr (PTime t) = repr_time t"
| "py_repr (PList l) = ''['' @ join_str '', '' (map py_repr l) @ '']''"
| "py_repr (PDict d) = ''{'' @ join_str '', '' (map (\<lambda>(k, v). repr_str k @ '': '' @ py_repr v) d) @ ''}''"

fun py_str :: "pyval \<Rightarrow> string" where
  "py_str (PStr s) = s"
| "py_str (PTime t) = (let u = t mod 1000000 in takeWhile (\<lambda>c. c \<noteq> CHR ''T'') (iso_utc t) @ '' '' @
      take 8 (tl (dropWhile (\<lambda>c. c \<noteq> CHR ''T'') (iso_utc t))) @
      (if u = 0 then '''' else ''.'' @ drop 1 (show_nat (1000000 + u))) @ ''+00:00'')"
| "py_str v = py_repr v"

text \<open>\<open>str.join\<close> raises when an element is not a string.\<close>

definition join_vals :: "string \<Rightarrow> pyval list \<Rightarrow> (pyexc, string) res" where
  "join_vals sep vs =
     (if list_all is_str vs then Inr (join_str sep (map (\<lambda>v. the (as_str v)) vs)) else Inl TypeError)"

lemma returns_join_vals [simp]: "returns (join_vals sep vs) \<longleftrightarrow> list_all is_str vs"
  by (simp add: join_vals_def)

end
