(* ===== verification/Denylist.thy ===== *)
theory Denylist
  imports PyValue
begin

text \<open>
  The plan denylist of \<open>driftscribe_lib/iac_plan_denylist.py\<close>: a fail-closed policy over the
  parsed \<open>plan.json\<close> of OpenTofu.  The per-resource checks, the structural checks and the
  plan-wide import rules are the code's, in its order; a check that puts an unhashable value into
  a set membership test raises, so every check returns or raises.  The declarative counterpart is
  \<open>plan_admissible\<close>, and \<open>evaluate_pass_iff\<close> shows the two agree.  The dashes in the messages
  are written in ASCII.
\<close>

record violation =
  rule :: string
  detail :: string

definition Violation :: "string \<Rightarrow> string \<Rightarrow> violation" where
  "Violation r d = \<lparr>rule = r, detail = d\<rparr>"

lemma rule_Violation [simp]: "rule (Violation r d) = r"
  by (simp add: Violation_def)

section \<open>Action vocabulary\<close>

type_synonym actions = "string list"

definition NO_OP_ACTION_TUPLES :: "actions list" where
  "NO_OP_ACTION_TUPLES = [[''no-op''], [''read'']]"

definition DELETE_ACTION_TUPLES :: "actions list" where
  "DELETE_ACTION_TUPLES = [[''delete'']]"

definition FORGET_ACTION_TUPLES :: "actions list" where
  "FORGET_ACTION_TUPLES = [[''forget'']]"

definition REPLACE_ACTION_TUPLES :: "actions list" where
  "REPLACE_ACTION_TUPLES = [[''delete'', ''create''], [''create'', ''delete'']]"

definition MUTATION_KNOWN_TUPLES :: "actions list" where
  "MUTATION_KNOWN_TUPLES = [[''create''], [''update'']] @ DELETE_ACTION_TUPLES
     @ FORGET_ACTION_TUPLES @ REPLACE_ACTION_TUPLES"

definition ALL_KNOWN_TUPLES :: "actions list" where
  "ALL_KNOWN_TUPLES = NO_OP_ACTION_TUPLES @ MUTATION_KNOWN_TUPLES"

lemmas action_defs = NO_OP_ACTION_TUPLES_def DELETE_ACTION_TUPLES_def FORGET_ACTION_TUPLES_def
  REPLACE_ACTION_TUPLES_def MUTATION_KNOWN_TUPLES_def ALL_KNOWN_TUPLES_def

section \<open>Protected identities\<close>

definition CLOUD_RUN_SERVICE_TYPES :: "string list" where
  "CLOUD_RUN_SERVICE_TYPES =
    [''google_cloud_run_v2_service'', ''google_cloud_run_service'']"

definition CONTROL_PLANE_SERVICE_NAMES :: "string list" where
  "CONTROL_PLANE_SERVICE_NAMES =
    [''driftscribe-agent'', ''driftscribe-reader'', ''driftscribe-docs'',
     ''driftscribe-rollback'', ''driftscribe-notifier'', ''driftscribe-upgrade-reader'',
     ''driftscribe-upgrade-docs'', ''driftscribe-infra-reader'', ''driftscribe-tofu-apply'',
     ''driftscribe-tofu-editor'', ''tofu-apply'', ''tofu-editor'', ''driftscribe-plan-builder'']"

definition CONTROL_PLANE_SA_ACCOUNT_IDS :: "string list" where
  "CONTROL_PLANE_SA_ACCOUNT_IDS =
    [''driftscribe-agent'', ''reader-agent-sa'', ''docs-agent-sa'', ''rollback-agent-sa'',
     ''notifier-agent-sa'', ''upgrade-reader-sa'', ''upgrade-docs-sa'', ''infra-reader-sa'',
     ''tofu-plan-builder'', ''eventarc-trigger-sa'', ''tofu-apply-sa'', ''tofu-editor-sa'']"

definition CONTROL_PLANE_BUCKET_SUFFIXES :: "string list" where
  "CONTROL_PLANE_BUCKET_SUFFIXES =
    [''-tofu-state'', ''-tofu-artifacts'']"

definition SERVICE_MANAGED_BUCKET_SUFFIXES :: "string list" where
  "SERVICE_MANAGED_BUCKET_SUFFIXES =
    [''_cloudbuild'', ''.appspot.com'']"

definition SERVICE_MANAGED_BUCKET_PREFIXES :: "string list" where
  "SERVICE_MANAGED_BUCKET_PREFIXES =
    [''gcf-sources-'', ''gcf-v2-sources-'', ''gcf-v2-uploads-'', ''run-sources-'']"

definition SERVICE_MANAGED_PUBSUB_PREFIXES :: "string list" where
  "SERVICE_MANAGED_PUBSUB_PREFIXES =
    [''eventarc-'']"

definition CONTROL_PLANE_SECRET_IDS :: "string list" where
  "CONTROL_PLANE_SECRET_IDS =
    [''approval-hmac-key'', ''coordinator-shared-token'', ''plan-hmac-key'', ''github-pat'',
     ''docs-agent-github-pat'', ''upgrade-reader-github-pat'', ''upgrade-docs-github-pat'',
     ''developer-knowledge-api-key'', ''driftscribe-webhook-url'', ''tofu-editor-github-pat'']"

definition CONTROL_PLANE_KMS_KEY_NAMES :: "string list" where
  "CONTROL_PLANE_KMS_KEY_NAMES =
    [''tofu-state'']"

definition CONTROL_PLANE_KMS_KEYRING_NAMES :: "string list" where
  "CONTROL_PLANE_KMS_KEYRING_NAMES =
    [''driftscribe-tofu'']"

definition WIF_RESOURCE_TYPES :: "string list" where
  "WIF_RESOURCE_TYPES =
    [''google_iam_workload_identity_pool'', ''google_iam_workload_identity_pool_provider'']"

definition ADOPTABLE_RESOURCE_TYPES :: "string list" where
  "ADOPTABLE_RESOURCE_TYPES =
    [''google_storage_bucket'', ''google_pubsub_topic'', ''google_pubsub_subscription'',
     ''google_cloud_run_v2_service'']"

definition PUBSUB_RESOURCE_TYPES :: "string list" where
  "PUBSUB_RESOURCE_TYPES =
    [''google_pubsub_topic'', ''google_pubsub_subscription'']"

definition IAM_EXTRA_TYPES :: "string list" where
  "IAM_EXTRA_TYPES =
    [''google_service_account'', ''google_service_account_key'',
     ''google_project_iam_audit_config'', ''google_project_iam_custom_role'',
     ''google_organization_iam_custom_role''] @ WIF_RESOURCE_TYPES"

section \<open>Structure of an entry\<close>

type_synonym vres = "(pyexc, violation list) res"

text \<open>\<open>load_plan_json\<close>; the parser of the standard library is the argument \<open>loads\<close>, which gives
  the parsed value or its diagnostic.\<close>

definition load_plan_json ::
  "(string \<Rightarrow> string + pyval) \<Rightarrow> string \<Rightarrow> pydict option \<times> violation option" where
  "load_plan_json loads text =
     (case loads text of
        Inl e \<Rightarrow> (None, Some (Violation ''plan-json-unparseable'' (''json decode error: '' @ e)))
      | Inr parsed \<Rightarrow>
          (case as_dict parsed of
             None \<Rightarrow> (None, Some (Violation ''plan-json-unparseable''
                       (''root is '' @ type_name parsed @ '', expected object'')))
           | Some d \<Rightarrow> (Some d, None)))"

text \<open>One step of \<open>_iter_resource_changes\<close>: the type and the action tuple, the latter missing for
  a malformed entry.\<close>

definition iter_entry :: "pyval \<Rightarrow> string option \<times> actions option" where
  "iter_entry rc =
     (case rc of
        PDict d \<Rightarrow>
          (case as_str (dget d ''type'') of
             None \<Rightarrow> (None, None)
           | Some t \<Rightarrow>
               (case dget d ''change'' of
                  PDict c \<Rightarrow>
                    (case dget c ''actions'' of
                       PList l \<Rightarrow> (Some t, if list_all is_str l then Some (map (\<lambda>v. the (as_str v)) l) else None)
                     | _ \<Rightarrow> (Some t, None))
                | _ \<Rightarrow> (Some t, None)))
      | _ \<Rightarrow> (None, None))"

definition is_mutation :: "actions \<Rightarrow> bool" where
  "is_mutation acts \<longleftrightarrow> acts \<notin> set NO_OP_ACTION_TUPLES"

definition identity_dicts :: "pydict \<Rightarrow> pydict \<times> pydict" where
  "identity_dicts rc =
     (let change = (case dget rc ''change'' of PDict c \<Rightarrow> c | _ \<Rightarrow> []);
          side = (\<lambda>k. case dget change k of PDict d \<Rightarrow> d | _ \<Rightarrow> [])
      in (side ''before'', side ''after''))"

definition address_of :: "pydict \<Rightarrow> pyval" where
  "address_of rc = dget_or rc ''address'' (PStr ''<unknown>'')"

definition addr_text :: "pydict \<Rightarrow> string" where
  "addr_text rc = py_str (address_of rc)"

definition actions_text :: "actions \<Rightarrow> string" where
  "actions_text acts = py_repr (PList (map PStr acts))"

text \<open>\<open>(b in S) or (a in S)\<close>: the right operand is not evaluated when the left one is true.\<close>

definition either_in :: "pyval \<Rightarrow> pyval \<Rightarrow> string list \<Rightarrow> (pyexc, bool) res" where
  "either_in b a S = rbind (in_set b S) (\<lambda>x. if x then Inr True else in_set a S)"

definition malformed :: "pydict \<Rightarrow> string \<Rightarrow> violation" where
  "malformed rc msg = Violation ''plan-json-malformed-change'' (addr_text rc @ '': '' @ msg)"

lemma rule_malformed [simp]: "rule (malformed rc msg) = ''plan-json-malformed-change''"
  by (simp add: malformed_def)

section \<open>The per-resource checks\<close>

definition check_control_plane_service ::
  "pydict \<Rightarrow> string \<Rightarrow> actions \<Rightarrow> pydict \<Rightarrow> pydict \<Rightarrow> vres" where
  "check_control_plane_service rc rtype acts before after =
     (if rtype \<notin> set CLOUD_RUN_SERVICE_TYPES then Inr []
      else let b = dget before ''name''; a = dget after ''name'' in
        if \<not> is_str b \<and> \<not> is_str a
        then Inr [malformed rc (rtype @ '' has no name in before/after'')]
        else rbind (either_in b a CONTROL_PLANE_SERVICE_NAMES) (\<lambda>hit.
          Inr (if hit then [Violation ''control-plane-service''
                 (addr_text rc @ '': Cloud Run service '' @ py_repr (py_or a b) @
                  '' is control plane (actions='' @ actions_text acts @ '')'')] else [])))"

definition sa_account_id :: "pydict \<Rightarrow> string option" where
  "sa_account_id ident =
     (case dget ident ''account_id'' of
        PStr aid \<Rightarrow> Some aid
      | _ \<Rightarrow> (case dget ident ''email'' of
                PStr email \<Rightarrow> map_option fst (split_once ''@'' email)
              | _ \<Rightarrow> None))"

definition opt_val :: "string option \<Rightarrow> pyval" where
  "opt_val x = (case x of None \<Rightarrow> PNone | Some s \<Rightarrow> PStr s)"

lemma opt_val_simps [simp]: "opt_val None = PNone" "opt_val (Some s) = PStr s"
  by (simp_all add: opt_val_def)

definition check_control_plane_sa ::
  "pydict \<Rightarrow> string \<Rightarrow> actions \<Rightarrow> pydict \<Rightarrow> pydict \<Rightarrow> vres" where
  "check_control_plane_sa rc rtype acts before after =
     (if rtype \<noteq> ''google_service_account'' then Inr []
      else let b = opt_val (sa_account_id before); a = opt_val (sa_account_id after) in
        if b = PNone \<and> a = PNone
        then Inr [malformed rc ''google_service_account has no account_id/email'']
        else rbind (either_in b a CONTROL_PLANE_SA_ACCOUNT_IDS) (\<lambda>hit.
          Inr (if hit then [Violation ''control-plane-sa''
                 (addr_text rc @ '': SA '' @ py_repr (py_or a b) @
                  '' is control plane (actions='' @ actions_text acts @ '')'')] else [])))"

definition is_protected_bucket_name :: "pyval \<Rightarrow> bool" where
  "is_protected_bucket_name v =
     (case v of PStr name \<Rightarrow> \<exists>s \<in> set CONTROL_PLANE_BUCKET_SUFFIXES. ends_with s name | _ \<Rightarrow> False)"

definition is_service_managed_bucket_name :: "pyval \<Rightarrow> bool" where
  "is_service_managed_bucket_name v =
     (case v of
        PStr name \<Rightarrow> (\<exists>s \<in> set SERVICE_MANAGED_BUCKET_SUFFIXES. ends_with s name)
                   \<or> (\<exists>p \<in> set SERVICE_MANAGED_BUCKET_PREFIXES. starts_with p name)
      | _ \<Rightarrow> False)"

definition is_service_managed_pubsub_name :: "pyval \<Rightarrow> bool" where
  "is_service_managed_pubsub_name v =
     (case v of PStr name \<Rightarrow> \<exists>p \<in> set SERVICE_MANAGED_PUBSUB_PREFIXES. starts_with p name | _ \<Rightarrow> False)"

definition CONTROL_PLANE_NODE_MATCHERS :: "(string \<times> (string \<Rightarrow> bool)) list" where
  "CONTROL_PLANE_NODE_MATCHERS =
     [(''storage.googleapis.com/Bucket'',
         \<lambda>name. (\<exists>s \<in> set CONTROL_PLANE_BUCKET_SUFFIXES. ends_with s name)
                \<or> is_service_managed_bucket_name (PStr name)),
      (''run.googleapis.com/Service'', \<lambda>name. name \<in> set CONTROL_PLANE_SERVICE_NAMES),
      (''pubsub.googleapis.com/Topic'', \<lambda>name. is_service_managed_pubsub_name (PStr name)),
      (''pubsub.googleapis.com/Subscription'', \<lambda>name. is_service_managed_pubsub_name (PStr name))]"

text \<open>The lookup hashes the asset type, so an unhashable one raises.\<close>

definition is_control_plane_node :: "pyval \<Rightarrow> pyval \<Rightarrow> (pyexc, bool) res" where
  "is_control_plane_node asset_type name =
     (if \<not> hashable asset_type then Inl TypeError
      else Inr (case (asset_type, name) of
                  (PStr t, PStr n) \<Rightarrow>
                    (case map_of CONTROL_PLANE_NODE_MATCHERS t of
                       None \<Rightarrow> False
                     | Some matcher \<Rightarrow> n \<noteq> [] \<and> matcher n)
                | _ \<Rightarrow> False))"

definition check_control_plane_bucket ::
  "pydict \<Rightarrow> string \<Rightarrow> actions \<Rightarrow> pydict \<Rightarrow> pydict \<Rightarrow> vres" where
  "check_control_plane_bucket rc rtype acts before after =
     (if rtype = ''google_storage_bucket'' then
        let b = dget before ''name''; a = dget after ''name'' in
        if \<not> is_str b \<and> \<not> is_str a
        then Inr [malformed rc ''google_storage_bucket has no name'']
        else Inr (if is_protected_bucket_name b \<or> is_protected_bucket_name a
                  then [Violation ''control-plane-bucket''
                    (addr_text rc @ '': protected bucket '' @ py_repr (py_or a b) @
                     '' (actions='' @ actions_text acts @ '')'')] else [])
      else if rtype = ''google_storage_bucket_object'' then
        let b = dget before ''bucket''; a = dget after ''bucket'' in
        if \<not> is_str b \<and> \<not> is_str a
        then Inr [malformed rc ''google_storage_bucket_object has no bucket'']
        else Inr (if is_protected_bucket_name b \<or> is_protected_bucket_name a
                  then [Violation ''control-plane-bucket''
                    (addr_text rc @ '': object in protected bucket '' @ py_repr (py_or a b) @
                     '' (actions='' @ actions_text acts @ '')'')] else [])
      else Inr [])"

definition check_service_managed_bucket ::
  "pydict \<Rightarrow> string \<Rightarrow> actions \<Rightarrow> pydict \<Rightarrow> pydict \<Rightarrow> vres" where
  "check_service_managed_bucket rc rtype acts before after =
     (if rtype \<noteq> ''google_storage_bucket'' then Inr []
      else let b = dget before ''name''; a = dget after ''name'' in
        Inr (if is_service_managed_bucket_name b \<or> is_service_managed_bucket_name a
             then [Violation ''service-managed-bucket''
               (addr_text rc @ '': Google-service-managed bucket '' @ py_repr (py_or a b) @
                '' (actions='' @ actions_text acts @ '')'')] else []))"

definition check_service_managed_pubsub ::
  "pydict \<Rightarrow> string \<Rightarrow> actions \<Rightarrow> pydict \<Rightarrow> pydict \<Rightarrow> vres" where
  "check_service_managed_pubsub rc rtype acts before after =
     (if rtype \<notin> set PUBSUB_RESOURCE_TYPES then Inr []
      else let b = dget before ''name''; a = dget after ''name'' in
        if \<not> is_str b \<and> \<not> is_str a then Inr [malformed rc (rtype @ '' has no name'')]
        else Inr (if is_service_managed_pubsub_name b \<or> is_service_managed_pubsub_name a
                  then [Violation ''service-managed-pubsub''
                    (addr_text rc @ '': Eventarc-managed Pub/Sub resource '' @ py_repr (py_or a b) @
                     '' (actions='' @ actions_text acts @ '')'')] else []))"

definition secret_id_from_version_path :: "pyval \<Rightarrow> string option" where
  "secret_id_from_version_path v =
     (case v of
        PStr s \<Rightarrow>
          (case split_once ''/secrets/'' s of
             None \<Rightarrow> None
           | Some (_, rest) \<Rightarrow>
               let head = takeWhile (\<lambda>c. c \<noteq> CHR ''/'') rest in if head = [] then None else Some head)
      | _ \<Rightarrow> None)"

definition secret_version_id :: "pydict \<Rightarrow> string option" where
  "secret_version_id ident =
     (case secret_id_from_version_path (dget ident ''secret'') of
        Some s \<Rightarrow> Some s
      | None \<Rightarrow> secret_id_from_version_path (dget ident ''name''))"

definition check_control_plane_secret ::
  "pydict \<Rightarrow> string \<Rightarrow> actions \<Rightarrow> pydict \<Rightarrow> pydict \<Rightarrow> vres" where
  "check_control_plane_secret rc rtype acts before after =
     (if rtype = ''google_secret_manager_secret'' then
        let b = dget before ''secret_id''; a = dget after ''secret_id'' in
        if \<not> is_str b \<and> \<not> is_str a
        then Inr [malformed rc ''google_secret_manager_secret has no secret_id'']
        else rbind (either_in b a CONTROL_PLANE_SECRET_IDS) (\<lambda>hit.
          Inr (if hit then [Violation ''control-plane-secret''
                 (addr_text rc @ '': secret '' @ py_repr (py_or a b) @
                  '' (actions='' @ actions_text acts @ '')'')] else []))
      else if rtype = ''google_secret_manager_secret_version'' then
        let b = opt_val (secret_version_id before); a = opt_val (secret_version_id after) in
        if b = PNone \<and> a = PNone
        then Inr [malformed rc ''secret_version path has no /secrets/<id>'']
        else rbind (either_in b a CONTROL_PLANE_SECRET_IDS) (\<lambda>hit.
          Inr (if hit then [Violation ''control-plane-secret''
                 (addr_text rc @ '': version of '' @ py_repr (py_or a b) @
                  '' (actions='' @ actions_text acts @ '')'')] else []))
      else Inr [])"

definition kms_protected :: "string \<Rightarrow> string list option" where
  "kms_protected rtype =
     (if rtype = ''google_kms_crypto_key'' then Some CONTROL_PLANE_KMS_KEY_NAMES
      else if rtype = ''google_kms_key_ring'' then Some CONTROL_PLANE_KMS_KEYRING_NAMES
      else None)"

definition check_control_plane_kms ::
  "pydict \<Rightarrow> string \<Rightarrow> actions \<Rightarrow> pydict \<Rightarrow> pydict \<Rightarrow> vres" where
  "check_control_plane_kms rc rtype acts before after =
     (case kms_protected rtype of
        None \<Rightarrow> Inr []
      | Some protected_names \<Rightarrow>
          let b = dget before ''name''; a = dget after ''name'' in
          if \<not> is_str b \<and> \<not> is_str a then Inr [malformed rc (rtype @ '' has no name'')]
          else rbind (either_in b a protected_names) (\<lambda>hit.
            Inr (if hit then [Violation ''control-plane-kms''
                   (addr_text rc @ '': protected KMS resource '' @ py_repr (py_or a b) @
                    '' (actions='' @ actions_text acts @ '')'')] else [])))"

definition is_iam_type :: "string \<Rightarrow> bool" where
  "is_iam_type rtype \<longleftrightarrow>
     rtype \<in> set IAM_EXTRA_TYPES \<or> (starts_with ''google_'' rtype \<and> contains_str ''_iam_'' rtype)"

definition check_wif :: "pydict \<Rightarrow> string \<Rightarrow> actions \<Rightarrow> vres" where
  "check_wif rc rtype acts =
     Inr (if rtype \<in> set WIF_RESOURCE_TYPES
          then [Violation ''wif-config-change''
            (addr_text rc @ '': WIF '' @ repr_str rtype @ '' (actions='' @ actions_text acts @ '')'')]
          else [])"

definition check_iam :: "pydict \<Rightarrow> string \<Rightarrow> actions \<Rightarrow> vres" where
  "check_iam rc rtype acts =
     Inr (if is_iam_type rtype
          then [Violation ''iam-change-forbidden-v1''
            (addr_text rc @ '': IAM '' @ repr_str rtype @ '' (actions='' @ actions_text acts @
             '') - v1 hard-deny'')]
          else [])"

section \<open>The evaluator\<close>

text \<open>The identity rules of one entry, in the order the loop calls them.\<close>

definition identity_checks :: "pydict \<Rightarrow> string \<Rightarrow> actions \<Rightarrow> vres" where
  "identity_checks rc rtype acts =
     (let (before, after) = identity_dicts rc in
      rbind (traverse (\<lambda>check. check rc rtype acts before after)
        [check_control_plane_service, check_control_plane_sa, check_control_plane_bucket,
         check_service_managed_bucket, check_service_managed_pubsub, check_control_plane_secret,
         check_control_plane_kms,
         \<lambda>rc rtype acts _ _. check_wif rc rtype acts, \<lambda>rc rtype acts _ _. check_iam rc rtype acts])
       (\<lambda>vss. Inr (concat vss)))"

definition importing_of :: "pydict \<Rightarrow> pyval" where
  "importing_of rc =
     (case dget rc ''change'' of PDict c \<Rightarrow> dget c ''importing'' | _ \<Rightarrow> PNone)"

definition import_floor :: "string \<Rightarrow> string \<Rightarrow> actions \<Rightarrow> pyval \<Rightarrow> violation list" where
  "import_floor address rtype acts importing =
     (if importing \<noteq> PNone \<and> as_dict importing = None
      then [Violation ''plan-json-malformed-change''
        (address @ '': importing is '' @ type_name importing @ '', expected object'')] else []) @
     (if importing \<noteq> PNone
      then (if acts \<noteq> [''no-op'']
            then [Violation ''import-with-changes-forbidden-v1''
              (address @ '': import would also CHANGE the resource (actions='' @ actions_text acts @
               '') -- only zero-change adopts are admitted; regenerate the config to match live reality (D1)'')]
            else []) @
           (if rtype \<notin> set ADOPTABLE_RESOURCE_TYPES
            then [Violation ''import-type-not-adoptable-v1''
              (address @ '': type '' @ repr_str rtype @ '' is not in the v1 adoptable allowlist'')]
            else [])
      else [])"

definition action_floor :: "string \<Rightarrow> actions \<Rightarrow> violation list" where
  "action_floor address acts =
     (if acts \<in> set DELETE_ACTION_TUPLES
      then [Violation ''delete-action-forbidden-v1''
        (address @ '': action '' @ actions_text acts @ '' forbidden in v1'')] else []) @
     (if acts \<in> set FORGET_ACTION_TUPLES
      then [Violation ''forget-action-forbidden-v1''
        (address @ '': action '' @ actions_text acts @ '' forbidden in v1'')] else []) @
     (if acts \<in> set REPLACE_ACTION_TUPLES
      then [Violation ''replace-action-forbidden-v1''
        (address @ '': action '' @ actions_text acts @ '' (replace) forbidden in v1'')] else [])"

record entry_out =
  found :: "violation list"
  imports_at :: "pyval list"
  mutates_at :: "pyval list"

text \<open>The loop body on a well-formed entry: what it appends to the violations, to
  \<open>importing_addresses\<close> and to \<open>other_mutation_addresses\<close>.\<close>

definition eval_change :: "pydict \<Rightarrow> string \<Rightarrow> actions \<Rightarrow> (pyexc, entry_out) res" where
  "eval_change rc rtype acts =
     (let address = py_str (address_of rc);
          importing = importing_of rc;
          floor = import_floor address rtype acts importing;
          out = (\<lambda>vs. \<lparr>found = vs,
                   imports_at = (if importing \<noteq> PNone then [address_of rc] else []),
                   mutates_at = (if importing = PNone \<and> acts \<notin> set NO_OP_ACTION_TUPLES
                                 then [address_of rc] else [])\<rparr>)
      in if acts \<notin> set ALL_KNOWN_TUPLES
         then Inr (out (floor @ [Violation ''unknown-action-forbidden-v1''
                (address @ '': action '' @ actions_text acts @ '' not in OpenTofu vocabulary'')]))
         else rbind (if is_mutation acts \<or> importing \<noteq> PNone
                     then identity_checks rc rtype acts else Inr [])
                (\<lambda>vs. Inr (out (floor @ action_floor address acts @ vs))))"

definition eval_entry :: "pyval \<Rightarrow> (pyexc, entry_out) res" where
  "eval_entry rc =
     (case (rc, iter_entry rc) of
        (PDict d, (Some rtype, Some acts)) \<Rightarrow> eval_change d rtype acts
      | _ \<Rightarrow> Inr \<lparr>found = [Violation ''plan-json-malformed-change''
                (case rc of
                   PDict d \<Rightarrow> addr_text d @ '': missing or malformed type / change / change.actions''
                 | _ \<Rightarrow> ''resource_changes entry is '' @ type_name rc @ '', expected object'')],
               imports_at = [], mutates_at = []\<rparr>)"

definition plan_wide :: "pyval list \<Rightarrow> pyval list \<Rightarrow> vres" where
  "plan_wide imports others =
     rbind (if 1 < length imports
            then rbind (join_vals '', '' imports) (\<lambda>txt.
              Inr [Violation ''import-batch-forbidden-v1''
                (''plan imports '' @ show_nat (length imports) @ '' resources ('' @ txt @
                 '') -- one adoption per PR (D3)'')])
            else Inr []) (\<lambda>batch.
     rbind (if imports \<noteq> [] \<and> others \<noteq> []
            then rbind (join_vals '', '' imports) (\<lambda>it. rbind (join_vals '', '' others) (\<lambda>ot.
              Inr [Violation ''import-mixed-plan-forbidden-v1''
                (''plan mixes an import ('' @ it @ '') with other mutations ('' @ ot @
                 '') -- an adoption plan may contain nothing but the adoption'')]))
            else Inr []) (\<lambda>mixed. Inr (batch @ mixed)))"

definition evaluate :: "pydict \<Rightarrow> vres" where
  "evaluate plan =
     (case dget plan ''resource_changes'' of
        PList rcs \<Rightarrow>
          rbind (traverse eval_entry rcs) (\<lambda>outs.
          rbind (plan_wide (concat (map imports_at outs)) (concat (map mutates_at outs))) (\<lambda>tail.
            Inr (concat (map found outs) @ tail)))
      | v \<Rightarrow> Inr [Violation ''plan-json-missing-resource-changes''
               (''resource_changes is '' @ type_name v @ '', expected list'')])"

text \<open>The descriptions the coordinator serves to operators, keyed by rule identifier.\<close>

definition RULE_DESCRIPTIONS :: "(string \<times> string) list" where
  "RULE_DESCRIPTIONS =
    [(''plan-json-unparseable'',
        ''The plan file isn't valid JSON (fail-closed).''),
     (''plan-json-missing-resource-changes'',
        ''The plan has no resource-changes list (fail-closed).''),
     (''plan-json-malformed-change'',
        ''A change entry is malformed, or a protected resource hides its identity '' @
        ''(fail-closed).''),
     (''control-plane-service'',
        ''The Cloud Run services.''),
     (''control-plane-sa'',
        ''The service accounts.''),
     (''control-plane-bucket'',
        ''The IaC state and artifact buckets, and every object inside them.''),
     (''service-managed-bucket'',
        ''Cloud Build, App Engine, Cloud Functions, and Cloud Run source-deploy each '' @
        ''auto-create their own buckets. Google's to manage, not DriftScribe's to track.''),
     (''service-managed-pubsub'',
        ''Eventarc auto-creates a Pub/Sub topic and subscription to deliver each trigger's '' @
        ''events. Eventarc's to manage, not DriftScribe's to track.''),
     (''control-plane-secret'',
        ''The secrets: approval keys, the GitHub token, and every version.''),
     (''control-plane-kms'',
        ''The state-encryption KMS key and its key ring.''),
     (''wif-config-change'',
        ''Workload Identity Federation pools and providers.''),
     (''iam-change-forbidden-v1'',
        ''Any IAM change at all, even on unrelated resources (v1 floor).''),
     (''import-with-changes-forbidden-v1'',
        ''Adopting a resource must change nothing: if importing it would also modify it, '' @
        ''the plan is refused and the coordinator must regenerate config that matches live '' @
        ''reality exactly.''),
     (''import-type-not-adoptable-v1'',
        ''Only Cloud Storage buckets, Pub/Sub topics and subscriptions, and Cloud Run '' @
        ''services can be adopted in v1. Every other type is refused.''),
     (''import-mixed-plan-forbidden-v1'',
        ''An adoption plan may contain nothing but the adoption. Any other change in the '' @
        ''same plan is refused.''),
     (''import-batch-forbidden-v1'',
        ''One adoption at a time: a plan importing more than one resource is refused.''),
     (''delete-action-forbidden-v1'',
        ''Deleting any resource (v1 floor).''),
     (''forget-action-forbidden-v1'',
        ''Forgetting a resource from state (v1 floor).''),
     (''replace-action-forbidden-v1'',
        ''Replacing a resource: destroy-and-recreate (v1 floor).''),
     (''unknown-action-forbidden-v1'',
        ''Any action outside the audited OpenTofu vocabulary (fail-closed against new '' @
        ''verbs).'')]"

definition RULE_IDS :: "string list" where
  "RULE_IDS = map fst RULE_DESCRIPTIONS"

section \<open>The declarative policy\<close>

text \<open>The attribute that identifies a resource of a protected type, on one side of a change.\<close>

definition IDENTIFIED_TYPES :: "string list" where
  "IDENTIFIED_TYPES =
     CLOUD_RUN_SERVICE_TYPES @ [''google_service_account'', ''google_storage_bucket'',
       ''google_storage_bucket_object''] @ PUBSUB_RESOURCE_TYPES @
     [''google_secret_manager_secret'', ''google_secret_manager_secret_version'',
      ''google_kms_crypto_key'', ''google_kms_key_ring'']"

definition ident :: "string \<Rightarrow> pydict \<Rightarrow> pyval" where
  "ident t side =
     (if t = ''google_service_account'' then opt_val (sa_account_id side)
      else if t = ''google_storage_bucket_object'' then dget side ''bucket''
      else if t = ''google_secret_manager_secret'' then dget side ''secret_id''
      else if t = ''google_secret_manager_secret_version'' then opt_val (secret_version_id side)
      else dget side ''name'')"

definition protected_name :: "string \<Rightarrow> string \<Rightarrow> bool" where
  "protected_name t n \<longleftrightarrow>
     t \<in> set CLOUD_RUN_SERVICE_TYPES \<and> n \<in> set CONTROL_PLANE_SERVICE_NAMES
   \<or> t = ''google_service_account'' \<and> n \<in> set CONTROL_PLANE_SA_ACCOUNT_IDS
   \<or> (t = ''google_storage_bucket'' \<or> t = ''google_storage_bucket_object'') \<and> is_protected_bucket_name (PStr n)
   \<or> t = ''google_storage_bucket'' \<and> is_service_managed_bucket_name (PStr n)
   \<or> t \<in> set PUBSUB_RESOURCE_TYPES \<and> is_service_managed_pubsub_name (PStr n)
   \<or> (t = ''google_secret_manager_secret'' \<or> t = ''google_secret_manager_secret_version'')
       \<and> n \<in> set CONTROL_PLANE_SECRET_IDS
   \<or> t = ''google_kms_crypto_key'' \<and> n \<in> set CONTROL_PLANE_KMS_KEY_NAMES
   \<or> t = ''google_kms_key_ring'' \<and> n \<in> set CONTROL_PLANE_KMS_KEYRING_NAMES"

text \<open>The types whose identity is looked up in a set, where an unhashable value raises.\<close>

definition hashed_type :: "string \<Rightarrow> bool" where
  "hashed_type t \<longleftrightarrow> t \<in> set CLOUD_RUN_SERVICE_TYPES \<or>
     t \<in> {''google_secret_manager_secret'', ''google_kms_crypto_key'', ''google_kms_key_ring''}"

definition protected_val :: "string \<Rightarrow> pyval \<Rightarrow> bool" where
  "protected_val t v = (case v of PStr n \<Rightarrow> protected_name t n | _ \<Rightarrow> False)"

definition identity_clean :: "string \<Rightarrow> pydict \<Rightarrow> pydict \<Rightarrow> bool" where
  "identity_clean t b a \<longleftrightarrow>
     \<not> is_iam_type t \<and>
     (t \<in> set IDENTIFIED_TYPES \<longrightarrow>
        (is_str (ident t b) \<or> is_str (ident t a)) \<and>
        (hashed_type t \<longrightarrow> hashable (ident t b) \<and> hashable (ident t a)) \<and>
        \<not> protected_val t (ident t b) \<and> \<not> protected_val t (ident t a))"

text \<open>What an entry of an admissible plan looks like.\<close>

definition change_admissible :: "pydict \<Rightarrow> string \<Rightarrow> actions \<Rightarrow> bool" where
  "change_admissible rc t acts \<longleftrightarrow>
     acts \<in> {[''no-op''], [''read''], [''create''], [''update'']} \<and>
     (importing_of rc \<noteq> PNone \<longrightarrow>
        as_dict (importing_of rc) \<noteq> None \<and> acts = [''no-op''] \<and> t \<in> set ADOPTABLE_RESOURCE_TYPES) \<and>
     (acts \<in> {[''create''], [''update'']} \<or> importing_of rc \<noteq> PNone \<longrightarrow>
        (let (b, a) = identity_dicts rc in identity_clean t b a))"

fun entry_admissible :: "pyval \<Rightarrow> bool" where
  "entry_admissible (PDict d) =
     (case iter_entry (PDict d) of
        (Some t, Some acts) \<Rightarrow> change_admissible d t acts
      | _ \<Rightarrow> False)"
| "entry_admissible _ = False"

fun entry_imports :: "pyval \<Rightarrow> bool" where
  "entry_imports (PDict d) = (importing_of d \<noteq> PNone)"
| "entry_imports _ = False"

fun entry_mutates :: "pyval \<Rightarrow> bool" where
  "entry_mutates (PDict d) =
     (importing_of d = PNone \<and>
      (case iter_entry (PDict d) of (_, Some acts) \<Rightarrow> acts \<notin> set NO_OP_ACTION_TUPLES | _ \<Rightarrow> False))"
| "entry_mutates _ = False"

definition plan_admissible :: "pydict \<Rightarrow> bool" where
  "plan_admissible plan =
     (case dget plan ''resource_changes'' of
        PList rcs \<Rightarrow>
          list_all entry_admissible rcs \<and>
          length (filter entry_imports rcs) \<le> 1 \<and>
          (filter entry_imports rcs \<noteq> [] \<longrightarrow> filter entry_mutates rcs = [])
      | _ \<Rightarrow> False)"

section \<open>The checks decide the policy\<close>

lemmas set_defs = CLOUD_RUN_SERVICE_TYPES_def PUBSUB_RESOURCE_TYPES_def IDENTIFIED_TYPES_def

lemma either_in_False:
  "either_in b a S = Inr False \<longleftrightarrow>
     hashable b \<and> hashable a \<and> (\<forall>n \<in> set S. b \<noteq> PStr n \<and> a \<noteq> PStr n)"
  by (auto simp: either_in_def in_set_def rbind_require split: if_splits)

lemma returns_either_in:
  "returns (either_in b a S) \<longleftrightarrow> hashable b \<and> (hashable a \<or> (\<exists>n \<in> set S. b = PStr n))"
  by (auto simp: either_in_def in_set_def)

lemma hit_list_Nil:
  "rbind m (\<lambda>hit. Inr (if hit then [v] else [])) = Inr [] \<longleftrightarrow> m = Inr False"
  by (cases m) auto

lemma returns_hit_list [simp]: "returns (rbind m (\<lambda>hit. Inr (if hit then [v] else []))) \<longleftrightarrow> returns m"
  by (cases m) auto

lemma protected_val_PStr [simp]: "protected_val t (PStr n) = protected_name t n"
  by (simp add: protected_val_def)

lemma opt_val_eq_PNone [simp]: "opt_val x = PNone \<longleftrightarrow> x = None"
  by (cases x) auto

lemma is_str_opt_val [simp]: "is_str (opt_val x) \<longleftrightarrow> x \<noteq> None"
  by (cases x) auto

lemma hashable_opt_val [simp]: "hashable (opt_val x)"
  by (cases x) auto

named_theorems check_iffs \<open>each check is silent exactly when its part of the policy holds\<close>

lemma service_silent [check_iffs]:
  "check_control_plane_service rc t acts b a = Inr [] \<longleftrightarrow>
     (t \<in> set CLOUD_RUN_SERVICE_TYPES \<longrightarrow>
        (is_str (dget b ''name'') \<or> is_str (dget a ''name'')) \<and>
        hashable (dget b ''name'') \<and> hashable (dget a ''name'') \<and>
        (\<forall>n \<in> set CONTROL_PLANE_SERVICE_NAMES. dget b ''name'' \<noteq> PStr n \<and> dget a ''name'' \<noteq> PStr n))"
  by (auto simp: check_control_plane_service_def hit_list_Nil either_in_False Let_def)

lemma sa_silent [check_iffs]:
  "check_control_plane_sa rc t acts b a = Inr [] \<longleftrightarrow>
     (t = ''google_service_account'' \<longrightarrow>
        (sa_account_id b \<noteq> None \<or> sa_account_id a \<noteq> None) \<and>
        (\<forall>n \<in> set CONTROL_PLANE_SA_ACCOUNT_IDS.
           opt_val (sa_account_id b) \<noteq> PStr n \<and> opt_val (sa_account_id a) \<noteq> PStr n))"
  by (auto simp: check_control_plane_sa_def hit_list_Nil either_in_False Let_def)

lemma bucket_silent [check_iffs]:
  "check_control_plane_bucket rc t acts b a = Inr [] \<longleftrightarrow>
     (t = ''google_storage_bucket'' \<longrightarrow>
        (is_str (dget b ''name'') \<or> is_str (dget a ''name'')) \<and>
        \<not> is_protected_bucket_name (dget b ''name'') \<and> \<not> is_protected_bucket_name (dget a ''name'')) \<and>
     (t = ''google_storage_bucket_object'' \<longrightarrow>
        (is_str (dget b ''bucket'') \<or> is_str (dget a ''bucket'')) \<and>
        \<not> is_protected_bucket_name (dget b ''bucket'') \<and> \<not> is_protected_bucket_name (dget a ''bucket''))"
  by (auto simp: check_control_plane_bucket_def Let_def)

lemma managed_bucket_silent [check_iffs]:
  "check_service_managed_bucket rc t acts b a = Inr [] \<longleftrightarrow>
     (t = ''google_storage_bucket'' \<longrightarrow>
        \<not> is_service_managed_bucket_name (dget b ''name'') \<and>
        \<not> is_service_managed_bucket_name (dget a ''name''))"
  by (auto simp: check_service_managed_bucket_def Let_def)

lemma pubsub_silent [check_iffs]:
  "check_service_managed_pubsub rc t acts b a = Inr [] \<longleftrightarrow>
     (t \<in> set PUBSUB_RESOURCE_TYPES \<longrightarrow>
        (is_str (dget b ''name'') \<or> is_str (dget a ''name'')) \<and>
        \<not> is_service_managed_pubsub_name (dget b ''name'') \<and>
        \<not> is_service_managed_pubsub_name (dget a ''name''))"
  by (auto simp: check_service_managed_pubsub_def Let_def)

lemma secret_silent [check_iffs]:
  "check_control_plane_secret rc t acts b a = Inr [] \<longleftrightarrow>
     (t = ''google_secret_manager_secret'' \<longrightarrow>
        (is_str (dget b ''secret_id'') \<or> is_str (dget a ''secret_id'')) \<and>
        hashable (dget b ''secret_id'') \<and> hashable (dget a ''secret_id'') \<and>
        (\<forall>n \<in> set CONTROL_PLANE_SECRET_IDS.
           dget b ''secret_id'' \<noteq> PStr n \<and> dget a ''secret_id'' \<noteq> PStr n)) \<and>
     (t = ''google_secret_manager_secret_version'' \<longrightarrow>
        (secret_version_id b \<noteq> None \<or> secret_version_id a \<noteq> None) \<and>
        (\<forall>n \<in> set CONTROL_PLANE_SECRET_IDS.
           opt_val (secret_version_id b) \<noteq> PStr n \<and> opt_val (secret_version_id a) \<noteq> PStr n))"
  by (auto simp: check_control_plane_secret_def hit_list_Nil either_in_False Let_def)

lemma kms_silent [check_iffs]:
  "check_control_plane_kms rc t acts b a = Inr [] \<longleftrightarrow>
     (\<forall>S. kms_protected t = Some S \<longrightarrow>
        (is_str (dget b ''name'') \<or> is_str (dget a ''name'')) \<and>
        hashable (dget b ''name'') \<and> hashable (dget a ''name'') \<and>
        (\<forall>n \<in> set S. dget b ''name'' \<noteq> PStr n \<and> dget a ''name'' \<noteq> PStr n))"
  by (auto simp: check_control_plane_kms_def hit_list_Nil either_in_False Let_def split: option.split)

lemma wif_iam_silent [check_iffs]:
  "check_wif rc t acts = Inr [] \<longleftrightarrow> t \<notin> set WIF_RESOURCE_TYPES"
  "check_iam rc t acts = Inr [] \<longleftrightarrow> \<not> is_iam_type t"
  by (auto simp: check_wif_def check_iam_def)

lemma wif_is_iam: "t \<in> set WIF_RESOURCE_TYPES \<Longrightarrow> is_iam_type t"
  by (simp add: is_iam_type_def IAM_EXTRA_TYPES_def)

lemma rbind_concat_Nil:
  "rbind (traverse f xs) (\<lambda>vss. Inr (concat vss)) = Inr [] \<longleftrightarrow> (\<forall>x \<in> set xs. f x = Inr [])"
proof (induction xs)
  case (Cons x xs)
  then show ?case by (auto simp: rbind_def split: sum.splits)
qed simp

text \<open>The protected resource types as a datatype: comparing kinds is cheaper than comparing
  type names, and the names below are pairwise distinct.\<close>

datatype kind =
    KService | KAccount | KBucket | KObject | KPubsub | KSecret | KVersion | KKey | KRing | KOther

definition kind_of :: "string \<Rightarrow> kind" where
  "kind_of t =
     (if t \<in> set CLOUD_RUN_SERVICE_TYPES then KService
      else if t = ''google_service_account'' then KAccount
      else if t = ''google_storage_bucket'' then KBucket
      else if t = ''google_storage_bucket_object'' then KObject
      else if t \<in> set PUBSUB_RESOURCE_TYPES then KPubsub
      else if t = ''google_secret_manager_secret'' then KSecret
      else if t = ''google_secret_manager_secret_version'' then KVersion
      else if t = ''google_kms_crypto_key'' then KKey
      else if t = ''google_kms_key_ring'' then KRing
      else KOther)"

lemma kind_service: "t \<in> set CLOUD_RUN_SERVICE_TYPES \<longleftrightarrow> kind_of t = KService"
  by (simp add: kind_of_def)

lemma kind_account: "t = ''google_service_account'' \<longleftrightarrow> kind_of t = KAccount"
  by (cases "t = ''google_service_account''") (simp_all add: kind_of_def CLOUD_RUN_SERVICE_TYPES_def)

lemma kind_bucket: "t = ''google_storage_bucket'' \<longleftrightarrow> kind_of t = KBucket"
  by (cases "t = ''google_storage_bucket''") (simp_all add: kind_of_def CLOUD_RUN_SERVICE_TYPES_def)

lemma kind_object: "t = ''google_storage_bucket_object'' \<longleftrightarrow> kind_of t = KObject"
  by (cases "t = ''google_storage_bucket_object''") (simp_all add: kind_of_def CLOUD_RUN_SERVICE_TYPES_def)

lemma kind_pubsub: "t \<in> set PUBSUB_RESOURCE_TYPES \<longleftrightarrow> kind_of t = KPubsub"
proof (cases "t \<in> set PUBSUB_RESOURCE_TYPES")
  case True
  then consider "t = ''google_pubsub_topic''" | "t = ''google_pubsub_subscription''"
    by (auto simp: PUBSUB_RESOURCE_TYPES_def)
  then show ?thesis by cases (simp_all add: kind_of_def set_defs)
qed (simp add: kind_of_def)

lemma kind_secret: "t = ''google_secret_manager_secret'' \<longleftrightarrow> kind_of t = KSecret"
  by (cases "t = ''google_secret_manager_secret''") (simp_all add: kind_of_def set_defs)

lemma kind_version: "t = ''google_secret_manager_secret_version'' \<longleftrightarrow> kind_of t = KVersion"
  by (cases "t = ''google_secret_manager_secret_version''") (simp_all add: kind_of_def set_defs)

lemma kind_key: "t = ''google_kms_crypto_key'' \<longleftrightarrow> kind_of t = KKey"
  by (cases "t = ''google_kms_crypto_key''") (simp_all add: kind_of_def set_defs)

lemma kind_ring: "t = ''google_kms_key_ring'' \<longleftrightarrow> kind_of t = KRing"
  by (cases "t = ''google_kms_key_ring''") (simp_all add: kind_of_def set_defs)

lemmas kind_iffs = kind_service kind_account kind_bucket kind_object kind_pubsub kind_secret
  kind_version kind_key kind_ring

lemma kind_identified: "t \<in> set IDENTIFIED_TYPES \<longleftrightarrow> kind_of t \<noteq> KOther"
proof -
  have "t \<in> set IDENTIFIED_TYPES \<longleftrightarrow> t \<in> set CLOUD_RUN_SERVICE_TYPES
      \<or> t = ''google_service_account'' \<or> t = ''google_storage_bucket''
      \<or> t = ''google_storage_bucket_object'' \<or> t \<in> set PUBSUB_RESOURCE_TYPES
      \<or> t = ''google_secret_manager_secret'' \<or> t = ''google_secret_manager_secret_version''
      \<or> t = ''google_kms_crypto_key'' \<or> t = ''google_kms_key_ring''"
    unfolding IDENTIFIED_TYPES_def set_append 
    by (simp only: list.set insert_iff Un_iff empty_iff simp_thms disj_assoc)
  then show ?thesis unfolding kind_iffs by (cases "kind_of t") simp_all
qed

lemma ident_kind:
  "ident t side =
     (case kind_of t of
        KAccount \<Rightarrow> opt_val (sa_account_id side) | KObject \<Rightarrow> dget side ''bucket''
      | KSecret \<Rightarrow> dget side ''secret_id'' | KVersion \<Rightarrow> opt_val (secret_version_id side)
      | _ \<Rightarrow> dget side ''name'')"
  unfolding ident_def kind_iffs by (cases "kind_of t") simp_all

lemma hashed_kind: "hashed_type t \<longleftrightarrow> kind_of t \<in> {KService, KSecret, KKey, KRing}"
  unfolding hashed_type_def insert_iff empty_iff kind_iffs by auto

lemma kms_kind:
  "kms_protected t =
     (case kind_of t of KKey \<Rightarrow> Some CONTROL_PLANE_KMS_KEY_NAMES
      | KRing \<Rightarrow> Some CONTROL_PLANE_KMS_KEYRING_NAMES | _ \<Rightarrow> None)"
  unfolding kms_protected_def kind_iffs by (cases "kind_of t") simp_all

lemma bucket_name_nonstr [simp]:
  "\<not> is_str v \<Longrightarrow> \<not> is_protected_bucket_name v"
  "\<not> is_str v \<Longrightarrow> \<not> is_service_managed_bucket_name v"
  "\<not> is_str v \<Longrightarrow> \<not> is_service_managed_pubsub_name v"
  by (cases v; simp add: is_protected_bucket_name_def is_service_managed_bucket_name_def
      is_service_managed_pubsub_name_def)+

lemma protected_kind:
  "protected_val t v \<longleftrightarrow>
     (case kind_of t of
        KService \<Rightarrow> \<exists>n \<in> set CONTROL_PLANE_SERVICE_NAMES. v = PStr n
      | KAccount \<Rightarrow> \<exists>n \<in> set CONTROL_PLANE_SA_ACCOUNT_IDS. v = PStr n
      | KBucket \<Rightarrow> is_protected_bucket_name v \<or> is_service_managed_bucket_name v
      | KObject \<Rightarrow> is_protected_bucket_name v
      | KPubsub \<Rightarrow> is_service_managed_pubsub_name v
      | KSecret \<Rightarrow> \<exists>n \<in> set CONTROL_PLANE_SECRET_IDS. v = PStr n
      | KVersion \<Rightarrow> \<exists>n \<in> set CONTROL_PLANE_SECRET_IDS. v = PStr n
      | KKey \<Rightarrow> \<exists>n \<in> set CONTROL_PLANE_KMS_KEY_NAMES. v = PStr n
      | KRing \<Rightarrow> \<exists>n \<in> set CONTROL_PLANE_KMS_KEYRING_NAMES. v = PStr n
      | KOther \<Rightarrow> False)"
proof (cases "is_str v")
  case True
  then obtain n where "v = PStr n" by (auto simp: is_str_iff)
  then show ?thesis
    unfolding protected_val_def protected_name_def kind_iffs by (cases "kind_of t") auto
next
  case False
  then show ?thesis by (cases v) (auto simp: protected_val_def split: kind.split)
qed

lemma identity_checks_silent:
  "identity_checks rc t acts = Inr [] \<longleftrightarrow>
     (let (b, a) = identity_dicts rc in identity_clean t b a)"
proof -
  obtain b a where ba: "identity_dicts rc = (b, a)" by force
  have iam: "is_iam_type ''google_service_account''"
    by (simp add: is_iam_type_def IAM_EXTRA_TYPES_def)
  have all: "identity_checks rc t acts = Inr [] \<longleftrightarrow>
      check_control_plane_service rc t acts b a = Inr [] \<and> check_control_plane_sa rc t acts b a = Inr [] \<and>
      check_control_plane_bucket rc t acts b a = Inr [] \<and> check_service_managed_bucket rc t acts b a = Inr [] \<and>
      check_service_managed_pubsub rc t acts b a = Inr [] \<and> check_control_plane_secret rc t acts b a = Inr [] \<and>
      check_control_plane_kms rc t acts b a = Inr [] \<and> \<not> is_iam_type t"
    using wif_is_iam [of t]
    by (auto simp: identity_checks_def ba rbind_concat_Nil wif_iam_silent simp del: traverse.simps)
  show ?thesis
    unfolding all ba identity_clean_def check_iffs kind_identified ident_kind hashed_kind
      protected_kind kms_kind kind_iffs
    by (cases "kind_of t") auto
qed

lemma import_floor_silent:
  "import_floor address t acts imp = [] \<longleftrightarrow>
     (imp \<noteq> PNone \<longrightarrow> as_dict imp \<noteq> None \<and> acts = [''no-op''] \<and> t \<in> set ADOPTABLE_RESOURCE_TYPES)"
  by (auto simp: import_floor_def)

lemma known_action_cases:
  "acts \<in> set ALL_KNOWN_TUPLES \<and> action_floor address acts = [] \<longleftrightarrow>
     acts \<in> {[''no-op''], [''read''], [''create''], [''update'']}"
proof -
  let ?bad = "set DELETE_ACTION_TUPLES \<union> set FORGET_ACTION_TUPLES \<union> set REPLACE_ACTION_TUPLES"
  have floor: "action_floor address acts = [] \<longleftrightarrow> acts \<notin> ?bad"
    by (simp add: action_floor_def)
  have known: "set ALL_KNOWN_TUPLES = {[''no-op''], [''read''], [''create''], [''update'']} \<union> ?bad"
    unfolding ALL_KNOWN_TUPLES_def MUTATION_KNOWN_TUPLES_def NO_OP_ACTION_TUPLES_def
    by (simp only: set_append list.set Un_insert_left Un_empty_left Un_assoc)
  have "[''no-op''] \<notin> ?bad" "[''read''] \<notin> ?bad" "[''create''] \<notin> ?bad" "[''update''] \<notin> ?bad"
    by (simp_all add: action_defs)
  then show ?thesis unfolding floor known by blast
qed

lemma mutation_of_known:
  "acts \<in> {[''no-op''], [''read''], [''create''], [''update'']} \<Longrightarrow>
     is_mutation acts \<longleftrightarrow> acts \<in> {[''create''], [''update'']}"
  by (auto simp: is_mutation_def NO_OP_ACTION_TUPLES_def)

lemma eval_change_addresses:
  "eval_change rc t acts = Inr out \<Longrightarrow>
     imports_at out = (if importing_of rc \<noteq> PNone then [address_of rc] else []) \<and>
     mutates_at out = (if importing_of rc = PNone \<and> acts \<notin> set NO_OP_ACTION_TUPLES
                       then [address_of rc] else [])"
  by (auto simp: eval_change_def Let_def result_simps split: if_splits)

lemma eval_change_silent:
  "(\<exists>out. eval_change rc t acts = Inr out \<and> found out = []) \<longleftrightarrow> change_admissible rc t acts"
proof (cases "acts \<in> set ALL_KNOWN_TUPLES")
  case False
  then have "acts \<notin> {[''no-op''], [''read''], [''create''], [''update'']}"
    using known_action_cases by blast
  with False show ?thesis by (simp add: eval_change_def change_admissible_def Let_def)
next
  case True
  then have known: "action_floor (addr_text rc) acts = [] \<longleftrightarrow>
      acts \<in> {[''no-op''], [''read''], [''create''], [''update'']}"
    using known_action_cases by blast
  have "(\<exists>out. eval_change rc t acts = Inr out \<and> found out = []) \<longleftrightarrow>
      import_floor (addr_text rc) t acts (importing_of rc) = [] \<and> action_floor (addr_text rc) acts = [] \<and>
      (is_mutation acts \<or> importing_of rc \<noteq> PNone \<longrightarrow> identity_checks rc t acts = Inr [])"
    using True by (auto simp: eval_change_def Let_def addr_text_def result_simps split: if_splits)
  then show ?thesis
    unfolding known import_floor_silent identity_checks_silent change_admissible_def
    by (cases "acts \<in> {[''no-op''], [''read''], [''create''], [''update'']}")
      (simp_all only: mutation_of_known simp_thms)
qed

lemma iter_entry_parts:
  "iter_entry rc = (ot, Some acts) \<Longrightarrow> \<exists>d t. rc = PDict d \<and> ot = Some t"
  by (auto simp: iter_entry_def split: pyval.splits option.splits if_splits)

lemma eval_entry_cases:
  obtains (change) d t acts where "rc = PDict d" "iter_entry rc = (Some t, Some acts)"
      "eval_entry rc = eval_change d t acts"
  | (malformed) out where "eval_entry rc = Inr out" "found out \<noteq> []" "imports_at out = []"
      "mutates_at out = []" "\<not> entry_admissible rc"
proof (cases "snd (iter_entry rc)")
  case None
  then have "\<not> entry_admissible rc"
    by (cases rc) (auto split: prod.splits option.splits)
  with None that(2) show ?thesis
    by (cases rc; cases "iter_entry rc") (auto simp: eval_entry_def split: option.splits)
next
  case (Some acts)
  then obtain ot where it: "iter_entry rc = (ot, Some acts)" by (cases "iter_entry rc") auto
  with iter_entry_parts [OF it] that(1) show ?thesis
    by (auto simp: eval_entry_def)
qed

lemma eval_entry_silent:
  "(\<exists>out. eval_entry rc = Inr out \<and> found out = []) \<longleftrightarrow> entry_admissible rc"
  by (cases rc rule: eval_entry_cases) (auto simp: eval_change_silent)

lemma eval_entry_addresses:
  assumes "eval_entry rc = Inr out" and "found out = []"
  shows "length (imports_at out) = (if entry_imports rc then 1 else 0)"
    and "length (mutates_at out) = (if entry_mutates rc then 1 else 0)"
proof -
  have "length (imports_at out) = (if entry_imports rc then 1 else 0) \<and>
      length (mutates_at out) = (if entry_mutates rc then 1 else 0)"
  proof (cases rc rule: eval_entry_cases)
    case (change d t acts)
    with assms eval_change_addresses [of d t acts out] show ?thesis by simp
  next
    case malformed
    with assms show ?thesis by simp
  qed
  then show "length (imports_at out) = (if entry_imports rc then 1 else 0)"
    and "length (mutates_at out) = (if entry_mutates rc then 1 else 0)" by simp_all
qed

lemma addresses_counts:
  assumes "list_all2 (\<lambda>rc out. eval_entry rc = Inr out) rcs outs" and "\<forall>out \<in> set outs. found out = []"
  shows "length (concat (map imports_at outs)) = length (filter entry_imports rcs)"
    and "length (concat (map mutates_at outs)) = length (filter entry_mutates rcs)"
  using assms by (induction rule: list_all2_induct) (auto simp: eval_entry_addresses)

lemma plan_wide_silent:
  "plan_wide imports others = Inr [] \<longleftrightarrow> length imports \<le> 1 \<and> (imports \<noteq> [] \<longrightarrow> others = [])"
  by (auto simp: plan_wide_def result_simps split: if_splits)

lemma entries_silent:
  "(\<exists>outs. list_all2 (\<lambda>rc out. eval_entry rc = Inr out) rcs outs \<and> (\<forall>out \<in> set outs. found out = []))
     \<longleftrightarrow> list_all entry_admissible rcs"
proof (induction rcs)
  case Nil
  then show ?case by simp
next
  case (Cons rc rcs)
  show ?case
    using Cons.IH eval_entry_silent [of rc]
    by (auto simp: list_all2_Cons1) (metis list.set_intros insert_iff list.simps(15))+
qed

lemma evaluate_silent: "evaluate plan = Inr [] \<longleftrightarrow> plan_admissible plan"
proof (cases "dget plan ''resource_changes''")
  case (PList rcs)
  have key: "plan_wide (concat (map imports_at outs)) (concat (map mutates_at outs)) = Inr [] \<longleftrightarrow>
      length (filter entry_imports rcs) \<le> 1 \<and>
      (filter entry_imports rcs \<noteq> [] \<longrightarrow> filter entry_mutates rcs = [])"
    if "list_all2 (\<lambda>rc out. eval_entry rc = Inr out) rcs outs" "\<forall>out \<in> set outs. found out = []" for outs
    using addresses_counts [OF that] unfolding plan_wide_silent by (metis length_0_conv)
  have "evaluate plan = Inr [] \<longleftrightarrow>
      (\<exists>outs. list_all2 (\<lambda>rc out. eval_entry rc = Inr out) rcs outs \<and> (\<forall>out \<in> set outs. found out = []) \<and>
        plan_wide (concat (map imports_at outs)) (concat (map mutates_at outs)) = Inr [])"
    by (auto simp: evaluate_def PList result_simps traverse_Inr_iff)
  also have "\<dots> \<longleftrightarrow> (\<exists>outs. list_all2 (\<lambda>rc out. eval_entry rc = Inr out) rcs outs \<and>
        (\<forall>out \<in> set outs. found out = [])) \<and> length (filter entry_imports rcs) \<le> 1 \<and>
        (filter entry_imports rcs \<noteq> [] \<longrightarrow> filter entry_mutates rcs = [])"
    using key by blast
  finally show ?thesis
    unfolding entries_silent by (simp add: plan_admissible_def PList)
qed (simp_all add: evaluate_def plan_admissible_def)

text \<open>C14: The denylist passes a plan, returning no violation and not raising, exactly when the plan
  is admissible: every entry is a well-formed no-op, read, create or update, no mutated or
  imported resource is an IAM type or carries (before or after) a protected or unreadable
  identity, imports are zero-change adopts of the four adoptable types, and there is at most one
  import and no other mutation beside it.\<close>

theorem evaluate_pass_iff: "evaluate plan = Inr [] \<longleftrightarrow> plan_admissible plan"
  by (rule evaluate_silent)

section \<open>What the evaluator can report, and when it raises\<close>

lemma RULE_IDS_eq:
  "RULE_IDS =
    [''plan-json-unparseable'', ''plan-json-missing-resource-changes'', ''plan-json-malformed-change'',
     ''control-plane-service'', ''control-plane-sa'', ''control-plane-bucket'',
     ''service-managed-bucket'', ''service-managed-pubsub'', ''control-plane-secret'',
     ''control-plane-kms'', ''wif-config-change'', ''iam-change-forbidden-v1'',
     ''import-with-changes-forbidden-v1'', ''import-type-not-adoptable-v1'',
     ''import-mixed-plan-forbidden-v1'', ''import-batch-forbidden-v1'',
     ''delete-action-forbidden-v1'', ''forget-action-forbidden-v1'',
     ''replace-action-forbidden-v1'', ''unknown-action-forbidden-v1'']"
  by (simp add: RULE_IDS_def RULE_DESCRIPTIONS_def)

definition documented :: "violation list \<Rightarrow> bool" where
  "documented vs \<longleftrightarrow> (\<forall>v \<in> set vs. rule v \<in> set RULE_IDS)"

lemma documented_simps [simp]:
  "documented []"
  "documented (vs @ ws) \<longleftrightarrow> documented vs \<and> documented ws"
  "documented (v # vs) \<longleftrightarrow> rule v \<in> set RULE_IDS \<and> documented vs"
  "documented (concat vss) \<longleftrightarrow> (\<forall>vs \<in> set vss. documented vs)"
  by (auto simp: documented_def)

lemma rules_documented [simp]:
  "''plan-json-unparseable'' \<in> set RULE_IDS" "''plan-json-missing-resource-changes'' \<in> set RULE_IDS"
  "''plan-json-malformed-change'' \<in> set RULE_IDS" "''control-plane-service'' \<in> set RULE_IDS"
  "''control-plane-sa'' \<in> set RULE_IDS" "''control-plane-bucket'' \<in> set RULE_IDS"
  "''service-managed-bucket'' \<in> set RULE_IDS" "''service-managed-pubsub'' \<in> set RULE_IDS"
  "''control-plane-secret'' \<in> set RULE_IDS" "''control-plane-kms'' \<in> set RULE_IDS"
  "''wif-config-change'' \<in> set RULE_IDS" "''iam-change-forbidden-v1'' \<in> set RULE_IDS"
  "''import-with-changes-forbidden-v1'' \<in> set RULE_IDS" "''import-type-not-adoptable-v1'' \<in> set RULE_IDS"
  "''import-mixed-plan-forbidden-v1'' \<in> set RULE_IDS" "''import-batch-forbidden-v1'' \<in> set RULE_IDS"
  "''delete-action-forbidden-v1'' \<in> set RULE_IDS" "''forget-action-forbidden-v1'' \<in> set RULE_IDS"
  "''replace-action-forbidden-v1'' \<in> set RULE_IDS" "''unknown-action-forbidden-v1'' \<in> set RULE_IDS"
  unfolding RULE_IDS_eq list.set by (simp_all only: insert_iff simp_thms)

definition says_documented :: "vres \<Rightarrow> bool" where
  "says_documented m \<longleftrightarrow> (\<forall>vs. m = Inr vs \<longrightarrow> documented vs)"

lemma says_documented_simps [simp]:
  "says_documented (Inr vs) \<longleftrightarrow> documented vs"
  "says_documented (rbind (either_in b a S) (\<lambda>hit. Inr (if hit then [v] else [])))
     \<longleftrightarrow> (either_in b a S = Inr True \<longrightarrow> rule v \<in> set RULE_IDS)"
  by (auto simp: says_documented_def result_simps)

lemma checks_documented:
  "says_documented (check_control_plane_service rc t acts b a)"
  "says_documented (check_control_plane_sa rc t acts b a)"
  "says_documented (check_control_plane_bucket rc t acts b a)"
  "says_documented (check_service_managed_bucket rc t acts b a)"
  "says_documented (check_service_managed_pubsub rc t acts b a)"
  "says_documented (check_control_plane_secret rc t acts b a)"
  "says_documented (check_control_plane_kms rc t acts b a)"
  "says_documented (check_wif rc t acts)"
  "says_documented (check_iam rc t acts)"
  by (simp_all add: check_control_plane_service_def check_control_plane_sa_def
      check_control_plane_bucket_def check_service_managed_bucket_def
      check_service_managed_pubsub_def check_control_plane_secret_def check_control_plane_kms_def
      check_wif_def check_iam_def Let_def split: option.split)

lemma traverse_documented:
  "\<forall>x \<in> set xs. says_documented (f x) \<Longrightarrow> traverse f xs = Inr vss \<Longrightarrow> documented (concat vss)"
  by (induction xs arbitrary: vss) (auto simp: result_simps says_documented_def)

lemma identity_checks_documented: "says_documented (identity_checks rc t acts)"
proof -
  obtain b a where ba: "identity_dicts rc = (b, a)" by force
  show ?thesis
    unfolding says_documented_def identity_checks_def ba Let_def prod.case rbind_Inr_iff
    by (auto simp del: traverse.simps documented_simps(4) intro!: checks_documented
        dest!: traverse_documented [rotated])
qed

lemma floor_documented:
  "documented (import_floor addr t acts imp)" "documented (action_floor addr acts)"
  by (simp_all add: import_floor_def action_floor_def)

lemma eval_entry_documented: "eval_entry rc = Inr out \<Longrightarrow> documented (found out)"
proof (cases rc rule: eval_entry_cases)
  case (change d t acts)
  assume "eval_entry rc = Inr out"
  with change identity_checks_documented [of d t acts] show ?thesis
    by (auto simp: eval_change_def Let_def result_simps floor_documented says_documented_def
        split: if_splits)
next
  case (malformed out')
  assume "eval_entry rc = Inr out"
  then show ?thesis
    by (auto simp: eval_entry_def eval_change_def Let_def result_simps floor_documented
        dest: identity_checks_documented [unfolded says_documented_def, rule_format]
        split: pyval.splits prod.splits option.splits if_splits)
qed

text \<open>Every violation the evaluator reports carries one of the rule identifiers the coordinator
  has an operator-facing description for.\<close>

theorem evaluate_rules_documented:
  assumes "evaluate plan = Inr vs" and "v \<in> set vs"
  shows "rule v \<in> set (map fst RULE_DESCRIPTIONS)"
proof -
  have "documented vs"
  proof (cases "dget plan ''resource_changes''")
    case (PList rcs)
    then obtain outs tail where outs: "list_all2 (\<lambda>rc out. eval_entry rc = Inr out) rcs outs"
      and tail: "plan_wide (concat (map imports_at outs)) (concat (map mutates_at outs)) = Inr tail"
      and vs: "vs = concat (map found outs) @ tail"
      using assms(1) by (auto simp: evaluate_def result_simps traverse_Inr_iff)
    from outs have "\<forall>out \<in> set outs. documented (found out)"
      by (induction rule: list_all2_induct) (auto simp: eval_entry_documented)
    moreover from tail have "documented tail"
      by (auto simp: plan_wide_def result_simps split: if_splits)
    ultimately show ?thesis by (simp add: vs)
  qed (use assms(1) in \<open>auto simp: evaluate_def\<close>)
  with assms(2) show ?thesis by (simp add: documented_def RULE_IDS_def)
qed

theorem evaluate_rules_documented_witness:
  "rule (Violation ''plan-json-missing-resource-changes'' ''resource_changes is NoneType, expected list'')
     \<in> set (map fst RULE_DESCRIPTIONS)"
  by (rule evaluate_rules_documented [of "[]" "[Violation ''plan-json-missing-resource-changes''
        ''resource_changes is NoneType, expected list'']"]) (simp_all add: evaluate_def)

text \<open>The values that reach a set membership test or a \<open>join\<close>.\<close>

definition identity_keys :: "string list" where
  "identity_keys = [''name'', ''secret_id'']"

definition entry_scalar :: "pyval \<Rightarrow> bool" where
  "entry_scalar rc =
     (case rc of
        PDict d \<Rightarrow> is_str (address_of d) \<and>
          (let (b, a) = identity_dicts d in
             \<forall>k \<in> set identity_keys. hashable (dget b k) \<and> hashable (dget a k))
      | _ \<Rightarrow> True)"

definition plan_scalar :: "pydict \<Rightarrow> bool" where
  "plan_scalar plan =
     (case dget plan ''resource_changes'' of PList rcs \<Rightarrow> list_all entry_scalar rcs | _ \<Rightarrow> True)"

lemma identity_checks_return:
  assumes "identity_dicts rc = (b, a)"
    and "hashable (dget b ''name'')" "hashable (dget a ''name'')"
    and "hashable (dget b ''secret_id'')" "hashable (dget a ''secret_id'')"
  shows "returns (identity_checks rc t acts)"
proof -
  have "returns (check_control_plane_service rc t acts b a)"
    "returns (check_control_plane_sa rc t acts b a)"
    "returns (check_control_plane_bucket rc t acts b a)"
    "returns (check_service_managed_bucket rc t acts b a)"
    "returns (check_service_managed_pubsub rc t acts b a)"
    "returns (check_control_plane_secret rc t acts b a)"
    "returns (check_control_plane_kms rc t acts b a)"
    "returns (check_wif rc t acts)" "returns (check_iam rc t acts)"
    using assms
    by (simp_all add: check_control_plane_service_def check_control_plane_sa_def
        check_control_plane_bucket_def check_service_managed_bucket_def
        check_service_managed_pubsub_def check_control_plane_secret_def
        check_control_plane_kms_def check_wif_def check_iam_def Let_def returns_either_in
        split: option.split)
  then have "returns (traverse (\<lambda>check. check rc t acts b a)
        [check_control_plane_service, check_control_plane_sa, check_control_plane_bucket,
         check_service_managed_bucket, check_service_managed_pubsub, check_control_plane_secret,
         check_control_plane_kms,
         \<lambda>rc rtype acts _ _. check_wif rc rtype acts, \<lambda>rc rtype acts _ _. check_iam rc rtype acts])"
    unfolding returns_traverse by simp
  then show ?thesis
    unfolding identity_checks_def assms(1) Let_def prod.case returns_rbind by (auto simp: returns_iff)
qed

lemma eval_change_returns:
  "entry_scalar (PDict d) \<Longrightarrow> returns (eval_change d t acts)"
proof -
  assume s: "entry_scalar (PDict d)"
  obtain b a where ba: "identity_dicts d = (b, a)" by force
  with s have "returns (identity_checks d t acts)"
    by (intro identity_checks_return) (auto simp: entry_scalar_def identity_keys_def)
  then show ?thesis by (auto simp: eval_change_def Let_def returns_rbind returns_iff)
qed

lemma eval_entry_returns: "entry_scalar rc \<Longrightarrow> returns (eval_entry rc)"
  by (cases rc rule: eval_entry_cases) (auto simp: eval_change_returns)

lemma eval_entry_addresses_str:
  "entry_scalar rc \<Longrightarrow> eval_entry rc = Inr out \<Longrightarrow>
     list_all is_str (imports_at out) \<and> list_all is_str (mutates_at out)"
proof (cases rc rule: eval_entry_cases)
  case (change d t acts)
  assume "entry_scalar rc" "eval_entry rc = Inr out"
  with change eval_change_addresses [of d t acts out] show ?thesis by (simp add: entry_scalar_def)
qed auto

lemma plan_wide_returns:
  "list_all is_str imports \<Longrightarrow> list_all is_str others \<Longrightarrow> returns (plan_wide imports others)"
  by (auto simp: plan_wide_def returns_rbind join_vals_def)

text \<open>When every entry's address is a string and no name or secret id of a changed resource is a
  list or an object, the evaluator returns: a structural defect of the plan is a violation, never
  an exception.\<close>

theorem evaluate_returns:
  assumes "plan_scalar plan"
  shows "returns (evaluate plan)"
proof (cases "dget plan ''resource_changes''")
  case (PList rcs)
  with assms have all: "\<forall>rc \<in> set rcs. entry_scalar rc" by (simp add: plan_scalar_def list_all_iff)
  then have "returns (traverse eval_entry rcs)" by (auto simp: returns_traverse eval_entry_returns)
  then obtain outs where outs: "traverse eval_entry rcs = Inr outs" by (auto simp: returns_iff)
  then have "list_all2 (\<lambda>rc out. eval_entry rc = Inr out) rcs outs" by (simp add: traverse_Inr_iff)
  then have "\<forall>out \<in> set outs. list_all is_str (imports_at out) \<and> list_all is_str (mutates_at out)"
    using all by (induction rule: list_all2_induct) (auto dest: eval_entry_addresses_str)
  then have "returns (plan_wide (concat (map imports_at outs)) (concat (map mutates_at outs)))"
    by (intro plan_wide_returns) (auto simp: list_all_iff)
  then show ?thesis by (auto simp: evaluate_def PList outs returns_rbind returns_iff)
qed (simp_all add: evaluate_def)

section \<open>Example plans\<close>

definition change_entry :: "string \<Rightarrow> string \<Rightarrow> actions \<Rightarrow> pydict \<Rightarrow> pydict \<Rightarrow> pyval" where
  "change_entry address rtype acts before after =
     PDict [(''address'', PStr address), (''type'', PStr rtype),
       (''change'', PDict [(''actions'', PList (map PStr acts)),
          (''before'', PDict before), (''after'', PDict after)])]"

definition plan_of :: "pyval list \<Rightarrow> pydict" where
  "plan_of rcs = [(''resource_changes'', PList rcs)]"

definition new_bucket_plan :: pydict where
  "new_bucket_plan = plan_of
     [change_entry ''b.x'' ''google_storage_bucket'' [''create''] [] [(''name'', PStr ''demo-logs'')]]"

theorem evaluate_returns_witness:
  "plan_scalar new_bucket_plan \<and> returns (evaluate new_bucket_plan)"
proof -
  have h: "plan_scalar new_bucket_plan"
    by (simp add: plan_scalar_def new_bucket_plan_def plan_of_def change_entry_def entry_scalar_def
        address_of_def identity_dicts_def identity_keys_def)
  show ?thesis using h evaluate_returns [OF h] by simp
qed

definition service_rename_plan :: "pyval \<Rightarrow> pyval \<Rightarrow> pydict" where
  "service_rename_plan before_name after_name = plan_of
     [change_entry ''s.x'' ''google_cloud_run_v2_service'' [''update'']
        [(''name'', before_name)] [(''name'', after_name)]]"

text \<open>The evaluator does raise on some structural surprises, although its contract says it never
  does: a Cloud Run service whose name is a JSON array on the before side and a string on the
  after side makes the set membership test raise a \<open>TypeError\<close> instead of being reported.\<close>

theorem evaluate_raises_on_array_name:
  "evaluate (service_rename_plan (PList names) (PStr new_name)) = Inl TypeError"
proof -
  define d where "d = [(''address'', PStr ''s.x''), (''type'', PStr ''google_cloud_run_v2_service''),
    (''change'', PDict [(''actions'', PList [PStr ''update'']),
       (''before'', PDict [(''name'', PList names)]), (''after'', PDict [(''name'', PStr new_name)])])]"
  have ids: "identity_dicts d = ([(''name'', PList names)], [(''name'', PStr new_name)])"
    by (simp add: identity_dicts_def d_def)
  have imp: "importing_of d = PNone" by (simp add: importing_of_def d_def)
  have "''google_cloud_run_v2_service'' \<in> set CLOUD_RUN_SERVICE_TYPES"
    unfolding CLOUD_RUN_SERVICE_TYPES_def list.set by (rule insertI1)
  then have "check_control_plane_service d ''google_cloud_run_v2_service'' [''update'']
      [(''name'', PList names)] [(''name'', PStr new_name)] = Inl TypeError"
    unfolding check_control_plane_service_def by (simp add: either_in_def in_set_def)
  then have checks: "identity_checks d ''google_cloud_run_v2_service'' [''update''] = Inl TypeError"
    unfolding identity_checks_def ids Let_def prod.case traverse.simps by (simp only: rbind_simps)
  have acts: "[''update''] \<in> set ALL_KNOWN_TUPLES" "is_mutation [''update'']"
    by (simp_all add: action_defs is_mutation_def)
  have "eval_change d ''google_cloud_run_v2_service'' [''update''] = Inl TypeError"
    unfolding eval_change_def Let_def checks using acts by (simp only: simp_thms if_True if_False rbind_simps not_not)
  moreover have "iter_entry (PDict d) = (Some ''google_cloud_run_v2_service'', Some [''update''])"
    by (simp add: iter_entry_def d_def)
  moreover have "service_rename_plan (PList names) (PStr new_name) = plan_of [PDict d]"
    by (simp add: service_rename_plan_def change_entry_def d_def)
  ultimately show ?thesis by (simp add: evaluate_def plan_of_def eval_entry_def)
qed

section \<open>One identity rule for the map and for the gate\<close>

text \<open>The asset type that the inventory shows for each adoptable resource type
  (\<open>adopt_recipe._RTYPE_TO_ASSET_TYPE\<close>).\<close>

definition RTYPE_TO_ASSET_TYPE :: "(string \<times> string) list" where
  "RTYPE_TO_ASSET_TYPE =
     [(''google_storage_bucket'', ''storage.googleapis.com/Bucket''),
      (''google_pubsub_topic'', ''pubsub.googleapis.com/Topic''),
      (''google_pubsub_subscription'', ''pubsub.googleapis.com/Subscription''),
      (''google_cloud_run_v2_service'', ''run.googleapis.com/Service'')]"

lemma node_protected:
  assumes "is_control_plane_node (PStr asset) (PStr n) = Inr True" and "(t, asset) \<in> set RTYPE_TO_ASSET_TYPE"
  shows "protected_name t n \<and> t \<in> set IDENTIFIED_TYPES \<and> (\<forall>side. ident t side = dget side ''name'')"
proof -
  from assms(2) have "t = ''google_storage_bucket'' \<and> asset = ''storage.googleapis.com/Bucket''
      \<or> t = ''google_pubsub_topic'' \<and> asset = ''pubsub.googleapis.com/Topic''
      \<or> t = ''google_pubsub_subscription'' \<and> asset = ''pubsub.googleapis.com/Subscription''
      \<or> t = ''google_cloud_run_v2_service'' \<and> asset = ''run.googleapis.com/Service''"
    unfolding RTYPE_TO_ASSET_TYPE_def list.set insert_iff prod.inject empty_iff by (simp only: simp_thms)
  moreover have "''google_pubsub_topic'' \<in> set PUBSUB_RESOURCE_TYPES"
    "''google_pubsub_subscription'' \<in> set PUBSUB_RESOURCE_TYPES"
    "''google_cloud_run_v2_service'' \<in> set CLOUD_RUN_SERVICE_TYPES"
    unfolding PUBSUB_RESOURCE_TYPES_def CLOUD_RUN_SERVICE_TYPES_def list.set by (simp_all only: insert_iff simp_thms)
  ultimately consider "t = ''google_storage_bucket''" "asset = ''storage.googleapis.com/Bucket''"
    | "t \<in> set PUBSUB_RESOURCE_TYPES" "asset = ''pubsub.googleapis.com/Topic'' \<or> asset = ''pubsub.googleapis.com/Subscription''"
    | "t \<in> set CLOUD_RUN_SERVICE_TYPES" "asset = ''run.googleapis.com/Service''"
    by (elim disjE conjE) (simp_all only: simp_thms)
  then show ?thesis
  proof cases
    case 1
    then have "kind_of t = KBucket" unfolding kind_iffs by simp
    with 1 assms(1) show ?thesis
      unfolding protected_val_PStr [symmetric] protected_kind kind_identified ident_kind
      by (auto simp: is_control_plane_node_def CONTROL_PLANE_NODE_MATCHERS_def is_protected_bucket_name_def)
  next
    case 2
    then have "kind_of t = KPubsub" unfolding kind_iffs by simp
    with 2 assms(1) show ?thesis
      unfolding protected_val_PStr [symmetric] protected_kind kind_identified ident_kind
      by (auto simp: is_control_plane_node_def CONTROL_PLANE_NODE_MATCHERS_def)
  next
    case 3
    then have "kind_of t = KService" unfolding kind_iffs by simp
    with 3 assms(1) show ?thesis
      unfolding protected_val_PStr [symmetric] protected_kind kind_identified ident_kind
      by (auto simp: is_control_plane_node_def CONTROL_PLANE_NODE_MATCHERS_def)
  qed
qed

lemma evaluate_refuses_protected:
  assumes plan: "dget plan ''resource_changes'' = PList rcs" "PDict rc \<in> set rcs"
    and it: "iter_entry (PDict rc) = (Some t, Some acts)"
    and live: "is_mutation acts \<or> importing_of rc \<noteq> PNone"
    and ids: "identity_dicts rc = (b, a)" "ident t b = PStr n \<or> ident t a = PStr n"
    and prot: "protected_name t n" "t \<in> set IDENTIFIED_TYPES"
  shows "evaluate plan \<noteq> Inr []"
proof
  assume "evaluate plan = Inr []"
  then have "list_all entry_admissible rcs"
    unfolding evaluate_silent plan_admissible_def by (simp add: plan)
  with plan(2) it have adm: "change_admissible rc t acts" by (auto simp: list_all_iff)
  then have "acts \<in> {[''no-op''], [''read''], [''create''], [''update'']}"
    unfolding change_admissible_def by (rule conjunct1)
  from mutation_of_known [OF this] live have "acts \<in> {[''create''], [''update'']} \<or> importing_of rc \<noteq> PNone"
    by (simp only:)
  with adm ids(1) have "identity_clean t b a"
    unfolding change_admissible_def by (simp only: Let_def prod.case simp_thms)
  with prot ids(2) show False
    unfolding identity_clean_def by (elim conjE disjE) (simp_all only: protected_val_PStr simp_thms)
qed

text \<open>The infrastructure map and the gate use one identity rule: a live resource the map flags as
  control plane is refused by the denylist whenever a plan mutates or imports a resource of the
  corresponding type that carries that name before or after the change.\<close>

theorem control_plane_node_refused:
  assumes "is_control_plane_node (PStr asset) (PStr n) = Inr True"
    and "(t, asset) \<in> set RTYPE_TO_ASSET_TYPE"
    and "dget plan ''resource_changes'' = PList rcs" and "PDict rc \<in> set rcs"
    and "iter_entry (PDict rc) = (Some t, Some acts)"
    and "is_mutation acts \<or> importing_of rc \<noteq> PNone"
    and "identity_dicts rc = (b, a)" and "dget b ''name'' = PStr n \<or> dget a ''name'' = PStr n"
  shows "evaluate plan \<noteq> Inr []"
proof -
  from node_protected [OF assms(1,2)] have p: "protected_name t n" "t \<in> set IDENTIFIED_TYPES"
    and i: "ident t b = dget b ''name''" "ident t a = dget a ''name''" by blast+
  show ?thesis
    by (rule evaluate_refuses_protected [OF assms(3-7) _ p]) (use assms(8) i in simp)
qed

definition state_bucket_rc :: pydict where
  "state_bucket_rc =
     [(''address'', PStr ''b.s''), (''type'', PStr ''google_storage_bucket''),
      (''change'', PDict [(''actions'', PList [PStr ''update'']),
         (''before'', PDict [(''name'', PStr ''x-tofu-state'')]), (''after'', PDict [(''name'', PStr ''renamed'')])])]"

theorem control_plane_node_refused_witness:
  "evaluate (plan_of [PDict state_bucket_rc]) \<noteq> Inr []"
proof (rule control_plane_node_refused
    [where asset = "''storage.googleapis.com/Bucket''" and n = "''x-tofu-state''"
      and t = "''google_storage_bucket''" and rcs = "[PDict state_bucket_rc]" and rc = state_bucket_rc
      and acts = "[''update'']" and b = "[(''name'', PStr ''x-tofu-state'')]"
      and a = "[(''name'', PStr ''renamed'')]"])
  show "is_control_plane_node (PStr ''storage.googleapis.com/Bucket'') (PStr ''x-tofu-state'') = Inr True"
    by (simp add: is_control_plane_node_def CONTROL_PLANE_NODE_MATCHERS_def
        CONTROL_PLANE_BUCKET_SUFFIXES_def ends_with_def starts_with_def)
qed (simp_all add: RTYPE_TO_ASSET_TYPE_def plan_of_def state_bucket_rc_def iter_entry_def
    is_mutation_def NO_OP_ACTION_TUPLES_def identity_dicts_def)

end
