(* ===== verification/PlanClassify.thy ===== *)
theory PlanClassify
  imports Denylist
begin

text \<open>
  \<open>driftscribe_lib/iac_plan_classify.py\<close>: the routing predicate \<open>plan_has_create\<close>, which the
  coordinator and the apply worker share, and the copy-selection predicate \<open>plan_has_import\<close>.
  The first fails closed, the second fails open; the lemmas relate them to each other and to
  the denylist.
\<close>

text \<open>\<open>actions in (["no-op"], ["read"])\<close> and \<open>"create" in actions\<close> on a list of JSON values.\<close>

fun entry_creates :: "pyval \<Rightarrow> bool" where
  "entry_creates (PDict rc) =
     (case dget rc ''change'' of
        PDict change \<Rightarrow>
          (case dget change ''actions'' of
             PList acts \<Rightarrow>
               if dget change ''importing'' \<noteq> PNone then True
               else if acts = [PStr ''no-op''] \<or> acts = [PStr ''read''] then False
               else PStr ''create'' \<in> set acts
           | _ \<Rightarrow> True)
      | _ \<Rightarrow> True)"
| "entry_creates _ = True"

definition plan_has_create :: "pyval \<Rightarrow> bool" where
  "plan_has_create plan_json =
     (case plan_json of
        PDict plan \<Rightarrow>
          (case dget plan ''resource_changes'' of
             PList rcs \<Rightarrow> list_ex entry_creates rcs
           | _ \<Rightarrow> True)
      | _ \<Rightarrow> True)"

fun entry_has_import :: "pyval \<Rightarrow> bool" where
  "entry_has_import (PDict rc) =
     (case dget rc ''change'' of PDict change \<Rightarrow> dget change ''importing'' \<noteq> PNone | _ \<Rightarrow> False)"
| "entry_has_import _ = False"

definition plan_has_import :: "pyval \<Rightarrow> bool" where
  "plan_has_import plan_json =
     (case plan_json of
        PDict plan \<Rightarrow>
          (case dget plan ''resource_changes'' of
             PList rcs \<Rightarrow> list_ex entry_has_import rcs
           | _ \<Rightarrow> False)
      | _ \<Rightarrow> False)"

lemma entry_has_import_creates: "entry_has_import rc \<Longrightarrow> entry_creates rc"
  by (cases rc) (auto split: pyval.splits)

lemma has_import_has_create: "plan_has_import p \<Longrightarrow> plan_has_create p"
  by (auto simp: plan_has_import_def plan_has_create_def list_ex_iff split: pyval.splits
      intro: entry_has_import_creates)

lemma list_of_strs: "\<forall>v \<in> set l. \<exists>s. v = PStr s \<Longrightarrow> map (PStr \<circ> (\<lambda>v. the (as_str v))) l = l"
  by (induction l) auto

text \<open>What the classification says of an admissible entry.\<close>

lemma iter_entry_PDict:
  "iter_entry (PDict rc) = (Some t, Some acts) \<Longrightarrow>
     \<exists>c. dget rc ''change'' = PDict c \<and> dget c ''actions'' = PList (map PStr acts)"
  by (auto simp: iter_entry_def is_str_iff list_all_iff list_of_strs
      split: option.splits pyval.splits if_splits)

lemma entry_creates_admissible:
  assumes "entry_admissible (PDict rc)" and "iter_entry (PDict rc) = (Some t, Some acts)"
  shows "entry_creates (PDict rc) \<longleftrightarrow> importing_of rc \<noteq> PNone \<or> acts = [''create'']"
proof -
  from assms have "change_admissible rc t acts" by simp
  then have acts: "acts \<in> {[''no-op''], [''read''], [''create''], [''update'']}"
    unfolding change_admissible_def by (rule conjunct1)
  from iter_entry_PDict [OF assms(2)] obtain c where
    "dget rc ''change'' = PDict c" "dget c ''actions'' = PList (map PStr acts)" by blast
  with acts show ?thesis by (auto simp: importing_of_def)
qed

text \<open>The lenient path: what a plan may do when it passes the denylist and is not create-class.\<close>

definition updates_only :: "pyval \<Rightarrow> bool" where
  "updates_only rc =
     (case rc of
        PDict d \<Rightarrow> importing_of d = PNone \<and>
          (case iter_entry rc of
             (Some t, Some acts) \<Rightarrow> acts \<in> {[''no-op''], [''read''], [''update'']}
           | _ \<Rightarrow> False)
      | _ \<Rightarrow> False)"

lemma admissible_not_create:
  assumes "entry_admissible rc" and "\<not> entry_creates rc"
  shows "updates_only rc"
proof (cases rc)
  case (PDict d)
  from assms(1) obtain t acts where it: "iter_entry (PDict d) = (Some t, Some acts)"
    by (auto simp: PDict split: prod.splits option.splits)
  with assms PDict have "change_admissible d t acts" by simp
  then have "acts \<in> {[''no-op''], [''read''], [''create''], [''update'']}"
    unfolding change_admissible_def by (rule conjunct1)
  with entry_creates_admissible [OF _ it] assms it show ?thesis
    by (auto simp: PDict updates_only_def)
qed (use assms in auto)

text \<open>A plan that passes the denylist and is not classified create-class does nothing but no-op,
  read and in-place update rows without an import: the lenient apply path never creates, adopts,
  deletes, forgets or replaces a resource.\<close>

theorem lenient_path_updates_only:
  assumes "evaluate plan = Inr []" and "\<not> plan_has_create (PDict plan)"
  shows "\<exists>rcs. dget plan ''resource_changes'' = PList rcs \<and> list_all updates_only rcs"
proof -
  from assms(1) obtain rcs where rcs: "dget plan ''resource_changes'' = PList rcs"
    and adm: "list_all entry_admissible rcs"
    unfolding evaluate_silent by (auto simp: plan_admissible_def split: pyval.splits)
  from assms(2) rcs have "\<forall>rc \<in> set rcs. \<not> entry_creates rc"
    by (auto simp: plan_has_create_def list_ex_iff)
  with adm rcs show ?thesis by (auto simp: list_all_iff admissible_not_create)
qed

definition update_bucket_plan :: pydict where
  "update_bucket_plan = plan_of
     [change_entry ''b.x'' ''google_storage_bucket'' [''update'']
        [(''name'', PStr ''demo-logs'')] [(''name'', PStr ''demo-logs'')]]"

lemma bucket_not_iam: "\<not> is_iam_type ''google_storage_bucket''"
  by (simp add: is_iam_type_def IAM_EXTRA_TYPES_def WIF_RESOURCE_TYPES_def contains_str_def starts_with_def)

lemma demo_bucket_clean:
  "\<not> protected_val ''google_storage_bucket'' (PStr ''demo-logs'')"
  unfolding protected_kind kind_bucket [THEN iffD1, OF refl]
  by (simp add: is_protected_bucket_name_def is_service_managed_bucket_name_def
      CONTROL_PLANE_BUCKET_SUFFIXES_def SERVICE_MANAGED_BUCKET_SUFFIXES_def
      SERVICE_MANAGED_BUCKET_PREFIXES_def ends_with_def starts_with_def)

lemma update_bucket_admissible: "evaluate update_bucket_plan = Inr []"
proof -
  have "identity_clean ''google_storage_bucket'' [(''name'', PStr ''demo-logs'')] [(''name'', PStr ''demo-logs'')]"
    using bucket_not_iam demo_bucket_clean
    by (simp add: identity_clean_def ident_def hashed_type_def)
  then show ?thesis
    unfolding evaluate_silent
    by (simp add: plan_admissible_def update_bucket_plan_def plan_of_def change_entry_def iter_entry_def
        change_admissible_def importing_of_def identity_dicts_def)
qed

theorem lenient_path_updates_only_witness:
  "evaluate update_bucket_plan = Inr [] \<and> \<not> plan_has_create (PDict update_bucket_plan) \<and>
   (\<exists>rcs. dget update_bucket_plan ''resource_changes'' = PList rcs \<and> list_all updates_only rcs)"
proof -
  have h: "\<not> plan_has_create (PDict update_bucket_plan)"
    by (simp add: plan_has_create_def update_bucket_plan_def plan_of_def change_entry_def)
  show ?thesis
    using h update_bucket_admissible lenient_path_updates_only [OF update_bucket_admissible h] by simp
qed

end
