(* ===== verification/SingleUse.thy ===== *)
theory SingleUse
  imports Prelude
begin

text \<open>
  The contract both approval stores keep: a claim either wins, and the approval is then no longer
  pending, or changes nothing; no other operation makes an approval pending again.  What follows
  from the contract is proved here once: over any interleaving of operations an approval is won
  at most once.
\<close>

locale single_use_store =
  fixes pending :: "'s \<Rightarrow> string \<Rightarrow> bool"
    and claim :: "'c \<Rightarrow> string \<Rightarrow> 's \<Rightarrow> bool \<times> 's"
  assumes claim_wins: "claim c i s = (True, s') \<Longrightarrow> pending s i \<and> \<not> pending s' i"
    and claim_loses: "claim c i s = (False, s') \<Longrightarrow> s' = s"
    and claim_other: "claim c i s = (w, s') \<Longrightarrow> j \<noteq> i \<Longrightarrow> pending s' j = pending s j"
begin

lemma claim_not_pending: "\<not> pending s i \<Longrightarrow> claim c i s = (False, s)"
  using claim_wins [of c i s] claim_loses [of c i s]
  by (cases "claim c i s"; cases "fst (claim c i s)") auto

lemma claim_keeps_spent: "\<not> pending s j \<Longrightarrow> \<not> pending (snd (claim c i s)) j"
proof (cases "j = i")
  case True
  then show "\<not> pending s j \<Longrightarrow> ?thesis" by (simp add: claim_not_pending)
next
  case False
  then show "\<not> pending s j \<Longrightarrow> ?thesis"
    using claim_other [of c i s "fst (claim c i s)" "snd (claim c i s)" j] by simp
qed

end

text \<open>The store together with its other operations (writes of outcomes, creation of fresh
  approvals), of which only creation may make an approval pending, and only one that does not
  exist yet.\<close>

locale single_use_history = single_use_store pending claim
  for pending :: "'s \<Rightarrow> string \<Rightarrow> bool" and claim :: "'c \<Rightarrow> string \<Rightarrow> 's \<Rightarrow> bool \<times> 's" +
  fixes exists_doc :: "'s \<Rightarrow> string \<Rightarrow> bool"
    and step :: "'op \<Rightarrow> 's \<Rightarrow> 's"
    and allowed :: "'op \<Rightarrow> 's \<Rightarrow> bool"
  assumes step_spent: "allowed op s \<Longrightarrow> exists_doc s i \<Longrightarrow> \<not> pending s i \<Longrightarrow> \<not> pending (step op s) i"
    and step_exists: "allowed op s \<Longrightarrow> exists_doc s i \<Longrightarrow> exists_doc (step op s) i"
    and claim_exists: "exists_doc s i \<Longrightarrow> exists_doc (snd (claim c j s)) i"
    and pending_exists: "pending s i \<Longrightarrow> exists_doc s i"

datatype ('c, 'op) event = Claim 'c string | Other 'op

context single_use_history
begin

text \<open>The identifiers won along a history, and whether every other step was allowed.\<close>

fun wins :: "('c, 'op) event list \<Rightarrow> 's \<Rightarrow> string list" where
  "wins [] s = []"
| "wins (Claim c i # es) s =
     (case claim c i s of (True, s') \<Rightarrow> i # wins es s' | (False, s') \<Rightarrow> wins es s')"
| "wins (Other op # es) s = wins es (step op s)"

fun well_behaved :: "('c, 'op) event list \<Rightarrow> 's \<Rightarrow> bool" where
  "well_behaved [] s = True"
| "well_behaved (Claim c i # es) s = well_behaved es (snd (claim c i s))"
| "well_behaved (Other op # es) s = (allowed op s \<and> well_behaved es (step op s))"

lemma spent_never_won:
  "well_behaved es s \<Longrightarrow> exists_doc s i \<Longrightarrow> \<not> pending s i \<Longrightarrow> i \<notin> set (wins es s)"
proof (induction es s rule: wins.induct)
  case (2 c j es s)
  show ?case
  proof (cases "fst (claim c j s)")
    case True
    then obtain s' where cl: "claim c j s = (True, s')" by (cases "claim c j s") auto
    then have "i \<noteq> j" using "2.prems"(3) claim_wins by blast
    moreover have "\<not> pending s' i" using claim_keeps_spent [OF "2.prems"(3), of c j] cl by simp
    moreover have "exists_doc s' i" using claim_exists [OF "2.prems"(2), of c j] cl by simp
    ultimately show ?thesis using "2.IH"(1) [OF cl [symmetric]] "2.prems"(1) cl by simp
  next
    case False
    then have cl: "claim c j s = (False, s)"
      using claim_loses by (cases "claim c j s") auto
    then show ?thesis using "2.IH"(2) [OF cl [symmetric]] "2.prems" by simp
  qed
qed (auto simp: step_spent step_exists)

lemma wins_distinct: "well_behaved es s \<Longrightarrow> distinct (wins es s)"
proof (induction es s rule: wins.induct)
  case (2 c i es s)
  show ?case
  proof (cases "fst (claim c i s)")
    case True
    then obtain s' where cl: "claim c i s = (True, s')" by (cases "claim c i s") auto
    then have p: "pending s i" "\<not> pending s' i" using claim_wins by blast+
    have "exists_doc s' i" using claim_exists [OF pending_exists [OF p(1)], of c i] cl by simp
    with p(2) cl "2.prems" have "i \<notin> set (wins es s')" using spent_never_won by simp
    then show ?thesis using "2.IH"(1) [OF cl [symmetric]] "2.prems" cl by simp
  next
    case False
    then have cl: "claim c i s = (False, s)"
      using claim_loses by (cases "claim c i s") auto
    then show ?thesis using "2.IH"(2) [OF cl [symmetric]] "2.prems" by simp
  qed
qed simp_all

end

end
