(* ===== verification/Approvals.thy ===== *)
theory Approvals
  imports PyValue SingleUse
begin

text \<open>
  The rollback approvals of \<open>driftscribe_lib/approvals.py\<close>: the single-use token and its HMAC, and
  the Firestore-backed \<open>ApprovalStore\<close>.  A collection is a map from document identifiers to
  dictionaries; a Firestore transaction is one atomic function on it, and a callback that raises
  commits nothing.  The clock, the generated identifier and the raw token are arguments, and so
  is the keyed hash \<open>mac key message\<close> (hexadecimal HMAC-SHA-256 in the code).
\<close>

section \<open>Outcome phases\<close>

definition PHASE_CLAIMED :: string where "PHASE_CLAIMED = ''claimed''"
definition PHASE_APPLYING :: string where "PHASE_APPLYING = ''applying''"
definition PHASE_APPLIED :: string where "PHASE_APPLIED = ''applied''"
definition PHASE_FAILED :: string where "PHASE_FAILED = ''failed''"
definition PHASE_OUTCOME_UNKNOWN :: string where "PHASE_OUTCOME_UNKNOWN = ''outcome_unknown''"

definition ROLLBACK_PHASES :: "string list" where
  "ROLLBACK_PHASES =
     [PHASE_CLAIMED, PHASE_APPLYING, PHASE_APPLIED, PHASE_FAILED, PHASE_OUTCOME_UNKNOWN]"

definition TERMINAL_ROLLBACK_PHASES :: "string list" where
  "TERMINAL_ROLLBACK_PHASES = [PHASE_APPLIED, PHASE_FAILED]"

lemmas phase_defs = PHASE_CLAIMED_def PHASE_APPLYING_def PHASE_APPLIED_def PHASE_FAILED_def
  PHASE_OUTCOME_UNKNOWN_def

section \<open>The record and the document\<close>

type_synonym docs = "string \<Rightarrow> pydict option"

definition drop_unknown_fields :: "pydict \<Rightarrow> string list \<Rightarrow> pydict" where
  "drop_unknown_fields data known = filter (\<lambda>(k, _). k \<in> set known) data"

record approval =
  ap_id :: string
  ap_target_revision :: pyval
  ap_reason :: pyval
  ap_token_hmac :: pyval
  ap_expires_at :: pyval
  ap_created_at :: pyval
  ap_created_by :: pyval
  ap_status :: pyval
  ap_resolved_at :: pyval
  ap_apply_audit :: pyval
  ap_env_snapshot :: pyval

definition APPROVAL_REQUIRED :: "string list" where
  "APPROVAL_REQUIRED =
     [''target_revision'', ''reason'', ''token_hmac'', ''expires_at'', ''created_at'', ''created_by'', ''status'']"

definition APPROVAL_FIELDS :: "string list" where
  "APPROVAL_FIELDS = APPROVAL_REQUIRED @ [''resolved_at'', ''apply_audit'', ''env_snapshot'']"

text \<open>\<open>Approval(approval_id=..., **data)\<close>: a missing field without a default, or a key the class
  does not declare, is a \<open>TypeError\<close>.\<close>

definition Approval :: "string \<Rightarrow> pydict \<Rightarrow> (pyexc, approval) res" where
  "Approval aid data =
     (if (\<forall>k \<in> set APPROVAL_REQUIRED. map_of data k \<noteq> None) \<and> set (dkeys data) \<subseteq> set APPROVAL_FIELDS
      then Inr \<lparr>ap_id = aid, ap_target_revision = dget data ''target_revision'',
        ap_reason = dget data ''reason'', ap_token_hmac = dget data ''token_hmac'',
        ap_expires_at = dget data ''expires_at'', ap_created_at = dget data ''created_at'',
        ap_created_by = dget data ''created_by'', ap_status = dget data ''status'',
        ap_resolved_at = dget data ''resolved_at'', ap_apply_audit = dget data ''apply_audit'',
        ap_env_snapshot = dget data ''env_snapshot''\<rparr>
      else Inl TypeError)"

definition read_approval :: "string \<Rightarrow> pydict \<Rightarrow> (pyexc, approval) res" where
  "read_approval aid data = Approval aid (drop_unknown_fields data APPROVAL_FIELDS)"

section \<open>The token\<close>

definition bar :: string where "bar = [char_of (124::nat)]"

definition compute_token_hmac ::
  "(string \<Rightarrow> string \<Rightarrow> string) \<Rightarrow> string \<Rightarrow> string \<Rightarrow> string \<Rightarrow> string \<Rightarrow> string" where
  "compute_token_hmac mac token approval_id target_revision hmac_key =
     mac hmac_key (token @ bar @ approval_id @ bar @ target_revision)"

text \<open>\<open>hmac.compare_digest\<close> of two texts raises unless both are ASCII.\<close>

definition is_ascii :: "string \<Rightarrow> bool" where
  "is_ascii s \<longleftrightarrow> (\<forall>c \<in> set s. (of_char c :: nat) < 128)"

definition compare_digest :: "string \<Rightarrow> pyval \<Rightarrow> (pyexc, bool) res" where
  "compare_digest a v =
     (case v of PStr b \<Rightarrow> if is_ascii a \<and> is_ascii b then Inr (a = b) else Inl TypeError | _ \<Rightarrow> Inl TypeError)"

definition add_minutes :: "instant \<Rightarrow> int \<Rightarrow> (pyexc, instant) res" where
  "add_minutes t m =
     (let r = int t + m * 60000000
      in if 0 \<le> r \<and> r < int (max_day * usec_per_day) then Inr (nat r) else Inl OverflowError)"

section \<open>The store\<close>

definition create_data ::
  "(string \<Rightarrow> string \<Rightarrow> string) \<Rightarrow> instant \<Rightarrow> string \<Rightarrow> string \<Rightarrow> string \<Rightarrow> string \<Rightarrow> string \<Rightarrow> string \<Rightarrow>
   instant \<Rightarrow> pyval \<Rightarrow> pydict" where
  "create_data mac now approval_id raw_token target_revision reason hmac_key created_by expires_at env_snapshot =
     [(''status'', PStr ''pending''),
      (''target_revision'', PStr target_revision),
      (''reason'', PStr reason),
      (''token_hmac'', PStr (compute_token_hmac mac raw_token approval_id target_revision hmac_key)),
      (''expires_at'', PTime expires_at),
      (''created_at'', PTime now),
      (''created_by'', PStr created_by),
      (''env_snapshot'', env_snapshot)]"

definition approval_create ::
  "(string \<Rightarrow> string \<Rightarrow> string) \<Rightarrow> instant \<Rightarrow> string \<Rightarrow> string \<Rightarrow> string \<Rightarrow> string \<Rightarrow> string \<Rightarrow> string \<Rightarrow>
   int \<Rightarrow> pyval \<Rightarrow> docs \<Rightarrow> (pyexc, approval \<times> string) res \<times> docs" where
  "approval_create mac now approval_id raw_token target_revision reason hmac_key created_by ttl_minutes
       env_snapshot docs =
     (case add_minutes now ttl_minutes of
        Inl e \<Rightarrow> (Inl e, docs)
      | Inr expires_at \<Rightarrow>
          let data = create_data mac now approval_id raw_token target_revision reason hmac_key
                       created_by expires_at env_snapshot
          in (rbind (Approval approval_id data) (\<lambda>a. Inr (a, raw_token)), docs(approval_id \<mapsto> data)))"

definition approval_get :: "string \<Rightarrow> docs \<Rightarrow> (pyexc, approval option) res" where
  "approval_get approval_id docs =
     (case docs approval_id of
        None \<Rightarrow> Inr None
      | Some data \<Rightarrow> rbind (read_approval approval_id data) (\<lambda>a. Inr (Some a)))"

definition approval_claim ::
  "instant \<Rightarrow> string \<Rightarrow> string \<Rightarrow> bool \<Rightarrow> pydict \<Rightarrow> docs \<Rightarrow> (pyexc, approval option) res \<times> docs" where
  "approval_claim now approval_id new_status stamp_resolved extra docs =
     (case docs approval_id of
        None \<Rightarrow> (Inr None, docs)
      | Some data \<Rightarrow>
          if dget data ''status'' \<noteq> PStr ''pending'' then (Inr None, docs)
          else
            let upd = dupdate [(''status'', PStr new_status)] extra;
                upd = (if stamp_resolved then dput upd ''resolved_at'' (PTime now) else upd);
                data' = dupdate data upd
            in (case read_approval approval_id data' of
                  Inl e \<Rightarrow> (Inl e, docs)
                | Inr a \<Rightarrow> (Inr (Some a), docs(approval_id \<mapsto> data'))))"

definition claimed_audit :: "instant \<Rightarrow> pyval" where
  "claimed_audit now = PDict [(''phase'', PStr PHASE_CLAIMED), (''phase_at'', PTime now)]"

definition claim_pending :: "instant \<Rightarrow> string \<Rightarrow> docs \<Rightarrow> (pyexc, approval option) res \<times> docs" where
  "claim_pending now approval_id docs =
     approval_claim now approval_id ''used'' False [(''apply_audit'', claimed_audit now)] docs"

definition claim_denied :: "instant \<Rightarrow> string \<Rightarrow> docs \<Rightarrow> (pyexc, approval option) res \<times> docs" where
  "claim_denied now approval_id docs = approval_claim now approval_id ''denied'' True [] docs"

text \<open>The transaction of \<open>record_phase\<close>: an already terminal phase is left alone.\<close>

definition audit_phase :: "pydict \<Rightarrow> pyval" where
  "audit_phase data =
     (let existing = py_or (dget data ''apply_audit'') (PDict [])
      in case existing of PDict d \<Rightarrow> dget d ''phase'' | _ \<Rightarrow> PNone)"

definition new_audit :: "instant \<Rightarrow> string \<Rightarrow> pyval \<Rightarrow> pydict" where
  "new_audit now phase detail =
     [(''phase'', PStr phase), (''phase_at'', PTime now)]
       @ (if truthy detail then [(''detail'', detail)] else [])"

definition record_phase_txn ::
  "instant \<Rightarrow> string \<Rightarrow> string \<Rightarrow> pyval \<Rightarrow> instant option \<Rightarrow> docs \<Rightarrow> (pyexc, unit) res \<times> docs" where
  "record_phase_txn now approval_id phase detail resolved_at docs =
     (case docs approval_id of
        None \<Rightarrow> (Inr (), docs)
      | Some data \<Rightarrow>
          (case in_set (audit_phase data) TERMINAL_ROLLBACK_PHASES of
             Inl e \<Rightarrow> (Inl e, docs)
           | Inr True \<Rightarrow> (Inr (), docs)
           | Inr False \<Rightarrow>
               let upd = [(''apply_audit'', PDict (new_audit now phase detail))]
                           @ (case resolved_at of None \<Rightarrow> [] | Some t \<Rightarrow> [(''resolved_at'', PTime t)])
               in (Inr (), docs(approval_id \<mapsto> dupdate data upd))))"

definition record_phase ::
  "instant \<Rightarrow> string \<Rightarrow> string \<Rightarrow> pyval \<Rightarrow> instant option \<Rightarrow> docs \<Rightarrow> (pyexc, unit) res \<times> docs" where
  "record_phase now approval_id phase detail resolved_at docs =
     (if phase \<notin> set ROLLBACK_PHASES then (Inl (ValueError ''unknown rollback phase''), docs)
      else if resolved_at \<noteq> None \<and> phase \<noteq> PHASE_APPLIED
      then (Inl (ValueError ''resolved_at is only valid with phase applied''), docs)
      else if detail \<noteq> PNone \<and> as_dict detail = None then (Inl TypeError, docs)
      else record_phase_txn now approval_id phase detail resolved_at docs)"

section \<open>Reading documents\<close>

lemma map_of_drop_unknown:
  "map_of (drop_unknown_fields data known) k = (if k \<in> set known then map_of data k else None)"
  by (induction data) (auto simp: drop_unknown_fields_def)

lemma dget_drop_unknown:
  "dget_or (drop_unknown_fields data known) k v = (if k \<in> set known then dget_or data k v else v)"
  by (simp add: dget_or_def map_of_drop_unknown)

lemma dkeys_drop_unknown: "set (dkeys (drop_unknown_fields data known)) = set (dkeys data) \<inter> set known"
  by (auto simp: drop_unknown_fields_def dkeys_def image_iff)

lemma drop_unknown_append:
  "drop_unknown_fields (xs @ ys) known = drop_unknown_fields xs known @ drop_unknown_fields ys known"
  by (simp add: drop_unknown_fields_def)

lemma drop_unknown_none: "set (dkeys ys) \<inter> set known = {} \<Longrightarrow> drop_unknown_fields ys known = []"
  by (auto simp: drop_unknown_fields_def dkeys_def filter_empty_conv)

definition complete :: "pydict \<Rightarrow> bool" where
  "complete data \<longleftrightarrow> (\<forall>k \<in> set APPROVAL_REQUIRED. map_of data k \<noteq> None)"

definition approval_of :: "string \<Rightarrow> pydict \<Rightarrow> approval" where
  "approval_of aid data = \<lparr>ap_id = aid, ap_target_revision = dget data ''target_revision'',
        ap_reason = dget data ''reason'', ap_token_hmac = dget data ''token_hmac'',
        ap_expires_at = dget data ''expires_at'', ap_created_at = dget data ''created_at'',
        ap_created_by = dget data ''created_by'', ap_status = dget data ''status'',
        ap_resolved_at = dget data ''resolved_at'', ap_apply_audit = dget data ''apply_audit'',
        ap_env_snapshot = dget data ''env_snapshot''\<rparr>"

lemma field_names_known:
  "''target_revision'' \<in> set APPROVAL_FIELDS" "''reason'' \<in> set APPROVAL_FIELDS"
  "''token_hmac'' \<in> set APPROVAL_FIELDS" "''expires_at'' \<in> set APPROVAL_FIELDS"
  "''created_at'' \<in> set APPROVAL_FIELDS" "''created_by'' \<in> set APPROVAL_FIELDS"
  "''status'' \<in> set APPROVAL_FIELDS" "''resolved_at'' \<in> set APPROVAL_FIELDS"
  "''apply_audit'' \<in> set APPROVAL_FIELDS" "''env_snapshot'' \<in> set APPROVAL_FIELDS"
  unfolding APPROVAL_FIELDS_def APPROVAL_REQUIRED_def set_append list.set
  by (simp_all only: insert_iff Un_iff simp_thms)

lemma read_approval_eq:
  "read_approval aid data = (if complete data then Inr (approval_of aid data) else Inl TypeError)"
proof -
  have "set APPROVAL_REQUIRED \<subseteq> set APPROVAL_FIELDS" by (simp only: APPROVAL_FIELDS_def set_append Un_upper1)
  then have "(\<forall>k \<in> set APPROVAL_REQUIRED. map_of (drop_unknown_fields data APPROVAL_FIELDS) k \<noteq> None)
      \<longleftrightarrow> complete data"
    unfolding complete_def map_of_drop_unknown by auto
  moreover have "set (dkeys (drop_unknown_fields data APPROVAL_FIELDS)) \<subseteq> set APPROVAL_FIELDS"
    by (simp add: dkeys_drop_unknown)
  ultimately show ?thesis
    unfolding read_approval_def Approval_def approval_of_def dget_drop_unknown
    by (simp only: field_names_known if_True simp_thms)
qed

text \<open>A reader ignores the document keys its build does not know: a document with additional
  fields, written by a newer service, reads as the same approval, so a rolling deploy cannot make
  the read raise.\<close>

theorem read_approval_ignores_new_fields:
  assumes "set (dkeys extra) \<inter> set APPROVAL_FIELDS = {}"
  shows "read_approval aid (data @ extra) = read_approval aid data"
  by (simp add: read_approval_def drop_unknown_append drop_unknown_none [OF assms])

theorem read_approval_ignores_new_fields_witness:
  "read_approval ''a'' ([(''status'', PStr ''used'')] @ [(''schema_version'', PInt 2)])
     = read_approval ''a'' [(''status'', PStr ''used'')]"
  by (rule read_approval_ignores_new_fields) (simp add: dkeys_def APPROVAL_FIELDS_def APPROVAL_REQUIRED_def)

lemma create_data_complete: "complete (create_data mac now aid tok rv reason key who exp env)"
  by (simp add: complete_def APPROVAL_REQUIRED_def create_data_def)

lemma create_data_Approval:
  "Approval aid (create_data mac now aid tok rv reason key who exp env) =
     Inr (approval_of aid (create_data mac now aid tok rv reason key who exp env))"
proof -
  have "set (dkeys (create_data mac now aid tok rv reason key who exp env)) \<subseteq> set APPROVAL_FIELDS"
    by (simp add: dkeys_def create_data_def field_names_known)
  with create_data_complete show ?thesis
    by (auto simp: Approval_def approval_of_def complete_def)
qed

text \<open>What \<open>create\<close> returns is what a later \<open>get\<close> of the same identifier reads back, and the
  creation touches no other approval.\<close>

theorem create_then_get:
  assumes "approval_create mac now aid tok rv reason key who ttl env docs = (Inr (a, tok'), docs')"
  shows "approval_get aid docs' = Inr (Some a) \<and> tok' = tok \<and> (\<forall>j. j \<noteq> aid \<longrightarrow> docs' j = docs j)"
  using assms
  by (auto simp: approval_create_def Let_def create_data_Approval approval_get_def read_approval_eq
      create_data_complete split: sum.splits)

theorem create_then_get_witness:
  "\<exists>a docs'. approval_create (\<lambda>k m. k @ m) 1000 ''id'' ''tok'' ''rev'' ''why'' ''key'' ''me'' 15 PNone Map.empty
       = (Inr (a, ''tok''), docs') \<and> approval_get ''id'' docs' = Inr (Some a)"
proof -
  obtain a docs' where h: "approval_create (\<lambda>k m. k @ m) 1000 ''id'' ''tok'' ''rev'' ''why'' ''key'' ''me'' 15
      PNone Map.empty = (Inr (a, ''tok''), docs')"
    by (simp add: approval_create_def add_minutes_def max_day_def usec_per_day_def create_data_Approval Let_def)
  then show ?thesis using create_then_get [OF h] by blast
qed

section \<open>The token is bound to its approval and revision\<close>

text \<open>Two given texts collide under a hash.\<close>

definition collide :: "(string \<Rightarrow> string) \<Rightarrow> string \<Rightarrow> string \<Rightarrow> bool" where
  "collide h m m' \<longleftrightarrow> m \<noteq> m' \<and> h m = h m'"

lemma bar_split:
  assumes "char_of (124::nat) \<notin> set a" "char_of (124::nat) \<notin> set a'"
  shows "a @ bar @ r = a' @ bar @ r' \<longleftrightarrow> a = a' \<and> r = r'"
proof
  assume e: "a @ bar @ r = a' @ bar @ r'"
  have "takeWhile (\<lambda>c. c \<noteq> char_of (124::nat)) (x @ bar @ y) = x" if "char_of (124::nat) \<notin> set x" for x y
    using that by (induction x) (auto simp: bar_def)
  from this [OF assms(1)] this [OF assms(2)] e have "a = a'" by metis
  with e show "a = a' \<and> r = r'" by simp
qed simp

text \<open>A token presented for another approval or another revision verifies only if the two signed messages
  collide: the message is unambiguous because neither the token nor the approval identifier
  contains the separator.\<close>

theorem token_bound_to_approval:
  assumes "compute_token_hmac mac tok aid rv key = compute_token_hmac mac tok' aid' rv' key"
    and "char_of (124::nat) \<notin> set tok \<union> set aid \<union> set tok' \<union> set aid'"
  shows "(tok = tok' \<and> aid = aid' \<and> rv = rv') \<or>
    collide (mac key) (tok @ bar @ aid @ bar @ rv) (tok' @ bar @ aid' @ bar @ rv')"
  using assms bar_split [of tok tok' "aid @ bar @ rv" "aid' @ bar @ rv'"] bar_split [of aid aid' rv rv']
  by (auto simp: compute_token_hmac_def collide_def)

theorem token_bound_to_approval_witness:
  "compute_token_hmac (\<lambda>k m. k @ m) ''t'' ''a'' ''r'' ''k'' = compute_token_hmac (\<lambda>k m. k @ m) ''t'' ''a'' ''r'' ''k''
   \<and> ''t'' = ''t'' \<and> ''a'' = ''a'' \<and> ''r'' = ''r''"
  using token_bound_to_approval [of "\<lambda>k m. k @ m" "''t''" "''a''" "''r''" "''k''" "''t''" "''a''" "''r''", OF refl]
  by (simp add: compute_token_hmac_def)

section \<open>Single use\<close>

definition ap_pending :: "docs \<Rightarrow> string \<Rightarrow> bool" where
  "ap_pending docs i \<longleftrightarrow> (\<exists>d. docs i = Some d \<and> dget d ''status'' = PStr ''pending'')"

datatype claim_kind = ClaimUsed instant | ClaimDenied instant

fun ap_claim_op :: "claim_kind \<Rightarrow> string \<Rightarrow> docs \<Rightarrow> (pyexc, approval option) res \<times> docs" where
  "ap_claim_op (ClaimUsed now) i docs = claim_pending now i docs"
| "ap_claim_op (ClaimDenied now) i docs = claim_denied now i docs"

definition won :: "(pyexc, 'a option) res \<times> docs \<Rightarrow> bool \<times> docs" where
  "won r = (case r of (Inr (Some _), docs) \<Rightarrow> (True, docs) | (_, docs) \<Rightarrow> (False, docs))"

definition ap_claim :: "claim_kind \<Rightarrow> string \<Rightarrow> docs \<Rightarrow> bool \<times> docs" where
  "ap_claim c i docs = won (ap_claim_op c i docs)"

text \<open>What one claim does to the document.\<close>

definition claim_update :: "claim_kind \<Rightarrow> pydict \<Rightarrow> pydict" where
  "claim_update c d =
     (case c of
        ClaimUsed now \<Rightarrow> dput (dput d ''status'' (PStr ''used'')) ''apply_audit'' (claimed_audit now)
      | ClaimDenied now \<Rightarrow> dput (dput d ''status'' (PStr ''denied'')) ''resolved_at'' (PTime now))"

lemma complete_dput: "complete d \<Longrightarrow> complete (dput d k v)"
  by (auto simp: complete_def)

lemma ap_claim_eq:
  "ap_claim c i docs =
     (if ap_pending docs i \<and> complete (claim_update c (the (docs i)))
      then (True, docs(i \<mapsto> claim_update c (the (docs i)))) else (False, docs))"
  by (cases c; cases "docs i")
    (auto simp: ap_claim_def ap_pending_def claim_pending_def claim_denied_def approval_claim_def Let_def
      read_approval_eq won_def claim_update_def)

datatype ap_op =
    OpCreate "string \<Rightarrow> string \<Rightarrow> string" instant string string string string string string int pyval
  | OpRecord instant string string pyval "instant option"

fun ap_step :: "ap_op \<Rightarrow> docs \<Rightarrow> docs" where
  "ap_step (OpCreate mac now aid tok rv reason key who ttl env) docs =
     snd (approval_create mac now aid tok rv reason key who ttl env docs)"
| "ap_step (OpRecord now aid phase detail resolved) docs =
     snd (record_phase now aid phase detail resolved docs)"

text \<open>A generated identifier is fresh, and outcomes are recorded for claimed approvals only.\<close>

fun ap_allowed :: "ap_op \<Rightarrow> docs \<Rightarrow> bool" where
  "ap_allowed (OpCreate _ _ aid _ _ _ _ _ _ _) docs = (docs aid = None)"
| "ap_allowed (OpRecord _ aid _ _ _) docs = (\<not> ap_pending docs aid)"

lemma new_audit_phase [simp]: "dget (new_audit now phase detail) ''phase'' = PStr phase"
  by (simp add: new_audit_def)

lemma new_audit_nonempty [simp]: "new_audit now phase detail \<noteq> []"
  by (simp add: new_audit_def)

lemma record_phase_cases:
  "record_phase now aid phase detail resolved docs = (r, docs') \<Longrightarrow>
     docs' = docs \<or>
     (\<exists>d. docs aid = Some d \<and> in_set (audit_phase d) TERMINAL_ROLLBACK_PHASES = Inr False \<and>
        phase \<in> set ROLLBACK_PHASES \<and> (resolved \<noteq> None \<longrightarrow> phase = PHASE_APPLIED) \<and>
        docs' = docs(aid \<mapsto>
          (case resolved of None \<Rightarrow> dput d ''apply_audit'' (PDict (new_audit now phase detail))
           | Some t \<Rightarrow> dput (dput d ''apply_audit'' (PDict (new_audit now phase detail))) ''resolved_at'' (PTime t))))"
  by (auto simp: record_phase_def record_phase_txn_def Let_def split: if_splits option.splits sum.splits bool.splits)

lemma record_phase_status:
  "record_phase now aid phase detail resolved docs = (r, docs') \<Longrightarrow>
     (docs' i = None \<longleftrightarrow> docs i = None) \<and> (ap_pending docs' i \<longleftrightarrow> ap_pending docs i)"
  by (drule record_phase_cases) (auto simp: ap_pending_def split: option.splits if_splits)

lemma ap_step_create:
  "ap_step (OpCreate mac now aid tok rv reason key who ttl env) docs = docs \<or>
   (\<exists>exp. ap_step (OpCreate mac now aid tok rv reason key who ttl env) docs =
      docs(aid \<mapsto> create_data mac now aid tok rv reason key who exp env))"
  by (auto simp: approval_create_def Let_def split: sum.split)

interpretation rollback_store: single_use_history ap_pending ap_claim "\<lambda>docs i. docs i \<noteq> None" ap_step ap_allowed
proof unfold_locales
  show "ap_claim c i s = (True, s') \<Longrightarrow> ap_pending s i \<and> \<not> ap_pending s' i" for c i s s'
    by (auto simp: ap_claim_eq split: if_splits) (auto simp: ap_pending_def claim_update_def split: claim_kind.splits)
  show "ap_claim c i s = (False, s') \<Longrightarrow> s' = s" for c i s s'
    by (auto simp: ap_claim_eq split: if_splits)
  show "ap_claim c i s = (w, s') \<Longrightarrow> j \<noteq> i \<Longrightarrow> ap_pending s' j = ap_pending s j" for c i s w s' j
    by (auto simp: ap_claim_eq ap_pending_def split: if_splits)
  show "ap_allowed op s \<Longrightarrow> s i \<noteq> None \<Longrightarrow> \<not> ap_pending s i \<Longrightarrow> \<not> ap_pending (ap_step op s) i" for op s i
  proof (cases op)
    case (OpRecord now aid phase detail resolved)
    then show "s i \<noteq> None \<Longrightarrow> \<not> ap_pending s i \<Longrightarrow> ?thesis"
      using record_phase_status [of now aid phase detail resolved s "fst (record_phase now aid phase detail resolved s)" _ i]
      by simp
  next
    case (OpCreate mac now aid tok rv reason key who ttl env)
    then show "ap_allowed op s \<Longrightarrow> s i \<noteq> None \<Longrightarrow> \<not> ap_pending s i \<Longrightarrow> ?thesis"
      using ap_step_create [of mac now aid tok rv reason key who ttl env s]
      by (auto simp: ap_pending_def split: if_splits)
  qed
  show "ap_allowed op s \<Longrightarrow> s i \<noteq> None \<Longrightarrow> ap_step op s i \<noteq> None" for op s i
  proof (cases op)
    case (OpRecord now aid phase detail resolved)
    then show "s i \<noteq> None \<Longrightarrow> ?thesis"
      using record_phase_status [of now aid phase detail resolved s "fst (record_phase now aid phase detail resolved s)" _ i]
      by simp
  next
    case (OpCreate mac now aid tok rv reason key who ttl env)
    then show "s i \<noteq> None \<Longrightarrow> ?thesis"
      using ap_step_create [of mac now aid tok rv reason key who ttl env s] by auto
  qed
  show "s i \<noteq> None \<Longrightarrow> snd (ap_claim c j s) i \<noteq> None" for s i c j
    by (auto simp: ap_claim_eq)
  show "ap_pending s i \<Longrightarrow> s i \<noteq> None" for s i
    by (auto simp: ap_pending_def)
qed

text \<open>Single use: over any interleaving of approve and deny claims, outcome writes and creations of
  fresh approvals, no approval identifier is ever claimed successfully twice.\<close>

theorem rollback_claim_once:
  assumes "rollback_store.well_behaved es docs"
  shows "distinct (rollback_store.wins es docs)"
  using assms by (rule rollback_store.wins_distinct)

definition demo_doc :: "pyval \<Rightarrow> pydict" where
  "demo_doc status = [(''status'', status), (''target_revision'', PStr ''demo-00001-abc''), (''reason'', PStr ''r''),
     (''token_hmac'', PStr ''h''), (''expires_at'', PTime 9), (''created_at'', PTime 0), (''created_by'', PStr ''c'')]"

theorem rollback_claim_once_witness:
  "rollback_store.wins [Claim (ClaimUsed 5) ''a'', Claim (ClaimDenied 6) ''a'']
       [''a'' \<mapsto> demo_doc (PStr ''pending'')] = [''a''] \<and>
   distinct (rollback_store.wins [Claim (ClaimUsed 5) ''a'', Claim (ClaimDenied 6) ''a'']
       [''a'' \<mapsto> demo_doc (PStr ''pending'')])"
  using rollback_claim_once
    [of "[Claim (ClaimUsed 5) ''a'', Claim (ClaimDenied 6) ''a'']" "[''a'' \<mapsto> demo_doc (PStr ''pending'')]"]
  by (simp add: ap_claim_eq ap_pending_def demo_doc_def claim_update_def complete_def APPROVAL_REQUIRED_def)

section \<open>What the outcome fields mean\<close>

text \<open>The documents a store can hold: it starts empty and evolves by claims, by creation of fresh
  approvals and by recording outcomes of approvals that are no longer pending.\<close>

inductive reachable :: "docs \<Rightarrow> bool" where
  start: "reachable Map.empty"
| claim: "reachable docs \<Longrightarrow> reachable (snd (ap_claim c i docs))"
| other: "reachable docs \<Longrightarrow> ap_allowed op docs \<Longrightarrow> reachable (ap_step op docs)"

definition settled :: "pydict \<Rightarrow> bool" where
  "settled d \<longleftrightarrow> in_set (audit_phase d) TERMINAL_ROLLBACK_PHASES = Inr True"

text \<open>The invariant of a document.\<close>

definition doc_ok :: "pydict \<Rightarrow> bool" where
  "doc_ok d \<longleftrightarrow>
     dget d ''status'' \<in> {PStr ''pending'', PStr ''used'', PStr ''denied''} \<and>
     (dget d ''status'' = PStr ''pending'' \<longrightarrow>
        dget d ''resolved_at'' = PNone \<and> dget d ''apply_audit'' = PNone) \<and>
     (dget d ''status'' = PStr ''used'' \<longrightarrow> (\<exists>p \<in> set ROLLBACK_PHASES. audit_phase d = PStr p)) \<and>
     (dget d ''resolved_at'' \<noteq> PNone \<longrightarrow>
        dget d ''status'' = PStr ''denied'' \<or> audit_phase d = PStr PHASE_APPLIED)"

lemma audit_phase_dput [simp]:
  "audit_phase (dput d ''apply_audit'' (PDict (new_audit now phase detail))) = PStr phase"
  "k \<noteq> ''apply_audit'' \<Longrightarrow> audit_phase (dput d k v) = audit_phase d"
  "audit_phase (dput d ''apply_audit'' (claimed_audit now)) = PStr PHASE_CLAIMED"
  by (simp_all add: audit_phase_def py_or_def claimed_audit_def)

lemma phase_distinct [simp]:
  "PHASE_APPLIED \<in> set TERMINAL_ROLLBACK_PHASES" "PHASE_APPLIED \<in> set ROLLBACK_PHASES"
  "PHASE_CLAIMED \<in> set ROLLBACK_PHASES"
  by (simp_all add: TERMINAL_ROLLBACK_PHASES_def ROLLBACK_PHASES_def)

lemma not_settled_applied: "in_set (audit_phase d) TERMINAL_ROLLBACK_PHASES = Inr False \<Longrightarrow> audit_phase d \<noteq> PStr PHASE_APPLIED"
  by auto

lemma claim_update_ok: "doc_ok d \<Longrightarrow> dget d ''status'' = PStr ''pending'' \<Longrightarrow> doc_ok (claim_update c d)"
  by (cases c) (auto simp: doc_ok_def claim_update_def)

lemma record_ok:
  assumes "doc_ok d" and "dget d ''status'' \<noteq> PStr ''pending''"
    and "in_set (audit_phase d) TERMINAL_ROLLBACK_PHASES = Inr False"
    and "phase \<in> set ROLLBACK_PHASES" and "resolved \<noteq> None \<longrightarrow> phase = PHASE_APPLIED"
  shows "doc_ok (case resolved of
       None \<Rightarrow> dput d ''apply_audit'' (PDict (new_audit now phase detail))
     | Some t \<Rightarrow> dput (dput d ''apply_audit'' (PDict (new_audit now phase detail))) ''resolved_at'' (PTime t))"
  using assms not_settled_applied [OF assms(3)] by (cases resolved) (auto simp: doc_ok_def)

lemma create_data_ok: "doc_ok (create_data mac now aid tok rv reason key who exp env)"
  by (simp add: doc_ok_def create_data_def)

lemma reachable_doc_ok: "reachable docs \<Longrightarrow> docs i = Some d \<Longrightarrow> doc_ok d"
proof (induction arbitrary: i d rule: reachable.induct)
  case start
  then show ?case by simp
next
  case (claim docs c j)
  then show ?case
    by (auto simp: ap_claim_eq ap_pending_def split: if_splits intro!: claim_update_ok)
next
  case (other docs op)
  show ?case
  proof (cases op)
    case (OpCreate mac now aid tok rv reason key who ttl env)
    with other show ?thesis
      using ap_step_create [of mac now aid tok rv reason key who ttl env docs]
      by (auto simp: create_data_ok split: if_splits)
  next
    case (OpRecord now aid phase detail resolved)
    obtain r docs' where rp: "record_phase now aid phase detail resolved docs = (r, docs')" by force
    from other.hyps(2) OpRecord have np: "\<not> ap_pending docs aid" by simp
    from record_phase_cases [OF rp] show ?thesis
    proof (elim disjE exE conjE)
      assume "docs' = docs"
      with rp OpRecord other show ?thesis by simp
    next
      fix e assume e: "docs aid = Some e" "in_set (audit_phase e) TERMINAL_ROLLBACK_PHASES = Inr False"
        "phase \<in> set ROLLBACK_PHASES" "resolved \<noteq> None \<longrightarrow> phase = PHASE_APPLIED"
        "docs' = docs(aid \<mapsto>
          (case resolved of None \<Rightarrow> dput e ''apply_audit'' (PDict (new_audit now phase detail))
           | Some t \<Rightarrow> dput (dput e ''apply_audit'' (PDict (new_audit now phase detail))) ''resolved_at'' (PTime t)))"
      have "doc_ok e" using other.IH e(1) .
      moreover have "dget e ''status'' \<noteq> PStr ''pending''" using np e(1) by (auto simp: ap_pending_def)
      ultimately have ok: "doc_ok (case resolved of
           None \<Rightarrow> dput e ''apply_audit'' (PDict (new_audit now phase detail))
         | Some t \<Rightarrow> dput (dput e ''apply_audit'' (PDict (new_audit now phase detail))) ''resolved_at'' (PTime t))"
        using e(2-4) by (rule record_ok)
      show ?thesis
      proof (cases "i = aid")
        case True
        with other.prems OpRecord rp e(5) ok show ?thesis by simp
      next
        case False
        with other.prems other.IH OpRecord rp e(5) show ?thesis by simp
      qed
    qed
  qed
qed

text \<open>A completion time is honest: in every reachable state of the store, an approval that
  carries \<open>resolved_at\<close> was denied or has the confirmed phase \<open>applied\<close>, and a spent approval always
  carries one of the recorded rollback phases.\<close>

theorem resolved_at_means_settled:
  assumes "reachable docs" and "docs i = Some d"
  shows "(dget d ''resolved_at'' \<noteq> PNone \<longrightarrow>
            dget d ''status'' = PStr ''denied'' \<or> audit_phase d = PStr PHASE_APPLIED) \<and>
         (dget d ''status'' = PStr ''used'' \<longrightarrow> (\<exists>p \<in> set ROLLBACK_PHASES. audit_phase d = PStr p))"
  using reachable_doc_ok [OF assms] unfolding doc_ok_def by blast

theorem resolved_at_means_settled_witness:
  "\<exists>d. ap_step (OpCreate (\<lambda>k m. k @ m) 0 ''a'' ''t'' ''r'' ''w'' ''k'' ''c'' 15 PNone) Map.empty ''a'' = Some d \<and>
     (dget d ''resolved_at'' \<noteq> PNone \<longrightarrow>
        dget d ''status'' = PStr ''denied'' \<or> audit_phase d = PStr PHASE_APPLIED)"
proof -
  let ?op = "OpCreate (\<lambda>k m. k @ m) 0 ''a'' ''t'' ''r'' ''w'' ''k'' ''c'' 15 PNone"
  have r: "reachable (ap_step ?op Map.empty)"
    by (rule reachable.other [OF reachable.start]) simp
  obtain d where d: "ap_step ?op Map.empty ''a'' = Some d"
    by (simp add: approval_create_def add_minutes_def max_day_def usec_per_day_def Let_def)
  with resolved_at_means_settled [OF r d] show ?thesis by blast
qed

text \<open>A settled outcome is final: once a document records \<open>applied\<close> or \<open>failed\<close>, no call of
  \<open>record_phase\<close>, whatever its arguments, and no claim changes the collection at that approval.\<close>

theorem settled_outcome_final:
  assumes "docs aid = Some d" and "settled d" and "dget d ''status'' \<noteq> PStr ''pending''"
  shows "snd (record_phase now aid phase detail resolved docs) = docs \<and> ap_claim c aid docs = (False, docs)"
proof
  show "snd (record_phase now aid phase detail resolved docs) = docs"
    using assms by (auto simp: record_phase_def record_phase_txn_def settled_def)
  show "ap_claim c aid docs = (False, docs)"
    using assms(1,3) by (simp add: ap_claim_eq ap_pending_def)
qed

definition applied_doc :: pydict where
  "applied_doc = [(''status'', PStr ''used''), (''apply_audit'', PDict [(''phase'', PStr ''applied'')])]"

theorem settled_outcome_final_witness:
  "snd (record_phase 7 ''a'' ''outcome_unknown'' PNone None [''a'' \<mapsto> applied_doc]) = [''a'' \<mapsto> applied_doc] \<and>
   ap_claim (ClaimDenied 8) ''a'' [''a'' \<mapsto> applied_doc] = (False, [''a'' \<mapsto> applied_doc])"
  by (rule settled_outcome_final [of _ _ applied_doc])
    (simp_all add: applied_doc_def settled_def audit_phase_def py_or_def TERMINAL_ROLLBACK_PHASES_def phase_defs)

end
