(* ===== verification/Regex.thy ===== *)
theory Regex
  imports Prelude
begin

text \<open>
  The regular expressions the code compiles with \<open>re\<close>, matched by derivatives.  None of them uses
  backreferences or lookaround, so \<open>pattern.fullmatch(s)\<close> is membership of \<open>s\<close> in the language,
  and a \<open>match\<close> against a pattern that ends in a dollar sign is membership of \<open>s\<close>, or of \<open>s\<close>
  without one final newline.
\<close>

datatype rx =
    RNone
  | REps
  | RCls "(nat \<times> nat) list"
  | RAlt rx rx
  | RSeq rx rx
  | RStar rx

definition in_ranges :: "(nat \<times> nat) list \<Rightarrow> char \<Rightarrow> bool" where
  "in_ranges rs c \<longleftrightarrow> (\<exists>(lo, hi) \<in> set rs. lo \<le> of_char c \<and> of_char c \<le> hi)"

fun nullable :: "rx \<Rightarrow> bool" where
  "nullable RNone = False"
| "nullable REps = True"
| "nullable (RCls _) = False"
| "nullable (RAlt r s) = (nullable r \<or> nullable s)"
| "nullable (RSeq r s) = (nullable r \<and> nullable s)"
| "nullable (RStar _) = True"

fun rderiv :: "char \<Rightarrow> rx \<Rightarrow> rx" where
  "rderiv c RNone = RNone"
| "rderiv c REps = RNone"
| "rderiv c (RCls rs) = (if in_ranges rs c then REps else RNone)"
| "rderiv c (RAlt r s) = RAlt (rderiv c r) (rderiv c s)"
| "rderiv c (RSeq r s) =
     (if nullable r then RAlt (RSeq (rderiv c r) s) (rderiv c s) else RSeq (rderiv c r) s)"
| "rderiv c (RStar r) = RSeq (rderiv c r) (RStar r)"

definition fullmatch :: "rx \<Rightarrow> string \<Rightarrow> bool" where
  "fullmatch r s = nullable (fold rderiv s r)"

text \<open>\<open>match\<close> of a pattern that starts with a caret and ends with a dollar sign.\<close>

definition match_dollar :: "rx \<Rightarrow> string \<Rightarrow> bool" where
  "match_dollar r s \<longleftrightarrow>
     fullmatch r s \<or> (s \<noteq> [] \<and> last s = char_of (10::nat) \<and> fullmatch r (butlast s))"

section \<open>Languages\<close>

inductive_set star :: "string set \<Rightarrow> string set" for A :: "string set" where
  star_Nil [intro!, simp]: "[] \<in> star A"
| star_append [intro]: "u \<in> A \<Longrightarrow> v \<in> star A \<Longrightarrow> u @ v \<in> star A"

fun lang :: "rx \<Rightarrow> string set" where
  "lang RNone = {}"
| "lang REps = {[]}"
| "lang (RCls rs) = {[c] | c. in_ranges rs c}"
| "lang (RAlt r s) = lang r \<union> lang s"
| "lang (RSeq r s) = {u @ v | u v. u \<in> lang r \<and> v \<in> lang s}"
| "lang (RStar r) = star (lang r)"

lemma nullable_iff: "nullable r \<longleftrightarrow> [] \<in> lang r"
  by (induction r) auto

lemma star_Cons: "c # w \<in> star A \<longleftrightarrow> (\<exists>u v. w = u @ v \<and> c # u \<in> A \<and> v \<in> star A)"
proof
  assume "c # w \<in> star A"
  then show "\<exists>u v. w = u @ v \<and> c # u \<in> A \<and> v \<in> star A"
  proof (induction "c # w" rule: star.induct)
    case (star_append u v)
    then show ?case by (cases u) auto
  qed
qed (metis append_Cons star.star_append)

lemma lang_rderiv: "w \<in> lang (rderiv c r) \<longleftrightarrow> c # w \<in> lang r"
proof (induction r arbitrary: w)
  case (RSeq r s)
  have "c # w \<in> lang (RSeq r s) \<longleftrightarrow>
      (\<exists>u v. w = u @ v \<and> c # u \<in> lang r \<and> v \<in> lang s) \<or> [] \<in> lang r \<and> c # w \<in> lang s"
    by (auto simp: Cons_eq_append_conv)
  with RSeq show ?case by (auto simp: nullable_iff)
next
  case (RStar r)
  then show ?case by (auto simp: star_Cons)
qed auto

lemma fullmatch_iff [py_simps]: "fullmatch r s \<longleftrightarrow> s \<in> lang r"
  unfolding fullmatch_def
  by (induction s arbitrary: r) (simp_all add: nullable_iff lang_rderiv)

section \<open>Derived forms\<close>

definition rstr :: "string \<Rightarrow> rx" where
  "rstr s = foldr (\<lambda>c r. RSeq (RCls [(of_char c, of_char c)]) r) s REps"

definition ropt :: "rx \<Rightarrow> rx" where "ropt r = RAlt r REps"

definition rplus :: "rx \<Rightarrow> rx" where "rplus r = RSeq r (RStar r)"

fun rrep :: "nat \<Rightarrow> rx \<Rightarrow> rx" where
  "rrep 0 r = REps"
| "rrep (Suc n) r = RSeq r (rrep n r)"

fun rupto :: "nat \<Rightarrow> rx \<Rightarrow> rx" where
  "rupto 0 r = REps"
| "rupto (Suc n) r = ropt (RSeq r (rupto n r))"

lemma lang_rstr [simp]: "lang (rstr s) = {s}"
proof (induction s)
  case (Cons c s)
  have "in_ranges [(of_char c, of_char c)] d \<longleftrightarrow> d = c" for d
    by (auto simp: in_ranges_def)
  with Cons show ?case by (auto simp: rstr_def)
qed (simp add: rstr_def)

lemma lang_ropt [simp]: "lang (ropt r) = insert [] (lang r)"
  by (auto simp: ropt_def)

text \<open>Repetitions of one character class.\<close>

lemma lang_star_cls: "star {[c] | c. P c} = {s. \<forall>c \<in> set s. P c}"
proof (intro set_eqI iffI)
  fix s assume "s \<in> star {[c] | c. P c}"
  then show "s \<in> {s. \<forall>c \<in> set s. P c}" by (induction rule: star.induct) auto
next
  fix s assume "s \<in> {s. \<forall>c \<in> set s. P c}"
  then have "\<forall>c \<in> set s. P c" by simp
  then show "s \<in> star {[c] | c. P c}"
  proof (induction s)
    case (Cons c s)
    then have "[c] @ s \<in> star {[c] | c. P c}" by (intro star.star_append) auto
    then show ?case by simp
  qed simp
qed

lemma lang_rstar_cls [simp]: "lang (RStar (RCls rs)) = {s. \<forall>c \<in> set s. in_ranges rs c}"
  by (simp add: lang_star_cls)

lemma lang_seq_cls:
  "s \<in> lang (RSeq (RCls rs) r) \<longleftrightarrow>
     (case s of [] \<Rightarrow> False | c # t \<Rightarrow> in_ranges rs c \<and> t \<in> lang r)"
proof (cases s)
  case (Cons c t)
  have "in_ranges rs c \<and> t \<in> lang r \<Longrightarrow> s \<in> lang (RSeq (RCls rs) r)"
    unfolding lang.simps Cons by (intro CollectI exI [of _ "[c]"] exI [of _ t]) auto
  then show ?thesis by (auto simp: Cons)
qed auto

lemma lang_rplus_cls [simp]: "lang (rplus (RCls rs)) = {s. s \<noteq> [] \<and> (\<forall>c \<in> set s. in_ranges rs c)}"
  unfolding rplus_def set_eq_iff lang_seq_cls lang_rstar_cls by (auto split: list.split)

lemma lang_rrep_cls [simp]:
  "lang (rrep n (RCls rs)) = {s. length s = n \<and> (\<forall>c \<in> set s. in_ranges rs c)}"
proof (induction n)
  case (Suc n)
  show ?case
    unfolding rrep.simps set_eq_iff lang_seq_cls Suc by (auto split: list.split)
qed auto

lemma lang_rupto_cls [simp]:
  "lang (rupto n (RCls rs)) = {s. length s \<le> n \<and> (\<forall>c \<in> set s. in_ranges rs c)}"
proof (induction n)
  case (Suc n)
  show ?case
    unfolding rupto.simps lang_ropt set_eq_iff insert_iff lang_seq_cls Suc by (auto split: list.split)
qed auto

section \<open>Character classes\<close>

definition digits_cls :: "(nat \<times> nat) list" where "digits_cls = [(48, 57)]"
definition lower_hex_cls :: "(nat \<times> nat) list" where "lower_hex_cls = [(48, 57), (97, 102)]"
definition hex_cls :: "(nat \<times> nat) list" where "hex_cls = [(48, 57), (97, 102), (65, 70)]"
definition lower_cls :: "(nat \<times> nat) list" where "lower_cls = [(97, 122)]"
definition alnum_cls :: "(nat \<times> nat) list" where "alnum_cls = [(65, 90), (97, 122), (48, 57)]"

lemma in_digits_cls [simp]: "in_ranges digits_cls c \<longleftrightarrow> is_digit c"
  by (simp add: in_ranges_def digits_cls_def is_digit_def)

lemma in_ranges_Nil [simp]: "\<not> in_ranges [] c"
  by (simp add: in_ranges_def)

lemma in_ranges_Cons [simp]:
  "in_ranges ((lo, hi) # rs) c \<longleftrightarrow> (lo \<le> of_char c \<and> of_char c \<le> hi) \<or> in_ranges rs c"
  by (simp add: in_ranges_def)

text \<open>A character outside the class does not occur in a repetition of it.\<close>

lemma class_excludes: "\<forall>c \<in> set s. in_ranges rs c \<Longrightarrow> \<not> in_ranges rs d \<Longrightarrow> d \<notin> set s"
  by blast

end
