(* ===== verification/PlanMetadata.thy ===== *)
theory PlanMetadata
  imports PyValue Regex
begin

text \<open>
  The \<open>c2.v1\<close> plan metadata of \<open>driftscribe_lib/iac_plan_metadata.py\<close>.  The fields of
  \<open>MetadataInput\<close> are dynamically typed values, as the callers hand over untrusted JSON; a
  \<open>fullmatch\<close> on a value that is not a string raises \<open>TypeError\<close>.  The text after the field name
  in an error message is not kept.
\<close>

definition METADATA_SCHEMA_VERSION :: string where "METADATA_SCHEMA_VERSION = ''c2.v1''"

definition HEX40 :: rx where "HEX40 = rrep 40 (RCls lower_hex_cls)"
definition HEX64 :: rx where "HEX64 = rrep 64 (RCls lower_hex_cls)"

definition repo_cls :: "(nat \<times> nat) list" where
  "repo_cls = alnum_cls @ [(46, 46), (95, 95), (45, 45)]"

definition REPO :: rx where
  "REPO = RSeq (rplus (RCls repo_cls)) (RSeq (rstr ''/'') (rplus (RCls repo_cls)))"

definition DIGITS :: rx where "DIGITS = rplus (RCls digits_cls)"

definition SEMVER_3 :: rx where
  "SEMVER_3 =
     RSeq (rplus (RCls digits_cls)) (RSeq (rstr ''.'') (RSeq (rplus (RCls digits_cls)) (RSeq (rstr ''.'')
       (RSeq (rplus (RCls digits_cls))
         (ropt (RSeq (RCls [(46, 46), (45, 45)]) (rplus (RCls (alnum_cls @ [(46, 46), (45, 45)])))))))))"

definition POSITIVE_DIGITS :: rx where
  "POSITIVE_DIGITS = RSeq (RCls [(49, 57)]) (RStar (RCls digits_cls))"

record metadata_input =
  repo :: pyval
  pr_number :: pyval
  head_sha :: pyval
  base_sha :: pyval
  workflow_run_id :: pyval
  workflow_run_attempt :: pyval
  artifact_uri_plan :: pyval
  artifact_uri_json :: pyval
  generation_plan :: pyval
  generation_json :: pyval
  plan_sha256 :: pyval
  plan_json_sha256 :: pyval
  opentofu_version :: pyval
  provider_lockfile_sha256 :: pyval

text \<open>\<open>_check(name, value, predicate, message)\<close> for a predicate that may itself raise.\<close>

definition check_field :: "string \<Rightarrow> pyval \<Rightarrow> (pyval \<Rightarrow> (pyexc, bool) res) \<Rightarrow> (pyexc, unit) res" where
  "check_field name v p = rbind (p v) (\<lambda>ok. require ok (ValueError name))"

text \<open>\<open>bool(R.fullmatch(v))\<close>, without and with the \<open>isinstance(v, str)\<close> guard.\<close>

definition matches :: "rx \<Rightarrow> pyval \<Rightarrow> (pyexc, bool) res" where
  "matches r v = (case v of PStr s \<Rightarrow> Inr (fullmatch r s) | _ \<Rightarrow> Inl TypeError)"

definition str_matches :: "rx \<Rightarrow> pyval \<Rightarrow> (pyexc, bool) res" where
  "str_matches r v = (case v of PStr s \<Rightarrow> Inr (fullmatch r s) | _ \<Rightarrow> Inr False)"

text \<open>\<open>isinstance(v, int) and not isinstance(v, bool) and v > 0\<close>.\<close>

definition positive_int :: "pyval \<Rightarrow> (pyexc, bool) res" where
  "positive_int v = (case v of PInt i \<Rightarrow> Inr (0 < i) | _ \<Rightarrow> Inr False)"

definition expected_prefix :: "metadata_input \<Rightarrow> string" where
  "expected_prefix inp =
     ''gs://driftscribe-hack-2026-tofu-artifacts/pr-'' @ py_str (pr_number inp) @ ''/'' @
     py_str (head_sha inp) @ ''/run-'' @ py_str (workflow_run_id inp) @ ''-'' @
     py_str (workflow_run_attempt inp) @ ''/''"

definition build_metadata :: "metadata_input \<Rightarrow> (pyexc, pydict) res" where
  "build_metadata inp =
     rbind (check_field ''repo'' (repo inp) (matches REPO)) (\<lambda>_.
     rbind (check_field ''pr_number'' (pr_number inp) positive_int) (\<lambda>_.
     rbind (check_field ''head_sha'' (head_sha inp) (matches HEX40)) (\<lambda>_.
     rbind (check_field ''base_sha'' (base_sha inp) (matches HEX40)) (\<lambda>_.
     rbind (check_field ''workflow_run_id'' (workflow_run_id inp) (str_matches DIGITS)) (\<lambda>_.
     rbind (check_field ''workflow_run_attempt'' (workflow_run_attempt inp) (str_matches POSITIVE_DIGITS)) (\<lambda>_.
     rbind (check_field ''generation_plan'' (generation_plan inp) (str_matches DIGITS)) (\<lambda>_.
     rbind (check_field ''generation_json'' (generation_json inp) (str_matches DIGITS)) (\<lambda>_.
     rbind (check_field ''plan_sha256'' (plan_sha256 inp) (matches HEX64)) (\<lambda>_.
     rbind (check_field ''plan_json_sha256'' (plan_json_sha256 inp) (matches HEX64)) (\<lambda>_.
     rbind (check_field ''provider_lockfile_sha256'' (provider_lockfile_sha256 inp) (matches HEX64)) (\<lambda>_.
     rbind (check_field ''opentofu_version'' (opentofu_version inp) (matches SEMVER_3)) (\<lambda>_.
     rbind (check_field ''artifact_uri_plan'' (artifact_uri_plan inp)
              (\<lambda>v. Inr (v = PStr (expected_prefix inp @ ''plan.tfplan'')))) (\<lambda>_.
     rbind (check_field ''artifact_uri_json'' (artifact_uri_json inp)
              (\<lambda>v. Inr (v = PStr (expected_prefix inp @ ''plan.json'')))) (\<lambda>_.
       Inr [(''schema_version'', PStr METADATA_SCHEMA_VERSION),
            (''repo'', repo inp), (''pr_number'', pr_number inp), (''head_sha'', head_sha inp),
            (''base_sha'', base_sha inp), (''workflow_run_id'', workflow_run_id inp),
            (''workflow_run_attempt'', workflow_run_attempt inp),
            (''artifact_uri_plan'', artifact_uri_plan inp), (''artifact_uri_json'', artifact_uri_json inp),
            (''generation_plan'', generation_plan inp), (''generation_json'', generation_json inp),
            (''plan_sha256'', plan_sha256 inp), (''plan_json_sha256'', plan_json_sha256 inp),
            (''opentofu_version'', opentofu_version inp),
            (''provider_lockfile_sha256'', provider_lockfile_sha256 inp)]))))))))))))))"

section \<open>What a returned record satisfies\<close>

lemma check_field_ok:
  "check_field name v p = Inr u \<longleftrightarrow> p v = Inr True"
  by (cases "p v") (auto simp: check_field_def)

lemma matches_True [simp]:
  "matches r v = Inr True \<longleftrightarrow> (\<exists>s. v = PStr s \<and> fullmatch r s)"
  "str_matches r v = Inr True \<longleftrightarrow> (\<exists>s. v = PStr s \<and> fullmatch r s)"
  "positive_int v = Inr True \<longleftrightarrow> (\<exists>i. v = PInt i \<and> 0 < i)"
  by (auto simp: matches_def str_matches_def positive_int_def split: pyval.splits)

text \<open>The shape of every field of a well-formed input.\<close>

definition metadata_ok :: "metadata_input \<Rightarrow> bool" where
  "metadata_ok inp \<longleftrightarrow>
     matches REPO (repo inp) = Inr True \<and> positive_int (pr_number inp) = Inr True \<and>
     matches HEX40 (head_sha inp) = Inr True \<and> matches HEX40 (base_sha inp) = Inr True \<and>
     str_matches DIGITS (workflow_run_id inp) = Inr True \<and>
     str_matches POSITIVE_DIGITS (workflow_run_attempt inp) = Inr True \<and>
     str_matches DIGITS (generation_plan inp) = Inr True \<and>
     str_matches DIGITS (generation_json inp) = Inr True \<and>
     matches HEX64 (plan_sha256 inp) = Inr True \<and> matches HEX64 (plan_json_sha256 inp) = Inr True \<and>
     matches HEX64 (provider_lockfile_sha256 inp) = Inr True \<and>
     matches SEMVER_3 (opentofu_version inp) = Inr True \<and>
     artifact_uri_plan inp = PStr (expected_prefix inp @ ''plan.tfplan'') \<and>
     artifact_uri_json inp = PStr (expected_prefix inp @ ''plan.json'')"

definition metadata_dict :: "metadata_input \<Rightarrow> pydict" where
  "metadata_dict inp =
     [(''schema_version'', PStr METADATA_SCHEMA_VERSION),
      (''repo'', repo inp), (''pr_number'', pr_number inp), (''head_sha'', head_sha inp),
      (''base_sha'', base_sha inp), (''workflow_run_id'', workflow_run_id inp),
      (''workflow_run_attempt'', workflow_run_attempt inp),
      (''artifact_uri_plan'', artifact_uri_plan inp), (''artifact_uri_json'', artifact_uri_json inp),
      (''generation_plan'', generation_plan inp), (''generation_json'', generation_json inp),
      (''plan_sha256'', plan_sha256 inp), (''plan_json_sha256'', plan_json_sha256 inp),
      (''opentofu_version'', opentofu_version inp),
      (''provider_lockfile_sha256'', provider_lockfile_sha256 inp)]"

lemma build_metadata_iff:
  "build_metadata inp = Inr md \<longleftrightarrow> metadata_ok inp \<and> md = metadata_dict inp"
  unfolding build_metadata_def rbind_Inr_iff check_field_ok metadata_ok_def metadata_dict_def
  by auto

end
