(* ===== verification/PyJson.thy ===== *)
theory PyJson
  imports PyValue "HOL-Library.Char_ord" "HOL-Library.List_Lexorder" "HOL-Library.Multiset"
begin

text \<open>
  The standard library's JSON, as far as the approval code relies on it: \<open>json.dumps\<close> with sorted
  keys, compact separators and ASCII escapes, and \<open>json.loads\<close>.  The parser takes fuel that bounds
  the nesting and the number of elements; \<open>json_loads\<close> gives it one more than the length of the
  text, which the round trip shows to be enough for every printed value.  A float is kept as its
  literal text, and an escape for a code point above 255 is outside the model (no result).
\<close>

section \<open>Printing\<close>

definition hex4 :: "nat \<Rightarrow> string" where
  "hex4 n = hex2 (n div 256) @ hex2 (n mod 256)"

definition js_char :: "char \<Rightarrow> string" where
  "js_char c =
     (let n = (of_char c :: nat) in
      if n = 34 \<or> n = 92 then [CHR 0x5C, c]
      else if n = 8 then [CHR 0x5C, CHR ''b'']
      else if n = 9 then [CHR 0x5C, CHR ''t'']
      else if n = 10 then [CHR 0x5C, CHR ''n'']
      else if n = 12 then [CHR 0x5C, CHR ''f'']
      else if n = 13 then [CHR 0x5C, CHR ''r'']
      else if 32 \<le> n \<and> n \<le> 126 then [c]
      else [CHR 0x5C, CHR ''u''] @ hex4 n)"

definition js_str :: "string \<Rightarrow> string" where
  "js_str s = [CHR 0x22] @ concat (map js_char s) @ [CHR 0x22]"

fun canon :: "pyval \<Rightarrow> pyval" where
  "canon (PList l) = PList (map canon l)"
| "canon (PDict d) = PDict (sort_key fst (map (\<lambda>(k, v). (k, canon v)) d))"
| "canon v = v"

fun emit :: "pyval \<Rightarrow> string" where
  "emit PNone = ''null''"
| "emit (PBool b) = (if b then ''true'' else ''false'')"
| "emit (PInt i) = show_int i"
| "emit (PFloat r) = r"
| "emit (PStr s) = js_str s"
| "emit (PTime _) = []"
| "emit (PList l) = ''['' @ join_str '','' (map emit l) @ '']''"
| "emit (PDict d) = ''{'' @ join_str '','' (map (\<lambda>(k, v). js_str k @ '':'' @ emit v) d) @ ''}''"

text \<open>\<open>json.dumps(v, indent=2)\<close>, at an indentation level.\<close>

definition new_line :: "nat \<Rightarrow> string" where
  "new_line lvl = CHR 0x0A # replicate (2 * lvl) (CHR '' '')"

fun emit_indent :: "nat \<Rightarrow> pyval \<Rightarrow> string" where
  "emit_indent lvl (PList l) =
     (if l = [] then ''[]''
      else ''['' @ new_line (Suc lvl) @ join_str ('','' @ new_line (Suc lvl)) (map (emit_indent (Suc lvl)) l) @
        new_line lvl @ '']'')"
| "emit_indent lvl (PDict d) =
     (if d = [] then ''{}''
      else ''{'' @ new_line (Suc lvl) @
        join_str ('','' @ new_line (Suc lvl)) (map (\<lambda>(k, v). js_str k @ '': '' @ emit_indent (Suc lvl) v) d) @
        new_line lvl @ ''}'')"
| "emit_indent lvl v = emit v"

text \<open>\<open>json.dumps(v)\<close> with the default separators.\<close>

fun emit_spaced :: "pyval \<Rightarrow> string" where
  "emit_spaced (PList l) = ''['' @ join_str '', '' (map emit_spaced l) @ '']''"
| "emit_spaced (PDict d) = ''{'' @ join_str '', '' (map (\<lambda>(k, v). js_str k @ '': '' @ emit_spaced v) d) @ ''}''"
| "emit_spaced v = emit v"

text \<open>A datetime is not JSON serializable.\<close>

fun serializable :: "pyval \<Rightarrow> bool" where
  "serializable (PTime _) = False"
| "serializable (PList l) = list_all serializable l"
| "serializable (PDict d) = list_all (\<lambda>(_, v). serializable v) d"
| "serializable _ = True"

definition json_dumps :: "pyval \<Rightarrow> (pyexc, string) res" where
  "json_dumps v = (if serializable v then Inr (emit (canon v)) else Inl TypeError)"

section \<open>Parsing\<close>

definition is_ws :: "char \<Rightarrow> bool" where
  "is_ws c \<longleftrightarrow> (of_char c :: nat) \<in> {9, 10, 13, 32}"

definition skip_ws :: "string \<Rightarrow> string" where
  "skip_ws s = dropWhile is_ws s"

definition hex_val :: "char \<Rightarrow> nat option" where
  "hex_val c =
     (let n = (of_char c :: nat) in
      if 48 \<le> n \<and> n \<le> 57 then Some (n - 48)
      else if 97 \<le> n \<and> n \<le> 102 then Some (n - 87)
      else if 65 \<le> n \<and> n \<le> 70 then Some (n - 55) else None)"

definition escape_val :: "char \<Rightarrow> char option" where
  "escape_val e =
     map_of [(CHR 0x22, CHR 0x22), (CHR 0x5C, CHR 0x5C), (CHR ''/'', CHR ''/''), (CHR ''b'', CHR 0x08),
       (CHR ''f'', CHR 0x0C), (CHR ''n'', CHR 0x0A), (CHR ''r'', CHR 0x0D), (CHR ''t'', CHR 0x09)] e"

definition parse_hex4 :: "string \<Rightarrow> nat option" where
  "parse_hex4 s =
     (case map hex_val s of
        [Some a, Some b, Some c, Some d] \<Rightarrow> Some (4096 * a + 256 * b + 16 * c + d)
      | _ \<Rightarrow> None)"

text \<open>The characters of a string literal after its opening quote, and the text after the closing
  one.\<close>

function parse_chars :: "string \<Rightarrow> (string \<times> string) option" where
  "parse_chars [] = None"
| "parse_chars (c # s) =
     (if c = CHR 0x22 then Some ([], s)
      else if c = CHR 0x5C then
        (case s of
           [] \<Rightarrow> None
         | e # t \<Rightarrow>
             if e = CHR ''u'' then
               (case parse_hex4 (take 4 t) of
                  None \<Rightarrow> None
                | Some n \<Rightarrow> if n < 256 then map_option (\<lambda>(a, r). (char_of n # a, r)) (parse_chars (drop 4 t)) else None)
             else
               (case escape_val e of
                  None \<Rightarrow> None
                | Some x \<Rightarrow> map_option (\<lambda>(a, r). (x # a, r)) (parse_chars t)))
      else if (of_char c :: nat) < 32 then None
      else map_option (\<lambda>(a, r). (c # a, r)) (parse_chars s))"
  by pat_completeness auto
termination
  by (relation "measure length") auto

declare parse_chars.simps(2) [simp del]

text \<open>The number literal at the start of the text: an integer, or a float's text.\<close>

definition int_digits :: "string \<Rightarrow> string" where
  "int_digits s = (if starts_with ''0'' s then ''0'' else takeWhile is_digit s)"

definition after_fraction :: "string \<Rightarrow> string" where
  "after_fraction r =
     (let ds = takeWhile is_digit (drop 1 r) in
      if starts_with ''.'' r \<and> ds \<noteq> [] then drop (Suc (length ds)) r else r)"

definition after_exponent :: "string \<Rightarrow> string" where
  "after_exponent r =
     (let k = (if starts_with ''-'' (drop 1 r) \<or> starts_with ''+'' (drop 1 r) then 2 else 1);
          ds = takeWhile is_digit (drop k r)
      in if (starts_with ''e'' r \<or> starts_with ''E'' r) \<and> ds \<noteq> [] then drop (k + length ds) r else r)"

definition parse_number :: "string \<Rightarrow> (pyval \<times> string) option" where
  "parse_number s =
     (let neg = starts_with ''-'' s;
          s1 = (if neg then drop 1 s else s);
          ds = int_digits s1;
          r1 = drop (length ds) s1;
          r2 = after_exponent (after_fraction r1)
      in if ds = [] then None
         else if r2 = r1 then Some (PInt (if neg then - int (read_nat ds) else int (read_nat ds)), r1)
         else Some (PFloat (take (length s - length r2) s), r2))"

definition parse_literal :: "string \<Rightarrow> pyval \<Rightarrow> string \<Rightarrow> (pyval \<times> string) option" where
  "parse_literal lit v s = (if starts_with lit s then Some (v, drop (length lit) s) else None)"

fun parse_value :: "nat \<Rightarrow> string \<Rightarrow> (pyval \<times> string) option"
  and parse_elems :: "nat \<Rightarrow> string \<Rightarrow> (pyval list \<times> string) option"
  and parse_members :: "nat \<Rightarrow> pydict \<Rightarrow> string \<Rightarrow> (pydict \<times> string) option" where
  "parse_value 0 s = None"
| "parse_value (Suc n) s =
     (case s of
        [] \<Rightarrow> None
      | c # t \<Rightarrow>
          if c = CHR 0x22 then map_option (\<lambda>(a, r). (PStr a, r)) (parse_chars t)
          else if c = CHR 0x7B then
            (if starts_with [CHR 0x7D] (skip_ws t) then Some (PDict [], drop 1 (skip_ws t))
             else map_option (\<lambda>(d, r). (PDict d, r)) (parse_members n [] (skip_ws t)))
          else if c = CHR 0x5B then
            (if starts_with [CHR 0x5D] (skip_ws t) then Some (PList [], drop 1 (skip_ws t))
             else map_option (\<lambda>(l, r). (PList l, r)) (parse_elems n (skip_ws t)))
          else if c = CHR ''n'' then parse_literal ''null'' PNone s
          else if c = CHR ''t'' then parse_literal ''true'' (PBool True) s
          else if c = CHR ''f'' then parse_literal ''false'' (PBool False) s
          else if c = CHR ''N'' then parse_literal ''NaN'' (PFloat ''NaN'') s
          else if c = CHR ''I'' then parse_literal ''Infinity'' (PFloat ''Infinity'') s
          else if starts_with ''-I'' s then parse_literal ''-Infinity'' (PFloat ''-Infinity'') s
          else parse_number s)"
| "parse_elems 0 s = None"
| "parse_elems (Suc n) s =
     (case parse_value n s of
        None \<Rightarrow> None
      | Some (v, r) \<Rightarrow>
          (case skip_ws r of
             [] \<Rightarrow> None
           | c # t \<Rightarrow>
               if c = CHR '','' then map_option (\<lambda>(l, r). (v # l, r)) (parse_elems n (skip_ws t))
               else if c = CHR 0x5D then Some ([v], t) else None))"
| "parse_members 0 acc s = None"
| "parse_members (Suc n) acc s =
     (case s of
        [] \<Rightarrow> None
      | q # s1 \<Rightarrow>
          if q \<noteq> CHR 0x22 then None
          else (case parse_chars s1 of
             None \<Rightarrow> None
           | Some (k, r) \<Rightarrow>
               (case skip_ws r of
                  [] \<Rightarrow> None
                | c # r1 \<Rightarrow>
                    if c \<noteq> CHR '':'' then None
                    else (case parse_value n (skip_ws r1) of
                       None \<Rightarrow> None
                     | Some (v, r2) \<Rightarrow>
                         (case skip_ws r2 of
                            [] \<Rightarrow> None
                          | e # r3 \<Rightarrow>
                              if e = CHR '','' then parse_members n (dput acc k v) (skip_ws r3)
                              else if e = CHR 0x7D then Some (dput acc k v, r3) else None)))))"

definition json_loads :: "string \<Rightarrow> pyval option" where
  "json_loads s =
     (case parse_value (Suc (length s)) (skip_ws s) of
        Some (v, r) \<Rightarrow> if skip_ws r = [] then Some v else None
      | None \<Rightarrow> None)"

section \<open>Round trip\<close>

subsection \<open>Strings\<close>

lemma hex_val_digit: "d < 16 \<Longrightarrow> hex_val (hex_digit d) = Some d"
  by (simp add: hex_val_def hex_digit_def)

lemma parse_hex4_hex4: "n < 256 \<Longrightarrow> parse_hex4 (hex4 n) = Some n"
  by (simp add: parse_hex4_def hex4_def hex2_def hex_val_digit less_mult_imp_div_less)

lemma parse_chars_simps:
  "parse_chars (CHR 0x22 # s) = Some ([], s)"
  "e \<noteq> CHR ''u'' \<Longrightarrow> parse_chars (CHR 0x5C # e # t) =
     (case escape_val e of None \<Rightarrow> None | Some x \<Rightarrow> map_option (\<lambda>(a, r). (x # a, r)) (parse_chars t))"
  "parse_chars (CHR 0x5C # CHR ''u'' # t) =
     (case parse_hex4 (take 4 t) of None \<Rightarrow> None
      | Some n \<Rightarrow> if n < 256 then map_option (\<lambda>(a, r). (char_of n # a, r)) (parse_chars (drop 4 t)) else None)"
  "c \<noteq> CHR 0x22 \<Longrightarrow> c \<noteq> CHR 0x5C \<Longrightarrow> \<not> (of_char c :: nat) < 32 \<Longrightarrow>
     parse_chars (c # s) = map_option (\<lambda>(a, r). (c # a, r)) (parse_chars s)"
  by (simp_all add: parse_chars.simps)

lemma char_by_code: "c = d \<longleftrightarrow> (of_char c :: nat) = of_char d"
  by (simp add: of_char_eq_iff)

lemma parse_js_char: "parse_chars (js_char c @ t) = map_option (\<lambda>(a, r). (c # a, r)) (parse_chars t)"
proof -
  define n where "n = (of_char c :: nat)"
  have c: "c = char_of n" by (simp add: n_def)
  have "n < 256" by (simp add: n_def)
  consider "n \<in> {34, 92, 8, 9, 10, 12, 13}" | "n \<notin> {34, 92, 8, 9, 10, 12, 13}" "32 \<le> n" "n \<le> 126"
    | "n \<notin> {34, 92, 8, 9, 10, 12, 13}" "\<not> (32 \<le> n \<and> n \<le> 126)" by blast
  then show ?thesis
  proof cases
    case 1
    then have "c \<in> {CHR 0x22, CHR 0x5C, CHR 0x08, CHR 0x09, CHR 0x0A, CHR 0x0C, CHR 0x0D}"
      by (simp add: n_def char_by_code del: of_char_eq_iff)
    then show ?thesis by (auto simp: js_char_def parse_chars_simps escape_val_def)
  next
    case 2
    then have "js_char c = [c]" by (auto simp: js_char_def n_def Let_def)
    moreover from 2 have "c \<noteq> CHR 0x22" "c \<noteq> CHR 0x5C" "\<not> (of_char c :: nat) < 32"
      by (auto simp: n_def)
    ultimately show ?thesis by (simp add: parse_chars_simps)
  next
    case 3
    then have "js_char c = [CHR 0x5C, CHR ''u''] @ hex4 n" by (auto simp: js_char_def n_def Let_def)
    moreover have "take 4 (hex4 n @ t) = hex4 n" "drop 4 (hex4 n @ t) = t"
      by (simp_all add: hex4_def hex2_def)
    ultimately show ?thesis
      using \<open>n < 256\<close> by (simp add: parse_chars_simps parse_hex4_hex4 c)
  qed
qed

lemma parse_js_chars: "parse_chars (concat (map js_char s) @ CHR 0x22 # rest) = Some (s, rest)"
  by (induction s) (simp_all add: parse_js_char parse_chars_simps)

lemma js_str_append: "js_str s @ rest = CHR 0x22 # concat (map js_char s) @ CHR 0x22 # rest"
  by (simp add: js_str_def)

subsection \<open>Numbers\<close>

definition stops :: "string \<Rightarrow> bool" where
  "stops rest \<longleftrightarrow> rest = [] \<or> hd rest \<in> {CHR '','', CHR 0x5D, CHR 0x7D}"

lemma show_nat_head: "0 < n \<Longrightarrow> hd (show_nat n) \<noteq> CHR ''0''"
proof (induction n rule: show_nat.induct)
  case (1 n)
  have d: "digit_char d \<noteq> CHR ''0''" if "0 < d" "d < 10" for d
  proof
    assume "digit_char d = CHR ''0''"
    then have "(of_char (digit_char d) :: nat) = of_char (CHR ''0'')" by simp
    with that show False by simp
  qed
  show ?case
  proof (cases "n < 10")
    case True
    with 1 d show ?thesis by (subst show_nat.simps) simp
  next
    case False
    with 1 show ?thesis by (subst show_nat.simps) simp
  qed
qed

lemma digit_not_special:
  "is_digit c \<Longrightarrow> \<not> is_ws c \<and> c \<notin> {CHR 0x5D, CHR 0x7D, CHR 0x22, CHR 0x7B, CHR 0x5B, CHR ''n'', CHR ''t'', CHR ''f'', CHR ''N'', CHR ''I'', CHR ''-''}"
  by (auto simp: is_digit_def is_ws_def)

lemma show_nat_Cons: obtains c cs where "show_nat n = c # cs" "is_digit c"
  using show_nat_nonempty [of n] show_nat_digits [of _ n] by (cases "show_nat n") auto

lemma take_digits:
  assumes "stops rest"
  shows "takeWhile is_digit (show_nat n @ rest) = show_nat n"
proof -
  have "takeWhile is_digit rest = []"
    using assms by (cases rest) (auto simp: stops_def is_digit_def)
  then show ?thesis by (simp add: takeWhile_append2 show_nat_digits)
qed

lemma stops_no_fraction: "stops rest \<Longrightarrow> after_exponent (after_fraction rest) = rest"
  by (cases rest) (auto simp: stops_def starts_with_def after_fraction_def after_exponent_def Let_def)

lemma int_digits_show_nat:
  assumes "stops rest"
  shows "int_digits (show_nat n @ rest) = show_nat n"
proof (cases "n = 0")
  case True
  have "digit_char 0 = CHR ''0''" by (simp add: char_by_code)
  with True show ?thesis by (simp add: show_nat.simps int_digits_def starts_with_def)
next
  case False
  obtain c cs where c: "show_nat n = c # cs" by (rule show_nat_Cons)
  with False show_nat_head [of n] have "\<not> starts_with ''0'' (show_nat n @ rest)"
    by (simp add: starts_with_def)
  then show ?thesis by (simp add: int_digits_def take_digits [OF assms])
qed

lemma parse_show_int:
  assumes "stops rest"
  shows "parse_number (show_int i @ rest) = Some (PInt i, rest)"
proof (cases "i < 0")
  case True
  have "starts_with ''-'' (''-'' @ t)" "drop 1 (''-'' @ t) = t" for t
    by (simp_all add: starts_with_def)
  with True int_digits_show_nat [OF assms] stops_no_fraction [OF assms] show ?thesis
    by (simp add: parse_number_def Let_def show_int_def)
next
  case False
  obtain c cs where c: "show_nat (nat i) = c # cs" "is_digit c" by (rule show_nat_Cons)
  with digit_not_special [of c] have "\<not> starts_with ''-'' (show_nat (nat i) @ rest)"
    by (simp add: starts_with_def)
  with False int_digits_show_nat [OF assms] stops_no_fraction [OF assms] show ?thesis
    by (simp add: parse_number_def Let_def show_int_def)
qed

subsection \<open>Values\<close>

fun printable :: "pyval \<Rightarrow> bool" where
  "printable (PFloat _) = False"
| "printable (PTime _) = False"
| "printable (PList l) = list_all printable l"
| "printable (PDict d) = (list_all (\<lambda>(_, v). printable v) d \<and> distinct (dkeys d))"
| "printable _ = True"

lemma skip_ws_nonws [simp]: "\<not> is_ws c \<Longrightarrow> skip_ws (c # s) = c # s"
  by (simp add: skip_ws_def)

lemma skip_ws_Nil [simp]: "skip_ws [] = []"
  by (simp add: skip_ws_def)

lemma not_ws [simp]:
  "\<not> is_ws (CHR 0x22)" "\<not> is_ws (CHR 0x7B)" "\<not> is_ws (CHR 0x5B)" "\<not> is_ws (CHR 0x7D)"
  "\<not> is_ws (CHR 0x5D)" "\<not> is_ws (CHR '','')" "\<not> is_ws (CHR '':'')" "\<not> is_ws (CHR ''n'')"
  "\<not> is_ws (CHR ''t'')" "\<not> is_ws (CHR ''f'')" "\<not> is_ws (CHR ''-'')"
  by (simp_all add: is_ws_def)

lemma stops_simps [simp]:
  "stops []" "stops (CHR '','' # s)" "stops (CHR 0x5D # s)" "stops (CHR 0x7D # s)"
  by (simp_all add: stops_def)

lemma emit_head:
  assumes "printable v"
  obtains c cs where "emit v = c # cs" "\<not> is_ws c" "c \<noteq> CHR 0x5D" "c \<noteq> CHR 0x7D"
proof (cases v)
  case (PInt i)
  obtain c cs where "show_nat (nat i) = c # cs" "is_digit c" by (rule show_nat_Cons)
  with PInt that digit_not_special [of c] show ?thesis
    by (cases "i < 0") (simp_all add: show_int_def)
next
  case (PBool b)
  with that show ?thesis by (cases b) auto
qed (use assms that in \<open>auto simp: js_str_def\<close>)

lemma emit_skip [simp]: "printable v \<Longrightarrow> skip_ws (emit v @ s) = emit v @ s"
  by (erule emit_head) simp

lemma emit_pos [simp]: "printable v \<Longrightarrow> emit v \<noteq> []"
  by (erule emit_head) simp

definition reads_back :: "pyval \<Rightarrow> bool" where
  "reads_back v \<longleftrightarrow>
     (\<forall>n rest. length (emit v) \<le> n \<longrightarrow> stops rest \<longrightarrow> parse_value n (emit v @ rest) = Some (v, rest))"

lemma parse_elems_emit:
  "l \<noteq> [] \<Longrightarrow> \<forall>v \<in> set l. reads_back v \<and> printable v \<Longrightarrow> length (join_str '','' (map emit l)) < n \<Longrightarrow>
     parse_elems n (join_str '','' (map emit l) @ CHR 0x5D # rest) = Some (l, rest)"
proof (induction l arbitrary: n)
  case Nil
  then show ?case by simp
next
  case (Cons v l)
  then obtain m where n: "n = Suc m" by (cases n) auto
  show ?case
  proof (cases l)
    case Nil
    with Cons.prems n show ?thesis by (simp add: reads_back_def)
  next
    case (Cons w l')
    let ?r = "CHR '','' # join_str '','' (map emit l) @ CHR 0x5D # rest"
    have body: "join_str '','' (map emit (v # l)) = emit v @ '','' @ join_str '','' (map emit l)"
      by (simp add: Cons)
    with Cons.prems(3) n have len: "length (emit v) \<le> m" "length (join_str '','' (map emit l)) < m" by simp_all
    with Cons.prems(2) have "parse_value m (emit v @ ?r) = Some (v, ?r)"
      by (simp add: reads_back_def)
    moreover have "parse_elems m (join_str '','' (map emit l) @ CHR 0x5D # rest) = Some (l, rest)"
      using Cons.IH [OF _ _ len(2)] Cons.prems(2) Cons by simp
    moreover have "skip_ws (join_str '','' (map emit l) @ CHR 0x5D # rest) = join_str '','' (map emit l) @ CHR 0x5D # rest"
      using Cons.prems(2) by (cases l') (auto simp: Cons)
    ultimately show ?thesis by (simp only: n body append_assoc append.simps parse_elems.simps) simp
  qed
qed

definition emit_pair :: "string \<times> pyval \<Rightarrow> string" where
  "emit_pair kv = js_str (fst kv) @ '':'' @ emit (snd kv)"

lemma emit_PDict: "emit (PDict d) = ''{'' @ join_str '','' (map emit_pair d) @ ''}''"
proof -
  have "(\<lambda>(k, v). js_str k @ '':'' @ emit v) = emit_pair" by (auto simp: emit_pair_def fun_eq_iff)
  then show ?thesis by simp
qed

lemma dput_fresh: "k \<notin> set (dkeys acc) \<Longrightarrow> dput acc k v = acc @ [(k, v)]"
  by (induction acc) (auto simp: dkeys_def)

lemma parse_members_emit:
  "d \<noteq> [] \<Longrightarrow> \<forall>(k, v) \<in> set d. reads_back v \<and> printable v \<Longrightarrow> distinct (dkeys (acc @ d)) \<Longrightarrow>
     length (join_str '','' (map emit_pair d)) < n \<Longrightarrow>
     parse_members n acc (join_str '','' (map emit_pair d) @ CHR 0x7D # rest) = Some (acc @ d, rest)"
proof (induction d arbitrary: n acc)
  case Nil
  then show ?case by simp
next
  case (Cons kv d)
  obtain k v where kv: "kv = (k, v)" by force
  from Cons.prems obtain m where n: "n = Suc m" by (cases n) auto
  have fresh: "dput acc k v = acc @ [(k, v)]"
    using Cons.prems(3) by (intro dput_fresh) (auto simp: dkeys_def kv)
  have v: "reads_back v" "printable v" using Cons.prems(2) by (auto simp: kv)
  have pair: "emit_pair kv @ t = CHR 0x22 # concat (map js_char k) @ CHR 0x22 # CHR '':'' # emit v @ t" for t
    by (simp add: emit_pair_def kv js_str_def)
  show ?case
  proof (cases d)
    case Nil
    with Cons.prems(4) n have "length (emit v) \<le> m" by (simp add: emit_pair_def kv)
    with v have "parse_value m (emit v @ CHR 0x7D # rest) = Some (v, CHR 0x7D # rest)"
      by (simp add: reads_back_def)
    with v show ?thesis by (simp add: Nil n pair parse_js_chars fresh) (simp add: kv)
  next
    case (Cons w d')
    let ?t = "join_str '','' (map emit_pair d) @ CHR 0x7D # rest"
    have body: "join_str '','' (map emit_pair (kv # d)) @ CHR 0x7D # rest = emit_pair kv @ CHR '','' # ?t"
      by (simp add: Cons)
    have "length (emit v) < length (emit_pair kv)" by (simp add: emit_pair_def kv)
    with Cons.prems(4) n have len: "length (emit v) \<le> m" "length (join_str '','' (map emit_pair d)) < m"
      by (simp_all add: Cons)
    then have "parse_value m (emit v @ CHR '','' # ?t) = Some (v, CHR '','' # ?t)"
      using v by (simp add: reads_back_def)
    moreover have "skip_ws ?t = ?t"
      by (cases d') (simp_all add: Cons emit_pair_def js_str_def)
    moreover have "parse_members m (acc @ [(k, v)]) ?t = Some ((acc @ [(k, v)]) @ d, rest)"
      using Cons.prems(2,3) len(2) by (intro Cons.IH) (auto simp: Cons kv)
    ultimately show ?thesis
      unfolding n body pair using v by (simp add: parse_js_chars fresh) (simp add: kv)
  qed
qed

lemma reads_back_all: "printable v \<Longrightarrow> reads_back v"
proof (induction v)
  case (PInt i)
  show ?case unfolding reads_back_def
  proof (intro allI impI)
    fix n rest assume n: "length (emit (PInt i)) \<le> n" and r: "stops rest"
    obtain c cs where c: "show_nat (nat i) = c # cs" "is_digit c" by (rule show_nat_Cons)
    obtain c' cs' where c': "show_nat (nat (- i)) = c' # cs'" "is_digit c'" by (rule show_nat_Cons)
    from n obtain m where m: "n = Suc m" using emit_pos [of "PInt i"] by (cases n) auto
    show "parse_value n (emit (PInt i) @ rest) = Some (PInt i, rest)"
      using parse_show_int [OF r, of i] digit_not_special [OF c(2)] digit_not_special [OF c'(2)]
      by (cases "i < 0") (simp_all add: m show_int_def c c' starts_with_def)
  qed
next
  case (PStr s)
  show ?case unfolding reads_back_def
  proof (intro allI impI)
    fix n rest assume "length (emit (PStr s)) \<le> n"
    then obtain m where "n = Suc m" by (cases n) (auto simp: js_str_def)
    then show "parse_value n (emit (PStr s) @ rest) = Some (PStr s, rest)"
      by (simp add: js_str_append parse_js_chars)
  qed
next
  case (PList l)
  then have l: "\<forall>v \<in> set l. reads_back v \<and> printable v" by (auto simp: list_all_iff)
  show ?case unfolding reads_back_def
  proof (intro allI impI)
    fix n rest assume n: "length (emit (PList l)) \<le> n"
    then obtain m where m: "n = Suc m" by (cases n) auto
    show "parse_value n (emit (PList l) @ rest) = Some (PList l, rest)"
    proof (cases l)
      case Nil
      then show ?thesis by (simp add: m starts_with_def)
    next
      case (Cons v l')
      then have "printable v" using l by simp
      then obtain c cs where c: "emit v = c # cs" "\<not> is_ws c" "c \<noteq> CHR 0x5D" by (rule emit_head)
      have "parse_elems m (join_str '','' (map emit l) @ CHR 0x5D # rest) = Some (l, rest)"
        using n m l by (intro parse_elems_emit) (auto simp: Cons)
      moreover have "\<exists>cs'. join_str '','' (map emit l) @ CHR 0x5D # rest = c # cs'"
        by (cases l') (simp_all add: Cons c)
      ultimately show ?thesis using c by (auto simp: m starts_with_def)
    qed
  qed
next
  case (PDict d)
  then have d: "\<forall>(k, v) \<in> set d. reads_back v \<and> printable v" "distinct (dkeys d)"
    by (auto simp: list_all_iff)
  show ?case unfolding reads_back_def
  proof (intro allI impI)
    fix n rest assume n: "length (emit (PDict d)) \<le> n"
    then obtain m where m: "n = Suc m" by (cases n) auto
    show "parse_value n (emit (PDict d) @ rest) = Some (PDict d, rest)"
    proof (cases d)
      case Nil
      then show ?thesis by (simp add: m starts_with_def)
    next
      case (Cons kv d')
      have "parse_members m [] (join_str '','' (map emit_pair d) @ CHR 0x7D # rest) = Some ([] @ d, rest)"
        using n m d by (intro parse_members_emit) (auto simp: Cons emit_PDict simp del: emit.simps)
      moreover have "\<exists>cs'. join_str '','' (map emit_pair d) @ CHR 0x7D # rest = CHR 0x22 # cs'"
        by (cases d') (simp_all add: Cons emit_pair_def js_str_def)
      ultimately show ?thesis
        unfolding emit_PDict by (auto simp: m starts_with_def)
    qed
  qed
next
  case (PBool b)
  show ?case unfolding reads_back_def
  proof (intro allI impI)
    fix n rest assume "length (emit (PBool b)) \<le> n"
    then obtain m where "n = Suc m" by (cases n; cases b) auto
    then show "parse_value n (emit (PBool b) @ rest) = Some (PBool b, rest)"
      by (cases b) (simp_all add: parse_literal_def starts_with_def)
  qed
next
  case PNone
  show ?case unfolding reads_back_def
  proof (intro allI impI)
    fix n rest assume "length (emit PNone) \<le> n"
    then obtain m where "n = Suc m" by (cases n) auto
    then show "parse_value n (emit PNone @ rest) = Some (PNone, rest)"
      by (simp add: parse_literal_def starts_with_def)
  qed
qed simp_all

lemma json_loads_emit: "printable v \<Longrightarrow> json_loads (emit v) = Some v"
proof -
  assume p: "printable v"
  then have "parse_value (Suc (length (emit v))) (emit v @ []) = Some (v, [])"
    using reads_back_all unfolding reads_back_def by (meson le_SucI order_refl stops_simps(1))
  with emit_skip [OF p, of "[]"] show ?thesis by (simp add: json_loads_def)
qed

subsection \<open>Dictionaries in canonical order\<close>

lemma dkeys_sort_key: "mset (dkeys (sort_key fst d)) = mset (dkeys d)"
  by (simp only: dkeys_def mset_map mset_sort)

lemma dkeys_map_values: "dkeys (map (\<lambda>(k, v). (k, f v)) d) = dkeys d"
  by (induction d) (auto simp: dkeys_def)

lemma map_of_sort_key:
  assumes "distinct (dkeys d)"
  shows "map_of (sort_key fst d) = map_of d"
proof (rule map_of_eqI)
  show keys: "set (map fst (sort_key fst d)) = set (map fst d)" by simp
  have "distinct (map fst (sort_key fst d))"
    using assms mset_eq_imp_distinct_iff [OF dkeys_sort_key [of d]] by (simp add: dkeys_def)
  then show "\<forall>k \<in> set (map fst (sort_key fst d)). map_of (sort_key fst d) k = map_of d k"
    using assms by (auto simp: dkeys_def map_of_eq_Some_iff)
qed

lemma canon_lookup:
  assumes "canon (PDict d) = PDict d'" and "distinct (dkeys d)"
  shows "map_of d' k = map_option canon (map_of d k)"
proof -
  let ?m = "map (\<lambda>(k, v). (k, canon v)) d"
  have "distinct (dkeys ?m)" using assms(2) by (simp add: dkeys_map_values)
  then have "map_of d' k = map_of ?m k" using assms(1) map_of_sort_key [of ?m] by auto
  then show ?thesis by (simp add: map_of_map)
qed

lemma printable_canon: "printable v \<Longrightarrow> printable (canon v)"
proof (induction v)
  case (PList l)
  then show ?case by (auto simp: list_all_iff)
next
  case (PDict d)
  let ?m = "map (\<lambda>(k, v). (k, canon v)) d"
  have "distinct (dkeys (sort_key fst ?m))"
    using PDict.prems mset_eq_imp_distinct_iff [OF dkeys_sort_key [of ?m]] by (simp add: dkeys_map_values)
  moreover have "printable (canon v)" if "(k, v) \<in> set d" for k v
    using PDict that by (fastforce simp: list_all_iff)
  ultimately show ?case by (auto simp: list_all_iff)
qed simp_all

lemma printable_serializable: "printable v \<Longrightarrow> serializable v"
proof (induction v)
  case (PDict d)
  then show ?case by (fastforce simp: list_all_iff)
qed (auto simp: list_all_iff)

lemma json_dumps_printable: "printable v \<Longrightarrow> json_dumps v = Inr (emit (canon v))"
  by (simp add: json_dumps_def printable_serializable)

lemma json_loads_dumps: "printable v \<Longrightarrow> json_dumps v = Inr s \<Longrightarrow> json_loads s = Some (canon v)"
  by (auto simp: json_dumps_printable json_loads_emit printable_canon)

end
