(* ===== verification/PlanApprovals.thy ===== *)
theory PlanApprovals
  imports Approvals PlanMetadata PyJson
begin

text \<open>
  The plan-bound approvals of \<open>driftscribe_lib/approvals.py\<close> (schema \<open>c3.v1\<close>): the approval window,
  the signed payload and its canonical form, the HMAC over its digest, the \<open>PlanApprovalStore\<close>,
  and the checks the apply worker makes before it spends an approval.  As for rollback approvals,
  the clock, identifiers and raw tokens are arguments; \<open>sha\<close> is hexadecimal SHA-256 of a byte
  string (bytes are characters below 256), \<open>mac key message\<close> hexadecimal HMAC-SHA-256 of two texts.
  \<open>fromisoformat\<close> is modelled on the frozen window format, the only one a payload can carry.
\<close>

section \<open>The approval window\<close>

definition PLAN_APPROVAL_SCHEMA_VERSION :: string where
  "PLAN_APPROVAL_SCHEMA_VERSION = ''c3.v1''"

definition PLAN_APPROVAL_DOMAIN :: string where
  "PLAN_APPROVAL_DOMAIN = ''driftscribe-plan-approval-v1''"

definition MAX_APPROVAL_TTL_MINUTES :: int where "MAX_APPROVAL_TTL_MINUTES = 15"

text \<open>A datetime: its local fields as an instant and, when it is aware, its UTC offset in
  microseconds.\<close>

datatype datetime = Naive instant | Aware instant int

definition to_instant :: "int \<Rightarrow> (pyexc, instant) res" where
  "to_instant r = (if 0 \<le> r \<and> r < int (max_day * usec_per_day) then Inr (nat r) else Inl OverflowError)"

text \<open>\<open>d.astimezone(utc).replace(microsecond=0).isoformat()\<close> for local fields and an offset.\<close>

definition iso_of :: "instant \<Rightarrow> int \<Rightarrow> (pyexc, string) res" where
  "iso_of l off = rbind (to_instant (int l - off)) (\<lambda>t. Inr (iso_utc t))"

definition new_approval_window :: "datetime \<Rightarrow> int \<Rightarrow> (pyexc, string \<times> string) res" where
  "new_approval_window now ttl_minutes =
     (case now of
        Naive _ \<Rightarrow> Inl (ValueError ''now: must be timezone-aware'')
      | Aware l off \<Rightarrow>
          rbind (require (0 < ttl_minutes \<and> ttl_minutes \<le> MAX_APPROVAL_TTL_MINUTES) (ValueError ''ttl_minutes'')) (\<lambda>_.
          rbind (iso_of l off) (\<lambda>issued.
          rbind (add_minutes l ttl_minutes) (\<lambda>l'.
          rbind (iso_of l' off) (\<lambda>expires. Inr (issued, expires))))))"

section \<open>The signed payload\<close>

definition C2_METADATA_KEYS :: "string list" where
  "C2_METADATA_KEYS =
     [''schema_version'', ''repo'', ''pr_number'', ''head_sha'', ''base_sha'',
      ''workflow_run_id'', ''workflow_run_attempt'', ''artifact_uri_plan'',
      ''artifact_uri_json'', ''generation_plan'', ''generation_json'',
      ''plan_sha256'', ''plan_json_sha256'', ''opentofu_version'',
      ''provider_lockfile_sha256'']"

definition PLAN_PAYLOAD_TOP_KEYS :: "string list" where
  "PLAN_PAYLOAD_TOP_KEYS =
     [''approval_schema_version'', ''metadata'', ''artifact_uri_metadata'',
      ''generation_metadata'', ''approver'', ''issued_at'', ''expires_at'']"

definition metadata_input_of :: "pydict \<Rightarrow> metadata_input" where
  "metadata_input_of m =
     \<lparr>repo = dget m ''repo'', pr_number = dget m ''pr_number'', head_sha = dget m ''head_sha'',
      base_sha = dget m ''base_sha'', workflow_run_id = dget m ''workflow_run_id'',
      workflow_run_attempt = dget m ''workflow_run_attempt'',
      artifact_uri_plan = dget m ''artifact_uri_plan'', artifact_uri_json = dget m ''artifact_uri_json'',
      generation_plan = dget m ''generation_plan'', generation_json = dget m ''generation_json'',
      plan_sha256 = dget m ''plan_sha256'', plan_json_sha256 = dget m ''plan_json_sha256'',
      opentofu_version = dget m ''opentofu_version'',
      provider_lockfile_sha256 = dget m ''provider_lockfile_sha256''\<rparr>"

text \<open>\<open>except TypeError as e: raise ValueError(...)\<close>.\<close>

definition fold_type_error :: "(pyexc, 'a) res \<Rightarrow> (pyexc, 'a) res" where
  "fold_type_error r =
     (case r of Inl TypeError \<Rightarrow> Inl (ValueError ''metadata: malformed field'') | _ \<Rightarrow> r)"

text \<open>\<open>s.rsplit("/", 1)[0]\<close>.\<close>

definition dir_name :: "string \<Rightarrow> string" where
  "dir_name s = (if CHR ''/'' \<in> set s then fst (rsplit_char (CHR ''/'') s) else s)"

definition expected_metadata_uri :: "pydict \<Rightarrow> pyval" where
  "expected_metadata_uri m =
     (case dget m ''artifact_uri_plan'' of
        PStr s \<Rightarrow> PStr (dir_name s @ ''/metadata.json'') | v \<Rightarrow> v)"

definition is_window_text :: "pyval \<Rightarrow> bool" where
  "is_window_text v = (case v of PStr s \<Rightarrow> is_rfc3339_utc s | _ \<Rightarrow> False)"

definition parse_rfc3339_utc :: "pyval \<Rightarrow> (pyexc, instant) res" where
  "parse_rfc3339_utc v = (case v of PStr s \<Rightarrow> parse_rfc3339 s | _ \<Rightarrow> Inl TypeError)"

definition window_limit :: nat where "window_limit = nat MAX_APPROVAL_TTL_MINUTES * 60000000"

definition check_window :: "pyval \<Rightarrow> pyval \<Rightarrow> (pyexc, unit) res" where
  "check_window issued_at expires_at =
     rbind (require (is_window_text issued_at) (ValueError ''issued_at'')) (\<lambda>_.
     rbind (require (is_window_text expires_at) (ValueError ''expires_at'')) (\<lambda>_.
     rbind (parse_rfc3339_utc issued_at) (\<lambda>issued_dt.
     rbind (parse_rfc3339_utc expires_at) (\<lambda>expires_dt.
     rbind (require (issued_dt < expires_dt) (ValueError ''expires_at must be strictly after issued_at'')) (\<lambda>_.
     require (expires_dt - issued_dt \<le> window_limit) (ValueError ''approval window''))))))"

definition payload_dict :: "pydict \<Rightarrow> pyval \<Rightarrow> pyval \<Rightarrow> pyval \<Rightarrow> pyval \<Rightarrow> pyval \<Rightarrow> pydict" where
  "payload_dict canonical_meta uri gen approver issued_at expires_at =
     [(''approval_schema_version'', PStr PLAN_APPROVAL_SCHEMA_VERSION),
      (''metadata'', PDict canonical_meta),
      (''artifact_uri_metadata'', uri),
      (''generation_metadata'', gen),
      (''approver'', approver),
      (''issued_at'', issued_at),
      (''expires_at'', expires_at)]"

definition build_plan_approval_payload ::
  "pyval \<Rightarrow> pyval \<Rightarrow> pyval \<Rightarrow> pyval \<Rightarrow> pyval \<Rightarrow> pyval \<Rightarrow> (pyexc, pydict) res" where
  "build_plan_approval_payload metadata uri gen approver issued_at expires_at =
     (case as_dict metadata of
        None \<Rightarrow> Inl (ValueError ''metadata: must be a dict'')
      | Some m \<Rightarrow>
          rbind (require (sort (dkeys m) = sort C2_METADATA_KEYS) (ValueError ''metadata: keys'')) (\<lambda>_.
          rbind (require (dget m ''schema_version'' = PStr METADATA_SCHEMA_VERSION)
                   (ValueError ''metadata.schema_version'')) (\<lambda>_.
          rbind (fold_type_error (build_metadata (metadata_input_of m))) (\<lambda>canonical_meta.
          rbind (require (uri = expected_metadata_uri canonical_meta) (ValueError ''artifact_uri_metadata'')) (\<lambda>_.
          rbind (require (str_matches DIGITS gen = Inr True) (ValueError ''generation_metadata'')) (\<lambda>_.
          rbind (require (is_str approver \<and> approver \<noteq> PStr []) (ValueError ''approver'')) (\<lambda>_.
          rbind (check_window issued_at expires_at) (\<lambda>_.
          Inr (payload_dict canonical_meta uri gen approver issued_at expires_at)))))))))"

section \<open>Digest and token\<close>

definition utf8_char :: "char \<Rightarrow> string" where
  "utf8_char c =
     (let n = (of_char c :: nat) in
      if n < 128 then [c] else [char_of (192 + n div 64), char_of (128 + n mod 64)])"

definition utf8 :: "string \<Rightarrow> string" where "utf8 s = concat (map utf8_char s)"

definition canonicalize_payload :: "pydict \<Rightarrow> (pyexc, string) res" where
  "canonicalize_payload payload = json_dumps (PDict payload)"

definition digest_canonical :: "(string \<Rightarrow> string) \<Rightarrow> string \<Rightarrow> string" where
  "digest_canonical sha canonical = sha (utf8 canonical)"

definition plan_message :: "string \<Rightarrow> string \<Rightarrow> string \<Rightarrow> string" where
  "plan_message token approval_id payload_digest =
     PLAN_APPROVAL_DOMAIN @ bar @ token @ bar @ approval_id @ bar @ payload_digest"

definition compute_plan_approval_hmac ::
  "(string \<Rightarrow> string \<Rightarrow> string) \<Rightarrow> string \<Rightarrow> string \<Rightarrow> string \<Rightarrow> string \<Rightarrow> string" where
  "compute_plan_approval_hmac mac token approval_id payload_digest hmac_key =
     mac hmac_key (plan_message token approval_id payload_digest)"

datatype integrity_error = Raised pyexc | ArtifactIntegrityError string string string

definition check_artifact :: "string \<Rightarrow> string \<Rightarrow> pyval \<Rightarrow> (integrity_error, unit) res" where
  "check_artifact name actual expected =
     (case compare_digest actual expected of
        Inl e \<Rightarrow> Inl (Raised e)
      | Inr ok \<Rightarrow> require ok (ArtifactIntegrityError name (the (as_str expected)) actual))"

definition verify_artifact_integrity ::
  "(string \<Rightarrow> string) \<Rightarrow> string \<Rightarrow> string \<Rightarrow> pyval \<Rightarrow> pyval \<Rightarrow> (integrity_error, unit) res" where
  "verify_artifact_integrity sha plan_tfplan_bytes plan_json_bytes expected_plan_sha256 expected_plan_json_sha256 =
     rbind (require (str_matches HEX64 expected_plan_sha256 = Inr True)
              (Raised (ValueError ''expected_plan_sha256''))) (\<lambda>_.
     rbind (require (str_matches HEX64 expected_plan_json_sha256 = Inr True)
              (Raised (ValueError ''expected_plan_json_sha256''))) (\<lambda>_.
     rbind (check_artifact ''plan.tfplan'' (sha plan_tfplan_bytes) expected_plan_sha256) (\<lambda>_.
     check_artifact ''plan.json'' (sha plan_json_bytes) expected_plan_json_sha256)))"

section \<open>The store\<close>

record plan_approval =
  pa_id :: string
  pa_status :: pyval
  pa_token_hmac :: pyval
  pa_payload_canonical :: pyval
  pa_payload_sha256 :: pyval
  pa_expires_at :: pyval
  pa_created_at :: pyval
  pa_created_by :: pyval
  pa_pr_number :: pyval
  pa_head_sha :: pyval
  pa_artifact_uri_metadata :: pyval
  pa_generation_metadata :: pyval
  pa_used_at :: pyval
  pa_used_by :: pyval
  pa_denied_at :: pyval
  pa_denied_by :: pyval
  pa_operation_name :: pyval
  pa_apply_audit :: pyval

definition PLAN_APPROVAL_REQUIRED :: "string list" where
  "PLAN_APPROVAL_REQUIRED =
     [''status'', ''token_hmac'', ''payload_canonical'', ''payload_sha256'', ''expires_at'', ''created_at'',
      ''created_by'', ''pr_number'', ''head_sha'', ''artifact_uri_metadata'', ''generation_metadata'']"

definition PLAN_APPROVAL_OPTIONAL :: "string list" where
  "PLAN_APPROVAL_OPTIONAL =
     [''used_at'', ''used_by'', ''denied_at'', ''denied_by'', ''operation_name'', ''apply_audit'']"

definition PLAN_APPROVAL_FIELDS :: "string list" where
  "PLAN_APPROVAL_FIELDS = PLAN_APPROVAL_REQUIRED @ PLAN_APPROVAL_OPTIONAL"

definition plan_approval_of :: "string \<Rightarrow> pydict \<Rightarrow> plan_approval" where
  "plan_approval_of aid data =
     \<lparr>pa_id = aid, pa_status = dget data ''status'', pa_token_hmac = dget data ''token_hmac'',
      pa_payload_canonical = dget data ''payload_canonical'',
      pa_payload_sha256 = dget data ''payload_sha256'', pa_expires_at = dget data ''expires_at'',
      pa_created_at = dget data ''created_at'', pa_created_by = dget data ''created_by'',
      pa_pr_number = dget data ''pr_number'', pa_head_sha = dget data ''head_sha'',
      pa_artifact_uri_metadata = dget data ''artifact_uri_metadata'',
      pa_generation_metadata = dget data ''generation_metadata'',
      pa_used_at = dget data ''used_at'', pa_used_by = dget data ''used_by'',
      pa_denied_at = dget data ''denied_at'', pa_denied_by = dget data ''denied_by'',
      pa_operation_name = dget data ''operation_name'', pa_apply_audit = dget data ''apply_audit''\<rparr>"

definition PlanApproval :: "string \<Rightarrow> pydict \<Rightarrow> (pyexc, plan_approval) res" where
  "PlanApproval aid data =
     (if (\<forall>k \<in> set PLAN_APPROVAL_REQUIRED. map_of data k \<noteq> None) \<and> set (dkeys data) \<subseteq> set PLAN_APPROVAL_FIELDS
      then Inr (plan_approval_of aid data) else Inl TypeError)"

definition read_plan_approval :: "string \<Rightarrow> pydict \<Rightarrow> (pyexc, plan_approval) res" where
  "read_plan_approval aid data = PlanApproval aid (drop_unknown_fields data PLAN_APPROVAL_FIELDS)"

text \<open>\<open>d[k]\<close> on a value that may not be a dict.\<close>

definition subscript :: "pyval \<Rightarrow> string \<Rightarrow> (pyexc, pyval) res" where
  "subscript v k =
     (case v of PDict d \<Rightarrow> (case map_of d k of None \<Rightarrow> Inl (KeyError k) | Some x \<Rightarrow> Inr x) | _ \<Rightarrow> Inl TypeError)"

definition plan_create_data ::
  "(string \<Rightarrow> string) \<Rightarrow> (string \<Rightarrow> string \<Rightarrow> string) \<Rightarrow> instant \<Rightarrow> string \<Rightarrow> string \<Rightarrow> pydict \<Rightarrow> string \<Rightarrow> string \<Rightarrow>
   (pyexc, pydict) res" where
  "plan_create_data sha mac now approval_id raw_token payload hmac_key created_by =
     rbind (canonicalize_payload payload) (\<lambda>canonical.
     rbind (parse_rfc3339_utc (dget payload ''expires_at'')) (\<lambda>expires_at.
     rbind (subscript (dget payload ''metadata'') ''pr_number'') (\<lambda>pr.
     rbind (subscript (dget payload ''metadata'') ''head_sha'') (\<lambda>head.
     let digest = digest_canonical sha canonical in
     Inr [(''status'', PStr ''pending''),
          (''token_hmac'', PStr (compute_plan_approval_hmac mac raw_token approval_id digest hmac_key)),
          (''payload_canonical'', PStr canonical),
          (''payload_sha256'', PStr digest),
          (''expires_at'', PTime expires_at),
          (''created_at'', PTime now),
          (''created_by'', PStr created_by),
          (''pr_number'', pr),
          (''head_sha'', head),
          (''artifact_uri_metadata'', dget payload ''artifact_uri_metadata''),
          (''generation_metadata'', dget payload ''generation_metadata'')]))))"

definition plan_create ::
  "(string \<Rightarrow> string) \<Rightarrow> (string \<Rightarrow> string \<Rightarrow> string) \<Rightarrow> instant \<Rightarrow> string \<Rightarrow> string \<Rightarrow> pydict \<Rightarrow> string \<Rightarrow> string \<Rightarrow>
   docs \<Rightarrow> (pyexc, plan_approval \<times> string) res \<times> docs" where
  "plan_create sha mac now approval_id raw_token payload hmac_key created_by docs =
     (case (if dget payload ''approval_schema_version'' \<noteq> PStr PLAN_APPROVAL_SCHEMA_VERSION
            then Inl (ValueError ''payload.approval_schema_version'')
            else if set (dkeys payload) \<noteq> set PLAN_PAYLOAD_TOP_KEYS then Inl (ValueError ''payload'')
            else plan_create_data sha mac now approval_id raw_token payload hmac_key created_by) of
        Inl e \<Rightarrow> (Inl e, docs)
      | Inr data \<Rightarrow>
          (rbind (PlanApproval approval_id data) (\<lambda>a. Inr (a, raw_token)), docs(approval_id \<mapsto> data)))"

definition plan_get :: "string \<Rightarrow> docs \<Rightarrow> (pyexc, plan_approval option) res" where
  "plan_get approval_id docs =
     (case docs approval_id of
        None \<Rightarrow> Inr None
      | Some data \<Rightarrow> rbind (read_plan_approval approval_id data) (\<lambda>a. Inr (Some a)))"

definition plan_claim ::
  "string \<Rightarrow> string \<Rightarrow> pydict \<Rightarrow> docs \<Rightarrow> (pyexc, plan_approval option) res \<times> docs" where
  "plan_claim approval_id new_status extra docs =
     (case docs approval_id of
        None \<Rightarrow> (Inr None, docs)
      | Some data \<Rightarrow>
          if dget data ''status'' \<noteq> PStr ''pending'' then (Inr None, docs)
          else
            let data' = dupdate data (dupdate [(''status'', PStr new_status)] extra)
            in (case read_plan_approval approval_id data' of
                  Inl e \<Rightarrow> (Inl e, docs)
                | Inr a \<Rightarrow> (Inr (Some a), docs(approval_id \<mapsto> data'))))"

definition plan_claim_pending ::
  "string \<Rightarrow> pyval \<Rightarrow> instant \<Rightarrow> pyval \<Rightarrow> docs \<Rightarrow> (pyexc, plan_approval option) res \<times> docs" where
  "plan_claim_pending approval_id used_by used_at apply_audit docs =
     (let extra = [(''used_by'', used_by), (''used_at'', PTime used_at)] in
      if apply_audit = PNone then plan_claim approval_id ''used'' extra docs
      else if as_dict apply_audit = None then (Inl TypeError, docs)
      else plan_claim approval_id ''used'' (extra @ [(''apply_audit'', apply_audit)]) docs)"

definition set_apply_audit :: "string \<Rightarrow> pyval \<Rightarrow> docs \<Rightarrow> (pyexc, unit) res \<times> docs" where
  "set_apply_audit approval_id audit docs =
     (if as_dict audit = None then (Inl TypeError, docs)
      else case docs approval_id of
        None \<Rightarrow> (Inl (ApiError ''NotFound''), docs)
      | Some data \<Rightarrow> (Inr (), docs(approval_id \<mapsto> dput data ''apply_audit'' audit)))"

definition plan_claim_denied ::
  "string \<Rightarrow> pyval \<Rightarrow> instant \<Rightarrow> docs \<Rightarrow> (pyexc, plan_approval option) res \<times> docs" where
  "plan_claim_denied approval_id denied_by denied_at docs =
     plan_claim approval_id ''denied'' [(''denied_by'', denied_by), (''denied_at'', PTime denied_at)] docs"

section \<open>The checks at apply time\<close>

definition verify_plan_approval ::
  "(string \<Rightarrow> string) \<Rightarrow> (string \<Rightarrow> string \<Rightarrow> string) \<Rightarrow> string \<Rightarrow> plan_approval \<Rightarrow> string \<Rightarrow> (pyexc, bool) res" where
  "verify_plan_approval sha mac presented_token stored hmac_key =
     (case pa_payload_canonical stored of
        PStr canonical \<Rightarrow>
          compare_digest
            (compute_plan_approval_hmac mac presented_token (pa_id stored) (digest_canonical sha canonical) hmac_key)
            (pa_token_hmac stored)
      | v \<Rightarrow> Inl (AttributeError ''encode''))"

definition signed_payload :: "plan_approval \<Rightarrow> (pyexc, pyval) res" where
  "signed_payload stored =
     (case pa_payload_canonical stored of
        PStr s \<Rightarrow> (case json_loads s of None \<Rightarrow> Inl (ValueError ''JSONDecodeError'') | Some v \<Rightarrow> Inr v)
      | _ \<Rightarrow> Inl TypeError)"

definition plan_approval_is_expired :: "plan_approval \<Rightarrow> instant \<Rightarrow> (pyexc, bool) res" where
  "plan_approval_is_expired stored now =
     rbind (signed_payload stored) (\<lambda>p.
     rbind (subscript p ''expires_at'') (\<lambda>v.
     rbind (parse_rfc3339_utc v) (\<lambda>signed_expires. Inr (signed_expires < now))))"

section \<open>The window is short and reads back\<close>

lemma to_instant_Inr: "to_instant r = Inr t \<longleftrightarrow> 0 \<le> r \<and> t = nat r \<and> valid_instant t"
proof (cases "0 \<le> r")
  case True
  then have "r < int (max_day * usec_per_day) \<longleftrightarrow> nat r < max_day * usec_per_day" by linarith
  with True show ?thesis by (auto simp only: to_instant_def valid_instant_def split: if_split)
qed (simp add: to_instant_def)

lemma iso_Inr:
  "iso_of l off = Inr s \<longleftrightarrow>
     0 \<le> int l - off \<and> valid_instant (nat (int l - off)) \<and> s = iso_utc (nat (int l - off))"
  by (auto simp: iso_of_def result_simps to_instant_Inr)

definition whole_seconds :: "instant \<Rightarrow> instant" where
  "whole_seconds t = t div 1000000 * 1000000"

lemma whole_seconds_plus: "whole_seconds (t + 60000000 * k) = whole_seconds t + 60000000 * k"
proof -
  have "(t + 1000000 * (60 * k)) div 1000000 = t div 1000000 + 60 * k" by simp
  then show ?thesis by (simp add: whole_seconds_def)
qed

lemma window_instants:
  assumes "new_approval_window (Aware l off) m = Inr (i, e)"
  defines "t \<equiv> nat (int l - off)"
  shows "0 < m \<and> m \<le> 15 \<and> off \<le> int l \<and> valid_instant t \<and> valid_instant (t + nat m * 60000000) \<and>
     i = iso_utc t \<and> e = iso_utc (t + nat m * 60000000)"
proof -
  from assms(1) obtain l' where
    m: "0 < m" "m \<le> 15" and i: "iso_of l off = Inr i" and l': "add_minutes l m = Inr l'" and e: "iso_of l' off = Inr e"
    by (auto simp: new_approval_window_def result_simps MAX_APPROVAL_TTL_MINUTES_def split: if_splits)
  from l' m have "l' = l + nat m * 60000000"
    by (auto simp: add_minutes_def Let_def nat_add_distrib nat_mult_distrib split: if_splits)
  with m i have "nat (int l' - off) = t + nat m * 60000000"
    by (simp add: t_def iso_Inr) linarith
  with m i e show ?thesis by (simp add: iso_Inr t_def)
qed

lemma window_roundtrip:
  assumes "new_approval_window (Aware l off) m = Inr (i, e)"
  defines "t \<equiv> whole_seconds (nat (int l - off))"
  shows "parse_rfc3339 i = Inr t \<and> parse_rfc3339 e = Inr (t + nat m * 60000000)"
proof -
  define u where "u = nat (int l - off)"
  from window_instants [OF assms(1)] have
    "valid_instant u" "valid_instant (u + nat m * 60000000)" "i = iso_utc u" "e = iso_utc (u + nat m * 60000000)"
    by (simp_all add: u_def)
  then have "parse_rfc3339 i = Inr (whole_seconds u)"
    "parse_rfc3339 e = Inr (whole_seconds (u + 60000000 * nat m))"
    by (simp_all add: parse_iso_utc whole_seconds_def mult.commute)
  then show ?thesis unfolding whole_seconds_plus by (simp add: t_def u_def mult.commute)
qed

text \<open>The window that \<open>new_approval_window\<close> produces parses back to the whole second of \<open>now\<close> and
  to exactly the requested number of minutes later, never more than fifteen, and passes every window
  check of the payload builder; so the signed expiry is the one the store derives from it.\<close>

theorem approval_window_accepted:
  assumes "new_approval_window (Aware l off) m = Inr (i, e)"
  shows "0 < m \<and> m \<le> 15 \<and>
     parse_rfc3339 i = Inr (whole_seconds (nat (int l - off))) \<and>
     parse_rfc3339 e = Inr (whole_seconds (nat (int l - off)) + nat m * 60000000) \<and>
     check_window (PStr i) (PStr e) = Inr ()"
proof -
  from window_instants [OF assms] have w: "0 < m" "m \<le> 15" "is_rfc3339_utc i" "is_rfc3339_utc e" by auto
  then have "nat m * 60000000 \<le> window_limit"
    by (simp add: window_limit_def MAX_APPROVAL_TTL_MINUTES_def)
  with w window_roundtrip [OF assms] show ?thesis
    by (simp add: check_window_def is_window_text_def parse_rfc3339_utc_def require_def)
qed

theorem approval_window_accepted_witness:
  "\<exists>i e. new_approval_window (Aware 63900000000000000 32400000000) 15 = Inr (i, e) \<and>
     check_window (PStr i) (PStr e) = Inr ()"
proof -
  obtain i e where h: "new_approval_window (Aware 63900000000000000 32400000000) 15 = Inr (i, e)"
    by (simp add: new_approval_window_def MAX_APPROVAL_TTL_MINUTES_def iso_of_def to_instant_def add_minutes_def
        max_day_def usec_per_day_def require_def)
  with approval_window_accepted [OF h] show ?thesis by blast
qed

section \<open>What can be signed\<close>

lemma fold_type_error_Inr [simp]: "fold_type_error r = Inr x \<longleftrightarrow> r = Inr x"
  by (auto simp: fold_type_error_def split: sum.splits pyexc.splits)

lemma check_window_Inr:
  "check_window i e = Inr u \<longleftrightarrow>
     (\<exists>si se a b. i = PStr si \<and> e = PStr se \<and> is_rfc3339_utc si \<and> is_rfc3339_utc se \<and>
        parse_rfc3339 si = Inr a \<and> parse_rfc3339 se = Inr b \<and> a < b \<and> b - a \<le> window_limit)"
  by (auto simp: check_window_def result_simps is_window_text_def parse_rfc3339_utc_def split: pyval.splits)

definition payload_accepted :: "pydict \<Rightarrow> pyval \<Rightarrow> pyval \<Rightarrow> pyval \<Rightarrow> pyval \<Rightarrow> pyval \<Rightarrow> bool" where
  "payload_accepted m uri gen approver issued_at expires_at \<longleftrightarrow>
     sort (dkeys m) = sort C2_METADATA_KEYS \<and> dget m ''schema_version'' = PStr METADATA_SCHEMA_VERSION \<and>
     metadata_ok (metadata_input_of m) \<and>
     uri = expected_metadata_uri (metadata_dict (metadata_input_of m)) \<and>
     str_matches DIGITS gen = Inr True \<and> is_str approver \<and> approver \<noteq> PStr [] \<and>
     check_window issued_at expires_at = Inr ()"

lemma build_payload_iff:
  "build_plan_approval_payload metadata uri gen approver i e = Inr p \<longleftrightarrow>
     (\<exists>m. metadata = PDict m \<and> payload_accepted m uri gen approver i e \<and>
        p = payload_dict (metadata_dict (metadata_input_of m)) uri gen approver i e)"
  unfolding build_plan_approval_payload_def payload_accepted_def
  by (cases metadata) (auto simp: result_simps build_metadata_iff)

lemma dkeys_c2:
  "sort (dkeys m) = sort C2_METADATA_KEYS \<Longrightarrow> distinct (dkeys m) \<and> set (dkeys m) = set C2_METADATA_KEYS"
proof -
  assume "sort (dkeys m) = sort C2_METADATA_KEYS"
  then have "mset (dkeys m) = mset C2_METADATA_KEYS" by (metis mset_sort)
  moreover have "distinct C2_METADATA_KEYS" by (simp add: C2_METADATA_KEYS_def)
  ultimately show ?thesis by (metis mset_eq_imp_distinct_iff mset_eq_setD)
qed

lemma metadata_dict_keys: "dkeys (metadata_dict inp) = C2_METADATA_KEYS"
  by (simp add: dkeys_def metadata_dict_def C2_METADATA_KEYS_def)

text \<open>Each field of the rebuilt metadata is the caller's field.\<close>

lemma c2_keys_lookup:
  assumes "k \<in> set C2_METADATA_KEYS" and "dget m ''schema_version'' = PStr METADATA_SCHEMA_VERSION"
  shows "dget (metadata_dict (metadata_input_of m)) k = dget m k"
  using assms(1) unfolding C2_METADATA_KEYS_def list.set insert_iff empty_iff
  by (elim disjE FalseE) (simp_all add: metadata_dict_def metadata_input_of_def assms(2))

lemma dget_not_key: "k \<notin> set (dkeys d) \<Longrightarrow> dget d k = PNone"
  by (metis dget_or_def dkeys_def map_of_eq_None_iff list.set_map option.simps(4))

lemma rebuilt_metadata:
  assumes "payload_accepted m uri gen approver i e"
  shows "dget (metadata_dict (metadata_input_of m)) k = dget m k"
proof (cases "k \<in> set C2_METADATA_KEYS")
  case True
  with assms c2_keys_lookup show ?thesis by (auto simp: payload_accepted_def)
next
  case False
  moreover have "set (dkeys m) = set C2_METADATA_KEYS"
    using assms dkeys_c2 by (auto simp: payload_accepted_def)
  ultimately show ?thesis by (simp add: dget_not_key metadata_dict_keys)
qed

text \<open>A payload that is built for signing has exactly the seven \<open>c3.v1\<close> keys and nests exactly the
  fields of the submitted metadata, each of the shape the \<open>c2.v1\<close> schema demands; its metadata
  locator sits in the run directory of the plan artifact; and its window is positive and no longer
  than fifteen minutes, so no caller can have an inverted or year-long approval signed.\<close>

theorem built_payload_valid:
  assumes "build_plan_approval_payload metadata uri gen approver i e = Inr p"
  shows "\<exists>m cm a b. metadata = PDict m \<and> metadata_ok (metadata_input_of m) \<and>
     dkeys p = PLAN_PAYLOAD_TOP_KEYS \<and> dget p ''metadata'' = PDict cm \<and>
     dkeys cm = C2_METADATA_KEYS \<and> (\<forall>k. dget cm k = dget m k) \<and>
     dget p ''artifact_uri_metadata'' = expected_metadata_uri m \<and>
     parse_rfc3339_utc (dget p ''issued_at'') = Inr a \<and> parse_rfc3339_utc (dget p ''expires_at'') = Inr b \<and>
     a < b \<and> b \<le> a + 15 * 60000000"
proof -
  from assms obtain m where m: "metadata = PDict m" and acc: "payload_accepted m uri gen approver i e"
    and p: "p = payload_dict (metadata_dict (metadata_input_of m)) uri gen approver i e"
    by (auto simp: build_payload_iff)
  from acc have "check_window i e = Inr ()" by (simp add: payload_accepted_def)
  then obtain a b where "parse_rfc3339_utc i = Inr a" "parse_rfc3339_utc e = Inr b" "a < b" "b \<le> a + 15 * 60000000"
    by (auto simp: check_window_Inr parse_rfc3339_utc_def window_limit_def MAX_APPROVAL_TTL_MINUTES_def)
  moreover have "uri = expected_metadata_uri m"
    using acc rebuilt_metadata [OF acc] by (simp add: payload_accepted_def expected_metadata_uri_def)
  moreover have "dkeys p = PLAN_PAYLOAD_TOP_KEYS"
    by (simp add: p payload_dict_def dkeys_def PLAN_PAYLOAD_TOP_KEYS_def)
  ultimately show ?thesis
    using m acc rebuilt_metadata [OF acc] metadata_dict_keys
    by (intro exI [of _ m] exI [of _ "metadata_dict (metadata_input_of m)"] exI [of _ a] exI [of _ b])
      (simp add: p payload_dict_def payload_accepted_def)
qed

text \<open>A concrete payload.\<close>

definition demo_metadata :: pydict where
  "demo_metadata =
     [(''schema_version'', PStr ''c2.v1''), (''repo'', PStr ''o/r''), (''pr_number'', PInt 7),
      (''head_sha'', PStr (replicate 40 (CHR ''a''))), (''base_sha'', PStr (replicate 40 (CHR ''b''))),
      (''workflow_run_id'', PStr ''12''), (''workflow_run_attempt'', PStr ''1''),
      (''artifact_uri_plan'', PStr (''gs://driftscribe-hack-2026-tofu-artifacts/pr-7/'' @ replicate 40 (CHR ''a'') @ ''/run-12-1/plan.tfplan'')),
      (''artifact_uri_json'', PStr (''gs://driftscribe-hack-2026-tofu-artifacts/pr-7/'' @ replicate 40 (CHR ''a'') @ ''/run-12-1/plan.json'')),
      (''generation_plan'', PStr ''3''), (''generation_json'', PStr ''4''),
      (''plan_sha256'', PStr (replicate 64 (CHR ''c''))), (''plan_json_sha256'', PStr (replicate 64 (CHR ''d''))),
      (''opentofu_version'', PStr ''1.9.0''), (''provider_lockfile_sha256'', PStr (replicate 64 (CHR ''e'')))]"

definition demo_uri :: pyval where
  "demo_uri = PStr (''gs://driftscribe-hack-2026-tofu-artifacts/pr-7/'' @ replicate 40 (CHR ''a'') @ ''/run-12-1/metadata.json'')"

definition demo_issued :: string where "demo_issued = ''2026-06-01T10:00:00+00:00''"
definition demo_expires :: string where "demo_expires = ''2026-06-01T10:15:00+00:00''"

definition demo_payload :: pydict where
  "demo_payload = payload_dict (metadata_dict (metadata_input_of demo_metadata)) demo_uri (PStr ''5'') (PStr ''op'')
     (PStr demo_issued) (PStr demo_expires)"

lemma hex_digits_iff:
  "fullmatch HEX40 s \<longleftrightarrow> length s = 40 \<and> (\<forall>c \<in> set s. in_ranges lower_hex_cls c)"
  "fullmatch HEX64 s \<longleftrightarrow> length s = 64 \<and> (\<forall>c \<in> set s. in_ranges lower_hex_cls c)"
  "fullmatch DIGITS s \<longleftrightarrow> s \<noteq> [] \<and> (\<forall>c \<in> set s. is_digit c)"
  by (simp_all add: HEX40_def HEX64_def DIGITS_def fullmatch_iff)

lemma demo_metadata_ok: "metadata_ok (metadata_input_of demo_metadata)"
proof -
  have "fullmatch REPO ''o/r''" "fullmatch POSITIVE_DIGITS ''1''" "fullmatch SEMVER_3 ''1.9.0''"
    by code_simp+
  moreover have "digit_char 7 = CHR ''7''" by (simp add: char_by_code)
  ultimately show ?thesis
    by (simp add: metadata_ok_def metadata_input_of_def demo_metadata_def hex_digits_iff lower_hex_cls_def
        is_digit_def expected_prefix_def show_int_def show_nat.simps)
qed

lemma demo_window: "check_window (PStr demo_issued) (PStr demo_expires) = Inr ()"
proof -
  have "parse_rfc3339 demo_issued = Inr 63915904800000000"
    "parse_rfc3339 demo_expires = Inr 63915905700000000"
    "is_rfc3339_utc demo_issued" "is_rfc3339_utc demo_expires"
    by (simp_all add: parse_rfc3339_def rfc3339_fields_def is_rfc3339_utc_def demo_issued_def demo_expires_def
        is_digit_def read_nat_def digit_val_def valid_ymd_def ymd_to_day_def month_lengths_def is_leap_def
        days_before_def)
  then show ?thesis
    by (simp add: check_window_Inr window_limit_def MAX_APPROVAL_TTL_MINUTES_def)
qed

lemma demo_accepted:
  "payload_accepted demo_metadata demo_uri (PStr ''5'') (PStr ''op'') (PStr demo_issued) (PStr demo_expires)"
proof -
  have "expected_metadata_uri (metadata_dict (metadata_input_of demo_metadata)) = demo_uri"
    by (simp add: expected_metadata_uri_def metadata_dict_def metadata_input_of_def demo_metadata_def
        dir_name_def rsplit_char_def demo_uri_def)
  moreover have "dkeys demo_metadata = C2_METADATA_KEYS"
    by (simp add: dkeys_def demo_metadata_def C2_METADATA_KEYS_def)
  ultimately show ?thesis
    using demo_metadata_ok demo_window
    by (simp add: payload_accepted_def demo_metadata_def METADATA_SCHEMA_VERSION_def hex_digits_iff is_digit_def)
qed

lemma demo_built:
  "build_plan_approval_payload (PDict demo_metadata) demo_uri (PStr ''5'') (PStr ''op'')
     (PStr demo_issued) (PStr demo_expires) = Inr demo_payload"
  using demo_accepted by (simp add: build_payload_iff demo_payload_def)

theorem built_payload_valid_witness:
  "\<exists>a b. parse_rfc3339_utc (dget demo_payload ''issued_at'') = Inr a \<and>
     parse_rfc3339_utc (dget demo_payload ''expires_at'') = Inr b \<and> a < b \<and> b \<le> a + 15 * 60000000"
  using built_payload_valid [OF demo_built] by blast

text \<open>The payload builder fails closed with one exception class only: whatever values the untrusted
  metadata and locators hold, a refusal is a \<open>ValueError\<close>, never a \<open>TypeError\<close> from a regular
  expression applied to a value that is not a string.\<close>

theorem build_payload_only_value_errors:
  "case build_plan_approval_payload metadata uri gen approver i e of
     Inl err \<Rightarrow> (case err of ValueError _ \<Rightarrow> True | _ \<Rightarrow> False)
   | Inr p \<Rightarrow> True"
proof -
  have cf: "check_field n v q = Inl err \<Longrightarrow> (\<exists>s. err = ValueError s) \<or> q v = Inl err" for n v q err
    by (cases "q v") (auto simp: check_field_def)
  have mt: "matches r v = Inl err \<Longrightarrow> err = TypeError" for r v err
    by (cases v) (auto simp: matches_def)
  have st: "str_matches r v \<noteq> Inl err" "positive_int v \<noteq> Inl err" for r v err
    by (cases v; simp add: str_matches_def positive_int_def)+
  have bm: "build_metadata inp = Inl err \<Longrightarrow> (\<exists>s. err = ValueError s) \<or> err = TypeError" for inp err
    unfolding build_metadata_def rbind_Inl_iff
    by (elim disjE exE conjE) (auto dest!: cf mt simp: st)
  have ft: "fold_type_error (build_metadata inp) = Inl err \<Longrightarrow> \<exists>s. err = ValueError s" for inp err
    using bm [of inp] by (auto simp: fold_type_error_def split: sum.splits pyexc.splits)
  have pr: "parse_rfc3339 s = Inl err \<Longrightarrow> \<exists>t. err = ValueError t" for s err
    by (auto simp: parse_rfc3339_def split: option.splits if_splits prod.splits)
  have cw: "check_window i e = Inl err \<Longrightarrow> \<exists>s. err = ValueError s" for err
    by (auto simp: check_window_def result_simps is_window_text_def parse_rfc3339_utc_def dest: pr
        split: pyval.splits if_splits)
  show ?thesis
    by (auto simp: build_plan_approval_payload_def result_simps dest!: ft cw
        split: sum.split pyexc.split option.split if_splits)
qed

section \<open>What was signed is what is read back\<close>

lemma metadata_dict_printable: "metadata_ok inp \<Longrightarrow> printable (PDict (metadata_dict inp))"
  unfolding metadata_ok_def matches_True
  by (elim conjE exE) (simp add: metadata_dict_def dkeys_def)

lemma payload_printable:
  assumes "payload_accepted m uri gen approver i e"
  shows "printable (PDict (payload_dict (metadata_dict (metadata_input_of m)) uri gen approver i e))"
proof -
  from assms obtain s where "dget (metadata_dict (metadata_input_of m)) ''artifact_uri_plan'' = PStr s"
    by (auto simp: payload_accepted_def metadata_ok_def metadata_dict_def)
  with assms have "\<exists>u. uri = PStr u" by (simp add: payload_accepted_def expected_metadata_uri_def)
  moreover from assms have "\<exists>g. gen = PStr g" "\<exists>a. approver = PStr a" "\<exists>a. i = PStr a" "\<exists>a. e = PStr a"
    by (auto simp: payload_accepted_def is_str_iff check_window_Inr)
  moreover have "printable (PDict (metadata_dict (metadata_input_of m)))"
    using assms metadata_dict_printable by (simp add: payload_accepted_def)
  moreover have "distinct (dkeys (payload_dict cm uri gen approver i e))" for cm
    by (simp add: payload_dict_def dkeys_def)
  ultimately show ?thesis by (auto simp: payload_dict_def)
qed

lemma plan_create_data_keys:
  assumes "plan_create_data sha mac now aid tok p key who = Inr data"
  shows "PlanApproval aid data = Inr (plan_approval_of aid data) \<and> dkeys data = PLAN_APPROVAL_REQUIRED"
proof
  from assms show k: "dkeys data = PLAN_APPROVAL_REQUIRED"
    by (auto simp: plan_create_data_def result_simps Let_def dkeys_def PLAN_APPROVAL_REQUIRED_def)
  then have "\<forall>k \<in> set PLAN_APPROVAL_REQUIRED. map_of data k \<noteq> None"
    by (simp add: map_of_eq_None_iff dkeys_def flip: list.set_map)
  with k show "PlanApproval aid data = Inr (plan_approval_of aid data)"
    by (simp add: PlanApproval_def PLAN_APPROVAL_FIELDS_def)
qed

lemma plan_create_Inr:
  assumes "plan_create sha mac now aid tok p key who docs = (Inr (a, tok'), docs')"
  obtains data where "plan_create_data sha mac now aid tok p key who = Inr data"
    "a = plan_approval_of aid data" "tok' = tok" "docs' = docs(aid \<mapsto> data)"
  using assms plan_create_data_keys [of sha mac now aid tok p key who]
  by (auto simp: plan_create_def split: if_splits sum.splits)

text \<open>The approval that \<open>create\<close> returns for a payload that the builder returned.\<close>

lemma created_fields:
  assumes "build_plan_approval_payload md uri gen approver i e = Inr p"
    and "plan_create sha mac now aid tok p key who docs = (Inr (a, tok'), docs')"
  shows "tok' = tok \<and> pa_id a = aid \<and> pa_payload_canonical a = PStr (emit (canon (PDict p))) \<and>
     pa_token_hmac a =
       PStr (compute_plan_approval_hmac mac tok aid (digest_canonical sha (emit (canon (PDict p)))) key) \<and>
     printable (PDict p)"
proof -
  from assms(1) have p: "printable (PDict p)"
    using payload_printable by (auto simp: build_payload_iff)
  from assms(2) obtain data where d: "plan_create_data sha mac now aid tok p key who = Inr data"
    "a = plan_approval_of aid data" "tok' = tok" by (rule plan_create_Inr)
  with json_dumps_printable [OF p] p show ?thesis
    by (auto simp: plan_create_data_def canonicalize_payload_def result_simps Let_def plan_approval_of_def
        simp del: emit.simps canon.simps printable.simps)
qed

text \<open>What the worker reads at apply time is what was signed: for a built payload, the approval that
  \<open>create\<close> returns parses back, through the canonical JSON, to the payload up to key order, and the
  token that was handed out verifies against it.\<close>

theorem signed_payload_roundtrip:
  assumes "build_plan_approval_payload md uri gen approver i e = Inr p"
    and "plan_create sha mac now aid tok p key who docs = (Inr (a, tok'), docs')"
    and "\<forall>k m. is_ascii (mac k m)"
  shows "\<exists>q. signed_payload a = Inr (PDict q) \<and> (\<forall>k. map_of q k = map_option canon (map_of p k)) \<and>
     verify_plan_approval sha mac tok' a key = Inr True"
proof -
  note f = created_fields [OF assms(1,2)]
  obtain q where q: "canon (PDict p) = PDict q" by simp
  have "json_loads (emit (canon (PDict p))) = Some (PDict q)"
    using f json_loads_emit [OF printable_canon] q by metis
  then have "signed_payload a = Inr (PDict q)" using f by (simp add: signed_payload_def del: emit.simps canon.simps)
  moreover have "map_of q k = map_option canon (map_of p k)" for k
    using canon_lookup [OF q] f by simp
  moreover have "verify_plan_approval sha mac tok' a key = Inr True"
    using f assms(3) by (simp add: verify_plan_approval_def compare_digest_def compute_plan_approval_hmac_def
        del: emit.simps canon.simps)
  ultimately show ?thesis by blast
qed

lemma demo_created:
  "\<exists>a docs'. plan_create sha mac now aid tok demo_payload key who docs = (Inr (a, tok), docs')"
proof -
  have p: "printable (PDict demo_payload)"
    using payload_printable [OF demo_accepted] by (simp only: demo_payload_def)
  obtain b where b: "parse_rfc3339 demo_expires = Inr b"
    using demo_window by (auto simp: check_window_Inr)
  have "\<exists>data. plan_create_data sha mac now aid tok demo_payload key who = Inr data"
    using json_dumps_printable [OF p] b
    by (simp add: plan_create_data_def canonicalize_payload_def Let_def demo_payload_def payload_dict_def
        parse_rfc3339_utc_def subscript_def metadata_dict_def del: emit.simps canon.simps)
  then obtain data where d: "plan_create_data sha mac now aid tok demo_payload key who = Inr data" ..
  have "dkeys demo_payload = PLAN_PAYLOAD_TOP_KEYS"
    by (simp add: demo_payload_def payload_dict_def dkeys_def PLAN_PAYLOAD_TOP_KEYS_def)
  moreover have "dget demo_payload ''approval_schema_version'' = PStr PLAN_APPROVAL_SCHEMA_VERSION"
    by (simp add: demo_payload_def payload_dict_def)
  ultimately show ?thesis
    using d plan_create_data_keys [OF d] by (simp add: plan_create_def)
qed

theorem signed_payload_roundtrip_witness:
  "\<exists>a docs' q. plan_create (\<lambda>m. m) (\<lambda>k m. ''0a'') 5 ''id'' ''tok'' demo_payload ''key'' ''me'' Map.empty
       = (Inr (a, ''tok''), docs') \<and> signed_payload a = Inr (PDict q) \<and>
     map_of q ''approver'' = Some (PStr ''op'')"
proof -
  obtain a docs' where c: "plan_create (\<lambda>m. m) (\<lambda>k m. ''0a'') 5 ''id'' ''tok'' demo_payload ''key'' ''me'' Map.empty
       = (Inr (a, ''tok''), docs')" using demo_created by blast
  have "\<forall>k m. is_ascii ((\<lambda>k m. ''0a'') k (m::string))" by (simp add: is_ascii_def)
  from signed_payload_roundtrip [OF demo_built c this] obtain q where
    "signed_payload a = Inr (PDict q)" "map_of q ''approver'' = map_option canon (map_of demo_payload ''approver'')"
    by blast
  with c show ?thesis by (simp add: demo_payload_def payload_dict_def)
qed

section \<open>Tampering\<close>

lemma utf8_char_inj:
  assumes "utf8_char c @ s = utf8_char d @ t"
  shows "c = d \<and> s = t"
proof -
  have small: "(of_char x :: nat) < 256" for x by simp
  have code: "of_char (char_of k :: char) = k" if "k < 256" for k :: nat using that by simp
  have hi: "(of_char (char_of (192 + of_char x div 64 :: nat)) :: nat) = 192 + of_char x div 64"
    "(of_char (char_of (128 + of_char x mod 64 :: nat)) :: nat) = 128 + of_char x mod 64" for x
    using small [of x] by (intro code; simp add: less_mult_imp_div_less; linarith)+
  show ?thesis
  proof (cases "(of_char c :: nat) < 128"; cases "(of_char d :: nat) < 128")
    assume "\<not> (of_char c :: nat) < 128" "\<not> (of_char d :: nat) < 128"
    with assms have e: "char_of (192 + of_char c div 64 :: nat) = (char_of (192 + of_char d div 64 :: nat) :: char)"
      "char_of (128 + of_char c mod 64 :: nat) = (char_of (128 + of_char d mod 64 :: nat) :: char)" "s = t"
      by (simp_all add: utf8_char_def Let_def)
    from e(1,2) have "(of_char c :: nat) div 64 = of_char d div 64" "(of_char c :: nat) mod 64 = of_char d mod 64"
      using hi [of c] hi [of d] by (metis add_left_imp_eq)+
    then have "(of_char c :: nat) = of_char d" by (metis div_mult_mod_eq)
    with e(3) show ?thesis by (simp only: of_char_eq_iff simp_thms)
  next
    assume a: "(of_char c :: nat) < 128" "\<not> (of_char d :: nat) < 128"
    with assms have "c = char_of (192 + of_char d div 64 :: nat)" by (simp add: utf8_char_def Let_def)
    with a hi(1) [of d] show ?thesis by simp
  next
    assume a: "\<not> (of_char c :: nat) < 128" "(of_char d :: nat) < 128"
    with assms have "char_of (192 + of_char c div 64 :: nat) = d" by (simp add: utf8_char_def Let_def)
    with a hi(1) [of c] show ?thesis by auto
  qed (use assms in \<open>simp add: utf8_char_def Let_def\<close>)
qed

lemma utf8_inj: "utf8 s = utf8 t \<Longrightarrow> s = t"
proof (induction s arbitrary: t)
  case Nil
  then show ?case by (cases t) (auto simp: utf8_def utf8_char_def Let_def split: if_splits)
next
  case (Cons c s)
  from Cons.prems obtain d t' where t: "t = d # t'"
    by (cases t) (auto simp: utf8_def utf8_char_def Let_def split: if_splits)
  with Cons.prems have "utf8_char c @ utf8 s = utf8_char d @ utf8 t'" by (simp add: utf8_def)
  then have "c = d \<and> utf8 s = utf8 t'" by (rule utf8_char_inj)
  with t Cons.IH show ?case by simp
qed

lemma verify_Inr_True:
  "verify_plan_approval sha mac tok st key = Inr True \<Longrightarrow>
     \<exists>s. pa_payload_canonical st = PStr s \<and>
       pa_token_hmac st = PStr (compute_plan_approval_hmac mac tok (pa_id st) (digest_canonical sha s) key)"
  by (auto simp: verify_plan_approval_def compare_digest_def split: pyval.splits if_splits)

definition no_bar :: "string \<Rightarrow> bool" where "no_bar s \<longleftrightarrow> char_of (124::nat) \<notin> set s"

lemma plan_message_inj:
  assumes "no_bar tok" "no_bar aid" "no_bar tok'" "no_bar aid'"
  shows "plan_message tok aid d = plan_message tok' aid' d' \<longleftrightarrow> tok = tok' \<and> aid = aid' \<and> d = d'"
  using assms bar_split [of tok tok' "aid @ bar @ d" "aid' @ bar @ d'"] bar_split [of aid aid' d d']
  by (auto simp: plan_message_def no_bar_def)

text \<open>A hexadecimal encoding: an injective, ASCII-valued stand-in for a hash in the witnesses.\<close>

definition hexenc :: "string \<Rightarrow> string" where
  "hexenc s = concat (map (\<lambda>c. hex2 (of_char c)) s)"

lemma hex2_inj: "m < 256 \<Longrightarrow> n < 256 \<Longrightarrow> hex2 m = hex2 n \<Longrightarrow> m = n"
proof -
  assume a: "m < 256" "n < 256" "hex2 m = hex2 n"
  then have "m div 16 < 16" "n div 16 < 16" by (simp_all add: less_mult_imp_div_less)
  with a(3) have "m div 16 = n div 16" "m mod 16 = n mod 16"
    unfolding hex2_def by (metis hex_val_digit list.inject mod_less_divisor option.inject zero_less_numeral)+
  then show "m = n" by (metis div_mult_mod_eq)
qed

lemma hexenc_inj: "hexenc s = hexenc t \<Longrightarrow> s = t"
proof (induction s arbitrary: t)
  case Nil
  then show ?case by (cases t) (auto simp: hexenc_def hex2_def)
next
  case (Cons c s)
  from Cons.prems obtain d t' where t: "t = d # t'" by (cases t) (auto simp: hexenc_def hex2_def)
  with Cons.prems have "hex2 (of_char c) = hex2 (of_char d) \<and> hexenc s = hexenc t'"
    by (simp add: hexenc_def hex2_def)
  with t Cons.IH show ?case using hex2_inj [of "of_char c" "of_char d"] by simp
qed

lemma hexenc_ascii: "is_ascii (hexenc s)"
proof -
  have d: "(of_char (hex_digit n) :: nat) < 128" if "n < 16" for n
    using that by (simp add: hex_digit_def)
  have "is_ascii (hex2 (of_char c))" for c
    using d [of "of_char c mod 16"] d [of "of_char c div 16"]
    by (simp add: is_ascii_def hex2_def less_mult_imp_div_less)
  then show ?thesis by (auto simp: hexenc_def is_ascii_def)
qed

lemma hexenc_no_collision: "\<not> collide hexenc m m'"
  unfolding collide_def using hexenc_inj by blast



text \<open>Domain separation: if the rollback and the plan approvals ever shared an HMAC key, no rollback
  token's HMAC could pass for a plan approval's: for tokens without a separator that are not the
  domain tag itself (a raw token has 43 characters), equal HMACs are a collision of the two messages.\<close>

theorem hmac_domains_separate:
  assumes "compute_token_hmac mac tok aid revision key = compute_plan_approval_hmac mac tok' aid' d key"
    and "no_bar tok \<and> length tok = 43"
  shows "collide (mac key) (tok @ bar @ aid @ bar @ revision) (plan_message tok' aid' d)"
proof -
  have "no_bar PLAN_APPROVAL_DOMAIN" by (simp add: no_bar_def PLAN_APPROVAL_DOMAIN_def char_by_code)
  moreover have "length PLAN_APPROVAL_DOMAIN \<noteq> 43" by (simp add: PLAN_APPROVAL_DOMAIN_def)
  ultimately have "tok @ bar @ aid @ bar @ revision \<noteq> plan_message tok' aid' d"
    using assms(2) bar_split [of tok PLAN_APPROVAL_DOMAIN] by (auto simp: plan_message_def no_bar_def)
  with assms(1) show ?thesis
    unfolding collide_def compute_token_hmac_def compute_plan_approval_hmac_def by blast
qed

theorem hmac_domains_separate_witness:
  "collide ((\<lambda>k m. []) ''key'') (replicate 43 (CHR ''t'') @ bar @ ''a'' @ bar @ ''r'') (plan_message ''t'' ''b'' ''d'')"
  by (rule hmac_domains_separate [of "\<lambda>k m. []" "replicate 43 (CHR ''t'')" "''a''" "''r''" _ "''t''" "''b''" "''d''"])
    (simp_all add: compute_token_hmac_def compute_plan_approval_hmac_def no_bar_def char_by_code)

text \<open>The expiry decision rests on the signed window alone: whatever an attacker writes into the
  displayed \<open>expires_at\<close> field or any other field, an approval whose canonical payload is the
  signed one is expired exactly from the signed \<open>expires_at\<close> on, which is at most fifteen minutes after
  the signed issue time.\<close>

theorem expiry_from_signed_window:
  assumes "build_plan_approval_payload md uri gen approver i e = Inr p"
    and "plan_create sha mac now aid tok p key who docs = (Inr (a, tok'), docs')"
    and "pa_payload_canonical st = pa_payload_canonical a"
  shows "\<exists>issued expires. parse_rfc3339_utc i = Inr issued \<and> parse_rfc3339_utc e = Inr expires \<and>
     expires \<le> issued + 15 * 60000000 \<and> plan_approval_is_expired st t = Inr (expires < t)"
proof -
  note f = created_fields [OF assms(1,2)]
  from assms(1) obtain m where acc: "payload_accepted m uri gen approver i e"
    and p: "p = payload_dict (metadata_dict (metadata_input_of m)) uri gen approver i e"
    by (auto simp: build_payload_iff)
  from acc obtain se a' b where w: "e = PStr se" "parse_rfc3339_utc i = Inr a'" "parse_rfc3339 se = Inr b"
    "b \<le> a' + 15 * 60000000"
    by (auto simp: payload_accepted_def check_window_Inr parse_rfc3339_utc_def window_limit_def MAX_APPROVAL_TTL_MINUTES_def)
  obtain q where q: "canon (PDict p) = PDict q" by simp
  have "json_loads (emit (PDict q)) = Some (PDict q)"
    using f json_loads_emit [OF printable_canon] q by metis
  then have "signed_payload st = Inr (PDict q)"
    using f q assms(3) by (simp add: signed_payload_def del: emit.simps canon.simps)
  moreover have "map_of q ''expires_at'' = Some (PStr se)"
    using canon_lookup [OF q, of "''expires_at''"] f w(1) by (simp add: p payload_dict_def)
  ultimately have "plan_approval_is_expired st t = Inr (b < t)"
    using w(3) by (simp add: plan_approval_is_expired_def subscript_def parse_rfc3339_utc_def)
  with w show ?thesis by (simp add: parse_rfc3339_utc_def)
qed

theorem expiry_from_signed_window_witness:
  "\<exists>a docs' b. plan_create (\<lambda>m. m) (\<lambda>k m. m) 5 ''id'' ''tok'' demo_payload ''key'' ''me'' Map.empty
       = (Inr (a, ''tok''), docs') \<and>
     plan_approval_is_expired (a\<lparr>pa_expires_at := PTime 99999999999999999\<rparr>) 63915905700000001 = Inr b"
proof -
  obtain a docs' where c: "plan_create (\<lambda>m. m) (\<lambda>k m. m) 5 ''id'' ''tok'' demo_payload ''key'' ''me'' Map.empty
       = (Inr (a, ''tok''), docs')" using demo_created by blast
  from expiry_from_signed_window [OF demo_built c, of "a\<lparr>pa_expires_at := PTime 99999999999999999\<rparr>"] c
  show ?thesis by auto
qed

section \<open>Single use\<close>

datatype plan_claim_kind = PlanUsed pyval instant pyval | PlanDenied pyval instant

fun pl_claim_op :: "plan_claim_kind \<Rightarrow> string \<Rightarrow> docs \<Rightarrow> (pyexc, plan_approval option) res \<times> docs" where
  "pl_claim_op (PlanUsed who when audit) i docs = plan_claim_pending i who when audit docs"
| "pl_claim_op (PlanDenied who when) i docs = plan_claim_denied i who when docs"

definition pl_claim :: "plan_claim_kind \<Rightarrow> string \<Rightarrow> docs \<Rightarrow> bool \<times> docs" where
  "pl_claim c i docs = won (pl_claim_op c i docs)"

datatype pl_op =
    PlCreate "string \<Rightarrow> string" "string \<Rightarrow> string \<Rightarrow> string" instant string string pydict string string
  | PlAudit string pyval

fun pl_step :: "pl_op \<Rightarrow> docs \<Rightarrow> docs" where
  "pl_step (PlCreate sha mac now aid tok p key who) docs = snd (plan_create sha mac now aid tok p key who docs)"
| "pl_step (PlAudit aid audit) docs = snd (set_apply_audit aid audit docs)"

fun pl_allowed :: "pl_op \<Rightarrow> docs \<Rightarrow> bool" where
  "pl_allowed (PlCreate _ _ _ aid _ _ _ _) docs = (docs aid = None)"
| "pl_allowed (PlAudit _ _) docs = True"

text \<open>A claim that changes anything flips one pending document to \<open>used\<close> or \<open>denied\<close>.\<close>

lemma plan_claim_cases:
  assumes "plan_claim i new_status extra docs = r"
  shows "won r = (False, docs) \<or>
     (\<exists>d. docs i = Some d \<and> dget d ''status'' = PStr ''pending'' \<and>
        won r = (True, docs(i \<mapsto> dupdate d (dupdate [(''status'', PStr new_status)] extra))))"
  using assms by (auto simp: plan_claim_def won_def Let_def split: option.splits sum.splits if_splits)

lemma pl_claim_cases:
  "pl_claim c i docs = (False, docs) \<or>
   (\<exists>d d'. docs i = Some d \<and> dget d ''status'' = PStr ''pending'' \<and> dget d' ''status'' \<noteq> PStr ''pending'' \<and>
      pl_claim c i docs = (True, docs(i \<mapsto> d')))"
proof (cases c)
  case (PlanUsed who "when" audit)
  have w: "dget (dupdate d (dupdate [(''status'', PStr ''used'')] [(''used_by'', who), (''used_at'', PTime when)])) ''status''
      \<noteq> PStr ''pending''"
    "dget (dupdate d (dupdate [(''status'', PStr ''used'')]
        ([(''used_by'', who), (''used_at'', PTime when)] @ [(''apply_audit'', audit)]))) ''status'' \<noteq> PStr ''pending''" for d
    by simp_all
  show ?thesis
    using plan_claim_cases [OF refl, of i "''used''" _ docs] w
    by (auto simp: PlanUsed pl_claim_def plan_claim_pending_def Let_def won_def [of "(Inl TypeError, docs)"]
        simp del: dupdate_simps append.simps) blast+
next
  case (PlanDenied who "when")
  have "dget (dupdate d (dupdate [(''status'', PStr ''denied'')] [(''denied_by'', who), (''denied_at'', PTime when)])) ''status''
      \<noteq> PStr ''pending''" for d
    by simp
  then show ?thesis
    using plan_claim_cases [OF refl, of i "''denied''" _ docs]
    by (simp add: PlanDenied pl_claim_def plan_claim_denied_def del: dupdate_simps) blast
qed

lemma pl_step_cases:
  "pl_step op docs = docs \<or>
   (\<exists>sha mac now aid tok p key who d. op = PlCreate sha mac now aid tok p key who \<and> pl_step op docs = docs(aid \<mapsto> d)) \<or>
   (\<exists>aid audit d. op = PlAudit aid audit \<and> docs aid = Some d \<and> pl_step op docs = docs(aid \<mapsto> dput d ''apply_audit'' audit))"
  by (cases op) (auto simp: plan_create_def set_apply_audit_def split: sum.split option.split if_split)

interpretation plan_store: single_use_history ap_pending pl_claim "\<lambda>docs i. docs i \<noteq> None" pl_step pl_allowed
proof unfold_locales
  show "pl_claim c i s = (True, s') \<Longrightarrow> ap_pending s i \<and> \<not> ap_pending s' i" for c i s s'
    using pl_claim_cases [of c i s] by (auto simp: ap_pending_def)
  show "pl_claim c i s = (False, s') \<Longrightarrow> s' = s" for c i s s'
    using pl_claim_cases [of c i s] by auto
  show "pl_claim c i s = (w, s') \<Longrightarrow> j \<noteq> i \<Longrightarrow> ap_pending s' j = ap_pending s j" for c i s w s' j
    using pl_claim_cases [of c i s] by (auto simp: ap_pending_def)
  show "pl_allowed op s \<Longrightarrow> s i \<noteq> None \<Longrightarrow> \<not> ap_pending s i \<Longrightarrow> \<not> ap_pending (pl_step op s) i" for op s i
    using pl_step_cases [of op s] by (auto simp: ap_pending_def split: if_splits)
  show "pl_allowed op s \<Longrightarrow> s i \<noteq> None \<Longrightarrow> pl_step op s i \<noteq> None" for op s i
    using pl_step_cases [of op s] by auto
  show "s i \<noteq> None \<Longrightarrow> snd (pl_claim c j s) i \<noteq> None" for s i c j
    using pl_claim_cases [of c j s] by auto
  show "ap_pending s i \<Longrightarrow> s i \<noteq> None" for s i
    by (auto simp: ap_pending_def)
qed

text \<open>A plan approval is an apply credential that works once: over any interleaving of apply claims,
  denials, audit writes and creations of fresh approvals, no identifier is claimed successfully twice.\<close>

theorem plan_claim_once:
  assumes "plan_store.well_behaved es docs"
  shows "distinct (plan_store.wins es docs)"
  using assms by (rule plan_store.wins_distinct)

theorem plan_claim_once_witness:
  "distinct (plan_store.wins
     [Other (PlCreate (\<lambda>m. m) (\<lambda>k m. m) 5 ''id'' ''tok'' demo_payload ''key'' ''me''),
      Claim (PlanUsed (PStr ''op'') 6 PNone) ''id'', Claim (PlanDenied (PStr ''op'') 7) ''id''] Map.empty)"
  by (rule plan_claim_once) simp

text \<open>The terminal audit write changes nothing but the audit: the approval that a later read returns
  differs at most in \<open>apply_audit\<close>, so neither the status nor any HMAC-bound field can be reset by it.\<close>

theorem audit_write_only_audit:
  assumes "set_apply_audit aid audit docs = (Inr (), docs')" and "plan_get aid docs = Inr (Some a)"
  shows "plan_get aid docs' = Inr (Some (a\<lparr>pa_apply_audit := audit\<rparr>))"
proof -
  from assms(1) obtain d where d: "docs aid = Some d" "docs' = docs(aid \<mapsto> dput d ''apply_audit'' audit)"
    by (auto simp: set_apply_audit_def split: if_splits option.splits)
  have audit: "''apply_audit'' \<in> set PLAN_APPROVAL_FIELDS" "''apply_audit'' \<notin> set PLAN_APPROVAL_REQUIRED"
    by (simp_all add: PLAN_APPROVAL_FIELDS_def PLAN_APPROVAL_OPTIONAL_def PLAN_APPROVAL_REQUIRED_def)
  have drop: "map_of (drop_unknown_fields (dput d ''apply_audit'' audit) PLAN_APPROVAL_FIELDS) =
      (map_of (drop_unknown_fields d PLAN_APPROVAL_FIELDS))(''apply_audit'' \<mapsto> audit)"
    using audit(1) by (auto simp: map_of_drop_unknown fun_eq_iff)
  from assms(2) d have read: "read_plan_approval aid d = Inr a"
    by (auto simp: plan_get_def result_simps)
  moreover have "set (dkeys (drop_unknown_fields x PLAN_APPROVAL_FIELDS)) \<subseteq> set PLAN_APPROVAL_FIELDS" for x
    by (simp add: dkeys_drop_unknown)
  ultimately have a: "a = plan_approval_of aid (drop_unknown_fields d PLAN_APPROVAL_FIELDS)"
    and "\<forall>k \<in> set PLAN_APPROVAL_REQUIRED. map_of (drop_unknown_fields d PLAN_APPROVAL_FIELDS) k \<noteq> None"
    by (auto simp: read_plan_approval_def PlanApproval_def split: if_splits)
  then have "read_plan_approval aid (dput d ''apply_audit'' audit) =
      Inr (plan_approval_of aid (drop_unknown_fields (dput d ''apply_audit'' audit) PLAN_APPROVAL_FIELDS))"
    using dkeys_drop_unknown by (simp add: read_plan_approval_def PlanApproval_def drop)
  then show ?thesis by (simp add: plan_get_def d(2) a plan_approval_of_def dget_or_def drop)
qed

theorem audit_write_only_audit_witness:
  "\<exists>a docs'. set_apply_audit ''a'' (PDict []) [''a'' \<mapsto> map (\<lambda>k. (k, PNone)) PLAN_APPROVAL_REQUIRED] = (Inr (), docs') \<and>
     plan_get ''a'' docs' = Inr (Some (a\<lparr>pa_apply_audit := PDict []\<rparr>))"
proof -
  let ?d = "map (\<lambda>k. (k, PNone)) PLAN_APPROVAL_REQUIRED"
  have "\<forall>k \<in> set PLAN_APPROVAL_REQUIRED. map_of (drop_unknown_fields ?d PLAN_APPROVAL_FIELDS) k \<noteq> None"
    by (simp add: map_of_drop_unknown PLAN_APPROVAL_FIELDS_def map_of_map_restrict)
  then obtain a where "plan_get ''a'' [''a'' \<mapsto> ?d] = Inr (Some a)"
    by (simp add: plan_get_def read_plan_approval_def PlanApproval_def dkeys_drop_unknown)
  moreover obtain docs' where "set_apply_audit ''a'' (PDict []) [''a'' \<mapsto> ?d] = (Inr (), docs')"
    by (simp add: set_apply_audit_def)
  ultimately show ?thesis using audit_write_only_audit by blast
qed

section \<open>Artifact integrity\<close>

text \<open>The artifact check passes exactly when both recomputed digests equal the signed ones and these
  have the shape of a SHA-256; otherwise it raises, naming the first artifact that differs.\<close>

theorem artifact_integrity_iff:
  "verify_artifact_integrity sha plan json e1 e2 = Inr () \<longleftrightarrow>
     e1 = PStr (sha plan) \<and> e2 = PStr (sha json) \<and> fullmatch HEX64 (sha plan) \<and> fullmatch HEX64 (sha json)"
proof -
  have ascii: "is_ascii s" if "fullmatch HEX64 s" for s
    using that by (auto simp: hex_digits_iff lower_hex_cls_def is_ascii_def)
  have chk: "check_artifact n actual (PStr s) = Inr () \<longleftrightarrow> s = actual" if "fullmatch HEX64 s" for n actual s
    using ascii [OF that] by (auto simp: check_artifact_def compare_digest_def)
  show ?thesis
    by (auto simp: verify_artifact_integrity_def result_simps chk)
qed

end
