(* ===== verification/RollbackWorker.thy ===== *)
theory RollbackWorker
  imports Approvals Regex "HOL-Library.Char_ord" "HOL-Library.List_Lexorder"
begin

text \<open>
  The rollback worker, \<open>workers/rollback/main.py\<close>: the only service that moves live Cloud Run
  traffic.  Every answer of the Cloud Run API is an input, an exception of the client library
  being its class name.  A handler is a machine whose steps are its interactions with the store or
  the API, so that requests can interleave; \<open>run_exec\<close> runs one to its end.  The world holds the
  approvals collection and the log of the \<open>update_service\<close> calls that were submitted.
\<close>

section \<open>Responses and inputs\<close>

text \<open>The answer to a request; \<open>Unhandled\<close> is an exception that leaves the handler (a 500).\<close>

datatype outcome = Ok pydict | HTTPException nat string | Unhandled string

fun exc_name :: "pyexc \<Rightarrow> string" where
  "exc_name TypeError = ''TypeError''"
| "exc_name (ValueError _) = ''ValueError''"
| "exc_name (KeyError _) = ''KeyError''"
| "exc_name OverflowError = ''OverflowError''"
| "exc_name (AttributeError _) = ''AttributeError''"
| "exc_name (ApiError c) = c"

text \<open>How waiting for the traffic operation ended: it resolved, polling expired, or \<open>result()\<close> raised
  an exception, and then what the operation itself says: \<open>done\<close> and its error code, if it has one.\<close>

datatype wait_result = Resolved | PollTimeout | PollRaised string bool "int option"

record polled_op =
  op_done :: bool
  op_error :: "int option"
  op_has_response :: bool

record cloud_input =
  in_now :: instant
  in_tags :: "(string, string list) res"
  in_update :: "(string, string option) res"
  in_wait :: wait_result
  in_poll :: "(string, polled_op) res"

record traffic_update =
  tu_approval :: string
  tu_revision :: string
  tu_token :: string

record world =
  wd_docs :: docs
  wd_updates :: "traffic_update list"

section \<open>Request schemas\<close>

definition REVISION_NAME :: rx where
  "REVISION_NAME =
     RSeq (RCls lower_cls) (RSeq (rupto 62 (RCls (lower_cls @ digits_cls @ [(45, 45)]))) (RCls (lower_cls @ digits_cls)))"

definition UUID_SHAPE :: rx where
  "UUID_SHAPE =
     RSeq (rrep 8 (RCls hex_cls)) (RSeq (rstr ''-'') (RSeq (rrep 4 (RCls hex_cls)) (RSeq (rstr ''-'')
       (RSeq (rrep 4 (RCls hex_cls)) (RSeq (rstr ''-'') (RSeq (rrep 4 (RCls hex_cls)) (RSeq (rstr ''-'')
         (rrep 12 (RCls hex_cls)))))))))"

text \<open>A string field with length bounds.\<close>

definition str_field :: "pydict \<Rightarrow> string \<Rightarrow> nat \<Rightarrow> nat \<Rightarrow> string option" where
  "str_field body k lo hi =
     (case map_of body k of
        Some (PStr s) \<Rightarrow> if lo \<le> length s \<and> length s \<le> hi then Some s else None
      | _ \<Rightarrow> None)"

definition only_keys :: "pydict \<Rightarrow> string list \<Rightarrow> bool" where
  "only_keys body ks \<longleftrightarrow> set (dkeys body) \<subseteq> set ks"

record execute_request =
  xr_approval_id :: string
  xr_approval_token :: string

definition ExecuteRequest :: "pydict \<Rightarrow> execute_request option" where
  "ExecuteRequest body =
     (case (str_field body ''approval_id'' 36 36, str_field body ''approval_token'' 43 64) of
        (Some i, Some t) \<Rightarrow>
          if only_keys body [''approval_id'', ''approval_token''] \<and> fullmatch UUID_SHAPE i
          then Some \<lparr>xr_approval_id = i, xr_approval_token = t\<rparr> else None
      | _ \<Rightarrow> None)"

definition ReconcileRequest :: "pydict \<Rightarrow> string option" where
  "ReconcileRequest body =
     (case str_field body ''approval_id'' 36 36 of
        Some i \<Rightarrow> if only_keys body [''approval_id''] \<and> fullmatch UUID_SHAPE i then Some i else None
      | None \<Rightarrow> None)"

record propose_request =
  pr_target_revision :: string
  pr_reason :: string
  pr_contract_env :: "(string \<times> string) list option"
  pr_contract_hash :: "string option"

definition str_dict_field :: "pydict \<Rightarrow> string \<Rightarrow> nat \<Rightarrow> (string \<times> string) list option option" where
  "str_dict_field body k hi =
     (case dget body k of
        PNone \<Rightarrow> Some None
      | PDict d \<Rightarrow>
          if length d \<le> hi \<and> list_all (\<lambda>(_, v). is_str v) d
          then Some (Some (map (\<lambda>(n, v). (n, the (as_str v))) d)) else None
      | _ \<Rightarrow> None)"

definition ProposeRequest :: "pydict \<Rightarrow> propose_request option" where
  "ProposeRequest body =
     (case (str_field body ''target_revision'' 1 64, str_field body ''reason'' 1 2000,
            str_dict_field body ''contract_env'' 64,
            if dget body ''contract_hash'' = PNone then Some None
            else map_option Some (str_field body ''contract_hash'' 0 64)) of
        (Some tr, Some rs, Some ce, Some ch) \<Rightarrow>
          if only_keys body [''target_revision'', ''reason'', ''contract_env'', ''contract_hash'']
             \<and> fullmatch REVISION_NAME tr
          then Some \<lparr>pr_target_revision = tr, pr_reason = rs, pr_contract_env = ce, pr_contract_hash = ch\<rparr>
          else None
      | _ \<Rightarrow> None)"

section \<open>Reading the service\<close>

record service_view =
  sv_statuses :: "(int \<times> string) list"
  sv_latest_ready :: string
  sv_revisions :: "string list"

text \<open>The first status that carries all the traffic names the active revision; a target that follows
  the latest revision reports an empty name.\<close>

definition active_revision :: "(int \<times> string) list \<Rightarrow> string \<Rightarrow> string" where
  "active_revision statuses latest =
     (case find (\<lambda>(percent, _). percent = 100) statuses of
        None \<Rightarrow> []
      | Some (_, revision) \<Rightarrow> if revision \<noteq> [] then revision else base_name latest)"

definition list_revisions :: "service_view \<Rightarrow> string list \<times> string" where
  "list_revisions svc =
     (map base_name (sv_revisions svc), active_revision (sv_statuses svc) (sv_latest_ready svc))"

text \<open>An environment variable of a container: a literal value, or a (truthy) value source with the
  secret and version it references, when it references one.\<close>

datatype env_source = Plain string | Sourced "(string \<times> string) option"

type_synonym container = "(string \<times> env_source) list"

datatype env_state = PlainState string | SecretState string

fun env_state_of :: "env_source \<Rightarrow> env_state" where
  "env_state_of (Plain v) = PlainState v"
| "env_state_of (Sourced None) = SecretState ''/''"
| "env_state_of (Sourced (Some (secret, version))) = SecretState (secret @ ''/'' @ version)"

definition revision_env_states :: "container list \<Rightarrow> string \<Rightarrow> env_state option" where
  "revision_env_states containers =
     map_of (rev (map (\<lambda>(n, s). (n, env_state_of s)) (concat containers)))"

definition env_names :: "container list \<Rightarrow> string list" where
  "env_names containers = map fst (concat containers)"

text \<open>The comparison; \<open>read_revision\<close> is the API's answer for one revision, and any failure to read
  gives no snapshot at all.\<close>

definition env_change_snapshot ::
  "(string \<Rightarrow> container list option) \<Rightarrow> string \<Rightarrow> string \<Rightarrow> string \<Rightarrow> (string \<times> string) list option \<Rightarrow>
   string option \<Rightarrow> pyval" where
  "env_change_snapshot read_revision observed_at source_revision target_revision contract_env contract_hash =
     (if source_revision = [] \<or> target_revision = [] then PNone
      else case (read_revision source_revision, read_revision target_revision) of
        (Some sc, Some tc) \<Rightarrow>
          let source = revision_env_states sc; target = revision_env_states tc;
              names = remdups (sort (env_names sc @ env_names tc));
              changed = filter (\<lambda>n. source n \<noteq> target n) names;
              contract_vars = map (\<lambda>(n, expected).
                (n, PDict [(''changed'', PBool (source n \<noteq> target n)),
                           (''target_matches_contract'', PBool (target n = Some (PlainState expected)))]))
                (case contract_env of None \<Rightarrow> [] | Some ce \<Rightarrow> ce)
          in PDict [(''source_revision'', PStr source_revision), (''target_revision'', PStr target_revision),
                    (''observed_at'', PStr observed_at),
                    (''contract_hash'', PStr (case contract_hash of None \<Rightarrow> [] | Some h \<Rightarrow> h)),
                    (''changed_names'', PList (map PStr changed)),
                    (''contract_vars'', PDict contract_vars)]
      | _ \<Rightarrow> PNone)"

definition tagged :: "string list \<Rightarrow> bool" where "tagged tags \<longleftrightarrow> (\<exists>t \<in> set tags. t \<noteq> [])"

definition tag_refusal :: outcome where
  "tag_refusal = HTTPException 409 ''refusing rollback: service has a tagged traffic target''"

definition assert_no_tagged_targets :: "(string, string list) res \<Rightarrow> (outcome, unit) res" where
  "assert_no_tagged_targets r =
     (case r of Inl e \<Rightarrow> Inl (Unhandled e) | Inr tags \<Rightarrow> require (\<not> tagged tags) tag_refusal)"

text \<open>Starting the update reads the service, refuses a tagged target, and only then calls
  \<open>update_service\<close>, which raises or returns the operation.\<close>

datatype start_result = StartRefused outcome nat | StartRaised string | Started "string option"

definition submits_update :: "(string, string list) res \<Rightarrow> bool" where
  "submits_update tags = (case tags of Inl _ \<Rightarrow> False | Inr ts \<Rightarrow> \<not> tagged ts)"

definition start_traffic_update ::
  "(string, string list) res \<Rightarrow> (string, string option) res \<Rightarrow> start_result" where
  "start_traffic_update tags update =
     (case tags of
        Inl e \<Rightarrow> StartRaised e
      | Inr ts \<Rightarrow>
          if tagged ts then StartRefused tag_refusal 409
          else case update of Inl e \<Rightarrow> StartRaised e | Inr op \<Rightarrow> Started op)"

definition is_established_failure :: "bool \<Rightarrow> int option \<Rightarrow> bool" where
  "is_established_failure opdone err \<longleftrightarrow> opdone \<and> (case err of None \<Rightarrow> False | Some c \<Rightarrow> c \<noteq> 0)"

definition operation_name :: "string option \<Rightarrow> string" where
  "operation_name op = (case op of None \<Rightarrow> [] | Some n \<Rightarrow> n)"

section \<open>Execute\<close>

text \<open>The checks that execute and deny share, in the code's order: the document exists, is pending,
  has not expired, and the presented token's HMAC is the stored one.\<close>

definition authorize ::
  "(string \<Rightarrow> string \<Rightarrow> string) \<Rightarrow> string \<Rightarrow> instant \<Rightarrow> string \<Rightarrow> string \<Rightarrow> docs \<Rightarrow> (outcome, approval) res" where
  "authorize mac key now aid token docs =
     (case approval_get aid docs of
        Inl e \<Rightarrow> Inl (Unhandled (exc_name e))
      | Inr None \<Rightarrow> Inl (HTTPException 404 ''approval not found'')
      | Inr (Some a) \<Rightarrow>
          if ap_status a \<noteq> PStr ''pending'' then Inl (HTTPException 403 ''approval status is not pending'')
          else case ap_expires_at a of
            PTime expires \<Rightarrow>
              if expires < now then Inl (HTTPException 403 ''approval expired'')
              else (case compare_digest
                      (compute_token_hmac mac token (ap_id a) (py_str (ap_target_revision a)) key)
                      (ap_token_hmac a) of
                 Inl e \<Rightarrow> Inl (Unhandled (exc_name e))
               | Inr ok \<Rightarrow> if ok then Inr a else Inl (HTTPException 403 ''invalid approval token''))
          | _ \<Rightarrow> Inl (Unhandled ''TypeError''))"

text \<open>The point an execute request has reached.  \<open>XRecord\<close> is a \<open>record_phase\<close> call with its
  arguments, and what follows it.\<close>

datatype exec_pc =
    XAuthorize
  | XPreflight approval
  | XClaim approval
  | XStart approval
  | XRecord string pyval bool exec_pc
  | XWait approval string
  | XDone outcome

definition op_detail :: "string \<Rightarrow> pyval" where
  "op_detail name = PDict [(''operation_name'', PStr name)]"

definition after_start :: "approval \<Rightarrow> start_result \<Rightarrow> exec_pc" where
  "after_start a r =
     (case r of
        StartRefused refusal code \<Rightarrow>
          if code = 409
          then XRecord PHASE_FAILED
                 (PDict [(''stage'', PStr ''preflight''), (''reason'', PStr ''tagged_traffic_target'')]) False
                 (XDone refusal)
          else XRecord PHASE_OUTCOME_UNKNOWN
                 (PDict [(''stage'', PStr ''preflight''), (''status_code'', PInt (int code))]) False
                 (XDone refusal)
      | StartRaised e \<Rightarrow>
          XRecord PHASE_OUTCOME_UNKNOWN (PDict [(''stage'', PStr ''start''), (''error'', PStr e)]) False
            (XDone (HTTPException 502 ''traffic update could not be started; outcome unconfirmed''))
      | Started op \<Rightarrow>
          XRecord PHASE_APPLYING (op_detail (operation_name op)) False (XWait a (operation_name op)))"

definition after_wait :: "string \<Rightarrow> approval \<Rightarrow> string \<Rightarrow> wait_result \<Rightarrow> exec_pc" where
  "after_wait aid a name r =
     (case r of
        PollTimeout \<Rightarrow>
          XRecord PHASE_OUTCOME_UNKNOWN
            (PDict [(''stage'', PStr ''poll''), (''reason'', PStr ''timeout''), (''operation_name'', PStr name)]) False
            (XDone (HTTPException 504 ''rollback still in progress; outcome unconfirmed''))
      | PollRaised e opdone err \<Rightarrow>
          let established = is_established_failure opdone err in
          XRecord (if established then PHASE_FAILED else PHASE_OUTCOME_UNKNOWN)
            (PDict [(''stage'', PStr ''poll''), (''error'', PStr e), (''operation_name'', PStr name)]) False
            (XDone (HTTPException 502 (if established then ''rollback failed'' else ''rollback outcome unconfirmed'')))
      | Resolved \<Rightarrow>
          XRecord PHASE_APPLIED (op_detail name) True
            (XDone (Ok [(''approval_id'', PStr aid), (''target_revision'', ap_target_revision a),
                        (''status'', PStr ''executed''), (''operation_name'', PStr name)])))"

definition exec_claim :: "instant \<Rightarrow> string \<Rightarrow> approval \<Rightarrow> docs \<Rightarrow> exec_pc \<times> docs" where
  "exec_claim now aid a docs =
     (case claim_pending now aid docs of
        (Inl e, docs') \<Rightarrow> (XDone (Unhandled (exc_name e)), docs')
      | (Inr None, docs') \<Rightarrow> (XDone (HTTPException 403 ''approval already used or revoked''), docs')
      | (Inr (Some _), docs') \<Rightarrow> (XStart a, docs'))"

definition exec_record ::
  "instant \<Rightarrow> string \<Rightarrow> string \<Rightarrow> pyval \<Rightarrow> bool \<Rightarrow> exec_pc \<Rightarrow> docs \<Rightarrow> exec_pc \<times> docs" where
  "exec_record now aid phase detail stamp next docs =
     (case record_phase now aid phase detail (if stamp then Some now else None) docs of
        (Inl e, docs') \<Rightarrow> (XDone (Unhandled (exc_name e)), docs')
      | (Inr _, docs') \<Rightarrow> (next, docs'))"

definition exec_step ::
  "(string \<Rightarrow> string \<Rightarrow> string) \<Rightarrow> string \<Rightarrow> string \<Rightarrow> string \<Rightarrow> cloud_input \<Rightarrow> exec_pc \<Rightarrow> world \<Rightarrow> exec_pc \<times> world" where
  "exec_step mac key aid token inp pc w =
     (case pc of
        XAuthorize \<Rightarrow>
          (case authorize mac key (in_now inp) aid token (wd_docs w) of Inl r \<Rightarrow> XDone r | Inr a \<Rightarrow> XPreflight a, w)
      | XPreflight a \<Rightarrow>
          (case assert_no_tagged_targets (in_tags inp) of Inl r \<Rightarrow> XDone r | Inr _ \<Rightarrow> XClaim a, w)
      | XClaim a \<Rightarrow>
          (let (pc', docs') = exec_claim (in_now inp) aid a (wd_docs w) in (pc', w\<lparr>wd_docs := docs'\<rparr>))
      | XStart a \<Rightarrow>
          (after_start a (start_traffic_update (in_tags inp) (in_update inp)),
           if submits_update (in_tags inp)
           then w\<lparr>wd_updates := wd_updates w @
                  [\<lparr>tu_approval = aid, tu_revision = py_str (ap_target_revision a), tu_token = token\<rparr>]\<rparr>
           else w)
      | XRecord phase detail stamp next \<Rightarrow>
          (let (pc', docs') = exec_record (in_now inp) aid phase detail stamp next (wd_docs w)
           in (pc', w\<lparr>wd_docs := docs'\<rparr>))
      | XWait a name \<Rightarrow> (after_wait aid a name (in_wait inp), w)
      | XDone r \<Rightarrow> (pc, w))"

text \<open>One request run alone, one input per step.\<close>

fun run_exec ::
  "(string \<Rightarrow> string \<Rightarrow> string) \<Rightarrow> string \<Rightarrow> string \<Rightarrow> string \<Rightarrow> cloud_input list \<Rightarrow> exec_pc \<Rightarrow> world \<Rightarrow> exec_pc \<times> world" where
  "run_exec mac key aid token [] pc w = (pc, w)"
| "run_exec mac key aid token (inp # inps) pc w =
     (let (pc', w') = exec_step mac key aid token inp pc w in run_exec mac key aid token inps pc' w')"

definition execute ::
  "(string \<Rightarrow> string \<Rightarrow> string) \<Rightarrow> string \<Rightarrow> execute_request \<Rightarrow> cloud_input list \<Rightarrow> world \<Rightarrow> exec_pc \<times> world" where
  "execute mac key req inps w =
     run_exec mac key (xr_approval_id req) (xr_approval_token req) inps XAuthorize w"

section \<open>Deny\<close>

datatype deny_pc = DAuthorize | DClaim | DDone outcome

definition deny_claim :: "instant \<Rightarrow> string \<Rightarrow> docs \<Rightarrow> deny_pc \<times> docs" where
  "deny_claim now aid docs =
     (case claim_denied now aid docs of
        (Inl e, docs') \<Rightarrow> (DDone (Unhandled (exc_name e)), docs')
      | (Inr None, docs') \<Rightarrow> (DDone (HTTPException 403 ''approval already used or revoked''), docs')
      | (Inr (Some _), docs') \<Rightarrow>
          (DDone (Ok [(''approval_id'', PStr aid), (''status'', PStr ''denied'')]), docs'))"

definition deny_step ::
  "(string \<Rightarrow> string \<Rightarrow> string) \<Rightarrow> string \<Rightarrow> string \<Rightarrow> string \<Rightarrow> cloud_input \<Rightarrow> deny_pc \<Rightarrow> world \<Rightarrow> deny_pc \<times> world" where
  "deny_step mac key aid token inp pc w =
     (case pc of
        DAuthorize \<Rightarrow>
          (case authorize mac key (in_now inp) aid token (wd_docs w) of Inl r \<Rightarrow> DDone r | Inr a \<Rightarrow> DClaim, w)
      | DClaim \<Rightarrow>
          (let (pc', docs') = deny_claim (in_now inp) aid (wd_docs w) in (pc', w\<lparr>wd_docs := docs'\<rparr>))
      | DDone r \<Rightarrow> (pc, w))"

section \<open>Reconcile\<close>

datatype recon_pc =
    RRead
  | RPoll pyval pyval
  | RRecord string pyval outcome
  | RDone outcome

definition recon_answer :: "string \<Rightarrow> pyval \<Rightarrow> bool \<Rightarrow> outcome" where
  "recon_answer aid phase reconciled =
     Ok [(''approval_id'', PStr aid), (''phase'', phase), (''reconciled'', PBool reconciled)]"

text \<open>\<open>(v or {}).get(k)\<close>.\<close>

definition or_empty_get :: "pyval \<Rightarrow> string \<Rightarrow> (outcome, pyval) res" where
  "or_empty_get v k =
     (case py_or v (PDict []) of PDict d \<Rightarrow> Inr (dget d k) | _ \<Rightarrow> Inl (Unhandled ''AttributeError''))"

definition recon_read :: "string \<Rightarrow> docs \<Rightarrow> recon_pc" where
  "recon_read aid docs =
     (case approval_get aid docs of
        Inl e \<Rightarrow> RDone (Unhandled (exc_name e))
      | Inr None \<Rightarrow> RDone (HTTPException 404 ''approval not found'')
      | Inr (Some a) \<Rightarrow>
          (case rbind (or_empty_get (ap_apply_audit a) ''phase'') (\<lambda>phase.
                case in_set phase TERMINAL_ROLLBACK_PHASES of
                  Inl e \<Rightarrow> Inl (Unhandled (exc_name e))
                | Inr True \<Rightarrow> Inl (recon_answer aid phase False)
                | Inr False \<Rightarrow>
                    rbind (or_empty_get (ap_apply_audit a) ''detail'') (\<lambda>detail.
                    rbind (or_empty_get detail ''operation_name'') (\<lambda>name.
                    if truthy name then Inr (phase, name) else Inl (recon_answer aid phase False)))) of
             Inl r \<Rightarrow> RDone r
           | Inr (phase, name) \<Rightarrow> RPoll phase name))"

definition recon_poll :: "string \<Rightarrow> pyval \<Rightarrow> pyval \<Rightarrow> (string, polled_op) res \<Rightarrow> recon_pc" where
  "recon_poll aid phase name r =
     (case r of
        Inl e \<Rightarrow> RDone (recon_answer aid phase False)
      | Inr op \<Rightarrow>
          if \<not> op_done op then RDone (recon_answer aid phase False)
          else if op_error op \<noteq> None \<and> op_error op \<noteq> Some 0
          then RRecord PHASE_FAILED
                 (PDict [(''stage'', PStr ''reconcile''), (''operation_name'', name),
                         (''error_code'', PInt (the (op_error op)))])
                 (recon_answer aid (PStr PHASE_FAILED) True)
          else if \<not> op_has_response op then RDone (recon_answer aid phase False)
          else RRecord PHASE_APPLIED (PDict [(''stage'', PStr ''reconcile''), (''operation_name'', name)])
                 (recon_answer aid (PStr PHASE_APPLIED) True))"

definition recon_step :: "string \<Rightarrow> cloud_input \<Rightarrow> recon_pc \<Rightarrow> world \<Rightarrow> recon_pc \<times> world" where
  "recon_step aid inp pc w =
     (case pc of
        RRead \<Rightarrow> (recon_read aid (wd_docs w), w)
      | RPoll phase name \<Rightarrow> (recon_poll aid phase name (in_poll inp), w)
      | RRecord phase detail answer \<Rightarrow>
          (case record_phase (in_now inp) aid phase detail None (wd_docs w) of
             (Inl e, docs') \<Rightarrow> (RDone (Unhandled (exc_name e)), w\<lparr>wd_docs := docs'\<rparr>)
           | (Inr _, docs') \<Rightarrow> (RDone answer, w\<lparr>wd_docs := docs'\<rparr>))
      | RDone r \<Rightarrow> (pc, w))"

section \<open>Propose\<close>

text \<open>\<open>isoformat()\<close> of a UTC datetime, with microseconds when it has any.\<close>

definition iso_micro :: "instant \<Rightarrow> string" where
  "iso_micro t =
     (let u = t mod 1000000 in
      take 19 (iso_utc t) @ (if u = 0 then [] else ''.'' @ drop 1 (show_nat (1000000 + u))) @ ''+00:00'')"

record worker_env =
  we_coordinator_url :: string
  we_target_service :: string
  we_hmac_key :: string

record propose_input =
  pi_service :: "(string, service_view) res"
  pi_revision :: "string \<Rightarrow> container list option"
  pi_now :: instant
  pi_observed :: instant
  pi_approval_id :: string
  pi_token :: string

definition propose ::
  "(string \<Rightarrow> string \<Rightarrow> string) \<Rightarrow> worker_env \<Rightarrow> propose_input \<Rightarrow> string \<Rightarrow> propose_request \<Rightarrow> docs \<Rightarrow> outcome \<times> docs" where
  "propose mac env inp caller req docs =
     (case pi_service inp of
        Inl e \<Rightarrow> (Unhandled e, docs)
      | Inr svc \<Rightarrow>
          let (revisions, active) = list_revisions svc; target = pr_target_revision req in
          if target = active then (HTTPException 400 ''target_revision is currently active'', docs)
          else if target \<notin> set revisions then (HTTPException 404 ''target_revision not found in service'', docs)
          else
            let snapshot = env_change_snapshot (pi_revision inp) (iso_micro (pi_observed inp)) active target
                             (pr_contract_env req) (pr_contract_hash req)
            in (case approval_create mac (pi_now inp) (pi_approval_id inp) (pi_token inp) target (pr_reason req)
                      (we_hmac_key env) caller 15 snapshot docs of
                  (Inl e, docs') \<Rightarrow> (Unhandled (exc_name e), docs')
                | (Inr (a, raw_token), docs') \<Rightarrow>
                    (Ok [(''approval_id'', PStr (ap_id a)), (''approval_token'', PStr raw_token),
                         (''approval_url'', PStr (we_coordinator_url env @ ''/approvals/'' @ ap_id a @ ''?t='' @ raw_token)),
                         (''expires_at'', PStr (case ap_expires_at a of PTime t \<Rightarrow> iso_micro t | _ \<Rightarrow> []))], docs')))"

section \<open>Execute ends\<close>

text \<open>The number of interactions a request still needs at most.\<close>

fun exec_depth :: "exec_pc \<Rightarrow> nat" where
  "exec_depth XAuthorize = 7"
| "exec_depth (XPreflight _) = 6"
| "exec_depth (XClaim _) = 5"
| "exec_depth (XStart _) = 4"
| "exec_depth (XRecord _ _ _ next) = Suc (exec_depth next)"
| "exec_depth (XWait _ _) = 2"
| "exec_depth (XDone _) = 0"

lemma exec_depth_0: "exec_depth pc = 0 \<longleftrightarrow> (\<exists>r. pc = XDone r)"
  by (cases pc) auto

lemma exec_claim_depth: "exec_claim now aid a docs = (pc, docs') \<Longrightarrow> exec_depth pc \<le> 4"
  by (auto simp: exec_claim_def split: prod.splits sum.splits option.splits)

lemma exec_record_depth: "exec_record now aid p d s nx docs = (pc, docs') \<Longrightarrow> exec_depth pc \<le> exec_depth nx"
  by (auto simp: exec_record_def split: prod.splits sum.splits)

lemma after_start_depth: "exec_depth (after_start a r) \<le> 3"
  by (cases r) (auto simp: after_start_def)

lemma after_wait_depth: "exec_depth (after_wait aid a n r) \<le> Suc 0"
  by (cases r) (auto simp: after_wait_def Let_def)

lemma exec_step_depth:
  "exec_step mac key aid token inp pc w = (pc', w') \<Longrightarrow> exec_depth pc' \<le> exec_depth pc - 1"
  by (cases pc) (auto simp: exec_step_def after_start_depth after_wait_depth
      dest: exec_claim_depth exec_record_depth split: sum.splits prod.splits)

lemma run_exec_depth: "exec_depth (fst (run_exec mac key aid token inps pc w)) \<le> exec_depth pc - length inps"
proof (induction inps arbitrary: pc w)
  case (Cons inp inps)
  obtain pc' w' where s: "exec_step mac key aid token inp pc w = (pc', w')" by force
  with exec_step_depth [OF s] Cons.IH [of pc' w'] show ?case by simp
qed simp

text \<open>Whatever the store and the Cloud Run API answer, an execute request is answered after at most
  seven interactions: no answer leaves it running.\<close>

theorem execute_ends:
  assumes "7 \<le> length inps"
  shows "\<exists>r. fst (execute mac key req inps w) = XDone r"
  using run_exec_depth [of mac key "xr_approval_id req" "xr_approval_token req" inps XAuthorize w] assms
  by (simp add: execute_def flip: exec_depth_0)

theorem execute_ends_witness:
  "\<exists>r. fst (execute (\<lambda>k m. m) ''key'' \<lparr>xr_approval_id = ''a'', xr_approval_token = ''t''\<rparr>
     (replicate 7 \<lparr>in_now = 0, in_tags = Inr [], in_update = Inr None, in_wait = Resolved, in_poll = Inl ''E''\<rparr>)
     \<lparr>wd_docs = Map.empty, wd_updates = []\<rparr>) = XDone r"
  by (rule execute_ends) simp

section \<open>The recorded outcome is honest\<close>

text \<open>An approval right after its claim.\<close>

definition just_claimed :: "pydict \<Rightarrow> bool" where
  "just_claimed d \<longleftrightarrow>
     dget d ''status'' = PStr ''used'' \<and> audit_phase d = PStr PHASE_CLAIMED \<and> dget d ''resolved_at'' = PNone"

text \<open>The traffic operation was sent and accepted, and how it then ended.\<close>

definition accepted :: "cloud_input \<Rightarrow> bool" where
  "accepted s \<longleftrightarrow> submits_update (in_tags s) \<and> (\<exists>op. in_update s = Inr op)"

definition reported_failed :: "wait_result \<Rightarrow> bool" where
  "reported_failed r \<longleftrightarrow>
     (case r of PollRaised _ opdone err \<Rightarrow> is_established_failure opdone err | _ \<Rightarrow> False)"

definition refused_before_sending :: "cloud_input \<Rightarrow> bool" where
  "refused_before_sending s \<longleftrightarrow> (\<exists>ts. in_tags s = Inr ts \<and> tagged ts)"

text \<open>The phase that the inputs of the start and of the wait justify.\<close>

definition justified_phase :: "cloud_input \<Rightarrow> cloud_input \<Rightarrow> string" where
  "justified_phase s wt =
     (if accepted s \<and> in_wait wt = Resolved then PHASE_APPLIED
      else if refused_before_sending s \<or> (accepted s \<and> reported_failed (in_wait wt)) then PHASE_FAILED
      else PHASE_OUTCOME_UNKNOWN)"

definition doc_phase :: "world \<Rightarrow> string \<Rightarrow> pyval" where
  "doc_phase w aid = (case wd_docs w aid of None \<Rightarrow> PNone | Some d \<Rightarrow> audit_phase d)"

definition doc_resolved :: "world \<Rightarrow> string \<Rightarrow> pyval" where
  "doc_resolved w aid = (case wd_docs w aid of None \<Rightarrow> PNone | Some d \<Rightarrow> dget d ''resolved_at'')"

lemma phase_names:
  "PHASE_FAILED \<in> set ROLLBACK_PHASES" "PHASE_OUTCOME_UNKNOWN \<in> set ROLLBACK_PHASES"
  "PHASE_APPLYING \<in> set ROLLBACK_PHASES" "PHASE_APPLIED \<in> set ROLLBACK_PHASES"
  "PHASE_CLAIMED \<notin> set TERMINAL_ROLLBACK_PHASES" "PHASE_APPLYING \<notin> set TERMINAL_ROLLBACK_PHASES"
  by (simp_all add: ROLLBACK_PHASES_def TERMINAL_ROLLBACK_PHASES_def phase_defs)

lemma exec_record_eq:
  assumes "docs aid = Some d" and "audit_phase d = PStr p" and "p \<notin> set TERMINAL_ROLLBACK_PHASES"
    and "phase \<in> set ROLLBACK_PHASES" and "stamp \<longrightarrow> phase = PHASE_APPLIED"
  shows "exec_record now aid phase (PDict detail) stamp nx docs =
     (nx, docs(aid \<mapsto>
        (if stamp then dput (dput d ''apply_audit'' (PDict (new_audit now phase (PDict detail)))) ''resolved_at'' (PTime now)
         else dput d ''apply_audit'' (PDict (new_audit now phase (PDict detail))))))"
  using assms by (auto simp: exec_record_def record_phase_def record_phase_txn_def)

text \<open>One recording step of a running request, seen from the document.\<close>

lemma exec_step_record:
  assumes "wd_docs w aid = Some d" and "audit_phase d = PStr p" and "p \<notin> set TERMINAL_ROLLBACK_PHASES"
    and "phase \<in> set ROLLBACK_PHASES" and "stamp \<longrightarrow> phase = PHASE_APPLIED"
  shows "\<exists>d'. exec_step mac key aid token inp (XRecord phase (PDict detail) stamp nx) w =
       (nx, w\<lparr>wd_docs := (wd_docs w)(aid \<mapsto> d')\<rparr>) \<and> audit_phase d' = PStr phase \<and>
       dget d' ''resolved_at'' = (if stamp then PTime (in_now inp) else dget d ''resolved_at'')"
  using exec_record_eq [of "wd_docs w" aid d p phase stamp "in_now inp" detail nx] assms
  by (auto simp: exec_step_def)

lemma exec_step_XDone: "exec_step mac key aid token inp (XDone r) w = (XDone r, w)"
  by (simp add: exec_step_def)

text \<open>The recorded phase after the last recording step.\<close>

lemma record_then_done:
  assumes "wd_docs w aid = Some d" and "audit_phase d = PStr p" and "p \<notin> set TERMINAL_ROLLBACK_PHASES"
    and "phase \<in> set ROLLBACK_PHASES" and "stamp \<longrightarrow> phase = PHASE_APPLIED"
    and "exec_step mac key aid token inp (XRecord phase (PDict detail) stamp (XDone r)) w = (pc', w')"
  shows "pc' = XDone r \<and> doc_phase w' aid = PStr phase \<and>
     doc_resolved w' aid = (if stamp then PTime (in_now inp) else dget d ''resolved_at'')"
  using exec_step_record [OF assms(1-5), of mac key token inp detail "XDone r"] assms(6)
  by (auto simp: doc_phase_def doc_resolved_def)

lemma after_wait_shape:
  obtains detail r where "after_wait aid a n wr =
     XRecord (if wr = Resolved then PHASE_APPLIED else if reported_failed wr then PHASE_FAILED else PHASE_OUTCOME_UNKNOWN)
       (PDict detail) (wr = Resolved) (XDone r)"
  by (cases wr) (auto simp: after_wait_def reported_failed_def op_detail_def Let_def)

lemma start_not_accepted:
  assumes "\<not> accepted s"
  obtains detail r where "after_start a (start_traffic_update (in_tags s) (in_update s)) =
     XRecord (if refused_before_sending s then PHASE_FAILED else PHASE_OUTCOME_UNKNOWN) (PDict detail) False (XDone r)"
proof (cases "in_tags s")
  case (Inr ts)
  then show ?thesis
    using assms that by (cases "tagged ts"; cases "in_update s")
      (auto simp: after_start_def start_traffic_update_def accepted_def submits_update_def refused_before_sending_def)
qed (use that in \<open>auto simp: after_start_def start_traffic_update_def refused_before_sending_def\<close>)

lemma start_accepted:
  assumes "accepted s"
  obtains n where "after_start a (start_traffic_update (in_tags s) (in_update s)) =
     XRecord PHASE_APPLYING (op_detail n) False (XWait a n)"
  using assms
  by (auto simp: after_start_def start_traffic_update_def accepted_def submits_update_def
      split: sum.splits if_splits)

lemma accepted_not_refused: "accepted s \<Longrightarrow> \<not> refused_before_sending s"
  by (auto simp: accepted_def refused_before_sending_def submits_update_def split: sum.splits)

text \<open>C18: The recorded outcome claims exactly what is established.  After the claim, and whatever Cloud
  Run answers: the phase ends as \<open>applied\<close> iff the accepted operation resolved; as \<open>failed\<close> only if
  nothing was sent or the operation itself reports an error; every other path, a lost response
  included, is \<open>outcome_unknown\<close>; and only \<open>applied\<close> is stamped with a resolution time.\<close>

theorem outcome_is_honest:
  assumes "wd_docs w aid = Some d" and "just_claimed d"
    and "run_exec mac key aid token [s, r1, wt, r2] (XStart a) w = (pc', w')"
  shows "doc_phase w' aid = PStr (justified_phase s wt) \<and>
     (doc_resolved w' aid \<noteq> PNone \<longleftrightarrow> accepted s \<and> in_wait wt = Resolved) \<and> (\<exists>r. pc' = XDone r)"
proof -
  from assms(2) have c: "audit_phase d = PStr PHASE_CLAIMED" "dget d ''resolved_at'' = PNone"
    by (simp_all add: just_claimed_def)
  obtain w1 where s: "exec_step mac key aid token s (XStart a) w =
      (after_start a (start_traffic_update (in_tags s) (in_update s)), w1)" and w1: "wd_docs w1 aid = Some d"
    using assms(1) by (auto simp: exec_step_def)
  show ?thesis
  proof (cases "accepted s")
    case False
    then obtain detail r where
      n: "after_start a (start_traffic_update (in_tags s) (in_update s)) =
        XRecord (if refused_before_sending s then PHASE_FAILED else PHASE_OUTCOME_UNKNOWN) (PDict detail) False (XDone r)"
      by (rule start_not_accepted)
    obtain pc2 w2 where r: "exec_step mac key aid token r1
        (XRecord (if refused_before_sending s then PHASE_FAILED else PHASE_OUTCOME_UNKNOWN) (PDict detail) False (XDone r)) w1
        = (pc2, w2)" by force
    from record_then_done [OF w1 c(1) phase_names(5) _ _ r] have
      "pc2 = XDone r" "doc_phase w2 aid = PStr (justified_phase s wt)" "doc_resolved w2 aid = PNone"
      using False c(2) phase_names by (auto simp: justified_phase_def)
    with assms(3) s n r False show ?thesis by (auto simp: exec_step_XDone)
  next
    case True
    then obtain n where n: "after_start a (start_traffic_update (in_tags s) (in_update s)) =
        XRecord PHASE_APPLYING (op_detail n) False (XWait a n)" by (rule start_accepted)
    obtain d2 where r: "exec_step mac key aid token r1 (XRecord PHASE_APPLYING (op_detail n) False (XWait a n)) w1 =
        (XWait a n, w1\<lparr>wd_docs := (wd_docs w1)(aid \<mapsto> d2)\<rparr>)"
      and d2: "audit_phase d2 = PStr PHASE_APPLYING" "dget d2 ''resolved_at'' = PNone"
      using exec_step_record [OF w1 c(1) phase_names(5,3), of False mac key token r1] c(2)
      by (auto simp: op_detail_def)
    let ?w2 = "w1\<lparr>wd_docs := (wd_docs w1)(aid \<mapsto> d2)\<rparr>"
    obtain detail q where aw: "after_wait aid a n (in_wait wt) =
       XRecord (if in_wait wt = Resolved then PHASE_APPLIED else if reported_failed (in_wait wt) then PHASE_FAILED
                else PHASE_OUTCOME_UNKNOWN) (PDict detail) (in_wait wt = Resolved) (XDone q)"
      by (rule after_wait_shape)
    have wstep: "exec_step mac key aid token wt (XWait a n) ?w2 = (after_wait aid a n (in_wait wt), ?w2)"
      by (simp add: exec_step_def)
    obtain pc3 w3 where f: "exec_step mac key aid token r2 (after_wait aid a n (in_wait wt)) ?w2 = (pc3, w3)" by force
    have "wd_docs ?w2 aid = Some d2" by simp
    from record_then_done [OF this d2(1) phase_names(6) _ _ f [unfolded aw]] have
      "pc3 = XDone q" "doc_phase w3 aid = PStr (justified_phase s wt)"
      "doc_resolved w3 aid \<noteq> PNone \<longleftrightarrow> in_wait wt = Resolved"
      using True d2(2) phase_names accepted_not_refused [OF True] by (auto simp: justified_phase_def)
    with assms(3) s n r wstep f True show ?thesis by auto
  qed
qed

definition claimed_doc :: pydict where
  "claimed_doc = [(''status'', PStr ''used''), (''apply_audit'', claimed_audit 0)]"

theorem outcome_is_honest_witness:
  "\<exists>pc' w'. run_exec (\<lambda>k m. m) ''k'' ''a'' ''t''
       [\<lparr>in_now = 1, in_tags = Inr [[]], in_update = Inr (Some ''op''), in_wait = Resolved, in_poll = Inl ''E''\<rparr>,
        \<lparr>in_now = 2, in_tags = Inr [], in_update = Inr None, in_wait = Resolved, in_poll = Inl ''E''\<rparr>,
        \<lparr>in_now = 3, in_tags = Inr [], in_update = Inr None, in_wait = PollTimeout, in_poll = Inl ''E''\<rparr>,
        \<lparr>in_now = 4, in_tags = Inr [], in_update = Inr None, in_wait = Resolved, in_poll = Inl ''E''\<rparr>]
       (XStart (approval_of ''a'' claimed_doc)) \<lparr>wd_docs = [''a'' \<mapsto> claimed_doc], wd_updates = []\<rparr> = (pc', w') \<and>
     doc_phase w' ''a'' = PStr PHASE_OUTCOME_UNKNOWN"
proof -
  let ?s = "\<lparr>in_now = 1, in_tags = Inr [[]], in_update = Inr (Some ''op''), in_wait = Resolved, in_poll = Inl ''E''\<rparr>"
  let ?r1 = "\<lparr>in_now = 2, in_tags = Inr [], in_update = Inr None, in_wait = Resolved, in_poll = Inl ''E''\<rparr>"
  let ?w = "\<lparr>in_now = 3, in_tags = Inr [], in_update = Inr None, in_wait = PollTimeout, in_poll = Inl ''E''\<rparr>"
  let ?r2 = "\<lparr>in_now = 4, in_tags = Inr [], in_update = Inr None, in_wait = Resolved, in_poll = Inl ''E''\<rparr>"
  let ?world = "\<lparr>wd_docs = [''a'' \<mapsto> claimed_doc], wd_updates = []\<rparr>"
  have d: "wd_docs ?world ''a'' = Some claimed_doc" "just_claimed claimed_doc"
    by (simp_all add: just_claimed_def claimed_doc_def audit_phase_def claimed_audit_def py_or_def)
  obtain pc' w' where r: "run_exec (\<lambda>k m. m) ''k'' ''a'' ''t'' [?s, ?r1, ?w, ?r2]
      (XStart (approval_of ''a'' claimed_doc)) ?world = (pc', w')" by force
  have "justified_phase ?s ?w = PHASE_OUTCOME_UNKNOWN"
    by (simp add: justified_phase_def accepted_def refused_before_sending_def submits_update_def tagged_def
        reported_failed_def)
  with outcome_is_honest [OF d r] r show ?thesis by simp
qed

section \<open>Propose\<close>

text \<open>A proposal is only recorded for an existing revision that is not the one serving, also when the
  service follows its latest revision and reports an empty name for it: the answer is then 400, 404
  or an error and the collection is unchanged.  A recorded approval is for the requested revision.\<close>

theorem propose_guards_target:
  assumes "propose mac env inp caller req docs = (r, docs')" and "docs' \<noteq> docs"
  shows "\<exists>svc d. pi_service inp = Inr svc \<and>
     pr_target_revision req \<in> base_name ` set (sv_revisions svc) \<and>
     pr_target_revision req \<noteq> active_revision (sv_statuses svc) (sv_latest_ready svc) \<and>
     docs' = docs(pi_approval_id inp \<mapsto> d) \<and> dget d ''target_revision'' = PStr (pr_target_revision req) \<and>
     dget d ''status'' = PStr ''pending''"
proof -
  obtain svc where svc: "pi_service inp = Inr svc"
    using assms by (cases "pi_service inp") (auto simp: propose_def)
  let ?snap = "env_change_snapshot (pi_revision inp) (iso_micro (pi_observed inp))
    (active_revision (sv_statuses svc) (sv_latest_ready svc)) (pr_target_revision req)
    (pr_contract_env req) (pr_contract_hash req)"
  from assms svc have g: "pr_target_revision req \<in> base_name ` set (sv_revisions svc)"
    "pr_target_revision req \<noteq> active_revision (sv_statuses svc) (sv_latest_ready svc)"
    "docs' = snd (approval_create mac (pi_now inp) (pi_approval_id inp) (pi_token inp) (pr_target_revision req)
        (pr_reason req) (we_hmac_key env) caller 15 ?snap docs)"
    by (auto simp: propose_def list_revisions_def Let_def split: if_splits prod.splits sum.splits)
  let ?d = "\<lambda>exp. create_data mac (pi_now inp) (pi_approval_id inp) (pi_token inp)
      (pr_target_revision req) (pr_reason req) (we_hmac_key env) caller exp ?snap"
  from g(3) assms(2) obtain exp where e: "docs' = docs(pi_approval_id inp \<mapsto> ?d exp)"
    using ap_step_create [of mac "pi_now inp" "pi_approval_id inp" "pi_token inp" "pr_target_revision req"
        "pr_reason req" "we_hmac_key env" caller 15 ?snap docs] by auto
  have "dget (?d exp) ''target_revision'' = PStr (pr_target_revision req)" "dget (?d exp) ''status'' = PStr ''pending''"
    by (simp_all add: create_data_def)
  with svc g(1,2) e show ?thesis by blast
qed

definition demo_service :: service_view where
  "demo_service = \<lparr>sv_statuses = [(100, [])], sv_latest_ready = ''projects/p/revisions/demo-00002-bbb'',
     sv_revisions = [''projects/p/revisions/demo-00002-bbb'', ''projects/p/revisions/demo-00001-aaa'']\<rparr>"

theorem propose_guards_target_witness:
  "\<exists>r docs'. propose (\<lambda>k m. m) \<lparr>we_coordinator_url = ''u'', we_target_service = ''demo'', we_hmac_key = ''k''\<rparr>
       \<lparr>pi_service = Inr demo_service, pi_revision = (\<lambda>_. None), pi_now = 0, pi_observed = 0,
        pi_approval_id = ''id'', pi_token = ''tok''\<rparr> ''c''
       \<lparr>pr_target_revision = ''demo-00001-aaa'', pr_reason = ''r'', pr_contract_env = None, pr_contract_hash = None\<rparr>
       Map.empty = (r, docs') \<and> (\<exists>d. docs' ''id'' = Some d \<and> dget d ''target_revision'' = PStr ''demo-00001-aaa'')"
proof -
  let ?env = "\<lparr>we_coordinator_url = ''u'', we_target_service = ''demo'', we_hmac_key = ''k''\<rparr>"
  let ?inp = "\<lparr>pi_service = Inr demo_service, pi_revision = (\<lambda>_. None), pi_now = 0, pi_observed = 0,
        pi_approval_id = ''id'', pi_token = ''tok''\<rparr>"
  let ?req = "\<lparr>pr_target_revision = ''demo-00001-aaa'', pr_reason = ''r'', pr_contract_env = None, pr_contract_hash = None\<rparr>"
  obtain r docs' where p: "propose (\<lambda>k m. m) ?env ?inp ''c'' ?req Map.empty = (r, docs')" by force
  then have "docs' \<noteq> Map.empty"
    by (auto simp: propose_def demo_service_def list_revisions_def active_revision_def base_name_def Let_def
        approval_create_def add_minutes_def max_day_def usec_per_day_def env_change_snapshot_def create_data_Approval)
  from propose_guards_target [OF p this] p show ?thesis by auto
qed

section \<open>The change snapshot\<close>

definition rename_env :: "(string \<Rightarrow> string) \<Rightarrow> container list \<Rightarrow> container list" where
  "rename_env f = map (map (\<lambda>(n, s). (n, case s of Plain v \<Rightarrow> Plain (f v) | _ \<Rightarrow> s)))"

definition rename_state :: "(string \<Rightarrow> string) \<Rightarrow> env_state \<Rightarrow> env_state" where
  "rename_state f s = (case s of PlainState v \<Rightarrow> PlainState (f v) | _ \<Rightarrow> s)"

lemma rename_state_inj: "inj f \<Longrightarrow> rename_state f a = rename_state f b \<longleftrightarrow> a = b"
  by (cases a; cases b) (auto simp: rename_state_def inj_eq)

lemma env_states_rename: "revision_env_states (rename_env f cs) n = map_option (rename_state f) (revision_env_states cs n)"
proof -
  have st: "env_state_of (case s of Plain v \<Rightarrow> Plain (f v) | _ \<Rightarrow> s) = rename_state f (env_state_of s)" for s
    by (cases s rule: env_state_of.cases) (auto simp: rename_state_def)
  have c: "concat (rename_env f cs) = map (\<lambda>(n, s). (n, case s of Plain v \<Rightarrow> Plain (f v) | _ \<Rightarrow> s)) (concat cs)"
    by (induction cs) (auto simp: rename_env_def)
  have "map (\<lambda>(n, s). (n, env_state_of s)) (concat (rename_env f cs)) =
      map (\<lambda>(n, s). (n, rename_state f s)) (map (\<lambda>(n, s). (n, env_state_of s)) (concat cs))"
    unfolding c by (auto simp: st)
  then show ?thesis by (simp add: revision_env_states_def map_of_map rev_map del: map_map)
qed

lemma env_names_rename: "env_names (rename_env f cs) = env_names cs"
  by (induction cs) (auto simp: env_names_def rename_env_def)

text \<open>No observed value leaves in the snapshot: renaming every literal environment value of both
  revisions, and the contract's expected values alike, by any one-to-one renaming leaves the
  snapshot exactly the same, so it carries equalities between values and nothing else of them.\<close>

theorem snapshot_value_free:
  assumes "inj f"
  shows "env_change_snapshot (\<lambda>r. map_option (rename_env f) (read_revision r)) observed src tgt
       (map_option (map (\<lambda>(n, v). (n, f v))) contract_env) contract_hash =
     env_change_snapshot read_revision observed src tgt contract_env contract_hash"
proof (cases "read_revision src"; cases "read_revision tgt")
  fix sc tc assume r: "read_revision src = Some sc" "read_revision tgt = Some tc"
  have inj: "map_option (rename_state f) x = map_option (rename_state f) y \<longleftrightarrow> x = y" for x y
    by (cases x; cases y) (simp_all add: rename_state_inj assms)
  have plain: "(\<exists>z. x = Some z \<and> rename_state f z = PlainState (f v)) \<longleftrightarrow> x = Some (PlainState v)" for x v
    using inj [of x "Some (PlainState v)"] by (cases x) (simp_all add: rename_state_def)
  show ?thesis
    by (cases contract_env)
      (simp_all add: env_change_snapshot_def r Let_def env_states_rename env_names_rename inj plain comp_def case_prod_beta)
qed (simp_all add: env_change_snapshot_def)

theorem snapshot_value_free_witness:
  "env_change_snapshot (\<lambda>r. map_option (rename_env (\<lambda>v. CHR ''x'' # v)) (Some [[(''MODE'', Plain r)]])) ''now'' ''a'' ''b''
       (map_option (map (\<lambda>(n, v). (n, CHR ''x'' # v))) (Some [(''MODE'', ''b'')])) None =
     env_change_snapshot (\<lambda>r. Some [[(''MODE'', Plain r)]]) ''now'' ''a'' ''b'' (Some [(''MODE'', ''b'')]) None"
  by (rule snapshot_value_free) (simp add: inj_on_def)

end
