(* ===== verification/Tickets.thy ===== *)
theory Tickets
  imports Prelude
begin

text \<open>
  The argument the workers and the coordinator share: requests step one at a time over a world of claims; a
  request that wins a claim holds one ticket for it, which it gives up with the effect or with the claim.  Then
  a claim never covers two effects, and every effect's claim stands.  Where a claim is an approval that is
  spent for good, nothing gives it back.
\<close>

lemma distinct_by_count: "(\<And>x. count_list xs x \<le> 1) \<Longrightarrow> distinct xs"
proof (induction xs)
  case (Cons a xs)
  have "count_list xs a = 0" using Cons.prems [of a] by simp
  moreover have "count_list xs x \<le> 1" for x using Cons.prems [of x] by (simp split: if_splits)
  ultimately show ?case using Cons.IH by (simp add: count_list_0_iff)
qed simp

locale leased =
  fixes claimed :: "'w \<Rightarrow> string \<Rightarrow> bool"
    and holds :: "string \<Rightarrow> 't \<Rightarrow> bool"
    and effects :: "'w \<Rightarrow> string list"
    and step :: "'w \<Rightarrow> 't \<Rightarrow> 'w \<Rightarrow> 't \<Rightarrow> bool"
  assumes step_law: "step w t w' t' \<Longrightarrow>
      ((if holds i t' then 1 else 0) + count_list (effects w') i \<le> (if holds i t then 1 else 0) + count_list (effects w) i \<and>
         (claimed w i \<longrightarrow> claimed w' i)) \<or>
      (\<not> claimed w i \<and> claimed w' i \<and>
       (if holds i t' then 1 else 0) + count_list (effects w') i \<le> (if holds i t then 1 else 0) + count_list (effects w) i + 1) \<or>
      (if holds i t' then 1 else 0) + count_list (effects w') i + 1 \<le> (if holds i t then 1 else 0) + count_list (effects w) i"
begin

definition tickets :: "string \<Rightarrow> 'w \<Rightarrow> 't list \<Rightarrow> nat" where
  "tickets i w ts = length (filter (holds i) ts) + count_list (effects w) i"

definition bounded :: "'w \<Rightarrow> 't list \<Rightarrow> bool" where
  "bounded w ts \<longleftrightarrow> (\<forall>i. tickets i w ts \<le> (if claimed w i then 1 else 0))"

lemma bounded_start: "effects w = [] \<Longrightarrow> bounded w []"
  by (simp add: bounded_def tickets_def)

lemma bounded_arrive: "bounded w ts \<Longrightarrow> \<forall>i. \<not> holds i t \<Longrightarrow> bounded w (ts @ [t])"
  by (simp add: bounded_def tickets_def)

lemma bounded_world:
  assumes "bounded w ts" and "effects w' = effects w" and "\<forall>i. claimed w i \<longrightarrow> claimed w' i"
  shows "bounded w' ts"
proof -
  have "tickets i w' ts \<le> (if claimed w' i then 1 else 0)" for i
  proof -
    have "tickets i w ts \<le> (if claimed w i then 1 else 0)" using assms(1) by (simp add: bounded_def)
    moreover have "claimed w i \<longrightarrow> claimed w' i" using assms(3) ..
    ultimately show ?thesis using assms(2) by (auto simp: tickets_def split: if_splits)
  qed
  then show ?thesis by (simp add: bounded_def)
qed

lemma bounded_step:
  assumes "bounded w ts" and i: "i < length ts" and s: "step w (ts ! i) w' t'"
  shows "bounded w' (ts[i := t'])"
proof -
  have "tickets j w' (ts[i := t']) \<le> (if claimed w' j then 1 else 0)" for j
  proof -
    have "tickets j w ts \<le> (if claimed w j then 1 else 0)" using assms(1) by (simp add: bounded_def)
    moreover have "tickets j w' (ts[i := t']) + (if holds j (ts ! i) then 1 else 0) + count_list (effects w) j =
        tickets j w ts + (if holds j t' then 1 else 0) + count_list (effects w') j"
      using length_filter_update [OF i, of "holds j" t'] by (simp add: tickets_def)
    ultimately show ?thesis using step_law [OF s, of j] by (auto split: if_splits)
  qed
  then show ?thesis by (simp add: bounded_def)
qed

lemma bounded_count: "bounded w ts \<Longrightarrow> count_list (effects w) i \<le> (if claimed w i then 1 else 0)"
proof -
  assume "bounded w ts"
  then have "tickets i w ts \<le> (if claimed w i then 1 else 0)" by (simp add: bounded_def)
  then show ?thesis by (simp add: tickets_def)
qed

lemma effects_once:
  assumes "bounded w ts"
  shows "distinct (effects w) \<and> (\<forall>i \<in> set (effects w). claimed w i)"
proof
  show "distinct (effects w)"
    using bounded_count [OF assms] by (intro distinct_by_count) (meson le_trans order_refl zero_le_one if_split)
  show "\<forall>i \<in> set (effects w). claimed w i"
  proof
    fix i
    assume "i \<in> set (effects w)"
    then have "count_list (effects w) i \<noteq> 0" by (simp add: count_list_0_iff)
    with bounded_count [OF assms, of i] show "claimed w i" by (auto split: if_splits)
  qed
qed

end

text \<open>A claim that is never given back.\<close>

locale ticketed =
  fixes spent :: "'w \<Rightarrow> string \<Rightarrow> bool"
    and holds :: "string \<Rightarrow> 't \<Rightarrow> bool"
    and effects :: "'w \<Rightarrow> string list"
    and step :: "'w \<Rightarrow> 't \<Rightarrow> 'w \<Rightarrow> 't \<Rightarrow> bool"
  assumes step_spent: "step w t w' t' \<Longrightarrow> spent w i \<Longrightarrow> spent w' i"
    and step_uses: "step w t w' t' \<Longrightarrow>
      (if holds i t' then 1 else 0) + count_list (effects w') i \<le> (if holds i t then 1 else 0) + count_list (effects w) i \<or>
      (\<not> spent w i \<and> spent w' i \<and>
       (if holds i t' then 1 else 0) + count_list (effects w') i \<le> (if holds i t then 1 else 0) + count_list (effects w) i + 1)"

sublocale ticketed \<subseteq> leased spent holds effects step
proof
  fix w w' :: 'w and t t' :: 't and i
  assume s: "step w t w' t'"
  show "((if holds i t' then 1 else 0) + count_list (effects w') i \<le> (if holds i t then 1 else 0) + count_list (effects w) i \<and>
         (spent w i \<longrightarrow> spent w' i)) \<or>
      (\<not> spent w i \<and> spent w' i \<and>
       (if holds i t' then 1 else 0) + count_list (effects w') i \<le> (if holds i t then 1 else 0) + count_list (effects w) i + 1) \<or>
      (if holds i t' then 1 else 0) + count_list (effects w') i + 1 \<le> (if holds i t then 1 else 0) + count_list (effects w) i"
    using step_uses [OF s, of i] step_spent [OF s, of i] by blast
qed

end
