(* ===== verification/RollbackSystem.thy ===== *)
theory RollbackSystem
  imports RollbackWorker Tickets
begin

text \<open>
  The rollback worker under concurrency: any number of execute, deny and reconcile requests, each
  stopped at any of its interactions (or forever, when its container dies), and proposals of fresh
  approvals, all over one approvals collection and one Cloud Run service.
\<close>

section \<open>The system\<close>

datatype thread =
    TExec string string exec_pc
  | TDeny string string deny_pc
  | TRecon string recon_pc

fun thread_step ::
  "(string \<Rightarrow> string \<Rightarrow> string) \<Rightarrow> string \<Rightarrow> cloud_input \<Rightarrow> thread \<Rightarrow> world \<Rightarrow> thread \<times> world" where
  "thread_step mac key inp (TExec aid tok pc) w =
     (let (pc', w') = exec_step mac key aid tok inp pc w in (TExec aid tok pc', w'))"
| "thread_step mac key inp (TDeny aid tok pc) w =
     (let (pc', w') = deny_step mac key aid tok inp pc w in (TDeny aid tok pc', w'))"
| "thread_step mac key inp (TRecon aid pc) w =
     (let (pc', w') = recon_step aid inp pc w in (TRecon aid pc', w'))"

inductive system :: "(string \<Rightarrow> string \<Rightarrow> string) \<Rightarrow> worker_env \<Rightarrow> world \<Rightarrow> thread list \<Rightarrow> bool"
  for mac :: "string \<Rightarrow> string \<Rightarrow> string" and env :: worker_env where
  start: "system mac env \<lparr>wd_docs = Map.empty, wd_updates = []\<rparr> []"
| arrive_exec: "system mac env w ts \<Longrightarrow> system mac env w (ts @ [TExec aid tok XAuthorize])"
| arrive_deny: "system mac env w ts \<Longrightarrow> system mac env w (ts @ [TDeny aid tok DAuthorize])"
| arrive_recon: "system mac env w ts \<Longrightarrow> system mac env w (ts @ [TRecon aid RRead])"
| step: "system mac env w ts \<Longrightarrow> i < length ts \<Longrightarrow>
     thread_step mac (we_hmac_key env) inp (ts ! i) w = (t', w') \<Longrightarrow> system mac env w' (ts[i := t'])"
| proposed: "system mac env w ts \<Longrightarrow> wd_docs w (pi_approval_id inp) = None \<Longrightarrow>
     propose mac env inp caller req (wd_docs w) = (r, docs') \<Longrightarrow> system mac env (w\<lparr>wd_docs := docs'\<rparr>) ts"

section \<open>What no operation on the store undoes\<close>

definition spent :: "docs \<Rightarrow> string \<Rightarrow> bool" where
  "spent docs aid \<longleftrightarrow> docs aid \<noteq> None \<and> \<not> ap_pending docs aid"

definition docs_le :: "docs \<Rightarrow> docs \<Rightarrow> bool" where
  "docs_le docs docs' \<longleftrightarrow>
     (\<forall>i d. docs i = Some d \<longrightarrow>
        (\<exists>d'. docs' i = Some d' \<and> dget d' ''target_revision'' = dget d ''target_revision'' \<and>
           dget d' ''token_hmac'' = dget d ''token_hmac'')) \<and>
     (\<forall>i. spent docs i \<longrightarrow> spent docs' i)"

lemma docs_le_refl [simp, intro]: "docs_le docs docs"
  by (simp add: docs_le_def)

lemma docs_le_spent: "docs_le docs docs' \<Longrightarrow> spent docs i \<Longrightarrow> spent docs' i"
  by (simp add: docs_le_def)

lemma docs_le_fresh: "docs aid = None \<Longrightarrow> docs_le docs (docs(aid \<mapsto> d))"
  by (auto simp: docs_le_def spent_def ap_pending_def)

lemma docs_le_update:
  assumes "docs aid = Some d" and "dget d' ''target_revision'' = dget d ''target_revision''"
    and "dget d' ''token_hmac'' = dget d ''token_hmac''"
    and "dget d ''status'' \<noteq> PStr ''pending'' \<longrightarrow> dget d' ''status'' \<noteq> PStr ''pending''"
  shows "docs_le docs (docs(aid \<mapsto> d'))"
  using assms by (auto simp: docs_le_def spent_def ap_pending_def)

lemma docs_le_claim: "docs_le docs (snd (ap_claim c aid docs))"
  by (cases "docs aid"; cases c)
    (auto simp: ap_claim_eq claim_update_def ap_pending_def intro!: docs_le_update)

lemma docs_le_record: "record_phase now aid phase detail resolved docs = (r, docs') \<Longrightarrow> docs_le docs docs'"
  by (drule record_phase_cases) (auto intro!: docs_le_update split: option.splits)

lemma ap_claim_used: "ap_claim (ClaimUsed now) aid docs = won (claim_pending now aid docs)"
  by (simp add: ap_claim_def)

lemma ap_claim_denied: "ap_claim (ClaimDenied now) aid docs = won (claim_denied now aid docs)"
  by (simp add: ap_claim_def)

lemma snd_won [simp]: "snd (won r) = snd r"
  by (auto simp: won_def split: prod.split sum.split option.split)

lemma claim_pending_won:
  assumes "claim_pending now aid docs = (Inr (Some a), docs')"
  shows "ap_pending docs aid \<and> spent docs' aid"
proof -
  from assms have "ap_claim (ClaimUsed now) aid docs = (True, docs')" by (simp add: ap_claim_used won_def)
  then show ?thesis by (auto simp: ap_claim_eq spent_def ap_pending_def claim_update_def split: if_splits)
qed

section \<open>The invariant\<close>

text \<open>The document an authorized request acts on: the token and revision are the stored ones.\<close>

definition authorized :: "(string \<Rightarrow> string \<Rightarrow> string) \<Rightarrow> string \<Rightarrow> docs \<Rightarrow> string \<Rightarrow> string \<Rightarrow> string \<Rightarrow> bool" where
  "authorized mac key docs aid tok revision \<longleftrightarrow>
     (\<exists>d. docs aid = Some d \<and> revision = py_str (dget d ''target_revision'') \<and>
        dget d ''token_hmac'' = PStr (compute_token_hmac mac tok aid revision key))"

lemma authorized_le: "docs_le docs docs' \<Longrightarrow> authorized mac key docs aid tok rv \<Longrightarrow> authorized mac key docs' aid tok rv"
  unfolding docs_le_def authorized_def by metis

fun pc_ok :: "(string \<Rightarrow> string \<Rightarrow> string) \<Rightarrow> string \<Rightarrow> docs \<Rightarrow> string \<Rightarrow> string \<Rightarrow> exec_pc \<Rightarrow> bool" where
  "pc_ok mac key docs aid tok (XPreflight a) = authorized mac key docs aid tok (py_str (ap_target_revision a))"
| "pc_ok mac key docs aid tok (XClaim a) = authorized mac key docs aid tok (py_str (ap_target_revision a))"
| "pc_ok mac key docs aid tok (XStart a) =
     (authorized mac key docs aid tok (py_str (ap_target_revision a)) \<and> spent docs aid)"
| "pc_ok mac key docs aid tok (XRecord phase detail stamp next) =
     (spent docs aid \<and> ((\<exists>a n. next = XWait a n) \<or> (\<exists>r. next = XDone r)))"
| "pc_ok mac key docs aid tok (XWait a n) = spent docs aid"
| "pc_ok mac key docs aid tok _ = True"

fun thread_ok :: "(string \<Rightarrow> string \<Rightarrow> string) \<Rightarrow> string \<Rightarrow> docs \<Rightarrow> thread \<Rightarrow> bool" where
  "thread_ok mac key docs (TExec aid tok pc) = pc_ok mac key docs aid tok pc"
| "thread_ok mac key docs (TRecon aid (RPoll _ _)) = spent docs aid"
| "thread_ok mac key docs (TRecon aid (RRecord _ _ _)) = spent docs aid"
| "thread_ok mac key docs _ = True"

lemma pc_ok_le: "docs_le docs docs' \<Longrightarrow> pc_ok mac key docs aid tok pc \<Longrightarrow> pc_ok mac key docs' aid tok pc"
  by (cases pc) (auto intro: authorized_le docs_le_spent)

lemma thread_ok_le: "docs_le docs docs' \<Longrightarrow> thread_ok mac key docs t \<Longrightarrow> thread_ok mac key docs' t"
  by (cases "(mac, key, docs, t)" rule: thread_ok.cases) (auto intro: pc_ok_le docs_le_spent)

text \<open>The claim an execute request holds until it has called \<open>update_service\<close>, and the calls.\<close>

fun holds :: "string \<Rightarrow> thread \<Rightarrow> bool" where
  "holds aid (TExec i tok (XStart a)) = (i = aid)"
| "holds aid _ = False"

section \<open>Every step keeps the invariant\<close>

definition calls :: "string \<Rightarrow> world \<Rightarrow> nat" where
  "calls aid w = count_list (map tu_approval (wd_updates w)) aid"

definition hold :: "string \<Rightarrow> thread \<Rightarrow> nat" where
  "hold aid t = (if holds aid t then 1 else 0)"

text \<open>What one step of one request may do.\<close>

definition step_ok ::
  "(string \<Rightarrow> string \<Rightarrow> string) \<Rightarrow> string \<Rightarrow> world \<Rightarrow> thread \<Rightarrow> world \<Rightarrow> thread \<Rightarrow> bool" where
  "step_ok mac key w t w' t' \<longleftrightarrow>
     reachable (wd_docs w') \<and> docs_le (wd_docs w) (wd_docs w') \<and> thread_ok mac key (wd_docs w') t' \<and>
     (\<forall>u \<in> set (wd_updates w'). u \<in> set (wd_updates w) \<or>
        authorized mac key (wd_docs w') (tu_approval u) (tu_token u) (tu_revision u)) \<and>
     (\<forall>j. hold j t' + calls j w' \<le> hold j t + calls j w \<or>
        (\<not> spent (wd_docs w) j \<and> spent (wd_docs w') j \<and> hold j t' + calls j w' \<le> hold j t + calls j w + 1))"

interpretation rollback: ticketed "\<lambda>w. spent (wd_docs w)" holds "\<lambda>w. map tu_approval (wd_updates w)" "step_ok mac key"
  for mac key
  by unfold_locales (auto simp: step_ok_def hold_def calls_def docs_le_spent)

definition sys_inv :: "(string \<Rightarrow> string \<Rightarrow> string) \<Rightarrow> string \<Rightarrow> world \<Rightarrow> thread list \<Rightarrow> bool" where
  "sys_inv mac key w ts \<longleftrightarrow>
     reachable (wd_docs w) \<and> rollback.bounded w ts \<and>
     (\<forall>t \<in> set ts. thread_ok mac key (wd_docs w) t) \<and>
     (\<forall>u \<in> set (wd_updates w). authorized mac key (wd_docs w) (tu_approval u) (tu_token u) (tu_revision u))"

lemma sys_inv_step:
  assumes inv: "sys_inv mac key w ts" and i: "i < length ts" and ok: "step_ok mac key w (ts ! i) w' t'"
  shows "sys_inv mac key w' (ts[i := t'])"
proof -
  have "rollback.bounded w' (ts[i := t'])" using inv rollback.bounded_step [OF _ i ok] by (simp add: sys_inv_def)
  moreover have "\<forall>t \<in> set (ts[i := t']). thread_ok mac key (wd_docs w') t"
    using inv ok thread_ok_le set_update_subset_insert [of ts i t'] unfolding sys_inv_def step_ok_def by blast
  moreover have "\<forall>u \<in> set (wd_updates w'). authorized mac key (wd_docs w') (tu_approval u) (tu_token u) (tu_revision u)"
    using inv ok authorized_le unfolding sys_inv_def step_ok_def by blast
  ultimately show ?thesis using ok by (simp add: sys_inv_def step_ok_def)
qed

text \<open>A step that touches neither the world nor the claim of its request.\<close>

lemma step_ok_quiet:
  assumes "reachable (wd_docs w)" and "thread_ok mac key (wd_docs w) t'" and "\<forall>j. hold j t' \<le> hold j t"
  shows "step_ok mac key w t w t'"
  using assms by (simp add: step_ok_def)

text \<open>A step that only writes to the store.\<close>

lemma step_ok_store:
  assumes "reachable docs'" and "docs_le (wd_docs w) docs'" and "thread_ok mac key docs' t'" and "\<forall>j. hold j t' \<le> hold j t"
  shows "step_ok mac key w t (w\<lparr>wd_docs := docs'\<rparr>) t'"
  using assms by (simp add: step_ok_def calls_def)

lemma authorize_Inr:
  assumes "authorize mac key now aid tok docs = Inr a"
  obtains d expires where "docs aid = Some d" "a = approval_of aid d" "dget d ''status'' = PStr ''pending''"
    "dget d ''expires_at'' = PTime expires" "now \<le> expires"
    "dget d ''token_hmac'' = PStr (compute_token_hmac mac tok aid (py_str (dget d ''target_revision'')) key)"
proof -
  from assms obtain b where g: "approval_get aid docs = Inr (Some b)" and st: "ap_status b = PStr ''pending''"
    by (auto simp: authorize_def split: sum.splits option.splits if_splits)
  with assms obtain expires where e: "ap_expires_at b = PTime expires" "now \<le> expires"
    by (auto simp: authorize_def split: pyval.splits if_splits)
  with assms g st have cd: "a = b" "compare_digest (compute_token_hmac mac tok (ap_id b) (py_str (ap_target_revision b)) key)
      (ap_token_hmac b) = Inr True"
    by (auto simp: authorize_def split: sum.splits if_splits)
  from g obtain d where d: "docs aid = Some d" "b = approval_of aid d"
    by (auto simp: approval_get_def read_approval_eq split: option.splits if_splits)
  from cd(2) have "ap_token_hmac b = PStr (compute_token_hmac mac tok (ap_id b) (py_str (ap_target_revision b)) key)"
    by (auto simp: compare_digest_def split: pyval.splits if_splits)
  with d e st cd(1) show ?thesis by (intro that [of d expires]) (simp_all add: approval_of_def)
qed

lemma authorize_authorized:
  assumes "authorize mac key now aid tok docs = Inr a"
  shows "authorized mac key docs aid tok (py_str (ap_target_revision a))"
  using assms by (rule authorize_Inr) (auto simp: authorized_def approval_of_def)

lemma reachable_record:
  assumes "reachable docs" and "spent docs aid" and "record_phase now aid phase detail resolved docs = (r, docs')"
  shows "reachable docs'"
  using reachable.other [OF assms(1), of "OpRecord now aid phase detail resolved"] assms(2,3)
  by (simp add: spent_def)

lemma exec_record_store:
  assumes "exec_record now aid phase detail stamp nx docs = (pc, docs')"
  shows "(\<exists>r resolved. record_phase now aid phase detail resolved docs = (r, docs')) \<and> (pc = nx \<or> (\<exists>r. pc = XDone r))"
  using assms by (auto simp: exec_record_def split: prod.splits sum.splits)

lemma exec_claim_store:
  assumes "exec_claim now aid a docs = (pc, docs')"
  shows "docs' = snd (ap_claim (ClaimUsed now) aid docs) \<and>
     ((\<exists>r. pc = XDone r) \<or> (pc = XStart a \<and> ap_pending docs aid \<and> spent docs' aid))"
  using assms claim_pending_won [of now aid docs]
  by (auto simp: exec_claim_def ap_claim_used split: prod.splits sum.splits option.splits)

lemma after_start_ok: "spent docs aid \<Longrightarrow> pc_ok mac key docs aid tok (after_start a r)"
  by (cases r) (auto simp: after_start_def)

lemma after_wait_ok: "spent docs aid \<Longrightarrow> pc_ok mac key docs aid tok (after_wait aid a n r)"
  by (cases r) (auto simp: after_wait_def Let_def)

lemma hold_exec: "hold j (TExec aid tok pc) = (if j = aid \<and> (\<exists>a. pc = XStart a) then 1 else 0)"
  by (cases pc) (auto simp: hold_def)

lemma hold_other [simp]: "hold j (TDeny aid tok pc') = 0" "hold j (TRecon aid pc'') = 0"
  by (simp_all add: hold_def)

lemma after_not_start:
  "after_start a r \<noteq> XStart b" "after_wait aid a n wr \<noteq> XStart b"
  by (cases r; cases wr; simp add: after_start_def after_wait_def Let_def)+

lemma exec_step_ok:
  assumes r: "reachable (wd_docs w)" and ok: "pc_ok mac key (wd_docs w) aid tok pc"
    and s: "exec_step mac key aid tok inp pc w = (pc', w')"
  shows "step_ok mac key w (TExec aid tok pc) w' (TExec aid tok pc')"
proof (cases pc)
  case XAuthorize
  with s r show ?thesis
    by (auto simp: exec_step_def hold_exec authorize_authorized intro!: step_ok_quiet split: sum.splits)
next
  case (XPreflight a)
  with s r ok show ?thesis
    by (auto simp: exec_step_def hold_exec intro!: step_ok_quiet split: sum.splits)
next
  case (XClaim a)
  obtain docs' where c: "exec_claim (in_now inp) aid a (wd_docs w) = (pc', docs')" and w': "w' = w\<lparr>wd_docs := docs'\<rparr>"
    using s XClaim by (auto simp: exec_step_def split: prod.splits)
  note cs = exec_claim_store [OF c]
  then have le: "docs_le (wd_docs w) docs'" and rch: "reachable docs'"
    using docs_le_claim reachable.claim [OF r] by auto
  from cs show ?thesis
  proof (elim conjE disjE exE)
    fix q assume "pc' = XDone q"
    then show ?thesis using le rch unfolding w' by (intro step_ok_store) (auto simp: hold_exec)
  next
    assume pc': "pc' = XStart a" and p: "ap_pending (wd_docs w) aid" and sp: "spent docs' aid"
    have "authorized mac key docs' aid tok (py_str (ap_target_revision a))"
      using ok le authorized_le XClaim by auto
    with pc' p sp le rch show ?thesis
      unfolding w' step_ok_def by (auto simp: hold_exec calls_def XClaim spent_def)
  qed
next
  case (XStart a)
  then have sp: "spent (wd_docs w) aid" and au: "authorized mac key (wd_docs w) aid tok (py_str (ap_target_revision a))"
    using ok by simp_all
  have docs: "wd_docs w' = wd_docs w" and pc': "pc' = after_start a (start_traffic_update (in_tags inp) (in_update inp))"
    and up: "wd_updates w' = wd_updates w \<or> wd_updates w' = wd_updates w @
       [\<lparr>tu_approval = aid, tu_revision = py_str (ap_target_revision a), tu_token = tok\<rparr>]"
    using s XStart by (auto simp: exec_step_def)
  have "hold j (TExec aid tok pc') = 0" for j
    by (simp add: hold_exec pc' after_not_start)
  with up au have "\<forall>j. hold j (TExec aid tok pc') + calls j w' \<le> hold j (TExec aid tok pc) + calls j w"
    by (auto simp: calls_def hold_exec XStart)
  moreover have "\<forall>u \<in> set (wd_updates w'). u \<in> set (wd_updates w) \<or>
        authorized mac key (wd_docs w') (tu_approval u) (tu_token u) (tu_revision u)"
    using up au docs by auto
  ultimately show ?thesis
    using r docs after_start_ok [OF sp] by (simp add: step_ok_def pc')
next
  case (XRecord phase detail stamp nx)
  then have sp: "spent (wd_docs w) aid" and nx: "(\<exists>a n. nx = XWait a n) \<or> (\<exists>q. nx = XDone q)" using ok by simp_all
  obtain docs' where c: "exec_record (in_now inp) aid phase detail stamp nx (wd_docs w) = (pc', docs')"
    and w': "w' = w\<lparr>wd_docs := docs'\<rparr>"
    using s XRecord by (auto simp: exec_step_def split: prod.splits)
  from exec_record_store [OF c] obtain q resolved where
    rec: "record_phase (in_now inp) aid phase detail resolved (wd_docs w) = (q, docs')"
    and pc': "pc' = nx \<or> (\<exists>q. pc' = XDone q)" by blast
  have le: "docs_le (wd_docs w) docs'" using rec by (rule docs_le_record)
  then have "pc_ok mac key docs' aid tok pc'" using pc' nx docs_le_spent [OF le sp] by auto
  with le reachable_record [OF r sp rec] pc' nx show ?thesis
    unfolding w' by (intro step_ok_store) (auto simp: hold_exec)
next
  case (XWait a n)
  with s r ok show ?thesis
    by (auto simp: exec_step_def hold_exec after_not_start intro!: step_ok_quiet after_wait_ok)
next
  case (XDone q)
  with s r show ?thesis by (auto simp: exec_step_def intro!: step_ok_quiet)
qed

lemma deny_step_ok:
  assumes r: "reachable (wd_docs w)" and s: "deny_step mac key aid tok inp pc w = (pc', w')"
  shows "step_ok mac key w (TDeny aid tok pc) w' (TDeny aid tok pc')"
proof (cases pc)
  case DClaim
  obtain docs' where c: "deny_claim (in_now inp) aid (wd_docs w) = (pc', docs')" and w': "w' = w\<lparr>wd_docs := docs'\<rparr>"
    using s DClaim by (auto simp: deny_step_def split: prod.splits)
  from c have "docs' = snd (ap_claim (ClaimDenied (in_now inp)) aid (wd_docs w))"
    by (auto simp: deny_claim_def ap_claim_denied split: prod.splits sum.splits option.splits)
  with r show ?thesis
    unfolding w' by (intro step_ok_store) (auto intro: reachable.claim docs_le_claim)
qed (use r s in \<open>auto simp: deny_step_def intro!: step_ok_quiet split: sum.splits\<close>)

lemma recon_read_spent:
  assumes r: "reachable docs" and s: "recon_read aid docs = RPoll phase name"
  shows "spent docs aid"
proof -
  obtain a where a: "approval_get aid docs = Inr (Some a)"
    using s by (auto simp: recon_read_def split: sum.splits option.splits)
  then obtain d where d: "docs aid = Some d" "a = approval_of aid d"
    by (auto simp: approval_get_def read_approval_eq split: option.splits if_splits)
  have "ap_apply_audit a \<noteq> PNone"
  proof
    assume "ap_apply_audit a = PNone"
    with s a show False
      by (simp add: recon_read_def or_empty_get_def py_or_def)
  qed
  with d reachable_doc_ok [OF r d(1)] show ?thesis
    by (auto simp: spent_def ap_pending_def doc_ok_def approval_of_def)
qed

lemma recon_poll_ok: "spent docs aid \<Longrightarrow> thread_ok mac key docs (TRecon aid (recon_poll aid phase name r))"
  by (auto simp: recon_poll_def split: sum.split)

lemma recon_step_ok:
  assumes r: "reachable (wd_docs w)" and ok: "thread_ok mac key (wd_docs w) (TRecon aid pc)"
    and s: "recon_step aid inp pc w = (pc', w')"
  shows "step_ok mac key w (TRecon aid pc) w' (TRecon aid pc')"
proof (cases pc)
  case RRead
  then have e: "pc' = recon_read aid (wd_docs w)" "w' = w" using s by (auto simp: recon_step_def)
  have "thread_ok mac key (wd_docs w) (TRecon aid pc')"
  proof (cases pc')
    case (RRecord phase detail ans)
    then show ?thesis using e by (auto simp: recon_read_def split: sum.splits option.splits prod.splits)
  qed (use e recon_read_spent [OF r] in auto)
  with r e show ?thesis by (auto intro: step_ok_quiet)
next
  case (RPoll phase name)
  with s r ok show ?thesis
    by (auto simp: recon_step_def recon_poll_ok intro!: step_ok_quiet)
next
  case (RRecord phase detail ans)
  then have sp: "spent (wd_docs w) aid" using ok by simp
  obtain q docs' where c: "record_phase (in_now inp) aid phase detail None (wd_docs w) = (q, docs')" by force
  then have "w' = w\<lparr>wd_docs := docs'\<rparr> \<and> (\<exists>a. pc' = RDone a)"
    using s RRecord by (auto simp: recon_step_def split: sum.splits)
  with reachable_record [OF r sp c] docs_le_record [OF c] show ?thesis
    by (auto intro!: step_ok_store)
qed (use s r in \<open>auto simp: recon_step_def intro!: step_ok_quiet\<close>)

lemma thread_step_ok:
  assumes "sys_inv mac key w ts" and "i < length ts" and "thread_step mac key inp (ts ! i) w = (t', w')"
  shows "step_ok mac key w (ts ! i) w' t'"
proof -
  have r: "reachable (wd_docs w)" and ok: "thread_ok mac key (wd_docs w) (ts ! i)"
    using assms(1,2) by (auto simp: sys_inv_def)
  show ?thesis
    using assms(3) r ok
    by (cases "ts ! i") (auto intro: exec_step_ok deny_step_ok recon_step_ok split: prod.splits)
qed

lemma propose_reachable:
  assumes "reachable docs" and "docs (pi_approval_id inp) = None" and "propose mac env inp caller req docs = (r, docs')"
  shows "reachable docs' \<and> docs_le docs docs'"
proof (cases "pi_service inp")
  case (Inr svc)
  define snap where "snap = env_change_snapshot (pi_revision inp) (iso_micro (pi_observed inp))
    (active_revision (sv_statuses svc) (sv_latest_ready svc)) (pr_target_revision req)
    (pr_contract_env req) (pr_contract_hash req)"
  let ?op = "OpCreate mac (pi_now inp) (pi_approval_id inp) (pi_token inp) (pr_target_revision req)
        (pr_reason req) (we_hmac_key env) caller 15 snap"
  have "docs' = docs \<or> docs' = ap_step ?op docs"
    using assms(3) Inr by (auto simp: propose_def list_revisions_def Let_def snap_def split: if_splits prod.splits sum.splits)
  moreover have "docs_le docs (ap_step ?op docs)"
    using ap_step_create [of mac "pi_now inp" "pi_approval_id inp" "pi_token inp" "pr_target_revision req"
        "pr_reason req" "we_hmac_key env" caller 15 snap docs] docs_le_fresh [of docs "pi_approval_id inp"] assms(2) by auto
  moreover have "reachable (ap_step ?op docs)"
    using assms(1,2) by (intro reachable.other) simp_all
  ultimately show ?thesis using assms(1) by auto
qed (use assms in \<open>auto simp: propose_def\<close>)

lemma sys_inv_arrive:
  assumes "sys_inv mac key w ts" and "thread_ok mac key (wd_docs w) t" and "\<forall>j. \<not> holds j t"
  shows "sys_inv mac key w (ts @ [t])"
  using assms rollback.bounded_arrive [of w ts t] by (auto simp: sys_inv_def)

lemma system_inv: "system mac env w ts \<Longrightarrow> sys_inv mac (we_hmac_key env) w ts"
proof (induction rule: system.induct)
  case start
  show ?case by (simp add: sys_inv_def rollback.bounded_start reachable.start)
next
  case (step w ts i inp t' w')
  from sys_inv_step [OF step.IH step.hyps(2) thread_step_ok [OF step.IH step.hyps(2,3)]] show ?case .
next
  case (proposed w ts inp caller req r docs')
  then have rd: "reachable docs'" "docs_le (wd_docs w) docs'"
    using propose_reachable by (auto simp: sys_inv_def)
  have "rollback.bounded (w\<lparr>wd_docs := docs'\<rparr>) ts"
  proof (rule rollback.bounded_world)
    show "rollback.bounded w ts" using proposed.IH by (simp add: sys_inv_def)
  qed (simp_all add: docs_le_spent [OF rd(2)])
  moreover have "\<forall>t \<in> set ts. thread_ok mac (we_hmac_key env) docs' t"
    "\<forall>u \<in> set (wd_updates w). authorized mac (we_hmac_key env) docs' (tu_approval u) (tu_token u) (tu_revision u)"
    using proposed.IH thread_ok_le [OF rd(2)] authorized_le [OF rd(2)] by (auto simp: sys_inv_def)
  ultimately show ?case using rd(1) by (simp add: sys_inv_def)
qed (auto intro: sys_inv_arrive)

section \<open>What the worker guarantees\<close>

text \<open>A concrete run: a proposal, then one execute request up to its \<open>update_service\<close> call.\<close>

definition demo_mac :: "string \<Rightarrow> string \<Rightarrow> string" where "demo_mac k m = ''0a''"

definition demo_env :: worker_env where
  "demo_env = \<lparr>we_coordinator_url = ''u'', we_target_service = ''demo'', we_hmac_key = ''k''\<rparr>"

definition demo_input :: cloud_input where
  "demo_input = \<lparr>in_now = 1, in_tags = Inr [[]], in_update = Inr (Some ''op''), in_wait = Resolved, in_poll = Inl ''E''\<rparr>"

definition demo_pending :: pydict where
  "demo_pending = create_data demo_mac 0 ''id'' ''tok'' ''demo-00001-aaa'' ''r'' ''k'' ''c'' 900000000 PNone"

lemma demo_proposed:
  "system demo_mac demo_env \<lparr>wd_docs = [''id'' \<mapsto> demo_pending], wd_updates = []\<rparr> []"
proof -
  let ?inp = "\<lparr>pi_service = Inr demo_service, pi_revision = (\<lambda>_. None), pi_now = 0, pi_observed = 0,
        pi_approval_id = ''id'', pi_token = ''tok''\<rparr>"
  let ?req = "\<lparr>pr_target_revision = ''demo-00001-aaa'', pr_reason = ''r'', pr_contract_env = None, pr_contract_hash = None\<rparr>"
  obtain r docs' where p: "propose demo_mac demo_env ?inp ''c'' ?req Map.empty = (r, docs')" by force
  then have "docs' = [''id'' \<mapsto> demo_pending]"
    by (auto simp: propose_def demo_service_def list_revisions_def active_revision_def base_name_def Let_def
        approval_create_def add_minutes_def max_day_def usec_per_day_def env_change_snapshot_def create_data_Approval
        demo_pending_def demo_env_def)
  with p system.proposed [OF system.start, of ?inp demo_mac demo_env "''c''" ?req r docs'] show ?thesis by simp
qed

lemma demo_run:
  "\<exists>w ts. system demo_mac demo_env w ts \<and> map tu_approval (wd_updates w) = [''id''] \<and> wd_docs w ''id'' \<noteq> None"
proof -
  let ?w = "\<lparr>wd_docs = [''id'' \<mapsto> demo_pending], wd_updates = []\<rparr>"
  let ?a = "approval_of ''id'' demo_pending"
  have one: "system demo_mac demo_env w' [t']"
    if "system demo_mac demo_env w [t]" "thread_step demo_mac ''k'' demo_input t w = (t', w')" for w t w' t'
    using system.step [OF that(1), of 0 demo_input t' w'] that(2) by (simp add: demo_env_def)
  have s0: "system demo_mac demo_env ?w [TExec ''id'' ''tok'' XAuthorize]"
    using system.arrive_exec [OF demo_proposed] by simp
  have "authorize demo_mac ''k'' 1 ''id'' ''tok'' [''id'' \<mapsto> demo_pending] = Inr ?a"
    by (simp add: authorize_def approval_get_def read_approval_eq create_data_complete demo_pending_def approval_of_def)
      (simp add: create_data_def compare_digest_def compute_token_hmac_def demo_mac_def is_ascii_def)
  with s0 have s1: "system demo_mac demo_env ?w [TExec ''id'' ''tok'' (XPreflight ?a)]"
    by (elim one) (simp add: exec_step_def demo_input_def)
  have s2: "system demo_mac demo_env ?w [TExec ''id'' ''tok'' (XClaim ?a)]"
    using s1 by (elim one) (simp add: exec_step_def demo_input_def assert_no_tagged_targets_def tagged_def require_def)
  have "complete (dput (dput demo_pending ''status'' (PStr ''used'')) ''apply_audit'' (claimed_audit 1))"
    by (intro complete_dput) (simp add: demo_pending_def create_data_complete)
  moreover have "dget demo_pending ''status'' = PStr ''pending''" by (simp add: demo_pending_def create_data_def)
  ultimately obtain docs' where c: "exec_claim 1 ''id'' ?a [''id'' \<mapsto> demo_pending] = (XStart ?a, docs')" "docs' ''id'' \<noteq> None"
    by (auto simp: exec_claim_def claim_pending_def approval_claim_def read_approval_eq Let_def)
  have s3: "system demo_mac demo_env (?w\<lparr>wd_docs := docs'\<rparr>) [TExec ''id'' ''tok'' (XStart ?a)]"
    using s2 c by (elim one) (simp add: exec_step_def demo_input_def)
  obtain w t where st: "thread_step demo_mac ''k'' demo_input (TExec ''id'' ''tok'' (XStart ?a)) (?w\<lparr>wd_docs := docs'\<rparr>) = (t, w)"
    by force
  then have "map tu_approval (wd_updates w) = [''id'']" "wd_docs w ''id'' \<noteq> None"
    using c by (auto simp: exec_step_def demo_input_def submits_update_def tagged_def)
  with one [OF s3 st] show ?thesis by (intro exI conjI)
qed

text \<open>C3: Traffic moves once per approval and only with its token: in every reachable state, however
  requests interleave, every \<open>update_service\<close> call was made by a request whose token has the HMAC
  stored in that approval's document, for the very revision the document names, and after the document was
  spent; and no approval ever leads to a second call.\<close>

theorem one_authorized_update_per_approval:
  assumes "system mac env w ts"
  shows "distinct (map tu_approval (wd_updates w)) \<and>
     (\<forall>u \<in> set (wd_updates w).
        authorized mac (we_hmac_key env) (wd_docs w) (tu_approval u) (tu_token u) (tu_revision u) \<and>
        spent (wd_docs w) (tu_approval u))"
proof -
  have inv: "sys_inv mac (we_hmac_key env) w ts" using assms by (rule system_inv)
  then have "rollback.bounded w ts" by (simp add: sys_inv_def)
  from rollback.effects_once [OF this] inv show ?thesis by (simp add: sys_inv_def)
qed

theorem one_authorized_update_per_approval_witness:
  "\<exists>w ts. system demo_mac demo_env w ts \<and> wd_updates w \<noteq> [] \<and>
     (\<exists>u \<in> set (wd_updates w). spent (wd_docs w) (tu_approval u))"
proof -
  obtain w ts where s: "system demo_mac demo_env w ts" "map tu_approval (wd_updates w) = [''id'']"
    using demo_run by (elim exE conjE)
  then obtain u where "wd_updates w = [u]" by (cases "wd_updates w") auto
  with one_authorized_update_per_approval [OF s(1)] s(1) show ?thesis by auto
qed

text \<open>C22: Under concurrency too, a completion time is never invented: in every reachable state of the
  worker, an approval with \<open>resolved_at\<close> was denied or is confirmed \<open>applied\<close>, and a pending approval has
  neither a completion time nor an outcome, whatever executes, denies and reconciles are under way.\<close>

theorem concurrent_outcomes_honest:
  assumes "system mac env w ts" and "wd_docs w i = Some d"
  shows "(dget d ''resolved_at'' \<noteq> PNone \<longrightarrow>
            dget d ''status'' = PStr ''denied'' \<or> audit_phase d = PStr PHASE_APPLIED) \<and>
         (dget d ''status'' = PStr ''pending'' \<longrightarrow> dget d ''resolved_at'' = PNone \<and> dget d ''apply_audit'' = PNone)"
  using reachable_doc_ok [of "wd_docs w" i d] system_inv [OF assms(1)] assms(2)
  by (auto simp: sys_inv_def doc_ok_def)

theorem concurrent_outcomes_honest_witness:
  "\<exists>w ts d. system demo_mac demo_env w ts \<and> wd_docs w ''id'' = Some d \<and>
     (dget d ''resolved_at'' \<noteq> PNone \<longrightarrow> dget d ''status'' = PStr ''denied'' \<or> audit_phase d = PStr PHASE_APPLIED)"
proof -
  obtain w ts d where s: "system demo_mac demo_env w ts" "wd_docs w ''id'' = Some d" using demo_run by blast
  with concurrent_outcomes_honest [OF s] show ?thesis by blast
qed

end
