(* ===== verification/UpgradeWorker.thy ===== *)
theory UpgradeWorker
  imports PyJson Regex "HOL-Library.Product_Lexorder"
begin

text \<open>
  The deterministic gate of the upgrade worker, \<open>workers/upgrade_docs/validator.py\<close>, and the
  \<open>/patch\<close> handler of \<open>workers/upgrade_docs/main.py\<close> around it: which lockfile edits may become a pull
  request.  The lockfile text read from GitHub is an input, and the call of \<open>open_docs_pr\<close> is the result.
\<close>

section \<open>The validator\<close>

definition LOCKFILE_PATH :: string where "LOCKFILE_PATH = ''demo/upgrade-target/package.json''"

definition GHSA_ADVISORY :: rx where
  "GHSA_ADVISORY = RSeq (rstr ''https://github.com/advisories/GHSA-'') (rplus (RCls (alnum_cls @ [(45, 45)])))"

datatype upgrade_error = UpgradeValidationError nat string | Crash pyexc

text \<open>\<open>int(digits)\<close> raises beyond the interpreter's limit of 4300 digits.\<close>

definition int_of_digits :: "string \<Rightarrow> (upgrade_error, nat) res" where
  "int_of_digits ds = (if 4300 < length ds then Inl (Crash (ValueError ''Exceeds the limit'')) else Inr (read_nat ds))"

text \<open>The optional suffix and the end of the text; the dollar sign also matches before a final newline.\<close>

definition version_tail :: "string \<Rightarrow> bool" where
  "version_tail r \<longleftrightarrow>
     (let body = (if r \<noteq> [] \<and> last r = CHR 0x0A then butlast r else r) in
      body = [] \<or> (hd body \<in> {CHR ''-'', CHR ''+''} \<and> CHR 0x0A \<notin> set body))"

definition version_groups :: "string \<Rightarrow> (string \<times> string \<times> string) option" where
  "version_groups s =
     (let a = takeWhile is_digit s; r1 = dropWhile is_digit s;
          b = takeWhile is_digit (drop 1 r1); r2 = dropWhile is_digit (drop 1 r1);
          c = takeWhile is_digit (drop 1 r2); r3 = dropWhile is_digit (drop 1 r2)
      in if a \<noteq> [] \<and> starts_with ''.'' r1 \<and> b \<noteq> [] \<and> starts_with ''.'' r2 \<and> c \<noteq> [] \<and> version_tail r3
         then Some (a, b, c) else None)"

definition parse_version :: "pyval \<Rightarrow> (upgrade_error, nat \<times> nat \<times> nat) res" where
  "parse_version v =
     (case v of
        PStr s \<Rightarrow>
          (case version_groups s of
             None \<Rightarrow> Inl (UpgradeValidationError 422 ''version is not a parseable semver triple'')
           | Some (a, b, c) \<Rightarrow>
               rbind (int_of_digits a) (\<lambda>x. rbind (int_of_digits b) (\<lambda>y. rbind (int_of_digits c) (\<lambda>z. Inr (x, y, z)))))
      | _ \<Rightarrow> Inl (Crash TypeError))"

text \<open>\<open>deps[package_name]\<close> behind the membership test, for whatever \<open>deps\<close> is: a list or a string can
  contain the name, but indexing it by a name raises.\<close>

definition current_version :: "pydict \<Rightarrow> string \<Rightarrow> (upgrade_error, pyval) res" where
  "current_version lockfile package_name =
     (let missing = UpgradeValidationError 422 ''package_name not present in lockfile dependencies'' in
      case py_or (dget lockfile ''dependencies'') (PDict []) of
        PDict d \<Rightarrow> (case map_of d package_name of None \<Rightarrow> Inl missing | Some v \<Rightarrow> Inr v)
      | PList l \<Rightarrow> Inl (if PStr package_name \<in> set l then Crash TypeError else missing)
      | PStr s \<Rightarrow> Inl (if contains_str package_name s then Crash TypeError else missing)
      | _ \<Rightarrow> Inl (Crash TypeError))"

definition validate_upgrade_request ::
  "string \<Rightarrow> string \<Rightarrow> string \<Rightarrow> string \<Rightarrow> pydict \<Rightarrow> (upgrade_error, unit) res" where
  "validate_upgrade_request lockfile_path package_name target_version advisory_url current_lockfile =
     rbind (require (lockfile_path = LOCKFILE_PATH) (UpgradeValidationError 403 ''lockfile_path not in allowlist'')) (\<lambda>_.
     rbind (current_version current_lockfile package_name) (\<lambda>current_version_raw.
     rbind (parse_version current_version_raw) (\<lambda>current_triple.
     rbind (parse_version (PStr target_version)) (\<lambda>target_triple.
     rbind (require (\<not> target_triple \<le> current_triple)
              (UpgradeValidationError 403 ''target_version is not greater than current version'')) (\<lambda>_.
     rbind (require (\<not> fst current_triple < fst target_triple)
              (UpgradeValidationError 403 ''major version bump refused at validator'')) (\<lambda>_.
     require (fullmatch GHSA_ADVISORY advisory_url)
       (UpgradeValidationError 403 ''advisory_url must be a github.com/advisories/GHSA URL'')))))))"

section \<open>The patch handler\<close>

record patch_request =
  pq_target_repo :: string
  pq_lockfile_path :: string
  pq_package_name :: string
  pq_target_version :: string
  pq_advisory_url :: string
  pq_branch :: string
  pq_base :: string
  pq_title :: string
  pq_body :: string

text \<open>\<open>os.path.normpath\<close> of a relative path without \<open>..\<close> segments.\<close>

definition normpath :: "string \<Rightarrow> string" where
  "normpath p =
     (let parts = filter (\<lambda>s. s \<noteq> [] \<and> s \<noteq> ''.'') (split_char (CHR ''/'') p)
      in if parts = [] then ''.'' else join_str ''/'' parts)"

definition forbidden :: "string \<Rightarrow> upgrade_error" where
  "forbidden d = UpgradeValidationError 403 d"

definition check_lockfile_path :: "string \<Rightarrow> (upgrade_error, unit) res" where
  "check_lockfile_path p =
     rbind (require (p \<noteq> []) (forbidden ''empty lockfile_path'')) (\<lambda>_.
     rbind (require (\<not> starts_with ''/'' p) (forbidden ''absolute lockfile_path not allowed'')) (\<lambda>_.
     rbind (require (''..'' \<notin> set (split_char (CHR ''/'') p)) (forbidden ''lockfile_path must not contain ..'')) (\<lambda>_.
     rbind (require (normpath p = p) (forbidden ''lockfile_path not normalized'')) (\<lambda>_.
     require (p = LOCKFILE_PATH) (forbidden ''lockfile_path not in allowlist'')))))"

definition ALLOWED_BRANCH_PREFIX :: string where "ALLOWED_BRANCH_PREFIX = ''upgrade/''"
definition ALLOWED_TITLE_PREFIX :: string where "ALLOWED_TITLE_PREFIX = ''upgrade''"
definition ALLOWED_BASE :: string where "ALLOWED_BASE = ''main''"

definition BRANCH_TAIL :: rx where
  "BRANCH_TAIL =
     RSeq (RCls (alnum_cls @ [(46, 47), (95, 95), (45, 45)])) (rupto 199 (RCls (alnum_cls @ [(46, 47), (95, 95), (45, 45)])))"

definition check_branch :: "string \<Rightarrow> (upgrade_error, unit) res" where
  "check_branch b =
     rbind (require (starts_with ALLOWED_BRANCH_PREFIX b) (forbidden ''branch must start with upgrade/'')) (\<lambda>_.
     let tail = drop (length ALLOWED_BRANCH_PREFIX) b in
     rbind (require (tail \<noteq> []) (forbidden ''branch suffix is empty'')) (\<lambda>_.
     rbind (require (\<not> contains_str ''..'' b) (forbidden ''branch must not contain ..'')) (\<lambda>_.
     require (fullmatch BRANCH_TAIL tail) (forbidden ''branch has invalid characters or length''))))"

definition check_base :: "string \<Rightarrow> (upgrade_error, unit) res" where
  "check_base b = require (b = ALLOWED_BASE) (forbidden ''base must be main'')"

text \<open>The arguments of the \<open>open_docs_pr\<close> call.\<close>

record pull_request =
  gh_branch :: string
  gh_base :: string
  gh_title :: string
  gh_body :: string
  gh_file_path :: string
  gh_new_content :: string

text \<open>\<open>lockfile["dependencies"][package] = version\<close>.\<close>

definition set_dependency :: "pydict \<Rightarrow> string \<Rightarrow> string \<Rightarrow> pydict" where
  "set_dependency lockfile package version =
     (case dget lockfile ''dependencies'' of
        PDict d \<Rightarrow> dput lockfile ''dependencies'' (PDict (dput d package (PStr version)))
      | _ \<Rightarrow> lockfile)"

definition patch_checks :: "string \<Rightarrow> patch_request \<Rightarrow> (upgrade_error, unit) res" where
  "patch_checks target_repo req =
     rbind (require (pq_target_repo req = target_repo) (forbidden ''target_repo does not match deployed allowlist'')) (\<lambda>_.
     rbind (check_lockfile_path (pq_lockfile_path req)) (\<lambda>_.
     rbind (check_branch (pq_branch req)) (\<lambda>_.
     rbind (check_base (pq_base req)) (\<lambda>_.
     require (starts_with ALLOWED_TITLE_PREFIX (pq_title req)) (forbidden ''title must start with upgrade'')))))"

definition patch :: "string \<Rightarrow> patch_request \<Rightarrow> pydict \<Rightarrow> (upgrade_error, pull_request) res" where
  "patch target_repo req lockfile =
     rbind (patch_checks target_repo req) (\<lambda>_.
     rbind (validate_upgrade_request (pq_lockfile_path req) (pq_package_name req) (pq_target_version req)
              (pq_advisory_url req) lockfile) (\<lambda>_.
     Inr \<lparr>gh_branch = pq_branch req, gh_base = pq_base req, gh_title = pq_title req,
          gh_body = pq_body req @ [CHR 0x0A, CHR 0x0A] @ ''Advisory: '' @ pq_advisory_url req @ [CHR 0x0A],
          gh_file_path = pq_lockfile_path req,
          gh_new_content =
            emit_indent 0 (PDict (set_dependency lockfile (pq_package_name req) (pq_target_version req))) @ [CHR 0x0A]\<rparr>))"

section \<open>Which requests are accepted\<close>

text \<open>A patch or minor bump: the same major version, and a greater minor and patch pair.\<close>

definition patch_or_minor :: "nat \<times> nat \<times> nat \<Rightarrow> nat \<times> nat \<times> nat \<Rightarrow> bool" where
  "patch_or_minor cur tgt \<longleftrightarrow>
     fst tgt = fst cur \<and>
     (fst (snd cur) < fst (snd tgt) \<or> (fst (snd cur) = fst (snd tgt) \<and> snd (snd cur) < snd (snd tgt)))"

lemma patch_or_minor_iff: "patch_or_minor c t \<longleftrightarrow> \<not> t \<le> c \<and> \<not> fst c < fst t"
  by (cases c; cases t) (auto simp: patch_or_minor_def less_eq_prod_def)

lemma current_version_Inr:
  "current_version lf pkg = Inr v \<longleftrightarrow> (\<exists>d. dget lf ''dependencies'' = PDict d \<and> map_of d pkg = Some v)"
  by (cases "dget lf ''dependencies''")
    (auto simp: current_version_def py_or_def Let_def split: option.splits pyval.splits)

lemma validate_iff:
  "validate_upgrade_request path pkg target url lf = Inr () \<longleftrightarrow>
     path = LOCKFILE_PATH \<and> fullmatch GHSA_ADVISORY url \<and>
     (\<exists>d v cur tgt. dget lf ''dependencies'' = PDict d \<and> map_of d pkg = Some v \<and>
        parse_version v = Inr cur \<and> parse_version (PStr target) = Inr tgt \<and> patch_or_minor cur tgt)"
  unfolding validate_upgrade_request_def rbind_Inr_iff require_iff current_version_Inr patch_or_minor_iff
  by auto

text \<open>The validator accepts exactly the intended edits: the one lockfile, a package it already
  depends on, a parseable target that is a patch or minor bump of the current version (never equal,
  a downgrade or a new major version), and a GitHub advisory URL.\<close>

theorem upgrade_accept_iff:
  "validate_upgrade_request path pkg target url lf = Inr () \<longleftrightarrow>
     path = LOCKFILE_PATH \<and> fullmatch GHSA_ADVISORY url \<and>
     (\<exists>d v cur tgt. dget lf ''dependencies'' = PDict d \<and> map_of d pkg = Some v \<and>
        parse_version v = Inr cur \<and> parse_version (PStr target) = Inr tgt \<and> patch_or_minor cur tgt)"
  by (rule validate_iff)

lemma set_dependency_spec:
  assumes "dget lf ''dependencies'' = PDict d"
  shows "dget (set_dependency lf pkg ver) ''dependencies'' = PDict (dput d pkg (PStr ver))"
    and "k \<noteq> ''dependencies'' \<Longrightarrow> map_of (set_dependency lf pkg ver) k = map_of lf k"
  using assms by (simp_all add: set_dependency_def)

text \<open>C23: A pull request that \<open>/patch\<close> opens is for the deployed repository's main branch, from an
  \<open>upgrade/\<close> branch, edits the one lockfile, cites the advisory, and its new content is the lockfile
  with only the named dependency changed, to a patch or minor bump.\<close>

theorem patch_touches_one_dependency:
  assumes "patch repo req lf = Inr pr"
  shows "\<exists>d d' lf' v cur tgt. pq_target_repo req = repo \<and> gh_base pr = ''main'' \<and>
     starts_with ''upgrade/'' (gh_branch pr) \<and> gh_file_path pr = LOCKFILE_PATH \<and>
     ends_with (''Advisory: '' @ pq_advisory_url req @ [CHR 0x0A]) (gh_body pr) \<and>
     gh_new_content pr = emit_indent 0 (PDict lf') @ [CHR 0x0A] \<and>
     dget lf ''dependencies'' = PDict d \<and> dget lf' ''dependencies'' = PDict d' \<and>
     (\<forall>k. k \<noteq> ''dependencies'' \<longrightarrow> map_of lf' k = map_of lf k) \<and>
     map_of d' = (map_of d)(pq_package_name req \<mapsto> PStr (pq_target_version req)) \<and>
     map_of d (pq_package_name req) = Some v \<and> parse_version v = Inr cur \<and>
     parse_version (PStr (pq_target_version req)) = Inr tgt \<and> patch_or_minor cur tgt"
proof -
  let ?lf' = "set_dependency lf (pq_package_name req) (pq_target_version req)"
  from assms have c: "patch_checks repo req = Inr ()"
    and v: "validate_upgrade_request (pq_lockfile_path req) (pq_package_name req) (pq_target_version req)
       (pq_advisory_url req) lf = Inr ()"
    and pr: "gh_base pr = pq_base req" "gh_branch pr = pq_branch req" "gh_file_path pr = pq_lockfile_path req"
      "gh_body pr = (pq_body req @ [CHR 0x0A, CHR 0x0A]) @ ''Advisory: '' @ pq_advisory_url req @ [CHR 0x0A]"
      "gh_new_content pr = emit_indent 0 (PDict ?lf') @ [CHR 0x0A]"
    by (auto simp: patch_def result_simps simp del: emit_indent.simps)
  from v obtain d w cur tgt where d: "pq_lockfile_path req = LOCKFILE_PATH" "dget lf ''dependencies'' = PDict d"
    "map_of d (pq_package_name req) = Some w" "parse_version w = Inr cur"
    "parse_version (PStr (pq_target_version req)) = Inr tgt" "patch_or_minor cur tgt"
    by (auto simp: validate_iff)
  from c have k: "pq_target_repo req = repo" "pq_base req = ''main''" "starts_with ''upgrade/'' (pq_branch req)"
    unfolding patch_checks_def check_branch_def check_base_def Let_def rbind_Inr_iff require_iff
      ALLOWED_BASE_def ALLOWED_BRANCH_PREFIX_def by auto
  have "ends_with (''Advisory: '' @ pq_advisory_url req @ [CHR 0x0A]) (gh_body pr)"
    unfolding pr ends_with_iff by blast
  with d k pr set_dependency_spec [OF d(2)] show ?thesis
    by (intro exI [of _ d] exI [of _ "dput d (pq_package_name req) (PStr (pq_target_version req))"]
        exI [of _ ?lf'] exI [of _ w] exI [of _ cur] exI [of _ tgt]) simp
qed

definition demo_lockfile :: pydict where
  "demo_lockfile = [(''name'', PStr ''x''), (''dependencies'', PDict [(''lodash'', PStr ''4.17.20''), (''left-pad'', PStr ''1.3.0'')])]"

definition demo_patch :: patch_request where
  "demo_patch = \<lparr>pq_target_repo = ''o/r'', pq_lockfile_path = LOCKFILE_PATH, pq_package_name = ''lodash'',
     pq_target_version = ''4.17.21'', pq_advisory_url = ''https://github.com/advisories/GHSA-35jh'',
     pq_branch = ''upgrade/lodash'', pq_base = ''main'', pq_title = ''upgrade lodash'', pq_body = ''b''\<rparr>"

lemma ghsa_iff:
  "fullmatch GHSA_ADVISORY s \<longleftrightarrow>
     (\<exists>t. s = ''https://github.com/advisories/GHSA-'' @ t \<and> t \<noteq> [] \<and> (\<forall>c \<in> set t. in_ranges (alnum_cls @ [(45, 45)]) c))"
  unfolding GHSA_ADVISORY_def fullmatch_iff lang.simps lang_rstr lang_rplus_cls by blast

lemma demo_versions:
  "parse_version (PStr ''4.17.20'') = Inr (4, 17, 20)" "parse_version (PStr ''4.17.21'') = Inr (4, 17, 21)"
  by (simp_all add: parse_version_def version_groups_def is_digit_def starts_with_def version_tail_def
      int_of_digits_def read_nat_def digit_val_def Let_def)

theorem patch_touches_one_dependency_witness:
  "\<exists>pr lf'. patch ''o/r'' demo_patch demo_lockfile = Inr pr \<and> gh_base pr = ''main'' \<and>
     gh_new_content pr = emit_indent 0 (PDict lf') @ [CHR 0x0A] \<and> map_of lf' ''name'' = Some (PStr ''x'')"
proof -
  have "fullmatch GHSA_ADVISORY ''https://github.com/advisories/GHSA-35jh''"
    unfolding ghsa_iff by (intro exI [of _ "''35jh''"]) (simp add: alnum_cls_def)
  then have v: "validate_upgrade_request LOCKFILE_PATH ''lodash'' ''4.17.21''
      ''https://github.com/advisories/GHSA-35jh'' demo_lockfile = Inr ()"
    by (simp add: validate_iff demo_lockfile_def demo_versions patch_or_minor_def)
  have "fullmatch BRANCH_TAIL ''lodash''"
    unfolding BRANCH_TAIL_def fullmatch_iff lang_seq_cls lang_rupto_cls by (simp add: alnum_cls_def)
  moreover have "check_lockfile_path LOCKFILE_PATH = Inr ()"
    by (simp add: check_lockfile_path_def LOCKFILE_PATH_def starts_with_def normpath_def require_def Let_def)
  ultimately have "patch_checks ''o/r'' demo_patch = Inr ()"
    by (simp add: patch_checks_def demo_patch_def check_branch_def check_base_def ALLOWED_BASE_def require_def
        ALLOWED_BRANCH_PREFIX_def ALLOWED_TITLE_PREFIX_def starts_with_def contains_str_def Let_def)
  with v obtain pr where pr: "patch ''o/r'' demo_patch demo_lockfile = Inr pr"
    by (simp add: patch_def demo_patch_def)
  from patch_touches_one_dependency [OF pr] obtain lf' where l: "gh_base pr = ''main''"
    "gh_new_content pr = emit_indent 0 (PDict lf') @ [CHR 0x0A]"
    "\<forall>k. k \<noteq> ''dependencies'' \<longrightarrow> map_of lf' k = map_of demo_lockfile k"
    by (elim exE conjE)
  from l(3) [rule_format, of "''name''"] have "map_of lf' ''name'' = Some (PStr ''x'')"
    by (simp add: demo_lockfile_def)
  with pr l(1,2) show ?thesis by (intro exI conjI)
qed

end
