(* ===== verification/DriftDecision.thy ===== *)
theory DriftDecision
  imports RollbackWorker Complex_Main
begin

text \<open>
  The drift workload's decisions: the ops contract (\<open>agent/contract.py\<close>), the deterministic classifier
  (\<open>agent/classifier.py\<close>), the name rule of \<open>agent/secret_guard.py\<close>, and the validator
  (\<open>agent/validator.py\<close>) that every proposal, a model's included, must pass.  Confidence is a rational,
  \<open>None\<close> standing for a NaN; action and status are enumerations, so a value outside them cannot arise.
\<close>

section \<open>Strings\<close>

definition is_space :: "char \<Rightarrow> bool" where
  "is_space c \<longleftrightarrow> (of_char c :: nat) \<in> set ([9..<14] @ [28..<33] @ [133, 160])"

text \<open>The characters of \<open>\w\<close> among the code points below 256.\<close>

definition is_word_char :: "char \<Rightarrow> bool" where
  "is_word_char c \<longleftrightarrow>
     (let n = (of_char c :: nat) in
      (48 \<le> n \<and> n \<le> 57) \<or> (65 \<le> n \<and> n \<le> 90) \<or> n = 95 \<or> (97 \<le> n \<and> n \<le> 122) \<or>
      n \<in> set [170, 178, 179, 181, 185, 186, 188, 189, 190] \<or> (192 \<le> n \<and> n \<noteq> 215 \<and> n \<noteq> 247))"

definition word_at :: "string \<Rightarrow> nat \<Rightarrow> bool" where
  "word_at s i \<longleftrightarrow> i < length s \<and> is_word_char (s ! i)"

definition boundary :: "string \<Rightarrow> nat \<Rightarrow> bool" where
  "boundary s i \<longleftrightarrow> (0 < i \<and> word_at s (i - 1)) \<noteq> word_at s i"

text \<open>A search for \<open>\b\<close>, the escaped name, and \<open>\b\<close>.\<close>

definition token_search :: "string \<Rightarrow> string \<Rightarrow> bool" where
  "token_search name s \<longleftrightarrow>
     list_ex (\<lambda>i. starts_with name (drop i s) \<and> boundary s i \<and> boundary s (i + length name)) [0..<Suc (length s)]"

section \<open>The contract\<close>

record env_rule =
  er_value :: string
  er_docs_file :: string
  er_docs_section :: string
  er_allow_manual_change :: bool
  er_operator_note :: "string option"

type_synonym contract_env = "(string \<times> env_rule) list"

definition path_rejected :: "string \<Rightarrow> bool" where
  "path_rejected p \<longleftrightarrow> starts_with ''/'' p \<or> ''..'' \<in> set (split_char (CHR ''/'') p)"

definition normalise_scalar :: "pyval \<Rightarrow> (pyexc, string) res" where
  "normalise_scalar v =
     (case v of
        PBool b \<Rightarrow> Inr (if b then ''true'' else ''false'')
      | PInt i \<Rightarrow> Inr (show_int i)
      | PFloat r \<Rightarrow> Inr r
      | PStr s \<Rightarrow> Inr s
      | _ \<Rightarrow> Inl (ValueError ''value must be a string, bool, or number''))"

definition note_ok :: "bool \<Rightarrow> string option \<Rightarrow> bool" where
  "note_ok manual note \<longleftrightarrow>
     (case note of
        None \<Rightarrow> \<not> manual
      | Some n \<Rightarrow> (manual \<longrightarrow> n \<noteq> []) \<and> CHR 0x0A \<notin> set n \<and> CHR 0x0D \<notin> set n)"

definition EnvVarRule ::
  "pyval \<Rightarrow> string \<Rightarrow> string \<Rightarrow> bool \<Rightarrow> string option \<Rightarrow> (pyexc, env_rule) res" where
  "EnvVarRule value file docs_section manual note =
     rbind (normalise_scalar value) (\<lambda>v.
     rbind (require (\<not> path_rejected file) (ValueError ''invalid docs.file path'')) (\<lambda>_.
     rbind (require (note_ok manual note) (ValueError ''operator_note'')) (\<lambda>_.
     Inr \<lparr>er_value = v, er_docs_file = file, er_docs_section = docs_section,
          er_allow_manual_change = manual, er_operator_note = note\<rparr>)))"

definition CONTRACT_ENV_MAX_KEYS :: nat where "CONTRACT_ENV_MAX_KEYS = 64"

text \<open>The hash is the head of a digest of the model's JSON dump; the digest and the dump are parameters.\<close>

definition contract_hash :: "(string \<Rightarrow> string) \<Rightarrow> (contract_env \<Rightarrow> string) \<Rightarrow> contract_env \<Rightarrow> string" where
  "contract_hash sha256_hex dump_json contract = take 16 (sha256_hex (dump_json contract))"

text \<open>The preview for a contract that loaded, or none.\<close>

definition contract_preview_payload ::
  "(string \<Rightarrow> string) \<Rightarrow> (contract_env \<Rightarrow> string) \<Rightarrow> contract_env option \<Rightarrow> pydict" where
  "contract_preview_payload sha256_hex dump_json loaded =
     (case loaded of
        None \<Rightarrow> []
      | Some contract \<Rightarrow>
          if length contract > CONTRACT_ENV_MAX_KEYS then []
          else [(''contract_env'', PDict (map (\<lambda>(n, r). (n, PStr (er_value r))) contract)),
                (''contract_hash'', PStr (contract_hash sha256_hex dump_json contract))])"

section \<open>Decisions\<close>

datatype contract_status = Absent | PresentAllowManual | PresentDisallowManual | Match

datatype decision_action = DocsPr | DriftIssue | Escalation | NoOp | Rollback | UpgradePr

record env_diff =
  ed_name :: string
  ed_expected :: "string option"
  ed_live :: "string option"
  ed_contract_status :: contract_status
  ed_debug_config_value :: "string option"
  ed_recent_pr_match :: "string option"

record proposal =
  dp_action :: decision_action
  dp_env_diffs :: "env_diff list"
  dp_target_docs_file :: "string option"
  dp_target_docs_section :: "string option"
  dp_target_revision :: "string option"
  dp_rationale :: string
  dp_confidence :: "rat option"
  dp_requires_human_review :: bool
  dp_blocked_reason :: "string option"

section \<open>The classifier\<close>

text \<open>The pull request search returns the first merged match's \<open>url\<close>, whatever it is.\<close>

fun strict_pr_match :: "pydict list \<Rightarrow> string \<Rightarrow> pyval" where
  "strict_pr_match [] var_name = PNone"
| "strict_pr_match (pr # prs) var_name =
     (if \<not> truthy (dget pr ''merged'') then strict_pr_match prs var_name
      else if token_search var_name
                (py_str (dget_or pr ''title'' (PStr [])) @ '' '' @ py_str (dget_or pr ''body'' (PStr [])))
      then dget pr ''url'' else strict_pr_match prs var_name)"

text \<open>A \<open>str | None\<close> field of a model.\<close>

definition optional_str :: "pyval \<Rightarrow> (pyexc, string option) res" where
  "optional_str v = (case v of PNone \<Rightarrow> Inr None | PStr s \<Rightarrow> Inr (Some s) | _ \<Rightarrow> Inl (ValueError ''ValidationError''))"

definition classify_var ::
  "contract_env \<Rightarrow> (string \<times> string) list \<Rightarrow> pydict list \<Rightarrow> string \<Rightarrow> (pyexc, (env_diff \<times> decision_action) option) res" where
  "classify_var contract live_env recent_prs name =
     (case map_of contract name of
        None \<Rightarrow>
          rbind (optional_str (strict_pr_match recent_prs name)) (\<lambda>pr_url.
          Inr (Some (\<lparr>ed_name = name, ed_expected = None, ed_live = map_of live_env name,
                      ed_contract_status = Absent, ed_debug_config_value = None,
                      ed_recent_pr_match = pr_url\<rparr>,
                     if pr_url \<noteq> None \<and> pr_url \<noteq> Some [] then DocsPr else Escalation)))
      | Some rule \<Rightarrow>
          if map_of live_env name = Some (er_value rule) then Inr None
          else Inr (Some (\<lparr>ed_name = name, ed_expected = Some (er_value rule), ed_live = map_of live_env name,
                 ed_contract_status = (if er_allow_manual_change rule then PresentAllowManual else PresentDisallowManual),
                 ed_debug_config_value = None, ed_recent_pr_match = None\<rparr>,
                if er_allow_manual_change rule then DocsPr else DriftIssue)))"

definition RATIONALE :: "decision_action \<Rightarrow> string" where
  "RATIONALE a =
     (case a of
        DocsPr \<Rightarrow> ''Change is sanctioned (contract allows manual or a recent merged PR mentions the var); updating docs.''
      | DriftIssue \<Rightarrow> ''Change violates the contract (allow_manual_change=false). Refusing to document.''
      | _ \<Rightarrow> ''Variable observed in production has no contract entry and no recent merged PR mentions it. Reviewer needed.'')"

definition choose_action :: "decision_action list \<Rightarrow> decision_action" where
  "choose_action actions =
     (if DriftIssue \<in> set actions then DriftIssue
      else if Escalation \<in> set actions then Escalation else DocsPr)"

definition env_var_names :: "contract_env \<Rightarrow> (string \<times> string) list \<Rightarrow> string list" where
  "env_var_names contract live_env = remdups (sort (map fst contract @ map fst live_env))"

definition classify ::
  "contract_env \<Rightarrow> (string \<times> string) list \<Rightarrow> pydict list \<Rightarrow> (pyexc, proposal) res" where
  "classify contract live_env recent_prs =
     rbind (traverse (classify_var contract live_env recent_prs) (env_var_names contract live_env)) (\<lambda>found.
     let pairs = List.map_filter id found; diffs = map fst pairs; actions = map snd pairs in
     case diffs of
       [] \<Rightarrow> Inr \<lparr>dp_action = NoOp, dp_env_diffs = [], dp_target_docs_file = None, dp_target_docs_section = None,
               dp_target_revision = None, dp_rationale = ''Live state matches contract.'',
               dp_confidence = Some 1, dp_requires_human_review = False, dp_blocked_reason = None\<rparr>
     | primary # _ \<Rightarrow>
         let chosen = choose_action actions;
             (file, sec) = (case map_of contract (ed_name primary) of
                None \<Rightarrow> (''demo/docs/runbook.md'', ''Runtime Configuration'')
              | Some rule \<Rightarrow> (er_docs_file rule, er_docs_section rule))
         in Inr \<lparr>dp_action = chosen, dp_env_diffs = diffs, dp_target_docs_file = Some file,
              dp_target_docs_section = Some sec, dp_target_revision = None, dp_rationale = RATIONALE chosen,
              dp_confidence = Some (9 / 10), dp_requires_human_review = (chosen = Escalation),
              dp_blocked_reason = None\<rparr>)"

section \<open>The validator\<close>

definition SECRET_NAME_PARTS :: "string list" where
  "SECRET_NAME_PARTS =
     [''SECRET'', ''TOKEN'', ''KEY'', ''PASSWORD'', ''PASSWD'', ''CRED'', ''PRIVATE'', ''AUTH'', ''BEARER'', ''JWT'',
      ''SIGNATURE'', ''SALT'', ''DSN'', ''OAUTH'', ''URL'', ''URI'', ''CONNECTION'', ''CONNSTR'']"

definition upper_char :: "char \<Rightarrow> char" where
  "upper_char c = (let n = (of_char c :: nat) in if 97 \<le> n \<and> n \<le> 122 then char_of (n - 32) else c)"

definition is_secret_name :: "string \<Rightarrow> bool" where
  "is_secret_name name \<longleftrightarrow> (\<exists>p \<in> set SECRET_NAME_PARTS. contains_str p (map upper_char name))"

text \<open>Every refusal is a \<open>ValidationError\<close>; the model keeps its text.\<close>

type_synonym verdict = "(string, unit) res"

definition VALIDATOR_REVISION_NAME :: rx where
  "VALIDATOR_REVISION_NAME =
     RSeq (RCls lower_cls) (RSeq (rupto 62 (RCls (lower_cls @ digits_cls @ [(45, 45)]))) (RCls (lower_cls @ digits_cls)))"

definition DRIFT_ACTIONS :: "decision_action list" where
  "DRIFT_ACTIONS = [NoOp, DocsPr, DriftIssue, Rollback, Escalation]"

text \<open>A loop that raises at the first element with a complaint.\<close>

fun check_each :: "('a \<Rightarrow> verdict) \<Rightarrow> 'a list \<Rightarrow> verdict" where
  "check_each f [] = Inr ()"
| "check_each f (x # xs) = rbind (f x) (\<lambda>_. check_each f xs)"

definition hard_violation :: "(string \<times> string) list \<Rightarrow> string \<times> env_rule \<Rightarrow> bool" where
  "hard_violation live_env nr \<longleftrightarrow>
     (case nr of (name, rule) \<Rightarrow>
        \<not> er_allow_manual_change rule \<and>
        (case map_of live_env name of None \<Rightarrow> False | Some v \<Rightarrow> v \<noteq> er_value rule))"

definition authorize_rollback_from_live_env :: "contract_env \<Rightarrow> (string \<times> string) list option \<Rightarrow> verdict" where
  "authorize_rollback_from_live_env contract live_env =
     (case live_env of
        None \<Rightarrow> Inl ''rollback rejected: no observed live env available to justify it''
      | Some env \<Rightarrow>
          require (length (filter (hard_violation env) contract) \<noteq> 0)
            ''rollback rejected: no CONFIRMED hard contract violation was observed'')"

fun check_conflicts :: "(string \<times> string option) list \<Rightarrow> env_diff list \<Rightarrow> verdict" where
  "check_conflicts seen [] = Inr ()"
| "check_conflicts seen (d # ds) =
     (case map_of seen (ed_name d) of
        Some v \<Rightarrow>
          if v \<noteq> ed_live d then Inl ''rollback rejected: conflicting live values reported''
          else check_conflicts ((ed_name d, ed_live d) # seen) ds
      | None \<Rightarrow> check_conflicts ((ed_name d, ed_live d) # seen) ds)"

text \<open>What one reported diff is, by the contract: no deviation, or a deviation with this status.\<close>

definition derived_status :: "contract_env \<Rightarrow> env_diff \<Rightarrow> contract_status option" where
  "derived_status contract d =
     (case map_of contract (ed_name d) of
        None \<Rightarrow> if ed_live d = None then None else Some Absent
      | Some rule \<Rightarrow>
          if ed_live d = Some (er_value rule) then None
          else Some (if er_allow_manual_change rule then PresentAllowManual else PresentDisallowManual))"

definition check_deviation :: "contract_env \<Rightarrow> env_diff \<Rightarrow> verdict" where
  "check_deviation contract d =
     require (derived_status contract d \<in> {None, Some PresentDisallowManual})
       ''rollback rejected: rollback only for present_disallow_manual''"

definition validate_rollback :: "proposal \<Rightarrow> contract_env \<Rightarrow> (string \<times> string) list option \<Rightarrow> verdict" where
  "validate_rollback p contract live_env =
     (case dp_target_revision p of
        None \<Rightarrow> Inl ''rollback requires target_revision''
      | Some rv \<Rightarrow>
          rbind (require (\<not> list_all is_space rv) ''rollback requires target_revision'') (\<lambda>_.
          rbind (require (fullmatch VALIDATOR_REVISION_NAME rv) ''rollback target_revision does not match'') (\<lambda>_.
          rbind (require (dp_requires_human_review p) ''rollback requires requires_human_review=true'') (\<lambda>_.
          rbind (check_conflicts [] (dp_env_diffs p)) (\<lambda>_.
          rbind (check_each (check_deviation contract) (dp_env_diffs p)) (\<lambda>_.
          rbind (require (length (filter (\<lambda>d. derived_status contract d \<noteq> None) (dp_env_diffs p)) \<noteq> 0)
                   ''rollback rejected: no env_diff deviates from the contract'') (\<lambda>_.
          authorize_rollback_from_live_env contract live_env)))))))"

definition check_documentable :: "contract_env \<Rightarrow> env_diff \<Rightarrow> verdict" where
  "check_documentable contract d =
     rbind (require (\<not> is_secret_name (ed_name d)) ''refusing docs_pr that would document secret-like var'') (\<lambda>_.
     case map_of contract (ed_name d) of
       None \<Rightarrow> require (ed_recent_pr_match d \<noteq> None \<and> ed_recent_pr_match d \<noteq> Some [])
                 ''docs_pr for unknown var requires recent_pr_match evidence''
     | Some rule \<Rightarrow> require (er_allow_manual_change rule) ''docs_pr rejected: contract says allow_manual_change=False'')"

definition check_docs_target :: "contract_env \<Rightarrow> proposal \<Rightarrow> env_diff \<Rightarrow> verdict" where
  "check_docs_target contract p d =
     (case map_of contract (ed_name d) of
        None \<Rightarrow> Inr ()
      | Some rule \<Rightarrow>
          rbind (require (dp_target_docs_file p = Some (er_docs_file rule)) ''target_docs_file does not match'') (\<lambda>_.
          require (dp_target_docs_section p = Some (er_docs_section rule)) ''target_docs_section does not match''))"

definition validate_docs_pr :: "proposal \<Rightarrow> contract_env \<Rightarrow> verdict" where
  "validate_docs_pr p contract =
     rbind (require (dp_target_docs_file p \<noteq> None \<and> dp_target_docs_file p \<noteq> Some []) ''docs_pr requires target_docs_file'') (\<lambda>_.
     rbind (require (dp_target_docs_section p \<noteq> None \<and> dp_target_docs_section p \<noteq> Some []) ''docs_pr requires target_docs_section'') (\<lambda>_.
     rbind (check_each (check_documentable contract) (dp_env_diffs p)) (\<lambda>_.
     check_each (check_docs_target contract p) (dp_env_diffs p))))"

definition validate :: "proposal \<Rightarrow> contract_env \<Rightarrow> (string \<times> string) list option \<Rightarrow> verdict" where
  "validate p contract live_env =
     rbind (require (dp_action p \<in> set DRIFT_ACTIONS) ''action is not in the drift workload's action set'') (\<lambda>_.
     rbind (require (case dp_confidence p of None \<Rightarrow> False | Some c \<Rightarrow> 0 \<le> c \<and> c \<le> 1) ''confidence out of range'') (\<lambda>_.
     rbind (require (dp_action p \<noteq> NoOp \<longrightarrow> dp_env_diffs p \<noteq> []) ''action requires at least one env_diff'') (\<lambda>_.
     rbind (require (case dp_target_docs_file p of None \<Rightarrow> True | Some f \<Rightarrow> \<not> path_rejected f) ''target docs path rejected'') (\<lambda>_.
     rbind (if dp_action p = Rollback then validate_rollback p contract live_env else Inr ()) (\<lambda>_.
     if dp_action p = DocsPr then validate_docs_pr p contract else Inr ())))))"

section \<open>What a validated proposal guarantees\<close>

lemma check_each_Inr [result_simps]: "check_each f xs = Inr u \<longleftrightarrow> (\<forall>x \<in> set xs. f x = Inr ())"
  by (induction xs) (auto simp: result_simps)

lemma check_each_map: "check_each f (map g xs) = check_each (f \<circ> g) xs"
  by (induction xs) simp_all

lemma check_conflicts_Inr:
  "check_conflicts seen ds = Inr () \<Longrightarrow>
     (\<forall>d \<in> set ds. \<forall>v. map_of seen (ed_name d) = Some v \<longrightarrow> v = ed_live d) \<and>
     (\<forall>d \<in> set ds. \<forall>e \<in> set ds. ed_name d = ed_name e \<longrightarrow> ed_live d = ed_live e)"
proof (induction seen ds rule: check_conflicts.induct)
  case (2 seen d ds)
  let ?seen = "(ed_name d, ed_live d) # seen"
  from "2.prems" have c: "check_conflicts ?seen ds = Inr ()"
    and s: "\<forall>v. map_of seen (ed_name d) = Some v \<longrightarrow> v = ed_live d"
    by (auto split: option.splits if_splits)
  have "(\<forall>e \<in> set ds. \<forall>v. map_of ?seen (ed_name e) = Some v \<longrightarrow> v = ed_live e) \<and>
    (\<forall>e \<in> set ds. \<forall>e' \<in> set ds. ed_name e = ed_name e' \<longrightarrow> ed_live e = ed_live e')"
  proof (cases "map_of seen (ed_name d)")
    case None
    from "2.IH"(1) [OF None c] show ?thesis .
  next
    case (Some v)
    with s have "\<not> v \<noteq> ed_live d" by blast
    from "2.IH"(2) [OF Some this c] show ?thesis .
  qed
  then have ih: "\<forall>e \<in> set ds. \<forall>v. map_of ?seen (ed_name e) = Some v \<longrightarrow> v = ed_live e"
    "\<forall>e \<in> set ds. \<forall>e' \<in> set ds. ed_name e = ed_name e' \<longrightarrow> ed_live e = ed_live e'"
    by blast+
  from ih(1) have same: "\<forall>e \<in> set ds. ed_name e = ed_name d \<longrightarrow> ed_live e = ed_live d" by auto
  have "\<forall>e \<in> set ds. \<forall>v. map_of seen (ed_name e) = Some v \<longrightarrow> v = ed_live e"
  proof (intro ballI allI impI)
    fix e v assume e: "e \<in> set ds" "map_of seen (ed_name e) = Some v"
    show "v = ed_live e"
    proof (cases "ed_name e = ed_name d")
      case True
      with e s same show ?thesis by auto
    next
      case False
      with e ih(1) show ?thesis by auto
    qed
  qed
  with s have seen_ok: "\<forall>e \<in> set (d # ds). \<forall>v. map_of seen (ed_name e) = Some v \<longrightarrow> v = ed_live e"
    by (simp only: list.set ball_simps)
  have "ed_live e = ed_live e'" if "e \<in> set (d # ds)" "e' \<in> set (d # ds)" "ed_name e = ed_name e'" for e e'
    using that ih(2) same unfolding list.set insert_iff by metis
  with seen_ok show ?case by blast
qed simp

lemma check_if [result_simps]: "(if b then m else Inr ()) = Inr () \<longleftrightarrow> (b \<longrightarrow> m = Inr ())"
  by simp

lemma option_tests:
  "(case x of None \<Rightarrow> False | Some c \<Rightarrow> P c) \<longleftrightarrow> (\<exists>c. x = Some c \<and> P c)"
  "(case x of None \<Rightarrow> True | Some c \<Rightarrow> P c) \<longleftrightarrow> (\<forall>c. x = Some c \<longrightarrow> P c)"
  by (simp_all split: option.split)

lemma validate_Inr:
  "validate p contract live_env = Inr () \<longleftrightarrow>
     dp_action p \<in> set DRIFT_ACTIONS \<and> (\<exists>c. dp_confidence p = Some c \<and> 0 \<le> c \<and> c \<le> 1) \<and>
     (dp_action p \<noteq> NoOp \<longrightarrow> dp_env_diffs p \<noteq> []) \<and>
     (\<forall>f. dp_target_docs_file p = Some f \<longrightarrow> \<not> path_rejected f) \<and>
     (dp_action p = Rollback \<longrightarrow> validate_rollback p contract live_env = Inr ()) \<and>
     (dp_action p = DocsPr \<longrightarrow> validate_docs_pr p contract = Inr ())"
  unfolding validate_def rbind_Inr_iff require_iff ex_unit_eq check_if option_tests(1)
  by (cases "dp_target_docs_file p") simp_all

lemma validate_rollback_Inr:
  "validate_rollback p contract live_env = Inr () \<longleftrightarrow>
     (\<exists>rv. dp_target_revision p = Some rv \<and> \<not> list_all is_space rv \<and> fullmatch VALIDATOR_REVISION_NAME rv \<and>
        dp_requires_human_review p \<and> check_conflicts [] (dp_env_diffs p) = Inr () \<and>
        (\<forall>d \<in> set (dp_env_diffs p). derived_status contract d \<in> {None, Some PresentDisallowManual}) \<and>
        filter (\<lambda>d. derived_status contract d \<noteq> None) (dp_env_diffs p) \<noteq> [] \<and>
        authorize_rollback_from_live_env contract live_env = Inr ())"
  unfolding validate_rollback_def check_deviation_def
  by (cases "dp_target_revision p")
    (simp_all only: option.case rbind_Inr_iff require_iff check_each_Inr length_0_conv option.distinct option.inject
      ex_unit_eq Inl_Inr_False simp_thms ex_simps)

text \<open>C12: A rollback passes the validator only on observed evidence: the environment was really read,
  some variable the contract forbids changing by hand was read with another value, the reported
  differences do not contradict each other and none of them is a sanctioned or an undeclared
  change, the target is a well-formed revision name, and a human review is required.\<close>

theorem rollback_needs_observed_violation:
  assumes "validate p contract live_env = Inr ()" and "dp_action p = Rollback"
  shows "\<exists>env rv. live_env = Some env \<and>
     (\<exists>(name, rule) \<in> set contract. \<not> er_allow_manual_change rule \<and>
        (\<exists>v. map_of env name = Some v \<and> v \<noteq> er_value rule)) \<and>
     (\<forall>d \<in> set (dp_env_diffs p). \<forall>e \<in> set (dp_env_diffs p). ed_name d = ed_name e \<longrightarrow> ed_live d = ed_live e) \<and>
     (\<forall>d \<in> set (dp_env_diffs p). derived_status contract d \<in> {None, Some PresentDisallowManual}) \<and>
     dp_target_revision p = Some rv \<and> fullmatch VALIDATOR_REVISION_NAME rv \<and> dp_requires_human_review p"
proof -
  from assms have "validate_rollback p contract live_env = Inr ()"
    by (simp add: validate_Inr)
  then obtain rv where rv: "dp_target_revision p = Some rv" "fullmatch VALIDATOR_REVISION_NAME rv"
    "dp_requires_human_review p" "check_conflicts [] (dp_env_diffs p) = Inr ()"
    "\<forall>d \<in> set (dp_env_diffs p). derived_status contract d \<in> {None, Some PresentDisallowManual}"
    "authorize_rollback_from_live_env contract live_env = Inr ()"
    unfolding validate_rollback_Inr by blast
  from rv(6) obtain env where env: "live_env = Some env" "filter (hard_violation env) contract \<noteq> []"
    by (auto simp: authorize_rollback_from_live_env_def result_simps split: option.splits)
  then obtain nr where "nr \<in> set contract" "hard_violation env nr" by (auto simp: filter_empty_conv)
  then have "\<exists>(name, rule) \<in> set contract. \<not> er_allow_manual_change rule \<and>
        (\<exists>v. map_of env name = Some v \<and> v \<noteq> er_value rule)"
    by (intro bexI [of _ nr]) (auto simp: hard_violation_def split: option.splits)
  moreover have "\<forall>d \<in> set (dp_env_diffs p). \<forall>e \<in> set (dp_env_diffs p). ed_name d = ed_name e \<longrightarrow> ed_live d = ed_live e"
    using check_conflicts_Inr [OF rv(4)] by blast
  ultimately show ?thesis using env(1) rv(1,2,3,5) by (intro exI conjI)
qed

definition demo_rule :: "string \<Rightarrow> bool \<Rightarrow> env_rule" where
  "demo_rule v manual = \<lparr>er_value = v, er_docs_file = ''demo/docs/runbook.md'', er_docs_section = ''S'',
     er_allow_manual_change = manual, er_operator_note = (if manual then Some ''note'' else None)\<rparr>"

definition demo_contract :: contract_env where
  "demo_contract = [(''PAYMENT_MODE'', demo_rule ''mock'' False), (''FEATURE'', demo_rule ''on'' True)]"

definition demo_rollback :: proposal where
  "demo_rollback = \<lparr>dp_action = Rollback,
     dp_env_diffs = [\<lparr>ed_name = ''PAYMENT_MODE'', ed_expected = None, ed_live = Some ''live'',
       ed_contract_status = Match, ed_debug_config_value = None, ed_recent_pr_match = None\<rparr>],
     dp_target_docs_file = None, dp_target_docs_section = None, dp_target_revision = Some ''demo-1'',
     dp_rationale = ''r'', dp_confidence = Some (1 / 2), dp_requires_human_review = True, dp_blocked_reason = None\<rparr>"

lemma demo_revision: "fullmatch VALIDATOR_REVISION_NAME ''demo-1''"
proof -
  have "''emo-'' \<in> lang (rupto 62 (RCls (lower_cls @ digits_cls @ [(45, 45)])))"
    unfolding lang_rupto_cls by (simp add: lower_cls_def digits_cls_def)
  moreover have "''1'' \<in> lang (RCls (lower_cls @ digits_cls))" "in_ranges lower_cls (CHR ''d'')"
    by (simp_all add: lower_cls_def digits_cls_def)
  ultimately have "''emo-'' @ ''1'' \<in> lang (RSeq (rupto 62 (RCls (lower_cls @ digits_cls @ [(45, 45)]))) (RCls (lower_cls @ digits_cls)))"
    unfolding lang.simps by blast
  with \<open>in_ranges lower_cls (CHR ''d'')\<close> show ?thesis
    unfolding VALIDATOR_REVISION_NAME_def fullmatch_iff lang_seq_cls by simp
qed

lemma demo_rollback_valid: "validate demo_rollback demo_contract (Some [(''PAYMENT_MODE'', ''live'')]) = Inr ()"
  by (simp add: validate_def validate_rollback_def demo_rollback_def DRIFT_ACTIONS_def demo_revision is_space_def
      demo_contract_def demo_rule_def check_deviation_def derived_status_def authorize_rollback_from_live_env_def
      hard_violation_def require_def)

theorem rollback_needs_observed_violation_witness:
  "\<exists>rv. dp_target_revision demo_rollback = Some rv \<and> fullmatch VALIDATOR_REVISION_NAME rv"
  using rollback_needs_observed_violation [OF demo_rollback_valid] by (auto simp: demo_rollback_def)

definition relabel :: "(env_diff \<Rightarrow> string option) \<Rightarrow> (env_diff \<Rightarrow> contract_status) \<Rightarrow> env_diff \<Rightarrow> env_diff" where
  "relabel ex st d = d\<lparr>ed_expected := ex d, ed_contract_status := st d\<rparr>"

lemma relabel_fields [simp]:
  "ed_name (relabel ex st d) = ed_name d" "ed_live (relabel ex st d) = ed_live d"
  "ed_recent_pr_match (relabel ex st d) = ed_recent_pr_match d"
  by (simp_all add: relabel_def)

lemma check_conflicts_relabel: "check_conflicts seen (map (relabel ex st) ds) = check_conflicts seen ds"
  by (induction seen ds rule: check_conflicts.induct) (auto split: option.split)

lemma derived_status_relabel [simp]: "derived_status contract (relabel ex st d) = derived_status contract d"
  by (auto simp: derived_status_def split: option.split)

text \<open>The labels a model writes into its differences decide nothing: rewriting the claimed expected
  values and the claimed contract statuses in any way leaves the verdict on the proposal, whatever its
  action, the same.\<close>

theorem model_labels_ignored:
  "validate (p\<lparr>dp_env_diffs := map (relabel ex st) (dp_env_diffs p)\<rparr>) contract live_env = validate p contract live_env"
proof -
  let ?q = "p\<lparr>dp_env_diffs := map (relabel ex st) (dp_env_diffs p)\<rparr>"
  have dev: "check_deviation contract \<circ> relabel ex st = check_deviation contract"
    by (auto simp: check_deviation_def fun_eq_iff)
  have doc: "check_documentable contract \<circ> relabel ex st = check_documentable contract"
  proof
    fix d show "(check_documentable contract \<circ> relabel ex st) d = check_documentable contract d"
      by (cases "map_of contract (ed_name d)") (simp_all add: check_documentable_def)
  qed
  have tgt: "check_docs_target contract ?q \<circ> relabel ex st = check_docs_target contract p"
  proof
    fix d show "(check_docs_target contract ?q \<circ> relabel ex st) d = check_docs_target contract p d"
      by (cases "map_of contract (ed_name d)") (simp_all add: check_docs_target_def)
  qed
  have "(\<lambda>d. derived_status contract d \<noteq> None) \<circ> relabel ex st = (\<lambda>d. derived_status contract d \<noteq> None)"
    by (simp add: fun_eq_iff)
  then have "validate_rollback ?q contract live_env = validate_rollback p contract live_env"
    by (cases "dp_target_revision p")
      (simp_all add: validate_rollback_def check_each_map dev check_conflicts_relabel filter_map del: not_None_eq)
  moreover have "validate_docs_pr ?q contract = validate_docs_pr p contract"
    by (simp add: validate_docs_pr_def check_each_map doc tgt)
  ultimately show ?thesis by (simp add: validate_def)
qed

text \<open>A documentation pull request that passes never documents a secret-like variable, never sanctions
  a change the contract forbids, rests on a merged pull request for every undeclared variable, and edits
  the file and section the contract names.\<close>

theorem docs_pr_sanctioned:
  assumes "validate p contract live_env = Inr ()" and "dp_action p = DocsPr" and "d \<in> set (dp_env_diffs p)"
  shows "\<not> is_secret_name (ed_name d) \<and>
     (case map_of contract (ed_name d) of
        None \<Rightarrow> (\<exists>url. ed_recent_pr_match d = Some url \<and> url \<noteq> [])
      | Some rule \<Rightarrow> er_allow_manual_change rule \<and> dp_target_docs_file p = Some (er_docs_file rule) \<and>
          dp_target_docs_section p = Some (er_docs_section rule) \<and> \<not> path_rejected (er_docs_file rule))"
proof -
  from assms(1,2) have v: "validate_docs_pr p contract = Inr ()"
    and path: "case dp_target_docs_file p of None \<Rightarrow> True | Some f \<Rightarrow> \<not> path_rejected f"
    by (auto simp: validate_Inr split: option.split)
  from v assms(3) have "check_documentable contract d = Inr ()" "check_docs_target contract p d = Inr ()"
    unfolding validate_docs_pr_def rbind_Inr_iff check_each_Inr by blast+
  with path show ?thesis
    by (auto simp: check_documentable_def check_docs_target_def rbind_Inr_iff split: option.splits)
qed

definition demo_docs_pr :: proposal where
  "demo_docs_pr = demo_rollback\<lparr>dp_action := DocsPr,
     dp_env_diffs := [\<lparr>ed_name = ''FEATURE'', ed_expected = None, ed_live = Some ''off'',
       ed_contract_status = Match, ed_debug_config_value = None, ed_recent_pr_match = None\<rparr>],
     dp_target_docs_file := Some ''demo/docs/runbook.md'', dp_target_docs_section := Some ''S''\<rparr>"

lemma demo_docs_pr_valid: "validate demo_docs_pr demo_contract None = Inr ()"
  by (simp add: validate_def validate_docs_pr_def demo_docs_pr_def demo_rollback_def DRIFT_ACTIONS_def
      check_documentable_def check_docs_target_def is_secret_name_def SECRET_NAME_PARTS_def contains_str_def
      demo_contract_def demo_rule_def require_def path_rejected_def upper_char_def starts_with_def)

theorem docs_pr_sanctioned_witness: "\<not> is_secret_name ''FEATURE''"
  using docs_pr_sanctioned [OF demo_docs_pr_valid, of "hd (dp_env_diffs demo_docs_pr)"]
  by (simp add: demo_docs_pr_def)

section \<open>What the classifier decides\<close>

definition deviates :: "contract_env \<Rightarrow> (string \<times> string) list \<Rightarrow> string \<Rightarrow> bool" where
  "deviates contract live_env name \<longleftrightarrow>
     (case map_of contract name of None \<Rightarrow> True | Some rule \<Rightarrow> map_of live_env name \<noteq> Some (er_value rule))"

lemma map_filter_names:
  "list_all2 (\<lambda>x y. classify_var contract live_env prs x = Inr y) names found \<Longrightarrow>
     map (ed_name \<circ> fst) (List.map_filter id found) = filter (deviates contract live_env) names"
proof (induction rule: list_all2_induct)
  case (Cons x xs y ys)
  then show ?case
    by (auto simp: classify_var_def deviates_def result_simps map_filter_simps split: option.splits if_splits)
qed (simp add: map_filter_simps)

definition forbidden_change :: "contract_env \<Rightarrow> env_diff \<Rightarrow> bool" where
  "forbidden_change contract d \<longleftrightarrow> (\<exists>r. map_of contract (ed_name d) = Some r \<and> \<not> er_allow_manual_change r)"

definition unexplained :: "contract_env \<Rightarrow> env_diff \<Rightarrow> bool" where
  "unexplained contract d \<longleftrightarrow> map_of contract (ed_name d) = None \<and> ed_recent_pr_match d \<in> {None, Some []}"

lemma classify_var_action:
  assumes "classify_var contract live_env prs n = Inr (Some (d, a))"
  shows "ed_live d = map_of live_env (ed_name d) \<and>
    a = (if forbidden_change contract d then DriftIssue else if unexplained contract d then Escalation else DocsPr)"
  using assms by (auto simp: classify_var_def forbidden_change_def unexplained_def result_simps split: option.splits if_splits)

lemma found_pair:
  assumes "list_all2 (\<lambda>x y. classify_var contract live_env prs x = Inr y) names found"
    and "pair \<in> set (List.map_filter id found)"
  shows "\<exists>n. classify_var contract live_env prs n = Inr (Some pair)"
  using assms by (induction rule: list_all2_induct) (auto simp: map_filter_simps split: option.splits)

lemma chosen_action:
  assumes "list_all2 (\<lambda>x y. classify_var contract live_env prs x = Inr y) names found"
    and "pairs = List.map_filter id found"
  shows "choose_action (map snd pairs) =
    (if \<exists>d \<in> set (map fst pairs). forbidden_change contract d then DriftIssue
     else if \<exists>d \<in> set (map fst pairs). unexplained contract d then Escalation else DocsPr)"
proof -
  have each: "a = (if forbidden_change contract d then DriftIssue
      else if unexplained contract d then Escalation else DocsPr)" if "(d, a) \<in> set pairs" for d a
    using that assms found_pair classify_var_action by metis
  have "DriftIssue \<in> snd ` set pairs \<longleftrightarrow> (\<exists>x \<in> set pairs. forbidden_change contract (fst x))"
    using each by (force split: if_splits)
  moreover have "Escalation \<in> snd ` set pairs \<longleftrightarrow> (\<exists>x \<in> set pairs. unexplained contract (fst x))"
    if "\<not> (\<exists>x \<in> set pairs. forbidden_change contract (fst x))"
    using that each by (force split: if_splits)
  ultimately show ?thesis by (simp add: choose_action_def)
qed

definition docs_file_known :: "contract_env \<Rightarrow> string option \<Rightarrow> bool" where
  "docs_file_known contract f \<longleftrightarrow>
     f \<in> {None, Some ''demo/docs/runbook.md''} \<or> (\<exists>(n, r) \<in> set contract. f = Some (er_docs_file r))"

lemma classify_cases:
  assumes "classify contract live_env prs = Inr p"
  shows "\<exists>found.
    list_all2 (\<lambda>x y. classify_var contract live_env prs x = Inr y) (env_var_names contract live_env) found \<and>
    dp_env_diffs p = map fst (List.map_filter id found) \<and>
    dp_action p = (if dp_env_diffs p = [] then NoOp else choose_action (map snd (List.map_filter id found))) \<and>
    dp_confidence p \<in> {Some 1, Some (9 / 10)} \<and> docs_file_known contract (dp_target_docs_file p)"
proof -
  from assms obtain found where
    f: "list_all2 (\<lambda>x y. classify_var contract live_env prs x = Inr y) (env_var_names contract live_env) found"
    and p: "(let pairs = List.map_filter id found; diffs = map fst pairs; actions = map snd pairs in
     case diffs of
       [] \<Rightarrow> Inr \<lparr>dp_action = NoOp, dp_env_diffs = [], dp_target_docs_file = None, dp_target_docs_section = None,
               dp_target_revision = None, dp_rationale = ''Live state matches contract.'',
               dp_confidence = Some 1, dp_requires_human_review = False, dp_blocked_reason = None\<rparr>
     | primary # _ \<Rightarrow>
         let chosen = choose_action actions;
             (file, sec) = (case map_of contract (ed_name primary) of
                None \<Rightarrow> (''demo/docs/runbook.md'', ''Runtime Configuration'')
              | Some rule \<Rightarrow> (er_docs_file rule, er_docs_section rule))
         in Inr \<lparr>dp_action = chosen, dp_env_diffs = diffs, dp_target_docs_file = Some file,
              dp_target_docs_section = Some sec, dp_target_revision = None, dp_rationale = RATIONALE chosen,
              dp_confidence = Some (9 / 10), dp_requires_human_review = (chosen = Escalation),
              dp_blocked_reason = None\<rparr>) = (Inr p :: (pyexc, proposal) res)"
    unfolding classify_def rbind_Inr_iff traverse_Inr_iff by blast
  show ?thesis
  proof (rule exI [of _ found], cases "List.map_filter id found")
    case Nil
    with f p show "list_all2 (\<lambda>x y. classify_var contract live_env prs x = Inr y) (env_var_names contract live_env) found \<and>
      dp_env_diffs p = map fst (List.map_filter id found) \<and>
      dp_action p = (if dp_env_diffs p = [] then NoOp else choose_action (map snd (List.map_filter id found))) \<and>
      dp_confidence p \<in> {Some 1, Some (9 / 10)} \<and> docs_file_known contract (dp_target_docs_file p)"
      by (auto simp: Let_def docs_file_known_def)
  next
    case (Cons pr prs')
    with f p show "list_all2 (\<lambda>x y. classify_var contract live_env prs x = Inr y) (env_var_names contract live_env) found \<and>
      dp_env_diffs p = map fst (List.map_filter id found) \<and>
      dp_action p = (if dp_env_diffs p = [] then NoOp else choose_action (map snd (List.map_filter id found))) \<and>
      dp_confidence p \<in> {Some 1, Some (9 / 10)} \<and> docs_file_known contract (dp_target_docs_file p)"
      by (cases "map_of contract (ed_name (fst pr))")
        (auto simp: Let_def docs_file_known_def dest!: map_of_SomeD)
  qed
qed

text \<open>The classifier reports exactly the variables that differ from the contract, in name order, and its
  action follows from them: none means no action, one change the contract forbids means an issue, else one
  undeclared variable without a merged pull request means escalation, else a documentation pull request.
  It never proposes a rollback.\<close>

theorem classifier_decides:
  assumes "classify contract live_env prs = Inr p"
  shows "map ed_name (dp_env_diffs p) = filter (deviates contract live_env) (env_var_names contract live_env) \<and>
    (\<forall>d \<in> set (dp_env_diffs p). ed_live d = map_of live_env (ed_name d)) \<and>
    dp_action p = (if dp_env_diffs p = [] then NoOp
      else if \<exists>d \<in> set (dp_env_diffs p). forbidden_change contract d then DriftIssue
      else if \<exists>d \<in> set (dp_env_diffs p). unexplained contract d then Escalation else DocsPr)"
proof -
  from classify_cases [OF assms] obtain found where f:
    "list_all2 (\<lambda>x y. classify_var contract live_env prs x = Inr y) (env_var_names contract live_env) found"
    "dp_env_diffs p = map fst (List.map_filter id found)"
    "dp_action p = (if dp_env_diffs p = [] then NoOp else choose_action (map snd (List.map_filter id found)))"
    by blast
  have "ed_live d = map_of live_env (ed_name d)" if "d \<in> set (dp_env_diffs p)" for d
  proof -
    from that f(2) obtain a where "(d, a) \<in> set (List.map_filter id found)" by auto
    with found_pair [OF f(1)] obtain n where "classify_var contract live_env prs n = Inr (Some (d, a))" by metis
    then show ?thesis using classify_var_action by blast
  qed
  with map_filter_names [OF f(1)] chosen_action [OF f(1) refl] f(2,3) show ?thesis by simp
qed

lemma demo_classified:
  "\<exists>p. classify demo_contract [(''PAYMENT_MODE'', ''live'')] [] = Inr p \<and> dp_action p = DriftIssue"
proof -
  have "env_var_names demo_contract [(''PAYMENT_MODE'', ''live'')] = [''FEATURE'', ''PAYMENT_MODE'']"
    by (simp add: env_var_names_def demo_contract_def)
  then show ?thesis
    by (simp add: classify_def classify_var_def demo_contract_def demo_rule_def choose_action_def map_filter_simps)
qed

theorem classifier_decides_witness:
  "\<exists>p. classify demo_contract [(''PAYMENT_MODE'', ''live'')] [] = Inr p \<and> dp_env_diffs p \<noteq> []"
proof -
  from demo_classified obtain p where
    p: "classify demo_contract [(''PAYMENT_MODE'', ''live'')] [] = Inr p" "dp_action p = DriftIssue" by blast
  with classifier_decides [OF p(1)] show ?thesis by (intro exI [of _ p]) auto
qed

text \<open>What the classifier decides is what the validator accepts: when the contract's paths are the safe
  ones its own schema admits, every classifier proposal other than a documentation pull request passes,
  whatever the live environment given to the validator.\<close>

theorem classifier_passes_validator:
  assumes "classify contract live_env prs = Inr p" and "dp_action p \<noteq> DocsPr"
    and "\<And>n r. (n, r) \<in> set contract \<Longrightarrow> \<not> path_rejected (er_docs_file r)"
  shows "validate p contract observed = Inr ()"
proof -
  from classify_cases [OF assms(1)] obtain acts where f:
    "dp_action p = (if dp_env_diffs p = [] then NoOp else choose_action acts)"
    "dp_confidence p \<in> {Some 1, Some (9 / 10)}" "docs_file_known contract (dp_target_docs_file p)" by blast
  from f(1) assms(2) have "dp_action p \<in> {NoOp, DriftIssue, Escalation}" "dp_action p \<noteq> NoOp \<longrightarrow> dp_env_diffs p \<noteq> []"
    by (auto simp: choose_action_def split: if_splits)
  moreover have "\<exists>c. dp_confidence p = Some c \<and> 0 \<le> c \<and> c \<le> 1" using f(2) by auto
  moreover have "\<not> path_rejected ''demo/docs/runbook.md''" by (simp add: path_rejected_def starts_with_def)
  then have "\<forall>f. dp_target_docs_file p = Some f \<longrightarrow> \<not> path_rejected f"
    using f(3) assms(3) by (auto simp: docs_file_known_def)
  ultimately show ?thesis by (auto simp: validate_Inr DRIFT_ACTIONS_def)
qed

theorem classifier_passes_validator_witness:
  "\<exists>p. classify demo_contract [(''PAYMENT_MODE'', ''live'')] [] = Inr p \<and> validate p demo_contract None = Inr ()"
proof -
  from demo_classified obtain p where
    p: "classify demo_contract [(''PAYMENT_MODE'', ''live'')] [] = Inr p" "dp_action p = DriftIssue" by blast
  have "validate p demo_contract None = Inr ()"
    by (rule classifier_passes_validator [OF p(1)])
      (auto simp: p(2) demo_contract_def demo_rule_def path_rejected_def starts_with_def)
  with p(1) show ?thesis by blast
qed

end
