(* ===== verification/ApprovalLink.thy ===== *)
theory ApprovalLink
  imports RollbackWorker PyJson
begin

text \<open>
  The coordinator's check of a rollback worker's answer (\<open>agent/adk_tools.py\<close>): only an approval
  whose identifier, link, token and expiry agree is recorded or shown.  \<open>urlsplit\<close> and
  \<open>parse_qsl\<close> are the standard library's; whether a bracketed host is an IP literal is a parameter,
  and a percent escape above 127 stands for a character no token contains.
\<close>

section \<open>Timestamps\<close>

text \<open>\<open>datetime.fromisoformat\<close> on the extended formats: a date, or a date, any separator and a time to
  the second, with an optional fraction and an optional offset in hours and minutes.  The result is
  in microseconds, a missing offset being UTC.\<close>

definition iso_offset :: "string \<Rightarrow> int option" where
  "iso_offset tz =
     (if tz = [] \<or> tz = ''Z'' then Some 0
      else if length tz = 6 \<and> tz ! 3 = CHR '':'' \<and> list_all is_digit [tz ! 1, tz ! 2, tz ! 4, tz ! 5] \<and>
              tz ! 0 \<in> set ''+-'' \<and> read_nat [tz ! 1, tz ! 2] < 24 \<and> read_nat [tz ! 4, tz ! 5] < 60
      then let m = int (60 * read_nat [tz ! 1, tz ! 2] + read_nat [tz ! 4, tz ! 5]) * 60000000
           in Some (if tz ! 0 = CHR ''-'' then - m else m)
      else None)"

definition iso_fraction :: "string \<Rightarrow> (nat \<times> string) option" where
  "iso_fraction s =
     (if s \<noteq> [] \<and> hd s \<in> set ''.,''
      then let ds = takeWhile is_digit (tl s) in
           if ds = [] then None else Some (read_nat (take 6 (ds @ ''000000'')), drop (length ds) (tl s))
      else Some (0, s))"

definition fromisoformat :: "string \<Rightarrow> int option" where
  "fromisoformat s =
     (let base = (\<lambda>d t. case parse_rfc3339 (d @ ''T'' @ t @ ''+00:00'') of Inl _ \<Rightarrow> None | Inr b \<Rightarrow> Some (int b)) in
      if length s = 10 then base s ''00:00:00''
      else case (base (take 10 s) (take 8 (drop 11 s)), iso_fraction (drop 19 s)) of
             (Some b, Some (u, tz)) \<Rightarrow> map_option (\<lambda>off. b + int u - off) (iso_offset tz)
           | _ \<Rightarrow> None)"

section \<open>URLs\<close>

record url =
  u_scheme :: string
  u_netloc :: string
  u_path :: string
  u_query :: string
  u_fragment :: string

definition is_alpha :: "char \<Rightarrow> bool" where
  "is_alpha c \<longleftrightarrow> (let n = (of_char c :: nat) in (65 \<le> n \<and> n \<le> 90) \<or> (97 \<le> n \<and> n \<le> 122))"

definition scheme_char :: "char \<Rightarrow> bool" where
  "scheme_char c \<longleftrightarrow> is_alpha c \<or> is_digit c \<or> c \<in> set ''+-.''"

definition lower_char :: "char \<Rightarrow> char" where
  "lower_char c = (let n = (of_char c :: nat) in if 65 \<le> n \<and> n \<le> 90 then char_of (n + 32) else c)"

definition url_clean :: "string \<Rightarrow> string" where
  "url_clean s = filter (\<lambda>c. (of_char c :: nat) \<notin> {9, 10, 13}) (dropWhile (\<lambda>c. (of_char c :: nat) \<le> 32) s)"

definition split_scheme :: "string \<Rightarrow> string \<times> string" where
  "split_scheme s =
     (let pre = takeWhile (\<lambda>c. c \<noteq> CHR '':'') s in
      if CHR '':'' \<in> set s \<and> pre \<noteq> [] \<and> is_alpha (hd pre) \<and> list_all scheme_char pre
      then (map lower_char pre, drop (Suc (length pre)) s) else ([], s))"

definition split_at :: "char \<Rightarrow> string \<Rightarrow> string \<times> string" where
  "split_at d s = (takeWhile (\<lambda>c. c \<noteq> d) s, drop 1 (dropWhile (\<lambda>c. c \<noteq> d) s))"

definition urlsplit :: "(string \<Rightarrow> bool) \<Rightarrow> string \<Rightarrow> url option" where
  "urlsplit ip_literal s =
     (let (scheme, rest) = split_scheme (url_clean s);
          (netloc, rest) =
            (if starts_with ''//'' rest
             then (takeWhile (\<lambda>c. c \<notin> set ''/?#'') (drop 2 rest), dropWhile (\<lambda>c. c \<notin> set ''/?#'') (drop 2 rest))
             else ([], rest));
          (rest, fragment) = split_at (CHR ''#'') rest;
          (path, query) = split_at (CHR ''?'') rest
      in if (CHR ''['' \<in> set netloc) \<noteq> (CHR '']'' \<in> set netloc) \<or>
            (CHR ''['' \<in> set netloc \<and> \<not> ip_literal (fst (split_at (CHR '']'') (snd (split_at (CHR ''['') netloc)))))
         then None
         else Some \<lparr>u_scheme = scheme, u_netloc = netloc, u_path = path, u_query = query, u_fragment = fragment\<rparr>)"

text \<open>\<open>parsed.username or parsed.password\<close>.\<close>

definition has_userinfo :: "string \<Rightarrow> bool" where
  "has_userinfo netloc \<longleftrightarrow>
     CHR ''@'' \<in> set netloc \<and>
     (let (name, password) = split_at (CHR '':'') (fst (rsplit_char (CHR ''@'') netloc)) in name \<noteq> [] \<or> password \<noteq> [])"

fun unquote :: "string \<Rightarrow> string" where
  "unquote (c # a # b # s) =
     (if c = CHR ''%''
      then case (hex_val a, hex_val b) of
             (Some x, Some y) \<Rightarrow> char_of (16 * x + y) # unquote s
           | _ \<Rightarrow> c # unquote (a # b # s)
      else c # unquote (a # b # s))"
| "unquote s = s"

definition unquote_plus :: "string \<Rightarrow> string" where
  "unquote_plus s = unquote (map (\<lambda>c. if c = CHR ''+'' then CHR '' '' else c) s)"

definition parse_qsl :: "string \<Rightarrow> (string \<times> string) list" where
  "parse_qsl q =
     map (\<lambda>p. let (n, v) = split_at (CHR ''='') p in (unquote_plus n, unquote_plus v))
       (filter (\<lambda>p. p \<noteq> []) (split_char (CHR ''&'') q))"

section \<open>The check\<close>

definition APPROVAL_TOKEN_SHAPE :: "string \<Rightarrow> bool" where
  "APPROVAL_TOKEN_SHAPE s \<longleftrightarrow>
     43 \<le> length s \<and> length s \<le> 64 \<and> list_all (in_ranges (alnum_cls @ [(95, 95), (45, 45)])) s"

definition approval_path :: "string \<Rightarrow> string" where
  "approval_path approval_id = ''/approvals/'' @ approval_id"

definition approval_url_matches :: "(string \<Rightarrow> bool) \<Rightarrow> string \<Rightarrow> string \<Rightarrow> bool" where
  "approval_url_matches ip_literal approval_url approval_id \<longleftrightarrow>
     (case urlsplit ip_literal approval_url of
        None \<Rightarrow> False
      | Some u \<Rightarrow>
          u_scheme u \<in> set [[], ''http'', ''https''] \<and> \<not> (u_scheme u = [] \<and> u_netloc u \<noteq> []) \<and>
          \<not> has_userinfo (u_netloc u) \<and> u_path u = approval_path approval_id \<and> u_fragment u = [] \<and>
          (case parse_qsl (u_query u) of
             [(k, token)] \<Rightarrow> k = ''t'' \<and> APPROVAL_TOKEN_SHAPE token
           | _ \<Rightarrow> False))"

record approval_link =
  al_id :: string
  al_url :: string
  al_expires :: string
  al_token :: string

definition validated_approval :: "(string \<Rightarrow> bool) \<Rightarrow> pyval \<Rightarrow> approval_link option" where
  "validated_approval ip_literal resp =
     (case resp of
        PDict d \<Rightarrow>
          (case (dget d ''approval_id'', dget d ''approval_url'', dget d ''expires_at'', dget d ''approval_token'') of
             (PStr i, PStr u, PStr e, PStr t) \<Rightarrow>
               if fullmatch UUID_SHAPE i \<and> fromisoformat e \<noteq> None \<and> approval_url_matches ip_literal u i \<and> t \<noteq> []
                  \<and> (case urlsplit ip_literal u of
                       Some s \<Rightarrow> map_of (parse_qsl (u_query s)) ''t'' = Some t | None \<Rightarrow> False)
               then Some \<lparr>al_id = i, al_url = u, al_expires = e, al_token = t\<rparr> else None
           | _ \<Rightarrow> None)
      | _ \<Rightarrow> None)"

text \<open>The link stored in the decision row.\<close>

definition row_link :: "approval_link \<Rightarrow> string" where
  "row_link a = ''/approvals/'' @ al_id a @ ''?t='' @ al_token a"

section \<open>Links of the produced form\<close>

lemma split_at_simps:
  "d \<notin> set a \<Longrightarrow> split_at d (a @ d # b) = (a, b)"
  "d \<notin> set a \<Longrightarrow> split_at d a = (a, [])"
  unfolding split_at_def by (induction a) auto

definition link_char :: "char \<Rightarrow> bool" where
  "link_char c \<longleftrightarrow> in_ranges (alnum_cls @ [(95, 95), (45, 45)]) c"

lemma link_char_low: "link_char c \<Longrightarrow> 45 \<le> (of_char c :: nat)"
  by (auto simp: link_char_def alnum_cls_def)

lemma link_char_special: "\<forall>d \<in> set ''/?#@[]:%+&=''. \<not> link_char d"
  by (simp add: link_char_def alnum_cls_def)

lemma link_char_not: "link_char c \<Longrightarrow> c \<notin> set ''/?#@[]:%+&='' \<and> \<not> (of_char c :: nat) \<le> 32"
  using link_char_low [of c] link_char_special by fastforce

lemma link_chars_not: "list_all link_char s \<Longrightarrow> d \<in> set ''/?#@[]:%+&='' \<Longrightarrow> d \<notin> set s"
  unfolding list_all_iff using link_char_special by blast

definition words_of :: "(char \<Rightarrow> bool) \<Rightarrow> rx \<Rightarrow> bool" where
  "words_of P r \<longleftrightarrow> (\<forall>w \<in> lang r. list_all P w)"

lemma words_of_simps:
  "words_of P r \<Longrightarrow> words_of P s \<Longrightarrow> words_of P (RSeq r s)"
  "(\<And>c. in_ranges rs c \<Longrightarrow> P c) \<Longrightarrow> words_of P (rrep n (RCls rs))"
  "list_all P w \<Longrightarrow> words_of P (rstr w)"
  unfolding words_of_def lang_rrep_cls lang_rstr by (auto simp: list_all_iff)

lemma hex_link_char: "in_ranges hex_cls c \<Longrightarrow> link_char c"
  by (auto simp: hex_cls_def link_char_def alnum_cls_def)

lemma UUID_SHAPE_link: "fullmatch UUID_SHAPE i \<Longrightarrow> list_all link_char i"
proof -
  have "link_char (CHR ''-'')" by (simp add: link_char_def alnum_cls_def)
  then have "words_of link_char UUID_SHAPE"
    unfolding UUID_SHAPE_def by (intro words_of_simps hex_link_char) simp_all
  then show "fullmatch UUID_SHAPE i \<Longrightarrow> list_all link_char i" by (simp add: words_of_def fullmatch_iff)
qed

lemma TOKEN_SHAPE_link: "APPROVAL_TOKEN_SHAPE t \<Longrightarrow> list_all link_char t"
  by (simp add: APPROVAL_TOKEN_SHAPE_def link_char_def [abs_def])

lemma url_clean_id: "\<forall>c \<in> set s. \<not> (of_char c :: nat) \<le> 32 \<Longrightarrow> url_clean s = s"
  unfolding url_clean_def by (cases s) (auto simp: filter_id_conv)

lemma unquote_id: "CHR ''%'' \<notin> set s \<Longrightarrow> unquote s = s"
  by (induction s rule: unquote.induct) auto

lemma unquote_plus_id: "CHR ''%'' \<notin> set s \<Longrightarrow> CHR ''+'' \<notin> set s \<Longrightarrow> unquote_plus s = s"
  unfolding unquote_plus_def by (subst map_idI) (auto simp: unquote_id)

lemma split_char_single: "c \<notin> set s \<Longrightarrow> split_char c s = [s]"
  by (induction s) auto

lemma parse_token_query:
  assumes "list_all link_char t"
  shows "parse_qsl (''t='' @ t) = [(''t'', t)]"
proof -
  have n: "CHR ''&'' \<notin> set t" "CHR ''%'' \<notin> set t" "CHR ''+'' \<notin> set t"
    by (rule link_chars_not [OF assms], simp)+
  have "split_char (CHR ''&'') (''t='' @ t) = [''t='' @ t]" by (rule split_char_single) (simp add: n)
  moreover have "split_at (CHR ''='') (''t'' @ CHR ''='' # t) = (''t'', t)" by (rule split_at_simps) simp
  ultimately show ?thesis by (simp add: parse_qsl_def unquote_plus_id n)
qed

lemma takeWhile_stop: "list_all P a \<Longrightarrow> \<not> P d \<Longrightarrow> takeWhile P (a @ d # b) = a \<and> dropWhile P (a @ d # b) = d # b"
  by (induction a) auto

definition plain_host :: "string \<Rightarrow> bool" where
  "plain_host h \<longleftrightarrow> list_all (\<lambda>c. c \<notin> set ''/?#@[]'' \<and> \<not> (of_char c :: nat) \<le> 32) h"

lemma urlsplit_link:
  assumes i: "list_all link_char i" and t: "list_all link_char t" and h: "plain_host h"
  shows "urlsplit ip (''https://'' @ h @ ''/approvals/'' @ i @ ''?t='' @ t) =
      Some \<lparr>u_scheme = ''https'', u_netloc = h, u_path = approval_path i, u_query = ''t='' @ t, u_fragment = []\<rparr>"
    and "urlsplit ip (''/approvals/'' @ i @ ''?t='' @ t) =
      Some \<lparr>u_scheme = [], u_netloc = [], u_path = approval_path i, u_query = ''t='' @ t, u_fragment = []\<rparr>"
proof -
  let ?r = "''/approvals/'' @ i @ ''?t='' @ t"
  have it: "c \<notin> set ''/?#@[]:%+&='' \<and> \<not> (of_char c :: nat) \<le> 32" if "c \<in> set i \<union> set t" for c
  proof -
    from that i t have "link_char c" unfolding list_all_iff by blast
    then show ?thesis by (rule link_char_not)
  qed
  have clean: "\<forall>c \<in> set ?r. \<not> (of_char c :: nat) \<le> 32" using it by auto
  have frag: "split_at (CHR ''#'') ?r = (?r, [])" by (rule split_at_simps) (use it in auto)
  have "split_at (CHR ''?'') ((''/approvals/'' @ i) @ CHR ''?'' # ''t='' @ t) = (''/approvals/'' @ i, ''t='' @ t)"
    by (rule split_at_simps) (use it in auto)
  then have path: "split_at (CHR ''?'') ?r = (approval_path i, ''t='' @ t)" by (simp add: approval_path_def)
  have "url_clean (''https://'' @ h @ ?r) = ''https://'' @ h @ ?r"
    by (rule url_clean_id) (use clean h in \<open>auto simp: plain_host_def list_all_iff\<close>)
  moreover have "split_scheme (''https://'' @ h @ ?r) = (''https'', ''//'' @ h @ ?r)"
    by (simp add: split_scheme_def is_alpha_def scheme_char_def lower_char_def)
  moreover have "takeWhile (\<lambda>c. c \<notin> set ''/?#'') (h @ CHR ''/'' # drop 1 ?r) = h \<and>
      dropWhile (\<lambda>c. c \<notin> set ''/?#'') (h @ CHR ''/'' # drop 1 ?r) = CHR ''/'' # drop 1 ?r"
    by (rule takeWhile_stop) (use h in \<open>auto simp: plain_host_def list_all_iff\<close>)
  moreover have "CHR ''['' \<notin> set h" "CHR '']'' \<notin> set h" using h by (auto simp: plain_host_def list_all_iff)
  ultimately show "urlsplit ip (''https://'' @ h @ ?r) =
      Some \<lparr>u_scheme = ''https'', u_netloc = h, u_path = approval_path i, u_query = ''t='' @ t, u_fragment = []\<rparr>"
    using frag path by (simp add: urlsplit_def starts_with_def)
  have "url_clean ?r = ?r" by (rule url_clean_id [OF clean])
  moreover have "split_scheme ?r = ([], ?r)" by (simp add: split_scheme_def is_alpha_def)
  ultimately show "urlsplit ip ?r =
      Some \<lparr>u_scheme = [], u_netloc = [], u_path = approval_path i, u_query = ''t='' @ t, u_fragment = []\<rparr>"
    using frag path by (simp add: urlsplit_def starts_with_def)
qed

lemma approval_link_matches:
  assumes "list_all link_char i" and "APPROVAL_TOKEN_SHAPE t" and "plain_host h"
  shows "approval_url_matches ip (''https://'' @ h @ ''/approvals/'' @ i @ ''?t='' @ t) i"
    and "approval_url_matches ip (''/approvals/'' @ i @ ''?t='' @ t) i"
proof -
  note tl = TOKEN_SHAPE_link [OF assms(2)]
  have "CHR ''@'' \<notin> set h" using assms(3) by (auto simp: plain_host_def list_all_iff)
  then show "approval_url_matches ip (''https://'' @ h @ ''/approvals/'' @ i @ ''?t='' @ t) i"
    and "approval_url_matches ip (''/approvals/'' @ i @ ''?t='' @ t) i"
    unfolding approval_url_matches_def urlsplit_link [OF assms(1) tl assms(3)]
    using parse_token_query [OF tl] assms(2) by (simp_all add: has_userinfo_def)
qed

section \<open>The worker's expiry is a timestamp the coordinator reads back\<close>

lemma show_nat_snoc: "10 \<le> n \<Longrightarrow> show_nat n = show_nat (n div 10) @ [digit_char (n mod 10)]"
  by (subst show_nat.simps) simp

lemma show_nat_tail:
  "\<exists>ds. show_nat (10 ^ k + u) = digit_char 1 # ds \<and> length ds = k \<and> list_all is_digit ds \<and> read_nat ds = u"
  if "u < 10 ^ k"
  using that
proof (induction k arbitrary: u)
  case 0
  then show ?case by (subst show_nat.simps) (simp add: read_nat_def)
next
  case (Suc k)
  have "u div 10 < 10 ^ k" using Suc.prems by (simp add: less_mult_imp_div_less mult.commute)
  then obtain ds where ds: "show_nat (10 ^ k + u div 10) = digit_char 1 # ds" "length ds = k"
    "list_all is_digit ds" "read_nat ds = u div 10" using Suc.IH by blast
  have "(10 ^ Suc k + u) div 10 = 10 ^ k + u div 10" "(10 ^ Suc k + u) mod 10 = u mod 10" "10 \<le> 10 ^ Suc k + u"
    by (simp_all add: trans_le_add1)
  then have "show_nat (10 ^ Suc k + u) = digit_char 1 # (ds @ [digit_char (u mod 10)])"
    using show_nat_snoc [of "10 ^ Suc k + u"] ds(1) by simp
  moreover have "read_nat (ds @ [digit_char (u mod 10)]) = u" using ds(4) by (simp add: read_nat_snoc)
  ultimately show ?case using ds(2,3) by (intro exI [of _ "ds @ [digit_char (u mod 10)]"]) simp
qed

lemma iso_utc_layout:
  assumes "valid_instant t"
  shows "length (iso_utc t) = 25 \<and> take 10 (iso_utc t) @ ''T'' @ take 8 (drop 11 (iso_utc t)) @ ''+00:00'' = iso_utc t"
proof -
  from iso_utc_shape [OF assms] have len: "length (iso_utc t) = 25"
    and f: "take 1 (drop 10 (iso_utc t)) = ''T''" "take 6 (drop 19 (iso_utc t)) = ''+00:00''"
    by (auto simp: is_rfc3339_utc_def rfc3339_fields_def Let_def split: if_splits)
  have "drop 10 (iso_utc t) = take 1 (drop 10 (iso_utc t)) @ drop 11 (iso_utc t)"
    using append_take_drop_id [of 1 "drop 10 (iso_utc t)"] by simp
  moreover have "drop 11 (iso_utc t) = take 8 (drop 11 (iso_utc t)) @ drop 19 (iso_utc t)"
    using append_take_drop_id [of 8 "drop 11 (iso_utc t)"] by simp
  moreover have "drop 19 (iso_utc t) = ''+00:00''" using f(2) len by simp
  ultimately show ?thesis using f(1) len append_take_drop_id [of 10 "iso_utc t"] by metis
qed

lemma fromisoformat_iso_micro:
  assumes "valid_instant t"
  shows "fromisoformat (iso_micro t) = Some (int t)"
proof -
  define I u where "I = iso_utc t" and "u = t mod 1000000"
  from iso_utc_layout [OF assms] have len: "length I = 25"
    and lay: "take 10 I @ ''T'' @ take 8 (drop 11 I) @ ''+00:00'' = I" by (simp_all add: I_def)
  define frac where "frac = (if u = 0 then [] else ''.'' @ drop 1 (show_nat (1000000 + u)))"
  have s: "iso_micro t = take 19 I @ frac @ ''+00:00''" by (simp add: iso_micro_def Let_def I_def u_def frac_def)
  have base: "parse_rfc3339 (take 10 (iso_micro t) @ ''T'' @ take 8 (drop 11 (iso_micro t)) @ ''+00:00'')
      = Inr (t div 1000000 * 1000000)"
    using parse_iso_utc [OF assms] lay len unfolding s I_def by (simp add: drop_take)
  have rest: "drop 19 (iso_micro t) = frac @ ''+00:00''" using len by (simp add: s)
  have off: "iso_offset ''+00:00'' = Some 0" by (simp add: iso_offset_def is_digit_def read_nat_def digit_val_def)
  have "iso_fraction (frac @ ''+00:00'') = Some (u, ''+00:00'')"
  proof (cases "u = 0")
    case True
    then show ?thesis by (simp add: frac_def iso_fraction_def)
  next
    case False
    have "u < 10 ^ 6" by (simp add: u_def)
    from show_nat_tail [OF this] obtain ds where ds: "show_nat (1000000 + u) = digit_char 1 # ds"
      "length ds = 6" "list_all is_digit ds" "read_nat ds = u" by auto
    have "takeWhile is_digit (ds @ CHR ''+'' # ''00:00'') = ds"
      using takeWhile_stop [OF ds(3), of "CHR ''+''" "''00:00''"] by (simp add: is_digit_def)
    with ds False show ?thesis by (auto simp: frac_def iso_fraction_def)
  qed
  moreover have "length (iso_micro t) \<noteq> 10" using len by (simp add: s)
  ultimately have "fromisoformat (iso_micro t) = Some (int (t div 1000000 * 1000000) + int u)"
    unfolding fromisoformat_def Let_def base rest by (simp add: off)
  moreover have "t div 1000000 * 1000000 + u = t" by (simp add: u_def)
  ultimately show ?thesis by (metis of_nat_add)
qed

lemma approval_create_fields:
  assumes "approval_create mac now aid tok rv reason key who ttl env docs = (Inr (a, tok'), docs')"
  shows "\<exists>exp. add_minutes now ttl = Inr exp \<and> ap_id a = aid \<and> ap_expires_at a = PTime exp \<and> tok' = tok"
proof -
  have "dget (create_data mac now aid tok rv reason key who exp env) ''expires_at'' = PTime exp" for exp
    by (simp add: create_data_def)
  with assms show ?thesis
    by (auto simp: approval_create_def Let_def create_data_Approval approval_of_def split: sum.splits)
qed

lemma approval_create_stored:
  assumes "approval_create mac now aid tok rv reason key who ttl env docs = (Inr (a, tok'), docs')" and "add_minutes now ttl = Inr exp"
  shows "\<exists>d. docs' aid = Some d \<and> dget d ''expires_at'' = PTime exp"
  using assms by (auto simp: approval_create_def Let_def create_data_def split: sum.splits)

lemma one_pair: "(case xs of [(k, t)] \<Rightarrow> P k t | _ \<Rightarrow> False) \<longleftrightarrow> (\<exists>k t. xs = [(k, t)] \<and> P k t)"
  by (auto split: list.split)

text \<open>C19: Every approval the rollback worker issues passes the coordinator's check, with the identifier,
  link and token the worker minted and the expiry it stored, fifteen minutes after the issue, which the
  coordinator reads back as that very instant, whatever the approval store held before: the producer and the
  consumer of the approval link agree, for a worker whose coordinator URL is https and a plain host name, and for
  identifiers and tokens of the shape that \<open>uuid4\<close> and \<open>token_urlsafe\<close> draw.\<close>

theorem issued_approval_accepted:
  assumes "propose mac env inp caller req docs = (Ok body, docs')"
    and "we_coordinator_url env = ''https://'' @ host" and "plain_host host"
    and "fullmatch UUID_SHAPE (pi_approval_id inp)" and "APPROVAL_TOKEN_SHAPE (pi_token inp)"
  shows "\<exists>exp link d. add_minutes (pi_now inp) 15 = Inr exp \<and>
    docs' (pi_approval_id inp) = Some d \<and> dget d ''expires_at'' = PTime exp \<and>
    dget body ''expires_at'' = PStr (al_expires link) \<and> fromisoformat (al_expires link) = Some (int exp) \<and>
    validated_approval ip_literal (PDict body) = Some link \<and> al_id link = pi_approval_id inp \<and> al_token link = pi_token inp \<and>
    al_url link = ''https://'' @ host @ ''/approvals/'' @ pi_approval_id inp @ ''?t='' @ pi_token inp"
proof -
  let ?u = "''https://'' @ host @ ''/approvals/'' @ pi_approval_id inp @ ''?t='' @ pi_token inp"
  obtain svc where svc: "pi_service inp = Inr svc"
    using assms(1) by (cases "pi_service inp") (auto simp: propose_def)
  with assms(1) obtain a docs1 where
    c: "approval_create mac (pi_now inp) (pi_approval_id inp) (pi_token inp) (pr_target_revision req) (pr_reason req)
        (we_hmac_key env) caller 15
        (env_change_snapshot (pi_revision inp) (iso_micro (pi_observed inp)) (snd (list_revisions svc))
           (pr_target_revision req) (pr_contract_env req) (pr_contract_hash req)) docs = (Inr (a, pi_token inp), docs1)"
    and body: "body = [(''approval_id'', PStr (ap_id a)), (''approval_token'', PStr (pi_token inp)),
      (''approval_url'', PStr (we_coordinator_url env @ ''/approvals/'' @ ap_id a @ ''?t='' @ pi_token inp)),
      (''expires_at'', PStr (case ap_expires_at a of PTime t \<Rightarrow> iso_micro t | _ \<Rightarrow> []))]" and docs: "docs' = docs1"
    by (auto simp: propose_def Let_def split: if_splits prod.splits sum.splits dest: approval_create_fields)
  from approval_create_fields [OF c] obtain exp where exp: "add_minutes (pi_now inp) 15 = Inr exp"
    and a: "ap_id a = pi_approval_id inp" "ap_expires_at a = PTime exp" by blast
  have body: "body = [(''approval_id'', PStr (pi_approval_id inp)), (''approval_token'', PStr (pi_token inp)),
      (''approval_url'', PStr ?u), (''expires_at'', PStr (iso_micro exp))]"
    unfolding body a assms(2) by simp
  have stored: "\<exists>d. docs' (pi_approval_id inp) = Some d \<and> dget d ''expires_at'' = PTime exp"
    using approval_create_stored [OF c exp] docs by simp
  from exp have "valid_instant exp"
    by (auto simp: add_minutes_def Let_def valid_instant_def nat_less_iff simp del: of_nat_mult split: if_splits)
  then have e: "fromisoformat (iso_micro exp) = Some (int exp)" by (rule fromisoformat_iso_micro)
  have links: "list_all link_char (pi_approval_id inp)" "list_all link_char (pi_token inp)"
    using UUID_SHAPE_link [OF assms(4)] TOKEN_SHAPE_link [OF assms(5)] by blast+
  have "pi_token inp \<noteq> []" using assms(5) by (auto simp: APPROVAL_TOKEN_SHAPE_def)
  then have "validated_approval ip_literal (PDict body) =
      Some \<lparr>al_id = pi_approval_id inp, al_url = ?u, al_expires = iso_micro exp, al_token = pi_token inp\<rparr>"
    using assms(4) e approval_link_matches(1) [OF links(1) assms(5) assms(3), of ip_literal]
      parse_token_query [OF links(2)] urlsplit_link(1) [OF links assms(3), of ip_literal]
    by (simp add: validated_approval_def body)
  moreover have "dget body ''expires_at'' = PStr (iso_micro exp)" by (simp add: body)
  moreover from stored obtain d where "docs' (pi_approval_id inp) = Some d" "dget d ''expires_at'' = PTime exp" by blast
  ultimately show ?thesis using exp e
    by (intro exI [of _ exp] exI [of _ d]
        exI [of _ "\<lparr>al_id = pi_approval_id inp, al_url = ?u, al_expires = iso_micro exp, al_token = pi_token inp\<rparr>"]) simp
qed

text \<open>What passes the coordinator's check is one credential: the identifier has the UUID shape, the token
  the shape of an issued token, and the link rebuilt from the two for the decision row, without the
  worker's host, passes the same check again and carries exactly that token.\<close>

theorem row_link_rebuilt:
  assumes "validated_approval ip_literal resp = Some a"
  shows "fullmatch UUID_SHAPE (al_id a) \<and> APPROVAL_TOKEN_SHAPE (al_token a) \<and> fromisoformat (al_expires a) \<noteq> None \<and>
    validated_approval ip_literal (PDict [(''approval_id'', PStr (al_id a)), (''approval_url'', PStr (row_link a)),
        (''expires_at'', PStr (al_expires a)), (''approval_token'', PStr (al_token a))]) = Some (a\<lparr>al_url := row_link a\<rparr>)"
proof -
  from assms obtain d where d: "resp = PDict d" by (cases resp) (auto simp: validated_approval_def)
  from assms obtain s where a: "fullmatch UUID_SHAPE (al_id a)" "fromisoformat (al_expires a) \<noteq> None"
    "approval_url_matches ip_literal (al_url a) (al_id a)" "al_token a \<noteq> []"
    "urlsplit ip_literal (al_url a) = Some s" "map_of (parse_qsl (u_query s)) ''t'' = Some (al_token a)"
    unfolding d validated_approval_def by (auto split: pyval.splits if_splits option.splits)
  from a(3,5) have "\<exists>k t. parse_qsl (u_query s) = [(k, t)] \<and> k = ''t'' \<and> APPROVAL_TOKEN_SHAPE t"
    unfolding approval_url_matches_def by (simp add: one_pair)
  with a(6) have tok: "APPROVAL_TOKEN_SHAPE (al_token a)" by auto
  have links: "list_all link_char (al_id a)" "list_all link_char (al_token a)"
    using UUID_SHAPE_link [OF a(1)] TOKEN_SHAPE_link [OF tok] by blast+
  have "plain_host []" by (simp add: plain_host_def)
  then have "validated_approval ip_literal (PDict [(''approval_id'', PStr (al_id a)), (''approval_url'', PStr (row_link a)),
        (''expires_at'', PStr (al_expires a)), (''approval_token'', PStr (al_token a))]) = Some (a\<lparr>al_url := row_link a\<rparr>)"
    using a tok approval_link_matches(2) [OF links(1) tok, of "[]" ip_literal] parse_token_query [OF links(2)]
      urlsplit_link(2) [OF links, of "[]" ip_literal]
    by (simp add: validated_approval_def row_link_def)
  with a tok show ?thesis by blast
qed

definition demo_id :: string where
  "demo_id = replicate 8 (CHR ''a'') @ ''-'' @ replicate 4 (CHR ''a'') @ ''-'' @ replicate 4 (CHR ''a'') @ ''-'' @
     replicate 4 (CHR ''a'') @ ''-'' @ replicate 12 (CHR ''a'')"

definition demo_token :: string where
  "demo_token = replicate 43 (CHR ''A'')"

lemma demo_token_shape: "APPROVAL_TOKEN_SHAPE demo_token"
  by (simp add: APPROVAL_TOKEN_SHAPE_def demo_token_def alnum_cls_def list_all_iff)

lemma lang_RSeq_app: "u \<in> lang r \<Longrightarrow> v \<in> lang s \<Longrightarrow> u @ v \<in> lang (RSeq r s)"
  by auto

lemma demo_id_shape: "fullmatch UUID_SHAPE demo_id"
proof -
  have "replicate n (CHR ''a'') \<in> lang (rrep n (RCls hex_cls))" for n
    by (simp add: hex_cls_def)
  moreover have "''-'' \<in> lang (rstr ''-'')" by simp
  ultimately show ?thesis
    unfolding fullmatch_iff UUID_SHAPE_def demo_id_def by (intro lang_RSeq_app)
qed

definition demo_worker :: worker_env where
  "demo_worker = \<lparr>we_coordinator_url = ''https://d.app'', we_target_service = ''demo'', we_hmac_key = ''k''\<rparr>"

definition demo_propose :: propose_input where
  "demo_propose = \<lparr>pi_service = Inr demo_service, pi_revision = (\<lambda>_. None), pi_now = 0, pi_observed = 0,
     pi_approval_id = demo_id, pi_token = demo_token\<rparr>"

definition demo_propose_request :: propose_request where
  "demo_propose_request = \<lparr>pr_target_revision = ''demo-00001-aaa'', pr_reason = ''r'', pr_contract_env = None, pr_contract_hash = None\<rparr>"

lemma demo_issued:
  "\<exists>body docs'. propose (\<lambda>k m. m) demo_worker demo_propose ''c'' demo_propose_request Map.empty = (Ok body, docs')"
proof -
  have "add_minutes 0 15 = Inr 900000000" by (simp add: add_minutes_def max_day_def usec_per_day_def)
  then show ?thesis
    by (simp add: propose_def demo_worker_def demo_propose_def demo_propose_request_def demo_service_def
        list_revisions_def active_revision_def base_name_def approval_create_def create_data_Approval Let_def)
qed

theorem issued_approval_accepted_witness:
  "\<exists>body docs' a exp. propose (\<lambda>k m. m) demo_worker demo_propose ''c'' demo_propose_request Map.empty = (Ok body, docs') \<and>
     validated_approval (\<lambda>_. False) (PDict body) = Some a \<and> al_token a = demo_token \<and>
     add_minutes 0 15 = Inr exp \<and> fromisoformat (al_expires a) = Some (int exp)"
proof -
  from demo_issued obtain body docs' where
    p: "propose (\<lambda>k m. m) demo_worker demo_propose ''c'' demo_propose_request Map.empty = (Ok body, docs')" by blast
  have "we_coordinator_url demo_worker = ''https://'' @ ''d.app''" "plain_host ''d.app''"
    by (simp_all add: demo_worker_def plain_host_def)
  from issued_approval_accepted [OF p this] show ?thesis
    using p demo_id_shape demo_token_shape by (fastforce simp: demo_propose_def)
qed

definition demo_answer :: pyval where
  "demo_answer = PDict [(''approval_id'', PStr demo_id), (''approval_url'', PStr (''/approvals/'' @ demo_id @ ''?t='' @ demo_token)),
     (''expires_at'', PStr (iso_micro 0)), (''approval_token'', PStr demo_token)]"

definition demo_link :: approval_link where
  "demo_link = \<lparr>al_id = demo_id, al_url = ''/approvals/'' @ demo_id @ ''?t='' @ demo_token, al_expires = iso_micro 0,
     al_token = demo_token\<rparr>"

lemma demo_expiry: "fromisoformat (iso_micro 0) = Some 0"
  by (subst fromisoformat_iso_micro) (simp_all add: valid_instant_def max_day_def usec_per_day_def)

lemma demo_answer_accepted: "validated_approval (\<lambda>_. False) demo_answer = Some demo_link"
proof -
  have links: "list_all link_char demo_id" "list_all link_char demo_token"
    using UUID_SHAPE_link [OF demo_id_shape] TOKEN_SHAPE_link [OF demo_token_shape] by blast+
  have "plain_host []" by (simp add: plain_host_def)
  moreover have "demo_token \<noteq> []" by (simp add: demo_token_def)
  ultimately show ?thesis
    using demo_expiry demo_id_shape approval_link_matches(2) [OF links(1) demo_token_shape, of "[]" "\<lambda>_. False"]
      parse_token_query [OF links(2)] urlsplit_link(2) [OF links, of "[]" "\<lambda>_. False"]
    by (simp add: validated_approval_def demo_answer_def demo_link_def)
qed

theorem row_link_rebuilt_witness: "fullmatch UUID_SHAPE (al_id demo_link)"
  using row_link_rebuilt [OF demo_answer_accepted] by blast

end
