(* ===== verification/Renderer.thy ===== *)
theory Renderer
  imports DriftDecision ApprovalLink
begin

text \<open>
  The coordinator's renderer (\<open>agent/renderer.py\<close>): redaction of secret-like values, the bounds on the
  texts sent to the rollback, notifier and upgrade workers, and the rollback notification.  The two
  characters of the templates above 255 are one character each here: 0x97 is the em dash and 0x85 the
  ellipsis.
\<close>

section \<open>Strings\<close>

text \<open>\<open>s.replace(old, new)\<close> for a non-empty \<open>old\<close>.\<close>

function replace_str :: "string \<Rightarrow> string \<Rightarrow> string \<Rightarrow> string" where
  "replace_str old new s =
     (if s = [] \<or> old = [] then s
      else if starts_with old s then new @ replace_str old new (drop (length old) s)
      else hd s # replace_str old new (tl s))"
  by pat_completeness auto
termination
  by (relation "measure (\<lambda>(_, _, s). length s)") auto

declare replace_str.simps [simp del]

definition lines_nl :: "string list \<Rightarrow> string" where
  "lines_nl ls = concat (map (\<lambda>l. l @ [CHR 0x0A]) ls)"

definition strip :: "string \<Rightarrow> string" where
  "strip s = rev (dropWhile is_space (rev (dropWhile is_space s)))"

section \<open>Redaction\<close>

text \<open>Some prefix of the text is in the language.\<close>

fun prefix_match :: "rx \<Rightarrow> string \<Rightarrow> bool" where
  "prefix_match r [] = nullable r"
| "prefix_match r (c # s) = (nullable r \<or> prefix_match (rderiv c r) s)"

definition no_slash_at_space :: "(nat \<times> nat) list" where
  "no_slash_at_space = [(0, 8), (14, 27), (33, 46), (48, 63), (65, 132), (134, 159), (161, 255)]"

definition CREDENTIALED_URL :: rx where
  "CREDENTIALED_URL =
     RSeq (RCls [(97, 122), (65, 90)]) (RSeq (RStar (RCls (alnum_cls @ [(43, 43), (46, 46), (45, 45)])))
       (RSeq (rstr ''://'') (RSeq (RStar (RCls no_slash_at_space)) (RSeq (rstr '':'')
         (RSeq (RStar (RCls no_slash_at_space)) (rstr ''@''))))))"

definition value_looks_credentialed :: "string option \<Rightarrow> bool" where
  "value_looks_credentialed v =
     (case v of
        None \<Rightarrow> False
      | Some s \<Rightarrow> list_ex (\<lambda>i. boundary s i \<and> prefix_match CREDENTIALED_URL (drop i s)) [0..<length s])"

definition should_redact :: "string \<Rightarrow> string option \<Rightarrow> bool" where
  "should_redact name v \<longleftrightarrow> is_secret_name name \<or> value_looks_credentialed v"

definition REDACTED :: string where "REDACTED = ''`(value redacted: secret-like)`''"
definition REDACTED_PLAIN :: string where "REDACTED_PLAIN = ''(redacted)''"

definition escape_markdown_cell :: "string \<Rightarrow> string" where
  "escape_markdown_cell s =
     replace_str ''`'' [CHR 0x5C, CHR ''`''] (replace_str [CHR 0x7C] [CHR 0x5C, CHR 0x7C]
       (replace_str [CHR 0x0D] [CHR 0x5C, CHR ''n''] (replace_str [CHR 0x0A] [CHR 0x5C, CHR ''n'']
         (replace_str [CHR 0x0D, CHR 0x0A] [CHR 0x5C, CHR ''n''] s))))"

definition em_dash :: char where "em_dash = CHR 0x97"
definition ellipsis :: char where "ellipsis = CHR 0x85"

definition format_value_cell :: "string \<Rightarrow> string option \<Rightarrow> string" where
  "format_value_cell name v =
     (if should_redact name v then (if v \<noteq> None then REDACTED else ''`'' @ [em_dash] @ ''`'')
      else case v of None \<Rightarrow> ''`'' @ [em_dash] @ ''`'' | Some s \<Rightarrow> ''`'' @ escape_markdown_cell s @ ''`'')"

definition format_name_cell :: "string \<Rightarrow> string" where
  "format_name_cell name = ''`'' @ escape_markdown_cell name @ ''`''"

definition format_pr_cell :: "string \<Rightarrow> string option \<Rightarrow> string option list \<Rightarrow> string" where
  "format_pr_cell name url diff_values =
     (case url of
        None \<Rightarrow> [em_dash]
      | Some u \<Rightarrow>
          if should_redact name url \<or> list_ex value_looks_credentialed diff_values then REDACTED_PLAIN
          else escape_markdown_cell u)"

definition status_value :: "contract_status \<Rightarrow> string" where
  "status_value st =
     (case st of
        Absent \<Rightarrow> ''absent'' | PresentAllowManual \<Rightarrow> ''present_allow_manual''
      | PresentDisallowManual \<Rightarrow> ''present_disallow_manual'' | Match \<Rightarrow> ''match'')"

definition bar_sep :: string where "bar_sep = '' '' @ [CHR 0x7C] @ '' ''"

definition diff_row :: "env_diff \<Rightarrow> string" where
  "diff_row d =
     [CHR 0x7C] @ '' '' @ format_name_cell (ed_name d) @ bar_sep @ format_value_cell (ed_name d) (ed_expected d) @ bar_sep @
     format_value_cell (ed_name d) (ed_live d) @ bar_sep @ ''`'' @ status_value (ed_contract_status d) @ ''`'' @ bar_sep @
     format_pr_cell (ed_name d) (ed_recent_pr_match d) [ed_expected d, ed_live d, ed_debug_config_value d] @ bar_sep @
     format_value_cell (ed_name d) (ed_debug_config_value d) @ '' '' @ [CHR 0x7C]"

definition table_header :: string where
  "table_header =
     [CHR 0x7C] @ '' '' @ join_str bar_sep [''Var'', ''Expected'', ''Live'', ''Status'', ''Recent PR'', ''/debug/config''] @
     '' '' @ [CHR 0x7C, CHR 0x0A] @ [CHR 0x7C] @ concat (replicate 6 (''---'' @ [CHR 0x7C]))"

definition evidence_table :: "env_diff list \<Rightarrow> string" where
  "evidence_table ds = table_header @ [CHR 0x0A] @ join_str [CHR 0x0A] (map diff_row ds)"

text \<open>The values of one diff a rationale must not quote, in the order they are scrubbed.\<close>

definition secret_values :: "env_diff \<Rightarrow> string list" where
  "secret_values d =
     map the (filter (\<lambda>v. v \<noteq> None \<and> should_redact (ed_name d) v)
       [ed_expected d, ed_live d, ed_debug_config_value d, ed_recent_pr_match d])"

definition scrub_value :: "string \<Rightarrow> string \<times> string set \<Rightarrow> string \<times> string set" where
  "scrub_value v st =
     (let (scrubbed, seen) = st in
      if v \<notin> seen \<and> 4 \<le> length v then (replace_str v REDACTED_PLAIN scrubbed, insert v seen) else st)"

definition scrub_rationale_text :: "string \<Rightarrow> env_diff list \<Rightarrow> string" where
  "scrub_rationale_text rationale ds = fst (fold scrub_value (concat (map secret_values ds)) (rationale, {}))"

section \<open>Clamping\<close>

definition omission_marker :: "nat \<Rightarrow> string" where
  "omission_marker n =
     [CHR 0x0A, CHR 0x0A] @ ''['' @ [ellipsis] @ '' '' @ show_nat n @ '' characters omitted by DriftScribe '' @
     [ellipsis] @ '']'' @ [CHR 0x0A, CHR 0x0A]"

definition clamp_middle_out :: "string \<Rightarrow> int \<Rightarrow> int \<Rightarrow> (pyexc, (string \<times> string \<times> string) option) res" where
  "clamp_middle_out txt cap reserve =
     (if cap \<le> 0 then Inl (ValueError ''cap must be positive'')
      else if reserve < 0 then Inl (ValueError ''reserve must be non-negative'')
      else if int (length txt) \<le> cap then Inr None
      else
        let reserved = int (length (omission_marker (length txt))) + reserve; budget = cap - reserved in
        if budget \<le> 0 then Inr (Some (take (nat (max 0 (cap - reserve))) txt, [], []))
        else
          let head_budget = nat (budget div 2); tail_budget = nat (budget - budget div 2);
              omitted = length txt - head_budget - tail_budget
          in Inr (Some (take head_budget txt, omission_marker omitted, drop (length txt - tail_budget) txt)))"

definition ROLLBACK_REASON_MAX_CHARS :: nat where "ROLLBACK_REASON_MAX_CHARS = 2000"

definition ROLLBACK_REASON_ABSENT :: string where
  "ROLLBACK_REASON_ABSENT =
     ''DriftScribe proposed this rollback without a model rationale. Inspect the '' @
     ''recorded change evidence and target revision before approving.''"

definition bound_text :: "string \<Rightarrow> nat \<Rightarrow> string \<Rightarrow> (pyexc, string) res" where
  "bound_text absent cap s =
     (let txt = strip s in
      if txt = [] then Inr absent
      else rbind (clamp_middle_out txt (int cap) 0) (\<lambda>parts.
        Inr (case parts of None \<Rightarrow> txt | Some (h, m, t) \<Rightarrow> h @ m @ t)))"

definition normalize_rollback_reason :: "string \<Rightarrow> (pyexc, string) res" where
  "normalize_rollback_reason scrubbed = bound_text ROLLBACK_REASON_ABSENT ROLLBACK_REASON_MAX_CHARS scrubbed"

definition UPGRADE_CLOSE_REASON_MAX_CHARS :: nat where "UPGRADE_CLOSE_REASON_MAX_CHARS = 1000"

definition UPGRADE_CLOSE_REASON_ABSENT :: string where
  "UPGRADE_CLOSE_REASON_ABSENT = ''Closed via DriftScribe at the operator'' @ [CHR 0x27] @ ''s request; no reason was supplied.''"

definition normalize_close_reason :: "string \<Rightarrow> (pyexc, string) res" where
  "normalize_close_reason reason = bound_text UPGRADE_CLOSE_REASON_ABSENT UPGRADE_CLOSE_REASON_MAX_CHARS reason"

section \<open>Removing Markdown delimiters from a cut text\<close>

function drop_tilde_fences :: "string \<Rightarrow> string" where
  "drop_tilde_fences s =
     (if s = [] then []
      else if hd s = CHR ''~''
      then let run = takeWhile (\<lambda>c. c = CHR ''~'') s in
           (if 3 \<le> length run then [] else run) @ drop_tilde_fences (dropWhile (\<lambda>c. c = CHR ''~'') s)
      else hd s # drop_tilde_fences (tl s))"
  by pat_completeness auto
termination
proof (relation "measure length", goal_cases)
  case (2 s run)
  then show ?case by (cases s) (auto simp: le_imp_less_Suc length_dropWhile_le)
qed auto

declare drop_tilde_fences.simps [simp del]

definition starts_with_ci :: "string \<Rightarrow> string \<Rightarrow> bool" where
  "starts_with_ci p s \<longleftrightarrow> starts_with (map lower_char p) (map lower_char s)"

definition SWALLOWING_TAGS :: "string list" where
  "SWALLOWING_TAGS = [''script'', ''pre'', ''style'', ''textarea'']"

text \<open>The lookahead after an opening angle bracket.\<close>

definition swallow_ahead :: "string \<Rightarrow> bool" where
  "swallow_ahead s \<longleftrightarrow>
     starts_with ''!--'' s \<or> starts_with ''?'' s \<or> starts_with_ci ''![CDATA['' s \<or>
     (starts_with ''!'' s \<and> tl s \<noteq> [] \<and> is_alpha (hd (tl s))) \<or>
     (let t = (if starts_with ''/'' s then tl s else s) in
      \<exists>tag \<in> set SWALLOWING_TAGS. starts_with_ci tag t \<and> \<not> word_at t (length tag))"

fun drop_swallowers :: "string \<Rightarrow> string" where
  "drop_swallowers [] = []"
| "drop_swallowers (c # s) = (if c = CHR ''<'' \<and> swallow_ahead s then drop_swallowers s else c # drop_swallowers s)"

definition neutralize_fences :: "string \<Rightarrow> string" where
  "neutralize_fences s = drop_swallowers (drop_tilde_fences (filter (\<lambda>c. c \<noteq> CHR ''`'') s))"

definition NOTIFIER_BODY_MAX_CHARS :: nat where "NOTIFIER_BODY_MAX_CHARS = 10000"

definition normalize_notifier_body :: "string \<Rightarrow> (pyexc, string) res" where
  "normalize_notifier_body body =
     rbind (clamp_middle_out body (int NOTIFIER_BODY_MAX_CHARS) 0) (\<lambda>parts.
     Inr (case parts of None \<Rightarrow> body | Some (h, m, t) \<Rightarrow> neutralize_fences h @ m @ neutralize_fences t))"

section \<open>The rollback notification\<close>

definition EVIDENCE_OMITTED :: string where
  "EVIDENCE_OMITTED =
     ''_The change evidence did not fit this notification. Open the approval link below to see it in full._''"

definition show_opt :: "string option \<Rightarrow> string" where
  "show_opt v = (case v of None \<Rightarrow> ''None'' | Some s \<Rightarrow> s)"

definition rollback_body :: "proposal \<Rightarrow> string \<Rightarrow> string \<Rightarrow> string \<Rightarrow> string" where
  "rollback_body p approval_url rationale evidence =
     lines_nl
       [''## DriftScribe '' @ [em_dash] @ '' rollback proposed (approval required)'', [],
        ''**Approve or reject:** <'' @ approval_url @ ''>'', [],
        ''Rolling back `payment-demo` to `'' @ show_opt (dp_target_revision p) @ ''`.'', [],
        rationale, [],
        ''### Rollback details'', [],
        ''- **Service:** `payment-demo`'',
        ''- **Target revision:** `'' @ show_opt (dp_target_revision p) @ ''`'',
        ''- **Reason:** hard contract violation '' @ [em_dash] @ '' see rationale above and the evidence'',
        ''  table below.'', [],
        ''### Evidence'', [],
        evidence, [],
        ''### Operator approval required'', [],
        ''Click to review and approve / reject the rollback:'', [],
        ''<'' @ approval_url @ ''>'', [],
        ''This approval link expires in 15 minutes. After expiry, DriftScribe must'',
        ''re-propose to mint a fresh token.'', [],
        ''> Approving this rollback will swing **100% of traffic** on `payment-demo`'',
        ''> to revision `'' @ show_opt (dp_target_revision p) @ ''`. Rejecting leaves traffic on the current'',
        ''> revision and DriftScribe will not retry automatically.'']"

definition minimal_rollback_body :: "proposal \<Rightarrow> string \<Rightarrow> string" where
  "minimal_rollback_body p approval_url =
     lines_nl
       [''## DriftScribe '' @ [em_dash] @ '' rollback proposed (approval required)'', [],
        ''Roll back `payment-demo` to `'' @ show_opt (dp_target_revision p) @ ''`. The details did '' @
          ''not fit this notification '' @ [em_dash] @ '' approve or reject here:'', [],
        ''<'' @ approval_url @ ''>'']"

definition row_omission_note :: "nat \<Rightarrow> string" where
  "row_omission_note dropped =
     (if dropped = 0 then []
      else [CHR 0x0A, CHR 0x0A] @ ''_'' @ show_nat dropped @ '' further changed variable(s) omitted from this notification._'')"

text \<open>The rows that fit, in order, until the first that does not; \<open>n\<close> is the number of all rows.\<close>

fun keep_rows :: "int \<Rightarrow> nat \<Rightarrow> string list \<Rightarrow> nat \<Rightarrow> nat \<Rightarrow> string list" where
  "keep_rows budget n [] kept used = []"
| "keep_rows budget n (row # rows) kept used =
     (if budget < int (used + 1 + length row + length (row_omission_note (n - kept - 1))) then []
      else row # keep_rows budget n rows (Suc kept) (used + 1 + length row))"

definition bounded_evidence :: "proposal \<Rightarrow> int \<Rightarrow> string" where
  "bounded_evidence p budget =
     (let rows = map diff_row (dp_env_diffs p); kept = keep_rows budget (length rows) rows 0 (length table_header) in
      if kept = [] then (if int (length EVIDENCE_OMITTED) \<le> budget then EVIDENCE_OMITTED else [])
      else table_header @ [CHR 0x0A] @ join_str [CHR 0x0A] kept @ row_omission_note (length rows - length kept))"

definition smallest_rollback_body :: "proposal \<Rightarrow> string \<Rightarrow> int \<Rightarrow> string" where
  "smallest_rollback_body p approval_url max_chars =
     (let minimal = minimal_rollback_body p approval_url; autolink = ''<'' @ approval_url @ ''>'' @ [CHR 0x0A] in
      if int (length minimal) \<le> max_chars then minimal
      else if int (length autolink) \<le> max_chars then autolink
      else take (nat max_chars) autolink)"

definition render_rollback_body :: "proposal \<Rightarrow> string \<Rightarrow> int option \<Rightarrow> (pyexc, string) res" where
  "render_rollback_body p approval_url max_chars =
     (let rationale = scrub_rationale_text (dp_rationale p) (dp_env_diffs p);
          full = rollback_body p approval_url rationale (evidence_table (dp_env_diffs p)) in
      case max_chars of
        None \<Rightarrow> Inr full
      | Some cap \<Rightarrow>
          if int (length full) \<le> cap then Inr full
          else if cap \<le> 0 then Inl (ValueError ''max_chars must be positive'')
          else
            let available = cap - int (length (rollback_body p approval_url [] [])) in
            if available \<le> 0 then Inr (smallest_rollback_body p approval_url cap)
            else
              rbind (clamp_middle_out rationale (max 1 (available div 2)) 0) (\<lambda>parts.
              let rationale = (case parts of None \<Rightarrow> rationale
                    | Some (h, m, t) \<Rightarrow> neutralize_fences h @ m @ neutralize_fences t);
                  body = rollback_body p approval_url rationale (bounded_evidence p (available - int (length rationale)))
              in Inr (if int (length body) \<le> cap then body else smallest_rollback_body p approval_url cap)))"

section \<open>Redaction of stored decisions\<close>

definition DIFF_VALUE_KEYS :: "string list" where
  "DIFF_VALUE_KEYS = [''expected'', ''live'', ''debug_config_value'', ''recent_pr_match'']"

definition status_of_value :: "pyval \<Rightarrow> contract_status" where
  "status_of_value v =
     (case find (\<lambda>st. v = PStr (status_value st)) [Absent, PresentAllowManual, PresentDisallowManual, Match] of
        None \<Rightarrow> Absent | Some st \<Rightarrow> st)"

definition coerce_env_diff :: "pyval \<Rightarrow> env_diff option" where
  "coerce_env_diff item =
     map_option (\<lambda>d. \<lparr>ed_name = (case as_str (dget d ''name'') of None \<Rightarrow> [] | Some n \<Rightarrow> n),
        ed_expected = as_str (dget d ''expected''), ed_live = as_str (dget d ''live''),
        ed_contract_status = status_of_value (dget d ''contract_status''),
        ed_debug_config_value = as_str (dget d ''debug_config_value''),
        ed_recent_pr_match = as_str (dget d ''recent_pr_match'')\<rparr>) (as_dict item)"

definition coerce_env_diffs :: "pyval \<Rightarrow> env_diff list" where
  "coerce_env_diffs raw = (case raw of PList items \<Rightarrow> List.map_filter coerce_env_diff items | _ \<Rightarrow> [])"

text \<open>One entry of \<open>diffs[]\<close>: the key is redacted when its value is a string that must be, and is not
  the marker already.\<close>

definition needs_patch :: "pydict \<Rightarrow> string \<Rightarrow> bool" where
  "needs_patch entry key \<longleftrightarrow>
     (case dget entry key of
        PStr v \<Rightarrow>
          should_redact (case as_str (dget entry ''name'') of None \<Rightarrow> [] | Some n \<Rightarrow> n) (Some v) \<and> v \<noteq> REDACTED_PLAIN
      | _ \<Rightarrow> False)"

definition patch_entry :: "pyval \<Rightarrow> pyval" where
  "patch_entry item =
     (case item of
        PDict entry \<Rightarrow> PDict (foldl (\<lambda>d key. if needs_patch entry key then dput d key (PStr REDACTED_PLAIN) else d) entry DIFF_VALUE_KEYS)
      | _ \<Rightarrow> item)"

definition entry_changes :: "pyval \<Rightarrow> bool" where
  "entry_changes item = (case item of PDict entry \<Rightarrow> list_ex (needs_patch entry) DIFF_VALUE_KEYS | _ \<Rightarrow> False)"

definition scrub_diff_secret_values :: "pyval \<Rightarrow> pyval list option" where
  "scrub_diff_secret_values raw =
     (case raw of
        PList items \<Rightarrow> if list_ex entry_changes items then Some (map patch_entry items) else None
      | _ \<Rightarrow> None)"

definition scrub_decision_rationale :: "pyval \<Rightarrow> pyval" where
  "scrub_decision_rationale decision =
     (case decision of
        PDict d \<Rightarrow>
          let out = (case dget d ''rationale'' of
                       PStr r \<Rightarrow>
                         let scrubbed = scrub_rationale_text r (coerce_env_diffs (dget d ''diffs'')) in
                         if r \<noteq> [] \<and> scrubbed \<noteq> r then dput d ''rationale'' (PStr scrubbed) else d
                     | _ \<Rightarrow> d)
          in PDict (case scrub_diff_secret_values (dget d ''diffs'') of
                      None \<Rightarrow> out | Some ds \<Rightarrow> dput out ''diffs'' (PList ds))
      | _ \<Rightarrow> decision)"

section \<open>Clamped texts fit\<close>

lemma show_nat_length_mono: "m \<le> n \<Longrightarrow> length (show_nat m) \<le> length (show_nat n)"
proof (induction n arbitrary: m rule: show_nat.induct)
  case (1 n)
  show ?case
  proof (cases "n < 10")
    case True
    with "1.prems" show ?thesis by (subst (1 2) show_nat.simps) simp
  next
    case False
    show ?thesis
    proof (cases "m < 10")
      case True
      with False show ?thesis by (subst (1 2) show_nat.simps) (simp add: Suc_le_eq)
    next
      case m: False
      have "m div 10 \<le> n div 10" using "1.prems" by (rule div_le_mono)
      with "1.IH" [OF False] have "length (show_nat (m div 10)) \<le> length (show_nat (n div 10))" .
      then show ?thesis using False m by (simp add: show_nat_snoc)
    qed
  qed
qed

lemma omission_marker_mono: "m \<le> n \<Longrightarrow> length (omission_marker m) \<le> length (omission_marker n)"
  using show_nat_length_mono [of m n] by (simp add: omission_marker_def)

lemma clamp_fits:
  assumes "clamp_middle_out txt cap reserve = Inr (Some (h, m, t))"
  shows "int (length h + length m + length t) \<le> max 0 (cap - reserve) \<and> length h + length t \<le> length txt \<and>
    cap < int (length txt)"
proof -
  let ?budget = "cap - (int (length (omission_marker (length txt))) + reserve)"
  from assms have c: "0 < cap" "0 \<le> reserve" "cap < int (length txt)"
    by (auto simp: clamp_middle_out_def split: if_splits)
  show ?thesis
  proof (cases "?budget \<le> 0")
    case True
    with assms c show ?thesis by (auto simp: clamp_middle_out_def Let_def)
  next
    case False
    define hb tb where "hb = nat (?budget div 2)" and "tb = nat (?budget - ?budget div 2)"
    from False have ht: "int hb + int tb = ?budget" by (simp add: hb_def tb_def)
    with c have le: "hb + tb \<le> length txt" by linarith
    from assms c False have e: "h = take hb txt" "m = omission_marker (length txt - hb - tb)" "t = drop (length txt - tb) txt"
      by (simp_all add: clamp_middle_out_def Let_def hb_def tb_def)
    have "length m \<le> length (omission_marker (length txt))" unfolding e by (rule omission_marker_mono) simp
    moreover have "length h = hb" "length t = tb" using le by (simp_all add: e)
    ultimately show ?thesis using ht le c by linarith
  qed
qed

lemma clamp_returns: "0 < cap \<Longrightarrow> 0 \<le> reserve \<Longrightarrow> \<exists>r. clamp_middle_out txt cap reserve = Inr r"
  by (simp add: clamp_middle_out_def Let_def)

lemma clamp_None: "clamp_middle_out txt cap reserve = Inr None \<Longrightarrow> int (length txt) \<le> cap"
  by (auto simp: clamp_middle_out_def Let_def split: if_splits)

lemma clamp_nonempty:
  assumes "clamp_middle_out txt cap 0 = Inr (Some (h, m, t))"
  shows "h @ m @ t \<noteq> []"
proof -
  from assms have c: "0 < cap" "cap < int (length txt)" by (auto simp: clamp_middle_out_def split: if_splits)
  with assms show ?thesis
    by (auto simp: clamp_middle_out_def Let_def omission_marker_def split: if_splits)
qed

lemma bound_text_fits:
  assumes "0 < cap" and "absent \<noteq> []" and "length absent \<le> cap"
  shows "\<exists>out. bound_text absent cap s = Inr out \<and> 1 \<le> length out \<and> length out \<le> cap"
proof (cases "strip s = []")
  case True
  with assms show ?thesis by (simp add: bound_text_def Suc_le_eq)
next
  case False
  from clamp_returns [of "int cap" 0 "strip s"] assms(1) obtain parts where
    r: "clamp_middle_out (strip s) (int cap) 0 = Inr parts" by auto
  show ?thesis
  proof (cases parts)
    case None
    with r False clamp_None [of "strip s" "int cap" 0] show ?thesis by (simp add: bound_text_def Suc_le_eq)
  next
    case (Some q)
    obtain h m t where q: "q = (h, m, t)" by (metis prod_cases3)
    from r Some q clamp_fits [of "strip s" "int cap" 0 h m t] clamp_nonempty [of "strip s" "int cap" h m t] False show ?thesis
      by (auto simp: bound_text_def Suc_le_eq)
  qed
qed

section \<open>No delimiter survives\<close>

lemma contains_Cons: "p \<noteq> [] \<Longrightarrow> contains_str p (c # s) \<longleftrightarrow> starts_with p (c # s) \<or> contains_str p s"
  by (auto simp: contains_str_def)

definition fence :: string where "fence = ''~~~''"

lemma fence_Nil [simp]: "\<not> contains_str fence []"
  by (simp add: contains_str_def fence_def)

lemma fence_Cons: "contains_str fence (c # s) \<longleftrightarrow> starts_with fence (c # s) \<or> contains_str fence s"
  by (rule contains_Cons) (simp add: fence_def)

lemma starts_fence: "starts_with fence s \<longleftrightarrow> (\<exists>t. s = CHR ''~'' # CHR ''~'' # CHR ''~'' # t)"
  by (simp add: starts_with_iff fence_def)

lemma short_run_no_fence:
  assumes "\<not> contains_str fence t" and "t = [] \<or> hd t \<noteq> CHR ''~''" and "n < 3"
  shows "\<not> contains_str fence (replicate n (CHR ''~'') @ t)"
proof -
  from assms(3) have "n = 0 \<or> n = Suc 0 \<or> n = Suc (Suc 0)" by arith
  with assms(1,2) show ?thesis by (cases t) (auto simp: fence_Cons starts_fence)
qed

lemma drop_tilde_head: "s \<noteq> [] \<Longrightarrow> hd s \<noteq> CHR ''~'' \<Longrightarrow> drop_tilde_fences s = hd s # drop_tilde_fences (tl s)"
  by (subst drop_tilde_fences.simps) simp

lemma drop_tilde_Nil [simp]: "drop_tilde_fences [] = []"
  by (subst drop_tilde_fences.simps) simp

lemma takeWhile_replicate: "takeWhile (\<lambda>c. c = x) s = replicate (length (takeWhile (\<lambda>c. c = x) s)) x"
  by (rule replicate_length_same [symmetric]) (auto dest: set_takeWhileD)

lemma drop_tilde_no_fence: "\<not> contains_str fence (drop_tilde_fences s)"
proof (induction s rule: drop_tilde_fences.induct)
  case (1 s)
  show ?case
  proof (cases "s \<noteq> [] \<and> hd s = CHR ''~''")
    case True
    let ?run = "takeWhile (\<lambda>c. c = CHR ''~'') s" and ?rest = "dropWhile (\<lambda>c. c = CHR ''~'') s"
    have e: "drop_tilde_fences s = (if 3 \<le> length ?run then [] else ?run) @ drop_tilde_fences ?rest"
      using True by (subst drop_tilde_fences.simps) (simp add: Let_def)
    have ih: "\<not> contains_str fence (drop_tilde_fences ?rest)" using "1.IH"(1) True by simp
    have hd: "drop_tilde_fences ?rest = [] \<or> hd (drop_tilde_fences ?rest) \<noteq> CHR ''~''"
    proof (cases "?rest = []")
      case False
      then have "hd ?rest \<noteq> CHR ''~''" by (rule hd_dropWhile)
      with False show ?thesis by (simp add: drop_tilde_head)
    next
      case True
      then show ?thesis by (simp only: drop_tilde_Nil simp_thms)
    qed
    show ?thesis
    proof (cases "3 \<le> length ?run")
      case False
      then have "\<not> contains_str fence (replicate (length ?run) (CHR ''~'') @ drop_tilde_fences ?rest)"
        using short_run_no_fence [OF ih hd] by simp
      with False e show ?thesis by (simp only: if_False takeWhile_replicate [symmetric] not_False_eq_True)
    qed (simp add: e ih)
  next
    case False
    show ?thesis
    proof (cases "s = []")
      case s: False
      with False "1.IH"(2) show ?thesis by (simp add: drop_tilde_head fence_Cons starts_fence)
    qed simp
  qed
qed

lemma swallow_head: "swallow_ahead s \<Longrightarrow> s \<noteq> [] \<and> hd s \<noteq> CHR ''<'' \<and> hd s \<noteq> CHR ''~''"
  by (cases s) (auto simp: swallow_ahead_def starts_with_ci_def starts_with_def SWALLOWING_TAGS_def lower_char_def
      Let_def split: if_splits)

lemma drop_swallowers_lead:
  "list_all (\<lambda>c. c = CHR ''~'') p \<Longrightarrow> starts_with p (drop_swallowers s) \<Longrightarrow> starts_with p s"
proof (induction s arbitrary: p)
  case (Cons c s)
  show ?case
  proof (cases "p = []")
    case False
    then obtain q where p: "p = CHR ''~'' # q" "list_all (\<lambda>c. c = CHR ''~'') q"
      using Cons.prems(1) by (cases p) auto
    show ?thesis
    proof (cases "c = CHR ''<'' \<and> swallow_ahead s")
      case True
      then obtain d s' where s: "s = d # s'" "d \<noteq> CHR ''<''" "d \<noteq> CHR ''~''"
        using swallow_head [of s] by (cases s) auto
      with Cons.prems(2) True p(1) show ?thesis by (simp add: starts_with_def)
    next
      case no: False
      with Cons.prems(2) p(1) have "c = CHR ''~''" "starts_with q (drop_swallowers s)"
        by (auto simp: starts_with_def split: if_splits)
      with Cons.IH [OF p(2)] p(1) show ?thesis by (simp add: starts_with_def)
    qed
  qed (simp add: starts_with_def)
qed simp

lemma drop_swallowers_no_fence: "\<not> contains_str fence s \<Longrightarrow> \<not> contains_str fence (drop_swallowers s)"
proof (induction s)
  case (Cons c s)
  have all: "list_all (\<lambda>c. c = CHR ''~'') (tl fence)" "starts_with fence (c # u) \<longleftrightarrow> c = CHR ''~'' \<and> starts_with (tl fence) u" for u
    by (auto simp: fence_def starts_with_def)
  from Cons.prems have "\<not> starts_with fence (c # s)" "\<not> contains_str fence (drop_swallowers s)"
    using Cons.IH by (auto simp: fence_Cons)
  then show ?case using drop_swallowers_lead [OF all(1), of s] all(2) by (auto simp: fence_Cons)
qed simp

lemma drop_swallowers_set: "set (drop_swallowers s) \<subseteq> set s"
  by (induction s) auto

lemma drop_swallowers_length: "length (drop_swallowers s) \<le> length s"
  by (induction s) auto

lemma drop_tilde_set: "set (drop_tilde_fences s) \<subseteq> set s"
proof (induction s rule: drop_tilde_fences.induct)
  case (1 s)
  have parts: "set (takeWhile (\<lambda>c. c = CHR ''~'') s) \<subseteq> set s" "set (dropWhile (\<lambda>c. c = CHR ''~'') s) \<subseteq> set s"
    by (auto dest: set_takeWhileD set_dropWhileD)
  show ?case
  proof (cases "s \<noteq> [] \<and> hd s = CHR ''~''")
    case True
    with "1.IH"(1) have "set (drop_tilde_fences (dropWhile (\<lambda>c. c = CHR ''~'') s)) \<subseteq> set s"
      using parts(2) by (meson order_trans)
    with True parts(1) show ?thesis by (subst drop_tilde_fences.simps) (simp add: Let_def)
  next
    case no: False
    show ?thesis
    proof (cases s)
      case (Cons c t)
      with no "1.IH"(2) show ?thesis by (auto simp: drop_tilde_head)
    qed simp
  qed
qed

lemma drop_tilde_length: "length (drop_tilde_fences s) \<le> length s"
proof (induction s rule: drop_tilde_fences.induct)
  case (1 s)
  have "length s = length (takeWhile (\<lambda>c. c = CHR ''~'') s) + length (dropWhile (\<lambda>c. c = CHR ''~'') s)"
    by (metis length_append takeWhile_dropWhile_id)
  moreover have "s \<noteq> [] \<Longrightarrow> length s = Suc (length (tl s))" by (cases s) auto
  ultimately show ?case using 1
    by (subst drop_tilde_fences.simps) (auto simp: Let_def)
qed

lemma neutralize_shrinks: "length (neutralize_fences s) \<le> length s"
  unfolding neutralize_fences_def
  by (rule order_trans [OF drop_swallowers_length order_trans [OF drop_tilde_length length_filter_le]])

text \<open>Neutralizing a cut text leaves no code delimiter in it, neither a backtick nor three tildes in
  a row, although one deletion can bring others together, and never makes the text longer.\<close>

theorem neutralized_has_no_code_delimiter:
  "CHR ''`'' \<notin> set (neutralize_fences s) \<and> \<not> contains_str ''~~~'' (neutralize_fences s) \<and>
     length (neutralize_fences s) \<le> length s"
proof -
  have "CHR ''`'' \<notin> set (neutralize_fences s)"
    unfolding neutralize_fences_def using drop_swallowers_set drop_tilde_set by fastforce
  moreover have "\<not> contains_str fence (neutralize_fences s)"
    unfolding neutralize_fences_def by (rule drop_swallowers_no_fence [OF drop_tilde_no_fence])
  ultimately show ?thesis using neutralize_shrinks by (simp add: fence_def)
qed

text \<open>Not every HTML block opener is defused: the second angle bracket of a doubled one is deleted, and
  the first then opens a comment.\<close>

theorem doubled_comment_opener_survives: "neutralize_fences ''<<!--'' = ''<!--''"
proof -
  have "drop_tilde_fences ''<<!--'' = ''<<!--''" by (simp add: drop_tilde_head)
  moreover have "\<not> swallow_ahead ''<!--''" "swallow_ahead ''!--''" "\<not> swallow_ahead ''--''"
    by (simp_all add: swallow_ahead_def starts_with_def starts_with_ci_def SWALLOWING_TAGS_def lower_char_def)
  ultimately show ?thesis by (simp add: neutralize_fences_def)
qed

lemma normalize_notifier_body_fits:
  "\<exists>out. normalize_notifier_body body = Inr out \<and> length out \<le> NOTIFIER_BODY_MAX_CHARS"
proof -
  obtain parts where r: "clamp_middle_out body (int NOTIFIER_BODY_MAX_CHARS) 0 = Inr parts"
    using clamp_returns [of "int NOTIFIER_BODY_MAX_CHARS" 0 body] by (auto simp: NOTIFIER_BODY_MAX_CHARS_def)
  show ?thesis
  proof (cases parts)
    case None
    with r clamp_None [of body "int NOTIFIER_BODY_MAX_CHARS" 0] show ?thesis by (simp add: normalize_notifier_body_def)
  next
    case (Some q)
    obtain h m t where q: "q = (h, m, t)" by (metis prod_cases3)
    have "length (neutralize_fences h) \<le> length h" "length (neutralize_fences t) \<le> length t"
      by (rule neutralize_shrinks)+
    with r Some q clamp_fits [of body "int NOTIFIER_BODY_MAX_CHARS" 0 h m t] show ?thesis
      by (simp add: normalize_notifier_body_def)
  qed
qed

section \<open>The approval link survives\<close>

lemma lines_nl_simps [simp]: "lines_nl [] = []" "lines_nl (l # ls) = l @ CHR 0x0A # lines_nl ls"
  by (simp_all add: lines_nl_def)

lemma contains_in_line: "l \<in> set ls \<Longrightarrow> contains_str x l \<Longrightarrow> contains_str x (lines_nl ls)"
proof (induction ls)
  case (Cons l' ls)
  show ?case
  proof (cases "l = l'")
    case True
    with Cons.prems(2) obtain a b where "l' = a @ x @ b" by (auto simp: contains_str_iff)
    then have "lines_nl (l' # ls) = a @ x @ (b @ CHR 0x0A # lines_nl ls)" by simp
    then show ?thesis unfolding contains_str_iff by blast
  next
    case False
    with Cons obtain a b where "lines_nl ls = a @ x @ b" by (auto simp: contains_str_iff)
    then have "lines_nl (l' # ls) = (l' @ CHR 0x0A # a) @ x @ b" by simp
    then show ?thesis unfolding contains_str_iff by blast
  qed
qed simp

lemma contains_self [simp]: "contains_str x x"
  unfolding contains_str_iff by (intro exI [of _ "[]"]) simp

definition autolink :: "string \<Rightarrow> string" where "autolink u = ''<'' @ u @ ''>''"

lemma rollback_body_link: "contains_str (autolink u) (rollback_body p u r e)"
  unfolding rollback_body_def by (rule contains_in_line [of "autolink u"]) (simp_all add: autolink_def)

lemma minimal_body_link: "contains_str (autolink u) (minimal_rollback_body p u)"
  unfolding minimal_rollback_body_def by (rule contains_in_line [of "autolink u"]) (simp_all add: autolink_def)

lemma smallest_body:
  assumes "0 < cap"
  shows "int (length (smallest_rollback_body p u cap)) \<le> cap \<and>
    (int (length u) + 3 \<le> cap \<longrightarrow> contains_str (autolink u) (smallest_rollback_body p u cap))"
proof -
  have "contains_str (autolink u) (''<'' @ u @ ''>'' @ [CHR 0x0A])"
    unfolding contains_str_iff autolink_def by (intro exI [of _ "[]"] exI [of _ "[CHR 0x0A]"]) simp
  then show ?thesis
    using assms minimal_body_link [of u p] by (auto simp: smallest_rollback_body_def Let_def)
qed

lemma rendered_with_link:
  assumes "0 < cap"
  shows "\<exists>out. render_rollback_body p u (Some cap) = Inr out \<and> int (length out) \<le> cap \<and>
    (int (length u) + 3 \<le> cap \<longrightarrow> contains_str (autolink u) out)"
proof -
  let ?r = "scrub_rationale_text (dp_rationale p) (dp_env_diffs p)"
  let ?av = "cap - int (length (rollback_body p u [] []))"
  note small = smallest_body [OF assms, of p u]
  have "0 < max 1 (?av div 2)" by simp
  then obtain parts where parts: "clamp_middle_out ?r (max 1 (?av div 2)) 0 = Inr parts"
    using clamp_returns by fastforce
  from assms small show ?thesis
    unfolding render_rollback_body_def Let_def option.case parts rbind_simps
    by (simp add: rollback_body_link)
qed

text \<open>C20: For every proposal and every positive cap the rollback notification is rendered, fits the cap,
  and still holds the approval link as a clickable autolink unless the cap is too small for the link
  alone: rationale and evidence give way, the link does not.\<close>

theorem rollback_notice_keeps_link:
  assumes "0 < cap"
  shows "\<exists>out. render_rollback_body p u (Some cap) = Inr out \<and> int (length out) \<le> cap \<and>
    (int (length u) + 3 \<le> cap \<longrightarrow> contains_str (''<'' @ u @ ''>'') out)"
  using rendered_with_link [OF assms] by (simp add: autolink_def)

definition demo_url :: string where
  "demo_url = ''https://d.app/approvals/x?t=y''"

theorem rollback_notice_keeps_link_witness:
  "\<exists>out. render_rollback_body demo_rollback demo_url (Some 40) = Inr out \<and>
     contains_str (''<'' @ demo_url @ ''>'') out"
  using rollback_notice_keeps_link [of 40 demo_rollback demo_url] by (auto simp: demo_url_def)

section \<open>Stored decisions are redacted once and for all\<close>

lemma DIFF_VALUE_KEYS_distinct: "distinct DIFF_VALUE_KEYS" and name_no_value_key: "''name'' \<notin> set DIFF_VALUE_KEYS"
  and status_no_value_key: "''contract_status'' \<notin> set DIFF_VALUE_KEYS"
  by (simp_all add: DIFF_VALUE_KEYS_def)

lemma dget_patched:
  "dget (foldl (\<lambda>d key. if P key then dput d key v else d) entry ks) k = (if k \<in> set ks \<and> P k then v else dget entry k)"
  by (induction ks arbitrary: entry) auto

lemma patched_settled:
  assumes "key \<in> set DIFF_VALUE_KEYS" and "patch_entry (PDict entry) = PDict entry'"
  shows "\<not> needs_patch entry' key"
proof -
  from assms(2) have e: "dget entry' k = (if k \<in> set DIFF_VALUE_KEYS \<and> needs_patch entry k then PStr REDACTED_PLAIN else dget entry k)" for k
    unfolding patch_entry_def by (simp add: dget_patched [symmetric])
  have name: "dget entry' ''name'' = dget entry ''name''" unfolding e by (simp add: name_no_value_key)
  show ?thesis
  proof (cases "needs_patch entry key")
    case True
    then have "dget entry' key = PStr REDACTED_PLAIN" unfolding e using assms(1) by simp
    then show ?thesis by (simp add: needs_patch_def)
  next
    case False
    then have "dget entry' key = dget entry key" unfolding e by simp
    then show ?thesis using False unfolding needs_patch_def name by (simp only:) simp
  qed
qed

lemma entry_settled: "\<not> entry_changes (patch_entry item)"
proof (cases item)
  case (PDict entry)
  obtain entry' where "patch_entry (PDict entry) = PDict entry'" by (simp add: patch_entry_def)
  with PDict patched_settled [OF _ this] show ?thesis by (auto simp: entry_changes_def list_ex_iff)
qed (simp_all add: patch_entry_def entry_changes_def)

text \<open>The stored differences once scrubbed.\<close>

definition scrubbed_diffs :: "pyval \<Rightarrow> pyval" where
  "scrubbed_diffs raw = (case scrub_diff_secret_values raw of None \<Rightarrow> raw | Some ds \<Rightarrow> PList ds)"

definition diffs_settled :: "pyval \<Rightarrow> bool" where
  "diffs_settled raw = (case raw of PList items \<Rightarrow> \<not> list_ex entry_changes items | _ \<Rightarrow> True)"

lemma scrubbed_settled: "diffs_settled (scrubbed_diffs raw)"
  by (auto simp: scrubbed_diffs_def scrub_diff_secret_values_def diffs_settled_def entry_settled list_ex_iff
      split: pyval.split)

lemma settled_no_change: "diffs_settled raw \<Longrightarrow> scrub_diff_secret_values raw = None"
  by (auto simp: scrub_diff_secret_values_def diffs_settled_def split: pyval.split)

lemma replace_self: "w = v \<Longrightarrow> replace_str v w s = s"
proof (induction v w s rule: replace_str.induct)
  case (1 v w s)
  show ?case
  proof (cases "s = [] \<or> v = []")
    case False
    show ?thesis
    proof (cases "starts_with v s")
      case True
      then have "v @ drop (length v) s = s" by (auto simp: starts_with_iff)
      with 1 False True show ?thesis by (subst replace_str.simps) simp
    next
      case no: False
      with 1 False show ?thesis by (subst replace_str.simps) simp
    qed
  next
    case True
    then show ?thesis by (subst replace_str.simps) simp
  qed
qed

lemma scrub_markers:
  "\<forall>v \<in> set vs. v = REDACTED_PLAIN \<Longrightarrow> fst (fold scrub_value vs (r, seen)) = r"
  by (induction vs arbitrary: seen) (auto simp: scrub_value_def Let_def replace_self)

lemma settled_values:
  assumes "\<not> entry_changes item" and "coerce_env_diff item = Some d" and "v \<in> set (secret_values d)"
  shows "v = REDACTED_PLAIN"
proof -
  from assms(2) obtain entry where item: "item = PDict entry" and d: "ed_name d = (case as_str (dget entry ''name'') of None \<Rightarrow> [] | Some n \<Rightarrow> n)"
    "ed_expected d = as_str (dget entry ''expected'')" "ed_live d = as_str (dget entry ''live'')"
    "ed_debug_config_value d = as_str (dget entry ''debug_config_value'')" "ed_recent_pr_match d = as_str (dget entry ''recent_pr_match'')"
    by (auto simp: coerce_env_diff_def)
  from assms(3) have "\<exists>key \<in> set DIFF_VALUE_KEYS. as_str (dget entry key) = Some v \<and> should_redact (ed_name d) (Some v)"
    by (auto simp: secret_values_def DIFF_VALUE_KEYS_def d(2-5) split: if_splits)
  then obtain key where key: "key \<in> set DIFF_VALUE_KEYS" "dget entry key = PStr v" "should_redact (ed_name d) (Some v)" by auto
  from assms(1) key(1) have "\<not> needs_patch entry key" by (auto simp: entry_changes_def item list_ex_iff)
  with key(2,3) d(1) show ?thesis by (simp add: needs_patch_def)
qed

lemma scrub_settled:
  assumes "diffs_settled raw"
  shows "scrub_rationale_text r (coerce_env_diffs raw) = r"
proof -
  have "v = REDACTED_PLAIN" if "v \<in> set (concat (map secret_values (coerce_env_diffs raw)))" for v
  proof -
    from that obtain items item d where "raw = PList items" "item \<in> set items" "coerce_env_diff item = Some d"
      "v \<in> set (secret_values d)"
      by (auto simp: coerce_env_diffs_def List.map_filter_def split: pyval.splits)
    then show ?thesis using assms settled_values by (auto simp: diffs_settled_def list_ex_iff)
  qed
  then show ?thesis unfolding scrub_rationale_text_def by (intro scrub_markers ballI)
qed

lemma dput_same: "map_of d k = Some v \<Longrightarrow> dput d k v = d"
  by (induction d) auto

lemma scrub_decision_eq:
  "scrub_decision_rationale (PDict d) =
     PDict (let out = (case dget d ''rationale'' of
              PStr r \<Rightarrow> let scrubbed = scrub_rationale_text r (coerce_env_diffs (dget d ''diffs'')) in
                if r \<noteq> [] \<and> scrubbed \<noteq> r then dput d ''rationale'' (PStr scrubbed) else d
            | _ \<Rightarrow> d) in
       case scrub_diff_secret_values (dget d ''diffs'') of None \<Rightarrow> out | Some ds \<Rightarrow> dput out ''diffs'' (PList ds))"
  by (simp add: scrub_decision_rationale_def Let_def)

lemma scrubbed_diffs_of:
  assumes "scrub_decision_rationale (PDict d) = PDict d'"
  shows "dget d' ''diffs'' = scrubbed_diffs (dget d ''diffs'')"
  using assms unfolding scrub_decision_eq Let_def scrubbed_diffs_def
  by (auto split: option.splits pyval.splits if_splits)

lemma settled_decision: "diffs_settled (dget d ''diffs'') \<Longrightarrow> scrub_decision_rationale (PDict d) = PDict d"
  unfolding scrub_decision_eq by (simp add: scrub_settled settled_no_change Let_def split: pyval.split)

text \<open>Serving a decision redacts it once and for all: scrubbing a served decision again changes nothing,
  and no string value of its differences that belongs to a secret-like name or looks like a
  credential is left in it.\<close>

theorem decision_scrub_settles:
  "scrub_decision_rationale (scrub_decision_rationale decision) = scrub_decision_rationale decision \<and>
     (case scrub_decision_rationale decision of PDict d \<Rightarrow> diffs_settled (dget d ''diffs'') | _ \<Rightarrow> True)"
proof (cases decision)
  case (PDict d)
  obtain d' where d': "scrub_decision_rationale (PDict d) = PDict d'" by (simp add: scrub_decision_eq)
  have "diffs_settled (dget d' ''diffs'')" unfolding scrubbed_diffs_of [OF d'] by (rule scrubbed_settled)
  with PDict d' settled_decision show ?thesis by simp
qed (simp_all add: scrub_decision_rationale_def)

section \<open>The evidence shows nothing of a secret\<close>

text \<open>Two differences that report the same variable, status and presence of values.\<close>

definition same_shape :: "env_diff \<Rightarrow> env_diff \<Rightarrow> bool" where
  "same_shape d e \<longleftrightarrow>
     ed_name d = ed_name e \<and> ed_contract_status d = ed_contract_status e \<and>
     (ed_expected d = None \<longleftrightarrow> ed_expected e = None) \<and> (ed_live d = None \<longleftrightarrow> ed_live e = None) \<and>
     (ed_debug_config_value d = None \<longleftrightarrow> ed_debug_config_value e = None) \<and>
     (ed_recent_pr_match d = None \<longleftrightarrow> ed_recent_pr_match e = None)"

text \<open>The evidence table is the same whatever the values of a secret-named variable are: exchanging the
  expected, live and debug values and the pull request link of such a variable, in any rows, changes
  no character of it.\<close>

theorem evidence_hides_secrets:
  assumes "list_all2 (\<lambda>d e. d = e \<or> (is_secret_name (ed_name d) \<and> same_shape d e)) ds es"
  shows "evidence_table ds = evidence_table es"
proof -
  have "diff_row d = diff_row e" if s: "is_secret_name (ed_name d)" "same_shape d e" for d e
  proof -
    have cell: "format_value_cell (ed_name d) v = format_value_cell (ed_name e) w" if "v = None \<longleftrightarrow> w = None" for v w
      using s that by (simp add: format_value_cell_def should_redact_def same_shape_def)
    have pr: "format_pr_cell (ed_name d) (ed_recent_pr_match d) vs = format_pr_cell (ed_name e) (ed_recent_pr_match e) ws" for vs ws
      using s by (auto simp: format_pr_cell_def should_redact_def same_shape_def split: option.splits)
    from s(2) have n: "ed_contract_status d = ed_contract_status e" "format_name_cell (ed_name d) = format_name_cell (ed_name e)"
      and v: "(ed_expected d = None) = (ed_expected e = None)" "(ed_live d = None) = (ed_live e = None)"
      "(ed_debug_config_value d = None) = (ed_debug_config_value e = None)"
      by (auto simp: same_shape_def)
    show ?thesis
      unfolding diff_row_def n cell [OF v(1)] cell [OF v(2)] cell [OF v(3)]
        pr [of "[ed_expected d, ed_live d, ed_debug_config_value d]" "[ed_expected e, ed_live e, ed_debug_config_value e]"] ..
  qed
  with assms have "map diff_row ds = map diff_row es"
    by (induction rule: list_all2_induct) auto
  then show ?thesis by (simp add: evidence_table_def)
qed

definition secret_diff :: "string \<Rightarrow> env_diff" where
  "secret_diff v = \<lparr>ed_name = ''DB_PASSWORD'', ed_expected = None, ed_live = Some v, ed_contract_status = Match,
     ed_debug_config_value = None, ed_recent_pr_match = None\<rparr>"

lemma demo_secret_name: "is_secret_name ''DB_PASSWORD''"
  unfolding is_secret_name_def
proof (rule bexI [of _ "''PASSWORD''"])
  have "map upper_char ''DB_PASSWORD'' = ''DB_'' @ ''PASSWORD'' @ []" by (simp add: upper_char_def)
  then show "contains_str ''PASSWORD'' (map upper_char ''DB_PASSWORD'')"
    unfolding contains_str_iff by (intro exI)
qed (simp add: SECRET_NAME_PARTS_def)

theorem evidence_hides_secrets_witness:
  "evidence_table [secret_diff ''hunter2''] = evidence_table [secret_diff ''other'']"
  by (rule evidence_hides_secrets) (simp add: secret_diff_def same_shape_def demo_secret_name)

end
