(* ===== verification/StateStore.thy ===== *)
theory StateStore
  imports PyJson "HOL-Library.AList"
begin

text \<open>
  The coordinator's Firestore store (\<open>agent/state_store.py\<close>), the part the recheck pipeline uses: event
  claims, the decisions they point to, and the recovery query.  Each operation is one document write
  or one transaction.  Decisions stand in the order of their creation times.
\<close>

record event_doc =
  ev_payload :: pydict
  ev_decision_id :: "string option"

record store =
  st_events :: "string \<Rightarrow> event_doc option"
  st_decisions :: "(string \<times> pydict) list"

definition record_event :: "string \<Rightarrow> pydict \<Rightarrow> store \<Rightarrow> bool \<times> store" where
  "record_event key payload st =
     (case st_events st key of
        Some _ \<Rightarrow> (False, st)
      | None \<Rightarrow> (True, st\<lparr>st_events := (st_events st)(key \<mapsto> \<lparr>ev_payload = payload, ev_decision_id = None\<rparr>)\<rparr>))"

definition release_event :: "string \<Rightarrow> store \<Rightarrow> store" where
  "release_event key st = st\<lparr>st_events := (st_events st)(key := None)\<rparr>"

definition get_decision :: "string \<Rightarrow> store \<Rightarrow> pydict option" where
  "get_decision did st = map_of (st_decisions st) did"

text \<open>A pointer, if the event document has one that is not empty.\<close>

definition pointer :: "string \<Rightarrow> store \<Rightarrow> string option" where
  "pointer key st =
     (case st_events st key of
        None \<Rightarrow> None
      | Some e \<Rightarrow> (case ev_decision_id e of Some (c # cs) \<Rightarrow> Some (c # cs) | _ \<Rightarrow> None))"

definition decisions_with_key :: "string \<Rightarrow> store \<Rightarrow> pydict list" where
  "decisions_with_key key st = filter (\<lambda>d. dget d ''event_key'' = PStr key) (map snd (st_decisions st))"

definition find_decision_for_event :: "string \<Rightarrow> store \<Rightarrow> pydict option" where
  "find_decision_for_event key st =
     (case pointer key st of
        Some did \<Rightarrow> get_decision did st
      | None \<Rightarrow>
          let ds = decisions_with_key key st in if ds = [] then None else Some (last ds))"

definition decision_record :: "instant \<Rightarrow> string \<Rightarrow> pydict \<Rightarrow> pydict" where
  "decision_record now key decision = dput (dput decision ''created_at'' (PTime now)) ''event_key'' (PStr key)"

text \<open>One batch: the decision, and the pointer merged into the event document.\<close>

definition record_decision :: "instant \<Rightarrow> string \<Rightarrow> string \<Rightarrow> pydict \<Rightarrow> store \<Rightarrow> store" where
  "record_decision now did key decision st =
     st\<lparr>st_decisions := AList.update did (decision_record now key decision) (st_decisions st),
        st_events := (st_events st)(key \<mapsto>
          \<lparr>ev_payload = (case st_events st key of None \<Rightarrow> [] | Some e \<Rightarrow> ev_payload e), ev_decision_id = Some did\<rparr>)\<rparr>"

definition set_decision_notify_outcome :: "string \<Rightarrow> pydict \<Rightarrow> store \<Rightarrow> (pyexc, store) res" where
  "set_decision_notify_outcome did result st =
     (case map_of (st_decisions st) did of
        None \<Rightarrow> Inl (ApiError ''NotFound'')
      | Some d \<Rightarrow> Inr (st\<lparr>st_decisions := AList.update did (dput d ''notify'' (PDict result)) (st_decisions st)\<rparr>))"

definition pointer_value :: "event_doc \<Rightarrow> pyval" where
  "pointer_value e = (case ev_decision_id e of None \<Rightarrow> PNone | Some d \<Rightarrow> PStr d)"

definition evict_cached_decision :: "string \<Rightarrow> pyval \<Rightarrow> store \<Rightarrow> bool \<times> store" where
  "evict_cached_decision key did st =
     (case st_events st key of
        None \<Rightarrow> (True, st)
      | Some e \<Rightarrow> if pointer_value e \<noteq> did then (False, st) else (True, release_event key st))"

section \<open>What each operation does to the claims\<close>

named_theorems store_simps \<open>the effect of the store's operations on claims and decisions\<close>

definition claimed :: "string \<Rightarrow> store \<Rightarrow> bool" where
  "claimed key st \<longleftrightarrow> (\<exists>e. st_events st key = Some e \<and> ev_decision_id e = None)"

lemma record_event_cases:
  "record_event key payload st = (won, st') \<Longrightarrow>
     (won \<and> st_events st key = None \<and> st_events st' = (st_events st)(key \<mapsto> \<lparr>ev_payload = payload, ev_decision_id = None\<rparr>) \<and>
        st_decisions st' = st_decisions st) \<or>
     (\<not> won \<and> st' = st \<and> st_events st key \<noteq> None)"
  by (auto simp: record_event_def split: option.splits)

lemma evict_cases:
  "evict_cached_decision key did st = (won, st') \<Longrightarrow>
     (won \<and> st_events st key = None \<and> st' = st) \<or>
     (won \<and> (\<exists>e. st_events st key = Some e \<and> pointer_value e = did) \<and> st' = release_event key st) \<or>
     (\<not> won \<and> st' = st)"
  by (auto simp: evict_cached_decision_def split: option.splits if_splits)

lemma release_events [store_simps]: "st_events (release_event key st) = (st_events st)(key := None)"
  "st_decisions (release_event key st) = st_decisions st"
  by (simp_all add: release_event_def)

lemma record_decision_events [store_simps]:
  "st_events (record_decision now did key d st) k =
     (if k = key then Some \<lparr>ev_payload = (case st_events st key of None \<Rightarrow> [] | Some e \<Rightarrow> ev_payload e), ev_decision_id = Some did\<rparr>
      else st_events st k)"
  by (simp add: record_decision_def)

lemma notify_events: "set_decision_notify_outcome did r st = Inr st' \<Longrightarrow> st_events st' = st_events st"
  by (auto simp: set_decision_notify_outcome_def split: option.splits)

lemma update_new: "map_of al k = None \<Longrightarrow> AList.update k v al = al @ [(k, v)]"
  by (induction al) auto

text \<open>A decision whose pointer was lost is still found: once a decision is recorded, releasing the claim,
  as a run does that saw an ambiguous error, leaves the next lookup with exactly that decision.\<close>

theorem recorded_decision_recovered:
  assumes "map_of (st_decisions st) did = None" and "did \<noteq> []"
  shows "find_decision_for_event key (record_decision now did key d st) = Some (decision_record now key d) \<and>
    find_decision_for_event key (release_event key (record_decision now did key d st)) = Some (decision_record now key d)"
proof -
  let ?r = "decision_record now key d"
  note update_new [OF assms(1), of ?r]
  then have "decisions_with_key key (release_event key (record_decision now did key d st)) =
      decisions_with_key key st @ [?r]"
    by (simp add: decisions_with_key_def record_decision_def release_event_def decision_record_def)
  moreover have "pointer key (release_event key (record_decision now did key d st)) = None"
    by (simp add: pointer_def store_simps)
  ultimately have "find_decision_for_event key (release_event key (record_decision now did key d st)) = Some ?r"
    by (simp add: find_decision_for_event_def)
  moreover have "pointer key (record_decision now did key d st) = Some did"
    using assms(2) by (auto simp: pointer_def store_simps neq_Nil_conv)
  then have "find_decision_for_event key (record_decision now did key d st) = Some ?r"
    by (simp add: find_decision_for_event_def get_decision_def record_decision_def update_conv')
  ultimately show ?thesis by blast
qed

theorem recorded_decision_recovered_witness:
  "find_decision_for_event ''k'' (release_event ''k''
     (record_decision 7 ''d1'' ''k'' [(''action'', PStr ''no_op'')] \<lparr>st_events = Map.empty, st_decisions = []\<rparr>))
   = Some (decision_record 7 ''k'' [(''action'', PStr ''no_op'')])"
  using recorded_decision_recovered [of "\<lparr>st_events = Map.empty, st_decisions = []\<rparr>" "''d1''"] by simp

end
