(* ===== verification/Recheck.thy ===== *)
theory Recheck
  imports Renderer StateStore
begin

text \<open>
  The autonomous pipeline behind \<open>/recheck\<close> and Eventarc (\<open>agent/main.py\<close>, \<open>_do_recheck\<close> and
  \<open>_do_rollback\<close>) from the agent's answer on: the idempotency key, the cached decision, the validator and
  the coherence gate, the claim, the side effect and the decision record.  The agent, the reader, the
  rollback worker, GitHub and the notifier are inputs of the request.  A run is a machine that stops
  after each call to the store or to a worker, so that runs can interleave.
\<close>

section \<open>Inputs\<close>

record observation =
  ob_env :: "(string \<times> string) list"
  ob_revision :: "string option"

text \<open>How the decision write ended: done, not done, or done although the caller saw an error.\<close>

datatype write_result = Written | NotWritten | WrittenButRaised

record settings =
  rs_use_adk :: bool
  rs_service :: string
  rs_contract_path :: string
  rs_dry_run :: bool
  rs_origin :: string
  rs_sha256 :: "string \<Rightarrow> string"
  rs_dump_contract :: "contract_env \<Rightarrow> string"
  rs_ip_literal :: "string \<Rightarrow> bool"

record request =
  rq_trigger :: string
  rq_force :: "string option"
  rq_contract :: contract_env
  rq_mode :: string
  rq_proposal :: proposal
  rq_observations :: "observation list"
  rq_reader :: "pyval option"
  rq_rendered :: string
  rq_decision_id :: string
  rq_trace_id :: string
  rq_propose :: "pyval option"
  rq_perform :: "(nat \<times> string, pyval) res"
  rq_write :: write_result
  rq_notify :: pydict
  rq_notify_patched :: bool

datatype answer = Served pydict | Refused nat string | Crashed string

section \<open>What was observed\<close>

definition observed_env_or_none :: "pyval \<Rightarrow> (string \<times> string) list option" where
  "observed_env_or_none payload =
     (case payload of
        PDict d \<Rightarrow>
          (case dget d ''env'' of
             PDict e \<Rightarrow> if list_all (\<lambda>(_, v). is_str v) e then Some (map (\<lambda>(k, v). (k, the (as_str v))) e) else None
           | _ \<Rightarrow> None)
      | _ \<Rightarrow> None)"

definition revision_or_none :: "pyval \<Rightarrow> string option" where
  "revision_or_none payload =
     (case payload of
        PDict d \<Rightarrow> (case dget d ''revision'' of PStr r \<Rightarrow> if r = [] then None else Some r | _ \<Rightarrow> None)
      | _ \<Rightarrow> None)"

definition observation_skew :: "(string \<times> string) list \<Rightarrow> (string \<times> string) list \<Rightarrow> string list" where
  "observation_skew observed analyzed =
     sort (remdups (filter (\<lambda>n. map_of analyzed n \<noteq> map_of observed n) (map fst analyzed @ map fst observed)))"

text \<open>Equality of two observations, each a dict of an environment dict and a revision.\<close>

definition same_observation :: "observation \<Rightarrow> observation \<Rightarrow> bool" where
  "same_observation a b \<longleftrightarrow> observation_skew (ob_env a) (ob_env b) = [] \<and> ob_revision a = ob_revision b"

fun distinct_observations :: "observation list \<Rightarrow> observation list \<Rightarrow> observation list" where
  "distinct_observations acc [] = acc"
| "distinct_observations acc (x # xs) =
     (if list_ex (same_observation x) acc then distinct_observations acc xs else distinct_observations (acc @ [x]) xs)"

definition observed :: "request \<Rightarrow> (string \<times> string) list option" where
  "observed rq = (case rq_reader rq of None \<Rightarrow> None | Some payload \<Rightarrow> observed_env_or_none payload)"

definition post_revision :: "request \<Rightarrow> string option" where
  "post_revision rq = (case rq_reader rq of None \<Rightarrow> None | Some payload \<Rightarrow> revision_or_none payload)"

text \<open>The environment the key is hashed from: the observed one, else the one the diffs report.\<close>

definition reported_env :: "env_diff list \<Rightarrow> (string \<times> string) list" where
  "reported_env ds =
     foldl (\<lambda>acc d. AList.update (ed_name d) (case ed_live d of None \<Rightarrow> ''<ABSENT>'' | Some v \<Rightarrow> v) acc) [] ds"

definition hashed_env :: "request \<Rightarrow> (string \<times> string) list" where
  "hashed_env rq = (case observed rq of Some env \<Rightarrow> env | None \<Rightarrow> reported_env (dp_env_diffs (rq_proposal rq)))"

definition event_key :: "settings \<Rightarrow> string \<Rightarrow> string \<Rightarrow> (string \<times> string) list \<Rightarrow> string" where
  "event_key s trigger hash live_env =
     trigger @ ''-'' @ rs_service s @ ''-'' @
     take 16 (rs_sha256 s (emit_spaced (canon (PDict
       [(''trigger'', PStr trigger), (''service'', PStr (rs_service s)), (''contract_path'', PStr (rs_contract_path s)),
        (''contract_hash'', PStr hash), (''live_env'', PDict (map (\<lambda>(k, v). (k, PStr v)) live_env))]))))"

definition run_key :: "settings \<Rightarrow> request \<Rightarrow> string" where
  "run_key s rq =
     event_key s (rq_trigger rq) (contract_hash (rs_sha256 s) (rs_dump_contract s) (rq_contract rq)) (hashed_env rq) @
     (case rq_force rq of None \<Rightarrow> [] | Some suffix \<Rightarrow> ''-force-'' @ suffix)"

section \<open>May a cached decision be served\<close>

definition cached_rollback_needs_ground_truth :: "pydict option \<Rightarrow> request \<Rightarrow> bool" where
  "cached_rollback_needs_ground_truth cached rq \<longleftrightarrow>
     observed rq = None \<and> (case cached of None \<Rightarrow> False | Some d \<Rightarrow> d \<noteq> [] \<and> dget d ''action'' = PStr ''rollback'')"

definition cached_rollback_is_expired :: "instant \<Rightarrow> pydict \<Rightarrow> (pyexc, bool) res" where
  "cached_rollback_is_expired now cached =
     (if dget cached ''action'' \<noteq> PStr ''rollback'' then Inr False
      else case dget_or cached ''approval'' (PDict []) of
             PDict a \<Rightarrow>
               (case dget a ''expires_at'' of
                  PStr e \<Rightarrow> Inr (case fromisoformat e of None \<Rightarrow> False | Some t \<Rightarrow> t < int now)
                | _ \<Rightarrow> Inr False)
           | _ \<Rightarrow> Inl (AttributeError ''get''))"

definition cached_decision_is_contradicted :: "pydict \<Rightarrow> proposal \<Rightarrow> bool" where
  "cached_decision_is_contradicted cached p \<longleftrightarrow>
     cached \<noteq> [] \<and> dget cached ''action'' = PStr ''no_op'' \<and> dp_action p \<noteq> NoOp"

definition cached_decision_is_stale :: "instant \<Rightarrow> pydict option \<Rightarrow> proposal \<Rightarrow> (pyexc, bool) res" where
  "cached_decision_is_stale now cached p =
     (case cached of
        None \<Rightarrow> Inr False
      | Some d \<Rightarrow>
          if d = [] then Inr False
          else rbind (cached_rollback_is_expired now d) (\<lambda>expired. Inr (expired \<or> cached_decision_is_contradicted d p)))"

section \<open>The gates\<close>

definition coherence_refusal :: "settings \<Rightarrow> request \<Rightarrow> string option" where
  "coherence_refusal s rq =
     (if \<not> rs_use_adk s then None
      else case distinct_observations [] (rq_observations rq) of
             [] \<Rightarrow> Some ''the agent did not read live state''
           | [analyzed] \<Rightarrow>
               (case observed rq of
                  None \<Rightarrow> Some ''live state could not be read after the agent ran''
                | Some env \<Rightarrow>
                    if ob_revision analyzed = None \<or> post_revision rq = None \<or> ob_revision analyzed \<noteq> post_revision rq
                    then Some ''the serving revision changed while the agent was reasoning''
                    else if observation_skew env (ob_env analyzed) \<noteq> []
                    then Some ''live state changed while the agent was reasoning'' else None)
           | _ \<Rightarrow> Some ''the agent saw live state change while it was reasoning'')"

definition rollback_propose_body :: "settings \<Rightarrow> request \<Rightarrow> (pyexc, pydict) res" where
  "rollback_propose_body s rq =
     (let p = rq_proposal rq in
      rbind (normalize_rollback_reason (scrub_rationale_text (dp_rationale p) (dp_env_diffs p))) (\<lambda>reason.
      Inr ([(''target_revision'', case dp_target_revision p of None \<Rightarrow> PNone | Some r \<Rightarrow> PStr r), (''reason'', PStr reason)] @
        contract_preview_payload (rs_sha256 s) (rs_dump_contract s) (Some (rq_contract rq)))))"

section \<open>The machine\<close>

text \<open>What happened to claims, newest first: claims won, event documents deleted by a release or an
  eviction, and calls to the rollback worker or GitHub.\<close>

datatype effect =
    Claimed string
  | Released string
  | Evicted string
  | SideEffect string request

record rworld =
  rw_store :: store
  rw_log :: "effect list"

datatype recheck_pc =
    CStart
  | CLookup
  | CEvict pyval
  | CReread
  | CClaim
  | CLost
  | CEffect
  | CRecord pydict
  | CRelease answer
  | CNotify pydict
  | CDone answer

text \<open>The proposal: the agent's, or on the deterministic path the classifier's.\<close>

definition prepare :: "settings \<Rightarrow> request \<Rightarrow> (answer, request) res" where
  "prepare s rq =
     (if rs_use_adk s then Inr rq
      else case observed rq of
             None \<Rightarrow> Inl (Refused 502 ''reader worker failed'')
           | Some env \<Rightarrow>
               (case classify (rq_contract rq) env [] of
                  Inl e \<Rightarrow> Inl (Crashed (exc_name e))
                | Inr p \<Rightarrow> Inr (rq\<lparr>rq_proposal := p\<rparr>)))"

definition after_lookup :: "settings \<Rightarrow> request \<Rightarrow> pydict option \<Rightarrow> recheck_pc" where
  "after_lookup s rq stale_cached =
     (case validate (rq_proposal rq) (rq_contract rq) (observed rq) of
        Inl e \<Rightarrow> CDone (Refused (if rs_use_adk s then 502 else 500) e)
      | Inr _ \<Rightarrow>
          (case coherence_refusal s rq of
             Some refusal \<Rightarrow> CDone (Refused 409 refusal)
           | None \<Rightarrow>
               (case stale_cached of
                  None \<Rightarrow> CClaim
                | Some d \<Rightarrow> if truthy (dget d ''decision_id'') then CEvict (dget d ''decision_id'') else CReread)))"

definition NO_GROUND_TRUTH :: answer where
  "NO_GROUND_TRUTH = Refused 502 ''cached rollback not served''"

definition IN_PROGRESS :: answer where
  "IN_PROGRESS = Refused 409 ''event in-progress, retry''"

definition lookup :: "settings \<Rightarrow> instant \<Rightarrow> request \<Rightarrow> store \<Rightarrow> recheck_pc" where
  "lookup s now rq st =
     (let existing = find_decision_for_event (run_key s rq) st in
      case existing of
        None \<Rightarrow> after_lookup s rq None
      | Some d \<Rightarrow>
          if d = [] then after_lookup s rq None
          else if cached_rollback_needs_ground_truth existing rq then CDone NO_GROUND_TRUTH
          else (case cached_decision_is_stale now existing (rq_proposal rq) of
                  Inl e \<Rightarrow> CDone (Crashed (exc_name e))
                | Inr stale \<Rightarrow> if stale then after_lookup s rq existing else CDone (Served d)))"

text \<open>Reading the winner's decision after a lost eviction or claim.\<close>

definition serve_or_retry :: "instant \<Rightarrow> request \<Rightarrow> bool \<Rightarrow> pydict option \<Rightarrow> answer" where
  "serve_or_retry now rq guarded existing =
     (if guarded \<and> cached_rollback_needs_ground_truth existing rq then NO_GROUND_TRUTH
      else case cached_decision_is_stale now existing (rq_proposal rq) of
             Inl e \<Rightarrow> Crashed (exc_name e)
           | Inr stale \<Rightarrow>
               (case existing of
                  None \<Rightarrow> IN_PROGRESS
                | Some d \<Rightarrow> if stale \<or> d = [] then IN_PROGRESS else Served d))"

section \<open>The decision documents\<close>

definition action_value :: "decision_action \<Rightarrow> string" where
  "action_value a =
     (case a of
        DocsPr \<Rightarrow> ''docs_pr'' | DriftIssue \<Rightarrow> ''drift_issue'' | Escalation \<Rightarrow> ''escalation''
      | NoOp \<Rightarrow> ''no_op'' | Rollback \<Rightarrow> ''rollback'' | UpgradePr \<Rightarrow> ''upgrade_pr'')"

definition opt_str :: "string option \<Rightarrow> pyval" where
  "opt_str v = (case v of None \<Rightarrow> PNone | Some s \<Rightarrow> PStr s)"

definition dump_diff :: "env_diff \<Rightarrow> pyval" where
  "dump_diff d =
     PDict [(''name'', PStr (ed_name d)), (''expected'', opt_str (ed_expected d)), (''live'', opt_str (ed_live d)),
       (''contract_status'', PStr (status_value (ed_contract_status d))),
       (''debug_config_value'', opt_str (ed_debug_config_value d)), (''recent_pr_match'', opt_str (ed_recent_pr_match d))]"

definition decision_head :: "settings \<Rightarrow> request \<Rightarrow> string \<Rightarrow> string \<Rightarrow> pydict" where
  "decision_head s rq path rendered =
     [(''decision_id'', PStr (rq_decision_id rq)), (''event_key'', PStr (run_key s rq)),
      (''trace_id'', PStr (rq_trace_id rq)), (''action'', PStr (action_value (dp_action (rq_proposal rq)))),
      (''decision_path'', PStr path), (''rendered_body'', PStr rendered),
      (''rationale'', PStr (dp_rationale (rq_proposal rq))),
      (''diffs'', PList (map dump_diff (dp_env_diffs (rq_proposal rq))))]"

definition observe_rollback_body :: "request \<Rightarrow> string" where
  "observe_rollback_body rq =
     (let p = rq_proposal rq in
      ''DriftScribe proposed a rollback to revision '' @ show_opt (dp_target_revision p) @
      '' but did not create the approval '' @ [em_dash] @
      '' the autonomy dial is set to Observe. Raise the dial to Propose to let rollback proposals mint operator approvals.'' @
      [CHR 0x0A, CHR 0x0A] @ ''Rationale: '' @ scrub_rationale_text (dp_rationale p) (dp_env_diffs p))"

definition suppressed_rollback :: "settings \<Rightarrow> request \<Rightarrow> pydict" where
  "suppressed_rollback s rq =
     decision_head s rq ''adk'' (observe_rollback_body rq) @
     [(''target_revision'', opt_str (dp_target_revision (rq_proposal rq))), (''requires_human_review'', PBool True),
      (''dry_run'', PBool (rs_dry_run s)), (''autonomy_mode'', PStr ''observe''), (''suppressed_by_autonomy'', PBool True),
      (''trigger'', PStr (rq_trigger rq))]"

definition rollback_decision :: "settings \<Rightarrow> request \<Rightarrow> string \<Rightarrow> approval_link \<Rightarrow> pydict" where
  "rollback_decision s rq rendered a =
     decision_head s rq ''adk'' rendered @
     [(''target_revision'', opt_str (dp_target_revision (rq_proposal rq))), (''requires_human_review'', PBool True),
      (''dry_run'', PBool (rs_dry_run s)), (''dry_run_effective'', PBool False),
      (''approval'', PDict [(''approval_id'', PStr (al_id a)), (''approval_url'', PStr (row_link a)),
         (''expires_at'', PStr (al_expires a))]),
      (''notify'', PDict [(''state'', PStr ''pending'')]), (''autonomy_mode'', PStr (rq_mode rq)),
      (''trigger'', PStr (rq_trigger rq))]"

definition plain_decision :: "settings \<Rightarrow> request \<Rightarrow> bool \<Rightarrow> pyval \<Rightarrow> pydict" where
  "plain_decision s rq suppressed github_result =
     decision_head s rq (if rs_use_adk s then ''adk'' else ''classifier'') (rq_rendered rq) @
     [(''target_docs_file'', opt_str (dp_target_docs_file (rq_proposal rq))),
      (''target_docs_section'', opt_str (dp_target_docs_section (rq_proposal rq))),
      (''requires_human_review'', PBool (dp_requires_human_review (rq_proposal rq))),
      (''dry_run'', PBool (rs_dry_run s)), (''github'', github_result), (''autonomy_mode'', PStr (rq_mode rq)),
      (''trigger'', PStr (rq_trigger rq))] @
     (if suppressed then [(''suppressed_by_autonomy'', PBool True)] else [])"

section \<open>The side effect\<close>

definition rstrip_slash :: "string \<Rightarrow> string" where
  "rstrip_slash s = rev (dropWhile (\<lambda>c. c = CHR ''/'') (rev s))"

definition notify_url :: "settings \<Rightarrow> string \<Rightarrow> string" where
  "notify_url s approval_url =
     (let absolute = (case urlsplit (rs_ip_literal s) approval_url of None \<Rightarrow> False | Some u \<Rightarrow> u_scheme u \<noteq> []);
          origin = rstrip_slash (rs_origin s)
      in if \<not> absolute \<and> origin \<noteq> [] then origin @ ''/'' @ dropWhile (\<lambda>c. c = CHR ''/'') approval_url else approval_url)"

definition rollback_effect :: "settings \<Rightarrow> request \<Rightarrow> recheck_pc" where
  "rollback_effect s rq =
     (case rq_propose rq of
        None \<Rightarrow> CRelease (Refused 502 ''rollback propose failed'')
      | Some resp \<Rightarrow>
          (case validated_approval (rs_ip_literal s) resp of
             None \<Rightarrow> CRelease (Refused 502 ''rollback worker response did not carry a usable approval'')
           | Some a \<Rightarrow>
               (case render_rollback_body (rq_proposal rq) (notify_url s (al_url a)) (Some (int NOTIFIER_BODY_MAX_CHARS)) of
                  Inl _ \<Rightarrow> CRelease (Refused 500 ''rollback render failed'')
                | Inr rendered \<Rightarrow> CRecord (rollback_decision s rq rendered a))))"

definition suppressed_action :: "request \<Rightarrow> bool" where
  "suppressed_action rq \<longleftrightarrow> rq_mode rq = ''observe'' \<and> dp_action (rq_proposal rq) \<noteq> NoOp"

definition plain_effect :: "settings \<Rightarrow> request \<Rightarrow> recheck_pc" where
  "plain_effect s rq =
     (if suppressed_action rq
      then CRecord (plain_decision s rq True
             (PDict [(''suppressed_by_autonomy'', PStr ''observe''), (''url'', PNone),
                     (''action'', PStr (action_value (dp_action (rq_proposal rq))))]))
      else case rq_perform rq of
             Inl (status, detail) \<Rightarrow> CRelease (Refused status detail)
           | Inr github_result \<Rightarrow> CRecord (plain_decision s rq False github_result))"

text \<open>Does the run call the rollback worker or GitHub?\<close>

definition calls_out :: "settings \<Rightarrow> request \<Rightarrow> bool" where
  "calls_out s rq \<longleftrightarrow>
     rq_mode rq \<noteq> ''observe'' \<and>
     (dp_action (rq_proposal rq) = Rollback \<or> (dp_action (rq_proposal rq) \<noteq> NoOp \<and> \<not> rs_dry_run s))"

definition effect_step :: "settings \<Rightarrow> request \<Rightarrow> recheck_pc" where
  "effect_step s rq =
     (if dp_action (rq_proposal rq) = Rollback
      then (if rq_mode rq = ''observe'' then CRecord (suppressed_rollback s rq) else rollback_effect s rq)
      else plain_effect s rq)"

text \<open>A live rollback releases its claim when the decision cannot be written; every other run lets the
  exception pass.\<close>

definition live_rollback :: "request \<Rightarrow> bool" where
  "live_rollback rq \<longleftrightarrow> dp_action (rq_proposal rq) = Rollback \<and> rq_mode rq \<noteq> ''observe''"

definition recheck_step ::
  "settings \<Rightarrow> instant \<Rightarrow> request \<Rightarrow> recheck_pc \<Rightarrow> rworld \<Rightarrow> request \<times> recheck_pc \<times> rworld" where
  "recheck_step s now rq pc w =
     (let key = run_key s rq; st = rw_store w; quiet = (\<lambda>pc'. (rq, pc', w)) in
      case pc of
        CStart \<Rightarrow>
          (case prepare s rq of
             Inl a \<Rightarrow> quiet (CDone a)
           | Inr rq' \<Rightarrow> (rq', if rq_force rq = None then CLookup else after_lookup s rq' None, w))
      | CLookup \<Rightarrow> quiet (lookup s now rq st)
      | CEvict did \<Rightarrow>
          (let (won, st') = evict_cached_decision key did st in
           (rq, if won then CClaim else CReread,
            \<lparr>rw_store = st', rw_log = (if st_events st key \<noteq> None \<and> won then Evicted key # rw_log w else rw_log w)\<rparr>))
      | CReread \<Rightarrow> quiet (CDone (serve_or_retry now rq True (find_decision_for_event key st)))
      | CClaim \<Rightarrow>
          if dp_action (rq_proposal rq) = Rollback \<and> \<not> rs_use_adk s
          then quiet (CDone (Refused 500 ''rollback action emitted on non-ADK path''))
          else (let (won, st') = record_event key [(''trigger'', PStr (rq_trigger rq))] st in
                if won then (rq, CEffect, \<lparr>rw_store = st', rw_log = Claimed key # rw_log w\<rparr>) else quiet CLost)
      | CLost \<Rightarrow>
          quiet (CDone (serve_or_retry now rq (dp_action (rq_proposal rq) \<noteq> Rollback) (find_decision_for_event key st)))
      | CEffect \<Rightarrow>
          (rq, effect_step s rq, w\<lparr>rw_log := (if calls_out s rq then SideEffect key rq # rw_log w else rw_log w)\<rparr>)
      | CRecord doc \<Rightarrow>
          (let st' = (if rq_write rq = NotWritten then st else record_decision now (rq_decision_id rq) key doc st) in
           (rq, if rq_write rq = Written
                then (if live_rollback rq then CNotify doc else CDone (Served doc))
                else if live_rollback rq then CRelease (Refused 502 ''rollback decision could not be recorded'')
                else CDone (Crashed ''record_decision''),
            w\<lparr>rw_store := st'\<rparr>))
      | CRelease a \<Rightarrow>
          (rq, CDone a,
           \<lparr>rw_store = release_event key st, rw_log = (if st_events st key \<noteq> None then Released key # rw_log w else rw_log w)\<rparr>)
      | CNotify doc \<Rightarrow>
          (rq, CDone (Served (dput doc ''notify'' (PDict (rq_notify rq)))),
           if rq_notify_patched rq
           then (case set_decision_notify_outcome (rq_decision_id rq) (rq_notify rq) st of
                   Inl _ \<Rightarrow> w | Inr st' \<Rightarrow> w\<lparr>rw_store := st'\<rparr>)
           else w)
      | CDone a \<Rightarrow> quiet (CDone a))"

end
