(* ===== verification/RecheckSystem.thy ===== *)
theory RecheckSystem
  imports Recheck
begin

text \<open>
  The recheck pipeline under concurrency: any number of runs, each stopped after any of its calls, over
  one store.  First what one run sends and what its gates guarantee, then the invariants of all runs.
\<close>

section \<open>The proposal the worker accepts\<close>

lemma revision_names_agree: "VALIDATOR_REVISION_NAME = REVISION_NAME"
  by (simp add: VALIDATOR_REVISION_NAME_def REVISION_NAME_def)

lemma revision_name_length:
  assumes "fullmatch REVISION_NAME r"
  shows "1 \<le> length r \<and> length r \<le> 64"
proof -
  from assms obtain c u d where "r = c # (u @ d)" "length u \<le> 62" "length d = 1"
    unfolding REVISION_NAME_def fullmatch_iff lang_seq_cls lang.simps(5) lang_rupto_cls
    by (auto split: list.splits)
  then show ?thesis by simp
qed

text \<open>C17: What the coordinator sends is what the rollback worker accepts: for every proposal that passes the
  validator, whatever the model wrote as its rationale and however large the contract is, the request
  body satisfies the worker's schema and names the validated revision.\<close>

theorem validated_rollback_is_proposable:
  assumes "validate (rq_proposal rq) (rq_contract rq) live_env = Inr ()" and "dp_action (rq_proposal rq) = Rollback"
  shows "\<exists>body pr. rollback_propose_body s rq = Inr body \<and> ProposeRequest body = Some pr \<and>
    dp_target_revision (rq_proposal rq) = Some (pr_target_revision pr)"
proof -
  let ?p = "rq_proposal rq" and ?c = "rq_contract rq"
  from assms obtain rv where rv: "dp_target_revision ?p = Some rv" "fullmatch REVISION_NAME rv"
    by (auto simp: validate_Inr validate_rollback_Inr revision_names_agree)
  let ?txt = "scrub_rationale_text (dp_rationale ?p) (dp_env_diffs ?p)"
  obtain reason where r: "normalize_rollback_reason ?txt = Inr reason" "1 \<le> length reason" "length reason \<le> 2000"
    using bound_text_fits [of ROLLBACK_REASON_MAX_CHARS ROLLBACK_REASON_ABSENT ?txt]
    by (auto simp: normalize_rollback_reason_def ROLLBACK_REASON_MAX_CHARS_def ROLLBACK_REASON_ABSENT_def)
  let ?pre = "contract_preview_payload (rs_sha256 s) (rs_dump_contract s) (Some ?c)"
  have body: "rollback_propose_body s rq = Inr ([(''target_revision'', PStr rv), (''reason'', PStr reason)] @ ?pre)"
    by (simp add: rollback_propose_body_def rv r)
  have small: "length (contract_hash (rs_sha256 s) (rs_dump_contract s) ?c) \<le> 64"
    by (simp add: contract_hash_def)
  have strs: "list_all (\<lambda>(_, v). is_str v) (map (\<lambda>(n, r). (n, PStr (er_value r))) ?c)"
    by (auto simp: list_all_iff)
  show ?thesis
  proof (cases "length ?c > CONTRACT_ENV_MAX_KEYS")
    case True
    then have "ProposeRequest ([(''target_revision'', PStr rv), (''reason'', PStr reason)] @ ?pre) =
        Some \<lparr>pr_target_revision = rv, pr_reason = reason, pr_contract_env = None, pr_contract_hash = None\<rparr>"
      using rv(2) r(2,3) revision_name_length [OF rv(2)]
      by (simp add: contract_preview_payload_def ProposeRequest_def str_field_def str_dict_field_def only_keys_def dkeys_def)
    with body rv(1) show ?thesis by simp
  next
    case False
    then have len: "length ?c \<le> 64" by (simp add: CONTRACT_ENV_MAX_KEYS_def)
    have "\<exists>pr. ProposeRequest ([(''target_revision'', PStr rv), (''reason'', PStr reason)] @ ?pre) = Some pr \<and>
        pr_target_revision pr = rv"
      using False len small strs rv(2) r(2,3) revision_name_length [OF rv(2)]
      by (simp add: contract_preview_payload_def ProposeRequest_def str_field_def str_dict_field_def only_keys_def dkeys_def)
    with body rv(1) show ?thesis by auto
  qed
qed

definition demo_settings :: settings where
  "demo_settings = \<lparr>rs_use_adk = True, rs_service = ''demo'', rs_contract_path = ''c.yaml'', rs_dry_run = False, rs_origin = [],
     rs_sha256 = (\<lambda>s. s), rs_dump_contract = (\<lambda>_. []), rs_ip_literal = (\<lambda>_. False)\<rparr>"

definition demo_request :: request where
  "demo_request = \<lparr>rq_trigger = ''eventarc'', rq_force = None, rq_contract = demo_contract, rq_mode = ''propose'',
     rq_proposal = demo_rollback, rq_observations = [\<lparr>ob_env = [(''PAYMENT_MODE'', ''live'')], ob_revision = Some ''demo-2''\<rparr>],
     rq_reader = Some (PDict [(''env'', PDict [(''PAYMENT_MODE'', PStr ''live'')]), (''revision'', PStr ''demo-2'')]),
     rq_rendered = [], rq_decision_id = ''d1'', rq_trace_id = ''t'', rq_propose = Some demo_answer, rq_perform = Inr PNone,
     rq_write = Written, rq_notify = [(''state'', PStr ''delivered'')], rq_notify_patched = True\<rparr>"

lemma demo_observed: "observed demo_request = Some [(''PAYMENT_MODE'', ''live'')]"
  by (simp add: observed_def demo_request_def observed_env_or_none_def)

theorem validated_rollback_is_proposable_witness:
  "\<exists>body pr. rollback_propose_body demo_settings demo_request = Inr body \<and> ProposeRequest body = Some pr \<and>
     pr_target_revision pr = ''demo-1''"
proof -
  have "validate (rq_proposal demo_request) (rq_contract demo_request) (Some [(''PAYMENT_MODE'', ''live'')]) = Inr ()"
    using demo_rollback_valid by (simp add: demo_request_def)
  moreover have "dp_action (rq_proposal demo_request) = Rollback" by (simp add: demo_request_def demo_rollback_def)
  moreover have "dp_target_revision (rq_proposal demo_request) = Some ''demo-1''" by (simp add: demo_request_def demo_rollback_def)
  ultimately show ?thesis using validated_rollback_is_proposable [of demo_request _ demo_settings] by fastforce
qed

section \<open>The system\<close>

type_synonym run = "request \<times> recheck_pc"

inductive recheck_system :: "settings \<Rightarrow> (request \<Rightarrow> bool) \<Rightarrow> rworld \<Rightarrow> run list \<Rightarrow> bool"
  for s :: settings and ok :: "request \<Rightarrow> bool" where
  start: "recheck_system s ok \<lparr>rw_store = \<lparr>st_events = Map.empty, st_decisions = []\<rparr>, rw_log = []\<rparr> []"
| arrive: "recheck_system s ok w ts \<Longrightarrow> ok rq \<Longrightarrow> recheck_system s ok w (ts @ [(rq, CStart)])"
| step: "recheck_system s ok w ts \<Longrightarrow> i < length ts \<Longrightarrow>
     recheck_step s now (fst (ts ! i)) (snd (ts ! i)) w = (rq', pc', w') \<Longrightarrow>
     recheck_system s ok w' (ts[i := (rq', pc')])"

text \<open>The claim a run holds from winning it until the decision is written or the claim released.\<close>

fun holds :: "settings \<Rightarrow> string \<Rightarrow> run \<Rightarrow> bool" where
  "holds s key (rq, CEffect) = (run_key s rq = key)"
| "holds s key (rq, CRecord _) = (run_key s rq = key)"
| "holds s key (rq, CRelease _) = (run_key s rq = key)"
| "holds s key _ = False"

fun before_effect :: "settings \<Rightarrow> string \<Rightarrow> run \<Rightarrow> bool" where
  "before_effect s key (rq, CEffect) = (run_key s rq = key)"
| "before_effect s key _ = False"

definition gated :: "settings \<Rightarrow> request \<Rightarrow> bool" where
  "gated s rq \<longleftrightarrow> validate (rq_proposal rq) (rq_contract rq) (observed rq) = Inr () \<and> coherence_refusal s rq = None"

fun past_gate :: "recheck_pc \<Rightarrow> bool" where
  "past_gate CStart = False"
| "past_gate CLookup = False"
| "past_gate (CDone _) = False"
| "past_gate _ = True"

fun is_effect :: "string \<Rightarrow> effect \<Rightarrow> bool" where
  "is_effect key (SideEffect k rq) = (k = key)"
| "is_effect key _ = False"

definition times :: "effect \<Rightarrow> effect list \<Rightarrow> nat" where
  "times e es = length (filter (\<lambda>x. x = e) es)"

definition effects :: "string \<Rightarrow> effect list \<Rightarrow> nat" where
  "effects key es = length (filter (is_effect key) es)"

lemma log_counts [simp]:
  "times e [] = 0" "times e (x # es) = (if x = e then Suc (times e es) else times e es)"
  "effects key [] = 0" "effects key (x # es) = (if is_effect key x then Suc (effects key es) else effects key es)"
  by (simp_all add: times_def effects_def)

section \<open>What one step does\<close>

definition present :: "string \<Rightarrow> rworld \<Rightarrow> nat" where
  "present key w = (if st_events (rw_store w) key = None then 0 else 1)"

definition deletions :: "string \<Rightarrow> rworld \<Rightarrow> nat" where
  "deletions key w = times (Released key) (rw_log w) + times (Evicted key) (rw_log w)"

definition at_effect :: "settings \<Rightarrow> string \<Rightarrow> run \<Rightarrow> nat" where
  "at_effect s key t = (if before_effect s key t then 1 else 0)"

lemma after_lookup_gated: "after_lookup s rq stale = pc \<Longrightarrow> past_gate pc \<Longrightarrow> gated s rq"
  by (auto simp: after_lookup_def gated_def split: sum.splits option.splits if_splits)

lemma after_lookup_pc: "\<not> holds s key (rq, after_lookup s rq stale) \<and> \<not> before_effect s key (rq, after_lookup s rq stale)"
  by (auto simp: after_lookup_def split: sum.split option.split)

lemma lookup_gated: "lookup s now rq st = pc \<Longrightarrow> past_gate pc \<Longrightarrow> gated s rq"
  by (auto simp: lookup_def Let_def split: option.splits sum.splits if_splits dest: after_lookup_gated [OF refl])

lemma lookup_pc: "\<not> holds s key (rq, lookup s now rq st) \<and> \<not> before_effect s key (rq, lookup s now rq st)"
  by (auto simp: lookup_def Let_def after_lookup_pc split: option.split sum.split)

lemma effect_step_pc: "(\<exists>doc. effect_step s rq = CRecord doc) \<or> (\<exists>a. effect_step s rq = CRelease a)"
  by (auto simp: effect_step_def rollback_effect_def plain_effect_def split: option.split sum.split prod.split)

text \<open>A claim is won once per event document; a deletion is logged; a call out needs a claim.\<close>

lemma step_accounts:
  assumes "recheck_step s now rq pc w = (rq', pc', w')"
  shows "(times (Claimed key) (rw_log w') + deletions key w + present key w
            \<le> times (Claimed key) (rw_log w) + deletions key w' + present key w') \<and>
    effects key (rw_log w') + at_effect s key (rq', pc') + times (Claimed key) (rw_log w)
      \<le> effects key (rw_log w) + at_effect s key (rq, pc) + times (Claimed key) (rw_log w')"
proof (cases pc)
  case CStart
  with assms show ?thesis
    using after_lookup_pc [of s key]
    by (auto simp: recheck_step_def Let_def at_effect_def split: sum.splits if_splits)
next
  case CLookup
  with assms show ?thesis
    using lookup_pc [of s key rq now "rw_store w"] by (auto simp: recheck_step_def Let_def at_effect_def)
next
  case (CEvict did)
  obtain won st' where e: "evict_cached_decision (run_key s rq) did (rw_store w) = (won, st')" by force
  with assms CEvict evict_cases [OF e] show ?thesis
    by (auto simp: recheck_step_def Let_def at_effect_def deletions_def present_def store_simps split: if_splits)
next
  case CClaim
  obtain won st' where e: "record_event (run_key s rq) [(''trigger'', PStr (rq_trigger rq))] (rw_store w) = (won, st')" by force
  with assms CClaim record_event_cases [OF e] show ?thesis
    by (auto simp: recheck_step_def Let_def at_effect_def deletions_def present_def split: if_splits)
next
  case CEffect
  with assms effect_step_pc [of s rq] show ?thesis
    by (auto simp: recheck_step_def Let_def at_effect_def deletions_def present_def)
next
  case (CRecord doc)
  with assms show ?thesis
    by (auto simp: recheck_step_def Let_def at_effect_def deletions_def present_def store_simps split: if_splits)
next
  case (CRelease a)
  with assms show ?thesis
    by (auto simp: recheck_step_def Let_def at_effect_def deletions_def present_def store_simps split: if_splits)
next
  case (CNotify doc)
  with assms show ?thesis
    by (auto simp: recheck_step_def Let_def at_effect_def deletions_def present_def dest: notify_events split: if_splits sum.splits)
qed (use assms in \<open>auto simp: recheck_step_def Let_def at_effect_def\<close>)

text \<open>What each stage has already established about its request.\<close>

definition justified :: "settings \<Rightarrow> request \<Rightarrow> bool" where
  "justified s rq \<longleftrightarrow> gated s rq \<and> (dp_action (rq_proposal rq) = Rollback \<longrightarrow> rs_use_adk s)"

fun checked :: "settings \<Rightarrow> run \<Rightarrow> bool" where
  "checked s (rq, CStart) = True"
| "checked s (rq, CLookup) = True"
| "checked s (rq, CDone _) = True"
| "checked s (rq, CEvict did) = (gated s rq \<and> truthy did)"
| "checked s (rq, CReread) = gated s rq"
| "checked s (rq, CClaim) = gated s rq"
| "checked s (rq, CLost) = gated s rq"
| "checked s (rq, _) = justified s rq"

lemma after_lookup_checked: "checked s (rq, after_lookup s rq stale)"
  by (auto simp: after_lookup_def gated_def split: sum.split option.split)

lemma lookup_checked: "checked s (rq, lookup s now rq st)"
  by (auto simp: lookup_def Let_def after_lookup_checked split: option.split sum.split)

lemma prepare_write: "prepare s rq = Inr rq' \<Longrightarrow> rq_write rq' = rq_write rq"
  by (auto simp: prepare_def split: if_splits option.splits sum.splits)

lemma step_checked:
  assumes "recheck_step s now rq pc w = (rq', pc', w')" and "checked s (rq, pc)"
  shows "checked s (rq', pc')" and "rq_write rq' = rq_write rq"
    and "SideEffect k r \<in> set (rw_log w') \<Longrightarrow> SideEffect k r \<in> set (rw_log w) \<or>
      (r = rq \<and> k = run_key s rq \<and> justified s rq \<and> calls_out s rq)"
  using assms effect_step_pc [of s rq]
  by (cases pc; auto simp: recheck_step_def Let_def after_lookup_checked lookup_checked justified_def prepare_write
      split: sum.splits if_splits prod.splits)+

definition at_hold :: "settings \<Rightarrow> string \<Rightarrow> run \<Rightarrow> nat" where
  "at_hold s key t = (if holds s key t then 1 else 0)"

definition open_claim :: "string \<Rightarrow> rworld \<Rightarrow> nat" where
  "open_claim key w = (if claimed key (rw_store w) then 1 else 0)"

lemma after_lookup_free [simp]: "at_hold s key (rq, after_lookup s rq' stale) = 0"
  by (auto simp: after_lookup_def at_hold_def split: sum.split option.split)

lemma lookup_free [simp]: "at_hold s key (rq, lookup s now rq' st) = 0"
  by (auto simp: lookup_def Let_def at_hold_def [of s key "(rq, CDone a)" for a] split: option.split sum.split)

lemma claimed_other:
  "k \<noteq> key \<Longrightarrow> claimed key (release_event k st) = claimed key st"
  "k \<noteq> key \<Longrightarrow> claimed key (record_decision now did k d st) = claimed key st"
  by (simp_all add: claimed_def store_simps)

lemma step_holds:
  assumes "recheck_step s now rq pc w = (rq', pc', w')" and "checked s (rq, pc)" and "rq_write rq \<noteq> WrittenButRaised"
  shows "at_hold s key (rq', pc') + open_claim key w \<le> at_hold s key (rq, pc) + open_claim key w'"
proof (cases pc)
  case CStart
  with assms show ?thesis
    by (auto simp: recheck_step_def Let_def split: sum.splits if_splits) (auto simp: at_hold_def)
next
  case (CEvict did)
  obtain won st' where e: "evict_cached_decision (run_key s rq) did (rw_store w) = (won, st')" by force
  from assms(2) CEvict have "did \<noteq> PNone" by auto
  with assms CEvict evict_cases [OF e] show ?thesis
    by (auto simp: recheck_step_def Let_def at_hold_def open_claim_def e claimed_def store_simps pointer_value_def
        split: if_splits)
next
  case CClaim
  obtain won st' where e: "record_event (run_key s rq) [(''trigger'', PStr (rq_trigger rq))] (rw_store w) = (won, st')" by force
  with assms CClaim record_event_cases [OF e] show ?thesis
    by (auto simp: recheck_step_def Let_def at_hold_def open_claim_def claimed_def split: if_splits)
next
  case CEffect
  with assms effect_step_pc [of s rq] show ?thesis
    by (auto simp: recheck_step_def Let_def at_hold_def open_claim_def)
next
  case (CRecord doc)
  with assms show ?thesis
    by (cases "rq_write rq") (auto simp: recheck_step_def Let_def at_hold_def open_claim_def claimed_def store_simps split: if_splits)
next
  case (CRelease a)
  with assms show ?thesis
    by (auto simp: recheck_step_def Let_def at_hold_def open_claim_def claimed_def store_simps split: if_splits)
next
  case (CNotify doc)
  with assms show ?thesis
    by (auto simp: recheck_step_def Let_def at_hold_def open_claim_def claimed_def dest: notify_events split: if_splits sum.splits)
next
  case CLookup
  with assms show ?thesis by (auto simp: recheck_step_def Let_def)
qed (use assms in \<open>auto simp: recheck_step_def Let_def at_hold_def open_claim_def\<close>)

section \<open>All runs\<close>

lemma update_sum:
  fixes f :: "run \<Rightarrow> nat"
  assumes "i < length ts"
  shows "sum_list (map f (ts[i := t])) + f (ts ! i) = sum_list (map f ts) + f t"
  using assms
proof (induction ts arbitrary: i)
  case (Cons x xs) then show ?case by (cases i) auto
qed simp

lemma system_checked:
  "recheck_system s ok w ts \<Longrightarrow> (\<forall>t \<in> set ts. checked s t \<and> (\<exists>rq. ok rq \<and> rq_write (fst t) = rq_write rq)) \<and>
     (\<forall>k r. SideEffect k r \<in> set (rw_log w) \<longrightarrow> k = run_key s r \<and> justified s r \<and> calls_out s r)"
proof (induction rule: recheck_system.induct)
  case (step w ts i now rq' pc' w')
  let ?t = "ts ! i"
  from step.hyps(2) step.IH have "checked s (fst ?t, snd ?t)" "\<exists>rq. ok rq \<and> rq_write (fst ?t) = rq_write rq" by auto
  note step_checked = step_checked [OF step.hyps(3) this(1)] this(2)
  have "\<forall>t \<in> set (ts[i := (rq', pc')]). checked s t \<and> (\<exists>rq. ok rq \<and> rq_write (fst t) = rq_write rq)"
    using step_checked(1,2,4) step.IH by (auto dest!: set_update_subset_insert [THEN subsetD])
  moreover have "k = run_key s r \<and> justified s r \<and> calls_out s r" if "SideEffect k r \<in> set (rw_log w')" for k r
    using step_checked(3) [OF that] step.IH by blast
  ultimately show ?case by blast
qed auto

lemma system_accounts:
  "recheck_system s ok w ts \<Longrightarrow> times (Claimed key) (rw_log w) \<le> deletions key w + present key w \<and>
     effects key (rw_log w) + sum_list (map (at_effect s key) ts) \<le> times (Claimed key) (rw_log w)"
proof (induction rule: recheck_system.induct)
  case (step w ts i now rq' pc' w')
  from update_sum [OF step.hyps(2), of "at_effect s key" "(rq', pc')"]
    step_accounts [OF step.hyps(3), of key] step.IH
  show ?case by simp
qed (simp_all add: at_effect_def deletions_def)

text \<open>C11: Runs do not repeat one another's side effect: in every interleaving of rechecks, whatever each of
  them observes and however each call fails, the worker or GitHub is called for an event key at most once
  more than its event document was deleted, that is released after a failure or evicted as stale.\<close>

theorem one_side_effect_per_claim:
  assumes "recheck_system s ok w ts"
  shows "effects key (rw_log w) \<le> deletions key w + 1"
  using system_accounts [OF assms, of key] by (auto simp: present_def split: if_splits)

text \<open>C15: A claim is exclusive: as long as no decision write is reported as failed although it happened,
  at most one run is between winning the claim of a key and settling it, and while one is, the event
  document is there and has no decision yet.\<close>

theorem claim_is_exclusive:
  assumes "recheck_system s (\<lambda>rq. rq_write rq \<noteq> WrittenButRaised) w ts"
  shows "length (filter (holds s key) ts) \<le> (if claimed key (rw_store w) then 1 else 0)"
proof -
  have "sum_list (map (at_hold s key) ts) \<le> open_claim key w" using assms
  proof (induction rule: recheck_system.induct)
    case (step w ts i now rq' pc' w')
    have "checked s (fst (ts ! i), snd (ts ! i))" "rq_write (fst (ts ! i)) \<noteq> WrittenButRaised"
      using system_checked [OF step.hyps(1)] step.hyps(2) by (auto simp: all_set_conv_all_nth)
    from step_holds [OF step.hyps(3) this, of key] update_sum [OF step.hyps(2), of "at_hold s key" "(rq', pc')"] step.IH
    show ?case by simp
  qed (simp_all add: at_hold_def)
  moreover have "sum_list (map (at_hold s key) ts) = length (filter (holds s key) ts)"
    by (induction ts) (simp_all add: at_hold_def)
  ultimately show ?thesis by (simp add: open_claim_def split: if_splits)
qed

text \<open>C10: Nothing is called without cause: every call of the worker or GitHub, in any interleaving, was
  made with the dial above Observe for a proposal that passes the validator on the observed
  environment; on the agent's path the observation taken after the turn agrees with the one
  environment and revision the agent saw, and a call for a rollback is always on that path, its
  environment showing a variable the contract forbids changing set to another value.\<close>

theorem side_effects_are_justified:
  assumes "recheck_system s ok w ts" and "SideEffect key rq \<in> set (rw_log w)"
  shows "key = run_key s rq \<and> rq_mode rq \<noteq> ''observe'' \<and> dp_action (rq_proposal rq) \<noteq> NoOp \<and>
    validate (rq_proposal rq) (rq_contract rq) (observed rq) = Inr () \<and>
    (rs_use_adk s \<longrightarrow> (\<exists>seen env. distinct_observations [] (rq_observations rq) = [seen] \<and> observed rq = Some env \<and>
        observation_skew env (ob_env seen) = [] \<and> ob_revision seen = post_revision rq \<and> post_revision rq \<noteq> None)) \<and>
    (dp_action (rq_proposal rq) = Rollback \<longrightarrow> rs_use_adk s \<and>
       (\<exists>env. observed rq = Some env \<and> (\<exists>nr \<in> set (rq_contract rq). hard_violation env nr)))"
proof -
  from system_checked [OF assms(1)] assms(2)
  have j: "key = run_key s rq" "justified s rq" "calls_out s rq" by blast+
  then have v: "validate (rq_proposal rq) (rq_contract rq) (observed rq) = Inr ()" and c: "coherence_refusal s rq = None"
    by (simp_all add: justified_def gated_def)
  have coherent: "\<exists>seen env. distinct_observations [] (rq_observations rq) = [seen] \<and> observed rq = Some env \<and>
        observation_skew env (ob_env seen) = [] \<and> ob_revision seen = post_revision rq \<and> post_revision rq \<noteq> None"
    if "rs_use_adk s"
    using c that by (auto simp: coherence_refusal_def split: list.splits option.splits if_splits)
  have "\<exists>env. observed rq = Some env \<and> (\<exists>nr \<in> set (rq_contract rq). hard_violation env nr)"
    if "dp_action (rq_proposal rq) = Rollback"
    using v that by (auto simp: validate_Inr validate_rollback_Inr authorize_rollback_from_live_env_def result_simps
        filter_empty_conv split: option.splits)
  with j v coherent show ?thesis by (auto simp: calls_out_def justified_def)
qed

section \<open>What is served\<close>

lemma not_stale:
  assumes "cached_decision_is_stale now (Some d) p = Inr False" and "d \<noteq> []"
  shows "\<not> (dget d ''action'' = PStr ''no_op'' \<and> dp_action p \<noteq> NoOp)"
    and "dget d ''action'' = PStr ''rollback'' \<Longrightarrow> dget_or d ''approval'' (PDict []) = PDict a \<Longrightarrow> dget a ''expires_at'' = PStr e \<Longrightarrow>
      fromisoformat e = Some t \<Longrightarrow> int now \<le> t"
  using assms by (auto simp: cached_decision_is_stale_def cached_decision_is_contradicted_def cached_rollback_is_expired_def
      rbind_def split: sum.splits)

lemma after_lookup_answers: "after_lookup s rq stale \<noteq> CDone (Served d)"
  by (auto simp: after_lookup_def split: sum.split option.split)

lemma lookup_served:
  assumes "lookup s now rq st = CDone (Served d)"
  shows "find_decision_for_event (run_key s rq) st = Some d \<and> d \<noteq> [] \<and>
    cached_decision_is_stale now (Some d) (rq_proposal rq) = Inr False \<and> \<not> cached_rollback_needs_ground_truth (Some d) rq"
proof (cases "find_decision_for_event (run_key s rq) st")
  case None
  with assms show ?thesis by (simp add: lookup_def after_lookup_answers)
next
  case (Some d')
  with assms show ?thesis
    by (auto simp: lookup_def Let_def after_lookup_answers NO_GROUND_TRUTH_def split: if_splits sum.splits)
qed

lemma serve_or_retry_served:
  assumes "serve_or_retry now rq guarded found = Served d"
  shows "found = Some d \<and> d \<noteq> [] \<and> cached_decision_is_stale now (Some d) (rq_proposal rq) = Inr False \<and>
    (guarded \<longrightarrow> \<not> cached_rollback_needs_ground_truth (Some d) rq)"
  using assms by (cases found) (auto simp: serve_or_retry_def NO_GROUND_TRUTH_def IN_PROGRESS_def split: if_splits sum.splits)

text \<open>C21: What is answered from the store is current: in any interleaving, a run that serves a decision
  another run recorded serves the one the store holds for its key, without changing anything; a
  rollback among these has not expired and the service's environment could be read, and a decision
  that nothing needs doing is not served when the agent now proposes something.\<close>

theorem served_decisions_are_current:
  assumes "recheck_system s ok w ts" and "i < length ts" and "ts ! i = (rq, pc)" and "pc \<in> {CLookup, CReread, CLost}"
    and "recheck_step s now rq pc w = (rq', CDone (Served d), w')"
  shows "w' = w \<and> find_decision_for_event (run_key s rq) (rw_store w) = Some d \<and>
    \<not> (dget d ''action'' = PStr ''no_op'' \<and> dp_action (rq_proposal rq) \<noteq> NoOp) \<and>
    (dget d ''action'' = PStr ''rollback'' \<longrightarrow> observed rq \<noteq> None \<and>
      (\<forall>a e t. dget_or d ''approval'' (PDict []) = PDict a \<longrightarrow> dget a ''expires_at'' = PStr e \<longrightarrow>
         fromisoformat e = Some t \<longrightarrow> int now \<le> t))"
proof -
  let ?found = "find_decision_for_event (run_key s rq) (rw_store w)"
  have ck: "checked s (rq, pc)"
    using system_checked [OF assms(1)] assms(2,3) by (metis nth_mem)
  let ?guarded = "\<not> (pc = CLost \<and> dp_action (rq_proposal rq) = Rollback)"
  have served: "w' = w \<and> ?found = Some d \<and> d \<noteq> [] \<and> cached_decision_is_stale now (Some d) (rq_proposal rq) = Inr False \<and>
      (?guarded \<longrightarrow> \<not> cached_rollback_needs_ground_truth (Some d) rq)"
  proof (cases "pc = CLookup")
    case True
    with assms(5) lookup_served [of s now rq "rw_store w" d] show ?thesis by (auto simp: recheck_step_def Let_def)
  next
    case False
    with assms(4,5) have "w' = w \<and> serve_or_retry now rq ?guarded ?found = Served d"
      by (auto simp: recheck_step_def Let_def)
    with serve_or_retry_served [of now rq ?guarded ?found d] show ?thesis by blast
  qed
  have "observed rq \<noteq> None" if "dget d ''action'' = PStr ''rollback''"
  proof (cases ?guarded)
    case True
    with served that show ?thesis by (auto simp: cached_rollback_needs_ground_truth_def)
  next
    case False
    with ck show ?thesis
      by (auto simp: gated_def validate_Inr validate_rollback_Inr authorize_rollback_from_live_env_def split: option.splits)
  qed
  with served not_stale [of now d "rq_proposal rq"] show ?thesis by blast
qed

fun run_for :: "settings \<Rightarrow> instant \<Rightarrow> nat \<Rightarrow> request \<times> recheck_pc \<times> rworld \<Rightarrow> request \<times> recheck_pc \<times> rworld" where
  "run_for s now 0 x = x"
| "run_for s now (Suc n) (rq, pc, w) = run_for s now n (recheck_step s now rq pc w)"

lemma run_for_steps:
  "run_for s now 2 (rq, pc, w) = (case recheck_step s now rq pc w of (rq', pc', w') \<Rightarrow> recheck_step s now rq' pc' w')"
  by (simp add: numeral_2_eq_2 split: prod.split)

lemma run_for_add: "run_for s now (m + n) x = run_for s now n (run_for s now m x)"
  by (induction s now m x rule: run_for.induct) auto

lemma start_plain: "rq_force rq = None \<Longrightarrow> prepare s rq = Inr rq1 \<Longrightarrow> recheck_step s now rq CStart w = (rq1, CLookup, w)"
  by (simp add: recheck_step_def Let_def)

lemma first_run:
  assumes "rq_force rq = None" and "prepare s rq = Inr rq1" and "justified s rq1" and "effect_step s rq1 = CRecord doc"
    and "rq_write rq1 = Written" and "st_events (rw_store w) (run_key s rq1) = None"
    and "decisions_with_key (run_key s rq1) (rw_store w) = []"
  shows "\<exists>st. run_for s now 4 (rq, CStart, w) = (rq1, CRecord doc, \<lparr>rw_store = st,
      rw_log = (if calls_out s rq1 then [SideEffect (run_key s rq1) rq1] else []) @ Claimed (run_key s rq1) # rw_log w\<rparr>) \<and>
      st_decisions st = st_decisions (rw_store w)"
proof -
  let ?key = "run_key s rq1"
  have none: "find_decision_for_event ?key (rw_store w) = None"
    using assms(6,7) by (simp add: find_decision_for_event_def pointer_def)
  have s2: "recheck_step s now rq1 CLookup w = (rq1, CClaim, w)"
    using none assms(3) by (auto simp: recheck_step_def Let_def lookup_def after_lookup_def justified_def gated_def)
  obtain won st where e: "record_event ?key [(''trigger'', PStr (rq_trigger rq1))] (rw_store w) = (won, st)" by force
  with record_event_cases [OF e] assms(6) have won: won "st_decisions st = st_decisions (rw_store w)" by auto
  have s3: "recheck_step s now rq1 CClaim w = (rq1, CEffect, \<lparr>rw_store = st, rw_log = Claimed ?key # rw_log w\<rparr>)"
    using won e assms(3) by (auto simp: recheck_step_def Let_def justified_def)
  have s4: "recheck_step s now rq1 CEffect \<lparr>rw_store = st, rw_log = Claimed ?key # rw_log w\<rparr> =
      (rq1, CRecord doc, \<lparr>rw_store = st,
         rw_log = (if calls_out s rq1 then [SideEffect ?key rq1] else []) @ Claimed ?key # rw_log w\<rparr>)"
    using assms(4) by (simp add: recheck_step_def Let_def)
  have "run_for s now (2 + 2) (rq, CStart, w) = (rq1, CRecord doc, \<lparr>rw_store = st,
      rw_log = (if calls_out s rq1 then [SideEffect ?key rq1] else []) @ Claimed ?key # rw_log w\<rparr>)"
    unfolding run_for_add by (simp add: run_for_steps start_plain [OF assms(1,2)] s2 s3 s4)
  with won(2) show ?thesis by auto
qed

text \<open>What a run stores once it has recorded its decision and, for a rollback, the notice's outcome.\<close>

definition settled_doc :: "request \<Rightarrow> pydict \<Rightarrow> pydict" where
  "settled_doc rq doc =
     (if live_rollback rq \<and> rq_notify_patched rq then dput doc ''notify'' (PDict (rq_notify rq)) else doc)"

text \<open>The store points the key to that decision.\<close>

definition keeps_decision :: "string \<Rightarrow> string \<Rightarrow> pydict \<Rightarrow> store \<Rightarrow> bool" where
  "keeps_decision key did d st \<longleftrightarrow>
     did \<noteq> [] \<and> (\<exists>e. st_events st key = Some e \<and> ev_decision_id e = Some did) \<and> map_of (st_decisions st) did = Some d"

lemma keeps_found: "keeps_decision key did d st \<Longrightarrow> find_decision_for_event key st = Some d"
  by (auto simp: keeps_decision_def find_decision_for_event_def pointer_def get_decision_def neq_Nil_conv)

lemma last_steps:
  assumes "rq_write rq = Written" and "rq_decision_id rq \<noteq> []" and "map_of (st_decisions (rw_store w)) (rq_decision_id rq) = None"
  shows "\<exists>answer w'. run_for s now 2 (rq, CRecord doc, w) = (rq, CDone (Served answer), w') \<and> rw_log w' = rw_log w \<and>
    (\<forall>k. k \<noteq> ''notify'' \<longrightarrow> dget answer k = dget doc k) \<and>
    keeps_decision (run_key s rq) (rq_decision_id rq) (settled_doc rq (decision_record now (run_key s rq) doc)) (rw_store w')"
proof -
  let ?key = "run_key s rq" and ?did = "rq_decision_id rq"
  let ?st = "record_decision now ?did ?key doc (rw_store w)"
  let ?r = "decision_record now ?key doc"
  have stored: "map_of (st_decisions ?st) ?did = Some ?r"
    by (simp add: record_decision_def update_conv')
  have s1: "recheck_step s now rq (CRecord doc) w =
      (rq, if live_rollback rq then CNotify doc else CDone (Served doc), w\<lparr>rw_store := ?st\<rparr>)"
    using assms(1) by (simp add: recheck_step_def Let_def)
  have found: "keeps_decision ?key ?did ?r ?st"
    using assms(2) stored by (simp add: keeps_decision_def store_simps)
  obtain st' where n: "set_decision_notify_outcome ?did (rq_notify rq) ?st = Inr st'"
    "st_decisions st' = AList.update ?did (dput ?r ''notify'' (PDict (rq_notify rq))) (st_decisions ?st)"
    using stored by (auto simp: set_decision_notify_outcome_def)
  have found': "keeps_decision ?key ?did (dput ?r ''notify'' (PDict (rq_notify rq))) st'"
    using found by (simp add: keeps_decision_def notify_events [OF n(1)] n(2) update_conv')
  show ?thesis
    using s1 found found' n(1)
    by (cases "live_rollback rq"; cases "rq_notify_patched rq")
      (auto simp: run_for_steps recheck_step_def [of s now rq "CNotify doc"] recheck_step_def [of s now rq "CDone a" for a]
        Let_def settled_doc_def)
qed

lemma settled_keys:
  "k \<notin> {''notify'', ''created_at'', ''event_key''} \<Longrightarrow> dget_or (settled_doc rq (decision_record now key doc)) k v = dget_or doc k v"
  "settled_doc rq (decision_record now key doc) \<noteq> []"
proof -
  show "k \<notin> {''notify'', ''created_at'', ''event_key''} \<Longrightarrow> dget_or (settled_doc rq (decision_record now key doc)) k v = dget_or doc k v"
    by (simp add: settled_doc_def decision_record_def)
  have "dget (settled_doc rq (decision_record now key doc)) ''event_key'' = PStr key"
    by (simp add: settled_doc_def decision_record_def)
  then show "settled_doc rq (decision_record now key doc) \<noteq> []" by (metis dget_or_Nil pyval.distinct(7))
qed

lemma staleness_settled:
  assumes "cached_decision_is_stale now (Some doc) p = Inr False" and "doc \<noteq> []"
  shows "cached_decision_is_stale now (Some (settled_doc rq (decision_record stamp key doc))) p = Inr False"
  using assms settled_keys(2)
  by (auto simp: cached_decision_is_stale_def cached_rollback_is_expired_def cached_decision_is_contradicted_def settled_keys(1)
      rbind_def split: sum.splits)

section \<open>What is kept\<close>

text \<open>What can come after a state: requests arrive, and runs take steps.\<close>

inductive recheck_goes_on :: "settings \<Rightarrow> (request \<Rightarrow> bool) \<Rightarrow> rworld \<Rightarrow> run list \<Rightarrow> rworld \<Rightarrow> run list \<Rightarrow> bool"
  for s :: settings and ok :: "request \<Rightarrow> bool" and w :: rworld and ts :: "run list" where
  stays: "recheck_goes_on s ok w ts w ts"
| arrives: "recheck_goes_on s ok w ts w1 ts1 \<Longrightarrow> ok rq \<Longrightarrow> recheck_goes_on s ok w ts w1 (ts1 @ [(rq, CStart)])"
| steps: "recheck_goes_on s ok w ts w1 ts1 \<Longrightarrow> i < length ts1 \<Longrightarrow>
     recheck_step s now (fst (ts1 ! i)) (snd (ts1 ! i)) w1 = (rq', pc', w2) \<Longrightarrow>
     recheck_goes_on s ok w ts w2 (ts1[i := (rq', pc')])"

lemma goes_on_system: "recheck_goes_on s ok w ts w' ts' \<Longrightarrow> recheck_system s ok w ts \<Longrightarrow> recheck_system s ok w' ts'"
  by (induction rule: recheck_goes_on.induct) (auto intro: recheck_system.intros)

fun ended :: "recheck_pc \<Rightarrow> bool" where
  "ended (CDone _) = True"
| "ended _ = False"

text \<open>A run that can neither release the key's claim nor write over its decision.\<close>

definition harmless :: "settings \<Rightarrow> string \<Rightarrow> string \<Rightarrow> run \<Rightarrow> bool" where
  "harmless s key did t \<longleftrightarrow> \<not> holds s key t \<and> (ended (snd t) \<or> rq_decision_id (fst t) \<noteq> did)"

lemma prepare_decision_id: "prepare s rq = Inr rq' \<Longrightarrow> rq_decision_id rq' = rq_decision_id rq"
  by (auto simp: prepare_def split: if_splits option.splits sum.splits)

lemma harmless_step:
  assumes "recheck_step s now rq pc w = (rq', pc', w')" and "keeps_decision key did d (rw_store w)" and "harmless s key did (rq, pc)"
  shows "times (Evicted key) (rw_log w) < times (Evicted key) (rw_log w') \<or>
    times (Evicted key) (rw_log w') = times (Evicted key) (rw_log w) \<and> effects key (rw_log w') = effects key (rw_log w) \<and>
    keeps_decision key did d (rw_store w') \<and> harmless s key did (rq', pc')"
proof (cases pc)
  case CStart
  with assms show ?thesis using after_lookup_pc [of s key]
    by (auto simp: recheck_step_def Let_def harmless_def prepare_decision_id split: sum.splits if_splits)
next
  case CLookup
  with assms show ?thesis using lookup_pc [of s key rq now "rw_store w"]
    by (auto simp: recheck_step_def Let_def harmless_def)
next
  case (CEvict v)
  obtain gone st' where e: "evict_cached_decision (run_key s rq) v (rw_store w) = (gone, st')" by force
  with assms CEvict evict_cases [OF e] show ?thesis
    by (auto simp: recheck_step_def Let_def harmless_def keeps_decision_def store_simps split: if_splits)
next
  case CClaim
  obtain new st' where e: "record_event (run_key s rq) [(''trigger'', PStr (rq_trigger rq))] (rw_store w) = (new, st')" by force
  with assms CClaim record_event_cases [OF e] show ?thesis
    by (auto simp: recheck_step_def Let_def harmless_def keeps_decision_def split: if_splits)
next
  case CEffect
  with assms effect_step_pc [of s rq] show ?thesis
    by (auto simp: recheck_step_def Let_def harmless_def)
next
  case (CRecord doc)
  with assms show ?thesis
    by (auto simp: recheck_step_def Let_def harmless_def keeps_decision_def store_simps record_decision_def update_conv' split: if_splits)
next
  case (CRelease a)
  with assms show ?thesis
    by (auto simp: recheck_step_def Let_def harmless_def keeps_decision_def store_simps split: if_splits)
next
  case (CNotify doc)
  with assms show ?thesis
    by (auto simp: recheck_step_def Let_def harmless_def keeps_decision_def set_decision_notify_outcome_def update_conv'
        split: if_splits sum.splits option.splits)
qed (use assms in \<open>auto simp: recheck_step_def Let_def harmless_def\<close>)

lemma evictions_grow:
  "recheck_step s now rq pc w = (rq', pc', w') \<Longrightarrow> times (Evicted key) (rw_log w) \<le> times (Evicted key) (rw_log w')"
  by (cases pc) (auto simp: recheck_step_def Let_def split: prod.splits sum.splits if_splits)

text \<open>Unless the key is evicted, the decision stays and nothing more is called for it.\<close>

lemma decision_kept:
  assumes "recheck_goes_on s (\<lambda>r. rq_decision_id r \<noteq> did) w ts w2 ts2"
    and "keeps_decision key did d (rw_store w)" and "\<forall>t \<in> set ts. harmless s key did t"
  shows "times (Evicted key) (rw_log w) < times (Evicted key) (rw_log w2) \<or>
    times (Evicted key) (rw_log w2) = times (Evicted key) (rw_log w) \<and> effects key (rw_log w2) = effects key (rw_log w) \<and>
    keeps_decision key did d (rw_store w2) \<and> (\<forall>t \<in> set ts2. harmless s key did t)"
  using assms(1)
proof (induction rule: recheck_goes_on.induct)
  case stays
  with assms show ?case by simp
next
  case (arrives w1 ts1 rq)
  then show ?case by (auto simp: harmless_def)
next
  case (steps w1 ts1 i now rq' pc' w2)
  have mono: "times (Evicted key) (rw_log w1) \<le> times (Evicted key) (rw_log w2)"
    using evictions_grow [OF steps.hyps(3)] .
  show ?case
  proof (cases "times (Evicted key) (rw_log w) < times (Evicted key) (rw_log w1)")
    case True
    with mono show ?thesis by simp
  next
    case False
    with steps.IH have h: "times (Evicted key) (rw_log w1) = times (Evicted key) (rw_log w)"
      "effects key (rw_log w1) = effects key (rw_log w)" "keeps_decision key did d (rw_store w1)" "\<forall>t \<in> set ts1. harmless s key did t"
      by auto
    from h(4) steps.hyps(2) have "harmless s key did (fst (ts1 ! i), snd (ts1 ! i))" by simp
    from harmless_step [OF steps.hyps(3) h(3) this] h(1,2,4) show ?thesis
      by (auto dest!: set_update_subset_insert [THEN subsetD])
  qed
qed

text \<open>The same decision, whatever was added when it was stored.\<close>

definition same_decision :: "pydict \<Rightarrow> pydict \<Rightarrow> bool" where
  "same_decision d doc \<longleftrightarrow> (\<forall>k. k \<notin> {''notify'', ''created_at'', ''event_key''} \<longrightarrow> dget d k = dget doc k)"

text \<open>A request for the key that is not forced, for which the decision is not stale and, if this is a rollback, whose
  observation of the service succeeded, is answered with it by two steps that change nothing.\<close>

definition answers_with :: "settings \<Rightarrow> string \<Rightarrow> pydict \<Rightarrow> rworld \<Rightarrow> bool" where
  "answers_with s key doc w \<longleftrightarrow>
     (\<forall>rq rq' now. rq_force rq = None \<and> prepare s rq = Inr rq' \<and> run_key s rq' = key \<and>
        cached_decision_is_stale now (Some doc) (rq_proposal rq') = Inr False \<and>
        (dget doc ''action'' = PStr ''rollback'' \<longrightarrow> observed rq' \<noteq> None) \<longrightarrow>
        (\<exists>d. run_for s now 2 (rq, CStart, w) = (rq', CDone (Served d), w) \<and> same_decision d doc))"

lemma kept_answers:
  assumes "keeps_decision key did (settled_doc rq1 (decision_record stamp key doc)) (rw_store w)" and "doc \<noteq> []"
  shows "answers_with s key doc w"
  unfolding answers_with_def
proof (intro allI impI, elim conjE)
  fix rq rq' now
  assume h: "rq_force rq = None" "prepare s rq = Inr rq'" "run_key s rq' = key"
    "cached_decision_is_stale now (Some doc) (rq_proposal rq') = Inr False"
    "dget doc ''action'' = PStr ''rollback'' \<longrightarrow> observed rq' \<noteq> None"
  let ?d = "settled_doc rq1 (decision_record stamp key doc)"
  have "\<not> cached_rollback_needs_ground_truth (Some ?d) rq'"
    using h(5) by (auto simp: cached_rollback_needs_ground_truth_def settled_keys(1))
  then have "lookup s now rq' (rw_store w) = CDone (Served ?d)"
    using keeps_found [OF assms(1)] h(3) staleness_settled [OF h(4) assms(2), of rq1 stamp key] settled_keys(2) [of rq1 stamp key doc]
    by (simp add: lookup_def Let_def)
  then have "recheck_step s now rq' CLookup w = (rq', CDone (Served ?d), w)"
    by (simp add: recheck_step_def Let_def)
  then have "run_for s now 2 (rq, CStart, w) = (rq', CDone (Served ?d), w)"
    by (simp add: run_for_steps start_plain [OF h(1,2)])
  moreover have "same_decision ?d doc" by (simp add: same_decision_def settled_keys(1))
  ultimately show "\<exists>d. run_for s now 2 (rq, CStart, w) = (rq', CDone (Served d), w) \<and> same_decision d doc" by blast
qed

text \<open>C13: A recheck that meets no failure settles, and its answer is kept.  On a key that nobody has claimed or
  decided, a request without the force flag whose proposal passes the gates and whose side effect succeeds is
  answered after six uninterrupted steps, having made at most one call.  Whatever runs are under way then
  (none holding the key's claim, none with the same fresh decision id) and whatever requests arrive and steps
  are taken afterwards, in any order and with any failures: as long as the key is not evicted as stale, no
  further call is made for it, and a request for the same key is answered by its first two
  steps with the same decision, without a call or a change of the store, provided it is not forced, the decision
  is not stale for it at that time and, for a rollback, the service can be read.\<close>

theorem settled_decision_is_served_again:
  assumes "rq_force rq = None" and "prepare s rq = Inr rq1" and "justified s rq1" and "effect_step s rq1 = CRecord doc"
    and "rq_write rq1 = Written" and "rq_decision_id rq1 \<noteq> []"
    and "st_events (rw_store w) (run_key s rq1) = None" and "decisions_with_key (run_key s rq1) (rw_store w) = []"
    and "map_of (st_decisions (rw_store w)) (rq_decision_id rq1) = None" and "doc \<noteq> []"
    and "\<forall>t \<in> set ts. \<not> holds s (run_key s rq1) t \<and> rq_decision_id (fst t) \<noteq> rq_decision_id rq1"
  shows "\<exists>w1 first. run_for s now 6 (rq, CStart, w) = (rq1, CDone (Served first), w1) \<and>
    length (rw_log w1) \<le> length (rw_log w) + 2 \<and>
    same_decision first doc \<and>
    (\<forall>w2 ts2. recheck_goes_on s (\<lambda>r. rq_decision_id r \<noteq> rq_decision_id rq1) w1 (ts @ [(rq1, CDone (Served first))]) w2 ts2 \<longrightarrow>
       times (Evicted (run_key s rq1)) (rw_log w2) = times (Evicted (run_key s rq1)) (rw_log w1) \<longrightarrow>
       effects (run_key s rq1) (rw_log w2) = effects (run_key s rq1) (rw_log w1) \<and> answers_with s (run_key s rq1) doc w2)"
proof -
  let ?key = "run_key s rq1"
  let ?d = "settled_doc rq1 (decision_record now ?key doc)"
  obtain st where a: "run_for s now 4 (rq, CStart, w) = (rq1, CRecord doc, \<lparr>rw_store = st,
      rw_log = (if calls_out s rq1 then [SideEffect ?key rq1] else []) @ Claimed ?key # rw_log w\<rparr>)"
    "st_decisions st = st_decisions (rw_store w)"
    using first_run [OF assms(1-5,7,8)] by blast
  let ?w = "\<lparr>rw_store = st, rw_log = (if calls_out s rq1 then [SideEffect ?key rq1] else []) @ Claimed ?key # rw_log w\<rparr>"
  from assms(9) a(2) have free: "map_of (st_decisions (rw_store ?w)) (rq_decision_id rq1) = None" by simp
  obtain first w1 where b: "run_for s now 2 (rq1, CRecord doc, ?w) = (rq1, CDone (Served first), w1)" "rw_log w1 = rw_log ?w"
    "\<forall>k. k \<noteq> ''notify'' \<longrightarrow> dget first k = dget doc k" "keeps_decision ?key (rq_decision_id rq1) ?d (rw_store w1)"
    using last_steps [OF assms(5,6) free] by blast
  have six: "run_for s now (4 + 2) (rq, CStart, w) = (rq1, CDone (Served first), w1)"
    unfolding run_for_add a(1) by (rule b(1))
  have runs: "\<forall>t \<in> set (ts @ [(rq1, CDone (Served first))]). harmless s ?key (rq_decision_id rq1) t"
    using assms(11) by (simp add: harmless_def)
  have later: "effects ?key (rw_log w2) = effects ?key (rw_log w1) \<and> keeps_decision ?key (rq_decision_id rq1) ?d (rw_store w2)"
    if "recheck_goes_on s (\<lambda>r. rq_decision_id r \<noteq> rq_decision_id rq1) w1 (ts @ [(rq1, CDone (Served first))]) w2 ts2"
      "times (Evicted ?key) (rw_log w2) = times (Evicted ?key) (rw_log w1)" for w2 ts2
    using decision_kept [OF that(1) b(4) runs] that(2) by simp
  show ?thesis
  proof (intro exI conjI)
    show "run_for s now 6 (rq, CStart, w) = (rq1, CDone (Served first), w1)" using six by simp
    show "length (rw_log w1) \<le> length (rw_log w) + 2" using b(2) by simp
    show "same_decision first doc" using b(3) by (simp add: same_decision_def)
  qed (use later kept_answers assms(10) in blast)
qed

section \<open>A concrete run\<close>

lemma demo_gated: "gated demo_settings demo_request"
proof -
  have "validate (rq_proposal demo_request) (rq_contract demo_request) (observed demo_request) = Inr ()"
    using demo_rollback_valid by (simp add: demo_observed) (simp add: demo_request_def)
  moreover have "coherence_refusal demo_settings demo_request = None"
    using demo_observed
    by (simp add: coherence_refusal_def demo_settings_def)
      (simp add: demo_request_def post_revision_def revision_or_none_def observation_skew_def)
  ultimately show ?thesis by (simp add: gated_def)
qed

definition empty_world :: rworld where
  "empty_world = \<lparr>rw_store = \<lparr>st_events = Map.empty, st_decisions = []\<rparr>, rw_log = []\<rparr>"

lemma empty_free: "st_events (rw_store empty_world) key = None" "decisions_with_key key (rw_store empty_world) = []"
  "map_of (st_decisions (rw_store empty_world)) did = None"
  by (simp_all add: empty_world_def decisions_with_key_def)

lemma demo_prepared: "prepare demo_settings demo_request = Inr demo_request"
  by (simp add: prepare_def demo_settings_def)

lemma demo_justified: "justified demo_settings demo_request"
  using demo_gated by (simp add: justified_def demo_settings_def)

lemma demo_calls_out: "calls_out demo_settings demo_request"
  by (simp add: calls_out_def demo_request_def demo_rollback_def)

lemma demo_effect:
  "\<exists>rendered. effect_step demo_settings demo_request = CRecord (rollback_decision demo_settings demo_request rendered demo_link)"
proof -
  let ?u = "notify_url demo_settings (al_url demo_link)"
  obtain out where "render_rollback_body demo_rollback ?u (Some (int NOTIFIER_BODY_MAX_CHARS)) = Inr out"
    using rendered_with_link [of "int NOTIFIER_BODY_MAX_CHARS" demo_rollback ?u] by (auto simp: NOTIFIER_BODY_MAX_CHARS_def)
  then have "rollback_effect demo_settings demo_request = CRecord (rollback_decision demo_settings demo_request out demo_link)"
    using demo_answer_accepted by (simp add: rollback_effect_def demo_request_def demo_settings_def)
  then show ?thesis by (auto simp: effect_step_def demo_request_def demo_rollback_def)
qed

lemma demo_decision_fields:
  "dget (rollback_decision demo_settings demo_request rendered demo_link) ''action'' = PStr ''rollback''"
  "dget_or (rollback_decision demo_settings demo_request rendered demo_link) ''approval'' (PDict []) =
     PDict [(''approval_id'', PStr demo_id), (''approval_url'', PStr (row_link demo_link)), (''expires_at'', PStr (iso_micro 0))]"
  "dget (rollback_decision demo_settings demo_request rendered demo_link) ''decision_id'' = PStr ''d1''"
  "rollback_decision demo_settings demo_request rendered demo_link \<noteq> []"
  by (simp_all add: rollback_decision_def decision_head_def demo_request_def demo_rollback_def action_value_def demo_link_def)

lemma demo_fresh:
  "cached_decision_is_stale 0 (Some (rollback_decision demo_settings demo_request rendered demo_link)) p = Inr False"
  by (simp add: cached_decision_is_stale_def cached_rollback_is_expired_def cached_decision_is_contradicted_def
      demo_decision_fields demo_expiry)

theorem settled_decision_is_served_again_witness:
  "\<exists>w1 first second. run_for demo_settings 0 6 (demo_request, CStart, empty_world) = (demo_request, CDone (Served first), w1) \<and>
     recheck_goes_on demo_settings (\<lambda>r. rq_decision_id r \<noteq> ''d1'') w1 [(demo_request, CDone (Served first))] w1
       [(demo_request, CDone (Served first)), (demo_request\<lparr>rq_decision_id := ''d2''\<rparr>, CStart)] \<and>
     run_for demo_settings 0 2 (demo_request, CStart, w1) = (demo_request, CDone (Served second), w1) \<and>
     dget second ''decision_id'' = PStr ''d1''"
proof -
  obtain rendered where e: "effect_step demo_settings demo_request =
      CRecord (rollback_decision demo_settings demo_request rendered demo_link)" using demo_effect by blast
  let ?doc = "rollback_decision demo_settings demo_request rendered demo_link"
  have fields: "rq_force demo_request = None" "rq_write demo_request = Written" "rq_decision_id demo_request \<noteq> []"
    and id: "rq_decision_id demo_request = ''d1''"
    by (simp_all add: demo_request_def)
  have observed: "dget ?doc ''action'' = PStr ''rollback'' \<longrightarrow> observed demo_request \<noteq> None" by (simp add: demo_observed)
  obtain w1 first where
    r: "run_for demo_settings 0 6 (demo_request, CStart, empty_world) = (demo_request, CDone (Served first), w1)"
      "\<And>w2 ts2. recheck_goes_on demo_settings (\<lambda>r. rq_decision_id r \<noteq> ''d1'') w1 ([] @ [(demo_request, CDone (Served first))]) w2 ts2 \<Longrightarrow>
         times (Evicted (run_key demo_settings demo_request)) (rw_log w2) =
         times (Evicted (run_key demo_settings demo_request)) (rw_log w1) \<Longrightarrow>
         answers_with demo_settings (run_key demo_settings demo_request) ?doc w2"
    using settled_decision_is_served_again [where now = 0 and ts = "[]", OF fields(1) demo_prepared demo_justified e fields(2,3)
        empty_free demo_decision_fields(4)] unfolding id by auto
  have goes: "recheck_goes_on demo_settings (\<lambda>r. rq_decision_id r \<noteq> ''d1'') w1 [(demo_request, CDone (Served first))] w1
      ([(demo_request, CDone (Served first))] @ [(demo_request\<lparr>rq_decision_id := ''d2''\<rparr>, CStart)])"
    by (rule recheck_goes_on.arrives [OF recheck_goes_on.stays]) simp
  from r(2) [of w1] goes have "answers_with demo_settings (run_key demo_settings demo_request) ?doc w1" by simp
  then obtain second where s: "run_for demo_settings 0 2 (demo_request, CStart, w1) = (demo_request, CDone (Served second), w1)"
    "same_decision second ?doc"
    using fields(1) demo_prepared demo_fresh observed unfolding answers_with_def by metis
  have "dget second ''decision_id'' = PStr ''d1''"
    using s(2) demo_decision_fields(3) by (simp add: same_decision_def)
  with r(1) goes s(1) show ?thesis by auto
qed

lemma system_run:
  "recheck_system s ok w ts \<Longrightarrow> i < length ts \<Longrightarrow> ts ! i = (rq, pc) \<Longrightarrow> run_for s now n (rq, pc, w) = (rq', pc', w') \<Longrightarrow>
     recheck_system s ok w' (ts[i := (rq', pc')])"
proof (induction n arbitrary: w ts rq pc)
  case 0
  then show ?case using list_update_id [of ts i] by simp
next
  case (Suc n)
  obtain rq1 pc1 w1 where st: "recheck_step s now rq pc w = (rq1, pc1, w1)" by (metis prod_cases3)
  have "recheck_system s ok w1 (ts[i := (rq1, pc1)])"
    using recheck_system.step [OF Suc.prems(1,2), of now rq1 pc1 w1] Suc.prems(3) st by simp
  from Suc.IH [OF this, of rq1 pc1] Suc.prems(2,4) st show ?case by simp
qed

lemma demo_started: "ok demo_request \<Longrightarrow> recheck_system demo_settings ok empty_world [(demo_request, CStart)]"
  using recheck_system.arrive [OF recheck_system.start, of ok demo_request demo_settings] by (simp add: empty_world_def)

lemma demo_reached:
  assumes "ok demo_request"
  shows "\<exists>w doc. recheck_system demo_settings ok w [(demo_request, CRecord doc)] \<and>
    rw_log w = [SideEffect (run_key demo_settings demo_request) demo_request, Claimed (run_key demo_settings demo_request)]"
proof -
  obtain rendered where e: "effect_step demo_settings demo_request =
      CRecord (rollback_decision demo_settings demo_request rendered demo_link)" using demo_effect by blast
  have fields: "rq_force demo_request = None" "rq_write demo_request = Written" by (simp_all add: demo_request_def)
  from first_run [OF fields(1) demo_prepared demo_justified e fields(2) empty_free(1,2), of 0]
  obtain st where "run_for demo_settings 0 4 (demo_request, CStart, empty_world) =
      (demo_request, CRecord (rollback_decision demo_settings demo_request rendered demo_link), \<lparr>rw_store = st,
       rw_log = [SideEffect (run_key demo_settings demo_request) demo_request] @ Claimed (run_key demo_settings demo_request) # []\<rparr>)"
    using demo_calls_out by (auto simp: empty_world_def)
  from system_run [OF demo_started [of ok, OF assms] _ _ this, of 0] show ?thesis by auto
qed

theorem one_side_effect_per_claim_witness:
  "\<exists>w. effects (run_key demo_settings demo_request) (rw_log w) = 1 \<and> 1 \<le> deletions (run_key demo_settings demo_request) w + 1"
proof -
  obtain w doc where w: "recheck_system demo_settings (\<lambda>_. True) w [(demo_request, CRecord doc)]"
    "rw_log w = [SideEffect (run_key demo_settings demo_request) demo_request, Claimed (run_key demo_settings demo_request)]"
    using demo_reached [of "\<lambda>_. True"] by blast
  have "effects (run_key demo_settings demo_request) (rw_log w) = 1" by (simp add: w(2))
  with one_side_effect_per_claim [OF w(1), of "run_key demo_settings demo_request"] show ?thesis by auto
qed

theorem claim_is_exclusive_witness:
  "\<exists>w :: rworld. claimed (run_key demo_settings demo_request) (rw_store w)"
proof -
  have "rq_write demo_request \<noteq> WrittenButRaised" by (simp add: demo_request_def)
  then obtain w doc where w: "recheck_system demo_settings (\<lambda>rq. rq_write rq \<noteq> WrittenButRaised) w [(demo_request, CRecord doc)]"
    using demo_reached [of "\<lambda>rq. rq_write rq \<noteq> WrittenButRaised"] by blast
  from claim_is_exclusive [OF this, of "run_key demo_settings demo_request"] show ?thesis
    by (auto split: if_splits)
qed

theorem side_effects_are_justified_witness:
  "validate (rq_proposal demo_request) (rq_contract demo_request) (observed demo_request) = Inr () \<and>
   (\<exists>env. observed demo_request = Some env \<and> (\<exists>nr \<in> set (rq_contract demo_request). hard_violation env nr))"
proof -
  obtain w doc where w: "recheck_system demo_settings (\<lambda>_. True) w [(demo_request, CRecord doc)]"
    "rw_log w = [SideEffect (run_key demo_settings demo_request) demo_request, Claimed (run_key demo_settings demo_request)]"
    using demo_reached [of "\<lambda>_. True"] by blast
  have "SideEffect (run_key demo_settings demo_request) demo_request \<in> set (rw_log w)" by (simp add: w(2))
  from side_effects_are_justified [OF w(1) this] show ?thesis
    by (simp add: demo_request_def demo_rollback_def)
qed

theorem served_decisions_are_current_witness:
  "\<exists>d (w :: rworld). find_decision_for_event (run_key demo_settings demo_request) (rw_store w) = Some d \<and>
     dget d ''action'' = PStr ''rollback'' \<and> observed demo_request \<noteq> None"
proof -
  obtain rendered where e: "effect_step demo_settings demo_request =
      CRecord (rollback_decision demo_settings demo_request rendered demo_link)" using demo_effect by blast
  let ?doc = "rollback_decision demo_settings demo_request rendered demo_link" and ?key = "run_key demo_settings demo_request"
  let ?d = "settled_doc demo_request (decision_record 0 ?key ?doc)"
  have fields: "rq_force demo_request = None" "rq_write demo_request = Written" "rq_decision_id demo_request \<noteq> []"
    by (simp_all add: demo_request_def)
  from first_run [OF fields(1) demo_prepared demo_justified e fields(2) empty_free(1,2), of 0]
  obtain w1 where w1: "run_for demo_settings 0 4 (demo_request, CStart, empty_world) = (demo_request, CRecord ?doc, w1)"
    "map_of (st_decisions (rw_store w1)) (rq_decision_id demo_request) = None" using empty_free(3) by fastforce
  from last_steps [OF fields(2,3) w1(2), of demo_settings 0 ?doc] obtain answer w2 where
    w2: "run_for demo_settings 0 2 (demo_request, CRecord ?doc, w1) = (demo_request, CDone (Served answer), w2)"
      "keeps_decision ?key (rq_decision_id demo_request) ?d (rw_store w2)" by (elim exE conjE) (rule that)
  note found = keeps_found [OF w2(2)]
  have "recheck_system demo_settings (\<lambda>_. True) w1 [(demo_request, CRecord ?doc)]"
    using system_run [OF demo_started _ _ w1(1), of "\<lambda>_. True" 0] by simp
  from system_run [OF this _ _ w2(1), of 0]
  have "recheck_system demo_settings (\<lambda>_. True) w2 [(demo_request, CDone (Served answer))]" by simp
  from recheck_system.arrive [OF this, of demo_request]
  have "recheck_system demo_settings (\<lambda>_. True) w2 [(demo_request, CDone (Served answer)), (demo_request, CStart)]" by simp
  from recheck_system.step [OF this, of 1 0] start_plain [OF fields(1) demo_prepared, of 0 w2]
  have sys: "recheck_system demo_settings (\<lambda>_. True) w2 [(demo_request, CDone (Served answer)), (demo_request, CLookup)]" by simp
  have "\<not> cached_rollback_needs_ground_truth (Some ?d) demo_request"
    by (simp add: cached_rollback_needs_ground_truth_def demo_observed)
  then have "recheck_step demo_settings 0 demo_request CLookup w2 = (demo_request, CDone (Served ?d), w2)"
    using found staleness_settled [OF demo_fresh demo_decision_fields(4), of demo_request 0 ?key] settled_keys(2)
    by (simp add: recheck_step_def lookup_def Let_def)
  from served_decisions_are_current [OF sys, of 1, OF _ _ _ this]
  have "find_decision_for_event ?key (rw_store w2) = Some ?d \<and> (dget ?d ''action'' = PStr ''rollback'' \<longrightarrow> observed demo_request \<noteq> None)"
    by simp
  moreover have "dget ?d ''action'' = PStr ''rollback''" by (simp add: settled_keys(1) demo_decision_fields)
  ultimately show ?thesis by blast
qed

end
