(* ===== verification/OperatorControls.thy ===== *)
theory OperatorControls
  imports PyValue
begin

text \<open>
  The operator's two controls and the tools they leave to an agent: the pause flag (\<open>agent/pause.py\<close>), the
  autonomy dial (\<open>agent/autonomy.py\<close>), the tool allowlist and its tiers
  (\<open>agent/workloads/registry.py\<close>) and the tool sets of the three kinds of agent
  (\<open>agent/adk_agent.py\<close>, \<open>agent/fanout.py\<close>).  A tool is its symbolic name and its callable's name.
\<close>

section \<open>Reading the controls\<close>

text \<open>What resolving the store and reading a document gave: an exception, no document, or one.\<close>

type_synonym control_read = "(unit, pyval option) res"

record pause_state =
  ps_paused :: bool
  ps_reason :: pyval
  ps_actor :: pyval
  ps_updated_at :: pyval
  ps_read_error :: bool

record autonomy_state =
  as_mode :: string
  as_reason :: pyval
  as_actor :: pyval
  as_updated_at :: pyval
  as_read_error :: bool

definition PAUSE_FAIL_CLOSED_REASON :: string where
  "PAUSE_FAIL_CLOSED_REASON = ''pause state could not be read '' @ [CHR 0x97] @ '' failing closed''"

definition AUTONOMY_FAIL_CLOSED_REASON :: string where
  "AUTONOMY_FAIL_CLOSED_REASON = ''autonomy state could not be read '' @ [CHR 0x97] @ '' failing closed to Observe''"

definition paused_unread :: pause_state where
  "paused_unread = \<lparr>ps_paused = True, ps_reason = PStr PAUSE_FAIL_CLOSED_REASON, ps_actor = PNone, ps_updated_at = PNone,
     ps_read_error = True\<rparr>"

definition read_pause_state :: "control_read \<Rightarrow> pause_state" where
  "read_pause_state got =
     (case got of
        Inl _ \<Rightarrow> paused_unread
      | Inr None \<Rightarrow>
          \<lparr>ps_paused = False, ps_reason = PNone, ps_actor = PNone, ps_updated_at = PNone, ps_read_error = False\<rparr>
      | Inr (Some (PDict d)) \<Rightarrow>
          (case dget d ''paused'' of
             PBool b \<Rightarrow> \<lparr>ps_paused = b, ps_reason = dget d ''reason'', ps_actor = dget d ''actor'',
                         ps_updated_at = dget d ''updated_at'', ps_read_error = False\<rparr>
           | _ \<Rightarrow> paused_unread)
      | Inr (Some _) \<Rightarrow> paused_unread)"

definition AUTONOMY_MODES :: "string list" where
  "AUTONOMY_MODES = [''observe'', ''propose'', ''propose_apply'']"

definition DEFAULT_MODE :: string where "DEFAULT_MODE = ''propose_apply''"

definition dial_unread :: autonomy_state where
  "dial_unread = \<lparr>as_mode = ''observe'', as_reason = PStr AUTONOMY_FAIL_CLOSED_REASON, as_actor = PNone, as_updated_at = PNone,
     as_read_error = True\<rparr>"

definition read_autonomy_state :: "control_read \<Rightarrow> autonomy_state" where
  "read_autonomy_state got =
     (case got of
        Inl _ \<Rightarrow> dial_unread
      | Inr None \<Rightarrow>
          \<lparr>as_mode = DEFAULT_MODE, as_reason = PNone, as_actor = PNone, as_updated_at = PNone, as_read_error = False\<rparr>
      | Inr (Some (PDict d)) \<Rightarrow>
          (case dget d ''mode'' of
             PStr m \<Rightarrow>
               if m \<in> set AUTONOMY_MODES
               then \<lparr>as_mode = m, as_reason = dget d ''reason'', as_actor = dget d ''actor'',
                      as_updated_at = dget d ''updated_at'', as_read_error = False\<rparr>
               else dial_unread
           | _ \<Rightarrow> dial_unread)
      | Inr (Some _) \<Rightarrow> dial_unread)"

section \<open>The dial\<close>

fun index_of :: "'a list \<Rightarrow> 'a \<Rightarrow> nat" where
  "index_of [] x = 0"
| "index_of (y # ys) x = (if x = y then 0 else Suc (index_of ys x))"

definition TIER_MIN_MODE :: "(string \<times> string) list" where
  "TIER_MIN_MODE = [(''report'', ''observe''), (''propose'', ''propose''), (''apply'', ''propose_apply'')]"

definition mode_allows :: "string \<Rightarrow> string \<Rightarrow> bool" where
  "mode_allows mode tier =
     (case map_of TIER_MIN_MODE tier of
        None \<Rightarrow> False
      | Some min_mode \<Rightarrow>
          mode \<in> set AUTONOMY_MODES \<and> index_of AUTONOMY_MODES min_mode \<le> index_of AUTONOMY_MODES mode)"

type_synonym tools = "(string \<times> string) list"

definition tier_of :: "(string \<times> string) list \<Rightarrow> string \<Rightarrow> string" where
  "tier_of tiers name = (case map_of tiers name of None \<Rightarrow> ''apply'' | Some t \<Rightarrow> t)"

definition filter_tools_for_mode :: "tools \<Rightarrow> (string \<times> string) list \<Rightarrow> string \<Rightarrow> tools" where
  "filter_tools_for_mode tools tiers mode = filter (\<lambda>(name, _). mode_allows mode (tier_of tiers name)) tools"

section \<open>The registry\<close>

definition TOOL_REGISTRY :: "(string \<times> string option) list" where
  "TOOL_REGISTRY =
     [(''drift_read_live_env'', Some ''read_live_env_tool''),
      (''read_project_inventory'', Some ''read_project_inventory_tool''),
      (''drift_patch_docs'', Some ''patch_docs_tool''),
      (''drift_propose_rollback'', Some ''propose_rollback_tool''),
      (''notify'', Some ''notify_tool''),
      (''load_contract'', Some ''load_contract_tool''),
      (''search_recent_prs'', Some ''search_recent_prs_tool''),
      (''load_iac_plan'', Some ''load_iac_plan_tool''),
      (''read_team_log'', Some ''read_team_log_tool''),
      (''read_conversations'', Some ''read_conversations_tool''),
      (''upgrade_read_dependencies'', Some ''upgrade_read_dependencies_tool''),
      (''upgrade_propose_pr'', Some ''upgrade_propose_pr_tool''),
      (''upgrade_close_pr'', Some ''upgrade_close_pr_tool''),
      (''upgrade_merge_pr'', Some ''upgrade_merge_pr_tool''),
      (''search_developer_docs'', Some ''search_developer_docs''),
      (''retrieve_developer_doc'', Some ''retrieve_developer_doc''),
      (''provision_open_infra_pr'', Some ''open_infra_pr_tool''),
      (''provision_propose_adoption'', Some ''propose_adoption_tool''),
      (''request_crew_handoff'', Some ''request_crew_handoff_tool''),
      (''get_session_state'', None),
      (''set_session_state'', None)]"

definition TOOL_TIERS :: "(string \<times> string) list" where
  "TOOL_TIERS =
     [(''drift_read_live_env'', ''report''), (''read_project_inventory'', ''report''), (''drift_patch_docs'', ''propose''),
      (''drift_propose_rollback'', ''propose''), (''notify'', ''report''), (''load_contract'', ''report''),
      (''search_recent_prs'', ''report''), (''load_iac_plan'', ''report''), (''read_team_log'', ''report''),
      (''read_conversations'', ''report''), (''upgrade_read_dependencies'', ''report''), (''upgrade_propose_pr'', ''propose''),
      (''upgrade_close_pr'', ''propose''), (''upgrade_merge_pr'', ''apply''), (''search_developer_docs'', ''report''),
      (''retrieve_developer_doc'', ''report''), (''provision_open_infra_pr'', ''propose''),
      (''provision_propose_adoption'', ''propose''), (''request_crew_handoff'', ''report''), (''get_session_state'', ''report''),
      (''set_session_state'', ''report'')]"

datatype tool_error = UnknownToolError string | ReservedToolNotImplementedError string

definition resolve_tool :: "string \<Rightarrow> (tool_error, string) res" where
  "resolve_tool name =
     (case map_of TOOL_REGISTRY name of
        None \<Rightarrow> Inl (UnknownToolError name)
      | Some None \<Rightarrow> Inl (ReservedToolNotImplementedError name)
      | Some (Some f) \<Rightarrow> Inr f)"

text \<open>The workload's tools, a dict over its enabled names.\<close>

definition workload_tools :: "string list \<Rightarrow> (tool_error, tools) res" where
  "workload_tools names = traverse (\<lambda>n. rbind (resolve_tool n) (\<lambda>f. Inr (n, f))) (rev (remdups (rev names)))"

section \<open>The tool sets\<close>

definition CHAT_ONLY_TOOL_NAMES :: "string set" where
  "CHAT_ONLY_TOOL_NAMES = {''upgrade_close_pr'', ''upgrade_merge_pr'', ''request_crew_handoff'', ''drift_propose_rollback''}"

definition recheck_agent_tools :: "tools \<Rightarrow> string \<Rightarrow> tools" where
  "recheck_agent_tools tools mode =
     filter_tools_for_mode (filter (\<lambda>(name, _). name \<notin> CHAT_ONLY_TOOL_NAMES) tools) TOOL_TIERS mode"

definition DEMO_ANON_EXTRA_DENY :: "string set" where "DEMO_ANON_EXTRA_DENY = {''provision_open_infra_pr''}"
definition DEMO_ANON_APPLY_ALLOW :: "string set" where "DEMO_ANON_APPLY_ALLOW = {''upgrade_merge_pr''}"

definition demo_anon_denied_tools :: "string set" where
  "demo_anon_denied_tools =
     (set (map fst (filter (\<lambda>(_, tier). tier = ''apply'') TOOL_TIERS)) - DEMO_ANON_APPLY_ALLOW) \<union> DEMO_ANON_EXTRA_DENY"

definition HANDOFF_FIRST_TURN_DENIED_TOOLS :: "string set" where
  "HANDOFF_FIRST_TURN_DENIED_TOOLS = {''upgrade_merge_pr'', ''upgrade_close_pr''}"

definition chat_agent_tools :: "tools \<Rightarrow> string \<Rightarrow> bool \<Rightarrow> string set \<Rightarrow> tools" where
  "chat_agent_tools tools mode demo_anon denied =
     (let allowed = filter_tools_for_mode tools TOOL_TIERS mode;
          allowed = (if demo_anon then filter (\<lambda>(name, _). name \<notin> demo_anon_denied_tools) allowed else allowed)
      in filter (\<lambda>(name, _). name \<notin> denied) allowed)"

definition MUTATION_TOOL_NAMES :: "string set" where
  "MUTATION_TOOL_NAMES =
     {''drift_patch_docs'', ''drift_propose_rollback'', ''upgrade_propose_pr'', ''upgrade_close_pr'', ''upgrade_merge_pr'',
      ''notify'', ''search_recent_prs'', ''provision_open_infra_pr'', ''provision_propose_adoption''}"

definition MUTATION_CALLABLE_NAMES :: "string set" where
  "MUTATION_CALLABLE_NAMES = {''open_infra_pr_tool'', ''propose_adoption_tool''}"

definition CONTROL_PLANE_PROPOSAL_TOOL_NAMES :: "string set" where
  "CONTROL_PLANE_PROPOSAL_TOOL_NAMES = {''request_crew_handoff''}"

definition FANOUT_EXCLUDED_READ_TOOL_NAMES :: "string set" where
  "FANOUT_EXCLUDED_READ_TOOL_NAMES = {''read_conversations''}"

definition slice_agent_tools :: "tools \<Rightarrow> tools" where
  "slice_agent_tools tools =
     filter (\<lambda>(name, f). name \<notin> MUTATION_TOOL_NAMES \<and> name \<notin> CONTROL_PLANE_PROPOSAL_TOOL_NAMES \<and>
       name \<notin> FANOUT_EXCLUDED_READ_TOOL_NAMES \<and> f \<notin> MUTATION_CALLABLE_NAMES) tools"

section \<open>The dial as an order\<close>

text \<open>What the strings stand for: three positions, each permitting what the ones below it permit.\<close>

datatype dial = Observe | Propose | ProposeApply

primrec rank :: "dial \<Rightarrow> nat" where
  "rank Observe = 0"
| "rank Propose = 1"
| "rank ProposeApply = 2"

lemma rank_inject [simp]: "rank a = rank b \<longleftrightarrow> a = b"
  by (cases a; cases b) simp_all

instantiation dial :: linorder
begin

definition less_eq_dial :: "dial \<Rightarrow> dial \<Rightarrow> bool" where "a \<le> b \<longleftrightarrow> rank a \<le> rank b"
definition less_dial :: "dial \<Rightarrow> dial \<Rightarrow> bool" where "a < b \<longleftrightarrow> rank a < rank b"

instance
  by standard (auto simp: less_eq_dial_def less_dial_def)

end

definition dial_of :: "string \<Rightarrow> dial option" where
  "dial_of m = map_of [(''observe'', Observe), (''propose'', Propose), (''propose_apply'', ProposeApply)] m"

definition tier_floor :: "string \<Rightarrow> dial option" where
  "tier_floor t = map_of [(''report'', Observe), (''propose'', Propose), (''apply'', ProposeApply)] t"

lemma dial_cases:
  "dial_of m = Some D \<longleftrightarrow> (m = ''observe'' \<and> D = Observe) \<or> (m = ''propose'' \<and> D = Propose) \<or> (m = ''propose_apply'' \<and> D = ProposeApply)"
  "tier_floor t = Some F \<longleftrightarrow> (t = ''report'' \<and> F = Observe) \<or> (t = ''propose'' \<and> F = Propose) \<or> (t = ''apply'' \<and> F = ProposeApply)"
  by (auto simp: dial_of_def tier_floor_def)

lemma mode_allows_iff: "mode_allows m t \<longleftrightarrow> (\<exists>D F. dial_of m = Some D \<and> tier_floor t = Some F \<and> F \<le> D)"
  by (auto simp: mode_allows_def TIER_MIN_MODE_def AUTONOMY_MODES_def dial_cases less_eq_dial_def)

text \<open>The dial of strings implements the order it stands for: a tool is kept exactly when the least
  position for its tier is at or below the dial's position, no position that the code does not know
  keeps any tool, and turning the dial up only adds tools.\<close>

theorem dial_implements_order:
  "filter_tools_for_mode tools tiers m =
     (case dial_of m of
        None \<Rightarrow> []
      | Some D \<Rightarrow> filter (\<lambda>(name, _). case tier_floor (tier_of tiers name) of None \<Rightarrow> False | Some F \<Rightarrow> F \<le> D) tools) \<and>
   (\<forall>D D' m'. dial_of m = Some D \<longrightarrow> dial_of m' = Some D' \<longrightarrow> D \<le> D' \<longrightarrow>
      set (filter_tools_for_mode tools tiers m) \<subseteq> set (filter_tools_for_mode tools tiers m'))"
proof (intro conjI allI impI subsetI)
  show "filter_tools_for_mode tools tiers m =
     (case dial_of m of
        None \<Rightarrow> []
      | Some D \<Rightarrow> filter (\<lambda>(name, _). case tier_floor (tier_of tiers name) of None \<Rightarrow> False | Some F \<Rightarrow> F \<le> D) tools)"
    by (cases "dial_of m")
      (auto simp: filter_tools_for_mode_def mode_allows_iff intro!: filter_cong split: option.splits)
next
  fix D D' m' x
  assume "dial_of m = Some D" "dial_of m' = Some D'" "D \<le> D'" "x \<in> set (filter_tools_for_mode tools tiers m)"
  then show "x \<in> set (filter_tools_for_mode tools tiers m')"
    by (force simp: filter_tools_for_mode_def mode_allows_iff)
qed

theorem dial_implements_order_witness:
  "set (filter_tools_for_mode [(''notify'', ''notify_tool'')] TOOL_TIERS ''observe'')
     \<subseteq> set (filter_tools_for_mode [(''notify'', ''notify_tool'')] TOOL_TIERS ''propose'')"
  by (rule dial_implements_order [THEN conjunct2, rule_format, of _ Observe _ Propose])
    (simp_all add: dial_of_def less_eq_dial_def)

text \<open>The controls fail closed: agent activity is unpaused only when there is no pause document or one that
  says so with a boolean, and an agent may do more than observe only when the dial was never touched or
  its document names such a position; whatever else is stored, and when the store cannot be read, the
  system is paused and the dial is at Observe.\<close>

theorem controls_fail_closed:
  "(\<not> ps_paused (read_pause_state got) \<longleftrightarrow>
      got = Inr None \<or> (\<exists>d. got = Inr (Some (PDict d)) \<and> dget d ''paused'' = PBool False)) \<and>
   (as_mode (read_autonomy_state got) \<noteq> ''observe'' \<longleftrightarrow>
      got = Inr None \<or> (\<exists>d m. got = Inr (Some (PDict d)) \<and> dget d ''mode'' = PStr m \<and> m \<in> {''propose'', ''propose_apply''})) \<and>
   dial_of (as_mode (read_autonomy_state got)) \<noteq> None"
proof (cases got)
  case (Inl e)
  then show ?thesis
    by (auto simp: read_pause_state_def read_autonomy_state_def paused_unread_def dial_unread_def dial_of_def)
next
  case (Inr g)
  show ?thesis
  proof (cases "\<exists>d. g = Some (PDict d)")
    case True
    then obtain d where g: "g = Some (PDict d)" by blast
    have "(\<not> ps_paused (read_pause_state got)) \<longleftrightarrow> dget d ''paused'' = PBool False"
      using Inr g by (cases "dget d ''paused''") (auto simp: read_pause_state_def paused_unread_def)
    moreover have "as_mode (read_autonomy_state got) \<noteq> ''observe'' \<longleftrightarrow> (\<exists>m. dget d ''mode'' = PStr m \<and> m \<in> {''propose'', ''propose_apply''})"
      "dial_of (as_mode (read_autonomy_state got)) \<noteq> None"
      using Inr g
      by (cases "dget d ''mode''"; auto simp: read_autonomy_state_def dial_unread_def AUTONOMY_MODES_def dial_of_def)+
    ultimately show ?thesis using Inr g by blast
  next
    case False
    with Inr show ?thesis
      by (auto simp: read_pause_state_def read_autonomy_state_def paused_unread_def dial_unread_def dial_of_def DEFAULT_MODE_def
          split: option.splits pyval.splits)
  qed
qed

section \<open>What an agent can be given\<close>

lemma workload_tools_registered:
  assumes "workload_tools names = Inr tools" and "(n, f) \<in> set tools"
  shows "map_of TOOL_REGISTRY n = Some (Some f)"
proof -
  from assms obtain m where "rbind (resolve_tool m) (\<lambda>f. Inr (m, f)) = Inr (n, f)"
    unfolding workload_tools_def traverse_Inr_iff by (auto simp: list_all2_conv_all_nth in_set_conv_nth)
  then show ?thesis by (auto simp: resolve_tool_def result_simps split: option.splits)
qed

lemma registry_facts:
  "list_all (\<lambda>(n, c). case c of None \<Rightarrow> True | Some f \<Rightarrow>
     (tier_of TOOL_TIERS n \<noteq> ''report'' \<longrightarrow> n \<in> MUTATION_TOOL_NAMES) \<and>
     (tier_of TOOL_TIERS n = ''report'' \<and> n \<in> MUTATION_TOOL_NAMES \<longrightarrow> n \<in> {''notify'', ''search_recent_prs''}) \<and>
     (tier_of TOOL_TIERS n = ''apply'' \<longrightarrow> n = ''upgrade_merge_pr'') \<and>
     (f \<in> MUTATION_CALLABLE_NAMES \<longrightarrow> n \<in> MUTATION_TOOL_NAMES)) TOOL_REGISTRY"
  by code_simp

lemma registered_facts:
  assumes "map_of TOOL_REGISTRY n = Some (Some f)"
  shows "tier_of TOOL_TIERS n \<noteq> ''report'' \<Longrightarrow> n \<in> MUTATION_TOOL_NAMES"
    and "tier_of TOOL_TIERS n = ''report'' \<Longrightarrow> n \<in> MUTATION_TOOL_NAMES \<Longrightarrow> n \<in> {''notify'', ''search_recent_prs''}"
    and "tier_of TOOL_TIERS n = ''apply'' \<Longrightarrow> n = ''upgrade_merge_pr''"
    and "f \<in> MUTATION_CALLABLE_NAMES \<Longrightarrow> n \<in> MUTATION_TOOL_NAMES"
  using registry_facts map_of_SomeD [OF assms] by (fastforce simp: list_all_iff)+

lemma ball_pairI: "(\<And>n f. (n, f) \<in> S \<Longrightarrow> P n f) \<Longrightarrow> \<forall>(n, f) \<in> S. P n f"
  by auto

lemma observe_tiers: "mode_allows ''observe'' t \<longleftrightarrow> t = ''report''"
  by (auto simp: mode_allows_iff dial_cases less_eq_dial_def)

text \<open>C29: Whatever tools a workload enables, no agent gets more than the controls leave it.  At Observe
  neither the autonomous agent nor a chat agent holds a tool that changes anything outside, apart from
  the report channel and the pull request search.  At every position the autonomous agent holds no
  tool that mints an approval, merges or closes a pull request or proposes a handoff; the turn that a
  confirmed handoff starts can neither merge nor close; an anonymous visitor's agent holds no other
  applying tool than the upgrade merge and cannot author infrastructure; and an agent of the
  authoring fan-out holds no mutating tool at all.\<close>

theorem agents_stay_within_controls:
  assumes "workload_tools names = Inr tools"
  shows "(\<forall>(n, f) \<in> set (recheck_agent_tools tools ''observe'') \<union> set (chat_agent_tools tools ''observe'' anon denied).
      n \<in> MUTATION_TOOL_NAMES \<longrightarrow> n \<in> {''notify'', ''search_recent_prs''}) \<and>
    (\<forall>(n, f) \<in> set (recheck_agent_tools tools mode).
      n \<notin> {''drift_propose_rollback'', ''upgrade_merge_pr'', ''upgrade_close_pr'', ''request_crew_handoff''}) \<and>
    (\<forall>(n, f) \<in> set (chat_agent_tools tools mode anon HANDOFF_FIRST_TURN_DENIED_TOOLS).
      n \<notin> {''upgrade_merge_pr'', ''upgrade_close_pr''}) \<and>
    (\<forall>(n, f) \<in> set (chat_agent_tools tools mode True denied).
      (tier_of TOOL_TIERS n = ''apply'' \<longrightarrow> n = ''upgrade_merge_pr'') \<and> n \<noteq> ''provision_open_infra_pr'') \<and>
    (\<forall>(n, f) \<in> set (slice_agent_tools tools). tier_of TOOL_TIERS n = ''report'' \<and> n \<notin> MUTATION_TOOL_NAMES)"
proof -
  note registered = workload_tools_registered [OF assms]
  have a: "n \<in> {''notify'', ''search_recent_prs''}"
    if "(n, f) \<in> set (recheck_agent_tools tools ''observe'') \<union> set (chat_agent_tools tools ''observe'' anon denied)"
      "n \<in> MUTATION_TOOL_NAMES" for n f
  proof (rule registered_facts(2) [OF registered _ that(2)])
    show "(n, f) \<in> set tools" "tier_of TOOL_TIERS n = ''report''"
      using that(1) by (auto simp: recheck_agent_tools_def chat_agent_tools_def filter_tools_for_mode_def observe_tiers Let_def
          split: if_splits)
  qed
  have b: "tier_of TOOL_TIERS n = ''report'' \<and> n \<notin> MUTATION_TOOL_NAMES" if "(n, f) \<in> set (slice_agent_tools tools)" for n f
    using that registered_facts(1) [OF registered, of n f] by (auto simp: slice_agent_tools_def)
  have c: "(tier_of TOOL_TIERS n = ''apply'' \<longrightarrow> n = ''upgrade_merge_pr'') \<and> n \<noteq> ''provision_open_infra_pr''"
    if "(n, f) \<in> set (chat_agent_tools tools mode True denied)" for n f
    using that registered_facts(3) [OF registered, of n f]
    by (auto simp: chat_agent_tools_def filter_tools_for_mode_def demo_anon_denied_tools_def DEMO_ANON_EXTRA_DENY_def Let_def)
  have d: "n \<notin> {''drift_propose_rollback'', ''upgrade_merge_pr'', ''upgrade_close_pr'', ''request_crew_handoff''}"
    if "(n, f) \<in> set (recheck_agent_tools tools mode)" for n f
    using that by (simp add: recheck_agent_tools_def filter_tools_for_mode_def CHAT_ONLY_TOOL_NAMES_def)
  have e: "n \<notin> {''upgrade_merge_pr'', ''upgrade_close_pr''}"
    if "(n, f) \<in> set (chat_agent_tools tools mode anon HANDOFF_FIRST_TURN_DENIED_TOOLS)" for n f
    using that by (simp add: chat_agent_tools_def HANDOFF_FIRST_TURN_DENIED_TOOLS_def Let_def)
  show ?thesis
    by (rule conjI [OF ball_pairI [OF impI [OF a]] conjI [OF ball_pairI [OF d] conjI [OF ball_pairI [OF e]
          conjI [OF ball_pairI [OF c] ball_pairI [OF b]]]]])
qed

theorem agents_stay_within_controls_witness:
  "(''drift_propose_rollback'', ''propose_rollback_tool'') \<notin>
     set (recheck_agent_tools [(''notify'', ''notify_tool''), (''drift_propose_rollback'', ''propose_rollback_tool'')] ''propose_apply'')"
proof -
  have "workload_tools [''notify'', ''drift_propose_rollback''] =
      Inr [(''notify'', ''notify_tool''), (''drift_propose_rollback'', ''propose_rollback_tool'')]"
    by code_simp
  from agents_stay_within_controls [OF this, of False "{}" "''propose_apply''"] show ?thesis by fastforce
qed

end
