(* ===== verification/Handoff.thy ===== *)
theory Handoff
  imports Renderer
begin

text \<open>
  Crew handoff, the pure parts (\<open>agent/handoff.py\<close>): what a crew may propose, the single-use nonce of
  which only the digest is stored, and the window in which it may be redeemed; and
  \<open>_team_log_sanitize\<close> of \<open>agent/adk_tools.py\<close>, through which every text of a model goes first.
  Below code point 256 the control characters are 0 to 31 and 127 to 159, and the only format
  character is 173.  The SHA-256 digest is a parameter.
\<close>

section \<open>Sanitizing\<close>

definition is_control :: "char \<Rightarrow> bool" where
  "is_control c \<longleftrightarrow> (of_char c :: nat) < 32 \<or> (127 \<le> (of_char c :: nat) \<and> (of_char c :: nat) < 160)"

definition is_format :: "char \<Rightarrow> bool" where
  "is_format c \<longleftrightarrow> (of_char c :: nat) = 173"

definition flatten_char :: "char \<Rightarrow> string" where
  "flatten_char c = (if is_control c then '' '' else if is_format c then [] else [c])"

text \<open>Every run of white space becomes one space; the flag says whether a run has begun.\<close>

fun collapse_run :: "bool \<Rightarrow> string \<Rightarrow> string" where
  "collapse_run b [] = []"
| "collapse_run b (c # cs) =
     (if is_space c then (if b then collapse_run True cs else CHR '' '' # collapse_run True cs)
      else c # collapse_run False cs)"

definition collapse_spaces :: "string \<Rightarrow> string" where
  "collapse_spaces s = collapse_run False s"

definition rstrip :: "string \<Rightarrow> string" where
  "rstrip s = rev (dropWhile is_space (rev s))"

definition team_log_sanitize :: "pyval \<Rightarrow> nat \<Rightarrow> string" where
  "team_log_sanitize value cap =
     (let cleaned = strip (collapse_spaces (concat (map flatten_char (py_str value))))
      in if length cleaned > cap then rstrip (take (cap - 1) cleaned) @ [ellipsis] else cleaned)"

section \<open>Proposals\<close>

definition HANDOFF_TARGETS :: "string list" where
  "HANDOFF_TARGETS = [''drift'', ''upgrade'', ''provision'', ''explore'']"

definition MAX_REASON_CHARS :: nat where "MAX_REASON_CHARS = 200"
definition MAX_BRIEF_CHARS :: nat where "MAX_BRIEF_CHARS = 1200"
definition HANDOFF_TTL_MINUTES :: nat where "HANDOFF_TTL_MINUTES = 15"

definition validate_handoff_proposal :: "pyval \<Rightarrow> pyval \<Rightarrow> pyval \<Rightarrow> string \<Rightarrow> (string, pydict) res" where
  "validate_handoff_proposal target reason brief current_workload =
     (case target of
        PStr t \<Rightarrow>
          if t \<notin> set HANDOFF_TARGETS then Inl ''unknown crew''
          else if t = current_workload then Inl ''this conversation is already with that crew''
          else
            let clean_reason = team_log_sanitize reason MAX_REASON_CHARS in
            if clean_reason = [] then Inl ''reason is required''
            else Inr [(''from'', PStr current_workload), (''to'', PStr t), (''reason'', PStr clean_reason),
                      (''brief'', PStr (if truthy brief then team_log_sanitize brief MAX_BRIEF_CHARS else []))]
      | _ \<Rightarrow> Inl ''unknown crew'')"

definition verify_handoff_nonce :: "(string \<Rightarrow> string) \<Rightarrow> pyval \<Rightarrow> pyval \<Rightarrow> (pyexc, bool) res" where
  "verify_handoff_nonce sha nonce digest =
     (case (nonce, digest) of
        (PStr n, PStr d) \<Rightarrow> if n = [] \<or> d = [] then Inr False else compare_digest (sha n) (PStr d)
      | _ \<Rightarrow> Inr False)"

text \<open>A lookup that raises when the key is missing.\<close>

definition dindex :: "pydict \<Rightarrow> string \<Rightarrow> (pyexc, pyval) res" where
  "dindex d k = (case map_of d k of None \<Rightarrow> Inl (KeyError k) | Some v \<Rightarrow> Inr v)"

definition build_pending_handoff :: "pydict \<Rightarrow> string \<Rightarrow> instant \<Rightarrow> (pyexc, pydict) res" where
  "build_pending_handoff proposal digest now =
     rbind (dindex proposal ''from'') (\<lambda>f. rbind (dindex proposal ''to'') (\<lambda>t.
     rbind (dindex proposal ''reason'') (\<lambda>r. rbind (dindex proposal ''brief'') (\<lambda>b.
     rbind (add_minutes now (int HANDOFF_TTL_MINUTES)) (\<lambda>expires.
     Inr [(''from'', f), (''to'', t), (''reason'', r), (''brief'', b), (''nonce_digest'', PStr digest),
          (''created_at'', PTime now), (''expires_at'', PTime expires)])))))"

definition is_handoff_expired :: "pydict \<Rightarrow> instant \<Rightarrow> bool" where
  "is_handoff_expired pending now = (case dget pending ''expires_at'' of PTime t \<Rightarrow> t \<le> now | _ \<Rightarrow> True)"

section \<open>What sanitizing guarantees\<close>

definition plain_char :: "char \<Rightarrow> bool" where
  "plain_char c \<longleftrightarrow> \<not> is_control c \<and> \<not> is_format c"

lemma plain_space [simp]: "plain_char (CHR '' '')"
  by (simp add: plain_char_def is_control_def is_format_def)

lemma collapse_plain: "list_all plain_char s \<Longrightarrow> list_all plain_char (collapse_run b s)"
  by (induction b s rule: collapse_run.induct) auto

lemma flatten_plain: "list_all plain_char (concat (map flatten_char s))"
  by (auto simp: list_all_iff flatten_char_def plain_char_def is_control_def is_format_def)

lemma dropWhile_plain: "list_all plain_char s \<Longrightarrow> list_all plain_char (dropWhile P s)"
  by (auto simp: list_all_iff dest: set_dropWhileD)

lemma strip_plain: "list_all plain_char s \<Longrightarrow> list_all plain_char (strip s)"
  by (simp add: strip_def dropWhile_plain list_all_rev)

lemma rstrip_plain: "list_all plain_char s \<Longrightarrow> list_all plain_char (rstrip s) \<and> length (rstrip s) \<le> length s"
  by (metis rstrip_def dropWhile_plain list_all_rev length_dropWhile_le length_rev)

text \<open>Bounded, on one line, and free of control and format characters but for the truncation mark.\<close>

definition quotable :: "nat \<Rightarrow> string \<Rightarrow> bool" where
  "quotable cap s \<longleftrightarrow> length s \<le> cap \<and> (list_all plain_char s \<or> list_all plain_char (butlast s) \<and> last s = ellipsis)"

lemma sanitize_quotable: "0 < cap \<Longrightarrow> quotable cap (team_log_sanitize v cap)"
proof -
  assume cap: "0 < cap"
  let ?c = "strip (collapse_spaces (concat (map flatten_char (py_str v))))"
  have plain: "list_all plain_char ?c"
    by (simp add: collapse_spaces_def strip_plain collapse_plain flatten_plain)
  then have "list_all plain_char (take (cap - 1) ?c)" by (auto simp: list_all_iff dest: in_set_takeD)
  from rstrip_plain [OF this] have "list_all plain_char (rstrip (take (cap - 1) ?c))" "length (rstrip (take (cap - 1) ?c)) \<le> cap - 1"
    by auto
  with plain cap show ?thesis by (auto simp: team_log_sanitize_def quotable_def Let_def)
qed

lemma validated_shape:
  assumes "validate_handoff_proposal target reason brief crew = Inr p"
  obtains t where "target = PStr t" "t \<in> set HANDOFF_TARGETS" "t \<noteq> crew" "team_log_sanitize reason MAX_REASON_CHARS \<noteq> []"
    "p = [(''from'', PStr crew), (''to'', PStr t), (''reason'', PStr (team_log_sanitize reason MAX_REASON_CHARS)),
      (''brief'', PStr (if truthy brief then team_log_sanitize brief MAX_BRIEF_CHARS else []))]"
  using assms by (auto simp: validate_handoff_proposal_def Let_def split: pyval.splits if_splits)

text \<open>A proposal the server accepts is well formed: it leads from the current crew to a different crew of
  the four, its reason is not empty, both texts are bounded, on one line and free of control and format
  characters but for the truncation mark, and the document built from it carries the digest and a
  window of fifteen minutes.\<close>

theorem accepted_proposal_well_formed:
  assumes "validate_handoff_proposal target reason brief crew = Inr p" and "add_minutes now 15 = Inr expires"
  shows "\<exists>t r b. target = PStr t \<and> t \<in> set HANDOFF_TARGETS \<and> t \<noteq> crew \<and> r \<noteq> [] \<and> quotable 200 r \<and> quotable 1200 b \<and>
    build_pending_handoff p digest now =
      Inr [(''from'', PStr crew), (''to'', PStr t), (''reason'', PStr r), (''brief'', PStr b),
           (''nonce_digest'', PStr digest), (''created_at'', PTime now), (''expires_at'', PTime expires)]"
proof -
  from assms(1) obtain t where t: "target = PStr t" "t \<in> set HANDOFF_TARGETS" "t \<noteq> crew"
    "team_log_sanitize reason MAX_REASON_CHARS \<noteq> []"
    "p = [(''from'', PStr crew), (''to'', PStr t), (''reason'', PStr (team_log_sanitize reason MAX_REASON_CHARS)),
      (''brief'', PStr (if truthy brief then team_log_sanitize brief MAX_BRIEF_CHARS else []))]"
    by (rule validated_shape)
  have "quotable 200 (team_log_sanitize reason MAX_REASON_CHARS)"
    using sanitize_quotable [of 200] by (simp add: MAX_REASON_CHARS_def)
  moreover have "quotable 1200 (if truthy brief then team_log_sanitize brief MAX_BRIEF_CHARS else [])"
    using sanitize_quotable [of 1200] by (simp add: MAX_BRIEF_CHARS_def quotable_def)
  ultimately show ?thesis
    using t assms(2) by (auto simp: build_pending_handoff_def dindex_def HANDOFF_TTL_MINUTES_def)
qed

theorem accepted_proposal_well_formed_witness:
  "\<exists>r b. quotable 200 r \<and> build_pending_handoff
     [(''from'', PStr ''explore''), (''to'', PStr ''drift''), (''reason'', PStr ''look''), (''brief'', PStr [])] ''d'' 0 =
     Inr [(''from'', PStr ''explore''), (''to'', PStr ''drift''), (''reason'', PStr r), (''brief'', PStr b),
          (''nonce_digest'', PStr ''d''), (''created_at'', PTime 0), (''expires_at'', PTime 900000000)]"
proof -
  have a: "validate_handoff_proposal (PStr ''drift'') (PStr ''look'') PNone ''explore'' =
      Inr [(''from'', PStr ''explore''), (''to'', PStr ''drift''), (''reason'', PStr ''look''), (''brief'', PStr [])]"
    by code_simp
  have b: "add_minutes 0 15 = Inr 900000000" by (simp add: add_minutes_def max_day_def usec_per_day_def)
  from accepted_proposal_well_formed [OF a b, of "''d''"] show ?thesis by auto
qed

end
