(* ===== verification/Conversations.thy ===== *)
theory Conversations
  imports Handoff StateStore
begin

text \<open>
  Conversations and the crew lock (\<open>agent/state_store.py\<close>, the Firestore store, and the chat turn of
  \<open>agent/main.py\<close>).  A conversation document has a bound crew, the crews that took part, counters, at
  most one open handoff proposal and at most one run lease; its turns are documents numbered by a
  counter.  Every operation is one transaction: it either does all its writes or, when it raises, none.
  Absent fields are \<open>PNone\<close>, the server's time is an argument.
\<close>

record conversation =
  cv_workload :: pyval
  cv_crews :: pyval
  cv_title :: string
  cv_created_at :: instant
  cv_updated_at :: instant
  cv_turn_count :: int
  cv_user_turns :: pyval
  cv_last_trace_id :: pyval
  cv_pending :: "pydict option"
  cv_lease :: "pydict option"

record conversations =
  cs_docs :: "string \<Rightarrow> conversation option"
  cs_turns :: "string \<Rightarrow> (int \<times> pydict) list"

section \<open>The decision logic both stores share\<close>

definition conversation_crews :: "conversation \<Rightarrow> string list" where
  "conversation_crews conv =
     (let listed = (case cv_crews conv of
            PList l \<Rightarrow> map (\<lambda>v. the (as_str v)) (filter (\<lambda>v. is_str v \<and> truthy v) l) | _ \<Rightarrow> []);
          bound = (case cv_workload conv of PStr w \<Rightarrow> if w = [] then [] else [w] | _ \<Rightarrow> [])
      in if listed \<noteq> [] then listed else bound)"

definition conversation_has_crew :: "conversation \<Rightarrow> string \<Rightarrow> bool" where
  "conversation_has_crew conv crew \<longleftrightarrow> crew \<in> set (conversation_crews conv)"

definition conversation_user_turns :: "conversation \<Rightarrow> int" where
  "conversation_user_turns conv =
     (let derived = (if cv_turn_count conv > 0 then (cv_turn_count conv + 1) div 2 else 0) in
      case cv_user_turns conv of PInt n \<Rightarrow> if n \<ge> 0 then n else derived | _ \<Rightarrow> derived)"

definition count_user_turns :: "pydict list \<Rightarrow> int" where
  "count_user_turns turns = int (length (filter (\<lambda>t. dget t ''role'' = PStr ''user'') turns))"

definition with_crew :: "conversation \<Rightarrow> pyval \<Rightarrow> pyval" where
  "with_crew conv crew =
     (let crews = map PStr (conversation_crews conv) in PList (if crew \<in> set crews then crews else crews @ [crew]))"

definition lease_is_free :: "pydict option \<Rightarrow> instant \<Rightarrow> bool" where
  "lease_is_free lease now =
     (case lease of
        None \<Rightarrow> True
      | Some l \<Rightarrow> \<not> truthy (dget l ''run_id'') \<or> (case dget l ''expires_at'' of PTime t \<Rightarrow> t \<le> now | _ \<Rightarrow> True))"

definition new_lease :: "string \<Rightarrow> instant \<Rightarrow> nat \<Rightarrow> pydict" where
  "new_lease run_id now ttl_seconds = [(''run_id'', PStr run_id), (''expires_at'', PTime (now + ttl_seconds * 1000000))]"

definition CHAT_RUN_LEASE_TTL_S :: nat where "CHAT_RUN_LEASE_TTL_S = 330"

datatype redemption_verdict = Refuse string | Proceed pydict

definition evaluate_handoff_redemption ::
  "(string \<Rightarrow> string) \<Rightarrow> conversation option \<Rightarrow> string \<Rightarrow> instant \<Rightarrow> (pyexc, redemption_verdict) res" where
  "evaluate_handoff_redemption sha conv nonce now =
     (case conv of
        None \<Rightarrow> Inr (Refuse ''not_found'')
      | Some c \<Rightarrow>
          (case cv_pending c of
             None \<Rightarrow> Inr (Refuse ''no_pending'')
           | Some p \<Rightarrow>
               if \<not> truthy (dget p ''nonce_digest'') then Inr (Refuse ''no_pending'')
               else rbind (verify_handoff_nonce sha (PStr nonce) (dget p ''nonce_digest'')) (\<lambda>ok.
                 Inr (if \<not> ok then Refuse ''invalid_nonce''
                      else if is_handoff_expired p now then Refuse ''expired''
                      else if dget p ''from'' \<noteq> cv_workload c then Refuse ''stale''
                      else if \<not> lease_is_free (cv_lease c) now then Refuse ''busy''
                      else Proceed p))))"

text \<open>The fence of a late writer; \<open>None\<close> is an expectation the caller does not have.\<close>

definition may_touch_pending_handoff :: "conversation \<Rightarrow> string option \<Rightarrow> pyval option \<Rightarrow> bool" where
  "may_touch_pending_handoff conv expect_workload expect_pending_digest \<longleftrightarrow>
     (case expect_workload of None \<Rightarrow> True | Some w \<Rightarrow> cv_workload conv = PNone \<or> cv_workload conv = PStr w) \<and>
     (case expect_pending_digest of
        None \<Rightarrow> True
      | Some d \<Rightarrow> (case cv_pending conv of None \<Rightarrow> PNone | Some p \<Rightarrow> dget p ''nonce_digest'') = d)"

definition handoff_transition_turn :: "pydict \<Rightarrow> bool \<Rightarrow> pyval \<Rightarrow> (pyexc, pydict) res" where
  "handoff_transition_turn pending accept trace_id =
     rbind (dindex pending (if accept then ''to'' else ''from'')) (\<lambda>wl.
     rbind (dindex pending ''from'') (\<lambda>f. rbind (dindex pending ''to'') (\<lambda>t.
     Inr [(''role'', PStr (if accept then ''crew_change'' else ''handoff_declined'')),
          (''text'', py_or (dget pending ''reason'') (PStr [])), (''workload'', wl), (''trace_id'', trace_id),
          (''handoff'', PDict [(''from'', f), (''to'', t)])])))"

section \<open>Appending turns\<close>

definition optional_field :: "pydict \<Rightarrow> string \<Rightarrow> pydict" where
  "optional_field t k = (if truthy (dget t k) then [(k, dget t k)] else [])"

definition turn_row :: "instant \<Rightarrow> int \<Rightarrow> pydict \<Rightarrow> (pyexc, pydict) res" where
  "turn_row srv seq t =
     rbind (dindex t ''role'') (\<lambda>role. rbind (dindex t ''workload'') (\<lambda>wl.
     Inr ([(''seq'', PInt seq), (''role'', role), (''text'', py_or (dget t ''text'') (PStr [])), (''workload'', wl),
           (''trace_id'', dget t ''trace_id''), (''created_at'', PTime srv)] @
          optional_field t ''iac_pr'' @ optional_field t ''tool_calls'' @ optional_field t ''handoff'')))"

definition last_trace :: "pyval \<Rightarrow> pydict list \<Rightarrow> pyval" where
  "last_trace = foldl (\<lambda>acc t. if truthy (dget t ''trace_id'') then dget t ''trace_id'' else acc)"

definition numbered :: "int \<Rightarrow> 'a list \<Rightarrow> (int \<times> 'a) list" where
  "numbered start xs = zip (map (\<lambda>i. start + int i) [0..<length xs]) xs"

definition write_rows :: "(int \<times> pydict) list \<Rightarrow> (int \<times> pydict) list \<Rightarrow> (int \<times> pydict) list" where
  "write_rows rows m = foldl (\<lambda>m (seq, row). AList.update seq row m) m rows"

definition fresh_conversation :: "instant \<Rightarrow> string \<times> string \<Rightarrow> conversation" where
  "fresh_conversation srv create_with =
     \<lparr>cv_workload = PStr (fst create_with), cv_crews = PList [PStr (fst create_with)], cv_title = snd create_with,
      cv_created_at = srv, cv_updated_at = srv, cv_turn_count = 0, cv_user_turns = PInt 0, cv_last_trace_id = PNone,
      cv_pending = None, cv_lease = None\<rparr>"

record append_args =
  ap_turns :: "pydict list"
  ap_create_with :: "(string \<times> string) option"
  ap_pending_handoff :: "pydict option"
  ap_clear_pending :: bool
  ap_expect_workload :: "string option"
  ap_expect_digest :: "pyval option"

definition update_pending :: "append_args \<Rightarrow> bool \<Rightarrow> bool \<Rightarrow> pydict option \<Rightarrow> pydict option" where
  "update_pending a is_create may_touch old =
     (if ap_pending_handoff a \<noteq> None \<and> may_touch then ap_pending_handoff a
      else if ap_clear_pending a \<and> \<not> is_create \<and> may_touch then None else old)"

definition append_turns :: "instant \<Rightarrow> string \<Rightarrow> append_args \<Rightarrow> conversations \<Rightarrow> (pyexc, int list) res \<times> conversations" where
  "append_turns srv cid a st =
     (let found = (case cs_docs st cid of
            Some c \<Rightarrow> Inr (c, False, may_touch_pending_handoff c (ap_expect_workload a) (ap_expect_digest a))
          | None \<Rightarrow>
              (case ap_create_with a of
                 None \<Rightarrow> Inl (KeyError cid)
               | Some cw \<Rightarrow> Inr (fresh_conversation srv cw, True, True)))
      in case rbind found (\<lambda>(c, is_create, may_touch).
                rbind (traverse (\<lambda>(seq, t). rbind (turn_row srv seq t) (\<lambda>row. Inr (seq, row)))
                         (numbered (cv_turn_count c) (ap_turns a))) (\<lambda>rows.
                Inr (rows, c\<lparr>cv_turn_count := cv_turn_count c + int (length (ap_turns a)),
                             cv_user_turns := PInt (conversation_user_turns c + count_user_turns (ap_turns a)),
                             cv_updated_at := srv, cv_last_trace_id := last_trace (cv_last_trace_id c) (ap_turns a),
                             cv_pending := update_pending a is_create may_touch (cv_pending c)\<rparr>))) of
           Inl e \<Rightarrow> (Inl e, st)
         | Inr (rows, c') \<Rightarrow>
             (Inr (map fst rows),
              \<lparr>cs_docs = (cs_docs st)(cid \<mapsto> c'), cs_turns = (cs_turns st)(cid := write_rows rows (cs_turns st cid))\<rparr>))"

section \<open>Leases and redemption\<close>

definition begin_chat_run :: "string \<Rightarrow> string \<Rightarrow> instant \<Rightarrow> nat \<Rightarrow> conversations \<Rightarrow> bool \<times> conversations" where
  "begin_chat_run cid run_id now ttl st =
     (case cs_docs st cid of
        None \<Rightarrow> (True, st)
      | Some c \<Rightarrow>
          if \<not> lease_is_free (cv_lease c) now then (False, st)
          else (True, st\<lparr>cs_docs := (cs_docs st)(cid \<mapsto> c\<lparr>cv_lease := Some (new_lease run_id now ttl)\<rparr>)\<rparr>))"

definition holds_lease :: "string \<Rightarrow> conversation \<Rightarrow> bool" where
  "holds_lease run_id c = (case cv_lease c of None \<Rightarrow> False | Some l \<Rightarrow> dget l ''run_id'' = PStr run_id)"

definition finish_chat_run :: "string \<Rightarrow> string \<Rightarrow> conversations \<Rightarrow> conversations" where
  "finish_chat_run cid run_id st =
     (case cs_docs st cid of
        None \<Rightarrow> st
      | Some c \<Rightarrow> if holds_lease run_id c then st\<lparr>cs_docs := (cs_docs st)(cid \<mapsto> c\<lparr>cv_lease := None\<rparr>)\<rparr> else st)"

datatype redemption = Refused_handoff string | Redeemed pydict bool "string option"

record redeem_args =
  ra_nonce :: string
  ra_accept :: bool
  ra_now :: instant
  ra_trace_id :: pyval
  ra_run_id :: "string option"
  ra_ttl :: nat

definition redeemed_doc :: "instant \<Rightarrow> redeem_args \<Rightarrow> pydict \<Rightarrow> pyval \<Rightarrow> conversation \<Rightarrow> conversation" where
  "redeemed_doc srv r p to c =
     (let c' = c\<lparr>cv_pending := None, cv_turn_count := cv_turn_count c + 1,
                 cv_user_turns := PInt (conversation_user_turns c), cv_updated_at := srv\<rparr>
      in if \<not> ra_accept r then c'
         else c'\<lparr>cv_workload := to, cv_crews := with_crew c to,
                 cv_lease := (case ra_run_id r of
                    Some (x # xs) \<Rightarrow> Some (new_lease (x # xs) (ra_now r) (ra_ttl r)) | _ \<Rightarrow> cv_lease c)\<rparr>)"

definition redeem_handoff ::
  "(string \<Rightarrow> string) \<Rightarrow> instant \<Rightarrow> string \<Rightarrow> redeem_args \<Rightarrow> conversations \<Rightarrow> (pyexc, redemption) res \<times> conversations" where
  "redeem_handoff sha srv cid r st =
     (case evaluate_handoff_redemption sha (cs_docs st cid) (ra_nonce r) (ra_now r) of
        Inl e \<Rightarrow> (Inl e, st)
      | Inr (Refuse why) \<Rightarrow> (Inr (Refused_handoff why), st)
      | Inr (Proceed p) \<Rightarrow>
          (case (handoff_transition_turn p (ra_accept r) (ra_trace_id r), cs_docs st cid) of
             (Inl e, _) \<Rightarrow> (Inl e, st)
           | (Inr turn, Some c) \<Rightarrow>
               (Inr (Redeemed p (ra_accept r) (if ra_accept r then ra_run_id r else None)),
                \<lparr>cs_docs = (cs_docs st)(cid \<mapsto> redeemed_doc srv r p (dget p ''to'') c),
                 cs_turns = (cs_turns st)(cid := AList.update (cv_turn_count c)
                   (dput (dput turn ''seq'' (PInt (cv_turn_count c))) ''created_at'' (PTime srv)) (cs_turns st cid))\<rparr>)
           | (Inr _, None) \<Rightarrow> (Inr (Refused_handoff ''not_found''), st)))"

section \<open>A chat turn\<close>

text \<open>A turn captures the conversation when its request enters and persists much later.\<close>

record chat_turn =
  ct_conversation_id :: string
  ct_workload :: string
  ct_is_new :: bool
  ct_prior_turns :: "pydict list"
  ct_ephemeral :: bool
  ct_pending_digest :: pyval
  ct_omit_user_turn :: bool

definition seq_of :: "pydict \<Rightarrow> int" where
  "seq_of t = (case dget_or t ''seq'' (PInt 0) of PInt n \<Rightarrow> n | _ \<Rightarrow> 0)"

definition conversation_turns :: "string \<Rightarrow> conversations \<Rightarrow> pydict list" where
  "conversation_turns cid st = sort_key seq_of (map snd (cs_turns st cid))"

definition resolve_chat_conversation ::
  "string \<Rightarrow> string option \<Rightarrow> string \<Rightarrow> bool \<Rightarrow> conversations \<Rightarrow> (nat \<times> string, chat_turn) res" where
  "resolve_chat_conversation new_id cid workload ephemeral st =
     (let fresh = \<lparr>ct_conversation_id = new_id, ct_workload = workload, ct_is_new = True, ct_prior_turns = [],
                   ct_ephemeral = ephemeral, ct_pending_digest = PNone, ct_omit_user_turn = False\<rparr>
      in if ephemeral then Inr fresh
         else case cid of
           None \<Rightarrow> Inr fresh
         | Some i \<Rightarrow>
             (case cs_docs st i of
                None \<Rightarrow> Inl (404, ''conversation not found'')
              | Some c \<Rightarrow>
                  if cv_workload c \<noteq> PStr workload then Inl (409, ''conversation is locked to another crew'')
                  else Inr \<lparr>ct_conversation_id = i, ct_workload = workload, ct_is_new = False,
                            ct_prior_turns = conversation_turns i st, ct_ephemeral = False,
                            ct_pending_digest = (case cv_pending c of None \<Rightarrow> PNone | Some p \<Rightarrow> dget p ''nonce_digest''),
                            ct_omit_user_turn = False\<rparr>))"

definition derive_conversation_title :: "string \<Rightarrow> string" where
  "derive_conversation_title prompt =
     (let t = team_log_sanitize (PStr prompt) 60 in if t = [] then ''(untitled)'' else t)"

text \<open>The proposal of a turn's result, if the server records it, with the digest of a fresh nonce.\<close>

definition mint_handoff_for_turn :: "(string \<Rightarrow> string) \<Rightarrow> string \<Rightarrow> instant \<Rightarrow> string \<Rightarrow> pydict \<Rightarrow> (pyexc, pydict option) res" where
  "mint_handoff_for_turn sha nonce now workload result =
     (case dget result ''handoff'' of
        PDict p \<Rightarrow>
          if \<not> truthy (dget p ''to'') then Inr None
          else if dget p ''from'' \<noteq> PStr workload then Inr None
          else rbind (build_pending_handoff p (sha nonce) now) (\<lambda>b. Inr (Some b))
      | _ \<Rightarrow> Inr None)"

definition turn_pair :: "chat_turn \<Rightarrow> string \<Rightarrow> pyval \<Rightarrow> pydict \<Rightarrow> pydict list" where
  "turn_pair ct prompt trace_id result =
     (if ct_omit_user_turn ct then []
      else [[(''role'', PStr ''user''), (''text'', PStr prompt), (''workload'', PStr (ct_workload ct)), (''trace_id'', trace_id)]]) @
     [[(''role'', PStr ''crew''), (''text'', py_or (dget result ''reply'') (PStr [])), (''workload'', PStr (ct_workload ct)),
       (''trace_id'', trace_id), (''iac_pr'', dget result ''iac_pr''), (''tool_calls'', dget result ''tool_calls'')]]"

definition persist_args :: "chat_turn \<Rightarrow> string \<Rightarrow> pyval \<Rightarrow> pydict \<Rightarrow> pydict option \<Rightarrow> append_args" where
  "persist_args ct prompt trace_id result pending =
     \<lparr>ap_turns = turn_pair ct prompt trace_id result,
      ap_create_with = (if ct_is_new ct then Some (ct_workload ct, derive_conversation_title prompt) else None),
      ap_pending_handoff = pending, ap_clear_pending = \<not> ct_omit_user_turn ct,
      ap_expect_workload = Some (ct_workload ct), ap_expect_digest = Some (ct_pending_digest ct)\<rparr>"

text \<open>Nothing is reported, and nothing raised, when the turn did not persist.\<close>

definition persist_chat_turn ::
  "(string \<Rightarrow> string) \<Rightarrow> string \<Rightarrow> instant \<Rightarrow> instant \<Rightarrow> chat_turn \<Rightarrow> string \<Rightarrow> pyval \<Rightarrow> pydict \<Rightarrow> conversations \<Rightarrow>
     pydict option option \<times> conversations" where
  "persist_chat_turn sha nonce now srv ct prompt trace_id result st =
     (if ct_ephemeral ct then (None, st)
      else case mint_handoff_for_turn sha nonce now (ct_workload ct) result of
             Inl _ \<Rightarrow> (None, st)
           | Inr pending \<Rightarrow>
               (case append_turns srv (ct_conversation_id ct) (persist_args ct prompt trace_id result pending) st of
                  (Inl _, st') \<Rightarrow> (None, st')
                | (Inr _, st') \<Rightarrow> (Some pending, st')))"

end
