(* ===== verification/ConversationSystem.thy ===== *)
theory ConversationSystem
  imports Conversations
begin

text \<open>
  Conversations under concurrency.  Every operation of the store is one transaction, so any
  interleaving of chat turns, redemptions and late writers is a sequence of operations in any order:
  what holds after every sequence holds in production.  First what one operation may change, then the
  invariants of all sequences.
\<close>

section \<open>Sequences of operations\<close>

datatype conv_op =
    Append append_args
  | Begin string instant nat
  | Finish string
  | Redeem redeem_args

datatype op_answer =
    Appended "(pyexc, int list) res"
  | Begun bool
  | Finished
  | Redemption "(pyexc, redemption) res"

type_synonym conv_call = "string \<times> instant \<times> conv_op"

fun apply_op :: "(string \<Rightarrow> string) \<Rightarrow> conv_call \<Rightarrow> conversations \<Rightarrow> op_answer \<times> conversations" where
  "apply_op sha (cid, srv, Append a) st = (case append_turns srv cid a st of (r, st') \<Rightarrow> (Appended r, st'))"
| "apply_op sha (cid, srv, Begin run_id now ttl) st = (case begin_chat_run cid run_id now ttl st of (b, st') \<Rightarrow> (Begun b, st'))"
| "apply_op sha (cid, srv, Finish run_id) st = (Finished, finish_chat_run cid run_id st)"
| "apply_op sha (cid, srv, Redeem r) st = (case redeem_handoff sha srv cid r st of (x, st') \<Rightarrow> (Redemption x, st'))"

fun run_ops :: "(string \<Rightarrow> string) \<Rightarrow> conv_call list \<Rightarrow> conversations \<Rightarrow> (conv_call \<times> op_answer) list \<times> conversations" where
  "run_ops sha [] st = ([], st)"
| "run_ops sha (x # xs) st =
     (let (ans, st') = apply_op sha x st; (h, st'') = run_ops sha xs st' in ((x, ans) # h, st''))"

definition no_conversations :: conversations where
  "no_conversations = \<lparr>cs_docs = Map.empty, cs_turns = (\<lambda>_. [])\<rparr>"

section \<open>What one operation does\<close>

lemma append_cases:
  assumes "append_turns srv cid a st = (r, st')"
  obtains (failed) e where "r = Inl e" "st' = st"
  | (appended) rows c b m where "r = Inr (map fst rows)"
      "(cs_docs st cid = Some c \<and> \<not> b \<and> m = may_touch_pending_handoff c (ap_expect_workload a) (ap_expect_digest a)) \<or>
       (cs_docs st cid = None \<and> b \<and> m \<and> (\<exists>cw. ap_create_with a = Some cw \<and> c = fresh_conversation srv cw))"
      "traverse (\<lambda>(seq, t). rbind (turn_row srv seq t) (\<lambda>row. Inr (seq, row))) (numbered (cv_turn_count c) (ap_turns a)) = Inr rows"
      "cs_docs st' = (cs_docs st)(cid \<mapsto> c\<lparr>cv_turn_count := cv_turn_count c + int (length (ap_turns a)),
         cv_user_turns := PInt (conversation_user_turns c + count_user_turns (ap_turns a)), cv_updated_at := srv,
         cv_last_trace_id := last_trace (cv_last_trace_id c) (ap_turns a), cv_pending := update_pending a b m (cv_pending c)\<rparr>)"
      "cs_turns st' = (cs_turns st)(cid := write_rows rows (cs_turns st cid))"
  using assms
  by (auto simp: append_turns_def Let_def result_simps split: option.splits sum.splits) blast

lemma redeem_cases:
  assumes "redeem_handoff sha srv cid r st = (x, st')"
  obtains (refused) "st' = st" "\<And>p b i. x \<noteq> Inr (Redeemed p b i)"
  | (redeemed) c p turn where "x = Inr (Redeemed p (ra_accept r) (if ra_accept r then ra_run_id r else None))"
      "cs_docs st cid = Some c" "cv_pending c = Some p" "truthy (dget p ''nonce_digest'')"
      "verify_handoff_nonce sha (PStr (ra_nonce r)) (dget p ''nonce_digest'') = Inr True"
      "\<not> is_handoff_expired p (ra_now r)" "dget p ''from'' = cv_workload c" "lease_is_free (cv_lease c) (ra_now r)"
      "handoff_transition_turn p (ra_accept r) (ra_trace_id r) = Inr turn"
      "cs_docs st' = (cs_docs st)(cid \<mapsto> redeemed_doc srv r p (dget p ''to'') c)"
      "cs_turns st' = (cs_turns st)(cid := AList.update (cv_turn_count c)
         (dput (dput turn ''seq'' (PInt (cv_turn_count c))) ''created_at'' (PTime srv)) (cs_turns st cid))"
proof (cases "evaluate_handoff_redemption sha (cs_docs st cid) (ra_nonce r) (ra_now r)")
  case (Inl e)
  with assms show ?thesis by (auto simp: redeem_handoff_def intro: refused)
next
  case (Inr v)
  show ?thesis
  proof (cases v)
    case (Refuse why)
    with assms Inr show ?thesis by (auto simp: redeem_handoff_def intro: refused)
  next
    case (Proceed p)
    with Inr obtain c where c: "cs_docs st cid = Some c" "cv_pending c = Some p" "truthy (dget p ''nonce_digest'')"
      "verify_handoff_nonce sha (PStr (ra_nonce r)) (dget p ''nonce_digest'') = Inr True"
      "\<not> is_handoff_expired p (ra_now r)" "dget p ''from'' = cv_workload c" "lease_is_free (cv_lease c) (ra_now r)"
      by (auto simp: evaluate_handoff_redemption_def result_simps split: option.splits if_splits)
    show ?thesis
    proof (cases "handoff_transition_turn p (ra_accept r) (ra_trace_id r)")
      case (Inl e)
      with assms Inr Proceed c show ?thesis by (auto simp: redeem_handoff_def intro: refused)
    next
      case (Inr turn)
      with assms \<open>evaluate_handoff_redemption _ _ _ _ = _\<close> Proceed c show ?thesis
        by (intro redeemed [of p c turn]) (auto simp: redeem_handoff_def)
    qed
  qed
qed

text \<open>The documents an operation leaves alone.\<close>

lemma op_other_doc: "apply_op sha (cid, srv, op) st = (ans, st') \<Longrightarrow> k \<noteq> cid \<Longrightarrow>
    cs_docs st' k = cs_docs st k \<and> cs_turns st' k = cs_turns st k"
  by (cases op)
    (auto simp: begin_chat_run_def finish_chat_run_def elim: append_cases redeem_cases split: prod.splits option.splits if_splits)

lemma lease_ops_keep:
  "begin_chat_run cid run_id now ttl st = (b, st') \<Longrightarrow> cs_turns st' = cs_turns st \<and>
     (\<forall>k. map_option (\<lambda>c. c\<lparr>cv_lease := None\<rparr>) (cs_docs st' k) = map_option (\<lambda>c. c\<lparr>cv_lease := None\<rparr>) (cs_docs st k))"
  "cs_turns (finish_chat_run cid run_id st) = cs_turns st \<and>
     (\<forall>k. map_option (\<lambda>c. c\<lparr>cv_lease := None\<rparr>) (cs_docs (finish_chat_run cid run_id st) k) =
          map_option (\<lambda>c. c\<lparr>cv_lease := None\<rparr>) (cs_docs st k))"
  by (auto simp: begin_chat_run_def finish_chat_run_def split: option.splits if_splits)

lemma same_but_lease:
  assumes "map_option (\<lambda>c. c\<lparr>cv_lease := None\<rparr>) x' = map_option (\<lambda>c. c\<lparr>cv_lease := None\<rparr>) x"
  shows "x' = None \<longleftrightarrow> x = None"
    and "x' = Some c' \<Longrightarrow> \<exists>c. x = Some c \<and> cv_workload c' = cv_workload c \<and> cv_crews c' = cv_crews c \<and>
      cv_turn_count c' = cv_turn_count c \<and> cv_pending c' = cv_pending c"
  using assms by (cases x; cases x'; auto; metis conversation.ext_inject conversation.surjective conversation.update_convs(10))+

section \<open>The crew lock\<close>

text \<open>C25: A conversation changes its crew only by a redeemed handoff: whatever operation runs, in whatever state,
  when the bound crew of an existing conversation is afterwards another one, the operation was an
  accepted redemption that presented the nonce of the proposal the conversation had open, the proposal
  led from the old crew to the new one and had not expired, and no run held the conversation.\<close>

theorem crew_changes_only_by_handoff:
  assumes "apply_op sha (cid, srv, op) st = (ans, st')" and "cs_docs st k = Some c" and "cs_docs st' k = Some c'"
    and "cv_workload c' \<noteq> cv_workload c"
  shows "k = cid \<and> (\<exists>r p. op = Redeem r \<and> ra_accept r \<and> ans = Redemption (Inr (Redeemed p True (ra_run_id r))) \<and>
    cv_pending c = Some p \<and> dget p ''nonce_digest'' = PStr (sha (ra_nonce r)) \<and> dget p ''from'' = cv_workload c \<and>
    dget p ''to'' = cv_workload c' \<and> (\<exists>t. dget p ''expires_at'' = PTime t \<and> ra_now r < t) \<and>
    lease_is_free (cv_lease c) (ra_now r))"
proof -
  from op_other_doc [OF assms(1), of k] assms(2-4) have k: "k = cid" by auto
  show ?thesis
  proof (cases op)
    case (Append a)
    obtain r where r: "append_turns srv cid a st = (r, st')" using assms(1) Append by (auto split: prod.splits)
    from r show ?thesis using assms(2-4) k by (cases rule: append_cases) auto
  next
    case (Begin run_id now ttl)
    with assms(1) obtain b where "begin_chat_run cid run_id now ttl st = (b, st')" by (auto split: prod.splits)
    from same_but_lease(2) [OF lease_ops_keep(1) [OF this, THEN conjunct2, rule_format], OF assms(3)] assms(2,4) show ?thesis by auto
  next
    case (Finish run_id)
    with assms(1) have "st' = finish_chat_run cid run_id st" by simp
    with same_but_lease(2) [OF lease_ops_keep(2) [THEN conjunct2, rule_format], of cid run_id st k c'] assms(2-4)
    show ?thesis by auto
  next
    case (Redeem r)
    then obtain x where x: "redeem_handoff sha srv cid r st = (x, st')" "ans = Redemption x"
      using assms(1) by (auto split: prod.splits)
    from x(1) show ?thesis
    proof (cases rule: redeem_cases)
      case refused
      with assms(2-4) show ?thesis by simp
    next
      case (redeemed d p turn)
      from redeemed(5) have "dget p ''nonce_digest'' = PStr (sha (ra_nonce r))"
        by (auto simp: verify_handoff_nonce_def compare_digest_def split: pyval.splits if_splits)
      moreover from redeemed(6) have "\<exists>t. dget p ''expires_at'' = PTime t \<and> ra_now r < t"
        by (auto simp: is_handoff_expired_def split: pyval.splits)
      ultimately show ?thesis
        using redeemed assms(2-4) k Redeem x(2) by (auto simp: redeemed_doc_def Let_def split: if_splits)
    qed
  qed
qed

section \<open>The nonce\<close>

fun proposes :: "string \<Rightarrow> string \<Rightarrow> conv_call \<Rightarrow> bool" where
  "proposes cid d (k, srv, Append a) =
     (k = cid \<and> (case ap_pending_handoff a of None \<Rightarrow> False | Some p \<Rightarrow> dget p ''nonce_digest'' = PStr d))"
| "proposes cid d _ = False"

fun redeems :: "string \<Rightarrow> string \<Rightarrow> conv_call \<times> op_answer \<Rightarrow> bool" where
  "redeems cid n ((k, srv, Redeem r), Redemption (Inr (Redeemed p b i))) = (k = cid \<and> ra_nonce r = n)"
| "redeems cid n _ = False"

definition open_digest :: "string \<Rightarrow> string \<Rightarrow> conversations \<Rightarrow> nat" where
  "open_digest cid d st =
     (case cs_docs st cid of
        None \<Rightarrow> 0
      | Some c \<Rightarrow> (case cv_pending c of None \<Rightarrow> 0 | Some p \<Rightarrow> if dget p ''nonce_digest'' = PStr d then 1 else 0))"

definition one_if :: "bool \<Rightarrow> nat" where "one_if b = (if b then 1 else 0)"

lemma open_digest_same: "map_option cv_pending (cs_docs st' cid) = map_option cv_pending (cs_docs st cid) \<Longrightarrow>
    open_digest cid d st' = open_digest cid d st"
  by (cases "cs_docs st cid"; cases "cs_docs st' cid") (auto simp: open_digest_def)

lemma lease_ops_pending:
  assumes "map_option (\<lambda>c. c\<lparr>cv_lease := None\<rparr>) x' = map_option (\<lambda>c. c\<lparr>cv_lease := None\<rparr>) x"
  shows "map_option cv_pending x' = map_option cv_pending x"
proof (cases x')
  case None
  with same_but_lease(1) [OF assms] show ?thesis by simp
next
  case (Some c')
  with same_but_lease(2) [OF assms Some] show ?thesis by auto
qed

lemma verified_digest: "verify_handoff_nonce sha (PStr n) d = Inr True \<Longrightarrow> d = PStr (sha n)"
  by (auto simp: verify_handoff_nonce_def compare_digest_def split: pyval.splits if_splits)

lemma append_open:
  assumes "append_turns srv k a st = (r, st')"
  shows "open_digest cid d st' \<le> open_digest cid d st + one_if (proposes cid d (k, srv, Append a))"
  using assms
  by (cases rule: append_cases)
    (auto simp: open_digest_def one_if_def update_pending_def fresh_conversation_def split: option.splits)

lemma nonce_step:
  assumes "apply_op sha call st = (ans, st')"
  shows "one_if (redeems cid n (call, ans)) + open_digest cid (sha n) st'
    \<le> open_digest cid (sha n) st + one_if (proposes cid (sha n) call)"
proof -
  obtain k srv op where call: "call = (k, srv, op)" by (cases call) auto
  show ?thesis
  proof (cases op)
    case (Append a)
    then obtain r where "append_turns srv k a st = (r, st')" "ans = Appended r" using assms call by (auto split: prod.splits)
    with append_open [of srv k a st r st' cid "sha n"] Append call show ?thesis by (simp add: one_if_def [of False])
  next
    case (Begin run_id now ttl)
    with assms call obtain b where b: "begin_chat_run k run_id now ttl st = (b, st')" "ans = Begun b" by (auto split: prod.splits)
    then have "open_digest cid (sha n) st' = open_digest cid (sha n) st"
      by (intro open_digest_same lease_ops_pending lease_ops_keep(1) [THEN conjunct2, rule_format])
    with b Begin call show ?thesis by (simp add: one_if_def)
  next
    case (Finish run_id)
    with assms call have f: "st' = finish_chat_run k run_id st" "ans = Finished" by auto
    have "open_digest cid (sha n) st' = open_digest cid (sha n) st"
      unfolding f by (intro open_digest_same lease_ops_pending lease_ops_keep(2) [THEN conjunct2, rule_format])
    with f show ?thesis using Finish call by (simp add: one_if_def)
  next
    case (Redeem r)
    then obtain x where x: "redeem_handoff sha srv k r st = (x, st')" "ans = Redemption x"
      using assms call by (auto split: prod.splits)
    from x(1) show ?thesis
    proof (cases rule: redeem_cases)
      case refused
      then have "\<not> redeems cid n (call, ans)" using x(2) call Redeem
        by (cases x; cases "projr x") auto
      with refused show ?thesis by (simp add: one_if_def)
    next
      case (redeemed c p turn)
      note d = verified_digest [OF redeemed(5)]
      have "cv_pending (redeemed_doc srv r p (dget p ''to'') c) = None" by (simp add: redeemed_doc_def Let_def)
      then show ?thesis using redeemed(1,2,3,10) d x(2) call Redeem
        by (auto simp: one_if_def open_digest_def split: option.splits)
    qed
  qed
qed

lemma redemptions_bounded:
  "length (filter (redeems cid n) (fst (run_ops sha calls st))) \<le> open_digest cid (sha n) st + length (filter (proposes cid (sha n)) calls)"
proof (induction calls arbitrary: st)
  case (Cons call calls)
  obtain ans st' where s: "apply_op sha call st = (ans, st')" by force
  obtain h st'' where h: "run_ops sha calls st' = (h, st'')" by force
  from nonce_step [OF s, of cid n] Cons.IH [of st'] h s show ?case
    by (auto simp: one_if_def split: if_splits)
qed simp

text \<open>C24: A handoff nonce moves a conversation at most once for each time its proposal was written: in every
  sequence of operations, the redemptions that succeed with a nonce are no more than the writes that
  offered its digest to the conversation, so a nonce minted for one turn is redeemed at most once,
  accepted or declined.\<close>

theorem nonce_redeemed_once:
  "length (filter (redeems cid n) (fst (run_ops sha calls no_conversations))) \<le> length (filter (proposes cid (sha n)) calls)"
  using redemptions_bounded [of cid n sha calls no_conversations] by (simp add: open_digest_def no_conversations_def)

section \<open>Turns\<close>

definition well_numbered :: "conversations \<Rightarrow> string \<Rightarrow> bool" where
  "well_numbered st cid \<longleftrightarrow>
     (case cs_docs st cid of
        None \<Rightarrow> cs_turns st cid = []
      | Some c \<Rightarrow> 0 \<le> cv_turn_count c \<and> map fst (cs_turns st cid) = map int [0..<nat (cv_turn_count c)] \<and>
          (\<forall>(i, row) \<in> set (cs_turns st cid). dget row ''seq'' = PInt i) \<and>
          (\<exists>l. cv_crews c = PList l \<and> cv_workload c \<in> set l))"

lemma numbered_fst: "map fst (numbered n xs) = map (\<lambda>i. n + int i) [0..<length xs]"
  by (simp add: numbered_def)

lemma write_rows_new: "distinct (map fst (m @ rows)) \<Longrightarrow> write_rows rows m = m @ rows"
proof (induction rows arbitrary: m)
  case (Cons r rows)
  obtain i row where r: "r = (i, row)" by force
  with Cons.prems have "map_of m i = None" by (auto simp: map_of_eq_None_iff)
  from update_new [OF this, of row] Cons.IH [of "m @ [(i, row)]"] Cons.prems r show ?case by (simp add: write_rows_def)
qed (simp add: write_rows_def)

lemma rows_built:
  assumes "traverse (\<lambda>(seq, t). rbind (turn_row srv seq t) (\<lambda>row. Inr (seq, row))) xs = Inr rows"
  shows "map fst rows = map fst xs \<and> (\<forall>(i, row) \<in> set rows. dget row ''seq'' = PInt i)"
proof -
  from assms have "list_all2 (\<lambda>x r. (case x of (seq, t) \<Rightarrow> rbind (turn_row srv seq t) (\<lambda>row. Inr (seq, row))) = Inr r) xs rows"
    by (simp only: traverse_Inr_iff)
  then show ?thesis
    by (induction rule: list_all2_induct) (auto simp: result_simps turn_row_def)
qed

lemma append_count: "0 \<le> n \<Longrightarrow> map int [0..<nat n] @ map (\<lambda>i. n + int i) [0..<k] = map int [0..<nat (n + int k)]"
proof -
  assume n: "0 \<le> n"
  then obtain m where m: "n = int m" using zero_le_imp_eq_int by blast
  have "map (\<lambda>i. int m + int i) [0..<k] = map int (map (\<lambda>i. i + m) [0..<k])" by (simp add: add.commute)
  also have "map (\<lambda>i. i + m) [0..<k] = [m..<k + m]" by (rule map_add_upt)
  finally have e: "map (\<lambda>i. int m + int i) [0..<k] = map int [m..<k + m]" .
  have "[0..<m + k] = [0..<m] @ [m..<m + k]" by (rule upt_add_eq_append) simp
  then show ?thesis unfolding m e by (simp add: nat_int_add add.commute)
qed

lemma counted_rows:
  assumes "0 \<le> n" and "map fst m = map int [0..<nat n]" and "map fst rows = map (\<lambda>i. n + int i) [0..<k]"
  shows "write_rows rows m = m @ rows" and "map fst (write_rows rows m) = map int [0..<nat (n + int k)]"
proof -
  have "map fst (m @ rows) = map int [0..<nat (n + int k)]" using assms append_count by simp
  then have "distinct (map fst (m @ rows))" by (simp add: distinct_map)
  from write_rows_new [OF this] show "write_rows rows m = m @ rows" .
  with \<open>map fst (m @ rows) = _\<close> show "map fst (write_rows rows m) = map int [0..<nat (n + int k)]" by simp
qed

lemma well_numbered_step:
  assumes "apply_op sha (cid, srv, op) st = (ans, st')" and "\<forall>k. well_numbered st k"
  shows "well_numbered st' k"
proof (cases "k = cid")
  case False
  with op_other_doc [OF assms(1) False] assms(2) [rule_format, of k] show ?thesis
    by (cases "cs_docs st k") (auto simp: well_numbered_def)
next
  case True
  note old = assms(2) [rule_format, of cid]
  have lease: "well_numbered st' cid"
    if "cs_turns st' = cs_turns st"
      "\<forall>k. map_option (\<lambda>c. c\<lparr>cv_lease := None\<rparr>) (cs_docs st' k) = map_option (\<lambda>c. c\<lparr>cv_lease := None\<rparr>) (cs_docs st k)"
  proof (cases "cs_docs st' cid")
    case None
    with same_but_lease(1) [OF that(2) [rule_format, of cid]] that(1) old show ?thesis by (simp add: well_numbered_def)
  next
    case (Some c')
    with same_but_lease(2) [OF that(2) [rule_format, of cid] Some] that(1) old show ?thesis by (auto simp: well_numbered_def)
  qed
  show ?thesis
  proof (cases op)
    case (Append a)
    then obtain r where "append_turns srv cid a st = (r, st')" using assms(1) by (auto split: prod.splits)
    then show ?thesis
    proof (cases rule: append_cases)
      case failed
      with assms(2) show ?thesis by simp
    next
      case (appended rows c b m)
      have before: "0 \<le> cv_turn_count c" "map fst (cs_turns st cid) = map int [0..<nat (cv_turn_count c)]"
        "\<forall>(i, row) \<in> set (cs_turns st cid). dget row ''seq'' = PInt i" "\<exists>l. cv_crews c = PList l \<and> cv_workload c \<in> set l"
        using appended(2) old by (auto simp: well_numbered_def fresh_conversation_def)
      from rows_built [OF appended(3)] have rows: "map fst rows = map (\<lambda>i. cv_turn_count c + int i) [0..<length (ap_turns a)]"
        "\<forall>(i, row) \<in> set rows. dget row ''seq'' = PInt i" by (simp_all add: numbered_fst)
      from counted_rows [OF before(1,2) rows(1)] before rows(2) show ?thesis
        using appended(4,5) True by (auto simp: well_numbered_def)
    qed
  next
    case (Begin run_id now ttl)
    with assms(1) obtain b where "begin_chat_run cid run_id now ttl st = (b, st')" by (auto split: prod.splits)
    with lease lease_ops_keep(1) True show ?thesis by blast
  next
    case (Finish run_id)
    with assms(1) have "st' = finish_chat_run cid run_id st" by simp
    with lease lease_ops_keep(2) True show ?thesis by blast
  next
    case (Redeem r)
    then obtain x where "redeem_handoff sha srv cid r st = (x, st')" using assms(1) by (auto split: prod.splits)
    then show ?thesis
    proof (cases rule: redeem_cases)
      case refused
      with assms(2) show ?thesis by simp
    next
      case (redeemed c p turn)
      let ?row = "dput (dput turn ''seq'' (PInt (cv_turn_count c))) ''created_at'' (PTime srv)"
      from old redeemed(2) have before: "0 \<le> cv_turn_count c" "map fst (cs_turns st cid) = map int [0..<nat (cv_turn_count c)]"
        "\<forall>(i, row) \<in> set (cs_turns st cid). dget row ''seq'' = PInt i" "\<exists>l. cv_crews c = PList l \<and> cv_workload c \<in> set l"
        by (simp_all add: well_numbered_def)
      from counted_rows [OF before(1,2), of "[(cv_turn_count c, ?row)]" 1] before
      have "AList.update (cv_turn_count c) ?row (cs_turns st cid) = cs_turns st cid @ [(cv_turn_count c, ?row)]"
        "map fst (AList.update (cv_turn_count c) ?row (cs_turns st cid)) = map int [0..<nat (cv_turn_count c + 1)]"
        by (simp_all add: write_rows_def)
      then show ?thesis
        using before redeemed(10,11) True
        by (auto simp: well_numbered_def redeemed_doc_def with_crew_def Let_def)
    qed
  qed
qed

text \<open>Transcripts have no gaps: after every sequence of operations the turns of each conversation are
  numbered 0, 1, 2 and so on up to its counter, each row carries its own number, a conversation
  without a document has no turns, and the bound crew is among the crews that took part.\<close>

theorem turns_numbered_without_gaps:
  "well_numbered (snd (run_ops sha calls no_conversations)) cid"
proof -
  have "\<forall>k. well_numbered st k \<Longrightarrow> \<forall>k. well_numbered (snd (run_ops sha calls st)) k" for st
  proof (induction calls arbitrary: st)
    case (Cons call calls)
    obtain ans st' where s: "apply_op sha call st = (ans, st')" by force
    obtain k srv op where "call = (k, srv, op)" by (cases call) auto
    with s well_numbered_step [of sha k srv op st ans st'] Cons.prems have "\<forall>k. well_numbered st' k" by blast
    from Cons.IH [OF this] s show ?case by (cases "run_ops sha calls st'") (simp add: Let_def)
  qed simp
  moreover have "\<forall>k. well_numbered no_conversations k" by (simp add: well_numbered_def no_conversations_def)
  ultimately show ?thesis by blast
qed

section \<open>The run lease\<close>

text \<open>The time of an operation that reads the clock.\<close>

fun op_time :: "conv_op \<Rightarrow> instant option" where
  "op_time (Begin run_id now ttl) = Some now"
| "op_time (Redeem r) = Some (ra_now r)"
| "op_time _ = None"

text \<open>C26: A run that holds a conversation keeps it: until its lease expires, no operation but its own finish
  changes the lease or the crew, no other run begins and no handoff is redeemed; a late finish of
  another run has no effect.\<close>

theorem lease_excludes_others:
  assumes "apply_op sha (cid, srv, op) st = (ans, st')" and "cs_docs st k = Some c"
    and "cv_lease c = Some (new_lease run_id begun ttl)" and "run_id \<noteq> []"
    and "\<forall>t. op_time op = Some t \<longrightarrow> t < begun + ttl * 1000000" and "op \<noteq> Finish run_id"
  shows "\<exists>c'. cs_docs st' k = Some c' \<and> cv_lease c' = cv_lease c \<and> cv_workload c' = cv_workload c \<and>
    (k = cid \<longrightarrow> ans \<noteq> Begun True \<and> (\<forall>p b i. ans \<noteq> Redemption (Inr (Redeemed p b i))))"
proof (cases "k = cid")
  case False
  with op_other_doc [OF assms(1) False] assms(2) show ?thesis by auto
next
  case True
  have held: "\<not> lease_is_free (cv_lease c) t" if "op_time op = Some t" for t
    using assms(3-5) that by (auto simp: lease_is_free_def new_lease_def not_le)
  show ?thesis
  proof (cases op)
    case (Append a)
    then obtain r where "append_turns srv cid a st = (r, st')" "ans = Appended r" using assms(1) by (auto split: prod.splits)
    from this(1) show ?thesis using assms(2) True \<open>ans = Appended r\<close> by (cases rule: append_cases) auto
  next
    case (Begin r now t)
    with held have "\<not> lease_is_free (cv_lease c) now" by simp
    with assms(1,2) True Begin show ?thesis by (auto simp: begin_chat_run_def)
  next
    case (Finish r)
    with assms(6) have "\<not> holds_lease r c" using assms(3) by (auto simp: holds_lease_def new_lease_def)
    with assms(1,2) True Finish show ?thesis by (auto simp: finish_chat_run_def)
  next
    case (Redeem r)
    then obtain x where x: "redeem_handoff sha srv cid r st = (x, st')" "ans = Redemption x"
      using assms(1) by (auto split: prod.splits)
    from x(1) show ?thesis
    proof (cases rule: redeem_cases)
      case refused
      with assms(2) x(2) show ?thesis by auto
    next
      case (redeemed d p turn)
      with held [of "ra_now r"] Redeem True assms(2) show ?thesis by simp
    qed
  qed
qed

section \<open>A handoff from proposal to redemption\<close>

text \<open>An operation that leaves an open proposal of a conversation as it is: it concerns another conversation, takes or
  frees the lease, redeems with another nonce, or appends turns without touching the proposal, because it does not
  mean to or because it still expects the digest of an earlier one.\<close>

fun spares :: "(string \<Rightarrow> string) \<Rightarrow> string \<Rightarrow> string \<Rightarrow> conv_call \<Rightarrow> bool" where
  "spares sha cid d (k, srv, Append a) =
     (k = cid \<longrightarrow> ap_pending_handoff a = None \<and> \<not> ap_clear_pending a \<or> (\<exists>e. ap_expect_digest a = Some e \<and> e \<noteq> PStr d))"
| "spares sha cid d (k, srv, Begin r now ttl) = True"
| "spares sha cid d (k, srv, Finish r) = True"
| "spares sha cid d (k, srv, Redeem r) = (k = cid \<longrightarrow> sha (ra_nonce r) \<noteq> d)"

lemma spared_step:
  assumes "apply_op sha call st = (ans, st')" and "spares sha cid d call" and "cs_docs st cid = Some c"
    and "cv_pending c = Some q" and "dget q ''nonce_digest'' = PStr d"
  shows "\<exists>c'. cs_docs st' cid = Some c' \<and> cv_pending c' = Some q \<and> cv_workload c' = cv_workload c"
proof -
  obtain k srv op where call: "call = (k, srv, op)" by (cases call) auto
  show ?thesis
  proof (cases "k = cid")
    case False
    with op_other_doc [of sha k srv op st ans st' cid] assms(1,3,4) call show ?thesis by auto
  next
    case True
    show ?thesis
    proof (cases op)
      case (Append a)
      with assms(1) call True obtain r where r: "append_turns srv cid a st = (r, st')" by (auto split: prod.splits)
      then show ?thesis
      proof (cases rule: append_cases)
        case (appended rows c' b m)
        with assms(2-5) call True Append have "c' = c" "update_pending a b m (cv_pending c) = Some q"
          by (auto simp: update_pending_def may_touch_pending_handoff_def)
        with appended(4) show ?thesis by simp
      qed (use assms in simp)
    next
      case (Begin r now ttl)
      with assms(1,3,4) call True show ?thesis by (auto simp: begin_chat_run_def split: if_splits)
    next
      case (Finish r)
      with assms(1,3,4) call True show ?thesis by (auto simp: finish_chat_run_def split: if_splits)
    next
      case (Redeem r)
      with assms(1) call True obtain x where x: "redeem_handoff sha srv cid r st = (x, st')" by (auto split: prod.splits)
      then show ?thesis
      proof (cases rule: redeem_cases)
        case (redeemed c' p turn)
        with assms(3,4) have "p = q" by simp
        with verified_digest [OF redeemed(5)] assms(2,5) call True Redeem show ?thesis by simp
      qed (use assms in simp)
    qed
  qed
qed

lemma spared_run:
  "run_ops sha calls st = (h, st') \<Longrightarrow> list_all (spares sha cid d) calls \<Longrightarrow> cs_docs st cid = Some c \<Longrightarrow>
     cv_pending c = Some q \<Longrightarrow> dget q ''nonce_digest'' = PStr d \<Longrightarrow>
     \<exists>c'. cs_docs st' cid = Some c' \<and> cv_pending c' = Some q \<and> cv_workload c' = cv_workload c"
proof (induction calls arbitrary: st h c)
  case (Cons call calls)
  obtain ans st1 where s: "apply_op sha call st = (ans, st1)" by force
  from Cons.prems(2) have "spares sha cid d call" "list_all (spares sha cid d) calls" by simp_all
  from spared_step [OF s this(1) Cons.prems(3-5)] obtain c1 where
    c1: "cs_docs st1 cid = Some c1" "cv_pending c1 = Some q" "cv_workload c1 = cv_workload c" by blast
  obtain h1 where "run_ops sha calls st1 = (h1, st')" using Cons.prems(1) s by (auto split: prod.splits)
  from Cons.IH [OF this \<open>list_all _ calls\<close> c1(1,2) Cons.prems(5)] c1(3) show ?case by simp
qed simp

text \<open>C27: A handoff that was offered can be taken, once: when a turn of the bound crew is persisted with a valid
  proposal, in a conversation that is kept and whose pending proposal is still the one the turn had seen at its
  start, then after any operations that leave the proposal standing, at any time within fifteen minutes at which
  no run holds the conversation, the nonce released with it redeems exactly that proposal, and an accepted
  redemption makes the proposed crew the bound one; and in every sequence of operations after that, as long as
  no proposal is stored with the same digest again, no redemption with that nonce succeeds.\<close>

theorem offered_handoff_redeemable:
  assumes "cs_docs st cid = Some c" and "cv_workload c = PStr crew" and "ct_conversation_id ct = cid"
    and "ct_workload ct = crew" and "\<not> ct_ephemeral ct"
    and "ct_pending_digest ct = (case cv_pending c of None \<Rightarrow> PNone | Some p \<Rightarrow> dget p ''nonce_digest'')"
    and "dget result ''handoff'' = PDict p" and "validate_handoff_proposal target reason brief crew = Inr p"
    and "persist_chat_turn sha nonce now srv ct prompt trace result st = (Some offered, st1)"
    and "nonce \<noteq> []" and "sha nonce \<noteq> []" and "is_ascii (sha nonce)" and "add_minutes now 15 = Inr expires"
    and "run_ops sha between st1 = (answers, st2)" and "list_all (spares sha cid (sha nonce)) between"
    and "\<forall>c. cs_docs st2 cid = Some c \<longrightarrow> lease_is_free (cv_lease c) (ra_now r)"
    and "ra_nonce r = nonce" and "ra_now r < expires" and "ra_accept r"
  shows "\<exists>q st3 c3. offered = Some q \<and> redeem_handoff sha srv2 cid r st2 = (Inr (Redeemed q True (ra_run_id r)), st3) \<and>
    cs_docs st3 cid = Some c3 \<and> cv_workload c3 = target \<and>
    (\<forall>later. list_all (\<lambda>call. \<not> proposes cid (sha nonce) call) later \<longrightarrow>
       filter (redeems cid nonce) (fst (run_ops sha later st3)) = [])"
proof -
  from assms(8) obtain t where t: "target = PStr t" "t \<in> set HANDOFF_TARGETS"
    "p = [(''from'', PStr crew), (''to'', PStr t), (''reason'', PStr (team_log_sanitize reason MAX_REASON_CHARS)),
      (''brief'', PStr (if truthy brief then team_log_sanitize brief MAX_BRIEF_CHARS else []))]"
    by (rule validated_shape)
  let ?q = "p @ [(''nonce_digest'', PStr (sha nonce)), (''created_at'', PTime now), (''expires_at'', PTime expires)]"
  have "mint_handoff_for_turn sha nonce now (ct_workload ct) result = Inr (Some ?q)"
    using assms(4,7,13) t(2,3)
    by (auto simp: mint_handoff_for_turn_def build_pending_handoff_def dindex_def HANDOFF_TTL_MINUTES_def HANDOFF_TARGETS_def)
  with assms(3,5,9) obtain ids where q: "offered = Some ?q"
    and app: "append_turns srv cid (persist_args ct prompt trace result (Some ?q)) st = (Inr ids, st1)"
    by (auto simp: persist_chat_turn_def split: prod.splits sum.splits)
  from app have "\<exists>c1. cs_docs st1 cid = Some c1 \<and> cv_pending c1 = Some ?q \<and> cv_workload c1 = PStr crew \<and> cv_lease c1 = cv_lease c"
  proof (cases rule: append_cases)
    case (appended rows c' b m)
    with assms(1) have "c' = c" "\<not> b" "m = may_touch_pending_handoff c (Some crew) (Some (ct_pending_digest ct))"
      by (auto simp: persist_args_def assms(4))
    with assms(2,6) have "m" by (simp add: may_touch_pending_handoff_def split: option.splits)
    with appended(4) \<open>c' = c\<close> assms(2) show ?thesis by (auto simp: update_pending_def persist_args_def)
  qed simp
  then obtain c1 where c1: "cs_docs st1 cid = Some c1" "cv_pending c1 = Some ?q" "cv_workload c1 = PStr crew" by blast
  have "dget ?q ''nonce_digest'' = PStr (sha nonce)" using t(3) by simp
  from spared_run [OF assms(14,15) c1(1,2) this] c1(3) obtain c2 where
    c2: "cs_docs st2 cid = Some c2" "cv_pending c2 = Some ?q" "cv_workload c2 = PStr crew" by auto
  with assms(16) have free: "lease_is_free (cv_lease c2) (ra_now r)" by blast
  have ok: "evaluate_handoff_redemption sha (Some c2) (ra_nonce r) (ra_now r) = Inr (Proceed ?q)"
    using assms(10-12,17,18) c2 free t(3)
    by (simp add: evaluate_handoff_redemption_def verify_handoff_nonce_def compare_digest_def is_handoff_expired_def)
  obtain turn where turn: "handoff_transition_turn ?q (ra_accept r) (ra_trace_id r) = Inr turn"
    using t(3) assms(19) by (auto simp: handoff_transition_turn_def dindex_def)
  let ?c3 = "redeemed_doc srv2 r ?q (dget ?q ''to'') c2"
  let ?st3 = "\<lparr>cs_docs = (cs_docs st2)(cid \<mapsto> ?c3), cs_turns = (cs_turns st2)(cid := AList.update (cv_turn_count c2)
     (dput (dput turn ''seq'' (PInt (cv_turn_count c2))) ''created_at'' (PTime srv2)) (cs_turns st2 cid))\<rparr>"
  have one: "redeem_handoff sha srv2 cid r st2 = (Inr (Redeemed ?q True (ra_run_id r)), ?st3)"
    using ok turn c2(1) assms(19) by (simp add: redeem_handoff_def)
  have c3: "cv_workload ?c3 = target" "cv_pending ?c3 = None"
    using assms(19) t(1,3) by (simp_all add: redeemed_doc_def Let_def)
  have "filter (redeems cid nonce) (fst (run_ops sha later ?st3)) = []"
    if "list_all (\<lambda>call. \<not> proposes cid (sha nonce) call) later" for later
  proof -
    from that have "filter (proposes cid (sha nonce)) later = []" by (simp add: filter_empty_conv list_all_iff)
    moreover have "open_digest cid (sha nonce) ?st3 = 0" using c3(2) by (simp add: open_digest_def)
    ultimately show ?thesis using redemptions_bounded [of cid nonce sha later ?st3] by simp
  qed
  with one c3(1) q show ?thesis by (intro exI [of _ ?q] exI [of _ ?st3] exI [of _ ?c3] conjI) simp_all
qed

section \<open>A concrete handoff\<close>

definition demo_conversation :: conversation where
  "demo_conversation = \<lparr>cv_workload = PStr ''explore'', cv_crews = PList [PStr ''explore''], cv_title = ''t'', cv_created_at = 0,
     cv_updated_at = 0, cv_turn_count = 0, cv_user_turns = PInt 0, cv_last_trace_id = PNone, cv_pending = None, cv_lease = None\<rparr>"

definition demo_conversations :: conversations where
  "demo_conversations = \<lparr>cs_docs = [''c'' \<mapsto> demo_conversation], cs_turns = (\<lambda>_. [])\<rparr>"

definition demo_turn :: chat_turn where
  "demo_turn = \<lparr>ct_conversation_id = ''c'', ct_workload = ''explore'', ct_is_new = False, ct_prior_turns = [],
     ct_ephemeral = False, ct_pending_digest = PNone, ct_omit_user_turn = False\<rparr>"

definition demo_handoff :: pydict where
  "demo_handoff = [(''from'', PStr ''explore''), (''to'', PStr ''drift''), (''reason'', PStr ''look''), (''brief'', PStr [])]"

definition demo_pending :: pydict where
  "demo_pending = demo_handoff @ [(''nonce_digest'', PStr ''n''), (''created_at'', PTime 0), (''expires_at'', PTime 900000000)]"

definition demo_redeem :: redeem_args where
  "demo_redeem = \<lparr>ra_nonce = ''n'', ra_accept = True, ra_now = 5, ra_trace_id = PNone, ra_run_id = Some ''r'', ra_ttl = CHAT_RUN_LEASE_TTL_S\<rparr>"

lemma demo_handoff_window: "add_minutes 0 15 = Inr 900000000"
  by (simp add: add_minutes_def max_day_def usec_per_day_def)

lemma demo_valid: "validate_handoff_proposal (PStr ''drift'') (PStr ''look'') PNone ''explore'' = Inr demo_handoff"
  by code_simp

lemma demo_offer:
  "\<exists>st1. persist_chat_turn (\<lambda>s. s) ''n'' 0 0 demo_turn ''hi'' PNone [(''handoff'', PDict demo_handoff)] demo_conversations =
     (Some (Some demo_pending), st1)"
proof -
  have m: "mint_handoff_for_turn (\<lambda>s. s) ''n'' 0 ''explore'' [(''handoff'', PDict demo_handoff)] = Inr (Some demo_pending)"
    using demo_handoff_window by (simp add: mint_handoff_for_turn_def demo_handoff_def demo_pending_def build_pending_handoff_def dindex_def
        HANDOFF_TTL_MINUTES_def)
  obtain r st1 where a: "append_turns 0 ''c'' (persist_args demo_turn ''hi'' PNone [(''handoff'', PDict demo_handoff)] (Some demo_pending))
      demo_conversations = (r, st1)" by force
  then have "r \<noteq> Inl e" for e
    by (auto simp: append_turns_def demo_conversations_def persist_args_def demo_turn_def turn_pair_def numbered_def
        turn_row_def dindex_def demo_handoff_def)
  then obtain ids where "r = Inr ids" by (cases r) auto
  with a m show ?thesis by (simp add: persist_chat_turn_def) (simp add: demo_turn_def)
qed

theorem offered_handoff_redeemable_witness:
  "\<exists>st st1 q st3 c3. persist_chat_turn (\<lambda>s. s) ''n'' 0 0 demo_turn ''hi'' PNone [(''handoff'', PDict demo_handoff)] demo_conversations = (st, st1) \<and>
     redeem_handoff (\<lambda>s. s) 7 ''c'' demo_redeem st1 = (Inr (Redeemed q True (Some ''r'')), st3) \<and>
     cs_docs st3 ''c'' = Some c3 \<and> cv_workload c3 = PStr ''drift'' \<and>
     filter (redeems ''c'' ''n'') (fst (run_ops (\<lambda>s. s) [(''c'', 8, Redeem demo_redeem)] st3)) = []"
proof -
  obtain st1 where p: "persist_chat_turn (\<lambda>s. s) ''n'' 0 0 demo_turn ''hi'' PNone [(''handoff'', PDict demo_handoff)] demo_conversations =
     (Some (Some demo_pending), st1)" using demo_offer by blast
  then have free: "cs_docs st1 ''c'' = Some c \<Longrightarrow> lease_is_free (cv_lease c) t" for c t
    by (auto simp: persist_chat_turn_def demo_turn_def demo_conversations_def demo_conversation_def lease_is_free_def
        split: prod.splits sum.splits elim!: append_cases)
  have "\<exists>q st3 c3. Some demo_pending = Some q \<and>
    redeem_handoff (\<lambda>s. s) 7 ''c'' demo_redeem st1 = (Inr (Redeemed q True (ra_run_id demo_redeem)), st3) \<and>
    cs_docs st3 ''c'' = Some c3 \<and> cv_workload c3 = PStr ''drift'' \<and>
    (\<forall>later. list_all (\<lambda>call. \<not> proposes ''c'' ''n'' call) later \<longrightarrow>
       filter (redeems ''c'' ''n'') (fst (run_ops (\<lambda>s. s) later st3)) = [])"
    by (rule offered_handoff_redeemable [where c = demo_conversation and between = "[]", OF _ _ _ _ _ _ _ demo_valid p _ _ _ demo_handoff_window])
      (simp_all add: demo_conversations_def demo_conversation_def demo_turn_def demo_redeem_def is_ascii_def free)
  then obtain q st3 c3 where r: "redeem_handoff (\<lambda>s. s) 7 ''c'' demo_redeem st1 = (Inr (Redeemed q True (ra_run_id demo_redeem)), st3)"
    "cs_docs st3 ''c'' = Some c3" "cv_workload c3 = PStr ''drift''"
    "\<forall>later. list_all (\<lambda>call. \<not> proposes ''c'' ''n'' call) later \<longrightarrow> filter (redeems ''c'' ''n'') (fst (run_ops (\<lambda>s. s) later st3)) = []"
    by blast
  moreover have "ra_run_id demo_redeem = Some ''r''" by (simp add: demo_redeem_def)
  moreover have "list_all (\<lambda>call. \<not> proposes ''c'' ''n'' call) [(''c'', 8, Redeem demo_redeem)]" by simp
  ultimately show ?thesis using p by metis
qed

definition demo_open :: conversations where
  "demo_open = \<lparr>cs_docs = [''c'' \<mapsto> demo_conversation\<lparr>cv_pending := Some demo_pending\<rparr>], cs_turns = (\<lambda>_. [])\<rparr>"

lemma demo_redeemed:
  "\<exists>st' c'. apply_op (\<lambda>s. s) (''c'', 7, Redeem demo_redeem) demo_open = (Redemption (Inr (Redeemed demo_pending True (Some ''r''))), st') \<and>
     cs_docs st' ''c'' = Some c' \<and> cv_workload c' = PStr ''drift''"
  by (simp add: demo_open_def demo_conversation_def demo_redeem_def demo_pending_def demo_handoff_def redeem_handoff_def
      evaluate_handoff_redemption_def verify_handoff_nonce_def compare_digest_def is_ascii_def is_handoff_expired_def
      lease_is_free_def handoff_transition_turn_def dindex_def redeemed_doc_def Let_def)

theorem crew_changes_only_by_handoff_witness:
  "\<exists>t. dget demo_pending ''expires_at'' = PTime t \<and> ra_now demo_redeem < t"
proof -
  obtain st' c' where r: "apply_op (\<lambda>s. s) (''c'', 7, Redeem demo_redeem) demo_open = (Redemption (Inr (Redeemed demo_pending True (Some ''r''))), st')"
    "cs_docs st' ''c'' = Some c'" "cv_workload c' = PStr ''drift''" using demo_redeemed by blast
  have old: "cs_docs demo_open ''c'' = Some (demo_conversation\<lparr>cv_pending := Some demo_pending\<rparr>)" by (simp add: demo_open_def)
  have "cv_workload c' \<noteq> cv_workload (demo_conversation\<lparr>cv_pending := Some demo_pending\<rparr>)" using r(3) by (simp add: demo_conversation_def)
  from crew_changes_only_by_handoff [OF r(1) old r(2) this] show ?thesis by auto
qed

definition demo_held :: conversations where
  "demo_held = \<lparr>cs_docs = [''c'' \<mapsto> demo_conversation\<lparr>cv_lease := Some (new_lease ''r'' 0 CHAT_RUN_LEASE_TTL_S)\<rparr>], cs_turns = (\<lambda>_. [])\<rparr>"

theorem lease_excludes_others_witness:
  "\<exists>st' c'. apply_op (\<lambda>s. s) (''c'', 7, Begin ''other'' 9 330) demo_held = (Begun False, st') \<and> cs_docs st' ''c'' = Some c' \<and>
     cv_lease c' = Some (new_lease ''r'' 0 330)"
proof -
  obtain ans st' where b: "apply_op (\<lambda>s. s) (''c'', 7, Begin ''other'' 9 330) demo_held = (ans, st')" by force
  then obtain x where x: "ans = Begun x" by (auto split: prod.splits)
  have "\<exists>c'. cs_docs st' ''c'' = Some c' \<and> cv_lease c' = cv_lease (demo_conversation\<lparr>cv_lease := Some (new_lease ''r'' 0 330)\<rparr>) \<and>
      cv_workload c' = cv_workload (demo_conversation\<lparr>cv_lease := Some (new_lease ''r'' 0 330)\<rparr>) \<and>
      (''c'' = ''c'' \<longrightarrow> ans \<noteq> Begun True \<and> (\<forall>p b i. ans \<noteq> Redemption (Inr (Redeemed p b i))))"
    by (rule lease_excludes_others [OF b, where run_id = "''r''" and begun = 0 and ttl = 330])
      (simp_all add: demo_held_def CHAT_RUN_LEASE_TTL_S_def)
  with b x show ?thesis by auto
qed

end
