(* ===== verification/MemoryStore.thy ===== *)
theory MemoryStore
  imports ConversationSystem
begin

text \<open>
  The in-memory store of conversations (\<open>agent/state_store.py\<close>, \<open>InMemoryStateStore\<close>), which every
  test runs against, and the proof that it simulates the Firestore store: on the calls the coordinator
  makes both give the same answers and keep the same conversations, but for the last trace id of a
  redeemed handoff.  Its operations write step by step under a lock, so one that raises keeps what it
  wrote before.
\<close>

record mem_store =
  ms_docs :: "string \<Rightarrow> conversation option"
  ms_turns :: "string \<Rightarrow> pydict list"

section \<open>Operations\<close>

definition mem_create_conversation :: "instant \<Rightarrow> string \<Rightarrow> string \<times> string \<Rightarrow> mem_store \<Rightarrow> mem_store" where
  "mem_create_conversation srv cid create_with st = st\<lparr>ms_docs := (ms_docs st)(cid \<mapsto> fresh_conversation srv create_with)\<rparr>"

fun mem_rows :: "instant \<Rightarrow> int \<Rightarrow> pydict list \<Rightarrow> pydict list \<Rightarrow> pyexc option \<times> pydict list" where
  "mem_rows srv seq [] rows = (None, rows)"
| "mem_rows srv seq (t # ts) rows =
     (case turn_row srv seq t of
        Inl e \<Rightarrow> (Some e, rows)
      | Inr row \<Rightarrow> mem_rows srv (seq + 1) ts (rows @ [row]))"

definition mem_append_turns :: "instant \<Rightarrow> string \<Rightarrow> append_args \<Rightarrow> mem_store \<Rightarrow> (pyexc, int list) res \<times> mem_store" where
  "mem_append_turns srv cid a st =
     (let st1 = (case (ms_docs st cid, ap_create_with a) of
            (None, Some cw) \<Rightarrow> mem_create_conversation srv cid cw st | _ \<Rightarrow> st)
      in case ms_docs st1 cid of
           None \<Rightarrow> (Inl (KeyError cid), st)
         | Some c \<Rightarrow>
             (case mem_rows srv (cv_turn_count c) (ap_turns a) (ms_turns st1 cid) of
                (Some e, rows) \<Rightarrow> (Inl e, st1\<lparr>ms_turns := (ms_turns st1)(cid := rows)\<rparr>)
              | (None, rows) \<Rightarrow>
                  (Inr (map (\<lambda>i. cv_turn_count c + int i) [0..<length (ap_turns a)]),
                   \<lparr>ms_docs = (ms_docs st1)(cid \<mapsto>
                      c\<lparr>cv_turn_count := cv_turn_count c + int (length (ap_turns a)),
                        cv_user_turns := PInt (conversation_user_turns c + count_user_turns (ap_turns a)),
                        cv_updated_at := srv, cv_last_trace_id := last_trace (cv_last_trace_id c) (ap_turns a),
                        cv_pending := (if \<not> may_touch_pending_handoff c (ap_expect_workload a) (ap_expect_digest a)
                                       then cv_pending c
                                       else if ap_pending_handoff a \<noteq> None then ap_pending_handoff a
                                       else if ap_clear_pending a then None else cv_pending c)\<rparr>),
                    ms_turns = (ms_turns st1)(cid := rows)\<rparr>)))"

definition mem_begin_chat_run :: "string \<Rightarrow> string \<Rightarrow> instant \<Rightarrow> nat \<Rightarrow> mem_store \<Rightarrow> bool \<times> mem_store" where
  "mem_begin_chat_run cid run_id now ttl st =
     (case ms_docs st cid of
        None \<Rightarrow> (True, st)
      | Some c \<Rightarrow>
          if \<not> lease_is_free (cv_lease c) now then (False, st)
          else (True, st\<lparr>ms_docs := (ms_docs st)(cid \<mapsto> c\<lparr>cv_lease := Some (new_lease run_id now ttl)\<rparr>)\<rparr>))"

definition mem_finish_chat_run :: "string \<Rightarrow> string \<Rightarrow> mem_store \<Rightarrow> mem_store" where
  "mem_finish_chat_run cid run_id st =
     (case ms_docs st cid of
        None \<Rightarrow> st
      | Some c \<Rightarrow> if holds_lease run_id c then st\<lparr>ms_docs := (ms_docs st)(cid \<mapsto> c\<lparr>cv_lease := None\<rparr>)\<rparr> else st)"

definition transition_args :: "pydict \<Rightarrow> append_args" where
  "transition_args turn = \<lparr>ap_turns = [turn], ap_create_with = None, ap_pending_handoff = None, ap_clear_pending = False,
     ap_expect_workload = None, ap_expect_digest = None\<rparr>"

definition moved_doc :: "redeem_args \<Rightarrow> pyval \<Rightarrow> conversation \<Rightarrow> conversation" where
  "moved_doc r to c =
     c\<lparr>cv_crews := with_crew c to, cv_workload := to,
       cv_lease := (case ra_run_id r of
          Some (x # xs) \<Rightarrow> Some (new_lease (x # xs) (ra_now r) (ra_ttl r)) | _ \<Rightarrow> cv_lease c)\<rparr>"

definition mem_redeem_handoff ::
  "(string \<Rightarrow> string) \<Rightarrow> instant \<Rightarrow> string \<Rightarrow> redeem_args \<Rightarrow> mem_store \<Rightarrow> (pyexc, redemption) res \<times> mem_store" where
  "mem_redeem_handoff sha srv cid r st =
     (case evaluate_handoff_redemption sha (ms_docs st cid) (ra_nonce r) (ra_now r) of
        Inl e \<Rightarrow> (Inl e, st)
      | Inr (Refuse why) \<Rightarrow> (Inr (Refused_handoff why), st)
      | Inr (Proceed p) \<Rightarrow>
          (case ms_docs st cid of
             None \<Rightarrow> (Inr (Refused_handoff ''not_found''), st)
           | Some c \<Rightarrow>
               let keep = (\<lambda>c'. st\<lparr>ms_docs := (ms_docs st)(cid \<mapsto> c')\<rparr>); burnt = c\<lparr>cv_pending := None\<rparr> in
               (case (if ra_accept r then rbind (dindex p ''to'') (\<lambda>to. Inr (moved_doc r to burnt)) else Inr burnt) of
                  Inl e \<Rightarrow> (Inl e, keep burnt)
                | Inr moved \<Rightarrow>
                    (case handoff_transition_turn p (ra_accept r) (ra_trace_id r) of
                       Inl e \<Rightarrow> (Inl e, keep moved)
                     | Inr turn \<Rightarrow>
                         (case mem_append_turns srv cid (transition_args turn) (keep moved) of
                            (Inl e, st') \<Rightarrow> (Inl e, st')
                          | (Inr _, st') \<Rightarrow>
                              (Inr (Redeemed p (ra_accept r) (if ra_accept r then ra_run_id r else None)), st'))))))"

fun mem_op :: "(string \<Rightarrow> string) \<Rightarrow> conv_call \<Rightarrow> mem_store \<Rightarrow> op_answer \<times> mem_store" where
  "mem_op sha (cid, srv, Append a) st = (case mem_append_turns srv cid a st of (r, st') \<Rightarrow> (Appended r, st'))"
| "mem_op sha (cid, srv, Begin run_id now ttl) st = (case mem_begin_chat_run cid run_id now ttl st of (b, st') \<Rightarrow> (Begun b, st'))"
| "mem_op sha (cid, srv, Finish run_id) st = (Finished, mem_finish_chat_run cid run_id st)"
| "mem_op sha (cid, srv, Redeem r) st = (case mem_redeem_handoff sha srv cid r st of (x, st') \<Rightarrow> (Redemption x, st'))"

fun mem_ops :: "(string \<Rightarrow> string) \<Rightarrow> conv_call list \<Rightarrow> mem_store \<Rightarrow> op_answer list \<times> mem_store" where
  "mem_ops sha [] st = ([], st)"
| "mem_ops sha (x # xs) st = (let (ans, st') = mem_op sha x st; (h, st'') = mem_ops sha xs st' in (ans # h, st''))"

definition empty_memory :: mem_store where
  "empty_memory = \<lparr>ms_docs = Map.empty, ms_turns = (\<lambda>_. [])\<rparr>"

section \<open>The simulation\<close>

text \<open>The calls the coordinator makes: rows name a role and a crew, a proposal names both crews, and a
  conversation is created by its own first turn.\<close>

fun coordinator_call :: "conv_call \<Rightarrow> bool" where
  "coordinator_call (cid, srv, Append a) =
     (list_all (\<lambda>t. map_of t ''role'' \<noteq> None \<and> map_of t ''workload'' \<noteq> None) (ap_turns a) \<and>
      (case ap_pending_handoff a of None \<Rightarrow> True | Some p \<Rightarrow> map_of p ''from'' \<noteq> None \<and> map_of p ''to'' \<noteq> None) \<and>
      (case ap_create_with a of
         None \<Rightarrow> True
       | Some cw \<Rightarrow> (ap_expect_workload a = None \<or> ap_expect_workload a = Some (fst cw)) \<and>
           (ap_expect_digest a = None \<or> ap_expect_digest a = Some PNone)))"
| "coordinator_call _ = True"

definition no_trace :: "conversation \<Rightarrow> conversation" where
  "no_trace c = c\<lparr>cv_last_trace_id := PNone\<rparr>"

definition same_row :: "pydict \<Rightarrow> int \<times> pydict \<Rightarrow> bool" where
  "same_row a ib \<longleftrightarrow> map_of a = map_of (snd ib)"

definition simulates :: "mem_store \<Rightarrow> conversations \<Rightarrow> bool" where
  "simulates ms fs \<longleftrightarrow>
     (\<forall>cid. map_option no_trace (ms_docs ms cid) = map_option no_trace (cs_docs fs cid) \<and>
        list_all2 same_row (ms_turns ms cid) (cs_turns fs cid))"

lemma no_traceE:
  assumes "no_trace c = no_trace d" obtains t where "d = c\<lparr>cv_last_trace_id := t\<rparr>"
  using assms by (cases c; cases d) (auto simp: no_trace_def)

lemma no_trace_update [simp]: "no_trace (c\<lparr>cv_last_trace_id := t\<rparr>) = no_trace c"
  by (simp add: no_trace_def)

lemma numbered_simps: "numbered n [] = []" "numbered n (t # ts) = (n, t) # numbered (n + 1) ts"
proof -
  have "map (\<lambda>i. n + int i) [0..<Suc k] = n # map (\<lambda>i. n + 1 + int i) [0..<k]" for k
    by (induction k) simp_all
  then show "numbered n (t # ts) = (n, t) # numbered (n + 1) ts" unfolding numbered_def by simp
qed (simp add: numbered_def)

abbreviation "built_rows srv \<equiv> traverse (\<lambda>(seq, t). rbind (turn_row srv seq t) (\<lambda>row. Inr (seq, row)))"

lemma rows_total:
  "list_all (\<lambda>t. map_of t ''role'' \<noteq> None \<and> map_of t ''workload'' \<noteq> None) ts \<Longrightarrow> \<exists>rows. built_rows srv (numbered n ts) = Inr rows"
proof (induction ts arbitrary: n)
  case (Cons t ts)
  from Cons.prems have "\<exists>row. turn_row srv n t = Inr row" by (auto simp: turn_row_def dindex_def)
  with Cons.IH [of "n + 1"] Cons.prems show ?case by (auto simp: numbered_simps)
qed (simp add: numbered_simps)

lemma mem_rows_built:
  "built_rows srv (numbered n ts) = Inr rows \<Longrightarrow> mem_rows srv n ts acc = (None, acc @ map snd rows)"
proof (induction ts arbitrary: n rows acc)
  case (Cons t ts)
  then obtain row rest where "turn_row srv n t = Inr row" "built_rows srv (numbered (n + 1) ts) = Inr rest" "rows = (n, row) # rest"
    by (auto simp: numbered_simps result_simps)
  with Cons.IH [of "n + 1" rest "acc @ [row]"] show ?case by simp
qed (simp add: numbered_simps)

lemma same_rows_append: "list_all2 same_row xs ys \<Longrightarrow> list_all2 same_row (xs @ map snd rows) (ys @ rows)"
  by (intro list_all2_appendI) (simp_all add: list_all2_map1 same_row_def list.rel_refl)

lemma transition_row:
  assumes "handoff_transition_turn p b tr = Inr turn"
  shows "\<exists>row. turn_row srv n turn = Inr row \<and>
      map_of row = map_of (dput (dput turn ''seq'' (PInt n)) ''created_at'' (PTime srv)) \<and> count_user_turns [turn] = 0"
proof -
  from assms obtain w f t where turn: "turn =
      [(''role'', PStr (if b then ''crew_change'' else ''handoff_declined'')),
          (''text'', py_or (dget p ''reason'') (PStr [])), (''workload'', w), (''trace_id'', tr),
          (''handoff'', PDict [(''from'', f), (''to'', t)])]"
    by (auto simp: handoff_transition_turn_def result_simps)
  have "py_or (py_or v w) w = py_or v w" for v w by (simp add: py_or_def)
  then show ?thesis
    by (auto simp: turn turn_row_def dindex_def optional_field_def count_user_turns_def fun_eq_iff)
qed

lemma simulates_update:
  assumes "simulates ms fs" and "no_trace c = no_trace d" and "list_all2 same_row xs ys"
  shows "simulates \<lparr>ms_docs = (ms_docs ms)(cid \<mapsto> c), ms_turns = (ms_turns ms)(cid := xs)\<rparr>
    \<lparr>cs_docs = (cs_docs fs)(cid \<mapsto> d), cs_turns = (cs_turns fs)(cid := ys)\<rparr>"
  using assms by (simp add: simulates_def)

lemma simulates_doc:
  assumes "simulates ms fs" and "no_trace c = no_trace d"
  shows "simulates (ms\<lparr>ms_docs := (ms_docs ms)(cid \<mapsto> c)\<rparr>) (fs\<lparr>cs_docs := (cs_docs fs)(cid \<mapsto> d)\<rparr>)"
  using assms by (simp add: simulates_def)

lemma simulated_docs:
  assumes "simulates ms fs"
  shows "cs_docs fs cid = None \<longleftrightarrow> ms_docs ms cid = None"
    and "cs_docs fs cid = Some d \<Longrightarrow> \<exists>c t. ms_docs ms cid = Some c \<and> d = c\<lparr>cv_last_trace_id := t\<rparr>"
proof -
  from assms have e: "map_option no_trace (ms_docs ms cid) = map_option no_trace (cs_docs fs cid)" by (simp add: simulates_def)
  then show "cs_docs fs cid = None \<longleftrightarrow> ms_docs ms cid = None" by (cases "ms_docs ms cid"; cases "cs_docs fs cid") auto
  assume "cs_docs fs cid = Some d"
  with e obtain c where "ms_docs ms cid = Some c" "no_trace c = no_trace d" by (cases "ms_docs ms cid") auto
  then show "\<exists>c t. ms_docs ms cid = Some c \<and> d = c\<lparr>cv_last_trace_id := t\<rparr>" by (auto elim: no_traceE)
qed

lemma user_turns_trace [simp]: "conversation_user_turns (c\<lparr>cv_last_trace_id := t\<rparr>) = conversation_user_turns c"
  by (simp add: conversation_user_turns_def)

lemma may_touch_trace [simp]: "may_touch_pending_handoff (c\<lparr>cv_last_trace_id := t\<rparr>) w d = may_touch_pending_handoff c w d"
  by (cases w; cases d) (simp_all add: may_touch_pending_handoff_def)

lemma append_row_numbers:
  "built_rows srv (numbered n ts) = Inr rows \<Longrightarrow> map fst rows = map (\<lambda>i. n + int i) [0..<length ts]"
  using rows_built [of srv "numbered n ts" rows] by (simp add: numbered_fst)

lemma rows_written:
  assumes "well_numbered fs cid" and "n = (case cs_docs fs cid of None \<Rightarrow> 0 | Some c \<Rightarrow> cv_turn_count c)"
    and "map fst rows = map (\<lambda>i. n + int i) [0..<k]"
  shows "write_rows rows (cs_turns fs cid) = cs_turns fs cid @ rows"
proof (rule counted_rows(1) [OF _ _ assms(3)])
  show "0 \<le> n" "map fst (cs_turns fs cid) = map int [0..<nat n]"
    using assms(1,2) by (cases "cs_docs fs cid"; simp add: well_numbered_def)+
qed

lemma append_simulated:
  assumes sim: "simulates ms fs" and "well_numbered fs cid" and ok: "coordinator_call (cid, srv, Append a)"
  shows "\<exists>r ms' fs'. mem_append_turns srv cid a ms = (r, ms') \<and> append_turns srv cid a fs = (r, fs') \<and> simulates ms' fs'"
proof -
  obtain rows where rows: "built_rows srv (numbered n (ap_turns a)) = Inr (rows n)" for n
    using rows_total [of "ap_turns a" srv] ok by (simp add: choice_iff) metis
  note ids = append_row_numbers [OF rows]
  note turns = sim [unfolded simulates_def, rule_format, of cid, THEN conjunct2]
  show ?thesis
  proof (cases "cs_docs fs cid")
    case (Some d)
    then obtain c t where c: "ms_docs ms cid = Some c" "d = c\<lparr>cv_last_trace_id := t\<rparr>"
      using simulated_docs(2) [OF sim] by blast
    let ?n = "cv_turn_count c"
    have w: "write_rows (rows ?n) (cs_turns fs cid) = cs_turns fs cid @ rows ?n"
      by (rule rows_written [OF assms(2) _ ids]) (simp add: Some c(2))
    have m: "mem_rows srv ?n (ap_turns a) (ms_turns ms cid) = (None, ms_turns ms cid @ map snd (rows ?n))"
      by (rule mem_rows_built [OF rows])
    show ?thesis
      unfolding mem_append_turns_def append_turns_def Let_def Some option.case prod.case
      using c m w rows ids simulates_update [OF sim _ same_rows_append [OF turns]]
      by (auto simp: update_pending_def no_trace_def split: option.split)
  next
    case None
    then have n: "ms_docs ms cid = None" using simulated_docs(1) [OF sim] by blast
    show ?thesis
    proof (cases "ap_create_with a")
      case None
      with n \<open>cs_docs fs cid = None\<close> sim show ?thesis by (simp add: mem_append_turns_def append_turns_def)
    next
      case (Some cw)
      let ?c = "fresh_conversation srv cw"
      have w: "write_rows (rows 0) (cs_turns fs cid) = cs_turns fs cid @ rows 0"
        by (rule rows_written [OF assms(2) _ ids]) (simp add: None)
      have m: "mem_rows srv 0 (ap_turns a) (ms_turns ms cid) = (None, ms_turns ms cid @ map snd (rows 0))"
        by (rule mem_rows_built [OF rows])
      have t: "may_touch_pending_handoff ?c (ap_expect_workload a) (ap_expect_digest a)"
        using ok Some by (auto simp: may_touch_pending_handoff_def fresh_conversation_def)
      have z: "cv_turn_count ?c = 0" "cv_pending ?c = None" by (simp_all add: fresh_conversation_def)
      show ?thesis
        using n None Some m w rows [of 0] ids [of 0] t z simulates_update [OF sim _ same_rows_append [OF turns]]
        by (auto simp: mem_append_turns_def append_turns_def mem_create_conversation_def update_pending_def)
    qed
  qed
qed

text \<open>A proposal of the coordinator names both crews, so its redemption has all it reads.\<close>

definition pending_ok :: "conversations \<Rightarrow> string \<Rightarrow> bool" where
  "pending_ok fs cid \<longleftrightarrow>
     (\<forall>c p. cs_docs fs cid = Some c \<longrightarrow> cv_pending c = Some p \<longrightarrow> map_of p ''from'' \<noteq> None \<and> map_of p ''to'' \<noteq> None)"

lemma pending_ok_from:
  assumes "pending_ok fs cid" and "\<And>c. cs_docs fs' cid = Some c \<Longrightarrow>
    cv_pending c = None \<or> (\<exists>d. cs_docs fs cid = Some d \<and> cv_pending c = cv_pending d)"
  shows "pending_ok fs' cid"
  using assms unfolding pending_ok_def by (metis option.distinct(1))

lemma pending_ok_step:
  assumes "coordinator_call (cid, srv, op)" and "apply_op sha (cid, srv, op) fs = (ans, fs')" and "\<forall>k. pending_ok fs k"
  shows "pending_ok fs' k"
proof (cases "k = cid")
  case False
  with op_other_doc [OF assms(2) False] assms(3) show ?thesis by (simp add: pending_ok_def)
next
  case True
  note old = assms(3) [rule_format, of cid]
  have lease: "pending_ok fs' cid"
    if "map_option (\<lambda>c. c\<lparr>cv_lease := None\<rparr>) (cs_docs fs' cid) = map_option (\<lambda>c. c\<lparr>cv_lease := None\<rparr>) (cs_docs fs cid)"
    by (rule pending_ok_from [OF old]) (use same_but_lease(2) [OF that] in blast)
  show ?thesis unfolding True
  proof (cases op)
    case (Append a)
    then obtain r where "append_turns srv cid a fs = (r, fs')" using assms(2) by (auto split: prod.splits)
    then show "pending_ok fs' cid"
    proof (cases rule: append_cases)
      case failed
      with old show ?thesis by simp
    next
      case (appended rows c b m)
      with old assms(1) Append show ?thesis
        by (auto simp: pending_ok_def update_pending_def fresh_conversation_def split: option.splits)
    qed
  next
    case (Begin run_id now ttl)
    with assms(2) obtain b where "begin_chat_run cid run_id now ttl fs = (b, fs')" by (auto split: prod.splits)
    from lease_ops_keep(1) [OF this] lease show "pending_ok fs' cid" by blast
  next
    case (Finish run_id)
    with assms(2) lease_ops_keep(2) [of cid run_id fs] lease show "pending_ok fs' cid" by auto
  next
    case (Redeem r)
    then obtain x where "redeem_handoff sha srv cid r fs = (x, fs')" using assms(2) by (auto split: prod.splits)
    then show "pending_ok fs' cid"
    proof (cases rule: redeem_cases)
      case refused
      with old show ?thesis by simp
    next
      case (redeemed c p turn)
      then show ?thesis by (auto simp: pending_ok_def redeemed_doc_def Let_def)
    qed
  qed
qed

lemma lease_trace [simp]: "cv_lease (c\<lparr>cv_last_trace_id := t\<rparr>) = cv_lease c" "holds_lease r (c\<lparr>cv_last_trace_id := t\<rparr>) = holds_lease r c"
  by (simp_all add: holds_lease_def)

lemma begin_simulated:
  assumes "simulates ms fs"
  shows "\<exists>b ms' fs'. mem_begin_chat_run cid run_id now ttl ms = (b, ms') \<and> begin_chat_run cid run_id now ttl fs = (b, fs') \<and> simulates ms' fs'"
proof (cases "cs_docs fs cid")
  case None
  then have "ms_docs ms cid = None" using simulated_docs(1) [OF assms] by blast
  with None assms show ?thesis by (auto simp: mem_begin_chat_run_def begin_chat_run_def)
next
  case (Some d)
  with simulated_docs(2) [OF assms] obtain c t where c: "ms_docs ms cid = Some c" "d = c\<lparr>cv_last_trace_id := t\<rparr>" by blast
  show ?thesis
  proof (cases "lease_is_free (cv_lease c) now")
    case True
    have "no_trace (c\<lparr>cv_lease := l\<rparr>) = no_trace (d\<lparr>cv_lease := l\<rparr>)" for l by (simp add: no_trace_def c(2))
    from simulates_doc [OF assms this] Some c True show ?thesis by (auto simp: mem_begin_chat_run_def begin_chat_run_def)
  next
    case False
    with Some c assms show ?thesis by (auto simp: mem_begin_chat_run_def begin_chat_run_def)
  qed
qed

lemma finish_simulated:
  assumes "simulates ms fs"
  shows "simulates (mem_finish_chat_run cid run_id ms) (finish_chat_run cid run_id fs)"
proof (cases "cs_docs fs cid")
  case None
  with simulated_docs(1) [OF assms, of cid] assms show ?thesis by (simp add: mem_finish_chat_run_def finish_chat_run_def)
next
  case (Some d)
  with simulated_docs(2) [OF assms] obtain c t where c: "ms_docs ms cid = Some c" "d = c\<lparr>cv_last_trace_id := t\<rparr>" by blast
  have "no_trace (c\<lparr>cv_lease := None\<rparr>) = no_trace (d\<lparr>cv_lease := None\<rparr>)" by (simp add: no_trace_def c(2))
  from simulates_doc [OF assms this] Some c assms show ?thesis by (simp add: mem_finish_chat_run_def finish_chat_run_def)
qed

lemma evaluate_trace: "evaluate_handoff_redemption sha (Some (c\<lparr>cv_last_trace_id := t\<rparr>)) n now = evaluate_handoff_redemption sha (Some c) n now"
  by (cases "cv_pending c") (simp_all add: evaluate_handoff_redemption_def)

lemma with_crew_fields [simp]: "with_crew (c\<lparr>cv_last_trace_id := t\<rparr>) = with_crew c" "with_crew (c\<lparr>cv_pending := p\<rparr>) = with_crew c"
  by (simp_all add: with_crew_def conversation_crews_def fun_eq_iff)

lemma moved_same:
  assumes "conversation_user_turns c = n"
  shows "no_trace ((if ra_accept r then moved_doc r to (c\<lparr>cv_pending := None\<rparr>) else c\<lparr>cv_pending := None\<rparr>)
      \<lparr>cv_turn_count := cv_turn_count c + 1, cv_user_turns := PInt n, cv_updated_at := srv, cv_last_trace_id := u, cv_pending := None\<rparr>) =
    no_trace (redeemed_doc srv r p to (c\<lparr>cv_last_trace_id := t\<rparr>))"
  using assms by (auto simp: no_trace_def redeemed_doc_def moved_doc_def Let_def split: option.split list.split)

lemma redeem_simulated:
  assumes sim: "simulates ms fs" and num: "well_numbered fs cid" and pend: "pending_ok fs cid"
  shows "\<exists>x ms' fs'. mem_redeem_handoff sha srv cid r ms = (x, ms') \<and> redeem_handoff sha srv cid r fs = (x, fs') \<and> simulates ms' fs'"
proof (cases "cs_docs fs cid")
  case None
  with simulated_docs(1) [OF sim, of cid] sim show ?thesis
    by (simp add: mem_redeem_handoff_def redeem_handoff_def evaluate_handoff_redemption_def)
next
  case (Some d)
  with simulated_docs(2) [OF sim] obtain c t where c: "ms_docs ms cid = Some c" "d = c\<lparr>cv_last_trace_id := t\<rparr>" by blast
  note turns = sim [unfolded simulates_def, rule_format, of cid, THEN conjunct2]
  have ev: "evaluate_handoff_redemption sha (cs_docs fs cid) (ra_nonce r) (ra_now r) = evaluate_handoff_redemption sha (Some c) (ra_nonce r) (ra_now r)"
    by (simp add: Some c(2) evaluate_trace)
  show ?thesis
  proof (cases "evaluate_handoff_redemption sha (Some c) (ra_nonce r) (ra_now r)")
    case (Inl e)
    with sim c ev show ?thesis by (simp add: mem_redeem_handoff_def redeem_handoff_def)
  next
    case (Inr v)
    show ?thesis
    proof (cases v)
      case (Refuse why)
      with sim c ev Inr show ?thesis by (simp add: mem_redeem_handoff_def redeem_handoff_def)
    next
      case (Proceed p)
      with Inr have "cv_pending c = Some p"
        by (auto simp: evaluate_handoff_redemption_def result_simps split: option.splits if_splits)
      with pend Some c(2) obtain f to where ft: "map_of p ''from'' = Some f" "map_of p ''to'' = Some to" by (auto simp: pending_ok_def)
      then obtain turn where turn: "handoff_transition_turn p (ra_accept r) (ra_trace_id r) = Inr turn"
        by (cases "ra_accept r") (auto simp: handoff_transition_turn_def dindex_def)
      let ?n = "cv_turn_count c" and ?burnt = "c\<lparr>cv_pending := None\<rparr>"
      let ?moved = "if ra_accept r then moved_doc r to ?burnt else ?burnt"
      let ?row = "dput (dput turn ''seq'' (PInt ?n)) ''created_at'' (PTime srv)"
      let ?new = "?moved\<lparr>cv_turn_count := ?n + 1, cv_user_turns := PInt (conversation_user_turns ?moved), cv_updated_at := srv,
         cv_last_trace_id := last_trace (cv_last_trace_id ?moved) [turn], cv_pending := None\<rparr>"
      obtain row where row: "turn_row srv ?n turn = Inr row" "map_of row = map_of ?row" "count_user_turns [turn] = 0"
        using transition_row [OF turn, of srv ?n] by blast
      have n: "cv_turn_count ?moved = ?n" "cv_pending ?moved = None" by (simp_all add: moved_doc_def)
      have t: "may_touch_pending_handoff ?moved None None" by (simp add: may_touch_pending_handoff_def)
      have "mem_append_turns srv cid (transition_args turn) (ms\<lparr>ms_docs := (ms_docs ms)(cid \<mapsto> ?moved)\<rparr>) =
        (Inr [?n], \<lparr>ms_docs = (ms_docs ms)(cid \<mapsto> ?new), ms_turns = (ms_turns ms)(cid := ms_turns ms cid @ [row])\<rparr>)"
        using row n t by (simp add: mem_append_turns_def transition_args_def Let_def)
      moreover have "(if ra_accept r then rbind (dindex p ''to'') (\<lambda>to. Inr (moved_doc r to ?burnt)) else Inr ?burnt) = Inr ?moved"
        using ft by (simp add: dindex_def)
      ultimately have m: "mem_redeem_handoff sha srv cid r ms =
        (Inr (Redeemed p (ra_accept r) (if ra_accept r then ra_run_id r else None)),
         \<lparr>ms_docs = (ms_docs ms)(cid \<mapsto> ?new), ms_turns = (ms_turns ms)(cid := ms_turns ms cid @ [row])\<rparr>)"
        unfolding mem_redeem_handoff_def c(1) Inr Proceed sum.case redemption_verdict.case option.case Let_def turn by simp
      have "AList.update ?n ?row (cs_turns fs cid) = cs_turns fs cid @ [(?n, ?row)]"
        using rows_written [OF num, of ?n "[(?n, ?row)]" 1] Some c(2) by (simp add: write_rows_def)
      then have f: "redeem_handoff sha srv cid r fs =
        (Inr (Redeemed p (ra_accept r) (if ra_accept r then ra_run_id r else None)),
         \<lparr>cs_docs = (cs_docs fs)(cid \<mapsto> redeemed_doc srv r p to d), cs_turns = (cs_turns fs)(cid := cs_turns fs cid @ [(?n, ?row)])\<rparr>)"
        using ev Inr Proceed turn Some c(2) ft(2) by (simp add: redeem_handoff_def dget_or_def)
      have "conversation_user_turns ?moved = conversation_user_turns c"
        by (simp add: conversation_user_turns_def moved_doc_def)
      then have "no_trace ?new = no_trace (redeemed_doc srv r p to d)"
        unfolding c(2) by (simp only: moved_same)
      moreover have "list_all2 same_row (ms_turns ms cid @ [row]) (cs_turns fs cid @ [(?n, ?row)])"
        using turns row(2) by (simp add: list_all2_appendI same_row_def)
      ultimately show ?thesis using m f simulates_update [OF sim] by blast
    qed
  qed
qed

lemma call_simulated:
  assumes "simulates ms fs" and "\<forall>k. well_numbered fs k" and "\<forall>k. pending_ok fs k" and "coordinator_call call"
  shows "\<exists>ans ms' fs'. mem_op sha call ms = (ans, ms') \<and> apply_op sha call fs = (ans, fs') \<and> simulates ms' fs'"
proof -
  obtain cid srv op where call: "call = (cid, srv, op)" by (cases call) auto
  show ?thesis
  proof (cases op)
    case (Append a)
    with append_simulated [OF assms(1) assms(2) [rule_format, of cid], of srv a] assms(4) call show ?thesis by fastforce
  next
    case (Begin run_id now ttl)
    with begin_simulated [OF assms(1), of cid run_id now ttl] call show ?thesis by fastforce
  next
    case (Finish run_id)
    with finish_simulated [OF assms(1), of cid run_id] call show ?thesis by simp
  next
    case (Redeem r)
    with redeem_simulated [OF assms(1) assms(2) [rule_format, of cid] assms(3) [rule_format, of cid], of sha srv r] call
    show ?thesis by fastforce
  qed
qed

text \<open>C28: The in-memory store the tests run against refines the Firestore store: on every sequence of calls
  the coordinator makes, from empty stores, both give the same answers one for one, and afterwards
  every conversation has the same document, up to its last trace id, and the same turns in the same
  order with the same fields.\<close>

theorem memory_store_refines:
  assumes "list_all coordinator_call calls"
  shows "fst (mem_ops sha calls empty_memory) = map snd (fst (run_ops sha calls no_conversations)) \<and>
    simulates (snd (mem_ops sha calls empty_memory)) (snd (run_ops sha calls no_conversations))"
proof -
  have "fst (mem_ops sha calls ms) = map snd (fst (run_ops sha calls fs)) \<and> simulates (snd (mem_ops sha calls ms)) (snd (run_ops sha calls fs))"
    if "list_all coordinator_call calls" "simulates ms fs" "\<forall>k. well_numbered fs k" "\<forall>k. pending_ok fs k" for ms fs
    using that
  proof (induction calls arbitrary: ms fs)
    case (Cons call calls)
    then obtain ans ms' fs' where s: "mem_op sha call ms = (ans, ms')" "apply_op sha call fs = (ans, fs')" "simulates ms' fs'"
      using call_simulated [of ms fs call sha] by auto
    obtain cid srv op where call: "call = (cid, srv, op)" by (cases call) auto
    with s(2) Cons.prems have "\<forall>k. well_numbered fs' k" "\<forall>k. pending_ok fs' k"
      using well_numbered_step [of sha cid srv op fs ans fs'] pending_ok_step [of cid srv op sha fs ans fs'] by auto
    with Cons.IH [of ms' fs'] Cons.prems s show ?case by (auto simp: Let_def split: prod.splits)
  qed simp
  moreover have "simulates empty_memory no_conversations" "\<forall>k. well_numbered no_conversations k" "\<forall>k. pending_ok no_conversations k"
    by (simp_all add: simulates_def empty_memory_def no_conversations_def well_numbered_def pending_ok_def)
  ultimately show ?thesis using assms by blast
qed

definition demo_first_turn :: append_args where
  "demo_first_turn = persist_args (demo_turn\<lparr>ct_is_new := True\<rparr>) ''hi'' PNone [(''reply'', PStr ''hello'')] (Some demo_pending)"

definition demo_calls :: "conv_call list" where
  "demo_calls = [(''c'', 0, Append demo_first_turn), (''c'', 1, Begin ''r'' 1 330), (''c'', 2, Finish ''r''), (''c'', 7, Redeem demo_redeem)]"

theorem memory_store_refines_witness:
  "fst (mem_ops (\<lambda>s. s) demo_calls empty_memory) = map snd (fst (run_ops (\<lambda>s. s) demo_calls no_conversations)) \<and>
    simulates (snd (mem_ops (\<lambda>s. s) demo_calls empty_memory)) (snd (run_ops (\<lambda>s. s) demo_calls no_conversations))"
proof (rule memory_store_refines)
  show "list_all coordinator_call demo_calls"
    by (simp add: demo_calls_def demo_first_turn_def persist_args_def turn_pair_def demo_turn_def demo_pending_def demo_handoff_def)
qed

end
