(* ===== verification/TofuGuards.thy ===== *)
theory TofuGuards
  imports PlanClassify PyJson Renderer
begin

text \<open>
  The pure gates of the apply worker (\<open>workers/tofu_apply/tofu_runner.py\<close>): the resource-set guard and the
  fidelity check before any \<open>tofu\<close> run, and the classifier of refresh drift.  Reasons keep their fixed
  words, up to the first dash, and leave the quoted values out.
\<close>

section \<open>Equality of JSON values\<close>

text \<open>Python's \<open>==\<close>: an integer equals the float of the same value, a boolean the integers 0 and 1, dicts
  compare without order.  A float is its \<open>repr\<close>; one of at least ten to the sixteenth, which \<open>repr\<close> prints
  with an exponent, is taken to differ from every integer.\<close>

definition int_is_float :: "int \<Rightarrow> string \<Rightarrow> bool" where
  "int_is_float i r \<longleftrightarrow> r = show_int i @ ''.0'' \<or> i = 0 \<and> r = ''-0.0''"

definition float_eq :: "string \<Rightarrow> string \<Rightarrow> bool" where
  "float_eq r s \<longleftrightarrow> r \<noteq> ''nan'' \<and> (r = s \<or> r \<in> {''0.0'', ''-0.0''} \<and> s \<in> {''0.0'', ''-0.0''})"

definition bool_int :: "bool \<Rightarrow> int" where "bool_int b = (if b then 1 else 0)"

fun py_eq :: "pyval \<Rightarrow> pyval \<Rightarrow> bool"
  and list_eq :: "pyval list \<Rightarrow> pyval list \<Rightarrow> bool"
  and dict_in :: "string list \<Rightarrow> pydict \<Rightarrow> pydict \<Rightarrow> bool" where
  "py_eq PNone w = (w = PNone)"
| "py_eq (PStr s) w = (w = PStr s)"
| "py_eq (PTime t) w = (w = PTime t)"
| "py_eq (PBool b) w = (case w of PBool c \<Rightarrow> b = c | PInt i \<Rightarrow> bool_int b = i | PFloat r \<Rightarrow> int_is_float (bool_int b) r | _ \<Rightarrow> False)"
| "py_eq (PInt i) w = (case w of PBool c \<Rightarrow> i = bool_int c | PInt j \<Rightarrow> i = j | PFloat r \<Rightarrow> int_is_float i r | _ \<Rightarrow> False)"
| "py_eq (PFloat r) w =
     (case w of PBool c \<Rightarrow> int_is_float (bool_int c) r | PInt j \<Rightarrow> int_is_float j r | PFloat s \<Rightarrow> float_eq r s | _ \<Rightarrow> False)"
| "py_eq (PList l) w = (case w of PList m \<Rightarrow> list_eq l m | _ \<Rightarrow> False)"
| "py_eq (PDict d) w = (case w of PDict e \<Rightarrow> set (dkeys d) = set (dkeys e) \<and> dict_in [] d e | _ \<Rightarrow> False)"
| "list_eq [] m = (m = [])"
| "list_eq (x # xs) m = (case m of [] \<Rightarrow> False | y # ys \<Rightarrow> py_eq x y \<and> list_eq xs ys)"
| "dict_in seen [] e = True"
| "dict_in seen ((k, v) # d) e =
     ((k \<in> set seen \<or> (case map_of e k of None \<Rightarrow> False | Some w \<Rightarrow> py_eq v w)) \<and> dict_in (k # seen) d e)"

lemma list_eq_all2: "list_eq l m \<longleftrightarrow> list_all2 py_eq l m"
proof (induction l arbitrary: m)
  case (Cons x l)
  then show ?case by (cases m) auto
qed auto

lemma dict_in_iff: "dict_in seen d e \<longleftrightarrow>
    (\<forall>k v. map_of d k = Some v \<longrightarrow> k \<notin> set seen \<longrightarrow> (\<exists>w. map_of e k = Some w \<and> py_eq v w))"
proof (induction d arbitrary: seen)
  case (Cons kv d)
  obtain k v where "kv = (k, v)" by force
  with Cons.IH [of "k # seen"] show ?case by (auto split: option.splits)
qed simp

lemma py_eq_dict: "py_eq (PDict d) (PDict e) \<longleftrightarrow> (\<forall>k. rel_option py_eq (map_of d k) (map_of e k))"
proof
  assume h: "py_eq (PDict d) (PDict e)"
  show "\<forall>k. rel_option py_eq (map_of d k) (map_of e k)"
  proof
    fix k
    from h have keys: "dom (map_of d) = dom (map_of e)" by (simp add: dom_map_of_conv_image_fst dkeys_def)
    show "rel_option py_eq (map_of d k) (map_of e k)"
    proof (cases "map_of d k")
      case None
      with keys have "map_of e k = None" by blast
      with None show ?thesis by simp
    next
      case (Some v)
      moreover from h have "dict_in [] d e" by simp
      ultimately obtain w where "map_of e k = Some w" "py_eq v w" unfolding dict_in_iff by fastforce
      with Some show ?thesis by simp
    qed
  qed
next
  assume h: "\<forall>k. rel_option py_eq (map_of d k) (map_of e k)"
  then have "map_of d k = None \<longleftrightarrow> map_of e k = None" for k by (metis option.rel_distinct option.exhaust)
  then have "dom (map_of d) = dom (map_of e)" by (simp add: dom_def)
  moreover have "dict_in [] d e" unfolding dict_in_iff using h by (metis option_rel_Some1)
  ultimately show "py_eq (PDict d) (PDict e)" by (simp add: dom_map_of_conv_image_fst dkeys_def)
qed

section \<open>The resource-set guard\<close>

text \<open>\<open>re.sub\<close> of a bracketed suffix; the dollar sign also matches before a final newline.\<close>

fun normalize_address :: "string \<Rightarrow> string" where
  "normalize_address [] = []"
| "normalize_address (c # s) =
     (let rest = tl (dropWhile (\<lambda>x. x \<noteq> CHR '']'') s) in
      if c = CHR ''['' \<and> CHR '']'' \<in> set s \<and> (rest = [] \<or> rest = [CHR 0x0A]) then rest
      else c # normalize_address s)"

definition import_refusal :: "string list \<Rightarrow> bool \<Rightarrow> pyval \<Rightarrow> pyval list \<Rightarrow> string option" where
  "import_refusal declared allow_import address actions =
     (case address of
        PStr a \<Rightarrow>
          if actions \<noteq> [PStr ''no-op''] then Some (a @ '': import with changes'')
          else if starts_with ''module.'' a then Some (a @ '': module-nested import not supported by the baked-config guard'')
          else if CHR ''['' \<in> set a then Some (a @ '': indexed import target not admitted (v1 adopts plain addresses)'')
          else if \<not> allow_import then Some (a @ '': plan imports a resource into state'')
          else if normalize_address a \<notin> set declared then Some (a @ '': imported address not declared in the baked iac/'')
          else None
      | _ \<Rightarrow> Some ''importing resource_changes entry has no address'')"

definition change_refusal :: "string list \<Rightarrow> bool \<Rightarrow> pyval \<Rightarrow> pyval list \<Rightarrow> string option" where
  "change_refusal declared allow_create address actions =
     (case address of
        PStr a \<Rightarrow>
          if starts_with ''module.'' a then Some (a @ '': module-nested address not supported by the baked-config guard'')
          else if PStr ''create'' \<in> set actions \<and> PStr ''delete'' \<in> set actions
            then Some (a @ '': replace (destroy+recreate) not supported by the baked-config guard'')
          else if PStr ''create'' \<in> set actions \<and> \<not> allow_create then Some (a @ '': plan creates a resource'')
          else if normalize_address a \<notin> set declared then Some (a @ '': address not declared in the baked iac/'')
          else None
      | _ \<Rightarrow> Some ''resource_changes entry has no address'')"

definition entry_refusal :: "string list \<Rightarrow> bool \<Rightarrow> bool \<Rightarrow> pyval \<Rightarrow> string option" where
  "entry_refusal declared allow_create allow_import rc =
     (case rc of
        PDict d \<Rightarrow>
          (let change = (case dget d ''change'' of PDict c \<Rightarrow> c | _ \<Rightarrow> []) in
           case dget change ''actions'' of
             PList actions \<Rightarrow>
               if dget change ''importing'' \<noteq> PNone then import_refusal declared allow_import (dget d ''address'') actions
               else if actions = [PStr ''no-op''] \<or> actions = [PStr ''read''] then None
               else change_refusal declared allow_create (dget d ''address'') actions
           | _ \<Rightarrow> Some (py_str (dget_or d ''address'' (PStr ''<unknown>'')) @ '': malformed actions''))
      | _ \<Rightarrow> Some ''malformed resource_changes entry'')"

fun first_refusal :: "('a \<Rightarrow> string option) \<Rightarrow> 'a list \<Rightarrow> string option" where
  "first_refusal f [] = None"
| "first_refusal f (x # xs) = (case f x of None \<Rightarrow> first_refusal f xs | Some r \<Rightarrow> Some r)"

definition resource_set_guard :: "pydict \<Rightarrow> string list \<Rightarrow> bool \<Rightarrow> bool \<Rightarrow> string option" where
  "resource_set_guard plan_json declared allow_create allow_import =
     (case dget plan_json ''resource_changes'' of
        PList rcs \<Rightarrow> first_refusal (entry_refusal declared allow_create allow_import) rcs
      | _ \<Rightarrow> Some ''plan.json has no resource_changes list'')"

definition assert_fidelity ::
  "pydict \<Rightarrow> string \<Rightarrow> string \<Rightarrow> pydict \<Rightarrow> string list \<Rightarrow> bool \<Rightarrow> bool \<Rightarrow> (string, unit) res" where
  "assert_fidelity signed_metadata baked_tofu_version baked_lockfile_sha256 plan_json declared allow_create allow_import =
     (if dget signed_metadata ''opentofu_version'' \<noteq> PStr baked_tofu_version then Inl ''opentofu_version mismatch''
      else if dget signed_metadata ''provider_lockfile_sha256'' \<noteq> PStr baked_lockfile_sha256
        then Inl ''provider_lockfile_sha256 mismatch''
      else case resource_set_guard plan_json declared allow_create allow_import of
        None \<Rightarrow> Inr ()
      | Some reason \<Rightarrow> Inl (''resource-set guard: '' @ reason))"

section \<open>What the baked configuration declares\<close>

text \<open>The multi-line pattern of a resource block: at the start of a line, blanks, the word, two quoted names.\<close>

fun line_starts :: "string \<Rightarrow> string list" where
  "line_starts s = s # map (\<lambda>i. drop (Suc i) s) (filter (\<lambda>i. s ! i = CHR 0x0A) [0..<length s])"

definition type_char :: "char \<Rightarrow> bool" where
  "type_char c \<longleftrightarrow> in_ranges (alnum_cls @ [(95, 95)]) c"

definition name_char :: "char \<Rightarrow> bool" where
  "name_char c \<longleftrightarrow> in_ranges (alnum_cls @ [(95, 95), (45, 45)]) c"

text \<open>A non-empty run of such characters in double quotes, and what follows it.\<close>

definition quoted :: "(char \<Rightarrow> bool) \<Rightarrow> string \<Rightarrow> (string \<times> string) option" where
  "quoted ok s =
     (case s of
        [] \<Rightarrow> None
      | q # r \<Rightarrow>
          (let n = takeWhile ok r; t = dropWhile ok r in
           if q = CHR 0x22 \<and> n \<noteq> [] \<and> t \<noteq> [] \<and> hd t = CHR 0x22 then Some (n, tl t) else None))"

definition blanks :: "string \<Rightarrow> string option" where
  "blanks s = (if s \<noteq> [] \<and> is_space (hd s) then Some (dropWhile is_space s) else None)"

definition resource_decl :: "string \<Rightarrow> string option" where
  "resource_decl line =
     (let s = dropWhile is_space line in
      if \<not> starts_with ''resource'' s then None
      else case blanks (drop 8 s) of
        None \<Rightarrow> None
      | Some r1 \<Rightarrow>
          (case quoted type_char r1 of
             None \<Rightarrow> None
           | Some (rtype, r2) \<Rightarrow>
               (case blanks r2 of
                  None \<Rightarrow> None
                | Some r3 \<Rightarrow>
                    (case quoted name_char r3 of None \<Rightarrow> None | Some (rname, _) \<Rightarrow> Some (rtype @ ''.'' @ rname)))))"

definition extract_declared_addresses :: "string list \<Rightarrow> string list" where
  "extract_declared_addresses texts = concat (map (\<lambda>t. List.map_filter resource_decl (line_starts t)) texts)"

section \<open>What the gates leave of a plan\<close>

text \<open>An entry with these actions, this \<open>importing\<close> field and this address.\<close>

definition row :: "actions \<Rightarrow> pyval \<Rightarrow> pyval \<Rightarrow> pyval \<Rightarrow> bool" where
  "row acts importing address rc \<longleftrightarrow>
     (\<exists>d c. rc = PDict d \<and> dget d ''change'' = PDict c \<and> dget c ''actions'' = PList (map PStr acts) \<and>
        dget c ''importing'' = importing \<and> dget d ''address'' = address)"

definition declared_root :: "string list \<Rightarrow> string \<Rightarrow> bool" where
  "declared_root declared a \<longleftrightarrow> \<not> starts_with ''module.'' a \<and> normalize_address a \<in> set declared"

definition gated_row :: "string list \<Rightarrow> bool \<Rightarrow> pyval \<Rightarrow> bool" where
  "gated_row declared create_class rc \<longleftrightarrow>
     (\<exists>adr. row [''no-op''] PNone adr rc \<or> row [''read''] PNone adr rc) \<or>
     (\<exists>a. declared_root declared a \<and>
        (row [''update''] PNone (PStr a) rc \<or>
         create_class \<and> row [''create''] PNone (PStr a) rc \<or>
         create_class \<and> CHR ''['' \<notin> set a \<and> (\<exists>imp. imp \<noteq> PNone \<and> row [''no-op''] imp (PStr a) rc)))"

lemma gated_rowI:
  "row [''no-op''] PNone adr rc \<Longrightarrow> gated_row declared b rc"
  "row [''read''] PNone adr rc \<Longrightarrow> gated_row declared b rc"
  "declared_root declared a \<Longrightarrow> row [''update''] PNone (PStr a) rc \<Longrightarrow> gated_row declared b rc"
  "declared_root declared a \<Longrightarrow> b \<Longrightarrow> row [''create''] PNone (PStr a) rc \<Longrightarrow> gated_row declared b rc"
  "declared_root declared a \<Longrightarrow> b \<Longrightarrow> CHR ''['' \<notin> set a \<Longrightarrow> imp \<noteq> PNone \<Longrightarrow> row [''no-op''] imp (PStr a) rc \<Longrightarrow> gated_row declared b rc"
  unfolding gated_row_def by blast+

lemma first_refusal_None: "first_refusal f xs = None \<longleftrightarrow> (\<forall>x \<in> set xs. f x = None)"
  by (induction xs) (auto split: option.splits)

lemma gated_entry:
  assumes "entry_admissible rc" and "entry_refusal declared b b rc = None"
  shows "gated_row declared b rc"
proof -
  from assms(1) obtain d where d: "rc = PDict d" by (cases rc) auto
  from assms(1) d obtain t acts where it: "iter_entry (PDict d) = (Some t, Some acts)"
    by (auto split: prod.splits option.splits)
  with assms(1) d have adm: "change_admissible d t acts" by simp
  from iter_entry_PDict [OF it] obtain c where c: "dget d ''change'' = PDict c" "dget c ''actions'' = PList (map PStr acts)" by blast
  then have imp: "importing_of d = dget c ''importing''" by (simp add: importing_of_def)
  have row: "row acts (dget c ''importing'') (dget d ''address'') rc" using c d by (auto simp: row_def)
  show ?thesis
  proof (cases "dget c ''importing'' = PNone")
    case False
    with assms(2) c d have r: "import_refusal declared b (dget d ''address'') (map PStr acts) = None"
      by (simp add: entry_refusal_def)
    then obtain a where a: "dget d ''address'' = PStr a" by (cases "dget d ''address''") (auto simp: import_refusal_def)
    with r have x: "map PStr acts = [PStr ''no-op'']" "declared_root declared a" "b" "CHR ''['' \<notin> set a"
      by (auto simp: import_refusal_def declared_root_def split: if_splits)
    from x(1) have "acts = [''no-op'']" by (cases acts) auto
    with row a have "row [''no-op''] (dget c ''importing'') (PStr a) rc" by simp
    from gated_rowI(5) [OF x(2-4) False this] show ?thesis .
  next
    case True
    from adm have acts: "acts \<in> {[''no-op''], [''read''], [''create''], [''update'']}"
      unfolding change_admissible_def by (rule conjunct1)
    show ?thesis
    proof (cases "acts \<in> {[''no-op''], [''read'']}")
      case True
      with row \<open>dget c ''importing'' = PNone\<close> show ?thesis by (elim insertE emptyE) (simp_all add: gated_rowI(1,2))
    next
      case False
      with assms(2) c d True acts have r: "change_refusal declared b (dget d ''address'') (map PStr acts) = None"
        by (auto simp: entry_refusal_def split: if_splits)
      then obtain a where a: "dget d ''address'' = PStr a" by (cases "dget d ''address''") (auto simp: change_refusal_def)
      with r acts False have "declared_root declared a" "acts = [''create''] \<longrightarrow> b"
        by (auto simp: change_refusal_def declared_root_def split: if_splits)
      moreover from acts False have "acts = [''create''] \<or> acts = [''update'']" by simp
      ultimately show ?thesis using row a True gated_rowI(3,4) [of declared a] by (elim disjE) simp_all
    qed
  qed
qed

lemma gated_rows:
  assumes "evaluate plan = Inr []" and "resource_set_guard plan declared b b = None"
  shows "\<exists>rcs. dget plan ''resource_changes'' = PList rcs \<and> list_all (gated_row declared b) rcs"
proof -
  from assms(1) obtain rcs where rcs: "dget plan ''resource_changes'' = PList rcs" "list_all entry_admissible rcs"
    unfolding evaluate_silent by (auto simp: plan_admissible_def split: pyval.splits)
  with assms(2) show ?thesis
    by (auto simp: resource_set_guard_def first_refusal_None list_all_iff intro: gated_entry)
qed

text \<open>What the guard alone admits: a change dictionary with an action list, and either no effect and no import,
  or a declared root address with a change that is no replacement, or an adoption without a change.\<close>

definition guard_row :: "string list \<Rightarrow> bool \<Rightarrow> bool \<Rightarrow> pyval \<Rightarrow> bool" where
  "guard_row declared allow_create allow_import rc \<longleftrightarrow>
     (\<exists>d c acts. rc = PDict d \<and> dget d ''change'' = PDict c \<and> dget c ''actions'' = PList acts \<and>
        (dget c ''importing'' = PNone \<and> acts \<in> {[PStr ''no-op''], [PStr ''read'']} \<or>
         (\<exists>a. dget d ''address'' = PStr a \<and> declared_root declared a \<and>
            (dget c ''importing'' = PNone \<and> (PStr ''create'' \<in> set acts \<longrightarrow> PStr ''delete'' \<notin> set acts \<and> allow_create) \<or>
             dget c ''importing'' \<noteq> PNone \<and> acts = [PStr ''no-op''] \<and> CHR ''['' \<notin> set a \<and> allow_import))))"

lemma import_refusal_None:
  "import_refusal declared ai address acts = None \<longleftrightarrow>
     (\<exists>a. address = PStr a \<and> declared_root declared a \<and> acts = [PStr ''no-op''] \<and> CHR ''['' \<notin> set a \<and> ai)"
  by (cases address) (auto simp: import_refusal_def declared_root_def)

lemma change_refusal_None:
  "change_refusal declared ac address acts = None \<longleftrightarrow>
     (\<exists>a. address = PStr a \<and> declared_root declared a \<and> (PStr ''create'' \<in> set acts \<longrightarrow> PStr ''delete'' \<notin> set acts \<and> ac))"
  by (cases address) (auto simp: change_refusal_def declared_root_def)

lemma entry_refusal_None: "entry_refusal declared ac ai rc = None \<longleftrightarrow> guard_row declared ac ai rc"
proof (cases rc)
  case (PDict d)
  show ?thesis
  proof (cases "\<exists>c acts. dget d ''change'' = PDict c \<and> dget c ''actions'' = PList acts")
    case True
    then obtain c acts where "dget d ''change'' = PDict c" "dget c ''actions'' = PList acts" by blast
    with PDict show ?thesis
      by (auto simp: entry_refusal_def guard_row_def import_refusal_None change_refusal_None)
  next
    case False
    with PDict show ?thesis by (auto simp: entry_refusal_def guard_row_def split: pyval.splits)
  qed
qed (simp_all add: entry_refusal_def guard_row_def)

lemma guard_None_iff:
  "resource_set_guard plan declared ac ai = None \<longleftrightarrow>
     (\<exists>rcs. dget plan ''resource_changes'' = PList rcs \<and> list_all (guard_row declared ac ai) rcs)"
  by (cases "dget plan ''resource_changes''")
     (simp_all add: resource_set_guard_def first_refusal_None entry_refusal_None list_all_iff)

lemma rowE:
  assumes "row acts imp adr rc"
  obtains d c where "rc = PDict d" "dget d ''change'' = PDict c" "dget c ''actions'' = PList (map PStr acts)"
    "dget c ''importing'' = imp" "dget d ''address'' = adr"
  using assms unfolding row_def by blast

lemma gated_guard: "gated_row declared b rc \<Longrightarrow> guard_row declared b b rc"
  unfolding gated_row_def by (elim disjE exE conjE rowE) (simp_all add: guard_row_def)

text \<open>C32: What the resource-set guard admits.  For every plan: it raises no refusal if and only if the plan has a
  list of resource changes, each of which carries an action list and either has no effect and imports nothing,
  or names an address the baked configuration declares at its root and is a change that does not replace and
  creates only when creation is allowed, or names such an address without an index and is an adoption without a
  change when imports are allowed.  And for a plan that the denylist has passed, with creation and import
  allowed exactly when the plan is create-class (the way both handlers call it): it raises no refusal if and
  only if every row is without effect, an in-place update of such a resource or, in a create-class plan only, a
  plain creation or adoption of one; so after both gates nothing is deleted, replaced, forgotten, moved
  into a module or touched that the configuration does not declare.\<close>

theorem gated_plan_effects:
  "(resource_set_guard plan declared allow_create allow_import = None \<longleftrightarrow>
      (\<exists>rcs. dget plan ''resource_changes'' = PList rcs \<and> list_all (guard_row declared allow_create allow_import) rcs)) \<and>
   (evaluate plan = Inr [] \<longrightarrow>
      (resource_set_guard plan declared (plan_has_create (PDict plan)) (plan_has_create (PDict plan)) = None \<longleftrightarrow>
        (\<exists>rcs. dget plan ''resource_changes'' = PList rcs \<and> list_all (gated_row declared (plan_has_create (PDict plan))) rcs)))"
proof (intro conjI impI)
  assume e: "evaluate plan = Inr []"
  let ?b = "plan_has_create (PDict plan)"
  show "resource_set_guard plan declared ?b ?b = None \<longleftrightarrow>
      (\<exists>rcs. dget plan ''resource_changes'' = PList rcs \<and> list_all (gated_row declared ?b) rcs)"
    using gated_rows [OF e, of declared ?b] gated_guard by (auto simp: guard_None_iff list_all_iff)
qed (rule guard_None_iff)

theorem gated_plan_effects_witness:
  "(\<exists>rcs. dget update_bucket_plan ''resource_changes'' = PList rcs \<and> list_all (gated_row [''b.x''] False) rcs) \<and>
   \<not> (\<exists>rcs. dget update_bucket_plan ''resource_changes'' = PList rcs \<and> list_all (gated_row [] False) rcs)"
proof -
  have "\<not> plan_has_create (PDict update_bucket_plan)"
    by (simp add: plan_has_create_def update_bucket_plan_def plan_of_def change_entry_def)
  then have eqF: "plan_has_create (PDict update_bucket_plan) = False" by simp
  have "resource_set_guard update_bucket_plan [''b.x''] False False = None"
    "resource_set_guard update_bucket_plan [] False False \<noteq> None"
    by (simp_all add: resource_set_guard_def update_bucket_plan_def plan_of_def change_entry_def entry_refusal_def
        change_refusal_def starts_with_def)
  moreover have iff: "resource_set_guard update_bucket_plan declared False False = None \<longleftrightarrow>
      (\<exists>rcs. dget update_bucket_plan ''resource_changes'' = PList rcs \<and> list_all (gated_row declared False) rcs)" for declared
    using mp [OF conjunct2 [OF gated_plan_effects [of update_bucket_plan declared False False]] update_bucket_admissible]
    unfolding eqF .
  ultimately show ?thesis using iff [of "[''b.x'']"] iff [of "[]"] by simp
qed

end
