(* ===== verification/DriftGate.thy ===== *)
theory DriftGate
  imports TofuGuards
begin

text \<open>
  The semantic freshness gate of the apply worker (\<open>workers/tofu_apply/tofu_runner.py\<close>): the difference of
  two JSON values as two sets of attribute paths, the allowlists of server-computed attributes per
  resource type, and the classifier of a refresh-only plan.  A set of paths is a list here; the code
  sorts it before use.  A missing value (\<open>_MISSING\<close>) is \<open>None\<close>.
\<close>

record drift_allowlist =
  al_paths :: "string list"
  al_subtrees :: "string list"
  al_normalization_paths :: "string list"

definition BENIGN_DRIFT_ALLOWLISTS :: "(string \<times> drift_allowlist) list" where
  "BENIGN_DRIFT_ALLOWLISTS =
     [(''google_cloud_run_v2_service'',
        \<lparr>al_paths = [''generation'', ''observed_generation'', ''etag'', ''update_time'', ''last_modifier'', ''client'',
           ''client_version'', ''latest_created_revision'', ''latest_ready_revision'', ''reconciling''],
         al_subtrees = [''conditions'', ''terminal_condition'', ''traffic_statuses''],
         al_normalization_paths = [''annotations'', ''custom_audiences'', ''labels'', ''template.annotations'', ''template.labels'',
           ''template.containers.args'', ''template.containers.command'', ''template.containers.depends_on'']\<rparr>),
      (''google_storage_bucket'', \<lparr>al_paths = [''updated''], al_subtrees = [], al_normalization_paths = []\<rparr>)]"

section \<open>Differences\<close>

text \<open>\<open>re.sub\<close> of list indices, \<open>[0]\<close> and the like.\<close>

function normalize_attr_path :: "string \<Rightarrow> string" where
  "normalize_attr_path [] = []"
| "normalize_attr_path (c # s) =
     (let ds = takeWhile is_digit s; rest = dropWhile is_digit s in
      if c = CHR ''['' \<and> ds \<noteq> [] \<and> rest \<noteq> [] \<and> hd rest = CHR '']'' then normalize_attr_path (tl rest)
      else c # normalize_attr_path s)"
  by pat_completeness auto
termination
proof (relation "measure length")
  fix c :: char and s ds rest
  assume "rest = dropWhile is_digit s"
  with length_dropWhile_le [of is_digit s] show "(tl rest, c # s) \<in> measure length" by simp
qed simp_all

definition empty_collection :: "pyval \<Rightarrow> bool" where
  "empty_collection v \<longleftrightarrow> v = PDict [] \<or> v = PList []"

definition is_null_empty_normalization :: "pyval \<Rightarrow> pyval \<Rightarrow> bool" where
  "is_null_empty_normalization before after =
     (if before = PNone then empty_collection after
      else if after = PNone then empty_collection before else False)"

definition key_path :: "string \<Rightarrow> string \<Rightarrow> string" where
  "key_path prefix key = (if prefix = [] then key else prefix @ ''.'' @ key)"

definition index_path :: "string \<Rightarrow> nat \<Rightarrow> string" where
  "index_path prefix i = prefix @ ''['' @ show_nat i @ '']''"

definition item :: "'a list \<Rightarrow> nat \<Rightarrow> 'a option" where
  "item l i = (if i < length l then Some (l ! i) else None)"

type_synonym paths = "string list \<times> string list"

definition join_paths :: "paths list \<Rightarrow> paths" where
  "join_paths ps = (concat (map fst ps), concat (map snd ps))"

lemma map_of_size: "map_of d k = Some v \<Longrightarrow> size v < size (PDict d)"
proof (induction d)
  case (Cons kv d)
  then show ?case by (cases kv) (auto split: if_splits)
qed simp

lemma item_size: "item l i = Some v \<Longrightarrow> size v < size (PList l)"
proof -
  assume "item l i = Some v"
  then have "v \<in> set l" by (auto simp: item_def split: if_splits)
  then show ?thesis by (induction l) auto
qed

definition opt_size :: "pyval option \<Rightarrow> nat" where
  "opt_size v = (case v of None \<Rightarrow> 0 | Some x \<Rightarrow> size x)"

lemma opt_size_smaller: "opt_size (map_of d k) < size (PDict d)" "opt_size (item l i) < size (PList l)"
proof -
  show "opt_size (map_of d k) < size (PDict d)"
    by (cases "map_of d k") (simp_all add: opt_size_def map_of_size del: pyval.size, simp add: pyval.size)
  show "opt_size (item l i) < size (PList l)"
    by (cases "item l i") (simp_all add: opt_size_def item_size del: pyval.size, simp add: pyval.size)
qed

function diff_leaf_paths :: "pyval option \<Rightarrow> pyval option \<Rightarrow> string \<Rightarrow> paths" where
  "diff_leaf_paths before after prefix =
     (case (before, after) of
        (Some b, Some a) \<Rightarrow>
          if py_eq b a then ([], [])
          else if is_null_empty_normalization b a then ([], [normalize_attr_path prefix])
          else (case (b, a) of
            (PDict d, PDict e) \<Rightarrow>
              join_paths (map (\<lambda>k. diff_leaf_paths (map_of d k) (map_of e k) (key_path prefix k)) (remdups (dkeys d @ dkeys e)))
          | (PList l, PList m) \<Rightarrow>
              join_paths (map (\<lambda>i. diff_leaf_paths (item l i) (item m i) (index_path prefix i)) [0..<max (length l) (length m)])
          | _ \<Rightarrow> ([normalize_attr_path prefix], []))
      | _ \<Rightarrow> ([normalize_attr_path prefix], []))"
  by pat_completeness auto
termination
  by (relation "measure (\<lambda>(b, a, p). opt_size b + opt_size a)")
    (auto simp: opt_size_def [of "Some x" for x] simp del: pyval.size intro!: add_strict_mono opt_size_smaller)

declare diff_leaf_paths.simps [simp del]

section \<open>The classifier\<close>

definition is_computed_only_path :: "string \<Rightarrow> drift_allowlist \<Rightarrow> bool" where
  "is_computed_only_path path al \<longleftrightarrow>
     path \<in> set (al_paths al) \<or> (\<exists>p \<in> set (al_subtrees al). path = p \<or> starts_with (p @ ''.'') path)"

fun has_true :: "pyval \<Rightarrow> bool" where
  "has_true (PBool b) = b"
| "has_true (PDict d) = list_ex (\<lambda>(k, v). has_true v) d"
| "has_true (PList l) = list_ex has_true l"
| "has_true _ = False"

record drift_verdict =
  dv_benign :: bool
  dv_paths :: "string list"
  dv_reason :: string

definition refused :: "string \<Rightarrow> drift_verdict" where
  "refused reason = \<lparr>dv_benign = False, dv_paths = [], dv_reason = reason\<rparr>"

definition no_action :: "pyval \<Rightarrow> bool" where
  "no_action actions \<longleftrightarrow> actions = PList [PStr ''no-op''] \<or> actions = PList [PStr ''read'']"

definition config_action :: "pyval \<Rightarrow> bool" where
  "config_action rc \<longleftrightarrow>
     \<not> no_action (case rc of PDict d \<Rightarrow> (case dget d ''change'' of PDict c \<Rightarrow> dget c ''actions'' | _ \<Rightarrow> PNone) | _ \<Rightarrow> PNone)"

text \<open>\<open>BENIGN_DRIFT_ALLOWLISTS.get(t or "")\<close>.\<close>

definition allowlist_of :: "pyval \<Rightarrow> (pyexc, drift_allowlist option) res" where
  "allowlist_of t =
     (let k = py_or t (PStr []) in
      if \<not> hashable k then Inl TypeError
      else Inr (case k of PStr s \<Rightarrow> map_of BENIGN_DRIFT_ALLOWLISTS s | _ \<Rightarrow> None))"

text \<open>One entry: a reason to refuse at once, or its computed and its material paths.\<close>

definition drift_paths :: "string \<Rightarrow> drift_allowlist \<Rightarrow> pydict \<Rightarrow> pydict \<Rightarrow> paths" where
  "drift_paths addr al before after =
     (let (changed, normalized) = diff_leaf_paths (Some (PDict before)) (Some (PDict after)) [];
          norm_ok = (\<lambda>p. p \<in> set (al_normalization_paths al) \<or> is_computed_only_path p al);
          computed_ok = (\<lambda>p. is_computed_only_path p al);
          norms = sort (remdups normalized); changes = sort (remdups changed);
          norm_text = map (\<lambda>p. addr @ '':'' @ p @ '' [null<->empty]''); text = map (\<lambda>p. addr @ '':'' @ p)
      in (norm_text (filter norm_ok norms) @ text (filter computed_ok changes),
          norm_text (filter (\<lambda>p. \<not> norm_ok p) norms) @ text (filter (\<lambda>p. \<not> computed_ok p) changes)))"

definition drift_entry :: "pyval \<Rightarrow> (pyexc, (string, paths) res) res" where
  "drift_entry entry =
     (case entry of
        PDict d \<Rightarrow>
          (let addr = py_str (dget_or d ''address'' (PStr ''<unknown>'')) in
           case dget d ''change'' of
             PDict c \<Rightarrow>
               if no_action (dget c ''actions'') then Inr (Inr ([], []))
               else if dget c ''actions'' \<noteq> PList [PStr ''update''] then Inr (Inl (addr @ '': drift action is material''))
               else rbind (allowlist_of (dget d ''type'')) (\<lambda>found.
                 Inr (case found of
                   None \<Rightarrow> Inl (addr @ '': computed-drift allowlist is type-scoped'')
                 | Some al \<Rightarrow>
                     if has_true (dget c ''before_sensitive'') \<or> has_true (dget c ''after_sensitive'') \<or> has_true (dget c ''after_unknown'')
                     then Inl (addr @ '': drift carries sensitive/unknown markers'')
                     else (case (dget c ''before'', dget c ''after'') of
                       (PDict b, PDict a) \<Rightarrow> Inr (drift_paths addr al b a)
                     | _ \<Rightarrow> Inl (addr @ '': non-dict before/after on update''))))
           | _ \<Rightarrow> Inr (Inl (addr @ '': malformed change object'')))
      | _ \<Rightarrow> Inr (Inl ''malformed resource_drift entry''))"

fun drift_entries :: "pyval list \<Rightarrow> string list \<Rightarrow> string list \<Rightarrow> (pyexc, drift_verdict) res" where
  "drift_entries [] computed material =
     Inr (if material \<noteq> []
          then \<lparr>dv_benign = False, dv_paths = material,
                dv_reason = ''material refresh drift: '' @ join_str '', '' (take 10 material)\<rparr>
          else \<lparr>dv_benign = True, dv_paths = computed, dv_reason = ''all refresh drift is computed-only churn''\<rparr>)"
| "drift_entries (e # es) computed material =
     rbind (drift_entry e) (\<lambda>r.
       case r of Inl reason \<Rightarrow> Inr (refused reason)
       | Inr (cs, ms) \<Rightarrow> drift_entries es (computed @ cs) (material @ ms))"

definition classify_refresh_drift :: "pyval \<Rightarrow> (pyexc, drift_verdict) res" where
  "classify_refresh_drift show_json =
     (case show_json of
        PDict d \<Rightarrow>
          if truthy (dget d ''output_changes'') then Inr (refused ''refresh changed root outputs'')
          else (case (case dget d ''resource_changes'' of
                   PNone \<Rightarrow> None
                 | PList rcs \<Rightarrow> if list_ex config_action rcs then Some ''resource_changes carries action'' else None
                 | _ \<Rightarrow> Some ''resource_changes is not a list'') of
            Some reason \<Rightarrow> Inr (refused reason)
          | None \<Rightarrow>
              (case dget d ''resource_drift'' of
                 PList drift \<Rightarrow> drift_entries drift [] []
               | _ \<Rightarrow> Inr (refused ''resource_drift missing or not a list'')))
      | _ \<Rightarrow> Inr (refused ''show-json is not an object''))"

section \<open>Where a benign drift may be\<close>

text \<open>A position in a JSON value, the value there, and its text as the code writes paths.\<close>

datatype pos = Key string | Index nat

fun value_at :: "pos list \<Rightarrow> pyval option \<Rightarrow> pyval option" where
  "value_at [] v = v"
| "value_at (Key k # ps) (Some (PDict d)) = value_at ps (map_of d k)"
| "value_at (Index i # ps) (Some (PList l)) = value_at ps (item l i)"
| "value_at (_ # ps) _ = None"

fun path_text :: "string \<Rightarrow> pos list \<Rightarrow> string" where
  "path_text prefix [] = prefix"
| "path_text prefix (Key k # ps) = path_text (key_path prefix k) ps"
| "path_text prefix (Index i # ps) = path_text (index_path prefix i) ps"

abbreviation same_value :: "pyval option \<Rightarrow> pyval option \<Rightarrow> bool" where
  "same_value \<equiv> rel_option py_eq"

definition on_one_line :: "pos list \<Rightarrow> pos list \<Rightarrow> bool" where
  "on_one_line p q \<longleftrightarrow> (\<exists>r. q = p @ r \<or> p = q @ r)"

lemma value_at_None [simp]: "value_at ps None = None" by (cases ps) auto

lemma same_value_at: "same_value b a \<Longrightarrow> same_value (value_at ps b) (value_at ps a)"
proof (induction ps arbitrary: b a)
  case (Cons p ps)
  show ?case
  proof (cases b)
    case None
    with Cons.prems have "a = None" by (cases a) auto
    with None show ?thesis by simp
  next
    case (Some x)
    with Cons.prems obtain y where y: "a = Some y" "py_eq x y" by (cases a) auto
    show ?thesis
    proof (cases x)
      case (PDict d)
      with y(2) obtain e where e: "y = PDict e" by (cases y) auto
      with y PDict have "same_value (map_of d k) (map_of e k)" for k by (simp only: py_eq_dict)
      with Cons.IH PDict Some y(1) e show ?thesis by (cases p) auto
    next
      case (PList l)
      with y(2) obtain m where m: "y = PList m" by (cases y) auto
      with y PList have "list_all2 py_eq l m" by (simp add: list_eq_all2)
      then have "same_value (item l i) (item m i)" for i by (auto simp: item_def list_all2_conv_all_nth)
      with Cons.IH PList Some y(1) m show ?thesis by (cases p) auto
    qed (use y Some in \<open>cases p; cases y; auto\<close>)+
  qed
qed simp

text \<open>A position where the two values differ lies on a line with one that the difference reports.\<close>

definition reported :: "paths \<Rightarrow> string \<Rightarrow> pyval option \<Rightarrow> pyval option \<Rightarrow> pos list \<Rightarrow> bool" where
  "reported r prefix b a q \<longleftrightarrow>
     normalize_attr_path (path_text prefix q) \<in> set (fst r) \<or>
     normalize_attr_path (path_text prefix q) \<in> set (snd r) \<and>
       (\<exists>x y. value_at q b = Some x \<and> value_at q a = Some y \<and> is_null_empty_normalization x y)"

lemma differing_child:
  "\<not> py_eq (PDict d) (PDict e) \<Longrightarrow> \<exists>k \<in> set (dkeys d @ dkeys e). \<not> same_value (map_of d k) (map_of e k)"
  "\<not> py_eq (PList l) (PList m) \<Longrightarrow> \<exists>i < max (length l) (length m). \<not> same_value (item l i) (item m i)"
proof -
  assume "\<not> py_eq (PDict d) (PDict e)"
  then obtain k where k: "\<not> same_value (map_of d k) (map_of e k)" unfolding py_eq_dict by blast
  then have "map_of d k \<noteq> None \<or> map_of e k \<noteq> None" by auto
  then have "k \<in> set (dkeys d @ dkeys e)" by (force simp: dkeys_def dest: map_of_SomeD)
  with k show "\<exists>k \<in> set (dkeys d @ dkeys e). \<not> same_value (map_of d k) (map_of e k)" by blast
next
  assume n: "\<not> py_eq (PList l) (PList m)"
  show "\<exists>i < max (length l) (length m). \<not> same_value (item l i) (item m i)"
  proof (rule ccontr)
    assume all: "\<not> (\<exists>i < max (length l) (length m). \<not> same_value (item l i) (item m i))"
    have "length l = length m"
    proof (rule ccontr)
      assume "length l \<noteq> length m"
      then have "min (length l) (length m) < max (length l) (length m)" by simp
      with all have "same_value (item l (min (length l) (length m))) (item m (min (length l) (length m)))" by blast
      with \<open>length l \<noteq> length m\<close> show False by (auto simp: item_def min_def split: if_splits)
    qed
    with all have "list_all2 py_eq l m" by (auto simp: list_all2_conv_all_nth item_def)
    with n show False by (simp add: list_eq_all2)
  qed
qed

lemma reported_join:
  assumes "reported r prefix b a q" and "r \<in> set rs"
  shows "reported (join_paths rs) prefix b a q"
  using assms by (auto simp: reported_def join_paths_def)

lemma reported_key: "reported r (key_path prefix k) (map_of d k) (map_of e k) q \<Longrightarrow> reported r prefix (Some (PDict d)) (Some (PDict e)) (Key k # q)"
  by (simp add: reported_def)

lemma reported_index: "reported r (index_path prefix i) (item l i) (item m i) q \<Longrightarrow> reported r prefix (Some (PList l)) (Some (PList m)) (Index i # q)"
  by (simp add: reported_def)

lemma on_one_line_simps [simp]: "on_one_line [] q" "on_one_line q []" "on_one_line (p # ps) (p # q) = on_one_line ps q"
  by (auto simp: on_one_line_def)

lemma difference_reported:
  "\<not> same_value (value_at ps b) (value_at ps a) \<Longrightarrow> \<exists>q. on_one_line ps q \<and> reported (diff_leaf_paths b a prefix) prefix b a q"
proof (induction b a prefix arbitrary: ps rule: diff_leaf_paths.induct)
  case (1 before after prefix)
  have here: ?case if "normalize_attr_path prefix \<in> set (fst (diff_leaf_paths before after prefix))"
    using that by (intro exI [of _ "[]"]) (simp add: reported_def)
  show ?case
  proof (cases "\<exists>b a. before = Some b \<and> after = Some a")
    case False
    then have "diff_leaf_paths before after prefix = ([normalize_attr_path prefix], [])"
      by (subst diff_leaf_paths.simps) (auto split: option.splits)
    with here show ?thesis by simp
  next
    case True
    then obtain b a where ba: "before = Some b" "after = Some a" by blast
    have ne: "\<not> py_eq b a" using "1.prems" same_value_at [of before after ps] ba by auto
    show ?thesis
    proof (cases "is_null_empty_normalization b a")
      case True
      then have "diff_leaf_paths before after prefix = ([], [normalize_attr_path prefix])"
        using ne by (subst diff_leaf_paths.simps) (simp add: ba)
      with True ba show ?thesis by (intro exI [of _ "[]"]) (simp add: reported_def)
    next
      case norm: False
      consider (dicts) d e where "b = PDict d" "a = PDict e" | (lists) l m where "b = PList l" "a = PList m"
        | (other) "(\<nexists>d e. b = PDict d \<and> a = PDict e) \<and> (\<nexists>l m. b = PList l \<and> a = PList m)" by blast
      then show ?thesis
      proof cases
        case dicts
        let ?sub = "\<lambda>k. diff_leaf_paths (map_of d k) (map_of e k) (key_path prefix k)"
        let ?keys = "remdups (dkeys d @ dkeys e)"
        have r: "diff_leaf_paths before after prefix = join_paths (map ?sub ?keys)"
          using ne norm dicts by (subst diff_leaf_paths.simps) (simp add: ba del: py_eq.simps)
        have ih: "\<exists>q. on_one_line qs q \<and> reported (?sub k) (key_path prefix k) (map_of d k) (map_of e k) q"
          if "k \<in> set ?keys" "\<not> same_value (value_at qs (map_of d k)) (value_at qs (map_of e k))" for k qs
          by (rule "1.IH"(2) [OF refl ba ne norm refl dicts that])
        have lift: "\<exists>q. on_one_line (Key k # qs) q \<and> reported (diff_leaf_paths before after prefix) prefix before after q"
          if k: "k \<in> set ?keys" and "\<not> same_value (value_at qs (map_of d k)) (value_at qs (map_of e k))" for k qs
        proof -
          from ih [OF that] obtain q where q: "on_one_line qs q" "reported (?sub k) (key_path prefix k) (map_of d k) (map_of e k) q" by blast
          from reported_join [OF reported_key [OF q(2)], of "map ?sub ?keys"] k q(1) r ba dicts show ?thesis
            by (intro exI [of _ "Key k # q"]) simp
        qed
        show ?thesis
        proof (cases ps)
          case Nil
          from differing_child(1) [of d e] ne dicts obtain k where "k \<in> set ?keys" "\<not> same_value (map_of d k) (map_of e k)" by auto
          with lift [of k "[]"] Nil show ?thesis by auto
        next
          case (Cons p qs)
          with "1.prems" ba dicts obtain k where k: "p = Key k" "\<not> same_value (value_at qs (map_of d k)) (value_at qs (map_of e k))"
            by (cases p) auto
          then have "map_of d k \<noteq> None \<or> map_of e k \<noteq> None" by (cases "map_of d k"; cases "map_of e k") simp_all
          then have "k \<in> set ?keys" by (force simp: dkeys_def dest: map_of_SomeD)
          with lift k Cons show ?thesis by blast
        qed
      next
        case lists
        let ?sub = "\<lambda>i. diff_leaf_paths (item l i) (item m i) (index_path prefix i)"
        let ?ixs = "[0..<max (length l) (length m)]"
        have r: "diff_leaf_paths before after prefix = join_paths (map ?sub ?ixs)"
          using ne norm lists by (subst diff_leaf_paths.simps) (simp add: ba del: py_eq.simps)
        have ih: "\<exists>q. on_one_line qs q \<and> reported (?sub i) (index_path prefix i) (item l i) (item m i) q"
          if "i \<in> set ?ixs" "\<not> same_value (value_at qs (item l i)) (value_at qs (item m i))" for i qs
          by (rule "1.IH"(1) [OF refl ba ne norm refl lists that])
        have lift: "\<exists>q. on_one_line (Index i # qs) q \<and> reported (diff_leaf_paths before after prefix) prefix before after q"
          if i: "i \<in> set ?ixs" and "\<not> same_value (value_at qs (item l i)) (value_at qs (item m i))" for i qs
        proof -
          from ih [OF that] obtain q where q: "on_one_line qs q" "reported (?sub i) (index_path prefix i) (item l i) (item m i) q" by blast
          from reported_join [OF reported_index [OF q(2)], of "map ?sub ?ixs"] i q(1) r ba lists show ?thesis
            by (intro exI [of _ "Index i # q"]) simp
        qed
        show ?thesis
        proof (cases ps)
          case Nil
          from differing_child(2) [of l m] ne lists obtain i where "i \<in> set ?ixs" "\<not> same_value (item l i) (item m i)" by auto
          with lift [of i "[]"] Nil show ?thesis by auto
        next
          case (Cons p qs)
          with "1.prems" ba lists obtain i where i: "p = Index i" "\<not> same_value (value_at qs (item l i)) (value_at qs (item m i))"
            by (cases p) auto
          then have "i \<in> set ?ixs" by (auto simp: item_def split: if_splits)
          with lift i Cons show ?thesis by blast
        qed
      next
        case other
        then have "diff_leaf_paths before after prefix = ([normalize_attr_path prefix], [])"
          using ne norm by (subst diff_leaf_paths.simps) (auto simp: ba split: pyval.splits)
        with here show ?thesis by simp
      qed
    qed
  qed
qed

text \<open>What an allowlist tolerates at a position.\<close>

definition computed_path :: "drift_allowlist \<Rightarrow> string \<Rightarrow> bool" where
  "computed_path al path \<longleftrightarrow> path \<in> set (al_paths al) \<or> (\<exists>p \<in> set (al_subtrees al). \<exists>rest. path \<in> {p, p @ ''.'' @ rest})"

lemma is_computed_only_path_iff: "is_computed_only_path path al \<longleftrightarrow> computed_path al path"
  by (simp add: is_computed_only_path_def computed_path_def starts_with_iff)

definition tolerated :: "drift_allowlist \<Rightarrow> pydict \<Rightarrow> pydict \<Rightarrow> pos list \<Rightarrow> bool" where
  "tolerated al before after q \<longleftrightarrow>
     computed_path al (normalize_attr_path (path_text [] q)) \<or>
     normalize_attr_path (path_text [] q) \<in> set (al_normalization_paths al) \<and>
       (\<exists>x y. value_at q (Some (PDict before)) = Some x \<and> value_at q (Some (PDict after)) = Some y \<and> is_null_empty_normalization x y)"

definition quiet_entry :: "pyval \<Rightarrow> bool" where
  "quiet_entry e \<longleftrightarrow> (\<exists>d c. e = PDict d \<and> dget d ''change'' = PDict c \<and> no_action (dget c ''actions''))"

definition churn_entry :: "pyval \<Rightarrow> bool" where
  "churn_entry e \<longleftrightarrow>
     (\<exists>d c t al before after. e = PDict d \<and> dget d ''change'' = PDict c \<and> dget c ''actions'' = PList [PStr ''update''] \<and>
        dget d ''type'' = PStr t \<and> map_of BENIGN_DRIFT_ALLOWLISTS t = Some al \<and>
        \<not> has_true (dget c ''before_sensitive'') \<and> \<not> has_true (dget c ''after_sensitive'') \<and> \<not> has_true (dget c ''after_unknown'') \<and>
        dget c ''before'' = PDict before \<and> dget c ''after'' = PDict after \<and>
        (\<forall>ps. \<not> same_value (value_at ps (Some (PDict before))) (value_at ps (Some (PDict after))) \<longrightarrow>
           (\<exists>q. on_one_line ps q \<and> tolerated al before after q)))"

lemma drift_paths_tolerated:
  assumes "drift_paths addr al before after = (cs, [])"
    and "\<not> same_value (value_at ps (Some (PDict before))) (value_at ps (Some (PDict after)))"
  shows "\<exists>q. on_one_line ps q \<and> tolerated al before after q"
proof -
  obtain changed normalized where r: "diff_leaf_paths (Some (PDict before)) (Some (PDict after)) [] = (changed, normalized)" by force
  from difference_reported [OF assms(2), of "[]"] obtain q where
    q: "on_one_line ps q" "reported (changed, normalized) [] (Some (PDict before)) (Some (PDict after)) q" unfolding r by blast
  from assms(1) have "\<forall>p \<in> set changed. is_computed_only_path p al"
    "\<forall>p \<in> set normalized. p \<in> set (al_normalization_paths al) \<or> is_computed_only_path p al"
    by (auto simp: drift_paths_def r Let_def filter_empty_conv)
  with q show ?thesis by (auto simp: reported_def tolerated_def is_computed_only_path_iff [symmetric])
qed

lemma benign_entries:
  "drift_entries es cs ms = Inr v \<Longrightarrow> dv_benign v \<Longrightarrow>
     ms = [] \<and> (\<forall>e \<in> set es. \<exists>cs. drift_entry e = Inr (Inr (cs, []))) \<and> (\<exists>more. dv_paths v = cs @ more)"
proof (induction es arbitrary: cs ms)
  case (Cons e es)
  from Cons.prems(1) obtain r where r: "drift_entry e = Inr r" by (cases "drift_entry e") auto
  with Cons.prems obtain cs' ms' where "r = Inr (cs', ms')" by (cases r) (auto simp: refused_def)
  with r Cons.prems have e: "drift_entry e = Inr (Inr (cs', ms'))" "drift_entries es (cs @ cs') (ms @ ms') = Inr v" by simp_all
  from Cons.IH [OF e(2) Cons.prems(2)] e show ?case by auto
qed (auto split: if_splits)

lemma allowlist_of_Some:
  assumes "allowlist_of t = Inr (Some al)"
  shows "\<exists>s. t = PStr s \<and> map_of BENIGN_DRIFT_ALLOWLISTS s = Some al"
proof -
  have "map_of BENIGN_DRIFT_ALLOWLISTS [] = None" by (simp add: BENIGN_DRIFT_ALLOWLISTS_def)
  with assms show ?thesis by (cases t) (auto simp: allowlist_of_def py_or_def Let_def split: if_splits)
qed

lemma benign_entry:
  assumes "drift_entry e = Inr (Inr (cs, []))"
  shows "quiet_entry e \<or> churn_entry e"
proof -
  from assms obtain d where d: "e = PDict d" by (cases e) (auto simp: drift_entry_def)
  from assms d obtain c where c: "dget d ''change'' = PDict c" by (cases "dget d ''change''") (auto simp: drift_entry_def Let_def)
  show ?thesis
  proof (cases "no_action (dget c ''actions'')")
    case True
    with d c show ?thesis by (auto simp: quiet_entry_def)
  next
    case False
    with assms d c have up: "dget c ''actions'' = PList [PStr ''update'']" by (auto simp: drift_entry_def Let_def split: if_splits)
    with assms d c False obtain found where f: "allowlist_of (dget d ''type'') = Inr found"
      by (cases "allowlist_of (dget d ''type'')") (auto simp: drift_entry_def Let_def)
    with assms d c False up obtain al where al: "found = Some al" by (cases found) (auto simp: drift_entry_def Let_def)
    from f al have "\<exists>t. dget d ''type'' = PStr t \<and> map_of BENIGN_DRIFT_ALLOWLISTS t = Some al"
      using allowlist_of_Some by blast
    moreover from assms d c False up f al have s: "\<not> has_true (dget c ''before_sensitive'')" "\<not> has_true (dget c ''after_sensitive'')"
      "\<not> has_true (dget c ''after_unknown'')" by (auto simp: drift_entry_def Let_def split: if_splits)
    moreover from assms d c False up f al s obtain before after where ba: "dget c ''before'' = PDict before" "dget c ''after'' = PDict after"
      by (cases "dget c ''before''"; cases "dget c ''after''") (auto simp: drift_entry_def Let_def)
    moreover from assms d c False up f al s ba have "drift_paths (py_str (dget_or d ''address'' (PStr ''<unknown>''))) al before after = (cs, [])"
      by (auto simp: drift_entry_def Let_def)
    ultimately show ?thesis using drift_paths_tolerated d c up unfolding churn_entry_def by blast
  qed
qed

text \<open>C8: Drift that the freshness gate lets pass is confined to the allowlists: when the classifier calls a
  refresh benign, no root output changed, no row carries an action, and every drifted resource is of a type
  with an allowlist, without sensitive or unknown values; wherever its value before and its value after
  differ, at whatever depth, the difference lies on a line with a position whose path is a server-computed
  one of that type, or an approved one at which only null and an empty collection were exchanged.\<close>

theorem benign_drift_confined:
  assumes "classify_refresh_drift show_json = Inr v" and "dv_benign v"
  shows "\<exists>d drift. show_json = PDict d \<and> \<not> truthy (dget d ''output_changes'') \<and> dget d ''resource_drift'' = PList drift \<and>
    (\<forall>rcs. dget d ''resource_changes'' = PList rcs \<longrightarrow> (\<forall>rc \<in> set rcs. \<not> config_action rc)) \<and>
    (\<forall>e \<in> set drift. quiet_entry e \<or> churn_entry e)"
proof -
  from assms obtain d where d: "show_json = PDict d" by (cases show_json) (auto simp: classify_refresh_drift_def refused_def)
  with assms have o: "\<not> truthy (dget d ''output_changes'')" by (auto simp: classify_refresh_drift_def refused_def)
  from assms d o have rc: "\<forall>rcs. dget d ''resource_changes'' = PList rcs \<longrightarrow> \<not> list_ex config_action rcs"
    "dget d ''resource_changes'' = PNone \<or> (\<exists>rcs. dget d ''resource_changes'' = PList rcs)"
    by (cases "dget d ''resource_changes''"; auto simp: classify_refresh_drift_def refused_def)+
  have "classify_refresh_drift show_json =
    (case dget d ''resource_drift'' of PList drift \<Rightarrow> drift_entries drift [] [] | _ \<Rightarrow> Inr (refused ''resource_drift missing or not a list''))"
    using d o rc by (auto simp: classify_refresh_drift_def)
  with assms obtain drift where drift: "dget d ''resource_drift'' = PList drift" "drift_entries drift [] [] = Inr v"
    by (cases "dget d ''resource_drift''") (auto simp: refused_def)
  from benign_entries [OF drift(2) assms(2)] have "\<forall>e \<in> set drift. quiet_entry e \<or> churn_entry e" using benign_entry by blast
  with d o rc drift(1) show ?thesis by (auto simp: list_ex_iff)
qed

definition demo_churn :: pyval where
  "demo_churn = PDict [(''address'', PStr ''b.x''), (''type'', PStr ''google_storage_bucket''), (''change'', PDict
     [(''actions'', PList [PStr ''update'']),
      (''before'', PDict [(''name'', PStr ''x''), (''updated'', PStr ''1'')]),
      (''after'', PDict [(''updated'', PStr ''2''), (''name'', PStr ''x'')])])]"

definition demo_show :: pyval where
  "demo_show = PDict [(''resource_changes'', PList []), (''resource_drift'', PList [demo_churn])]"

lemma demo_show_benign: "\<exists>v. classify_refresh_drift demo_show = Inr v \<and> dv_benign v \<and> dv_paths v = [''b.x:updated'']"
proof -
  have "classify_refresh_drift demo_show = Inr \<lparr>dv_benign = True, dv_paths = [''b.x:updated''], dv_reason = ''all refresh drift is computed-only churn''\<rparr>"
    by code_simp
  then show ?thesis by simp
qed

theorem benign_drift_confined_witness: "quiet_entry demo_churn \<or> churn_entry demo_churn"
proof -
  from demo_show_benign obtain v where v: "classify_refresh_drift demo_show = Inr v" "dv_benign v" by blast
  from benign_drift_confined [OF v] show ?thesis by (auto simp: demo_show_def)
qed

end
