(* ===== verification/TofuRunner.thy ===== *)
theory TofuRunner
  imports DriftGate
begin

text \<open>
  The subprocess sequence of the apply worker (\<open>run_apply_sequence\<close> of
  \<open>workers/tofu_apply/tofu_runner.py\<close>): initialize, refresh-only gate, apply the saved plan, and the diagnosis
  of a failed apply.  The \<open>tofu\<close> binary is not part of the code: its answer to each command is an input, the
  exception a call raises or its exit code, standard output and standard error.
\<close>

type_synonym tofu_answer = "(string, int \<times> string \<times> string) res"

section \<open>Commands\<close>

definition TOFU_INIT :: "string list" where
  "TOFU_INIT = [''init'', ''-input=false'', ''-no-color'', ''-lockfile=readonly'']"

definition TOFU_REFRESH :: "string list" where
  "TOFU_REFRESH = [''plan'', ''-refresh-only'', ''-detailed-exitcode'', ''-out=refresh.tfplan'', ''-input=false'', ''-no-color'',
     ''-lock=true'', ''-lock-timeout=120s'']"

definition TOFU_SHOW :: "string list" where "TOFU_SHOW = [''show'', ''-json'', ''refresh.tfplan'']"

definition TOFU_STATE :: "string list" where "TOFU_STATE = [''state'', ''pull'']"

definition TOFU_APPLY :: "string list" where
  "TOFU_APPLY = [''apply'', ''-input=false'', ''-no-color'', ''-lock=true'', ''-lock-timeout=120s'', ''-auto-approve'', ''plan.tfplan'']"

definition TOFU_DIAGNOSE :: "string list" where
  "TOFU_DIAGNOSE = [''plan'', ''-refresh-only'', ''-detailed-exitcode'', ''-no-color'', ''-lock=false'', ''-input=false'']"

lemmas tofu_commands = TOFU_INIT_def TOFU_REFRESH_def TOFU_SHOW_def TOFU_STATE_def TOFU_APPLY_def TOFU_DIAGNOSE_def

section \<open>Outcomes\<close>

record post_failure_state =
  pf_state_suspect :: bool
  pf_serial_before :: "pyval option"
  pf_serial_after :: "pyval option"
  pf_serial_bumped :: bool
  pf_refresh_exit :: "int option"
  pf_refresh_drift :: bool
  pf_refresh_output :: string
  pf_refresh_stderr :: string

record apply_outcome =
  ao_freshness_exit :: int
  ao_apply_exit :: int
  ao_state_serial :: "pyval option"
  ao_state_lineage :: "string option"
  ao_benign_drift_paths :: "string list"

text \<open>How the sequence ends; \<open>RaisedBy\<close> is an exception of the call itself, which no handler names.\<close>

datatype seq_result =
    Applied apply_outcome
  | FreshnessDrift string
  | LockRefused string int string
  | TofuStepError string int string
  | ApplyStateSuspect string int string post_failure_state
  | RaisedBy string

text \<open>The state lock phrase is searched without regard to case.\<close>

definition is_lock_contention :: "string \<Rightarrow> bool" where
  "is_lock_contention stderr \<longleftrightarrow> contains_str ''error acquiring the state lock'' (map lower_char stderr)"

definition raise_step_failure :: "string \<Rightarrow> int \<Rightarrow> string \<Rightarrow> seq_result" where
  "raise_step_failure step rc stderr =
     (if is_lock_contention stderr then LockRefused step rc stderr else TofuStepError step rc stderr)"

text \<open>Serial and lineage of \<open>tofu state pull\<close>; \<open>isinstance(serial, int)\<close> holds of a boolean too.\<close>

definition state_serial_lineage :: "tofu_answer \<Rightarrow> pyval option \<times> string option" where
  "state_serial_lineage ans =
     (case ans of
        Inr (rc, out, err) \<Rightarrow>
          if rc \<noteq> 0 then (None, None)
          else (case json_loads out of
            Some (PDict d) \<Rightarrow>
              ((case dget d ''serial'' of PInt i \<Rightarrow> Some (PInt i) | PBool b \<Rightarrow> Some (PBool b) | _ \<Rightarrow> None),
               as_str (dget d ''lineage''))
          | _ \<Rightarrow> (None, None))
      | Inl e \<Rightarrow> (None, None))"

definition refresh_drift_verdict :: "tofu_answer \<Rightarrow> (string, drift_verdict) res" where
  "refresh_drift_verdict ans =
     (case ans of
        Inl e \<Rightarrow> Inl e
      | Inr (rc, out, err) \<Rightarrow>
          Inr (if rc \<noteq> 0 then refused ''refresh show -json failed''
               else (case json_loads out of
                 None \<Rightarrow> refused ''refresh drift classification failed''
               | Some show_json \<Rightarrow>
                   (case classify_refresh_drift show_json of
                      Inl e \<Rightarrow> refused ''refresh drift classification failed''
                    | Inr v \<Rightarrow> v))))"

type_synonym baseline = "pyval option \<times> string option"

definition provably_clean :: "baseline \<Rightarrow> baseline \<Rightarrow> int \<Rightarrow> bool" where
  "provably_clean before after rc \<longleftrightarrow>
     (case (fst before, fst after) of (Some s, Some t) \<Rightarrow> py_eq t s | _ \<Rightarrow> False) \<and>
     snd before \<noteq> None \<and> snd after = snd before \<and> rc = 0"

definition serial_bumped :: "baseline \<Rightarrow> baseline \<Rightarrow> bool" where
  "serial_bumped before after = (case (fst before, fst after) of (Some s, Some t) \<Rightarrow> \<not> py_eq t s | _ \<Rightarrow> False)"

definition diagnose_post_failure_state :: "baseline \<Rightarrow> baseline \<Rightarrow> tofu_answer \<Rightarrow> post_failure_state" where
  "diagnose_post_failure_state before after ans =
     (case ans of
        Inl exc \<Rightarrow>
          \<lparr>pf_state_suspect = True, pf_serial_before = fst before, pf_serial_after = fst after,
           pf_serial_bumped = serial_bumped before after, pf_refresh_exit = None, pf_refresh_drift = False,
           pf_refresh_output = [], pf_refresh_stderr = ''refresh diagnosis raised: '' @ exc\<rparr>
      | Inr (rc, out, err) \<Rightarrow>
          \<lparr>pf_state_suspect = (\<not> provably_clean before after rc), pf_serial_before = fst before,
           pf_serial_after = fst after, pf_serial_bumped = serial_bumped before after, pf_refresh_exit = Some rc,
           pf_refresh_drift = (rc = 2), pf_refresh_output = out, pf_refresh_stderr = err\<rparr>)"

section \<open>The sequence\<close>

text \<open>Where the sequence stands: the command it waits for, with what the earlier answers left.\<close>

datatype seq_pc =
    QInit
  | QRefresh
  | QShow
  | QBaseline int "string list"
  | QApply int "string list" baseline
  | QStateAfter int string baseline
  | QDiagnose int string baseline baseline
  | QOutcome int "string list"
  | QDone seq_result

fun command :: "seq_pc \<Rightarrow> string list option" where
  "command QInit = Some TOFU_INIT"
| "command QRefresh = Some TOFU_REFRESH"
| "command QShow = Some TOFU_SHOW"
| "command (QBaseline _ _) = Some TOFU_STATE"
| "command (QApply _ _ _) = Some TOFU_APPLY"
| "command (QStateAfter _ _ _) = Some TOFU_STATE"
| "command (QDiagnose _ _ _ _) = Some TOFU_DIAGNOSE"
| "command (QOutcome _ _) = Some TOFU_STATE"
| "command (QDone _) = None"

definition or_raise :: "tofu_answer \<Rightarrow> (int \<Rightarrow> string \<Rightarrow> seq_pc) \<Rightarrow> seq_pc" where
  "or_raise ans f = (case ans of Inl e \<Rightarrow> QDone (RaisedBy e) | Inr (rc, out, err) \<Rightarrow> f rc err)"

definition after_show :: "(string, drift_verdict) res \<Rightarrow> seq_pc" where
  "after_show r =
     (case r of
        Inl e \<Rightarrow> QDone (RaisedBy e)
      | Inr v \<Rightarrow>
          if \<not> dv_benign v then QDone (FreshnessDrift (''refusing apply: '' @ dv_reason v))
          else if dv_paths v = [] then QDone (FreshnessDrift ''refusing apply: refresh exit 2 but no classifiable drift'')
          else QBaseline 2 (dv_paths v))"

fun seq_step :: "tofu_answer \<Rightarrow> seq_pc \<Rightarrow> seq_pc" where
  "seq_step ans QInit = or_raise ans (\<lambda>rc err. if rc \<noteq> 0 then QDone (raise_step_failure ''init'' rc err) else QRefresh)"
| "seq_step ans QRefresh = or_raise ans (\<lambda>rc err.
     if rc = 2 then QShow else if rc \<noteq> 0 then QDone (raise_step_failure ''refresh-only'' rc err) else QBaseline 0 [])"
| "seq_step ans QShow = after_show (refresh_drift_verdict ans)"
| "seq_step ans (QBaseline fresh paths) = QApply fresh paths (state_serial_lineage ans)"
| "seq_step ans (QApply fresh paths before) = or_raise ans (\<lambda>rc err.
     if rc = 0 then QOutcome fresh paths
     else if is_lock_contention err then QDone (LockRefused ''apply'' rc err)
     else QStateAfter rc err before)"
| "seq_step ans (QStateAfter rc err before) = QDiagnose rc err before (state_serial_lineage ans)"
| "seq_step ans (QDiagnose rc err before after) =
     (let diag = diagnose_post_failure_state before after ans in
      QDone (if pf_state_suspect diag then ApplyStateSuspect ''apply'' rc err diag else TofuStepError ''apply'' rc err))"
| "seq_step ans (QOutcome fresh paths) =
     (let (serial, lineage) = state_serial_lineage ans in
      QDone (Applied \<lparr>ao_freshness_exit = fresh, ao_apply_exit = 0, ao_state_serial = serial, ao_state_lineage = lineage,
                      ao_benign_drift_paths = paths\<rparr>))"
| "seq_step ans (QDone r) = QDone r"

text \<open>The commands issued and the point reached, one answer per command.\<close>

fun run_apply_sequence :: "tofu_answer list \<Rightarrow> seq_pc \<Rightarrow> string list list \<times> seq_pc" where
  "run_apply_sequence [] pc = ([], pc)"
| "run_apply_sequence (ans # rest) pc =
     (case command pc of
        None \<Rightarrow> ([], pc)
      | Some cmd \<Rightarrow> (let (cmds, end) = run_apply_sequence rest (seq_step ans pc) in (cmd # cmds, end)))"

section \<open>It ends\<close>

fun steps_left :: "seq_pc \<Rightarrow> nat" where
  "steps_left (QDone _) = 0"
| "steps_left (QDiagnose _ _ _ _) = 1"
| "steps_left (QOutcome _ _) = 1"
| "steps_left (QStateAfter _ _ _) = 2"
| "steps_left (QApply _ _ _) = 3"
| "steps_left (QBaseline _ _) = 4"
| "steps_left QShow = 5"
| "steps_left QRefresh = 6"
| "steps_left QInit = 7"

lemma step_decreases: "steps_left (seq_step ans pc) \<le> steps_left pc - 1"
  by (cases pc) (auto simp: or_raise_def after_show_def Let_def split: sum.splits prod.splits)

lemma command_iff: "command pc = None \<longleftrightarrow> steps_left pc = 0" "command pc = Some TOFU_APPLY \<longleftrightarrow> steps_left pc = 3"
  by (cases pc; simp add: tofu_commands)+

lemma apply_count: "count_list (fst (run_apply_sequence answers pc)) TOFU_APPLY \<le> (if 3 \<le> steps_left pc then 1 else 0)"
proof (induction answers arbitrary: pc)
  case (Cons ans rest)
  show ?case
  proof (cases "command pc")
    case (Some cmd)
    from Cons.IH [of "seq_step ans pc"] step_decreases [of ans pc] command_iff(2) [of pc] Some show ?thesis
      by (auto simp: split_def Let_def split: if_splits)
  qed simp
qed simp

lemma sequence_ends: "steps_left pc \<le> length answers \<Longrightarrow> \<exists>r. snd (run_apply_sequence answers pc) = QDone r"
proof (induction answers arbitrary: pc)
  case Nil
  then show ?case by (cases pc) auto
next
  case (Cons ans rest)
  show ?case
  proof (cases "command pc")
    case None
    then show ?thesis by (cases pc) auto
  next
    case (Some cmd)
    from Cons.prems step_decreases [of ans pc] have "steps_left (seq_step ans pc) \<le> length rest" by simp
    from Cons.IH [OF this] Some show ?thesis by (simp add: split_def Let_def)
  qed
qed

section \<open>When it applies\<close>

abbreviation issues :: "tofu_answer list \<Rightarrow> seq_pc \<Rightarrow> string list list" where
  "issues answers pc \<equiv> fst (run_apply_sequence answers pc)"

lemma issues_Cons: "command pc = Some cmd \<Longrightarrow> issues (ans # rest) pc = cmd # issues rest (seq_step ans pc)"
  by (simp add: split_def Let_def)

lemma issues_Nil [simp]: "issues [] pc = []"
  by simp

lemma apply_distinct [simp]:
  "TOFU_APPLY \<noteq> TOFU_INIT" "TOFU_APPLY \<noteq> TOFU_REFRESH" "TOFU_APPLY \<noteq> TOFU_SHOW" "TOFU_APPLY \<noteq> TOFU_STATE"
  "TOFU_APPLY \<noteq> TOFU_DIAGNOSE"
  by (simp_all add: tofu_commands)

lemma issues_Done [simp]: "issues answers (QDone r) = []"
  by (cases answers) simp_all

declare run_apply_sequence.simps [simp del]

lemma applies_from_baseline:
  assumes "TOFU_APPLY \<in> set (issues answers (QBaseline fresh paths))"
  shows "take 2 (issues answers (QBaseline fresh paths)) = [TOFU_STATE, TOFU_APPLY]"
proof -
  from assms obtain a rest where a: "answers = a # rest" by (cases answers) auto
  with assms obtain b rest' where "rest = b # rest'" by (cases rest) (auto simp: issues_Cons)
  with a show ?thesis by (simp add: issues_Cons)
qed

lemma applies_from_show:
  assumes "TOFU_APPLY \<in> set (issues answers QShow)"
  shows "\<exists>out err rest show_json v. answers = Inr (0, out, err) # rest \<and> json_loads out = Some show_json \<and>
    classify_refresh_drift show_json = Inr v \<and> dv_benign v \<and> dv_paths v \<noteq> [] \<and>
    take 3 (issues answers QShow) = [TOFU_SHOW, TOFU_STATE, TOFU_APPLY]"
proof -
  from assms obtain a rest where a: "answers = a # rest" by (cases answers) auto
  with assms have in_rest: "TOFU_APPLY \<in> set (issues rest (after_show (refresh_drift_verdict a)))"
    by (simp add: issues_Cons)
  then obtain v where v: "refresh_drift_verdict a = Inr v" "dv_benign v" "dv_paths v \<noteq> []"
    by (cases "refresh_drift_verdict a") (auto simp: after_show_def split: if_splits)
  with in_rest have base: "TOFU_APPLY \<in> set (issues rest (QBaseline 2 (dv_paths v)))" by (simp add: after_show_def)
  from applies_from_baseline [OF this] a v have t: "take 3 (issues answers QShow) = [TOFU_SHOW, TOFU_STATE, TOFU_APPLY]"
    by (simp add: issues_Cons after_show_def numeral_3_eq_3 numeral_2_eq_2)
  from v obtain rc out err where ans: "a = Inr (rc, out, err)" by (cases a) (auto simp: refresh_drift_verdict_def)
  with v have "rc = 0" "\<exists>show_json. json_loads out = Some show_json \<and> classify_refresh_drift show_json = Inr v"
    by (auto simp: refresh_drift_verdict_def refused_def split: if_splits option.splits sum.splits)
  with a ans v t show ?thesis by blast
qed

text \<open>C9: The saved plan is applied only to a fresh state: whatever \<open>tofu\<close> answers, the apply command is issued
  at most once, only after the initialization succeeded and the refresh-only plan either found no drift or
  found drift that its own JSON shows to be benign and not empty; the commands before it are exactly these
  and one state read, and the command names the saved plan.\<close>

theorem apply_needs_fresh_state:
  "count_list (issues answers QInit) TOFU_APPLY \<le> 1 \<and>
   (TOFU_APPLY \<in> set (issues answers QInit) \<longrightarrow>
     (\<exists>o1 e1 ans rest. answers = Inr (0, o1, e1) # ans # rest \<and>
       ((\<exists>o2 e2. ans = Inr (0, o2, e2) \<and> take 4 (issues answers QInit) = [TOFU_INIT, TOFU_REFRESH, TOFU_STATE, TOFU_APPLY]) \<or>
        (\<exists>o2 e2 out err rest' show_json v. ans = Inr (2, o2, e2) \<and> rest = Inr (0, out, err) # rest' \<and>
           json_loads out = Some show_json \<and> classify_refresh_drift show_json = Inr v \<and> dv_benign v \<and> dv_paths v \<noteq> [] \<and>
           take 5 (issues answers QInit) = [TOFU_INIT, TOFU_REFRESH, TOFU_SHOW, TOFU_STATE, TOFU_APPLY]))))"
proof (intro conjI impI)
  show "count_list (issues answers QInit) TOFU_APPLY \<le> 1" using apply_count [of answers QInit] by simp
  assume applied: "TOFU_APPLY \<in> set (issues answers QInit)"
  then obtain a rest where a: "answers = a # rest" by (cases answers) auto
  with applied obtain o1 e1 where a1: "a = Inr (0, o1, e1)" and in1: "TOFU_APPLY \<in> set (issues rest QRefresh)"
    by (auto simp: issues_Cons or_raise_def split: sum.splits if_splits)
  from in1 obtain b rest2 where b: "rest = b # rest2" by (cases rest) auto
  with in1 have in2: "TOFU_APPLY \<in> set (issues rest2 (seq_step b QRefresh))" by (simp add: issues_Cons)
  then obtain rc o2 e2 where b2: "b = Inr (rc, o2, e2)" and "rc = 0 \<or> rc = 2"
    by (cases b) (auto simp: or_raise_def split: if_splits)
  from this(2) show "\<exists>o1 e1 ans rest. answers = Inr (0, o1, e1) # ans # rest \<and>
       ((\<exists>o2 e2. ans = Inr (0, o2, e2) \<and> take 4 (issues answers QInit) = [TOFU_INIT, TOFU_REFRESH, TOFU_STATE, TOFU_APPLY]) \<or>
        (\<exists>o2 e2 out err rest' show_json v. ans = Inr (2, o2, e2) \<and> rest = Inr (0, out, err) # rest' \<and>
           json_loads out = Some show_json \<and> classify_refresh_drift show_json = Inr v \<and> dv_benign v \<and> dv_paths v \<noteq> [] \<and>
           take 5 (issues answers QInit) = [TOFU_INIT, TOFU_REFRESH, TOFU_SHOW, TOFU_STATE, TOFU_APPLY]))"
  proof
    assume "rc = 0"
    with in2 b2 have in3: "TOFU_APPLY \<in> set (issues rest2 (QBaseline 0 []))" by (simp add: or_raise_def)
    from applies_from_baseline [OF this] have "take 4 (issues answers QInit) = [TOFU_INIT, TOFU_REFRESH, TOFU_STATE, TOFU_APPLY]"
      using a a1 b b2 \<open>rc = 0\<close> by (simp add: issues_Cons or_raise_def numeral_eq_Suc)
    with a a1 b b2 \<open>rc = 0\<close> show ?thesis by blast
  next
    assume "rc = 2"
    with in2 b2 have in3: "TOFU_APPLY \<in> set (issues rest2 QShow)" by (simp add: or_raise_def)
    from applies_from_show [OF this] obtain out err rest3 show_json v where s: "rest2 = Inr (0, out, err) # rest3"
      "json_loads out = Some show_json" "classify_refresh_drift show_json = Inr v" "dv_benign v" "dv_paths v \<noteq> []"
      "take 3 (issues rest2 QShow) = [TOFU_SHOW, TOFU_STATE, TOFU_APPLY]" by blast
    have "issues answers QInit = TOFU_INIT # TOFU_REFRESH # issues rest2 QShow"
      using a a1 b b2 \<open>rc = 2\<close> by (simp add: issues_Cons or_raise_def)
    with s(6) have "take 5 (issues answers QInit) = [TOFU_INIT, TOFU_REFRESH, TOFU_SHOW, TOFU_STATE, TOFU_APPLY]"
      by (simp add: numeral_eq_Suc)
    with s(2-5) have "\<exists>o2 e2 out err rest' show_json v. b = Inr (2, o2, e2) \<and> rest2 = Inr (0, out, err) # rest' \<and>
           json_loads out = Some show_json \<and> classify_refresh_drift show_json = Inr v \<and> dv_benign v \<and> dv_paths v \<noteq> [] \<and>
           take 5 (issues answers QInit) = [TOFU_INIT, TOFU_REFRESH, TOFU_SHOW, TOFU_STATE, TOFU_APPLY]"
      using b2 \<open>rc = 2\<close> s(1) by (intro exI [of _ o2] exI [of _ e2] exI [of _ out] exI [of _ err] exI [of _ rest3]
        exI [of _ show_json] exI [of _ v]) simp
    then show ?thesis using a a1 b by (intro exI [of _ o1] exI [of _ e1] exI [of _ b] exI [of _ rest2]) simp
  qed
qed

text \<open>The state that \<open>refresh-only\<close> answers 0 for, before and after the apply.\<close>

lemma demo_fresh_issues:
  "issues [Inr (0, [], []), Inr (0, [], []), Inr (0, [], []), Inr (0, [], []), Inr (0, [], [])] QInit =
     [TOFU_INIT, TOFU_REFRESH, TOFU_STATE, TOFU_APPLY, TOFU_STATE]"
  by (simp add: issues_Cons or_raise_def)

theorem apply_needs_fresh_state_witness:
  "take 4 (issues [Inr (0, [], []), Inr (0, [], []), Inr (0, [], []), Inr (0, [], []), Inr (0, [], [])] QInit) =
     [TOFU_INIT, TOFU_REFRESH, TOFU_STATE, TOFU_APPLY]"
  using apply_needs_fresh_state [of "[Inr (0, [], []), Inr (0, [], []), Inr (0, [], []), Inr (0, [], []), Inr (0, [], [])]"]
  by (simp add: demo_fresh_issues)

section \<open>What a failed apply leaves\<close>

text \<open>The sequence always ends: after at most seven answers of \<open>tofu\<close>, whatever they are, it has a
  result, so a claimed approval is never left waiting on a subprocess that has answered.\<close>

theorem sequence_terminates:
  assumes "7 \<le> length answers"
  shows "\<exists>r. snd (run_apply_sequence answers QInit) = QDone r"
  using assms by (intro sequence_ends) simp

theorem sequence_terminates_witness:
  "\<exists>r. snd (run_apply_sequence (replicate 7 (Inl ''OSError'')) QInit) = QDone r"
  by (rule sequence_terminates) simp

abbreviation final :: "tofu_answer list \<Rightarrow> seq_pc \<Rightarrow> seq_pc" where
  "final answers pc \<equiv> snd (run_apply_sequence answers pc)"

lemma final_simps [simp]: "final [] pc = pc" "final answers (QDone r) = QDone r"
  by (cases answers; simp add: run_apply_sequence.simps)+

lemma final_Cons: "command pc = Some cmd \<Longrightarrow> final (ans # rest) pc = final rest (seq_step ans pc)"
  by (simp add: run_apply_sequence.simps split_def Let_def)

text \<open>The answers from the state read on, when the apply command failed and its state was then found clean, or
  when it succeeded.\<close>

definition state_unmoved :: "baseline \<Rightarrow> baseline \<Rightarrow> bool" where
  "state_unmoved before after \<longleftrightarrow>
     (\<exists>serial serial' lineage. before = (Some serial, Some lineage) \<and> after = (Some serial', Some lineage) \<and> py_eq serial' serial)"

definition found_unmoved :: "tofu_answer \<Rightarrow> tofu_answer \<Rightarrow> tofu_answer \<Rightarrow> bool" where
  "found_unmoved before after diag \<longleftrightarrow>
     state_unmoved (state_serial_lineage before) (state_serial_lineage after) \<and> (\<exists>out err. diag = Inr (0, out, err))"

definition clean_failure :: "tofu_answer list \<Rightarrow> int \<Rightarrow> string \<Rightarrow> bool" where
  "clean_failure answers rc err \<longleftrightarrow>
     (\<exists>before out after diag rest. answers = before # Inr (rc, out, err) # after # diag # rest \<and> rc \<noteq> 0 \<and>
        found_unmoved before after diag)"

definition suspect_failure :: "tofu_answer list \<Rightarrow> int \<Rightarrow> string \<Rightarrow> bool" where
  "suspect_failure answers rc err \<longleftrightarrow>
     (\<exists>before out after diag rest. answers = before # Inr (rc, out, err) # after # diag # rest \<and> rc \<noteq> 0 \<and>
        \<not> found_unmoved before after diag)"

definition success :: "tofu_answer list \<Rightarrow> apply_outcome \<Rightarrow> bool" where
  "success answers ao \<longleftrightarrow>
     (\<exists>before out err after rest. answers = before # Inr (0, out, err) # after # rest \<and> ao_apply_exit ao = 0 \<and>
        state_serial_lineage after = (ao_state_serial ao, ao_state_lineage ao))"

text \<open>The answers before the state read: the refresh found no drift, or drift that its classification approves
  in at least one path.\<close>

definition fresh_start :: "tofu_answer list \<Rightarrow> int \<Rightarrow> string list \<Rightarrow> bool" where
  "fresh_start answers fresh paths \<longleftrightarrow>
     (\<exists>o1 e1 o2 e2. answers = [Inr (0, o1, e1), Inr (0, o2, e2)] \<and> fresh = 0 \<and> paths = []) \<or>
     (\<exists>o1 e1 o2 e2 out err doc v. answers = [Inr (0, o1, e1), Inr (2, o2, e2), Inr (0, out, err)] \<and>
        json_loads out = Some doc \<and> classify_refresh_drift doc = Inr v \<and> dv_benign v \<and> dv_paths v \<noteq> [] \<and>
        fresh = 2 \<and> paths = dv_paths v)"

lemma provably_clean_exit: "provably_clean b a rc \<longleftrightarrow> rc = 0 \<and> state_unmoved b a"
  by (cases b; cases a) (auto simp: provably_clean_def state_unmoved_def split: option.splits)

lemma step_failure_simps [simp]:
  "raise_step_failure s rc e = TofuStepError s' rc' e' \<longleftrightarrow> \<not> is_lock_contention e \<and> s = s' \<and> rc = rc' \<and> e = e'"
  "raise_step_failure s rc e \<noteq> Applied o1"
  by (simp_all add: raise_step_failure_def)

text \<open>A point that still waits for an answer is done only once it has one.\<close>

lemma final_Done:
  assumes "command pc = Some cmd"
  shows "final answers pc = QDone r \<longleftrightarrow> (\<exists>a rest. answers = a # rest \<and> final rest (seq_step a pc) = QDone r)"
  using assms by (cases answers) (auto simp: final_Cons)

lemma final_diagnose:
  "final answers (QDiagnose rc err (state_serial_lineage before) (state_serial_lineage after)) = QDone r \<longleftrightarrow>
     (\<exists>diag rest. answers = diag # rest \<and>
        r = (if found_unmoved before after diag then TofuStepError ''apply'' rc err
             else ApplyStateSuspect ''apply'' rc err
               (diagnose_post_failure_state (state_serial_lineage before) (state_serial_lineage after) diag)))"
proof -
  have "pf_state_suspect (diagnose_post_failure_state (state_serial_lineage before) (state_serial_lineage after) d) \<longleftrightarrow>
      \<not> found_unmoved before after d" for d
    by (cases d) (auto simp: diagnose_post_failure_state_def provably_clean_exit found_unmoved_def)
  then show ?thesis by (auto simp: final_Done Let_def)
qed

lemma final_after:
  "final answers (QStateAfter rc err (state_serial_lineage before)) = QDone r \<longleftrightarrow>
     (\<exists>after diag rest. answers = after # diag # rest \<and>
        r = (if found_unmoved before after diag then TofuStepError ''apply'' rc err
             else ApplyStateSuspect ''apply'' rc err
               (diagnose_post_failure_state (state_serial_lineage before) (state_serial_lineage after) diag)))"
  unfolding final_Done [OF command.simps(6)] seq_step.simps final_diagnose by blast

lemma final_outcome:
  "final answers (QOutcome fresh paths) = QDone r \<longleftrightarrow>
     (\<exists>a rest. answers = a # rest \<and> r = Applied \<lparr>ao_freshness_exit = fresh, ao_apply_exit = 0,
        ao_state_serial = fst (state_serial_lineage a), ao_state_lineage = snd (state_serial_lineage a), ao_benign_drift_paths = paths\<rparr>)"
  by (auto simp: final_Done split_def Let_def)

text \<open>The results the sequence can only have once it has read the state.\<close>

definition late :: "seq_result \<Rightarrow> bool" where
  "late r \<longleftrightarrow> (\<exists>ao. r = Applied ao) \<or> (\<exists>rc err. r = TofuStepError ''apply'' rc err) \<or> (\<exists>rc err d. r = ApplyStateSuspect ''apply'' rc err d)"

lemma early_not_late [simp]:
  "\<not> late (RaisedBy e)" "\<not> late (FreshnessDrift m)" "\<not> late (LockRefused s rc err)" "\<not> late (raise_step_failure ''init'' rc err)"
  "\<not> late (raise_step_failure ''refresh-only'' rc err)"
  by (auto simp: late_def raise_step_failure_def)

text \<open>From the state read on: what the answer to the apply command decides.\<close>

lemma final_apply_step:
  assumes "late r"
  shows "final rest (seq_step ans (QApply fresh paths b)) = QDone r \<longleftrightarrow>
    (\<exists>out err. ans = Inr (0, out, err) \<and> final rest (QOutcome fresh paths) = QDone r) \<or>
    (\<exists>rc out err. ans = Inr (rc, out, err) \<and> rc \<noteq> 0 \<and> \<not> is_lock_contention err \<and> final rest (QStateAfter rc err b) = QDone r)"
proof (cases ans)
  case (Inl e)
  with assms show ?thesis by (auto simp: or_raise_def)
next
  case (Inr x)
  obtain rc out err where "x = (rc, out, err)" by (cases x)
  with Inr assms show ?thesis by (auto simp: or_raise_def)
qed

lemma verdict_eq:
  "TofuStepError s rc err = (if c then TofuStepError s rc' err' else ApplyStateSuspect t rc' err' d) \<longleftrightarrow>
     c \<and> rc = rc' \<and> err = err'"
  "(\<exists>diag. ApplyStateSuspect t rc err diag = (if c then TofuStepError s rc' err' else ApplyStateSuspect t rc' err' d)) \<longleftrightarrow>
     \<not> c \<and> rc = rc' \<and> err = err'"
  by auto

lemma final_apply:
  assumes "late r"
  shows "final answers (QBaseline fresh paths) = QDone r \<longleftrightarrow>
    (\<exists>before out err after rest. answers = before # Inr (0, out, err) # after # rest \<and>
       r = Applied \<lparr>ao_freshness_exit = fresh, ao_apply_exit = 0, ao_state_serial = fst (state_serial_lineage after),
         ao_state_lineage = snd (state_serial_lineage after), ao_benign_drift_paths = paths\<rparr>) \<or>
    (\<exists>before rc out err after diag rest. answers = before # Inr (rc, out, err) # after # diag # rest \<and> rc \<noteq> 0 \<and>
       \<not> is_lock_contention err \<and>
       r = (if found_unmoved before after diag then TofuStepError ''apply'' rc err
            else ApplyStateSuspect ''apply'' rc err
              (diagnose_post_failure_state (state_serial_lineage before) (state_serial_lineage after) diag)))"
  (is "_ \<longleftrightarrow> ?applied \<or> ?failed")
proof -
  have "final answers (QBaseline fresh paths) = QDone r \<longleftrightarrow>
      (\<exists>before ans rest. answers = before # ans # rest \<and>
         final rest (seq_step ans (QApply fresh paths (state_serial_lineage before))) = QDone r)"
    by (simp add: final_Done del: seq_step.simps(5)) blast
  also have "\<dots> \<longleftrightarrow> ?applied \<or>
      (\<exists>before rc out err rest. answers = before # Inr (rc, out, err) # rest \<and> rc \<noteq> 0 \<and> \<not> is_lock_contention err \<and>
         final rest (QStateAfter rc err (state_serial_lineage before)) = QDone r)"
    unfolding final_apply_step [OF assms] final_outcome by blast
  also have "\<dots> \<longleftrightarrow> ?applied \<or> ?failed" unfolding final_after by blast
  finally show ?thesis .
qed

lemma final_show:
  assumes "late r"
  shows "final answers QShow = QDone r \<longleftrightarrow>
    (\<exists>out err doc v rest. answers = Inr (0, out, err) # rest \<and> json_loads out = Some doc \<and>
       classify_refresh_drift doc = Inr v \<and> dv_benign v \<and> dv_paths v \<noteq> [] \<and> final rest (QBaseline 2 (dv_paths v)) = QDone r)"
proof -
  have "final rest (after_show (refresh_drift_verdict a)) = QDone r \<longleftrightarrow>
      (\<exists>out err doc v. a = Inr (0, out, err) \<and> json_loads out = Some doc \<and>
         classify_refresh_drift doc = Inr v \<and> dv_benign v \<and> dv_paths v \<noteq> [] \<and> final rest (QBaseline 2 (dv_paths v)) = QDone r)" for a rest
    using assms
    by (auto simp: refresh_drift_verdict_def after_show_def refused_def split: sum.splits prod.splits option.splits if_splits)
  then show ?thesis by (auto simp: final_Done)
qed

lemma fresh_start_split:
  "(\<exists>pre rest fresh paths. answers = pre @ rest \<and> fresh_start pre fresh paths \<and> P rest fresh paths) \<longleftrightarrow>
   (\<exists>o1 e1 o2 e2 rest. answers = Inr (0, o1, e1) # Inr (0, o2, e2) # rest \<and> P rest 0 []) \<or>
   (\<exists>o1 e1 o2 e2 rest2. answers = Inr (0, o1, e1) # Inr (2, o2, e2) # rest2 \<and>
      (\<exists>out err doc v rest. rest2 = Inr (0, out, err) # rest \<and> json_loads out = Some doc \<and>
         classify_refresh_drift doc = Inr v \<and> dv_benign v \<and> dv_paths v \<noteq> [] \<and> P rest 2 (dv_paths v)))"
  (is "?l \<longleftrightarrow> ?none \<or> ?drift")
proof
  assume ?l
  then obtain pre rest fresh paths where h: "answers = pre @ rest" "fresh_start pre fresh paths" "P rest fresh paths" by blast
  from h(2) show "?none \<or> ?drift" unfolding fresh_start_def
  proof (elim disjE exE conjE)
    fix o1 e1 o2 e2 assume "pre = [Inr (0, o1, e1), Inr (0, o2, e2)]" "fresh = 0" "paths = []"
    with h show ?thesis by simp
  next
    fix o1 e1 o2 e2 out err doc v
    assume "pre = [Inr (0, o1, e1), Inr (2, o2, e2), Inr (0, out, err)]" "json_loads out = Some doc"
      "classify_refresh_drift doc = Inr v" "dv_benign v" "dv_paths v \<noteq> []" "fresh = 2" "paths = dv_paths v"
    with h show ?thesis by (intro disjI2) simp
  qed
next
  assume "?none \<or> ?drift"
  then show ?l
  proof (elim disjE exE conjE)
    fix o1 e1 o2 e2 rest assume "answers = Inr (0, o1, e1) # Inr (0, o2, e2) # rest" "P rest 0 []"
    then show ?l by (intro exI [of _ "[Inr (0, o1, e1), Inr (0, o2, e2)]"] exI [of _ rest] exI [of _ 0] exI [of _ "[]"])
        (simp add: fresh_start_def)
  next
    fix o1 e1 o2 e2 rest2 out err doc v rest
    assume "answers = Inr (0, o1, e1) # Inr (2, o2, e2) # rest2" "rest2 = Inr (0, out, err) # rest" "json_loads out = Some doc"
      "classify_refresh_drift doc = Inr v" "dv_benign v" "dv_paths v \<noteq> []" "P rest 2 (dv_paths v)"
    then show ?l by (intro exI [of _ "[Inr (0, o1, e1), Inr (2, o2, e2), Inr (0, out, err)]"] exI [of _ rest] exI [of _ 2]
          exI [of _ "dv_paths v"]) (simp add: fresh_start_def)
  qed
qed

lemma final_late:
  assumes "late r"
  shows "final answers QInit = QDone r \<longleftrightarrow>
    (\<exists>pre rest fresh paths. answers = pre @ rest \<and> fresh_start pre fresh paths \<and> final rest (QBaseline fresh paths) = QDone r)"
proof -
  have refresh: "final rest (seq_step a QRefresh) = QDone r \<longleftrightarrow>
      (\<exists>o2 e2. a = Inr (2, o2, e2) \<and> final rest QShow = QDone r \<or> a = Inr (0, o2, e2) \<and> final rest (QBaseline 0 []) = QDone r)" for a rest
    using assms by (auto simp: or_raise_def split: sum.splits prod.splits if_splits)
  have init: "final rest (seq_step a QInit) = QDone r \<longleftrightarrow> (\<exists>o1 e1. a = Inr (0, o1, e1) \<and> final rest QRefresh = QDone r)" for a rest
    using assms by (auto simp: or_raise_def split: sum.splits prod.splits if_splits)
  have "final answers QInit = QDone r \<longleftrightarrow>
      (\<exists>o1 e1 o2 e2 rest. answers = Inr (0, o1, e1) # Inr (0, o2, e2) # rest \<and> final rest (QBaseline 0 []) = QDone r) \<or>
      (\<exists>o1 e1 o2 e2 rest. answers = Inr (0, o1, e1) # Inr (2, o2, e2) # rest \<and> final rest QShow = QDone r)"
    unfolding final_Done [OF command.simps(1)] init final_Done [OF command.simps(2)] refresh by blast
  then show ?thesis unfolding final_show [OF assms] fresh_start_split by blast
qed

text \<open>C33: What a finished apply sequence reports is exactly what it saw.  It reports a failed \<open>apply\<close> step (the
  outcome an operator may retry) if and only if the working copy was initialised, its refresh was fresh (no
  drift, or drift classified as benign in at least one path), the apply command then exited non-zero, not
  refused by the state lock, the state's serial and lineage were readable and equal before and after it, and a
  refresh after it exited zero.  It reports a suspect state if and only if after such a start the command failed
  that way and the state or the refresh after it does not show that.  It reports the plan applied if and only if
  after such a start the command exited zero, and then with the freshness, the approved paths and the state it
  read.\<close>

theorem clean_failure_is_proven:
  "(final answers QInit = QDone (TofuStepError ''apply'' rc err) \<longleftrightarrow>
      (\<exists>pre rest fresh paths. answers = pre @ rest \<and> fresh_start pre fresh paths \<and> \<not> is_lock_contention err \<and> clean_failure rest rc err)) \<and>
   ((\<exists>diag. final answers QInit = QDone (ApplyStateSuspect ''apply'' rc err diag)) \<longleftrightarrow>
      (\<exists>pre rest fresh paths. answers = pre @ rest \<and> fresh_start pre fresh paths \<and> \<not> is_lock_contention err \<and> suspect_failure rest rc err)) \<and>
   (final answers QInit = QDone (Applied ao) \<longleftrightarrow>
      (\<exists>pre rest. answers = pre @ rest \<and> fresh_start pre (ao_freshness_exit ao) (ao_benign_drift_paths ao) \<and> success rest ao))"
proof (intro conjI)
  have l: "late (TofuStepError ''apply'' rc err)" by (simp add: late_def)
  have "final rest (QBaseline fresh paths) = QDone (TofuStepError ''apply'' rc err) \<longleftrightarrow>
      \<not> is_lock_contention err \<and> clean_failure rest rc err" for rest fresh paths
    unfolding final_apply [OF l] clean_failure_def verdict_eq by blast
  then show "final answers QInit = QDone (TofuStepError ''apply'' rc err) \<longleftrightarrow>
      (\<exists>pre rest fresh paths. answers = pre @ rest \<and> fresh_start pre fresh paths \<and> \<not> is_lock_contention err \<and> clean_failure rest rc err)"
    unfolding final_late [OF l] by simp
next
  have l: "late (ApplyStateSuspect ''apply'' rc err diag)" for diag by (simp add: late_def)
  have "(\<exists>diag. final rest (QBaseline fresh paths) = QDone (ApplyStateSuspect ''apply'' rc err diag)) \<longleftrightarrow>
      \<not> is_lock_contention err \<and> suspect_failure rest rc err" for rest fresh paths
  proof
    assume "\<not> is_lock_contention err \<and> suspect_failure rest rc err"
    then obtain before out after diag rest' where h: "\<not> is_lock_contention err" "rc \<noteq> 0" "\<not> found_unmoved before after diag"
      "rest = before # Inr (rc, out, err) # after # diag # rest'" unfolding suspect_failure_def by blast
    let ?d = "diagnose_post_failure_state (state_serial_lineage before) (state_serial_lineage after) diag"
    from h show "\<exists>diag. final rest (QBaseline fresh paths) = QDone (ApplyStateSuspect ''apply'' rc err diag)"
      unfolding final_apply [OF l]
      by (intro exI [of _ ?d] disjI2 exI [of _ before] exI [of _ rc] exI [of _ out] exI [of _ err] exI [of _ after]
          exI [of _ diag] exI [of _ rest']) simp
  qed (auto simp: final_apply [OF l] suspect_failure_def split: if_splits)
  then have "(\<exists>pre rest fresh paths. answers = pre @ rest \<and> fresh_start pre fresh paths \<and>
        (\<exists>diag. final rest (QBaseline fresh paths) = QDone (ApplyStateSuspect ''apply'' rc err diag))) \<longleftrightarrow>
      (\<exists>pre rest fresh paths. answers = pre @ rest \<and> fresh_start pre fresh paths \<and> \<not> is_lock_contention err \<and> suspect_failure rest rc err)"
    by simp
  then show "(\<exists>diag. final answers QInit = QDone (ApplyStateSuspect ''apply'' rc err diag)) \<longleftrightarrow>
      (\<exists>pre rest fresh paths. answers = pre @ rest \<and> fresh_start pre fresh paths \<and> \<not> is_lock_contention err \<and> suspect_failure rest rc err)"
    unfolding final_late [OF l] by blast
next
  have l: "late (Applied ao)" by (simp add: late_def)
  have "final rest (QBaseline fresh paths) = QDone (Applied ao) \<longleftrightarrow>
      fresh = ao_freshness_exit ao \<and> paths = ao_benign_drift_paths ao \<and> success rest ao" for rest fresh paths
    unfolding final_apply [OF l] success_def by (cases ao) (auto split: if_splits simp: prod_eq_iff)
  then show "final answers QInit = QDone (Applied ao) \<longleftrightarrow>
      (\<exists>pre rest. answers = pre @ rest \<and> fresh_start pre (ao_freshness_exit ao) (ao_benign_drift_paths ao) \<and> success rest ao)"
    unfolding final_late [OF l] by simp
qed

text \<open>An apply that fails with a readable, unmoved state.\<close>

definition demo_state :: tofu_answer where
  "demo_state = Inr (0, emit (PDict [(''lineage'', PStr ''l''), (''serial'', PInt 4)]), [])"

lemma demo_state_read: "state_serial_lineage demo_state = (Some (PInt 4), Some ''l'')"
proof -
  have "json_loads (emit (PDict [(''lineage'', PStr ''l''), (''serial'', PInt 4)])) =
      Some (PDict [(''lineage'', PStr ''l''), (''serial'', PInt 4)])"
    by (rule json_loads_emit) (simp add: dkeys_def)
  then show ?thesis by (simp add: state_serial_lineage_def demo_state_def del: emit.simps)
qed

theorem clean_failure_is_proven_witness:
  "\<exists>pre rest fresh paths.
     [Inr (0, [], []), Inr (0, [], []), demo_state, Inr (1, [], ''quota''), demo_state, Inr (0, [], [])] = pre @ rest \<and>
     fresh_start pre fresh paths \<and> \<not> is_lock_contention ''quota'' \<and> clean_failure rest 1 ''quota''"
proof -
  have "\<not> is_lock_contention ''quota''" by code_simp
  then have "final [Inr (0, [], []), Inr (0, [], []), demo_state, Inr (1, [], ''quota''), demo_state, Inr (0, [], [])] QInit =
      QDone (TofuStepError ''apply'' 1 ''quota'')"
    by (simp add: final_Cons or_raise_def demo_state_read diagnose_post_failure_state_def provably_clean_exit state_unmoved_def)
  then show ?thesis using clean_failure_is_proven by blast
qed

end
