(* ===== verification/IacTree.thy ===== *)
theory IacTree
  imports PlanApprovals
begin

text \<open>
  The content hash of the \<open>iac/\<close> tree and the \<open>c6.v1\<close> sidecar (\<open>driftscribe_lib/iac_tree.py\<close>).  A
  directory is a list of named nodes in the order the file system gives them, with names that differ;
  \<open>FUnreadable\<close> is a node whose inspection raises \<open>OSError\<close>; \<open>FSealed\<close> is a directory whose listing
  raises it, which \<open>os.walk\<close> skips without a word.  SHA-256 is the argument \<open>sha\<close>, from
  bytes to a hexadecimal text.
\<close>

datatype fs_node =
    FFile string
  | FLink bool
  | FOther
  | FUnreadable
  | FSealed
  | FDir "(string \<times> fs_node) list"

text \<open>\<open>FLink True\<close> links to a directory, which \<open>os.walk\<close> lists with the directories.\<close>

definition SIDECAR_SCHEMA_VERSION :: string where "SIDECAR_SCHEMA_VERSION = ''c6.v1''"

definition EXCLUDED_ROOT_ARTIFACTS :: "string list" where
  "EXCLUDED_ROOT_ARTIFACTS = [''plan.tfplan'', ''plan.json'', ''metadata.json'', ''iac-tree.json'']"

definition is_excluded_dir :: "string \<Rightarrow> bool" where
  "is_excluded_dir rel \<longleftrightarrow> rel = ''.terraform'' \<or> starts_with ''.terraform/'' rel"

definition is_excluded_file :: "string \<Rightarrow> bool" where
  "is_excluded_file rel \<longleftrightarrow>
     starts_with ''.terraform/'' rel \<or> rel \<in> set EXCLUDED_ROOT_ARTIFACTS \<or>
     ends_with ''.tfstate'' (base_name rel) \<or> ends_with ''.tfstate.backup'' (base_name rel)"

section \<open>The walk\<close>

definition sub_path :: "string \<Rightarrow> string \<Rightarrow> string" where
  "sub_path rel_dir name = (if rel_dir = [] then name else rel_dir @ ''/'' @ name)"

fun check_dir :: "string \<Rightarrow> string \<times> fs_node \<Rightarrow> (string, unit) res" where
  "check_dir rel_dir (d, FLink True) =
     require (is_excluded_dir (sub_path rel_dir d)) (''symlink directory under iac/ not allowed: '' @ sub_path rel_dir d)"
| "check_dir rel_dir _ = Inr ()"

fun file_entry :: "string \<Rightarrow> string \<times> fs_node \<Rightarrow> (string, (string \<times> string) list) res" where
  "file_entry rel_dir (f, FDir es) = Inr []"
| "file_entry rel_dir (f, FSealed) = Inr []"
| "file_entry rel_dir (f, FLink True) = Inr []"
| "file_entry rel_dir (f, n) =
     (let rel = sub_path rel_dir f in
      if is_excluded_file rel then Inr []
      else case n of
        FFile content \<Rightarrow> Inr [(rel, content)]
      | FLink _ \<Rightarrow> Inl (''symlink under iac/ not allowed: '' @ rel)
      | FUnreadable \<Rightarrow> Inl ''failed to read the iac/ tree''
      | _ \<Rightarrow> Inl (''non-regular file under iac/: '' @ rel))"

text \<open>One directory: its links to directories, its files, then its subdirectories.\<close>

fun walk_dir :: "string \<Rightarrow> (string \<times> fs_node) list \<Rightarrow> (string, (string \<times> string) list) res"
  and walk_sub :: "string \<Rightarrow> (string \<times> fs_node) list \<Rightarrow> (string, (string \<times> string) list) res" where
  "walk_dir rel_dir es =
     rbind (traverse (check_dir rel_dir) es) (\<lambda>_.
     rbind (traverse (file_entry rel_dir) es) (\<lambda>files.
     rbind (walk_sub rel_dir es) (\<lambda>below. Inr (concat files @ below))))"
| "walk_sub rel_dir [] = Inr []"
| "walk_sub rel_dir ((d, FDir sub) # es) =
     (if is_excluded_dir (sub_path rel_dir d) then walk_sub rel_dir es
      else rbind (walk_dir (sub_path rel_dir d) sub) (\<lambda>a. rbind (walk_sub rel_dir es) (\<lambda>b. Inr (a @ b))))"
| "walk_sub rel_dir (_ # es) = walk_sub rel_dir es"

text \<open>The files that count, with their contents; the root itself must be a directory.\<close>

definition committed_files :: "fs_node \<Rightarrow> (string, (string \<times> string) list) res" where
  "committed_files root =
     (case root of
        FLink _ \<Rightarrow> Inl ''iac dir is itself a symlink''
      | FDir es \<Rightarrow> walk_dir [] es
      | FSealed \<Rightarrow> Inr []
      | _ \<Rightarrow> Inl ''iac dir not found or not a directory'')"

definition manifest :: "(string \<Rightarrow> string) \<Rightarrow> (string \<times> string) list \<Rightarrow> string" where
  "manifest sha files =
     concat (map (\<lambda>(rel, content). utf8 rel @ [CHR 0x00] @ sha content @ [CHR 0x00]) (sort_key fst files))"

definition iac_tree_hash :: "(string \<Rightarrow> string) \<Rightarrow> fs_node \<Rightarrow> (string, string) res" where
  "iac_tree_hash sha root = rbind (committed_files root) (\<lambda>files. Inr (sha (manifest sha files)))"

text \<open>The walk has no error handler, so a root that cannot be listed has the hash of an empty tree.\<close>

lemma sealed_root_hashed_as_empty: "iac_tree_hash sha FSealed = iac_tree_hash sha (FDir [])"
  by (simp add: iac_tree_hash_def committed_files_def rbind_def)

section \<open>The sidecar\<close>

record sidecar_input =
  si_repo :: pyval
  si_pr_number :: pyval
  si_head_sha :: pyval
  si_base_sha :: pyval
  si_workflow_run_id :: pyval
  si_workflow_run_attempt :: pyval
  si_plan_sha256 :: pyval
  si_plan_json_sha256 :: pyval
  si_iac_tree_hash :: pyval

definition build_sidecar :: "sidecar_input \<Rightarrow> (pyexc, pydict) res" where
  "build_sidecar inp =
     rbind (check_field ''repo'' (si_repo inp) (matches REPO)) (\<lambda>_.
     rbind (check_field ''pr_number'' (si_pr_number inp) positive_int) (\<lambda>_.
     rbind (check_field ''head_sha'' (si_head_sha inp) (matches HEX40)) (\<lambda>_.
     rbind (check_field ''base_sha'' (si_base_sha inp) (matches HEX40)) (\<lambda>_.
     rbind (check_field ''workflow_run_id'' (si_workflow_run_id inp) (str_matches DIGITS)) (\<lambda>_.
     rbind (check_field ''workflow_run_attempt'' (si_workflow_run_attempt inp) (str_matches POSITIVE_DIGITS)) (\<lambda>_.
     rbind (check_field ''plan_sha256'' (si_plan_sha256 inp) (matches HEX64)) (\<lambda>_.
     rbind (check_field ''plan_json_sha256'' (si_plan_json_sha256 inp) (matches HEX64)) (\<lambda>_.
     rbind (check_field ''iac_tree_hash'' (si_iac_tree_hash inp) (matches HEX64)) (\<lambda>_.
       Inr [(''schema_version'', PStr SIDECAR_SCHEMA_VERSION),
            (''repo'', si_repo inp), (''pr_number'', si_pr_number inp), (''head_sha'', si_head_sha inp),
            (''base_sha'', si_base_sha inp), (''workflow_run_id'', si_workflow_run_id inp),
            (''workflow_run_attempt'', si_workflow_run_attempt inp), (''plan_sha256'', si_plan_sha256 inp),
            (''plan_json_sha256'', si_plan_json_sha256 inp), (''iac_tree_hash'', si_iac_tree_hash inp)])))))))))"

section \<open>What an equal hash means\<close>

text \<open>A file name has no NUL and no slash, and the names in a directory differ.\<close>

fun good_tree :: "fs_node \<Rightarrow> bool" where
  "good_tree (FDir es) = (distinct (map fst es) \<and>
     (\<forall>(n, t) \<in> set es. n \<noteq> [] \<and> CHR 0x00 \<notin> set n \<and> CHR ''/'' \<notin> set n \<and> good_tree t))"
| "good_tree _ = True"

definition plain_name :: "string \<Rightarrow> bool" where
  "plain_name n \<longleftrightarrow> n \<noteq> [] \<and> CHR 0x00 \<notin> set n \<and> CHR ''/'' \<notin> set n"

definition under :: "string \<Rightarrow> string \<Rightarrow> string \<Rightarrow> bool" where
  "under rel n p \<longleftrightarrow> p = sub_path rel n \<or> (\<exists>rest. p = sub_path rel n @ ''/'' @ rest)"

lemma under_unique:
  assumes "plain_name m" "plain_name n" "under rel m p" "under rel n p"
  shows "m = n"
proof -
  define base where "base = (if rel = [] then [] else rel @ ''/'')"
  have "k = takeWhile (\<lambda>c. c \<noteq> CHR ''/'') (drop (length base) p)" if "plain_name k" "under rel k p" for k
  proof -
    from that(2) obtain r where r: "p = base @ k @ r" "r = [] \<or> hd r = CHR ''/''"
      by (auto simp: under_def sub_path_def base_def split: if_splits)
    have k: "takeWhile (\<lambda>c. c \<noteq> CHR ''/'') k = k"
      using that(1) by (subst takeWhile_eq_all_conv) (auto simp: plain_name_def)
    have "takeWhile (\<lambda>c. c \<noteq> CHR ''/'') (k @ r) = k @ takeWhile (\<lambda>c. c \<noteq> CHR ''/'') r"
      using that(1) by (intro takeWhile_append2) (auto simp: plain_name_def)
    also have "takeWhile (\<lambda>c. c \<noteq> CHR ''/'') r = []" using r(2) by (cases r) auto
    finally show ?thesis using r(1) by simp
  qed
  from this [OF assms(1,3)] this [OF assms(2,4)] show ?thesis by simp
qed

lemma under_sub: "plain_name d \<Longrightarrow> under (sub_path rel d) n p \<Longrightarrow> under rel d p"
  by (auto simp: under_def plain_name_def sub_path_def split: if_splits)

lemma good_dir: "good_tree (FDir es) \<longleftrightarrow> distinct (map fst es) \<and> (\<forall>(n, t) \<in> set es. plain_name n \<and> good_tree t)"
  by (auto simp: plain_name_def)

declare good_tree.simps(1) [simp del]

lemma file_entry_path:
  "file_entry rel (n, t) = Inr fs \<Longrightarrow> fs = [] \<or> (\<exists>c. fs = [(sub_path rel n, c)] \<and> (\<nexists>es. t = FDir es))"
  by (cases "(rel, (n, t))" rule: file_entry.cases) (auto simp: Let_def split: if_splits)

lemma files_paths:
  assumes "traverse (file_entry rel) es = Inr files" and "distinct (map fst es)" and "\<forall>(n, t) \<in> set es. plain_name n"
  shows "distinct (map fst (concat files)) \<and>
    (\<forall>p \<in> set (map fst (concat files)). \<exists>n t. (n, t) \<in> set es \<and> (\<nexists>sub. t = FDir sub) \<and> p = sub_path rel n)"
  using assms
proof (induction es arbitrary: files)
  case (Cons e es)
  obtain n t where e: "e = (n, t)" by force
  from Cons.prems(1) obtain f fs where f: "file_entry rel (n, t) = Inr f" "traverse (file_entry rel) es = Inr fs" "files = f # fs"
    by (auto simp: e result_simps)
  define ns where "ns = map fst (concat fs)"
  have cat: "map fst (concat files) = map fst f @ ns" by (simp add: f(3) ns_def)
  from Cons.IH [OF f(2)] Cons.prems(2,3) have ih: "distinct ns"
    "\<And>p. p \<in> set ns \<Longrightarrow> \<exists>m t. (m, t) \<in> set es \<and> (\<nexists>sub. t = FDir sub) \<and> p = sub_path rel m"
    unfolding e ns_def [symmetric] by auto
  have new: "sub_path rel n \<notin> set ns"
  proof
    assume "sub_path rel n \<in> set ns"
    from ih(2) [OF this] obtain m t where "(m, t) \<in> set es" "sub_path rel n = sub_path rel m" by blast
    moreover from this have "n = m" using Cons.prems(3) e
      by (intro under_unique [of n m rel "sub_path rel n"]) (auto simp: under_def)
    ultimately show False using Cons.prems(2) e by force
  qed
  have old: "\<exists>m t. (m, t) \<in> set (e # es) \<and> (\<nexists>sub. t = FDir sub) \<and> p = sub_path rel m" if "p \<in> set ns" for p
    using ih(2) [OF that] by (auto intro: exI)
  from file_entry_path [OF f(1)] show ?case
  proof
    assume "f = []"
    with ih(1) old show ?thesis unfolding cat by simp
  next
    assume "\<exists>c. f = [(sub_path rel n, c)] \<and> (\<nexists>es. t = FDir es)"
    then have ff: "map fst f = [sub_path rel n]" "\<nexists>es. t = FDir es" by auto
    then have "\<exists>m t. (m, t) \<in> set (e # es) \<and> (\<nexists>sub. t = FDir sub) \<and> sub_path rel n = sub_path rel m"
      unfolding e by (intro exI [of _ n] exI [of _ t]) simp
    with ih(1) new old show ?thesis unfolding cat ff(1) by auto
  qed
qed simp

lemma walk_paths:
  "walk_dir rel es = Inr files \<Longrightarrow> good_tree (FDir es) \<Longrightarrow>
     distinct (map fst files) \<and> (\<forall>p \<in> set (map fst files). \<exists>n t. (n, t) \<in> set es \<and> under rel n p)"
  "walk_sub rel es = Inr files \<Longrightarrow> good_tree (FDir es) \<Longrightarrow>
     distinct (map fst files) \<and> (\<forall>p \<in> set (map fst files). \<exists>n sub. (n, FDir sub) \<in> set es \<and> under rel n p)"
proof (induction rel es and rel es arbitrary: files and files rule: walk_dir_walk_sub.induct)
  case (1 rel es)
  then obtain u fs below where fs: "traverse (file_entry rel) es = Inr fs" "walk_sub rel es = Inr below" "files = concat fs @ below"
    "traverse (check_dir rel) es = Inr u"
    by (auto simp: result_simps)
  from "1.prems"(2) have g: "distinct (map fst es)" "\<forall>(n, t) \<in> set es. plain_name n" by (auto simp: good_dir)
  note f = files_paths [OF fs(1) g]
  have b: "distinct (map fst below)"
    "\<And>p. p \<in> set (map fst below) \<Longrightarrow> \<exists>n sub. (n, FDir sub) \<in> set es \<and> under rel n p"
    using "1.IH" [OF fs(4,1,2) "1.prems"(2)] by blast+
  have "p \<notin> set (map fst below)" if "p \<in> set (map fst (concat fs))" for p
  proof
    assume "p \<in> set (map fst below)"
    from b(2) [OF this] obtain n sub where n: "(n, FDir sub) \<in> set es" "under rel n p" by blast
    from f that obtain m t where m: "(m, t) \<in> set es" "\<nexists>sub. t = FDir sub" "p = sub_path rel m" by blast
    with n g(2) have "m = n" by (intro under_unique [of m n rel p]) (auto simp: under_def)
    with n(1) m(1,2) g(1) show False by (metis eq_key_imp_eq_value)
  qed
  moreover have "\<exists>n t. (n, t) \<in> set es \<and> under rel n p" if "p \<in> set (map fst (concat fs)) \<union> set (map fst below)" for p
    using that
  proof
    assume "p \<in> set (map fst (concat fs))"
    with f obtain n t where "(n, t) \<in> set es" "p = sub_path rel n" by blast
    then show ?thesis by (auto simp: under_def)
  qed (use b(2) in blast)
  moreover have "map fst files = map fst (concat fs) @ map fst below" by (simp add: fs(3))
  ultimately show ?case using f b(1) by (auto simp only: distinct_append set_append disjoint_iff simp_thms)
next
  case (3 rel d sub es)
  have g: "good_tree (FDir es)" "good_tree (FDir sub)" "plain_name d" "d \<notin> set (map fst es)"
    using "3.prems"(2) by (auto simp: good_dir)
  show ?case
  proof (cases "is_excluded_dir (sub_path rel d)")
    case True
    with "3.prems"(1) have "walk_sub rel es = Inr files" by simp
    from "3.IH"(1) [OF True this g(1)] have "distinct (map fst files)"
      "\<And>p. p \<in> set (map fst files) \<Longrightarrow> \<exists>n sub. (n, FDir sub) \<in> set es \<and> under rel n p" by blast+
    then show ?thesis by (metis list.set_intros(2))
  next
    case False
    with "3.prems"(1) obtain a b where ab: "walk_dir (sub_path rel d) sub = Inr a" "walk_sub rel es = Inr b" "files = a @ b"
      by (auto simp: result_simps)
    from "3.IH"(2) [OF False ab(1) g(2)] have a: "distinct (map fst a)" "\<And>p. p \<in> set (map fst a) \<Longrightarrow> under rel d p"
      using under_sub [OF g(3)] by blast+
    from "3.IH"(3) [OF False ab(1) ab(2) g(1)] have b: "distinct (map fst b)"
      "\<And>p. p \<in> set (map fst b) \<Longrightarrow> \<exists>n sub. (n, FDir sub) \<in> set es \<and> under rel n p" by blast+
    have "p \<notin> set (map fst b)" if "p \<in> set (map fst a)" for p
    proof
      assume "p \<in> set (map fst b)"
      from b(2) [OF this] obtain n s where n: "(n, FDir s) \<in> set es" "under rel n p" by blast
      with g(1) have "plain_name n" by (auto simp: good_dir)
      from under_unique [OF g(3) this a(2) [OF that] n(2)] n(1) g(4) show False by force
    qed
    moreover have "\<exists>n s. (n, FDir s) \<in> set ((d, FDir sub) # es) \<and> under rel n p"
      if "p \<in> set (map fst a) \<union> set (map fst b)" for p
      using that a(2) b(2) by (metis UnE list.set_intros)
    moreover have "map fst files = map fst a @ map fst b" by (simp add: ab(3))
    ultimately show ?thesis using a(1) b(1) by (auto simp only: distinct_append set_append disjoint_iff simp_thms)
  qed
qed (auto simp: good_dir)

lemma file_entry_content: "file_entry rel (n, t) = Inr fs \<Longrightarrow> p \<in> set (map fst fs) \<Longrightarrow> p = sub_path rel n"
  using file_entry_path [of rel n t fs] by auto

lemma sub_path_nul: "CHR 0x00 \<notin> set rel \<Longrightarrow> plain_name n \<Longrightarrow> CHR 0x00 \<notin> set (sub_path rel n)"
  by (simp add: sub_path_def plain_name_def)

lemma walk_nul:
  "walk_dir rel es = Inr files \<Longrightarrow> good_tree (FDir es) \<Longrightarrow> CHR 0x00 \<notin> set rel \<Longrightarrow> p \<in> set (map fst files) \<Longrightarrow> CHR 0x00 \<notin> set p"
  "walk_sub rel es = Inr files \<Longrightarrow> good_tree (FDir es) \<Longrightarrow> CHR 0x00 \<notin> set rel \<Longrightarrow> p \<in> set (map fst files) \<Longrightarrow> CHR 0x00 \<notin> set p"
proof (induction rel es and rel es arbitrary: files and files rule: walk_dir_walk_sub.induct)
  case (1 rel es)
  then obtain u fs below where fs: "traverse (file_entry rel) es = Inr fs" "walk_sub rel es = Inr below" "files = concat fs @ below"
    "traverse (check_dir rel) es = Inr u"
    by (auto simp: result_simps)
  from "1.prems"(2) have g: "distinct (map fst es)" "\<forall>(n, t) \<in> set es. plain_name n" by (auto simp: good_dir)
  from "1.prems"(4) fs(3) consider "p \<in> set (map fst (concat fs))" | "p \<in> set (map fst below)" by auto
  then show ?case
  proof cases
    case 1
    with files_paths [OF fs(1) g] obtain n t where "(n, t) \<in> set es" "p = sub_path rel n" by blast
    with g(2) sub_path_nul [OF "1.prems"(3)] show ?thesis by blast
  next
    case 2
    from "1.IH" [OF fs(4,1,2) "1.prems"(2,3) 2] show ?thesis .
  qed
next
  case (3 rel d sub es)
  have g: "good_tree (FDir es)" "good_tree (FDir sub)" "plain_name d" using "3.prems"(2) by (auto simp: good_dir)
  show ?case
  proof (cases "is_excluded_dir (sub_path rel d)")
    case True
    with 3 g show ?thesis by simp
  next
    case False
    with "3.prems"(1) obtain a b where ab: "walk_dir (sub_path rel d) sub = Inr a" "walk_sub rel es = Inr b" "files = a @ b"
      by (auto simp: result_simps)
    from "3.prems"(4) ab(3) consider "p \<in> set (map fst a)" | "p \<in> set (map fst b)" by auto
    then show ?thesis
      using "3.IH"(2) [OF False ab(1) g(2) sub_path_nul [OF "3.prems"(3) g(3)]] "3.IH"(3) [OF False ab(1,2) g(1) "3.prems"(3)]
      by cases
  qed
qed (auto simp: good_dir)

lemma committed_good:
  assumes "committed_files t = Inr files" and "good_tree t"
  shows "distinct (map fst files)" and "p \<in> set (map fst files) \<Longrightarrow> CHR 0x00 \<notin> set p"
proof -
  from assms(1) have "(\<exists>es. t = FDir es \<and> walk_dir [] es = Inr files) \<or> files = []"
    by (cases t) (simp_all add: committed_files_def del: walk_dir.simps)
  then have "distinct (map fst files) \<and> (p \<in> set (map fst files) \<longrightarrow> CHR 0x00 \<notin> set p)"
  proof (elim disjE exE conjE)
    fix es assume es: "t = FDir es" "walk_dir [] es = Inr files"
    with assms(2) have g: "good_tree (FDir es)" by simp
    from walk_paths(1) [OF es(2) g] walk_nul(1) [OF es(2) g] show ?thesis by simp
  qed simp
  then show "distinct (map fst files)" "p \<in> set (map fst files) \<Longrightarrow> CHR 0x00 \<notin> set p" by blast+
qed

lemma utf8_nul: "CHR 0x00 \<notin> set s \<Longrightarrow> CHR 0x00 \<notin> set (utf8 s)"
proof (induction s)
  case (Cons c s)
  have nz: "char_of n \<noteq> CHR 0x00" if "0 < n" "n < 256" for n :: nat
  proof
    assume "char_of n = CHR 0x00"
    then have "(of_char (char_of n :: char) :: nat) = of_char (CHR 0x00)" by (rule arg_cong)
    with that show False by simp
  qed
  have c: "(of_char c :: nat) < 256" by simp
  then have "(192 + of_char c div 64 :: nat) < 256" "(128 + of_char c mod 64 :: nat) < 256" by linarith+
  from nz [OF _ this(1)] nz [OF _ this(2)] Cons show ?case by (auto simp: utf8_def utf8_char_def Let_def)
qed (simp add: utf8_def)

definition nul_free :: "string \<times> string \<Rightarrow> bool" where
  "nul_free r \<longleftrightarrow> CHR 0x00 \<notin> set (fst r) \<and> CHR 0x00 \<notin> set (snd r)"

definition fields :: "(string \<times> string) list \<Rightarrow> string" where
  "fields rs = concat (map (\<lambda>(a, b). a @ [CHR 0x00] @ b @ [CHR 0x00]) rs)"

lemma field_end:
  assumes "CHR 0x00 \<notin> set a" "CHR 0x00 \<notin> set b" "a @ CHR 0x00 # s = b @ CHR 0x00 # t"
  shows "a = b \<and> s = t"
proof -
  have "takeWhile (\<lambda>c. c \<noteq> CHR 0x00) (x @ CHR 0x00 # r) = x" if "CHR 0x00 \<notin> set x" for x r
    using that by (subst takeWhile_append2) auto
  from this [OF assms(1), of s] this [OF assms(2), of t] assms(3) show ?thesis by simp
qed

lemma fields_inj: "list_all nul_free xs \<Longrightarrow> list_all nul_free ys \<Longrightarrow> fields xs = fields ys \<Longrightarrow> xs = ys"
proof (induction xs arbitrary: ys)
  case Nil
  then show ?case by (cases ys) (auto simp: fields_def)
next
  case (Cons x xs)
  then obtain y ys' where ys: "ys = y # ys'" by (cases ys; cases x) (auto simp: fields_def)
  have "fst x @ CHR 0x00 # snd x @ CHR 0x00 # fields xs = fst y @ CHR 0x00 # snd y @ CHR 0x00 # fields ys'"
    using Cons.prems(3) ys by (cases x; cases y) (simp add: fields_def)
  from field_end [OF _ _ this] Cons.prems(1,2) ys
  have a: "fst x = fst y" "snd x @ CHR 0x00 # fields xs = snd y @ CHR 0x00 # fields ys'" by (auto simp: nul_free_def)
  from field_end [OF _ _ a(2)] Cons.prems(1,2) ys have "snd x = snd y" "fields xs = fields ys'" by (auto simp: nul_free_def)
  with a(1) Cons.IH [of ys'] Cons.prems(1,2) ys show ?case by (auto simp: prod_eq_iff)
qed

lemma manifest_fields: "manifest sha files = fields (map (\<lambda>(rel, content). (utf8 rel, sha content)) (sort_key fst files))"
  unfolding manifest_def fields_def by (rule arg_cong [where f = concat]) auto

text \<open>The texts that the hash of a tree digests.\<close>

definition digested :: "(string \<Rightarrow> string) \<Rightarrow> (string \<times> string) list \<Rightarrow> string set" where
  "digested sha files = insert (manifest sha files) (snd ` set files)"

lemma equal_hashes:
  assumes "committed_files t1 = Inr f1" and "committed_files t2 = Inr f2" and "good_tree t1" and "good_tree t2"
    and "\<forall>s. CHR 0x00 \<notin> set (sha s)"
  shows "iac_tree_hash sha t1 = iac_tree_hash sha t2 \<Longrightarrow> set f1 = set f2 \<or>
      (\<exists>m \<in> digested sha f1. \<exists>m' \<in> digested sha f2. m \<noteq> m' \<and> sha m = sha m')"
    and "set f1 = set f2 \<Longrightarrow> iac_tree_hash sha t1 = iac_tree_hash sha t2"
proof -
  let ?rows = "\<lambda>files. map (\<lambda>(rel, content). (utf8 rel, sha content)) (sort_key fst files)"
  have free: "list_all nul_free (?rows f)" if "committed_files t = Inr f" "good_tree t" for t f
    using committed_good(2) [OF that] utf8_nul assms(5) by (fastforce simp: list_all_iff nul_free_def)
  show "set f1 = set f2 \<or> (\<exists>m \<in> digested sha f1. \<exists>m' \<in> digested sha f2. m \<noteq> m' \<and> sha m = sha m')"
    if eq: "iac_tree_hash sha t1 = iac_tree_hash sha t2"
  proof (rule disjCI)
    assume none: "\<not> (\<exists>m \<in> digested sha f1. \<exists>m' \<in> digested sha f2. m \<noteq> m' \<and> sha m = sha m')"
    from eq assms(1,2) none have "manifest sha f1 = manifest sha f2" by (auto simp: iac_tree_hash_def digested_def)
    then have rows: "?rows f1 = ?rows f2"
      using fields_inj [OF free [OF assms(1,3)] free [OF assms(2,4)]] by (simp add: manifest_fields)
    have "set f \<subseteq> set g" if "?rows f = ?rows g" and inj: "\<And>c c'. c \<in> snd ` set f \<Longrightarrow> c' \<in> snd ` set g \<Longrightarrow> sha c = sha c' \<Longrightarrow> c = c'" for f g
    proof
      fix x assume x: "x \<in> set f"
      then have "(utf8 (fst x), sha (snd x)) \<in> set (?rows f)" by (auto simp: case_prod_beta)
      then have "(utf8 (fst x), sha (snd x)) \<in> set (?rows g)" by (simp only: that(1))
      then obtain y where y: "y \<in> set g" "utf8 (fst y) = utf8 (fst x)" "sha (snd y) = sha (snd x)"
        by (auto simp: case_prod_beta)
      from utf8_inj [OF y(2)] inj [of "snd x" "snd y"] x y show "x \<in> set g" by (simp add: prod_eq_iff [symmetric]) (metis prod_eqI)
    qed
    from this [OF rows] this [OF rows [symmetric]] none show "set f1 = set f2"
      unfolding digested_def by (metis (no_types, lifting) insertCI subset_antisym)
  qed
  assume same: "set f1 = set f2"
  from committed_good(1) [OF assms(1,3)] committed_good(1) [OF assms(2,4)] have d: "distinct (map fst f1)" "distinct (map fst f2)" by auto
  then have "mset f1 = mset f2" using same by (metis distinct_map set_eq_iff_mset_eq_distinct)
  then have "sort_key fst f1 = sort_key fst f2"
    using d(1) by (intro sort_key_inj_key_eq) (auto simp: distinct_map)
  then show "iac_tree_hash sha t1 = iac_tree_hash sha t2"
    using assms(1,2) by (simp add: iac_tree_hash_def manifest_def)
qed

text \<open>C31: The tree hash binds the configuration: two well-formed trees whose hashes agree hold the same files
  with the same contents, outside the provider cache, the generated artifacts and directories that cannot be
  listed, unless the two sets of
  digested texts exhibit a collision of the hash; and trees with the same such files have the same hash, in
  whatever order their directories are listed.\<close>

theorem tree_hash_binds_content:
  assumes "committed_files t1 = Inr f1" and "committed_files t2 = Inr f2" and "good_tree t1" and "good_tree t2"
    and "\<forall>s. CHR 0x00 \<notin> set (sha s)"
  shows "(iac_tree_hash sha t1 = iac_tree_hash sha t2 \<longrightarrow> set f1 = set f2 \<or>
      (\<exists>m \<in> digested sha f1. \<exists>m' \<in> digested sha f2. m \<noteq> m' \<and> sha m = sha m')) \<and>
    (set f1 = set f2 \<longrightarrow> iac_tree_hash sha t1 = iac_tree_hash sha t2)"
  using equal_hashes [OF assms] by blast

definition demo_tree :: fs_node where
  "demo_tree = FDir [(''main.tf'', FFile ''a''), (''net'', FDir [(''vpc.tf'', FFile ''b'')])]"

definition demo_baked_tree :: fs_node where
  "demo_baked_tree = FDir [(''.terraform'', FDir [(''p'', FLink True)]), (''net'', FDir [(''vpc.tf'', FFile ''b'')]),
     (''main.tf'', FFile ''a''), (''plan.tfplan'', FFile ''x'')]"

lemma hexenc_no_nul: "CHR 0x00 \<notin> set (hexenc s)"
proof -
  have "(of_char (hex_digit n) :: nat) \<noteq> 0" if "n < 16" for n
    using that by (simp add: hex_digit_def)
  then have d: "hex_digit n \<noteq> CHR 0x00" if "n < 16" for n using that by fastforce
  have "CHR 0x00 \<notin> set (hex2 (of_char c))" for c
    using d [of "of_char c mod 16"] d [of "of_char c div 16"]
    by (simp add: hex2_def less_mult_imp_div_less not_sym)
  then show ?thesis by (auto simp: hexenc_def)
qed

theorem tree_hash_binds_content_witness: "iac_tree_hash hexenc demo_tree = iac_tree_hash hexenc demo_baked_tree"
proof -
  have f: "committed_files demo_tree = Inr [(''main.tf'', ''a''), (''net/vpc.tf'', ''b'')]"
    "committed_files demo_baked_tree = Inr [(''main.tf'', ''a''), (''net/vpc.tf'', ''b'')]"
    by code_simp+
  have "good_tree demo_tree" "good_tree demo_baked_tree" by code_simp+
  moreover have "\<forall>s. CHR 0x00 \<notin> set (hexenc s)" using hexenc_no_nul by blast
  ultimately show ?thesis using tree_hash_binds_content [OF f] by simp
qed

end
