(* ===== verification/TofuGates.thy ===== *)
theory TofuGates
  imports TofuRunner IacTree RollbackWorker
begin

text \<open>
  What the apply worker verifies before it may run \<open>tofu\<close>: the pinned artifact fetch
  (\<open>workers/tofu_apply/gcs_fetch.py\<close>) and the gates of \<open>workers/tofu_apply/main.py\<close> over the fetched bytes:
  integrity, denylist, the tree hash of a create-class plan, and fidelity.  The storage client is not part of
  the code: a bucket is a function from an object name and a generation to the exception of the
  download or the bytes.  The baked \<open>iac/\<close> directory is a tree; what a link in it leads to is an argument.
\<close>

type_synonym bucket = "string \<Rightarrow> int \<Rightarrow> (string, string) res"

text \<open>The exceptions of a gate.  \<open>Rejected\<close> stands for \<open>ValueError\<close>, \<open>TypeError\<close> and \<open>KeyError\<close>, which the
  handlers treat alike; \<open>Escaped\<close> for everything no handler names.\<close>

datatype gate_exc =
    GcsFetchError string
  | NotIntact string
  | IacTreeMismatch string
  | FidelityError string
  | ProbeError string int string
  | Rejected string
  | Escaped string

fun of_pyexc :: "pyexc \<Rightarrow> gate_exc" where
  "of_pyexc TypeError = Rejected ''TypeError''"
| "of_pyexc (ValueError m) = Rejected m"
| "of_pyexc (KeyError k) = Rejected k"
| "of_pyexc e = Escaped (exc_name e)"

definition lift_exc :: "('e \<Rightarrow> 'f) \<Rightarrow> ('e, 'a) res \<Rightarrow> ('f, 'a) res" where
  "lift_exc f r = (case r of Inl e \<Rightarrow> Inl (f e) | Inr x \<Rightarrow> Inr x)"

lemma lift_exc_Inr [simp]: "lift_exc f r = Inr x \<longleftrightarrow> r = Inr x"
  by (auto simp: lift_exc_def split: sum.splits)

section \<open>Pinned fetches\<close>

definition ARTIFACT_BUCKET :: string where "ARTIFACT_BUCKET = ''driftscribe-hack-2026-tofu-artifacts''"

definition rseq :: "rx list \<Rightarrow> rx" where "rseq rs = foldr RSeq rs REps"

definition OBJECT :: rx where
  "OBJECT =
     rseq [rstr ''pr-'', POSITIVE_DIGITS, rstr ''/'', HEX40, rstr ''/run-'', POSITIVE_DIGITS, rstr ''-'', POSITIVE_DIGITS, rstr ''/'',
       RAlt (rstr ''metadata.json'') (RAlt (rstr ''plan.tfplan'') (RAlt (rstr ''plan.json'') (rstr ''iac-tree.json'')))]"

definition parse_gs_uri :: "pyval \<Rightarrow> (gate_exc, string \<times> string) res" where
  "parse_gs_uri uri =
     (case uri of
        PStr s \<Rightarrow>
          if \<not> starts_with ''gs://'' s then Inl (GcsFetchError ''not a gs:// uri'')
          else (let rest = drop 5 s; b = takeWhile (\<lambda>c. c \<noteq> CHR ''/'') rest; obj = drop (Suc (length b)) rest in
            if b = [] \<or> obj = [] then Inl (GcsFetchError ''malformed gs:// uri'') else Inr (b, obj))
      | _ \<Rightarrow> Inl (GcsFetchError ''not a gs:// uri''))"

definition validate_artifact_uri :: "pyval \<Rightarrow> string \<Rightarrow> (gate_exc, string \<times> string) res" where
  "validate_artifact_uri uri expected_basename =
     rbind (parse_gs_uri uri) (\<lambda>(b, obj).
     if b \<noteq> ARTIFACT_BUCKET then Inl (GcsFetchError ''unexpected bucket'')
     else if \<not> fullmatch OBJECT obj then Inl (GcsFetchError ''object path does not match the artifact scheme'')
     else if \<not> ends_with (''/'' @ expected_basename) obj then Inl (GcsFetchError ''object basename'')
     else Inr (b, obj))"

text \<open>\<open>int(generation)\<close>: of a text, with blanks around it, a sign and single underscores between digits; of a
  float, its integral part, where the float is read from its decimal text (so exactly below two to the 53rd).\<close>

definition parse_int_text :: "string \<Rightarrow> int option" where
  "parse_int_text s =
     (let t = strip s; neg = starts_with ''-'' t; u = (if neg \<or> starts_with ''+'' t then drop 1 t else t);
          groups = split_char (CHR ''_'') u; n = int (read_nat (concat groups))
      in if list_all (\<lambda>g. g \<noteq> [] \<and> list_all is_digit g) groups \<and> length (concat groups) \<le> 4300
         then Some (if neg then - n else n) else None)"

definition trunc_float :: "string \<Rightarrow> (pyexc, int) res" where
  "trunc_float r =
     (let neg = starts_with ''-'' r; t = (if neg then drop 1 r else r);
          whole = takeWhile is_digit t; rest = drop (length whole) t;
          frac = (if starts_with ''.'' rest then takeWhile is_digit (drop 1 rest) else []);
          ex = drop 1 (dropWhile (\<lambda>c. c \<noteq> CHR ''e'' \<and> c \<noteq> CHR ''E'') rest);
          e = (case parse_int_text ex of None \<Rightarrow> 0 | Some i \<Rightarrow> i) - int (length frac);
          m = int (read_nat (whole @ frac));
          n = (if 0 \<le> e then m * 10 ^ nat e else m div 10 ^ nat (- e))
      in if starts_with ''N'' t then Inl (ValueError ''cannot convert float NaN to integer'')
         else if starts_with ''I'' t \<or> 2 ^ 1024 - 2 ^ 970 \<le> n then Inl OverflowError
         else Inr (if neg then - n else n))"

definition to_int_generation :: "pyval \<Rightarrow> (gate_exc, int) res" where
  "to_int_generation g =
     (case g of
        PInt i \<Rightarrow> Inr i
      | PBool b \<Rightarrow> Inr (bool_int b)
      | PStr s \<Rightarrow> (case parse_int_text s of Some i \<Rightarrow> Inr i | None \<Rightarrow> Inl (GcsFetchError ''generation must be a numeric string''))
      | PFloat r \<Rightarrow>
          (case trunc_float r of
             Inr i \<Rightarrow> Inr i
           | Inl OverflowError \<Rightarrow> Inl (Escaped ''OverflowError'')
           | Inl _ \<Rightarrow> Inl (GcsFetchError ''generation must be a numeric string''))
      | _ \<Rightarrow> Inl (GcsFetchError ''generation must be a numeric string''))"

definition fetch_object_pinned :: "bucket \<Rightarrow> string \<Rightarrow> pyval \<Rightarrow> (gate_exc, string) res" where
  "fetch_object_pinned bucket object_name generation =
     rbind (to_int_generation generation) (\<lambda>gen. lift_exc GcsFetchError (bucket object_name gen))"

definition METADATA_BASENAME :: string where "METADATA_BASENAME = ''metadata.json''"
definition SIDECAR_BASENAME :: string where "SIDECAR_BASENAME = ''iac-tree.json''"

definition derive_sidecar_uri :: "pyval \<Rightarrow> (gate_exc, pyval) res" where
  "derive_sidecar_uri metadata_uri =
     rbind (validate_artifact_uri metadata_uri METADATA_BASENAME) (\<lambda>(b, obj).
     let sidecar_obj = take (length obj - length METADATA_BASENAME) obj @ SIDECAR_BASENAME;
         sidecar_uri = PStr (''gs://'' @ b @ ''/'' @ sidecar_obj)
     in rbind (validate_artifact_uri sidecar_uri SIDECAR_BASENAME) (\<lambda>_. Inr sidecar_uri))"

definition fetch_artifact :: "bucket \<Rightarrow> pyval \<Rightarrow> pyval \<Rightarrow> string \<Rightarrow> (gate_exc, string) res" where
  "fetch_artifact bucket signed_uri generation expected_basename =
     rbind (validate_artifact_uri signed_uri expected_basename) (\<lambda>(_, obj). fetch_object_pinned bucket obj generation)"

section \<open>Bytes\<close>

text \<open>\<open>bytes.decode("utf-8")\<close>; \<open>None\<close> is a \<open>UnicodeDecodeError\<close> or a character this model has not.\<close>

fun utf8_decode :: "string \<Rightarrow> string option" where
  "utf8_decode [] = Some []"
| "utf8_decode (c # s) =
     (let n = (of_char c :: nat) in
      if n < 128 then map_option (Cons c) (utf8_decode s)
      else (case s of
        [] \<Rightarrow> None
      | d # t \<Rightarrow>
          (let m = (of_char d :: nat) in
           if (n = 194 \<or> n = 195) \<and> 128 \<le> m \<and> m < 192
           then map_option (Cons (char_of ((n - 192) * 64 + (m - 128)))) (utf8_decode t) else None)))"

text \<open>\<open>json.loads\<close> of bytes detects the encoding from a byte order mark or the zero bytes.  Code units of
  \<open>w\<close> bytes, of which only the lowest may differ from zero.\<close>

function code_units :: "nat \<Rightarrow> bool \<Rightarrow> string \<Rightarrow> string option" where
  "code_units w big s =
     (if s = [] \<or> w = 0 then Some []
      else if length s < w then None
      else (let u = (if big then take w s else rev (take w s)) in
        if list_all (\<lambda>c. c = CHR 0x00) (butlast u) then map_option (Cons (last u)) (code_units w big (drop w s)) else None))"
  by pat_completeness auto
termination by (relation "measure (\<lambda>(w, big, s). length s)") auto

declare code_units.simps [simp del]

definition zero_at :: "string \<Rightarrow> nat \<Rightarrow> bool" where "zero_at b i \<longleftrightarrow> b ! i = CHR 0x00"

definition decode_json_bytes :: "string \<Rightarrow> string option" where
  "decode_json_bytes b =
     (if starts_with [CHR 0x00, CHR 0x00, CHR 0xFE, CHR 0xFF] b then code_units 4 True (drop 4 b)
      else if starts_with [CHR 0xFF, CHR 0xFE, CHR 0x00, CHR 0x00] b then code_units 4 False (drop 4 b)
      else if starts_with [CHR 0xFE, CHR 0xFF] b then code_units 2 True (drop 2 b)
      else if starts_with [CHR 0xFF, CHR 0xFE] b then code_units 2 False (drop 2 b)
      else if starts_with [CHR 0xEF, CHR 0xBB, CHR 0xBF] b then utf8_decode (drop 3 b)
      else if 4 \<le> length b \<and> zero_at b 0 then (if \<not> zero_at b 1 then code_units 2 True b else code_units 4 True b)
      else if 4 \<le> length b \<and> zero_at b 1 then (if \<not> zero_at b 2 \<or> \<not> zero_at b 3 then code_units 2 False b else code_units 4 False b)
      else if length b = 2 \<and> zero_at b 0 then code_units 2 True b
      else if length b = 2 \<and> zero_at b 1 then code_units 2 False b
      else utf8_decode b)"

definition loads_bytes :: "string \<Rightarrow> pyval option" where
  "loads_bytes b = (case decode_json_bytes b of None \<Rightarrow> None | Some s \<Rightarrow> json_loads s)"

definition loads_text :: "string \<Rightarrow> string + pyval" where
  "loads_text s = (case json_loads s of None \<Rightarrow> Inl ''JSONDecodeError'' | Some v \<Rightarrow> Inr v)"

section \<open>The gates\<close>

definition integrity_exc :: "integrity_error \<Rightarrow> gate_exc" where
  "integrity_exc e = (case e of Raised x \<Rightarrow> of_pyexc x | ArtifactIntegrityError name _ _ \<Rightarrow> NotIntact name)"

definition field :: "pyval \<Rightarrow> string \<Rightarrow> (gate_exc, pyval) res" where
  "field v k = lift_exc of_pyexc (subscript v k)"

definition parse_plan :: "string \<Rightarrow> (gate_exc, pydict) res" where
  "parse_plan json_bytes =
     (case utf8_decode json_bytes of
        None \<Rightarrow> Inl (Rejected ''UnicodeDecodeError'')
      | Some t \<Rightarrow>
          (case fst (load_plan_json loads_text t) of
             Some parsed \<Rightarrow> Inr parsed
           | None \<Rightarrow> Inl (Rejected ''plan.json unparseable'')))"

definition fetch_and_verify_artifacts :: "(string \<Rightarrow> string) \<Rightarrow> bucket \<Rightarrow> pyval \<Rightarrow> (gate_exc, pydict \<times> string) res" where
  "fetch_and_verify_artifacts sha bucket md =
     rbind (field md ''artifact_uri_plan'') (\<lambda>plan_uri.
     rbind (field md ''generation_plan'') (\<lambda>plan_gen.
     rbind (fetch_artifact bucket plan_uri plan_gen ''plan.tfplan'') (\<lambda>plan_bytes.
     rbind (field md ''artifact_uri_json'') (\<lambda>json_uri.
     rbind (field md ''generation_json'') (\<lambda>json_gen.
     rbind (fetch_artifact bucket json_uri json_gen ''plan.json'') (\<lambda>json_bytes.
     rbind (field md ''plan_sha256'') (\<lambda>plan_sha.
     rbind (field md ''plan_json_sha256'') (\<lambda>json_sha.
     rbind (lift_exc integrity_exc (verify_artifact_integrity sha plan_bytes json_bytes plan_sha json_sha)) (\<lambda>_.
     rbind (parse_plan json_bytes) (\<lambda>parsed. Inr (parsed, plan_bytes)))))))))))"

definition denylist_or_raise :: "pydict \<Rightarrow> (gate_exc, unit) res" where
  "denylist_or_raise plan =
     (case evaluate plan of
        Inl e \<Rightarrow> Inl (Rejected ''denylist evaluation error (deny)'')
      | Inr violations \<Rightarrow> require (violations = []) (Rejected ''denylist violations''))"

text \<open>Reading the baked directory, which can be listed: it is part of the image.\<close>

definition read_file :: "(string \<Rightarrow> (string, string) res) \<Rightarrow> string \<times> fs_node \<Rightarrow> (gate_exc, string) res" where
  "read_file link f =
     (case snd f of
        FFile content \<Rightarrow> Inr content
      | FLink False \<Rightarrow> lift_exc Escaped (link (fst f))
      | FDir _ \<Rightarrow> Inl (Escaped ''IsADirectoryError'')
      | FLink True \<Rightarrow> Inl (Escaped ''IsADirectoryError'')
      | _ \<Rightarrow> Inl (Escaped ''OSError''))"

definition root_files :: "fs_node \<Rightarrow> (string \<times> fs_node) list" where
  "root_files iac = (case iac of FDir es \<Rightarrow> es | _ \<Rightarrow> [])"

definition LOCKFILE :: string where "LOCKFILE = ''.terraform.lock.hcl''"

definition baked_lockfile_sha256 ::
  "(string \<Rightarrow> string) \<Rightarrow> (string \<Rightarrow> (string, string) res) \<Rightarrow> fs_node \<Rightarrow> (gate_exc, string) res" where
  "baked_lockfile_sha256 sha link iac =
     (case find (\<lambda>f. fst f = LOCKFILE) (root_files iac) of
        None \<Rightarrow> Inl (Escaped ''FileNotFoundError'')
      | Some f \<Rightarrow> rbind (read_file link f) (\<lambda>content. Inr (sha content)))"

definition read_text :: "(string \<Rightarrow> (string, string) res) \<Rightarrow> string \<times> fs_node \<Rightarrow> (gate_exc, string) res" where
  "read_text link f =
     rbind (read_file link f) (\<lambda>content.
       case utf8_decode content of None \<Rightarrow> Inl (Rejected ''UnicodeDecodeError'') | Some t \<Rightarrow> Inr t)"

definition baked_texts :: "(string \<Rightarrow> (string, string) res) \<Rightarrow> fs_node \<Rightarrow> (gate_exc, string list) res" where
  "baked_texts link iac =
     traverse (read_text link) (sort_key fst (filter (\<lambda>f. ends_with ''.tf'' (fst f)) (root_files iac)))"

text \<open>\<open>tofu version -json\<close>: an exception of the call itself is none of those a handler names.\<close>

definition baked_tofu_version :: "tofu_answer \<Rightarrow> (gate_exc, string) res" where
  "baked_tofu_version ans =
     (case ans of
        Inl e \<Rightarrow> Inl (Escaped e)
      | Inr (rc, out, err) \<Rightarrow>
          if rc \<noteq> 0 then Inl (ProbeError ''version'' rc err)
          else (case json_loads out of
            None \<Rightarrow> Inl (Rejected ''JSONDecodeError'')
          | Some (PDict d) \<Rightarrow> Inr (py_str (dget_or d ''terraform_version'' (PStr [])))
          | Some _ \<Rightarrow> Inl (Escaped ''AttributeError'')))"

definition dict_of :: "pyval \<Rightarrow> pydict" where
  "dict_of v = (case v of PDict d \<Rightarrow> d | _ \<Rightarrow> [])"

definition fidelity_or_raise ::
  "(string \<Rightarrow> string) \<Rightarrow> (string \<Rightarrow> (string, string) res) \<Rightarrow> fs_node \<Rightarrow> tofu_answer \<Rightarrow> pyval \<Rightarrow> pydict \<Rightarrow> bool \<Rightarrow> bool \<Rightarrow>
   (gate_exc, unit) res" where
  "fidelity_or_raise sha link iac version md plan allow_create allow_import =
     rbind (baked_tofu_version version) (\<lambda>v.
     rbind (baked_lockfile_sha256 sha link iac) (\<lambda>lock.
     rbind (baked_texts link iac) (\<lambda>texts.
     lift_exc FidelityError
       (assert_fidelity (dict_of md) v lock plan (extract_declared_addresses texts) allow_create allow_import))))"

definition SIDECAR_CROSSCHECK_FIELDS :: "string list" where
  "SIDECAR_CROSSCHECK_FIELDS =
     [''repo'', ''pr_number'', ''head_sha'', ''base_sha'', ''workflow_run_id'', ''workflow_run_attempt'',
      ''plan_sha256'', ''plan_json_sha256'']"

definition as_mismatch :: "gate_exc \<Rightarrow> gate_exc" where
  "as_mismatch e = (case e of GcsFetchError m \<Rightarrow> IacTreeMismatch (''sidecar fetch failed: '' @ m) | x \<Rightarrow> x)"

definition verify_iac_tree_or_raise ::
  "(string \<Rightarrow> string) \<Rightarrow> bucket \<Rightarrow> fs_node \<Rightarrow> pyval \<Rightarrow> pyval \<Rightarrow> string option \<Rightarrow> (gate_exc, string) res" where
  "verify_iac_tree_or_raise sha bucket iac md metadata_uri generation_iac_tree =
     (case generation_iac_tree of
        None \<Rightarrow> Inl (IacTreeMismatch ''sidecar generation missing'')
      | Some g \<Rightarrow>
          if g = [] then Inl (IacTreeMismatch ''sidecar generation missing'')
          else rbind (lift_exc as_mismatch (rbind (derive_sidecar_uri metadata_uri)
                 (\<lambda>uri. fetch_artifact bucket uri (PStr g) SIDECAR_BASENAME))) (\<lambda>raw.
            case loads_bytes raw of
              None \<Rightarrow> Inl (IacTreeMismatch ''sidecar parse failed'')
            | Some (PDict sidecar) \<Rightarrow>
                if \<not> py_eq (dget sidecar ''schema_version'') (PStr SIDECAR_SCHEMA_VERSION)
                then Inl (IacTreeMismatch ''sidecar schema_version'')
                else if \<not> list_all (\<lambda>k. py_eq (dget sidecar k) (dget (dict_of md) k)) SIDECAR_CROSSCHECK_FIELDS
                then Inl (IacTreeMismatch ''sidecar field does not match the signed metadata'')
                else (case dget sidecar ''iac_tree_hash'' of
                  PStr want \<Rightarrow>
                    if \<not> fullmatch HEX64 want then Inl (IacTreeMismatch ''sidecar iac_tree_hash missing or not 64-hex'')
                    else rbind (lift_exc IacTreeMismatch (iac_tree_hash sha iac)) (\<lambda>have.
                      rbind (lift_exc of_pyexc (compare_digest want (PStr have))) (\<lambda>same.
                      if same then Inr have else Inl (IacTreeMismatch ''baked iac/-tree hash does not match'')))
                | _ \<Rightarrow> Inl (IacTreeMismatch ''sidecar iac_tree_hash missing or not 64-hex''))
            | Some _ \<Rightarrow> Inl (IacTreeMismatch ''sidecar root'')))"

text \<open>The gates in the order in which both handlers run them; the result is the parsed plan, the plan's bytes and
  whether it is create-class.\<close>

definition run_gates ::
  "(string \<Rightarrow> string) \<Rightarrow> (string \<Rightarrow> (string, string) res) \<Rightarrow> fs_node \<Rightarrow> bucket \<Rightarrow> tofu_answer \<Rightarrow> pyval \<Rightarrow> pyval \<Rightarrow> string option \<Rightarrow>
   (gate_exc, pydict \<times> string \<times> bool) res" where
  "run_gates sha link iac bucket version md metadata_uri generation_iac_tree =
     rbind (fetch_and_verify_artifacts sha bucket md) (\<lambda>(parsed, plan_bytes).
     rbind (denylist_or_raise parsed) (\<lambda>_.
     let has_create = plan_has_create (PDict parsed) in
     rbind (if has_create
            then rbind (verify_iac_tree_or_raise sha bucket iac md metadata_uri generation_iac_tree) (\<lambda>_. Inr ())
            else Inr ()) (\<lambda>_.
     rbind (fidelity_or_raise sha link iac version md parsed has_create has_create) (\<lambda>_.
     Inr (parsed, plan_bytes, has_create)))))"

section \<open>What passing the gates means\<close>

text \<open>The artifact bucket keeps every generation of an object, and a generation never changes: \<open>objects\<close> is what
  the bucket holds, and a download that succeeds gives just that.\<close>

definition bucket_serves :: "(string \<Rightarrow> int \<Rightarrow> string option) \<Rightarrow> bucket \<Rightarrow> bool" where
  "bucket_serves objects bucket \<longleftrightarrow> (\<forall>obj gen raw. bucket obj gen = Inr raw \<longrightarrow> objects obj gen = Some raw)"

definition artifact_uri :: "string \<Rightarrow> pyval" where
  "artifact_uri obj = PStr (''gs://'' @ ARTIFACT_BUCKET @ ''/'' @ obj)"

definition stored_at :: "(string \<Rightarrow> int \<Rightarrow> string option) \<Rightarrow> pyval \<Rightarrow> pyval \<Rightarrow> string \<Rightarrow> bool" where
  "stored_at objects uri generation raw \<longleftrightarrow>
     (\<exists>obj gen. uri = artifact_uri obj \<and> fullmatch OBJECT obj \<and> to_int_generation generation = Inr gen \<and> objects obj gen = Some raw)"

lemma parse_gs_uri_Inr: "parse_gs_uri uri = Inr (b, obj) \<Longrightarrow> uri = PStr (''gs://'' @ b @ ''/'' @ obj)"
proof -
  assume h: "parse_gs_uri uri = Inr (b, obj)"
  then obtain s where s: "uri = PStr s" by (cases uri) (auto simp: parse_gs_uri_def)
  with h have st: "starts_with ''gs://'' s" by (auto simp: parse_gs_uri_def split: if_splits)
  then obtain r where r: "s = ''gs://'' @ r" by (auto simp: starts_with_iff)
  with h s st have e: "b = takeWhile (\<lambda>c. c \<noteq> CHR ''/'') r" "obj = drop (Suc (length b)) r" "obj \<noteq> []"
    by (auto simp: parse_gs_uri_def Let_def split: if_splits)
  from e have "dropWhile (\<lambda>c. c \<noteq> CHR ''/'') r \<noteq> []" by (auto simp: dropWhile_eq_drop)
  then have "hd (dropWhile (\<lambda>c. c \<noteq> CHR ''/'') r) = CHR ''/''" using hd_dropWhile by blast
  with \<open>dropWhile _ r \<noteq> []\<close> have "dropWhile (\<lambda>c. c \<noteq> CHR ''/'') r = CHR ''/'' # tl (dropWhile (\<lambda>c. c \<noteq> CHR ''/'') r)"
    by (cases "dropWhile (\<lambda>c. c \<noteq> CHR ''/'') r") auto
  moreover have "tl (dropWhile (\<lambda>c. c \<noteq> CHR ''/'') r) = obj"
    using e by (simp add: dropWhile_eq_drop tl_drop drop_Suc)
  ultimately have "r = b @ ''/'' @ obj" using e(1) takeWhile_dropWhile_id [of "\<lambda>c. c \<noteq> CHR ''/''" r] by simp
  with s r show ?thesis by simp
qed

lemma validate_artifact_uri_Inr:
  assumes "validate_artifact_uri uri base = Inr (b, obj)"
  shows "b = ARTIFACT_BUCKET \<and> uri = artifact_uri obj \<and> fullmatch OBJECT obj \<and> (\<exists>dir. obj = dir @ ''/'' @ base)"
  using assms parse_gs_uri_Inr [of uri b obj]
  by (auto simp: validate_artifact_uri_def result_simps artifact_uri_def ends_with_iff split: if_splits)

lemma fetch_artifact_Inr:
  assumes "fetch_artifact bucket uri generation base = Inr raw" and "bucket_serves objects bucket"
  shows "stored_at objects uri generation raw"
proof -
  from assms(1) obtain b obj gen where v: "validate_artifact_uri uri base = Inr (b, obj)" "to_int_generation generation = Inr gen"
    "bucket obj gen = Inr raw"
    by (auto simp: fetch_artifact_def fetch_object_pinned_def result_simps)
  with assms(2) validate_artifact_uri_Inr [OF v(1)] show ?thesis by (auto simp: stored_at_def bucket_serves_def)
qed

lemma field_Inr: "field v k = Inr x \<Longrightarrow> dget (dict_of v) k = x"
  by (auto simp: field_def subscript_def dict_of_def dget_or_def split: pyval.splits option.splits)

text \<open>The plan and its JSON are the objects the metadata names, with the digests it names.\<close>

definition content_signed :: "(string \<Rightarrow> string) \<Rightarrow> (string \<Rightarrow> int \<Rightarrow> string option) \<Rightarrow> pydict \<Rightarrow> string \<Rightarrow> pydict \<Rightarrow> bool" where
  "content_signed sha objects md plan_bytes plan \<longleftrightarrow>
     stored_at objects (dget md ''artifact_uri_plan'') (dget md ''generation_plan'') plan_bytes \<and>
     dget md ''plan_sha256'' = PStr (sha plan_bytes) \<and>
     (\<exists>json_bytes text. stored_at objects (dget md ''artifact_uri_json'') (dget md ''generation_json'') json_bytes \<and>
        dget md ''plan_json_sha256'' = PStr (sha json_bytes) \<and> utf8_decode json_bytes = Some text \<and>
        json_loads text = Some (PDict plan))"

text \<open>Each of its rows is one the resource-set guard and the denylist leave, for what the baked files declare.\<close>

definition effects_confined :: "(string \<Rightarrow> (string, string) res) \<Rightarrow> fs_node \<Rightarrow> pydict \<Rightarrow> bool \<Rightarrow> bool" where
  "effects_confined link iac plan create_class \<longleftrightarrow>
     (\<exists>texts rcs. baked_texts link iac = Inr texts \<and> dget plan ''resource_changes'' = PList rcs \<and>
        list_all (gated_row (extract_declared_addresses texts) create_class) rcs)"

text \<open>The baked directory has the hash that the sidecar beside the metadata states for this very plan.\<close>

definition tree_reviewed :: "(string \<Rightarrow> string) \<Rightarrow> (string \<Rightarrow> int \<Rightarrow> string option) \<Rightarrow> fs_node \<Rightarrow> pydict \<Rightarrow> pyval \<Rightarrow> bool" where
  "tree_reviewed sha objects iac md metadata_uri \<longleftrightarrow>
     (\<exists>dir gen raw sidecar files. metadata_uri = artifact_uri (dir @ ''metadata.json'') \<and>
        stored_at objects (artifact_uri (dir @ ''iac-tree.json'')) gen raw \<and> loads_bytes raw = Some (PDict sidecar) \<and>
        (\<forall>k \<in> set SIDECAR_CROSSCHECK_FIELDS. py_eq (dget sidecar k) (dget md k)) \<and>
        committed_files iac = Inr files \<and> dget sidecar ''iac_tree_hash'' = PStr (sha (manifest sha files)))"

lemma parse_plan_Inr: "parse_plan json_bytes = Inr plan \<Longrightarrow> \<exists>t. utf8_decode json_bytes = Some t \<and> json_loads t = Some (PDict plan)"
proof -
  assume h: "parse_plan json_bytes = Inr plan"
  then obtain t where t: "utf8_decode json_bytes = Some t" by (cases "utf8_decode json_bytes") (simp_all add: parse_plan_def)
  with h have p: "fst (load_plan_json loads_text t) = Some plan" by (simp add: parse_plan_def split: option.split_asm)
  then obtain v where v: "json_loads t = Some v" by (cases "json_loads t") (simp_all add: load_plan_json_def loads_text_def)
  with p have "v = PDict plan" by (cases v) (simp_all add: load_plan_json_def loads_text_def)
  with t v show ?thesis by simp
qed

lemma check_artifact_Inr: "check_artifact n actual expected = Inr u \<Longrightarrow> expected = PStr actual"
  by (auto simp: check_artifact_def compare_digest_def split: sum.splits pyval.splits if_splits)

lemma fetch_and_verify_Inr:
  assumes "fetch_and_verify_artifacts sha bucket md = Inr (plan, plan_bytes)" and "bucket_serves objects bucket"
  shows "content_signed sha objects (dict_of md) plan_bytes plan"
proof -
  from assms(1) obtain pu pg ju jg ps js json_bytes where f:
    "field md ''artifact_uri_plan'' = Inr pu" "field md ''generation_plan'' = Inr pg"
    "fetch_artifact bucket pu pg ''plan.tfplan'' = Inr plan_bytes"
    "field md ''artifact_uri_json'' = Inr ju" "field md ''generation_json'' = Inr jg"
    "fetch_artifact bucket ju jg ''plan.json'' = Inr json_bytes"
    "field md ''plan_sha256'' = Inr ps" "field md ''plan_json_sha256'' = Inr js"
    "verify_artifact_integrity sha plan_bytes json_bytes ps js = Inr ()" "parse_plan json_bytes = Inr plan"
    by (auto simp: fetch_and_verify_artifacts_def rbind_Inr_iff)
  from f(9) have "ps = PStr (sha plan_bytes)" "js = PStr (sha json_bytes)"
    by (auto simp: verify_artifact_integrity_def result_simps dest: check_artifact_Inr split: if_split_asm)
  with parse_plan_Inr [OF f(10)] show ?thesis
    using field_Inr [OF f(1)] field_Inr [OF f(2)] field_Inr [OF f(4)] field_Inr [OF f(5)] field_Inr [OF f(7)] field_Inr [OF f(8)]
      fetch_artifact_Inr [OF f(3) assms(2)] fetch_artifact_Inr [OF f(6) assms(2)]
    unfolding content_signed_def by auto
qed

lemma derive_sidecar_Inr:
  assumes "derive_sidecar_uri uri = Inr suri"
  shows "\<exists>dir. uri = artifact_uri (dir @ ''metadata.json'') \<and> suri = artifact_uri (dir @ ''iac-tree.json'')"
proof -
  from assms obtain b obj where v: "validate_artifact_uri uri METADATA_BASENAME = Inr (b, obj)"
    and s: "suri = PStr (''gs://'' @ b @ ''/'' @ take (length obj - length METADATA_BASENAME) obj @ SIDECAR_BASENAME)"
    by (auto simp: derive_sidecar_uri_def result_simps Let_def)
  from validate_artifact_uri_Inr [OF v] obtain dir where "b = ARTIFACT_BUCKET" "uri = artifact_uri obj"
    "obj = (dir @ ''/'') @ ''metadata.json''" by (auto simp: METADATA_BASENAME_def)
  with s show ?thesis
    by (intro exI [of _ "dir @ ''/''"]) (simp add: artifact_uri_def METADATA_BASENAME_def SIDECAR_BASENAME_def)
qed

lemma verify_iac_tree_Inr:
  assumes "verify_iac_tree_or_raise sha bucket iac md uri g = Inr h" and "bucket_serves objects bucket"
  shows "tree_reviewed sha objects iac (dict_of md) uri"
proof -
  note def = assms(1) [unfolded verify_iac_tree_or_raise_def]
  from def obtain g' where g': "g = Some g'" "g' \<noteq> []" by (cases g) (simp_all split: if_split_asm)
  with def obtain raw where raw: "rbind (derive_sidecar_uri uri) (\<lambda>u. fetch_artifact bucket u (PStr g') SIDECAR_BASENAME) = Inr raw"
    by (simp add: rbind_Inr_iff) blast
  then obtain suri where su: "derive_sidecar_uri uri = Inr suri" "fetch_artifact bucket suri (PStr g') SIDECAR_BASENAME = Inr raw"
    by (auto simp: rbind_Inr_iff)
  note def1 = def [unfolded g'(1), simplified, unfolded raw lift_exc_def, simplified g'(2) if_False sum.case rbind_simps]
  then obtain sidecar where sc: "loads_bytes raw = Some (PDict sidecar)"
    by (cases "loads_bytes raw"; cases "the (loads_bytes raw)") simp_all
  note def2 = def1 [unfolded sc, simplified]
  then obtain want where w: "dget sidecar ''iac_tree_hash'' = PStr want"
    by (cases "dget sidecar ''iac_tree_hash''") (simp_all split: if_split_asm)
  from def2 w have x: "list_all (\<lambda>k. py_eq (dget sidecar k) (dget (dict_of md) k)) SIDECAR_CROSSCHECK_FIELDS"
    "iac_tree_hash sha iac = Inr h" "compare_digest want (PStr h) = Inr True"
    by (auto simp: rbind_Inr_iff lift_exc_def split: if_split_asm sum.split_asm)
  note g = g'(1) su sc x(1) w x(2,3)
  from g(8) have "want = h" by (auto simp: compare_digest_def split: if_splits)
  moreover from g(7) obtain files where "committed_files iac = Inr files" "h = sha (manifest sha files)"
    by (auto simp: iac_tree_hash_def result_simps)
  moreover from derive_sidecar_Inr [OF g(2)] obtain dir where "uri = artifact_uri (dir @ ''metadata.json'')"
    "suri = artifact_uri (dir @ ''iac-tree.json'')" by blast
  ultimately show ?thesis
    using fetch_artifact_Inr [OF g(3) assms(2)] g(4-6) unfolding tree_reviewed_def list_all_iff by blast
qed

lemma run_gates_Inr:
  assumes "run_gates sha link iac bucket version md uri g = Inr (plan, plan_bytes, create_class)" and "bucket_serves objects bucket"
  shows "content_signed sha objects (dict_of md) plan_bytes plan \<and> create_class = plan_has_create (PDict plan) \<and>
    evaluate plan = Inr [] \<and> effects_confined link iac plan create_class \<and>
    (create_class \<longrightarrow> tree_reviewed sha objects iac (dict_of md) uri)"
proof -
  from assms(1) have f: "fetch_and_verify_artifacts sha bucket md = Inr (plan, plan_bytes)" "denylist_or_raise plan = Inr ()"
    "create_class = plan_has_create (PDict plan)"
    "create_class \<Longrightarrow> \<exists>h. verify_iac_tree_or_raise sha bucket iac md uri g = Inr h"
    "fidelity_or_raise sha link iac version md plan create_class create_class = Inr ()"
    by (auto simp: run_gates_def result_simps Let_def split: if_splits)
  from f(2) have e: "evaluate plan = Inr []" by (auto simp: denylist_or_raise_def split: sum.splits)
  from f(5) obtain v lock texts where t: "baked_texts link iac = Inr texts"
    "assert_fidelity (dict_of md) v lock plan (extract_declared_addresses texts) create_class create_class = Inr ()"
    by (auto simp: fidelity_or_raise_def result_simps)
  then have "resource_set_guard plan (extract_declared_addresses texts) create_class create_class = None"
    by (auto simp: assert_fidelity_def split: if_splits option.splits)
  from gated_rows [OF e this] t(1) have "effects_confined link iac plan create_class" by (auto simp: effects_confined_def)
  with e f fetch_and_verify_Inr [OF f(1) assms(2)] verify_iac_tree_Inr [OF _ assms(2)] show ?thesis by blast
qed

end
