(* ===== verification/CfAccess.thy ===== *)
theory CfAccess
  imports Renderer Regex
begin

text \<open>
  Verification of Cloudflare Access tokens (\<open>driftscribe_lib/cf_access.py\<close>): the signing-key cache with
  its refresh policy, the checks around the decoding of a token, and the canonical operator email.  The
  HTTP client and the JWT library are not part of the code: the answer of the key endpoint is an input,
  \<open>header\<close>, \<open>decode\<close> and \<open>from_dict\<close> are arguments.  Time is the monotonic clock in microseconds.
\<close>

section \<open>Exceptions and limits\<close>

text \<open>\<open>CfAccessJwtError\<close> is the one rejection a caller handles; \<open>Escapes\<close> is any other exception.\<close>

datatype jwt_exc = CfAccessJwtError string | Escapes string

definition JWKS_CACHE_TTL :: nat where "JWKS_CACHE_TTL = 3600000000"
definition JWKS_MIN_REFRESH :: nat where "JWKS_MIN_REFRESH = 60000000"
definition MAX_EMAIL_LEN :: nat where "MAX_EMAIL_LEN = 320"

definition TEAM_DOMAIN :: rx where
  "TEAM_DOMAIN =
     RSeq (RCls alnum_cls) (ropt (RSeq (rupto 251 (RCls (alnum_cls @ [(46, 46), (45, 45)]))) (RCls alnum_cls)))"

definition validate_team_domain :: "string \<Rightarrow> (jwt_exc, string) res" where
  "validate_team_domain td =
     (if td = [] \<or> \<not> fullmatch TEAM_DOMAIN td then Inl (CfAccessJwtError ''invalid cf_access_team_domain'') else Inr td)"

section \<open>Signing keys\<close>

type_synonym 'k keys = "pyval \<rightharpoonup> 'k"

record 'k cache_entry =
  ce_keys :: "'k keys"
  ce_fetched_at :: nat

type_synonym 'k cache = "string \<rightharpoonup> 'k cache_entry"

text \<open>One element of the key list; a key without a truthy \<open>kid\<close>, one the library cannot read, or one whose
  \<open>kid\<close> cannot be a dictionary key is skipped.  A \<open>kid\<close> that is no string is stored as it is (Python would
  merge equal numbers of different type; a lookup is always for a string).\<close>

definition add_key :: "(pydict \<Rightarrow> 'k option) \<Rightarrow> pyval \<Rightarrow> 'k keys \<Rightarrow> (jwt_exc, 'k keys) res" where
  "add_key from_dict v keys =
     (case v of
        PDict d \<Rightarrow>
          if \<not> truthy (dget d ''kid'') then Inr keys
          else (case from_dict d of
             None \<Rightarrow> Inr keys
           | Some k \<Rightarrow>
               (case dget d ''kid'' of
                  PList l \<Rightarrow> Inr keys
                | PDict e \<Rightarrow> Inr keys
                | kid \<Rightarrow> Inr (keys(kid \<mapsto> k))))
      | _ \<Rightarrow> Inl (Escapes ''AttributeError''))"

fun add_keys :: "(pydict \<Rightarrow> 'k option) \<Rightarrow> pyval list \<Rightarrow> 'k keys \<Rightarrow> (jwt_exc, 'k keys) res" where
  "add_keys from_dict [] keys = Inr keys"
| "add_keys from_dict (v # vs) keys = rbind (add_key from_dict v keys) (add_keys from_dict vs)"

text \<open>The elements that \<open>for key_dict in body.get("keys") or []\<close> visits.\<close>

definition key_list :: "pyval \<Rightarrow> (jwt_exc, pyval list) res" where
  "key_list body =
     (case body of
        PDict d \<Rightarrow>
          (case py_or (dget d ''keys'') (PList []) of
             PList vs \<Rightarrow> Inr vs
           | PDict e \<Rightarrow> Inr (map PStr (dkeys e))
           | PStr s \<Rightarrow> Inr (map (\<lambda>c. PStr [c]) s)
           | _ \<Rightarrow> Inl (Escapes ''TypeError''))
      | _ \<Rightarrow> Inl (Escapes ''AttributeError''))"

definition fetch_jwks :: "(pydict \<Rightarrow> 'k option) \<Rightarrow> (string, pyval) res \<Rightarrow> (jwt_exc, 'k keys) res" where
  "fetch_jwks from_dict answer =
     (case answer of
        Inl e \<Rightarrow> Inl (CfAccessJwtError (''JWKS fetch failed: '' @ e))
      | Inr body \<Rightarrow>
          rbind (key_list body) (\<lambda>vs.
          rbind (add_keys from_dict vs Map.empty) (\<lambda>keys.
          if keys = Map.empty then Inl (CfAccessJwtError ''JWKS contained no usable keys'') else Inr keys)))"

text \<open>The decision of \<open>_get_signing_key\<close> before any request: the cached key, a refusal, or a fetch.\<close>

datatype 'k key_choice = Cached 'k | RateLimited | Fetch

definition cached_key :: "'k cache \<Rightarrow> nat \<Rightarrow> string \<Rightarrow> string \<Rightarrow> 'k key_choice" where
  "cached_key cache now team_domain kid =
     (case cache team_domain of
        None \<Rightarrow> Fetch
      | Some e \<Rightarrow>
          if now - ce_fetched_at e < JWKS_CACHE_TTL
          then (case ce_keys e (PStr kid) of
                  Some k \<Rightarrow> Cached k
                | None \<Rightarrow> if now - ce_fetched_at e < JWKS_MIN_REFRESH then RateLimited else Fetch)
          else Fetch)"

text \<open>The rest of it once a fetch was decided: the answer of the endpoint is stored under the time read at the
  start, whatever the cache holds by then.\<close>

definition refresh_keys ::
  "(pydict \<Rightarrow> 'k option) \<Rightarrow> nat \<Rightarrow> (string, pyval) res \<Rightarrow> string \<Rightarrow> string \<Rightarrow> 'k cache \<Rightarrow> (jwt_exc, 'k) res \<times> 'k cache" where
  "refresh_keys from_dict now answer team_domain kid cache =
     (case fetch_jwks from_dict answer of
        Inl e \<Rightarrow> (Inl e, cache)
      | Inr keys \<Rightarrow>
          (case keys (PStr kid) of
             None \<Rightarrow> Inl (CfAccessJwtError ''kid not found in JWKS (after refresh)'')
           | Some k \<Rightarrow> Inr k,
           cache(team_domain \<mapsto> \<lparr>ce_keys = keys, ce_fetched_at = now\<rparr>)))"

text \<open>A lookup that no other one interrupts.\<close>

definition get_signing_key ::
  "(pydict \<Rightarrow> 'k option) \<Rightarrow> nat \<Rightarrow> (string, pyval) res \<Rightarrow> string \<Rightarrow> string \<Rightarrow> 'k cache \<Rightarrow> (jwt_exc, 'k) res \<times> 'k cache" where
  "get_signing_key from_dict now answer team_domain kid cache =
     (case cached_key cache now team_domain kid of
        Cached k \<Rightarrow> (Inr k, cache)
      | RateLimited \<Rightarrow> (Inl (CfAccessJwtError ''kid not in cached JWKS (refresh rate-limited)''), cache)
      | Fetch \<Rightarrow> refresh_keys from_dict now answer team_domain kid cache)"

section \<open>Tokens\<close>

text \<open>The library rejects a header whose \<open>kid\<close> is neither absent nor a string.\<close>

definition verify_cf_access_jwt ::
  "(string \<Rightarrow> (unit, pydict) res) \<Rightarrow> (string \<Rightarrow> 'k \<Rightarrow> string \<Rightarrow> string \<Rightarrow> (unit, pydict) res) \<Rightarrow> (pydict \<Rightarrow> 'k option) \<Rightarrow>
   nat \<Rightarrow> (string, pyval) res \<Rightarrow> string \<Rightarrow> string \<Rightarrow> string \<Rightarrow> 'k cache \<Rightarrow> (jwt_exc, pydict) res \<times> 'k cache" where
  "verify_cf_access_jwt header decode from_dict now answer token team_domain aud_tag cache =
     (case (if token = [] then Inl (CfAccessJwtError ''empty JWT'')
            else rbind (validate_team_domain team_domain) (\<lambda>td.
              if aud_tag = [] then Inl (CfAccessJwtError ''empty cf_access_aud_tag'')
              else case header token of
                Inl _ \<Rightarrow> Inl (CfAccessJwtError ''malformed JWT header'')
              | Inr h \<Rightarrow>
                  (case dget h ''kid'' of
                     PStr kid \<Rightarrow> if kid = [] then Inl (CfAccessJwtError ''JWT header missing kid'') else Inr (td, kid)
                   | _ \<Rightarrow> Inl (CfAccessJwtError ''JWT header missing kid'')))) of
        Inl e \<Rightarrow> (Inl e, cache)
      | Inr (td, kid) \<Rightarrow>
          (case get_signing_key from_dict now answer td kid cache of
             (Inl e, cache') \<Rightarrow> (Inl e, cache')
           | (Inr k, cache') \<Rightarrow>
               (case decode token k aud_tag (''https://'' @ td) of
                  Inl _ \<Rightarrow> Inl (CfAccessJwtError ''JWT verification failed'')
                | Inr claims \<Rightarrow> Inr claims, cache')))"

definition canonical_operator_email :: "pydict \<Rightarrow> (jwt_exc, string) res" where
  "canonical_operator_email claims =
     (case dget claims ''email'' of
        PStr email \<Rightarrow>
          (let stripped = strip email in
           if stripped = [] then Inl (CfAccessJwtError ''CF Access email claim is empty'')
           else if length stripped > MAX_EMAIL_LEN then Inl (CfAccessJwtError ''CF Access email claim exceeds 320 chars'')
           else Inr (map lower_char stripped))
      | _ \<Rightarrow> Inl (CfAccessJwtError ''CF Access claims missing a string email claim''))"

section \<open>The refresh policy\<close>

text \<open>Lookups run in a thread pool without a lock.  A lookup reads the clock, then decides on the cache as it is
  by then, then waits for the endpoint and stores what it answers; others run in between.  The log, newest
  first, has the requests made, the key sets stored and the keys handed out, each with the time its lookup read.\<close>

datatype lookup = Reading nat string string | Fetching nat string string | Ended

datatype 'k key_event =
    Asked nat string string
  | Stored nat string "'k keys"
  | Gave nat string string 'k

record 'k key_state =
  ks_cache :: "'k cache"
  ks_lookups :: "lookup list"
  ks_log :: "'k key_event list"

definition decide_lookup :: "nat \<Rightarrow> nat \<Rightarrow> string \<Rightarrow> string \<Rightarrow> 'k key_state \<Rightarrow> 'k key_state" where
  "decide_lookup i now td kid s =
     (case cached_key (ks_cache s) now td kid of
        Cached k \<Rightarrow> s\<lparr>ks_lookups := (ks_lookups s)[i := Ended], ks_log := Gave now td kid k # ks_log s\<rparr>
      | RateLimited \<Rightarrow> s\<lparr>ks_lookups := (ks_lookups s)[i := Ended]\<rparr>
      | Fetch \<Rightarrow> s\<lparr>ks_lookups := (ks_lookups s)[i := Fetching now td kid], ks_log := Asked now td kid # ks_log s\<rparr>)"

definition stored_events :: "(pydict \<Rightarrow> 'k option) \<Rightarrow> nat \<Rightarrow> (string, pyval) res \<Rightarrow> string \<Rightarrow> 'k key_event list" where
  "stored_events from_dict now answer td =
     (case fetch_jwks from_dict answer of Inl e \<Rightarrow> [] | Inr keys \<Rightarrow> [Stored now td keys])"

definition answer_lookup ::
  "(pydict \<Rightarrow> 'k option) \<Rightarrow> nat \<Rightarrow> (string, pyval) res \<Rightarrow> nat \<Rightarrow> string \<Rightarrow> string \<Rightarrow> 'k key_state \<Rightarrow> 'k key_state" where
  "answer_lookup from_dict i answer now td kid s =
     (case refresh_keys from_dict now answer td kid (ks_cache s) of
        (r, cache') \<Rightarrow>
          \<lparr>ks_cache = cache', ks_lookups = (ks_lookups s)[i := Ended],
           ks_log = (case r of Inl e \<Rightarrow> [] | Inr k \<Rightarrow> [Gave now td kid k]) @ stored_events from_dict now answer td @ ks_log s\<rparr>)"

inductive key_step :: "(pydict \<Rightarrow> 'k option) \<Rightarrow> 'k key_state \<Rightarrow> 'k key_state \<Rightarrow> bool" for from_dict where
  arrives: "key_step from_dict s (s\<lparr>ks_lookups := ks_lookups s @ [Reading now td kid]\<rparr>)"
| decides: "i < length (ks_lookups s) \<Longrightarrow> ks_lookups s ! i = Reading now td kid \<Longrightarrow>
     key_step from_dict s (decide_lookup i now td kid s)"
| answered: "i < length (ks_lookups s) \<Longrightarrow> ks_lookups s ! i = Fetching now td kid \<Longrightarrow>
     key_step from_dict s (answer_lookup from_dict i answer now td kid s)"

definition no_lookups :: "'k key_state" where
  "no_lookups = \<lparr>ks_cache = Map.empty, ks_lookups = [], ks_log = []\<rparr>"

inductive key_system :: "(pydict \<Rightarrow> 'k option) \<Rightarrow> 'k key_state \<Rightarrow> bool" for from_dict where
  start: "key_system from_dict no_lookups"
| more: "key_system from_dict s \<Longrightarrow> key_step from_dict s s' \<Longrightarrow> key_system from_dict s'"

text \<open>The key set stored last for a domain.\<close>

fun last_stored :: "string \<Rightarrow> 'k key_event list \<Rightarrow> (nat \<times> 'k keys) option" where
  "last_stored td [] = None"
| "last_stored td (Stored t d keys # past) = (if d = td then Some (t, keys) else last_stored td past)"
| "last_stored td (_ # past) = last_stored td past"

text \<open>What the log owes each of its events, given the events before it.\<close>

fun justified :: "(pydict \<Rightarrow> 'k option) \<Rightarrow> 'k key_event list \<Rightarrow> 'k key_event \<Rightarrow> bool" where
  "justified from_dict past (Gave now td kid k) \<longleftrightarrow>
     (\<exists>t keys. last_stored td past = Some (t, keys) \<and> keys (PStr kid) = Some k \<and> now < t + JWKS_CACHE_TTL)"
| "justified from_dict past (Asked now td kid) \<longleftrightarrow>
     (case last_stored td past of
        None \<Rightarrow> True
      | Some (t, keys) \<Rightarrow> t + JWKS_MIN_REFRESH \<le> now \<and> (keys (PStr kid) = None \<or> t + JWKS_CACHE_TTL \<le> now))"
| "justified from_dict past (Stored t td keys) \<longleftrightarrow>
     (\<exists>kid. Asked t td kid \<in> set past) \<and> (\<exists>answer. fetch_jwks from_dict answer = Inr keys)"

fun log_justified :: "(pydict \<Rightarrow> 'k option) \<Rightarrow> 'k key_event list \<Rightarrow> bool" where
  "log_justified from_dict [] = True"
| "log_justified from_dict (ev # past) \<longleftrightarrow> justified from_dict past ev \<and> log_justified from_dict past"

lemma log_justified_app: "log_justified from_dict (later @ ev # past) \<Longrightarrow> justified from_dict past ev"
  by (induction later) auto

text \<open>The cache is what was stored last, and whoever waits for the endpoint has asked it.\<close>

definition cache_logged :: "'k key_state \<Rightarrow> bool" where
  "cache_logged s \<longleftrightarrow>
     (\<forall>td. map_option (\<lambda>e. (ce_fetched_at e, ce_keys e)) (ks_cache s td) = last_stored td (ks_log s)) \<and>
     (\<forall>now td kid. Fetching now td kid \<in> set (ks_lookups s) \<longrightarrow> Asked now td kid \<in> set (ks_log s))"

lemma cache_logged_entry:
  assumes "cache_logged s"
  shows "ks_cache s td = None \<Longrightarrow> last_stored td (ks_log s) = None"
    "ks_cache s td = Some e \<Longrightarrow> last_stored td (ks_log s) = Some (ce_fetched_at e, ce_keys e)"
  using assms unfolding cache_logged_def by (metis option.map(1), metis option.map(2))

lemma cached_key_justified:
  assumes "cache_logged s"
  shows "cached_key (ks_cache s) now td kid = Cached k \<Longrightarrow> justified from_dict (ks_log s) (Gave now td kid k)"
    "cached_key (ks_cache s) now td kid = Fetch \<Longrightarrow> justified from_dict (ks_log s) (Asked now td kid)"
  using cache_logged_entry [OF assms, of td]
  by (auto simp: cached_key_def JWKS_CACHE_TTL_def JWKS_MIN_REFRESH_def split: option.splits if_splits)

lemma update_lookup: "l \<in> set (ls[i := x]) \<Longrightarrow> l = x \<or> l \<in> set ls"
  using set_update_subset_insert by fastforce

lemma key_step_keeps:
  assumes "key_step from_dict s s'" and "cache_logged s" and "log_justified from_dict (ks_log s)"
  shows "cache_logged s' \<and> log_justified from_dict (ks_log s')"
  using assms(1)
proof cases
  case (arrives now td kid)
  with assms(2,3) show ?thesis by (auto simp: cache_logged_def)
next
  case (decides i now td kid)
  have "cache_logged s'"
    using assms(2) unfolding decides(1)
    by (auto simp: cache_logged_def decide_lookup_def split: key_choice.splits dest!: update_lookup)
  with cached_key_justified [OF assms(2), of now td kid] assms(3) show ?thesis unfolding decides(1)
    by (auto simp del: justified.simps simp: decide_lookup_def split: key_choice.splits)
next
  case (answered i now td kid answer)
  have asked: "Asked now td kid \<in> set (ks_log s)"
    using assms(2) answered(2,3) nth_mem unfolding cache_logged_def by metis
  show ?thesis
  proof (cases "fetch_jwks from_dict answer")
    case (Inl e)
    with assms(2,3) show ?thesis unfolding answered(1)
      by (auto simp: cache_logged_def answer_lookup_def refresh_keys_def stored_events_def dest!: update_lookup)
  next
    case (Inr keys)
    have "cache_logged s'"
      using assms(2) Inr unfolding answered(1)
      by (auto simp: cache_logged_def answer_lookup_def refresh_keys_def stored_events_def split: option.splits dest!: update_lookup)
    with asked assms(3) Inr show ?thesis unfolding answered(1)
      by (auto simp: answer_lookup_def refresh_keys_def stored_events_def JWKS_CACHE_TTL_def split: option.splits)
  qed
qed

lemma key_system_justified: "key_system from_dict s \<Longrightarrow> cache_logged s \<and> log_justified from_dict (ks_log s)"
proof (induction rule: key_system.induct)
  case start
  show ?case by (simp add: cache_logged_def no_lookups_def)
next
  case (more s s')
  with key_step_keeps show ?case by blast
qed

text \<open>C34: Signing keys are fresh and their endpoint is spared, however the lookups of a thread pool interleave.
  Every key handed out is, under its \<open>kid\<close>, in the key set stored last for that very team domain, and the
  lookup that fetched this set had read the clock less than an hour before the lookup that is served.  Every
  key set stored is the endpoint's answer to a request made by a lookup for that domain.  And every
  request, whether it succeeds or fails, is made by a lookup that read the clock at least a minute after the time
  of the key set stored last for the domain, if there is one, and for a \<open>kid\<close> that this set lacks
  unless the set is an hour old.  (Requests made while no newer set is stored are not limited.)\<close>

theorem signing_keys_fresh_and_rate_limited:
  assumes "key_system from_dict s" and "ks_log s = later @ ev # past"
  shows "justified from_dict past ev"
  using key_system_justified [OF assms(1)] log_justified_app unfolding assms(2) by blast

text \<open>Two lookups at one time: the second decides before the first has its answer, so both ask; a third, within
  the minute and for another key id, does not.\<close>

theorem signing_keys_fresh_and_rate_limited_witness:
  "\<exists>s past. key_system (\<lambda>d. Some (dget d ''n'')) s \<and>
     ks_log s = [] @ Gave 5 ''t'' ''a'' (PInt 7) # past \<and> justified (\<lambda>d. Some (dget d ''n'')) past (Gave 5 ''t'' ''a'' (PInt 7)) \<and>
     Asked 6 ''t'' ''b'' \<in> set past \<and> cached_key (ks_cache s) 7 ''t'' ''b'' = RateLimited"
proof -
  let ?f = "\<lambda>d. Some (dget d ''n'')"
  let ?body = "PDict [(''keys'', PList [PDict [(''kid'', PStr ''a''), (''n'', PInt 7)]])]"
  have fetched: "fetch_jwks ?f (Inr ?body) = Inr [PStr ''a'' \<mapsto> PInt 7]"
    by (simp add: fetch_jwks_def key_list_def py_or_def add_key_def)
  define s1 :: "pyval key_state" where
    "s1 = no_lookups\<lparr>ks_lookups := [Reading 5 ''t'' ''a'', Reading 6 ''t'' ''b'']\<rparr>"
  have r1: "key_system ?f s1"
    using key_system.more [OF key_system.more [OF key_system.start key_step.arrives [of _ _ 5 "''t''" "''a''"]]
        key_step.arrives [of _ _ 6 "''t''" "''b''"]]
    by (simp add: s1_def no_lookups_def)
  note r2 = key_system.more [OF r1 key_step.decides [of 0 s1 5 "''t''" "''a''"]]
  define s2 where "s2 = decide_lookup 0 5 ''t'' ''a'' s1"
  have r2: "key_system ?f s2" using r2 by (simp add: s1_def s2_def)
  have s2: "s2 = \<lparr>ks_cache = Map.empty, ks_lookups = [Fetching 5 ''t'' ''a'', Reading 6 ''t'' ''b''], ks_log = [Asked 5 ''t'' ''a'']\<rparr>"
    by (simp add: s2_def s1_def decide_lookup_def no_lookups_def cached_key_def)
  define s3 where "s3 = decide_lookup 1 6 ''t'' ''b'' s2"
  have r3: "key_system ?f s3"
    unfolding s3_def using key_system.more [OF r2 key_step.decides [of 1 s2 6 "''t''" "''b''"]] by (simp add: s2)
  have s3: "s3 = \<lparr>ks_cache = Map.empty, ks_lookups = [Fetching 5 ''t'' ''a'', Fetching 6 ''t'' ''b''],
      ks_log = [Asked 6 ''t'' ''b'', Asked 5 ''t'' ''a'']\<rparr>"
    by (simp add: s3_def s2 decide_lookup_def cached_key_def)
  define s4 where "s4 = answer_lookup ?f 0 (Inr ?body) 5 ''t'' ''a'' s3"
  have r4: "key_system ?f s4"
    unfolding s4_def using key_system.more [OF r3 key_step.answered [of 0 s3 5 "''t''" "''a''"]] by (simp add: s3)
  have s4: "ks_log s4 = [] @ Gave 5 ''t'' ''a'' (PInt 7) # [Stored 5 ''t'' [PStr ''a'' \<mapsto> PInt 7], Asked 6 ''t'' ''b'', Asked 5 ''t'' ''a'']"
    "ks_cache s4 = [''t'' \<mapsto> \<lparr>ce_keys = [PStr ''a'' \<mapsto> PInt 7], ce_fetched_at = 5\<rparr>]"
    unfolding s4_def by (simp_all add: s3 answer_lookup_def refresh_keys_def fetched stored_events_def del: fun_upd_apply)
      (simp_all add: fun_upd_def)
  have "cached_key (ks_cache s4) 7 ''t'' ''b'' = RateLimited"
    by (simp add: s4(2) cached_key_def JWKS_CACHE_TTL_def JWKS_MIN_REFRESH_def)
  with signing_keys_fresh_and_rate_limited [OF r4 s4(1)] r4 s4(1) show ?thesis
    by (intro exI [of _ s4] exI [of _ "[Stored 5 ''t'' [PStr ''a'' \<mapsto> PInt 7], Asked 6 ''t'' ''b'', Asked 5 ''t'' ''a'']"])
       simp
qed

end
