(* ===== verification/TofuApply.thy ===== *)
theory TofuApply
  imports TofuGates CfAccess
begin

text \<open>
  The request handlers of the apply worker (\<open>workers/tofu_apply/main.py\<close>), the only service that runs
  \<open>tofu apply\<close>.  A handler that changes the store is a machine whose steps are its interactions, so that requests
  can interleave; the subprocess sequence runs inside it one command at a time.  The world holds the
  approvals collection and the log of the apply commands that were issued.  The tests of presence and value
  in front of an exception's text are kept, the quoted values in it are not.
\<close>

section \<open>Configuration\<close>

record apply_config =
  cf_hmac_key :: string
  cf_auth_mode :: string
  cf_team_domain :: string
  cf_aud_tag :: string
  cf_iac :: fs_node
  cf_link :: "string \<Rightarrow> (string, string) res"

definition VALID_OPERATOR_AUTH_MODES :: "string list" where
  "VALID_OPERATOR_AUTH_MODES = [''enforce'', ''e2e'']"

definition validate_operator_auth_config :: "string \<Rightarrow> string \<Rightarrow> string \<Rightarrow> (string, unit) res" where
  "validate_operator_auth_config mode team_domain aud_tag =
     rbind (require (mode \<in> set VALID_OPERATOR_AUTH_MODES) ''RuntimeError'') (\<lambda>_.
     require (\<not> (mode = ''enforce'' \<and> (team_domain = [] \<or> aud_tag = []))) ''RuntimeError'')"

section \<open>Request schemas\<close>

text \<open>A field that may be absent or null.\<close>

definition opt_field :: "pydict \<Rightarrow> string \<Rightarrow> (string \<Rightarrow> bool) \<Rightarrow> string option option" where
  "opt_field body k ok =
     (case dget body k of PNone \<Rightarrow> Some None | PStr s \<Rightarrow> if ok s then Some (Some s) else None | _ \<Rightarrow> None)"

definition generation_ok :: "string \<Rightarrow> bool" where
  "generation_ok s \<longleftrightarrow> length s \<le> 32 \<and> fullmatch DIGITS s"

record propose_plan_request =
  pp_artifact_uri_metadata :: string
  pp_generation_metadata :: string
  pp_approver :: string
  pp_operator_jwt :: "string option"
  pp_generation_iac_tree :: "string option"

definition ProposePlanRequest :: "pydict \<Rightarrow> propose_plan_request option" where
  "ProposePlanRequest body =
     (case (str_field body ''artifact_uri_metadata'' 1 512, str_field body ''generation_metadata'' 1 32,
            str_field body ''approver'' 1 320, opt_field body ''operator_jwt'' (\<lambda>_. True),
            opt_field body ''generation_iac_tree'' generation_ok) of
        (Some u, Some g, Some a, Some j, Some t) \<Rightarrow>
          if only_keys body [''artifact_uri_metadata'', ''generation_metadata'', ''approver'', ''operator_jwt'', ''generation_iac_tree'']
             \<and> fullmatch DIGITS g
          then Some \<lparr>pp_artifact_uri_metadata = u, pp_generation_metadata = g, pp_approver = a, pp_operator_jwt = j,
                     pp_generation_iac_tree = t\<rparr>
          else None
      | _ \<Rightarrow> None)"

record token_request =
  tr_approval_id :: string
  tr_approval_token :: string

definition TokenRequest :: "pydict \<Rightarrow> token_request option" where
  "TokenRequest body =
     (case (str_field body ''approval_id'' 36 36, str_field body ''approval_token'' 43 64) of
        (Some i, Some t) \<Rightarrow>
          if only_keys body [''approval_id'', ''approval_token''] \<and> fullmatch UUID_SHAPE i
          then Some \<lparr>tr_approval_id = i, tr_approval_token = t\<rparr> else None
      | _ \<Rightarrow> None)"

record apply_request =
  rq_approval_id :: string
  rq_approval_token :: string
  rq_operator_jwt :: "string option"
  rq_generation_iac_tree :: "string option"

definition ApplyRequest :: "pydict \<Rightarrow> apply_request option" where
  "ApplyRequest body =
     (case (str_field body ''approval_id'' 36 36, str_field body ''approval_token'' 43 64,
            opt_field body ''operator_jwt'' (\<lambda>_. True), opt_field body ''generation_iac_tree'' generation_ok) of
        (Some i, Some t, Some j, Some g) \<Rightarrow>
          if only_keys body [''approval_id'', ''approval_token'', ''operator_jwt'', ''generation_iac_tree''] \<and> fullmatch UUID_SHAPE i
          then Some \<lparr>rq_approval_id = i, rq_approval_token = t, rq_operator_jwt = j, rq_generation_iac_tree = g\<rparr>
          else None
      | _ \<Rightarrow> None)"

section \<open>The operator\<close>

text \<open>\<open>jwt\<close> is what the verification of a token answers (the theory of Cloudflare Access tokens).\<close>

definition verify_operator ::
  "string \<Rightarrow> (string \<Rightarrow> (jwt_exc, pydict) res) \<Rightarrow> string option \<Rightarrow> pyval \<Rightarrow> string \<Rightarrow> (outcome, string option) res" where
  "verify_operator mode jwt operator_jwt expected_approver caller =
     (if mode = ''e2e'' \<and> operator_jwt = None
      then if PStr caller \<noteq> expected_approver then Inl (HTTPException 403 ''actor is not the signed approver'') else Inr None
      else case operator_jwt of
        None \<Rightarrow> Inl (HTTPException 403 ''operator JWT required'')
      | Some [] \<Rightarrow> Inl (HTTPException 403 ''operator JWT required'')
      | Some (c # s) \<Rightarrow>
          (case rbind (jwt (c # s)) canonical_operator_email of
             Inl (CfAccessJwtError _) \<Rightarrow> Inl (HTTPException 403 ''operator verification failed'')
           | Inl (Escapes e) \<Rightarrow> Inl (Unhandled e)
           | Inr email \<Rightarrow>
               if PStr email \<noteq> expected_approver then Inl (HTTPException 403 ''operator is not the approver'')
               else Inr (Some email)))"

section \<open>Propose\<close>

record propose_plan_input =
  pl_jwt :: "string \<Rightarrow> (jwt_exc, pydict) res"
  pl_bucket :: bucket
  pl_version :: tofu_answer
  pl_window_now :: instant
  pl_create_now :: instant
  pl_approval_id :: string
  pl_token :: string

text \<open>What a refusal of the gates answers; \<open>step_failed\<close> is the text of a \<open>TofuStepError\<close>.\<close>

definition step_failed :: "string \<Rightarrow> int \<Rightarrow> string" where
  "step_failed step rc = ''tofu '' @ step @ '' failed (exit '' @ show_int rc @ '')''"

fun propose_refusal :: "gate_exc \<Rightarrow> outcome" where
  "propose_refusal (GcsFetchError m) = HTTPException 422 (''artifact fetch failed: '' @ m)"
| "propose_refusal (NotIntact m) = HTTPException 422 (''artifact integrity: '' @ m)"
| "propose_refusal (IacTreeMismatch m) = HTTPException 422 (''iac-tree gate (re-bake required): '' @ m)"
| "propose_refusal (FidelityError m) = HTTPException 422 (''fidelity: '' @ m)"
| "propose_refusal (ProbeError step rc err) = HTTPException 502 (''tofu probe failed: '' @ step_failed step rc)"
| "propose_refusal (Rejected m) = HTTPException 422 (''propose rejected: '' @ m)"
| "propose_refusal (Escaped e) = Unhandled e"

definition fetched_metadata :: "bucket \<Rightarrow> pyval \<Rightarrow> pyval \<Rightarrow> (gate_exc, pyval) res" where
  "fetched_metadata bucket uri generation =
     rbind (fetch_artifact bucket uri generation METADATA_BASENAME) (\<lambda>raw.
       case loads_bytes raw of None \<Rightarrow> Inl (Rejected ''JSONDecodeError'') | Some v \<Rightarrow> Inr v)"

definition propose_gates ::
  "(string \<Rightarrow> string) \<Rightarrow> apply_config \<Rightarrow> propose_plan_input \<Rightarrow> propose_plan_request \<Rightarrow> (gate_exc, pyval) res" where
  "propose_gates sha cfg inp req =
     (let uri = PStr (pp_artifact_uri_metadata req) in
      rbind (fetched_metadata (pl_bucket inp) uri (PStr (pp_generation_metadata req))) (\<lambda>md.
      rbind (require (as_dict md \<noteq> None) (Rejected ''metadata.json root'')) (\<lambda>_.
      rbind (run_gates sha (cf_link cfg) (cf_iac cfg) (pl_bucket inp) (pl_version inp) md uri (pp_generation_iac_tree req)) (\<lambda>_.
      Inr md))))"

definition propose_plan ::
  "(string \<Rightarrow> string) \<Rightarrow> (string \<Rightarrow> string \<Rightarrow> string) \<Rightarrow> apply_config \<Rightarrow> propose_plan_input \<Rightarrow> string \<Rightarrow> propose_plan_request \<Rightarrow>
   docs \<Rightarrow> outcome \<times> docs" where
  "propose_plan sha mac cfg inp caller req docs =
     (case verify_operator (cf_auth_mode cfg) (pl_jwt inp) (pp_operator_jwt req) (PStr (pp_approver req)) caller of
        Inl r \<Rightarrow> (r, docs)
      | Inr _ \<Rightarrow>
          (case propose_gates sha cfg inp req of
             Inl e \<Rightarrow> (propose_refusal e, docs)
           | Inr md \<Rightarrow>
               (case new_approval_window (Aware (pl_window_now inp) 0) 15 of
                  Inl e \<Rightarrow> (Unhandled (exc_name e), docs)
                | Inr (issued_at, expires_at) \<Rightarrow>
                    (case build_plan_approval_payload md (PStr (pp_artifact_uri_metadata req)) (PStr (pp_generation_metadata req))
                            (PStr (pp_approver req)) (PStr issued_at) (PStr expires_at) of
                       Inl (ValueError m) \<Rightarrow> (HTTPException 422 (''payload build rejected: '' @ m), docs)
                     | Inl e \<Rightarrow> (Unhandled (exc_name e), docs)
                     | Inr payload \<Rightarrow>
                         (case plan_create sha mac (pl_create_now inp) (pl_approval_id inp) (pl_token inp) payload
                                 (cf_hmac_key cfg) caller docs of
                            (Inl e, docs') \<Rightarrow> (Unhandled (exc_name e), docs')
                          | (Inr (a, raw_token), docs') \<Rightarrow>
                              (Ok [(''approval_id'', PStr (pa_id a)), (''approval_token'', PStr raw_token),
                                   (''expires_at'', PStr expires_at)], docs'))))))"

section \<open>The checks before the claim\<close>

record verified =
  vf_canonical :: pyval
  vf_payload :: pydict
  vf_operator :: "string option"
  vf_at :: instant

text \<open>What deny and apply share: the document exists, is pending, and the token verifies against it.\<close>

definition token_check ::
  "(string \<Rightarrow> string) \<Rightarrow> (string \<Rightarrow> string \<Rightarrow> string) \<Rightarrow> string \<Rightarrow> string \<Rightarrow> string \<Rightarrow> docs \<Rightarrow> (outcome, plan_approval) res" where
  "token_check sha mac key aid token docs =
     (case plan_get aid docs of
        Inl e \<Rightarrow> Inl (Unhandled (exc_name e))
      | Inr None \<Rightarrow> Inl (HTTPException 404 ''approval not found'')
      | Inr (Some stored) \<Rightarrow>
          if pa_status stored \<noteq> PStr ''pending'' then Inl (HTTPException 403 ''approval status is not pending'')
          else (case verify_plan_approval sha mac token stored key of
            Inl e \<Rightarrow> Inl (Unhandled (exc_name e))
          | Inr ok \<Rightarrow> if ok then Inr stored else Inl (HTTPException 403 ''invalid approval token'')))"

definition unhandled :: "(pyexc, 'a) res \<Rightarrow> (outcome, 'a) res" where
  "unhandled r = lift_exc (\<lambda>e. Unhandled (exc_name e)) r"

definition verify_apply ::
  "(string \<Rightarrow> string) \<Rightarrow> (string \<Rightarrow> string \<Rightarrow> string) \<Rightarrow> apply_config \<Rightarrow> instant \<Rightarrow> (string \<Rightarrow> (jwt_exc, pydict) res) \<Rightarrow>
   string \<Rightarrow> apply_request \<Rightarrow> docs \<Rightarrow> (outcome, verified) res" where
  "verify_apply sha mac cfg now jwt caller req docs =
     rbind (token_check sha mac (cf_hmac_key cfg) (rq_approval_id req) (rq_approval_token req) docs) (\<lambda>stored.
     rbind (unhandled (signed_payload stored)) (\<lambda>sp.
     rbind (unhandled (plan_approval_is_expired stored now)) (\<lambda>expired.
     rbind (require (\<not> expired) (HTTPException 403 ''approval expired'')) (\<lambda>_.
     rbind (unhandled (subscript sp ''approver'')) (\<lambda>approver.
     rbind (verify_operator (cf_auth_mode cfg) jwt (rq_operator_jwt req) approver caller) (\<lambda>operator.
     Inr \<lparr>vf_canonical = pa_payload_canonical stored, vf_payload = dict_of sp, vf_operator = operator, vf_at = now\<rparr>))))))"

section \<open>Apply\<close>

record gated =
  gt_plan :: string
  gt_json :: pydict
  gt_create :: bool

text \<open>The point an apply request has reached.  The texts are the attempt's identifier; \<open>AFail\<close> is the write of a
  terminal audit with the answer that follows it, \<open>ARecord\<close> the write of the final one.\<close>

datatype apply_pc =
    AVerify
  | AClaim verified
  | AGate verified string
  | AWorkdir verified string gated
  | ATofu verified string gated seq_pc
  | AFail verified string string nat string pydict
  | ARecord verified string gated apply_outcome
  | ADone outcome

record apply_input =
  ai_now :: instant
  ai_jwt :: "string \<Rightarrow> (jwt_exc, pydict) res"
  ai_attempt :: string
  ai_bucket :: bucket
  ai_tofu :: tofu_answer
  ai_workdir :: "(string, unit) res"
  ai_store_error :: "string option"

record apply_event =
  ae_request :: apply_request
  ae_caller :: string
  ae_verified :: verified
  ae_gated :: gated

record apply_world =
  aw_docs :: docs
  aw_applies :: "apply_event list"

definition claimed_plan_audit :: "instant \<Rightarrow> string \<Rightarrow> string \<Rightarrow> string option \<Rightarrow> pyval" where
  "claimed_plan_audit now attempt caller operator =
     PDict [(''phase'', PStr ''claimed''), (''claimed_at'', PStr (iso_micro now)), (''apply_attempt_id'', PStr attempt),
            (''caller_sa'', PStr caller), (''operator_email'', opt_val operator)]"

definition apply_claim ::
  "instant \<Rightarrow> string \<Rightarrow> string \<Rightarrow> string \<Rightarrow> verified \<Rightarrow> docs \<Rightarrow> apply_pc \<times> docs" where
  "apply_claim now attempt aid caller v docs =
     (case plan_claim_pending aid (PStr caller) now (claimed_plan_audit now attempt caller (vf_operator v)) docs of
        (Inl e, docs') \<Rightarrow> (ADone (Unhandled (exc_name e)), docs')
      | (Inr None, docs') \<Rightarrow> (ADone (HTTPException 403 ''approval already used or revoked''), docs')
      | (Inr (Some _), docs') \<Rightarrow> (AGate v attempt, docs'))"

text \<open>The metadata is fetched again where the signed payload says and must rebuild the signed text.\<close>

definition rebuild_check :: "bucket \<Rightarrow> verified \<Rightarrow> (gate_exc, unit) res" where
  "rebuild_check bucket v =
     (let sp = PDict (vf_payload v) in
      rbind (field sp ''artifact_uri_metadata'') (\<lambda>uri.
      rbind (field sp ''generation_metadata'') (\<lambda>generation.
      rbind (fetched_metadata bucket uri generation) (\<lambda>metadata.
      rbind (field sp ''approver'') (\<lambda>approver.
      rbind (field sp ''issued_at'') (\<lambda>issued_at.
      rbind (field sp ''expires_at'') (\<lambda>expires_at.
      rbind (lift_exc of_pyexc (build_plan_approval_payload metadata uri generation approver issued_at expires_at)) (\<lambda>rebuilt.
      rbind (lift_exc of_pyexc (canonicalize_payload rebuilt)) (\<lambda>canonical.
      require (PStr canonical = vf_canonical v) (Rejected ''re-fetched metadata does not reproduce the signed payload''))))))))))"

definition apply_gates ::
  "(string \<Rightarrow> string) \<Rightarrow> apply_config \<Rightarrow> bucket \<Rightarrow> tofu_answer \<Rightarrow> verified \<Rightarrow> pyval \<Rightarrow> string option \<Rightarrow> (gate_exc, gated) res" where
  "apply_gates sha cfg bucket version v md generation_iac_tree =
     rbind (rebuild_check bucket v) (\<lambda>_.
     rbind (run_gates sha (cf_link cfg) (cf_iac cfg) bucket version md (dget (vf_payload v) ''artifact_uri_metadata'')
              generation_iac_tree) (\<lambda>(parsed, plan_bytes, has_create).
     Inr \<lparr>gt_plan = plan_bytes, gt_json = parsed, gt_create = has_create\<rparr>))"

text \<open>The last \<open>n\<close> characters, \<open>s[-n:]\<close>.\<close>

definition tail_of :: "nat \<Rightarrow> string \<Rightarrow> string" where "tail_of n s = drop (length s - n) s"

definition step_extra :: "string \<Rightarrow> int \<Rightarrow> string \<Rightarrow> pydict" where
  "step_extra step rc err = [(''step'', PStr step), (''apply_exit_code'', PInt rc), (''stderr_tail'', PStr (tail_of 500 err))]"

text \<open>The texts of the answers; an em dash is the code point 0x97.\<close>

definition RE_BAKE :: string where
  "RE_BAKE = ''; re-bake the worker from the merged main (or re-plan if main advanced) before retry''"

definition LOCK_HELD :: string where
  "LOCK_HELD = '' could not acquire the state lock (held or orphaned); operator force-unlock required before retry''"

definition SUSPECT :: string where
  "SUSPECT = '') and state may be partially mutated (failed_state_suspect): a state reconcile is required before any retry '' @
     [CHR 0x97] @ '' see the apply-failure recovery runbook''"

fun gate_refusal :: "verified \<Rightarrow> string \<Rightarrow> gate_exc \<Rightarrow> apply_pc" where
  "gate_refusal v att (GcsFetchError m) = AFail v att ''integrity_refused'' 422 (''artifact fetch failed: '' @ m) []"
| "gate_refusal v att (NotIntact m) = AFail v att ''integrity_refused'' 422 (''artifact integrity: '' @ m) []"
| "gate_refusal v att (IacTreeMismatch m) =
     AFail v att ''tree_mismatch_refused'' 409 (''refusing apply: '' @ m @ RE_BAKE) [(''has_create'', PBool True)]"
| "gate_refusal v att (FidelityError m) = AFail v att ''fidelity_refused'' 422 (''fidelity: '' @ m) []"
| "gate_refusal v att (ProbeError step rc err) =
     AFail v att ''failed'' 502 (''tofu probe failed: '' @ step_failed step rc)
       [(''step'', PStr step), (''apply_exit_code'', PInt rc)]"
| "gate_refusal v att (Rejected m) = AFail v att ''verify_refused'' 422 (''apply rejected: '' @ m) []"
| "gate_refusal v att (Escaped e) = ADone (Unhandled e)"

definition opt_py :: "pyval option \<Rightarrow> pyval" where "opt_py v = (case v of None \<Rightarrow> PNone | Some x \<Rightarrow> x)"

definition suspect_extra :: "string \<Rightarrow> int \<Rightarrow> string \<Rightarrow> post_failure_state \<Rightarrow> pydict" where
  "suspect_extra step rc err d =
     step_extra step rc err @
     [(''state_suspect'', PBool True), (''serial_before'', opt_py (pf_serial_before d)),
      (''serial_after'', opt_py (pf_serial_after d)), (''serial_bumped'', PBool (pf_serial_bumped d)),
      (''refresh_exit_code'', case pf_refresh_exit d of None \<Rightarrow> PNone | Some c \<Rightarrow> PInt c),
      (''refresh_drift'', PBool (pf_refresh_drift d)),
      (''post_failure_refresh_tail'', PStr (tail_of 4000 (pf_refresh_output d))),
      (''post_failure_refresh_stderr_tail'', PStr (tail_of 1000 (pf_refresh_stderr d)))]"

fun after_tofu :: "verified \<Rightarrow> string \<Rightarrow> gated \<Rightarrow> seq_result \<Rightarrow> apply_pc" where
  "after_tofu v att g (Applied o1) = ARecord v att g o1"
| "after_tofu v att g (FreshnessDrift err) =
     AFail v att ''drift_refused'' 409 ''refusing apply: refresh-only detected out-of-band drift''
       [(''stderr_tail'', PStr (tail_of 500 err))]"
| "after_tofu v att g (LockRefused step rc err) =
     AFail v att ''lock_refused'' 423 (''refusing apply: tofu '' @ step @ LOCK_HELD) (step_extra step rc err)"
| "after_tofu v att g (ApplyStateSuspect step rc err d) =
     AFail v att ''failed_state_suspect'' 502 (''tofu apply failed (exit '' @ show_int rc @ SUSPECT)
       (suspect_extra step rc err d)"
| "after_tofu v att g (TofuStepError step rc err) = AFail v att ''failed'' 502 (step_failed step rc) (step_extra step rc err)"
| "after_tofu v att g (RaisedBy e) = ADone (Unhandled e)"

definition failed_audit :: "instant \<Rightarrow> string \<Rightarrow> string \<Rightarrow> string \<Rightarrow> string \<Rightarrow> string option \<Rightarrow> pydict \<Rightarrow> pyval" where
  "failed_audit now att phase why caller operator extra =
     PDict (dupdate
       [(''phase'', PStr phase), (''apply_attempt_id'', PStr att), (''failed_at'', PStr (iso_micro now)),
        (''detail'', PStr why), (''caller_sa'', PStr caller), (''operator_email'', opt_val operator)] extra)"

definition applied_audit :: "instant \<Rightarrow> string \<Rightarrow> gated \<Rightarrow> apply_outcome \<Rightarrow> string \<Rightarrow> string option \<Rightarrow> pyval" where
  "applied_audit now att g out caller operator =
     PDict [(''phase'', PStr ''applied''), (''apply_attempt_id'', PStr att),
            (''freshness_exit_code'', PInt (ao_freshness_exit out)), (''apply_exit_code'', PInt (ao_apply_exit out)),
            (''applied_at'', PStr (iso_micro now)), (''state_serial'', opt_py (ao_state_serial out)),
            (''state_lineage'', opt_val (ao_state_lineage out)),
            (''benign_drift_paths'', PList (map PStr (ao_benign_drift_paths out))),
            (''iac_tree_verified'', PBool (gt_create g)), (''caller_sa'', PStr caller), (''operator_email'', opt_val operator)]"

text \<open>\<open>set_apply_audit\<close>, which the store's client may make raise.\<close>

definition audit_write :: "string option \<Rightarrow> string \<Rightarrow> pyval \<Rightarrow> docs \<Rightarrow> (string, unit) res \<times> docs" where
  "audit_write store_error aid audit docs =
     (case store_error of
        Some e \<Rightarrow> (Inl e, docs)
      | None \<Rightarrow> (case set_apply_audit aid audit docs of (r, docs') \<Rightarrow> (lift_exc exc_name r, docs')))"

fun apply_step ::
  "(string \<Rightarrow> string) \<Rightarrow> (string \<Rightarrow> string \<Rightarrow> string) \<Rightarrow> apply_config \<Rightarrow> apply_request \<Rightarrow> string \<Rightarrow> apply_input \<Rightarrow>
   apply_pc \<Rightarrow> apply_world \<Rightarrow> apply_pc \<times> apply_world" where
  "apply_step sha mac cfg req caller inp AVerify w =
     (case verify_apply sha mac cfg (ai_now inp) (ai_jwt inp) caller req (aw_docs w) of Inl r \<Rightarrow> ADone r | Inr v \<Rightarrow> AClaim v, w)"
| "apply_step sha mac cfg req caller inp (AClaim v) w =
     (let (pc, docs') = apply_claim (ai_now inp) (ai_attempt inp) (rq_approval_id req) caller v (aw_docs w)
      in (pc, w\<lparr>aw_docs := docs'\<rparr>))"
| "apply_step sha mac cfg req caller inp (AGate v att) w =
     (case map_of (vf_payload v) ''metadata'' of
        None \<Rightarrow> ADone (Unhandled ''KeyError'')
      | Some md \<Rightarrow>
          (case apply_gates sha cfg (ai_bucket inp) (ai_tofu inp) v md (rq_generation_iac_tree req) of
             Inl e \<Rightarrow> gate_refusal v att e
           | Inr g \<Rightarrow> AWorkdir v att g), w)"
| "apply_step sha mac cfg req caller inp (AWorkdir v att g) w =
     (case ai_workdir inp of Inl e \<Rightarrow> ADone (Unhandled e) | Inr _ \<Rightarrow> ATofu v att g QInit, w)"
| "apply_step sha mac cfg req caller inp (ATofu v att g pc) w =
     (case seq_step (ai_tofu inp) pc of QDone r \<Rightarrow> after_tofu v att g r | pc' \<Rightarrow> ATofu v att g pc',
      if command pc = Some TOFU_APPLY
      then w\<lparr>aw_applies := aw_applies w @ [\<lparr>ae_request = req, ae_caller = caller, ae_verified = v, ae_gated = g\<rparr>]\<rparr>
      else w)"
| "apply_step sha mac cfg req caller inp (AFail v att phase code why extra) w =
     (ADone (HTTPException code why),
      w\<lparr>aw_docs := snd (audit_write (ai_store_error inp) (rq_approval_id req)
          (failed_audit (ai_now inp) att phase why caller (vf_operator v) extra) (aw_docs w))\<rparr>)"
| "apply_step sha mac cfg req caller inp (ARecord v att g out) w =
     (case audit_write (ai_store_error inp) (rq_approval_id req)
             (applied_audit (ai_now inp) att g out caller (vf_operator v)) (aw_docs w) of
        (Inl e, docs') \<Rightarrow> (ADone (Unhandled e), w\<lparr>aw_docs := docs'\<rparr>)
      | (Inr _, docs') \<Rightarrow>
          (ADone (Ok [(''approval_id'', PStr (rq_approval_id req)), (''status'', PStr ''applied''), (''apply_attempt_id'', PStr att)]),
           w\<lparr>aw_docs := docs'\<rparr>))"
| "apply_step sha mac cfg req caller inp (ADone r) w = (ADone r, w)"

section \<open>Deny\<close>

datatype plan_deny_pc = NVerify | NClaim | NDone outcome

definition plan_deny_claim :: "instant \<Rightarrow> string \<Rightarrow> string \<Rightarrow> docs \<Rightarrow> plan_deny_pc \<times> docs" where
  "plan_deny_claim now aid caller docs =
     (case plan_claim_denied aid (PStr caller) now docs of
        (Inl e, docs') \<Rightarrow> (NDone (Unhandled (exc_name e)), docs')
      | (Inr None, docs') \<Rightarrow> (NDone (HTTPException 403 ''approval already used or revoked''), docs')
      | (Inr (Some _), docs') \<Rightarrow> (NDone (Ok [(''approval_id'', PStr aid), (''status'', PStr ''denied'')]), docs'))"

fun plan_deny_step ::
  "(string \<Rightarrow> string) \<Rightarrow> (string \<Rightarrow> string \<Rightarrow> string) \<Rightarrow> apply_config \<Rightarrow> token_request \<Rightarrow> string \<Rightarrow> instant \<Rightarrow>
   plan_deny_pc \<Rightarrow> docs \<Rightarrow> plan_deny_pc \<times> docs" where
  "plan_deny_step sha mac cfg req caller now NVerify docs =
     (case token_check sha mac (cf_hmac_key cfg) (tr_approval_id req) (tr_approval_token req) docs of
        Inl r \<Rightarrow> NDone r | Inr _ \<Rightarrow> NClaim, docs)"
| "plan_deny_step sha mac cfg req caller now NClaim docs = plan_deny_claim now (tr_approval_id req) caller docs"
| "plan_deny_step sha mac cfg req caller now (NDone r) docs = (NDone r, docs)"

section \<open>The baked hash\<close>

definition baked_iac_hash :: "(string \<Rightarrow> string) \<Rightarrow> apply_config \<Rightarrow> outcome" where
  "baked_iac_hash sha cfg =
     (case iac_tree_hash sha (cf_iac cfg) of
        Inl e \<Rightarrow> HTTPException 503 (''baked iac/ tree unhashable: '' @ e)
      | Inr h \<Rightarrow> Ok [(''iac_tree_hash'', PStr h)])"

end
