(* ===== verification/TofuSystem.thy ===== *)
theory TofuSystem
  imports TofuApply RollbackSystem
begin

text \<open>
  The apply worker under concurrency: any number of apply and deny requests, each stopped at any of its
  interactions (or forever), and proposals, over one approvals collection.  \<open>objects\<close> is what the artifact
  bucket holds: every download that succeeds, whenever it happens, gives the bytes of that generation.
\<close>

section \<open>The system\<close>

datatype tofu_thread =
    TApply apply_request string apply_pc
  | TRefuse token_request string plan_deny_pc

fun tofu_thread_step ::
  "(string \<Rightarrow> string) \<Rightarrow> (string \<Rightarrow> string \<Rightarrow> string) \<Rightarrow> apply_config \<Rightarrow> apply_input \<Rightarrow> tofu_thread \<Rightarrow> apply_world \<Rightarrow>
   tofu_thread \<times> apply_world" where
  "tofu_thread_step sha mac cfg inp (TApply req caller pc) w =
     (let (pc', w') = apply_step sha mac cfg req caller inp pc w in (TApply req caller pc', w'))"
| "tofu_thread_step sha mac cfg inp (TRefuse req caller pc) w =
     (let (pc', docs') = plan_deny_step sha mac cfg req caller (ai_now inp) pc (aw_docs w)
      in (TRefuse req caller pc', w\<lparr>aw_docs := docs'\<rparr>))"

inductive tofu_system ::
  "(string \<Rightarrow> string) \<Rightarrow> (string \<Rightarrow> string \<Rightarrow> string) \<Rightarrow> apply_config \<Rightarrow> (string \<Rightarrow> int \<Rightarrow> string option) \<Rightarrow>
   apply_world \<Rightarrow> tofu_thread list \<Rightarrow> bool"
  for sha :: "string \<Rightarrow> string" and mac :: "string \<Rightarrow> string \<Rightarrow> string" and cfg :: apply_config
    and objects :: "string \<Rightarrow> int \<Rightarrow> string option" where
  start: "tofu_system sha mac cfg objects \<lparr>aw_docs = Map.empty, aw_applies = []\<rparr> []"
| arrive_apply: "tofu_system sha mac cfg objects w ts \<Longrightarrow> tofu_system sha mac cfg objects w (ts @ [TApply req caller AVerify])"
| arrive_deny: "tofu_system sha mac cfg objects w ts \<Longrightarrow> tofu_system sha mac cfg objects w (ts @ [TRefuse dreq caller NVerify])"
| step: "tofu_system sha mac cfg objects w ts \<Longrightarrow> i < length ts \<Longrightarrow> bucket_serves objects (ai_bucket inp) \<Longrightarrow>
     tofu_thread_step sha mac cfg inp (ts ! i) w = (t', w') \<Longrightarrow> tofu_system sha mac cfg objects w' (ts[i := t'])"
| proposed: "tofu_system sha mac cfg objects w ts \<Longrightarrow> aw_docs w (pl_approval_id pinp) = None \<Longrightarrow>
     bucket_serves objects (pl_bucket pinp) \<Longrightarrow> propose_plan sha mac cfg pinp caller preq (aw_docs w) = (r, docs') \<Longrightarrow>
     tofu_system sha mac cfg objects (w\<lparr>aw_docs := docs'\<rparr>) ts"

section \<open>What no operation on the store undoes\<close>

definition plan_docs_le :: "docs \<Rightarrow> docs \<Rightarrow> bool" where
  "plan_docs_le docs docs' \<longleftrightarrow>
     (\<forall>i d. docs i = Some d \<longrightarrow>
        (\<exists>d'. docs' i = Some d' \<and> dget d' ''payload_canonical'' = dget d ''payload_canonical'' \<and>
           dget d' ''token_hmac'' = dget d ''token_hmac'')) \<and>
     (\<forall>i. spent docs i \<longrightarrow> spent docs' i)"

lemma plan_docs_le_refl [simp, intro]: "plan_docs_le docs docs"
  by (simp add: plan_docs_le_def)

lemma plan_docs_le_spent: "plan_docs_le docs docs' \<Longrightarrow> spent docs i \<Longrightarrow> spent docs' i"
  by (simp add: plan_docs_le_def)

lemma plan_docs_le_fresh: "docs aid = None \<Longrightarrow> plan_docs_le docs (docs(aid \<mapsto> d))"
  by (auto simp: plan_docs_le_def spent_def ap_pending_def)

lemma plan_docs_le_update:
  assumes "docs aid = Some d" and "dget d' ''payload_canonical'' = dget d ''payload_canonical''"
    and "dget d' ''token_hmac'' = dget d ''token_hmac''"
    and "dget d ''status'' \<noteq> PStr ''pending'' \<longrightarrow> dget d' ''status'' \<noteq> PStr ''pending''"
  shows "plan_docs_le docs (docs(aid \<mapsto> d'))"
  using assms by (auto simp: plan_docs_le_def spent_def ap_pending_def)

text \<open>A claim changes nothing or spends a pending approval.\<close>

definition claim_effect :: "string \<Rightarrow> docs \<Rightarrow> docs \<Rightarrow> bool" where
  "claim_effect aid docs docs' \<longleftrightarrow>
     docs' = docs \<or> (plan_docs_le docs docs' \<and> \<not> spent docs aid \<and> spent docs' aid \<and> (\<forall>j. j \<noteq> aid \<longrightarrow> docs' j = docs j))"

lemma claim_effect_le: "claim_effect aid docs docs' \<Longrightarrow> plan_docs_le docs docs'"
  by (auto simp: claim_effect_def)

lemma plan_claim_effect:
  assumes "plan_claim aid st extra docs = (r, docs')"
    and upd: "\<And>d. dget (dupdate d (dupdate [(''status'', PStr st)] extra)) ''status'' \<noteq> PStr ''pending''"
      "\<And>d. dget (dupdate d (dupdate [(''status'', PStr st)] extra)) ''payload_canonical'' = dget d ''payload_canonical''"
      "\<And>d. dget (dupdate d (dupdate [(''status'', PStr st)] extra)) ''token_hmac'' = dget d ''token_hmac''"
  shows "claim_effect aid docs docs' \<and> (\<forall>a. r = Inr (Some a) \<longrightarrow> \<not> spent docs aid \<and> spent docs' aid)"
proof (cases "docs aid")
  case None
  with assms(1) show ?thesis by (auto simp: plan_claim_def claim_effect_def)
next
  case (Some d)
  show ?thesis
  proof (cases "dget d ''status'' = PStr ''pending'' \<and> (\<exists>a. r = Inr (Some a))")
    case False
    with Some assms(1) have "docs' = docs \<and> (\<nexists>a. r = Inr (Some a))"
      by (auto simp: plan_claim_def Let_def split: if_splits sum.splits)
    then show ?thesis by (auto simp: claim_effect_def)
  next
    case True
    with Some assms(1) have d': "docs' = docs(aid \<mapsto> dupdate d (dupdate [(''status'', PStr st)] extra))"
      by (auto simp: plan_claim_def Let_def split: if_splits sum.splits)
    have "plan_docs_le docs docs'" unfolding d' using Some upd by (intro plan_docs_le_update) auto
    moreover have "\<not> spent docs aid" "spent docs' aid"
      using True Some upd(1) by (auto simp: spent_def ap_pending_def d' simp del: dupdate_simps)
    ultimately show ?thesis by (auto simp: claim_effect_def d')
  qed
qed

lemma claim_pending_effect:
  assumes "plan_claim_pending aid who now audit docs = (r, docs')"
  shows "claim_effect aid docs docs' \<and> (\<forall>a. r = Inr (Some a) \<longrightarrow> \<not> spent docs aid \<and> spent docs' aid)"
proof -
  note def = assms [unfolded plan_claim_pending_def Let_def]
  show ?thesis
  proof (cases "audit = PNone")
    case True
    with def have "plan_claim aid ''used'' [(''used_by'', who), (''used_at'', PTime now)] docs = (r, docs')" by simp
    then show ?thesis by (rule plan_claim_effect) simp_all
  next
    case False
    show ?thesis
    proof (cases "as_dict audit = None")
      case True
      with def False have "docs' = docs" "r = Inl TypeError" by auto
      then show ?thesis by (simp add: claim_effect_def)
    next
      case as: False
      with def False have "plan_claim aid ''used'' [(''used_by'', who), (''used_at'', PTime now), (''apply_audit'', audit)] docs = (r, docs')"
        by simp
      then show ?thesis by (rule plan_claim_effect) simp_all
    qed
  qed
qed

lemma claim_denied_effect:
  assumes "plan_claim_denied aid who now docs = (r, docs')"
  shows "claim_effect aid docs docs'"
proof -
  from assms have "plan_claim aid ''denied'' [(''denied_by'', who), (''denied_at'', PTime now)] docs = (r, docs')"
    by (simp add: plan_claim_denied_def)
  then have "claim_effect aid docs docs' \<and> (\<forall>a. r = Inr (Some a) \<longrightarrow> \<not> spent docs aid \<and> spent docs' aid)"
    by (rule plan_claim_effect) simp_all
  then show ?thesis ..
qed

lemma audit_write_docs:
  assumes "audit_write err aid audit docs = (r, docs')"
  shows "docs' = docs \<or> (\<exists>d. docs aid = Some d \<and> docs' = docs(aid \<mapsto> dput d ''apply_audit'' audit))"
  using assms by (auto simp: audit_write_def set_apply_audit_def split: option.splits prod.splits if_splits)

lemma audit_write_le: "audit_write err aid audit docs = (r, docs') \<Longrightarrow> plan_docs_le docs docs'"
  by (drule audit_write_docs) (auto intro!: plan_docs_le_update)

lemma plan_create_docs:
  assumes "plan_create sha mac now aid tok payload key who docs = (r, docs')"
  shows "docs' = docs \<or> (\<exists>d. docs' = docs(aid \<mapsto> d) \<and> dget d ''apply_audit'' = PNone)"
proof -
  from assms have "docs' = docs \<or> (\<exists>d. docs' = docs(aid \<mapsto> d) \<and> plan_create_data sha mac now aid tok payload key who = Inr d)"
    by (auto simp: plan_create_def split: sum.splits if_split_asm)
  moreover have "dget d ''apply_audit'' = PNone" if "plan_create_data sha mac now aid tok payload key who = Inr d" for d
    using plan_create_data_keys [OF that] by (intro dget_not_key) (simp add: PLAN_APPROVAL_REQUIRED_def)
  ultimately show ?thesis by blast
qed

lemma propose_plan_docs:
  assumes "propose_plan sha mac cfg pinp caller preq docs = (r, docs')"
  shows "docs' = docs \<or> (\<exists>d. docs' = docs(pl_approval_id pinp \<mapsto> d) \<and> dget d ''apply_audit'' = PNone)"
proof -
  have "docs' = docs \<or> (\<exists>payload r0. plan_create sha mac (pl_create_now pinp) (pl_approval_id pinp) (pl_token pinp) payload
      (cf_hmac_key cfg) caller docs = (r0, docs'))"
    using assms by (auto simp: propose_plan_def split: sum.splits prod.splits pyexc.splits)
  then show ?thesis using plan_create_docs by blast
qed

section \<open>The invariant\<close>

text \<open>What the checks before the claim establish, and what stays so: the token's HMAC is the stored one over the
  stored payload, the payload was not expired when it was checked, and the operator is its approver.\<close>

definition operator_bound :: "string \<Rightarrow> string \<Rightarrow> verified \<Rightarrow> bool" where
  "operator_bound mode caller v \<longleftrightarrow>
     (case vf_operator v of
        Some email \<Rightarrow> dget (vf_payload v) ''approver'' = PStr email
      | None \<Rightarrow> mode = ''e2e'' \<and> dget (vf_payload v) ''approver'' = PStr caller)"

definition token_bound ::
  "(string \<Rightarrow> string) \<Rightarrow> (string \<Rightarrow> string \<Rightarrow> string) \<Rightarrow> string \<Rightarrow> docs \<Rightarrow> apply_request \<Rightarrow> verified \<Rightarrow> bool" where
  "token_bound sha mac key docs req v \<longleftrightarrow>
     (\<exists>d canonical. docs (rq_approval_id req) = Some d \<and> dget d ''payload_canonical'' = PStr canonical \<and>
        dget d ''token_hmac'' =
          PStr (compute_plan_approval_hmac mac (rq_approval_token req) (rq_approval_id req) (digest_canonical sha canonical) key) \<and>
        vf_canonical v = PStr canonical \<and> json_loads canonical = Some (PDict (vf_payload v)))"

definition unexpired :: "verified \<Rightarrow> bool" where
  "unexpired v \<longleftrightarrow> (\<exists>t. parse_rfc3339_utc (dget (vf_payload v) ''expires_at'') = Inr t \<and> vf_at v \<le> t)"

definition approved ::
  "(string \<Rightarrow> string) \<Rightarrow> (string \<Rightarrow> string \<Rightarrow> string) \<Rightarrow> apply_config \<Rightarrow> docs \<Rightarrow> apply_request \<Rightarrow> string \<Rightarrow> verified \<Rightarrow> bool" where
  "approved sha mac cfg docs req caller v \<longleftrightarrow>
     token_bound sha mac (cf_hmac_key cfg) docs req v \<and> unexpired v \<and> operator_bound (cf_auth_mode cfg) caller v"

text \<open>What the gates establish of the plan that goes on to \<open>tofu\<close>.\<close>

definition plan_gated ::
  "(string \<Rightarrow> string) \<Rightarrow> apply_config \<Rightarrow> (string \<Rightarrow> int \<Rightarrow> string option) \<Rightarrow> verified \<Rightarrow> gated \<Rightarrow> bool" where
  "plan_gated sha cfg objects v g \<longleftrightarrow>
     (let md = dict_of (dget (vf_payload v) ''metadata'') in
      content_signed sha objects md (gt_plan g) (gt_json g) \<and>
      gt_create g = plan_has_create (PDict (gt_json g)) \<and> evaluate (gt_json g) = Inr [] \<and>
      effects_confined (cf_link cfg) (cf_iac cfg) (gt_json g) (gt_create g) \<and>
      (gt_create g \<longrightarrow> tree_reviewed sha objects (cf_iac cfg) md (dget (vf_payload v) ''artifact_uri_metadata'')))"

lemma token_bound_le: "plan_docs_le docs docs' \<Longrightarrow> token_bound sha mac key docs req v \<Longrightarrow> token_bound sha mac key docs' req v"
  unfolding plan_docs_le_def token_bound_def by metis

lemma approved_le: "plan_docs_le docs docs' \<Longrightarrow> approved sha mac cfg docs req caller v \<Longrightarrow> approved sha mac cfg docs' req caller v"
  using token_bound_le by (auto simp: approved_def)

lemma plan_get_Some:
  assumes "plan_get aid docs = Inr (Some a)"
  obtains d where "docs aid = Some d" "pa_id a = aid" "pa_status a = dget d ''status''" "pa_token_hmac a = dget d ''token_hmac''"
    "pa_payload_canonical a = dget d ''payload_canonical''"
proof -
  from assms obtain d where d: "docs aid = Some d" "read_plan_approval aid d = Inr a"
    by (auto simp: plan_get_def result_simps split: option.splits)
  then have "a = plan_approval_of aid (drop_unknown_fields d PLAN_APPROVAL_FIELDS)"
    by (auto simp: read_plan_approval_def PlanApproval_def split: if_splits)
  with d(1) show ?thesis
    by (intro that [of d])
      (simp_all add: plan_approval_of_def dget_or_def map_of_drop_unknown PLAN_APPROVAL_FIELDS_def PLAN_APPROVAL_REQUIRED_def)
qed

lemma token_check_Inr:
  assumes "token_check sha mac key aid tok docs = Inr a"
  obtains d canonical where "docs aid = Some d" "dget d ''status'' = PStr ''pending''" "dget d ''payload_canonical'' = PStr canonical"
    "pa_payload_canonical a = PStr canonical"
    "dget d ''token_hmac'' = PStr (compute_plan_approval_hmac mac tok aid (digest_canonical sha canonical) key)"
proof -
  from assms have g: "plan_get aid docs = Inr (Some a)" "pa_status a = PStr ''pending''" "verify_plan_approval sha mac tok a key = Inr True"
    by (auto simp: token_check_def split: sum.splits option.splits if_splits)
  from plan_get_Some [OF g(1)] obtain d where d: "docs aid = Some d" "pa_id a = aid" "pa_status a = dget d ''status''"
    "pa_token_hmac a = dget d ''token_hmac''" "pa_payload_canonical a = dget d ''payload_canonical''" .
  from verify_Inr_True [OF g(3)] obtain c where "pa_payload_canonical a = PStr c"
    "pa_token_hmac a = PStr (compute_plan_approval_hmac mac tok aid (digest_canonical sha c) key)" unfolding d(2) by blast
  with d g(2) show ?thesis by (intro that [of d c]) simp_all
qed

lemma verify_operator_Inr:
  assumes "verify_operator mode jwt j approver caller = Inr opr"
  shows "case opr of Some email \<Rightarrow> approver = PStr email | None \<Rightarrow> mode = ''e2e'' \<and> approver = PStr caller"
proof (cases "mode = ''e2e'' \<and> j = None")
  case True
  with assms show ?thesis by (auto simp: verify_operator_def split: if_splits)
next
  case False
  with assms show ?thesis
    by (auto simp: verify_operator_def split: option.splits list.splits sum.splits jwt_exc.splits if_splits)
qed

lemma unhandled_Inr [simp]: "unhandled r = Inr x \<longleftrightarrow> r = Inr x"
  by (simp add: unhandled_def)

lemma subscript_dget: "subscript v k = Inr x \<Longrightarrow> \<exists>d. v = PDict d \<and> dget d k = x"
  by (auto simp: subscript_def dget_or_def split: pyval.splits option.splits)

lemma verify_apply_Inr:
  assumes "verify_apply sha mac cfg now jwt caller req docs = Inr v"
  shows "approved sha mac cfg docs req caller v"
proof -
  from assms obtain a sp approver opr where s: "token_check sha mac (cf_hmac_key cfg) (rq_approval_id req) (rq_approval_token req) docs = Inr a"
    "signed_payload a = Inr sp" "plan_approval_is_expired a now = Inr False" "subscript sp ''approver'' = Inr approver"
    "verify_operator (cf_auth_mode cfg) jwt (rq_operator_jwt req) approver caller = Inr opr"
    "v = \<lparr>vf_canonical = pa_payload_canonical a, vf_payload = dict_of sp, vf_operator = opr, vf_at = now\<rparr>"
    by (auto simp: verify_apply_def result_simps split: if_splits)
  from subscript_dget [OF s(4)] obtain p where p: "sp = PDict p" "dget p ''approver'' = approver" by blast
  from token_check_Inr [OF s(1)] obtain d c where d: "docs (rq_approval_id req) = Some d" "dget d ''payload_canonical'' = PStr c"
    "pa_payload_canonical a = PStr c"
    "dget d ''token_hmac'' = PStr (compute_plan_approval_hmac mac (rq_approval_token req) (rq_approval_id req) (digest_canonical sha c) (cf_hmac_key cfg))" .
  from s(2) d(3) p have "json_loads c = Some (PDict p)" by (auto simp: signed_payload_def split: option.splits)
  with d s(6) p have "token_bound sha mac (cf_hmac_key cfg) docs req v" by (simp add: token_bound_def dict_of_def)
  moreover from s(3) s(2) p obtain t where "parse_rfc3339_utc (dget p ''expires_at'') = Inr t" "now \<le> t"
    by (auto simp: plan_approval_is_expired_def result_simps dest!: subscript_dget)
  then have "unexpired v" using s(6) p by (auto simp: unexpired_def dict_of_def)
  moreover have "operator_bound (cf_auth_mode cfg) caller v"
    using verify_operator_Inr [OF s(5)] s(6) p by (auto simp: operator_bound_def dict_of_def split: option.splits)
  ultimately show ?thesis by (simp add: approved_def)
qed

lemma apply_gates_Inr:
  assumes "apply_gates sha cfg bucket version v md gen = Inr g" and "bucket_serves objects bucket"
    and "map_of (vf_payload v) ''metadata'' = Some md"
  shows "plan_gated sha cfg objects v g"
proof -
  from assms(1) have "run_gates sha (cf_link cfg) (cf_iac cfg) bucket version md (dget (vf_payload v) ''artifact_uri_metadata'') gen =
      Inr (gt_json g, gt_plan g, gt_create g)"
    by (auto simp: apply_gates_def result_simps)
  note run_gates_Inr [OF this assms(2)]
  moreover have md: "dget (vf_payload v) ''metadata'' = md" using assms(3) by (simp add: dget_or_def)
  ultimately show ?thesis unfolding plan_gated_def Let_def md by blast
qed

text \<open>The terminal phases that say that nothing was applied.\<close>

definition NO_APPLY_PHASES :: "string list" where
  "NO_APPLY_PHASES = [''integrity_refused'', ''tree_mismatch_refused'', ''fidelity_refused'', ''verify_refused'', ''drift_refused'']"

definition plan_phase :: "pydict \<Rightarrow> pyval" where
  "plan_phase d = (case dget d ''apply_audit'' of PDict a \<Rightarrow> dget a ''phase'' | _ \<Rightarrow> PNone)"

definition applied_ids :: "apply_world \<Rightarrow> string list" where
  "applied_ids w = map (\<lambda>e. rq_approval_id (ae_request e)) (aw_applies w)"

text \<open>A request holds the one ticket of its approval from its claim until the apply command, or until it has
  recorded that it gave up before it.\<close>

fun pre_apply :: "apply_pc \<Rightarrow> bool" where
  "pre_apply (AGate _ _) = True"
| "pre_apply (AWorkdir _ _ _) = True"
| "pre_apply (ATofu _ _ _ q) = (3 \<le> steps_left q)"
| "pre_apply (AFail _ _ phase _ _ _) = (phase \<in> set NO_APPLY_PHASES)"
| "pre_apply _ = False"

fun tofu_holds :: "string \<Rightarrow> tofu_thread \<Rightarrow> bool" where
  "tofu_holds i (TApply req caller pc) = (rq_approval_id req = i \<and> pre_apply pc)"
| "tofu_holds i (TRefuse _ _ _) = False"

definition event_of :: "apply_request \<Rightarrow> string \<Rightarrow> verified \<Rightarrow> gated \<Rightarrow> apply_event" where
  "event_of req caller v g = \<lparr>ae_request = req, ae_caller = caller, ae_verified = v, ae_gated = g\<rparr>"

definition event_ok ::
  "(string \<Rightarrow> string) \<Rightarrow> (string \<Rightarrow> string \<Rightarrow> string) \<Rightarrow> apply_config \<Rightarrow> (string \<Rightarrow> int \<Rightarrow> string option) \<Rightarrow> docs \<Rightarrow> apply_event \<Rightarrow> bool" where
  "event_ok sha mac cfg objects docs e \<longleftrightarrow>
     approved sha mac cfg docs (ae_request e) (ae_caller e) (ae_verified e) \<and> plan_gated sha cfg objects (ae_verified e) (ae_gated e)"

fun apply_pc_ok ::
  "(string \<Rightarrow> string) \<Rightarrow> (string \<Rightarrow> string \<Rightarrow> string) \<Rightarrow> apply_config \<Rightarrow> (string \<Rightarrow> int \<Rightarrow> string option) \<Rightarrow> apply_world \<Rightarrow>
   apply_request \<Rightarrow> string \<Rightarrow> apply_pc \<Rightarrow> bool" where
  "apply_pc_ok sha mac cfg objects w req caller (AClaim v) = approved sha mac cfg (aw_docs w) req caller v"
| "apply_pc_ok sha mac cfg objects w req caller (AGate v att) =
     (approved sha mac cfg (aw_docs w) req caller v \<and> spent (aw_docs w) (rq_approval_id req))"
| "apply_pc_ok sha mac cfg objects w req caller (AWorkdir v att g) =
     (approved sha mac cfg (aw_docs w) req caller v \<and> plan_gated sha cfg objects v g \<and> spent (aw_docs w) (rq_approval_id req))"
| "apply_pc_ok sha mac cfg objects w req caller (ATofu v att g q) =
     (approved sha mac cfg (aw_docs w) req caller v \<and> plan_gated sha cfg objects v g \<and> spent (aw_docs w) (rq_approval_id req) \<and>
      steps_left q \<noteq> 0 \<and> ((\<exists>f p. q = QOutcome f p) \<longrightarrow> rq_approval_id req \<in> set (applied_ids w)))"
| "apply_pc_ok sha mac cfg objects w req caller (AFail v att phase code why extra) =
     (spent (aw_docs w) (rq_approval_id req) \<and> phase \<noteq> ''applied'' \<and> ''phase'' \<notin> set (dkeys extra))"
| "apply_pc_ok sha mac cfg objects w req caller (ARecord v att g out) =
     (spent (aw_docs w) (rq_approval_id req) \<and> rq_approval_id req \<in> set (applied_ids w))"
| "apply_pc_ok sha mac cfg objects w req caller _ = True"

fun tofu_thread_ok ::
  "(string \<Rightarrow> string) \<Rightarrow> (string \<Rightarrow> string \<Rightarrow> string) \<Rightarrow> apply_config \<Rightarrow> (string \<Rightarrow> int \<Rightarrow> string option) \<Rightarrow> apply_world \<Rightarrow>
   tofu_thread \<Rightarrow> bool" where
  "tofu_thread_ok sha mac cfg objects w (TApply req caller pc) = apply_pc_ok sha mac cfg objects w req caller pc"
| "tofu_thread_ok sha mac cfg objects w (TRefuse _ _ _) = True"

text \<open>The world only grows.\<close>

definition world_le :: "apply_world \<Rightarrow> apply_world \<Rightarrow> bool" where
  "world_le w w' \<longleftrightarrow> plan_docs_le (aw_docs w) (aw_docs w') \<and> (\<exists>new. aw_applies w' = aw_applies w @ new)"

lemma world_le_refl [simp, intro]: "world_le w w"
  by (simp add: world_le_def)

lemma world_le_docs: "plan_docs_le (aw_docs w) docs' \<Longrightarrow> world_le w (w\<lparr>aw_docs := docs'\<rparr>)"
  by (simp add: world_le_def)

lemma applied_ids_le: "world_le w w' \<Longrightarrow> set (applied_ids w) \<subseteq> set (applied_ids w')"
  by (auto simp: world_le_def applied_ids_def)

lemma apply_pc_ok_le: "world_le w w' \<Longrightarrow> apply_pc_ok sha mac cfg objects w req caller pc \<Longrightarrow> apply_pc_ok sha mac cfg objects w' req caller pc"
  using applied_ids_le [of w w'] approved_le [of "aw_docs w" "aw_docs w'"] plan_docs_le_spent [of "aw_docs w" "aw_docs w'"]
  by (cases pc) (auto simp: world_le_def)

lemma tofu_thread_ok_le: "world_le w w' \<Longrightarrow> tofu_thread_ok sha mac cfg objects w t \<Longrightarrow> tofu_thread_ok sha mac cfg objects w' t"
  by (cases t) (auto intro: apply_pc_ok_le)

section \<open>What one step does\<close>

text \<open>The documents a step leaves: one that is not as it was has been spent, carries a refusal only if this request held
  the ticket and gave it up, and an applied phase only after an apply.\<close>

definition docs_step :: "apply_world \<Rightarrow> tofu_thread \<Rightarrow> apply_world \<Rightarrow> tofu_thread \<Rightarrow> bool" where
  "docs_step w t w' t' \<longleftrightarrow>
     (\<forall>i d'. aw_docs w' i = Some d' \<longrightarrow>
        (\<exists>d. aw_docs w i = Some d \<and> plan_phase d' = plan_phase d) \<or>
        (spent (aw_docs w') i \<and>
         (plan_phase d' \<in> PStr ` set NO_APPLY_PHASES \<longrightarrow> tofu_holds i t \<and> \<not> tofu_holds i t' \<and> applied_ids w' = applied_ids w) \<and>
         (plan_phase d' = PStr ''applied'' \<longrightarrow> i \<in> set (applied_ids w'))))"

definition ticket_step :: "apply_world \<Rightarrow> tofu_thread \<Rightarrow> apply_world \<Rightarrow> tofu_thread \<Rightarrow> bool" where
  "ticket_step w t w' t' \<longleftrightarrow>
     (\<forall>i. let uses = (\<lambda>x y. (if tofu_holds i y then 1 else 0) + count_list (applied_ids x) i) in
        uses w' t' \<le> uses w t \<or> (\<not> spent (aw_docs w) i \<and> spent (aw_docs w') i \<and> uses w' t' \<le> uses w t + 1))"

definition tofu_step_ok ::
  "(string \<Rightarrow> string) \<Rightarrow> (string \<Rightarrow> string \<Rightarrow> string) \<Rightarrow> apply_config \<Rightarrow> (string \<Rightarrow> int \<Rightarrow> string option) \<Rightarrow>
   apply_world \<Rightarrow> tofu_thread \<Rightarrow> apply_world \<Rightarrow> tofu_thread \<Rightarrow> bool" where
  "tofu_step_ok sha mac cfg objects w t w' t' \<longleftrightarrow>
     world_le w w' \<and> tofu_thread_ok sha mac cfg objects w' t' \<and> docs_step w t w' t' \<and> ticket_step w t w' t' \<and>
     (\<forall>e \<in> set (aw_applies w'). e \<in> set (aw_applies w) \<or> event_ok sha mac cfg objects (aw_docs w') e)"

interpretation tofu: ticketed "\<lambda>w. spent (aw_docs w)" tofu_holds applied_ids "tofu_step_ok sha mac cfg objects"
  for sha mac cfg objects
proof unfold_locales
  show "tofu_step_ok sha mac cfg objects w t w' t' \<Longrightarrow> spent (aw_docs w) i \<Longrightarrow> spent (aw_docs w') i" for w t w' t' i
    by (auto simp: tofu_step_ok_def world_le_def plan_docs_le_spent)
  show "tofu_step_ok sha mac cfg objects w t w' t' \<Longrightarrow>
      (if tofu_holds i t' then 1 else 0) + count_list (applied_ids w') i \<le> (if tofu_holds i t then 1 else 0) + count_list (applied_ids w) i \<or>
      (\<not> spent (aw_docs w) i \<and> spent (aw_docs w') i \<and>
       (if tofu_holds i t' then 1 else 0) + count_list (applied_ids w') i
         \<le> (if tofu_holds i t then 1 else 0) + count_list (applied_ids w) i + 1)" for w t w' t' i
    unfolding tofu_step_ok_def ticket_step_def Let_def by blast
qed

lemma quiet_step:
  assumes "tofu_thread_ok sha mac cfg objects w t'" and "\<forall>i. tofu_holds i t' \<longrightarrow> tofu_holds i t"
  shows "tofu_step_ok sha mac cfg objects w t w t'"
  using assms by (auto simp: tofu_step_ok_def docs_step_def ticket_step_def Let_def)

lemma verify_step_ok:
  assumes "apply_step sha mac cfg req caller inp AVerify w = (pc', w')"
  shows "tofu_step_ok sha mac cfg objects w (TApply req caller AVerify) w' (TApply req caller pc')"
proof -
  from assms have e: "w' = w" "(\<exists>r. pc' = ADone r) \<or> (\<exists>v. pc' = AClaim v \<and> approved sha mac cfg (aw_docs w) req caller v)"
    by (auto dest: verify_apply_Inr split: sum.splits)
  then show ?thesis by (auto intro!: quiet_step)
qed

text \<open>A step that claims.\<close>

lemma claim_effect_docs:
  assumes "claim_effect i docs docs'" and "docs' j = Some d'" and "j \<noteq> i \<or> docs' = docs"
  shows "\<exists>d. docs j = Some d \<and> plan_phase d' = plan_phase d"
  using assms by (auto simp: claim_effect_def)

lemma plan_claim_audit:
  assumes "plan_claim aid st extra docs = (r, docs')" and "docs' \<noteq> docs"
  shows "\<exists>d. docs aid = Some d \<and> docs' = docs(aid \<mapsto> dupdate d (dupdate [(''status'', PStr st)] extra))"
  using assms by (auto simp: plan_claim_def Let_def split: option.splits if_splits sum.splits)

lemma claim_step_ok:
  assumes ok: "apply_pc_ok sha mac cfg objects w req caller (AClaim v)"
    and s: "apply_step sha mac cfg req caller inp (AClaim v) w = (pc', w')"
  shows "tofu_step_ok sha mac cfg objects w (TApply req caller (AClaim v)) w' (TApply req caller pc')"
proof -
  let ?i = "rq_approval_id req"
  let ?audit = "claimed_plan_audit (ai_now inp) (ai_attempt inp) caller (vf_operator v)"
  obtain r docs' where c: "plan_claim_pending ?i (PStr caller) (ai_now inp) ?audit (aw_docs w) = (r, docs')" by force
  have w': "w' = w\<lparr>aw_docs := docs'\<rparr>"
    and pc': "pc' = (case r of Inl e \<Rightarrow> ADone (Unhandled (exc_name e)) | Inr None \<Rightarrow> ADone (HTTPException 403 ''approval already used or revoked'')
      | Inr (Some a) \<Rightarrow> AGate v (ai_attempt inp))"
    using s c by (auto simp: apply_claim_def split: sum.splits option.splits)
  note ce = claim_pending_effect [OF c]
  have le: "plan_docs_le (aw_docs w) docs'" using ce claim_effect_le by blast
  have audit: "plan_phase d' = PStr ''claimed'' \<and> spent docs' ?i" if "docs' \<noteq> aw_docs w" "docs' ?i = Some d'" for d'
  proof -
    from c have "plan_claim ?i ''used'' [(''used_by'', PStr caller), (''used_at'', PTime (ai_now inp)), (''apply_audit'', ?audit)] (aw_docs w)
        = (r, docs')"
      by (simp add: plan_claim_pending_def claimed_plan_audit_def)
    from plan_claim_audit [OF this that(1)] that(2) have "plan_phase d' = PStr ''claimed''"
      by (auto simp: plan_phase_def claimed_plan_audit_def)
    with ce that(1) show ?thesis by (auto simp: claim_effect_def)
  qed
  have docs: "docs_step w (TApply req caller (AClaim v)) w' (TApply req caller pc')"
    unfolding docs_step_def w'
  proof (intro allI impI)
    fix j d'
    assume j: "aw_docs (w\<lparr>aw_docs := docs'\<rparr>) j = Some d'"
    show "(\<exists>d. aw_docs w j = Some d \<and> plan_phase d' = plan_phase d) \<or>
        (spent (aw_docs (w\<lparr>aw_docs := docs'\<rparr>)) j \<and>
         (plan_phase d' \<in> PStr ` set NO_APPLY_PHASES \<longrightarrow>
            tofu_holds j (TApply req caller (AClaim v)) \<and> \<not> tofu_holds j (TApply req caller pc') \<and>
            applied_ids (w\<lparr>aw_docs := docs'\<rparr>) = applied_ids w) \<and>
         (plan_phase d' = PStr ''applied'' \<longrightarrow> j \<in> set (applied_ids (w\<lparr>aw_docs := docs'\<rparr>))))"
    proof (cases "j = ?i \<and> docs' \<noteq> aw_docs w")
      case True
      with audit [of d'] j show ?thesis by (auto simp: NO_APPLY_PHASES_def)
    next
      case False
      with ce j claim_effect_docs [of ?i "aw_docs w" docs' j d'] show ?thesis by auto
    qed
  qed
  have "tofu_thread_ok sha mac cfg objects w' (TApply req caller pc')"
    using ok ce approved_le [OF le] by (auto simp: pc' w' split: sum.split option.split)
  moreover have "ticket_step w (TApply req caller (AClaim v)) w' (TApply req caller pc')"
    using ce by (auto simp: ticket_step_def Let_def pc' w' applied_ids_def split: sum.splits option.splits)
  ultimately show ?thesis using docs world_le_docs [OF le] by (simp add: tofu_step_ok_def w')
qed

lemma gate_refusal_cases:
  "(\<exists>r. gate_refusal v att e = ADone r) \<or>
   (\<exists>phase code why extra. gate_refusal v att e = AFail v att phase code why extra \<and> phase \<noteq> ''applied'' \<and> ''phase'' \<notin> set (dkeys extra))"
  by (cases e) (auto simp: dkeys_def)

lemma gate_step_ok:
  assumes ok: "apply_pc_ok sha mac cfg objects w req caller (AGate v att)" and serves: "bucket_serves objects (ai_bucket inp)"
    and s: "apply_step sha mac cfg req caller inp (AGate v att) w = (pc', w')"
  shows "tofu_step_ok sha mac cfg objects w (TApply req caller (AGate v att)) w' (TApply req caller pc')"
proof -
  have w': "w' = w" using s by auto
  have "apply_pc_ok sha mac cfg objects w req caller pc'"
  proof (cases "map_of (vf_payload v) ''metadata''")
    case None
    with s show ?thesis by auto
  next
    case (Some md)
    show ?thesis
    proof (cases "apply_gates sha cfg (ai_bucket inp) (ai_tofu inp) v md (rq_generation_iac_tree req)")
      case (Inl e)
      with s Some have "pc' = gate_refusal v att e" by simp
      with gate_refusal_cases [of v att e] ok show ?thesis by auto
    next
      case (Inr g)
      with s Some have "pc' = AWorkdir v att g" by simp
      with ok apply_gates_Inr [OF Inr serves Some] show ?thesis by simp
    qed
  qed
  then show ?thesis unfolding w' by (intro quiet_step) auto
qed

lemma workdir_step_ok:
  assumes ok: "apply_pc_ok sha mac cfg objects w req caller (AWorkdir v att g)"
    and s: "apply_step sha mac cfg req caller inp (AWorkdir v att g) w = (pc', w')"
  shows "tofu_step_ok sha mac cfg objects w (TApply req caller (AWorkdir v att g)) w' (TApply req caller pc')"
proof -
  from s have "w' = w" "(\<exists>r. pc' = ADone r) \<or> pc' = ATofu v att g QInit" by (auto split: sum.splits)
  with ok show ?thesis by (auto intro!: quiet_step)
qed

text \<open>Where the sequence may end.\<close>

lemma drift_before_apply:
  assumes "seq_step ans q = QDone (FreshnessDrift e)" and "steps_left q \<noteq> 0"
  shows "3 < steps_left q"
  using assms by (cases q) (auto simp: or_raise_def raise_step_failure_def Let_def split: sum.splits prod.splits if_splits)

lemma applied_from_outcome:
  assumes "seq_step ans q = QDone (Applied o1)" and "steps_left q \<noteq> 0"
  shows "\<exists>f p. q = QOutcome f p"
  using assms by (cases q)
    (auto simp: or_raise_def raise_step_failure_def after_show_def Let_def split: sum.splits prod.splits if_splits)

lemma outcome_from_apply:
  assumes "seq_step ans q = QOutcome f p"
  shows "steps_left q = 3"
  using assms by (cases q) (auto simp: or_raise_def after_show_def Let_def split: sum.splits prod.splits if_splits)

lemma after_tofu_holds: "pre_apply (after_tofu v att g r) \<longleftrightarrow> (\<exists>e. r = FreshnessDrift e)"
  by (cases r) (auto simp: NO_APPLY_PHASES_def)

lemma after_tofu_ok:
  assumes "spent (aw_docs w) (rq_approval_id req)" and "\<And>o1. r = Applied o1 \<Longrightarrow> rq_approval_id req \<in> set (applied_ids w)"
  shows "apply_pc_ok sha mac cfg objects w req caller (after_tofu v att g r)"
  using assms by (cases r) (auto simp: dkeys_def step_extra_def suspect_extra_def)

definition tofu_next :: "verified \<Rightarrow> string \<Rightarrow> gated \<Rightarrow> seq_pc \<Rightarrow> apply_pc" where
  "tofu_next v att g q = (case q of QDone r \<Rightarrow> after_tofu v att g r | q' \<Rightarrow> ATofu v att g q')"

lemma tofu_next_cases: "(\<exists>r. q = QDone r \<and> tofu_next v att g q = after_tofu v att g r) \<or> (steps_left q \<noteq> 0 \<and> tofu_next v att g q = ATofu v att g q)"
  by (cases q) (auto simp: tofu_next_def)

lemma tofu_step_step_ok:
  assumes ok: "apply_pc_ok sha mac cfg objects w req caller (ATofu v att g q)"
    and s: "apply_step sha mac cfg req caller inp (ATofu v att g q) w = (pc', w')"
  shows "tofu_step_ok sha mac cfg objects w (TApply req caller (ATofu v att g q)) w' (TApply req caller pc')"
proof -
  let ?i = "rq_approval_id req" and ?q = "seq_step (ai_tofu inp) q"
  have pc': "pc' = tofu_next v att g ?q" using s by (auto simp: tofu_next_def)
  have w': "w' = (if steps_left q = 3 then w\<lparr>aw_applies := aw_applies w @ [event_of req caller v g]\<rparr> else w)"
    using s by (auto simp: event_of_def command_iff(2))
  have docs: "aw_docs w' = aw_docs w" by (simp add: w')
  have ids: "applied_ids w' = applied_ids w @ (if steps_left q = 3 then [?i] else [])"
    by (simp add: w' applied_ids_def event_of_def)
  have sp: "spent (aw_docs w) ?i" "approved sha mac cfg (aw_docs w) req caller v" "plan_gated sha cfg objects v g"
    "steps_left q \<noteq> 0" "(\<exists>f p. q = QOutcome f p) \<longrightarrow> ?i \<in> set (applied_ids w)" using ok by auto
  have out: "?i \<in> set (applied_ids w')" if "?q = QDone (Applied o1) \<or> ?q = QOutcome f p" for o1 f p
    using that applied_from_outcome [OF _ sp(4)] outcome_from_apply sp(5) unfolding ids by auto
  have ok': "apply_pc_ok sha mac cfg objects w' req caller pc'"
    using tofu_next_cases [of ?q v att g] sp out after_tofu_ok [of w' req] unfolding pc' by (auto simp: docs)
  have small: "steps_left ?q < steps_left q" using step_decreases [of "ai_tofu inp" q] sp(4) by linarith
  have gives: "\<not> pre_apply pc'" if "steps_left q \<le> 3"
    using tofu_next_cases [of ?q v att g] small that drift_before_apply [OF _ sp(4), of "ai_tofu inp"]
    unfolding pc' by (fastforce simp: after_tofu_holds)
  have "ticket_step w (TApply req caller (ATofu v att g q)) w' (TApply req caller pc')"
    unfolding ticket_step_def Let_def
  proof (intro allI disjI1)
    fix j
    show "(if tofu_holds j (TApply req caller pc') then 1 else 0) + count_list (applied_ids w') j
        \<le> (if tofu_holds j (TApply req caller (ATofu v att g q)) then 1 else 0) + count_list (applied_ids w) j"
    proof (cases "steps_left q \<le> 3")
      case True
      with gives show ?thesis unfolding ids by auto
    next
      case False
      then show ?thesis unfolding ids by auto
    qed
  qed
  moreover have "world_le w w'" by (auto simp: world_le_def w')
  moreover have "docs_step w (TApply req caller (ATofu v att g q)) w' (TApply req caller pc')"
    by (auto simp: docs_step_def docs)
  moreover have "\<forall>e \<in> set (aw_applies w'). e \<in> set (aw_applies w) \<or> event_ok sha mac cfg objects (aw_docs w') e"
    using sp by (auto simp: w' event_ok_def event_of_def)
  ultimately show ?thesis using ok' by (simp add: tofu_step_ok_def)
qed

text \<open>The write of a terminal audit.\<close>

lemma audit_step_ok:
  assumes sp: "spent (aw_docs w) (rq_approval_id req)"
    and wr: "audit_write err (rq_approval_id req) audit (aw_docs w) = (r, docs')" and w': "w' = w\<lparr>aw_docs := docs'\<rparr>"
    and ph: "plan_phase [(''apply_audit'', audit)] \<in> PStr ` set NO_APPLY_PHASES \<Longrightarrow> pre_apply pc"
      "plan_phase [(''apply_audit'', audit)] = PStr ''applied'' \<Longrightarrow> rq_approval_id req \<in> set (applied_ids w)"
  shows "tofu_step_ok sha mac cfg objects w (TApply req caller pc) w' (TApply req caller (ADone a))"
proof -
  let ?i = "rq_approval_id req"
  have le: "plan_docs_le (aw_docs w) docs'" using wr by (rule audit_write_le)
  then have sp': "spent docs' ?i" using sp plan_docs_le_spent by blast
  have ids: "applied_ids w' = applied_ids w" by (simp add: w' applied_ids_def)
  have "docs_step w (TApply req caller pc) w' (TApply req caller (ADone a))"
    unfolding docs_step_def ids
  proof (intro allI impI)
    fix j d'
    assume j: "aw_docs w' j = Some d'"
    show "(\<exists>d. aw_docs w j = Some d \<and> plan_phase d' = plan_phase d) \<or>
        (spent (aw_docs w') j \<and>
         (plan_phase d' \<in> PStr ` set NO_APPLY_PHASES \<longrightarrow>
            tofu_holds j (TApply req caller pc) \<and> \<not> tofu_holds j (TApply req caller (ADone a)) \<and> applied_ids w = applied_ids w) \<and>
         (plan_phase d' = PStr ''applied'' \<longrightarrow> j \<in> set (applied_ids w)))"
    proof (cases "docs' = aw_docs w \<or> j \<noteq> ?i")
      case True
      with j audit_write_docs [OF wr] have "aw_docs w j = Some d'" by (auto simp: w')
      then show ?thesis by blast
    next
      case False
      with j audit_write_docs [OF wr] obtain d where "d' = dput d ''apply_audit'' audit" "j = ?i" by (auto simp: w')
      then have "plan_phase d' = plan_phase [(''apply_audit'', audit)]" "j = ?i" by (simp_all add: plan_phase_def)
      with ph sp' show ?thesis by (simp add: w')
    qed
  qed
  moreover have "ticket_step w (TApply req caller pc) w' (TApply req caller (ADone a))"
    by (simp add: ticket_step_def Let_def ids)
  ultimately show ?thesis using world_le_docs [OF le] by (simp add: tofu_step_ok_def w')
qed

lemma failed_audit_phase:
  assumes "''phase'' \<notin> set (dkeys extra)"
  shows "plan_phase [(''apply_audit'', failed_audit now att phase why caller opr extra)] = PStr phase"
proof -
  have "map_of (rev extra) ''phase'' = None" using assms by (simp add: map_of_eq_None_iff dkeys_def rev_map [symmetric])
  then show ?thesis by (simp add: plan_phase_def failed_audit_def dget_or_def map_of_dupdate)
qed

lemma fail_step_ok:
  assumes ok: "apply_pc_ok sha mac cfg objects w req caller (AFail v att phase code why extra)"
    and s: "apply_step sha mac cfg req caller inp (AFail v att phase code why extra) w = (pc', w')"
  shows "tofu_step_ok sha mac cfg objects w (TApply req caller (AFail v att phase code why extra)) w' (TApply req caller pc')"
proof -
  let ?audit = "failed_audit (ai_now inp) att phase why caller (vf_operator v) extra"
  obtain r docs' where wr: "audit_write (ai_store_error inp) (rq_approval_id req) ?audit (aw_docs w) = (r, docs')" by force
  with s have e: "pc' = ADone (HTTPException code why)" "w' = w\<lparr>aw_docs := docs'\<rparr>" by auto
  from ok have sp: "spent (aw_docs w) (rq_approval_id req)" and ph: "plan_phase [(''apply_audit'', ?audit)] = PStr phase" "phase \<noteq> ''applied''"
    by (simp_all add: failed_audit_phase)
  show ?thesis unfolding e(1) by (rule audit_step_ok [OF sp wr e(2)]) (use ph in auto)
qed

lemma record_step_ok:
  assumes ok: "apply_pc_ok sha mac cfg objects w req caller (ARecord v att g out)"
    and s: "apply_step sha mac cfg req caller inp (ARecord v att g out) w = (pc', w')"
  shows "tofu_step_ok sha mac cfg objects w (TApply req caller (ARecord v att g out)) w' (TApply req caller pc')"
proof -
  let ?audit = "applied_audit (ai_now inp) att g out caller (vf_operator v)"
  obtain r docs' where wr: "audit_write (ai_store_error inp) (rq_approval_id req) ?audit (aw_docs w) = (r, docs')" by force
  with s obtain a where e: "pc' = ADone a" "w' = w\<lparr>aw_docs := docs'\<rparr>" by (auto split: sum.splits)
  have ph: "plan_phase [(''apply_audit'', ?audit)] = PStr ''applied''" by (simp add: plan_phase_def applied_audit_def)
  show ?thesis unfolding e(1) by (rule audit_step_ok [OF _ wr e(2)]) (use ok ph in \<open>auto simp: NO_APPLY_PHASES_def\<close>)
qed

lemma apply_step_ok:
  assumes "apply_pc_ok sha mac cfg objects w req caller pc" and "bucket_serves objects (ai_bucket inp)"
    and "apply_step sha mac cfg req caller inp pc w = (pc', w')"
  shows "tofu_step_ok sha mac cfg objects w (TApply req caller pc) w' (TApply req caller pc')"
proof (cases pc)
  case AVerify
  then show ?thesis using verify_step_ok assms by blast
next
  case (AClaim v)
  then show ?thesis using claim_step_ok assms by blast
next
  case (AGate v att)
  then show ?thesis using gate_step_ok assms by blast
next
  case (AWorkdir v att g)
  then show ?thesis using workdir_step_ok assms by blast
next
  case (ATofu v att g q)
  then show ?thesis using tofu_step_step_ok assms by blast
next
  case (AFail v att phase code why extra)
  then show ?thesis using fail_step_ok assms by blast
next
  case (ARecord v att g out)
  then show ?thesis using record_step_ok assms by blast
next
  case (ADone r)
  with assms show ?thesis by (auto intro!: quiet_step)
qed

lemma deny_plan_step_ok:
  assumes "plan_deny_step sha mac cfg dreq caller now pc (aw_docs w) = (pc', docs')"
  shows "tofu_step_ok sha mac cfg objects w (TRefuse dreq caller pc) (w\<lparr>aw_docs := docs'\<rparr>) (TRefuse dreq caller pc')"
proof -
  let ?i = "tr_approval_id dreq"
  have "docs' = aw_docs w \<or> (\<exists>r. plan_claim_denied ?i (PStr caller) now (aw_docs w) = (r, docs'))"
    using assms by (cases pc) (auto simp: plan_deny_claim_def split: prod.splits sum.splits option.splits)
  then have ce: "claim_effect ?i (aw_docs w) docs'"
    and same: "docs' j = Some d' \<Longrightarrow> \<exists>d. aw_docs w j = Some d \<and> plan_phase d' = plan_phase d" for j d'
  proof -
    show "claim_effect ?i (aw_docs w) docs'"
      using \<open>docs' = aw_docs w \<or> _\<close> claim_denied_effect by (auto simp: claim_effect_def [of _ _ "aw_docs w"])
    show "docs' j = Some d' \<Longrightarrow> \<exists>d. aw_docs w j = Some d \<and> plan_phase d' = plan_phase d"
      using \<open>docs' = aw_docs w \<or> _\<close>
    proof (elim disjE exE)
      fix r
      assume j: "docs' j = Some d'" and c: "plan_claim_denied ?i (PStr caller) now (aw_docs w) = (r, docs')"
      show ?thesis
      proof (cases "docs' = aw_docs w")
        case False
        from plan_claim_audit [OF c [unfolded plan_claim_denied_def] this] j show ?thesis
          by (auto simp: plan_phase_def split: if_splits)
      qed (use j in auto)
    qed auto
  qed
  have le: "plan_docs_le (aw_docs w) docs'" using ce by (rule claim_effect_le)
  have "docs_step w (TRefuse dreq caller pc) (w\<lparr>aw_docs := docs'\<rparr>) (TRefuse dreq caller pc')"
    using same by (auto simp: docs_step_def)
  moreover have "ticket_step w (TRefuse dreq caller pc) (w\<lparr>aw_docs := docs'\<rparr>) (TRefuse dreq caller pc')"
    by (simp add: ticket_step_def Let_def applied_ids_def)
  ultimately show ?thesis using world_le_docs [OF le] by (simp add: tofu_step_ok_def)
qed

lemma tofu_thread_step_ok:
  assumes "tofu_thread_ok sha mac cfg objects w t" and "bucket_serves objects (ai_bucket inp)"
    and "tofu_thread_step sha mac cfg inp t w = (t', w')"
  shows "tofu_step_ok sha mac cfg objects w t w' t'"
  using assms by (cases t) (auto intro: apply_step_ok deny_plan_step_ok split: prod.splits)

section \<open>The invariant holds\<close>

definition phases_ok :: "apply_world \<Rightarrow> tofu_thread list \<Rightarrow> bool" where
  "phases_ok w ts \<longleftrightarrow>
     (\<forall>i d. aw_docs w i = Some d \<longrightarrow>
        (plan_phase d \<noteq> PNone \<longrightarrow> spent (aw_docs w) i) \<and>
        (plan_phase d \<in> PStr ` set NO_APPLY_PHASES \<longrightarrow> tofu.tickets i w ts = 0) \<and>
        (plan_phase d = PStr ''applied'' \<longrightarrow> i \<in> set (applied_ids w)))"

definition tofu_inv ::
  "(string \<Rightarrow> string) \<Rightarrow> (string \<Rightarrow> string \<Rightarrow> string) \<Rightarrow> apply_config \<Rightarrow> (string \<Rightarrow> int \<Rightarrow> string option) \<Rightarrow>
   apply_world \<Rightarrow> tofu_thread list \<Rightarrow> bool" where
  "tofu_inv sha mac cfg objects w ts \<longleftrightarrow>
     tofu.bounded w ts \<and> phases_ok w ts \<and> (\<forall>t \<in> set ts. tofu_thread_ok sha mac cfg objects w t) \<and>
     (\<forall>e \<in> set (aw_applies w). event_ok sha mac cfg objects (aw_docs w) e)"

lemma event_ok_le: "world_le w w' \<Longrightarrow> event_ok sha mac cfg objects (aw_docs w) e \<Longrightarrow> event_ok sha mac cfg objects (aw_docs w') e"
  using approved_le by (auto simp: event_ok_def world_le_def)

lemma tickets_step:
  assumes "i < length ts"
  shows "tofu.tickets j w' (ts[i := t']) + (if tofu_holds j (ts ! i) then 1 else 0) + count_list (applied_ids w) j =
    tofu.tickets j w ts + (if tofu_holds j t' then 1 else 0) + count_list (applied_ids w') j"
  using length_filter_update [OF assms, of "tofu_holds j" t'] by (simp add: tofu.tickets_def)

lemma phases_step:
  assumes ph: "phases_ok w ts" and b: "tofu.bounded w ts" and i: "i < length ts" and ok: "tofu_step_ok sha mac cfg objects w (ts ! i) w' t'"
  shows "phases_ok w' (ts[i := t'])"
  unfolding phases_ok_def
proof (intro allI impI)
  fix j d'
  assume d': "aw_docs w' j = Some d'"
  have le: "world_le w w'" and ds: "docs_step w (ts ! i) w' t'" and tk: "ticket_step w (ts ! i) w' t'"
    using ok by (simp_all add: tofu_step_ok_def)
  have sp: "spent (aw_docs w) j \<Longrightarrow> spent (aw_docs w') j" using le plan_docs_le_spent by (auto simp: world_le_def)
  have tks: "tofu.tickets j w ts \<le> 1" using b unfolding tofu.bounded_def by (metis le_zero_eq linear zero_le_one)
  from ds d' have "(\<exists>d. aw_docs w j = Some d \<and> plan_phase d' = plan_phase d) \<or>
        (spent (aw_docs w') j \<and>
         (plan_phase d' \<in> PStr ` set NO_APPLY_PHASES \<longrightarrow> tofu_holds j (ts ! i) \<and> \<not> tofu_holds j t' \<and> applied_ids w' = applied_ids w) \<and>
         (plan_phase d' = PStr ''applied'' \<longrightarrow> j \<in> set (applied_ids w')))"
    unfolding docs_step_def by blast
  then show "(plan_phase d' \<noteq> PNone \<longrightarrow> spent (aw_docs w') j) \<and>
        (plan_phase d' \<in> PStr ` set NO_APPLY_PHASES \<longrightarrow> tofu.tickets j w' (ts[i := t']) = 0) \<and>
        (plan_phase d' = PStr ''applied'' \<longrightarrow> j \<in> set (applied_ids w'))"
  proof (elim disjE exE conjE)
    fix d
    assume d: "aw_docs w j = Some d" "plan_phase d' = plan_phase d"
    with ph have p: "plan_phase d \<noteq> PNone \<longrightarrow> spent (aw_docs w) j"
      "plan_phase d \<in> PStr ` set NO_APPLY_PHASES \<longrightarrow> tofu.tickets j w ts = 0"
      "plan_phase d = PStr ''applied'' \<longrightarrow> j \<in> set (applied_ids w)" unfolding phases_ok_def by blast+
    have "tofu.tickets j w' (ts[i := t']) = 0" if "plan_phase d \<in> PStr ` set NO_APPLY_PHASES"
    proof -
      from that p have "spent (aw_docs w) j" "tofu.tickets j w ts = 0" by auto
      moreover from this(1) tk have "(if tofu_holds j t' then 1 else 0) + count_list (applied_ids w') j
          \<le> (if tofu_holds j (ts ! i) then 1 else 0) + count_list (applied_ids w) j"
        unfolding ticket_step_def Let_def by blast
      ultimately show ?thesis using tickets_step [OF i, of j w' t' w] by linarith
    qed
    with p d(2) sp applied_ids_le [OF le] show ?thesis by auto
  next
    assume x: "spent (aw_docs w') j"
      "plan_phase d' \<in> PStr ` set NO_APPLY_PHASES \<longrightarrow> tofu_holds j (ts ! i) \<and> \<not> tofu_holds j t' \<and> applied_ids w' = applied_ids w"
      "plan_phase d' = PStr ''applied'' \<longrightarrow> j \<in> set (applied_ids w')"
    have "tofu.tickets j w' (ts[i := t']) = 0" if "plan_phase d' \<in> PStr ` set NO_APPLY_PHASES"
      using x(2) that tickets_step [OF i, of j w' t' w] tks by auto
    with x show ?thesis by blast
  qed
qed

lemma tofu_inv_step:
  assumes inv: "tofu_inv sha mac cfg objects w ts" and i: "i < length ts" and ok: "tofu_step_ok sha mac cfg objects w (ts ! i) w' t'"
  shows "tofu_inv sha mac cfg objects w' (ts[i := t'])"
proof -
  have le: "world_le w w'" using ok by (simp add: tofu_step_ok_def)
  have "tofu.bounded w' (ts[i := t'])" using inv tofu.bounded_step [OF _ i ok] by (simp add: tofu_inv_def)
  moreover have "phases_ok w' (ts[i := t'])" using inv phases_step [OF _ _ i ok] by (simp add: tofu_inv_def)
  moreover have "\<forall>t \<in> set (ts[i := t']). tofu_thread_ok sha mac cfg objects w' t"
    using inv ok tofu_thread_ok_le [OF le] set_update_subset_insert [of ts i t'] unfolding tofu_inv_def tofu_step_ok_def by blast
  moreover have "\<forall>e \<in> set (aw_applies w'). event_ok sha mac cfg objects (aw_docs w') e"
    using inv ok event_ok_le [OF le] unfolding tofu_inv_def tofu_step_ok_def by blast
  ultimately show ?thesis by (simp add: tofu_inv_def)
qed

lemma tofu_inv_arrive:
  assumes "tofu_inv sha mac cfg objects w ts" and "tofu_thread_ok sha mac cfg objects w t" and "\<forall>i. \<not> tofu_holds i t"
  shows "tofu_inv sha mac cfg objects w (ts @ [t])"
  using assms tofu.bounded_arrive [of w ts t] by (auto simp: tofu_inv_def phases_ok_def tofu.tickets_def)

lemma tofu_inv_propose:
  assumes inv: "tofu_inv sha mac cfg objects w ts" and fresh: "aw_docs w i = None"
    and docs': "docs' = aw_docs w \<or> (\<exists>d. docs' = (aw_docs w)(i \<mapsto> d) \<and> dget d ''apply_audit'' = PNone)"
  shows "tofu_inv sha mac cfg objects (w\<lparr>aw_docs := docs'\<rparr>) ts"
proof -
  have le: "plan_docs_le (aw_docs w) docs'" using docs' plan_docs_le_fresh [of "aw_docs w" i] fresh by auto
  then have wle: "world_le w (w\<lparr>aw_docs := docs'\<rparr>)" by (rule world_le_docs)
  have b: "tofu.bounded w ts" using inv by (simp add: tofu_inv_def)
  have "tofu.bounded (w\<lparr>aw_docs := docs'\<rparr>) ts"
    by (rule tofu.bounded_world [OF b]) (simp_all add: applied_ids_def plan_docs_le_spent [OF le])
  moreover have "phases_ok (w\<lparr>aw_docs := docs'\<rparr>) ts"
    unfolding phases_ok_def
  proof (intro allI impI)
    fix j d
    assume "aw_docs (w\<lparr>aw_docs := docs'\<rparr>) j = Some d"
    with docs' have "aw_docs w j = Some d \<or> plan_phase d = PNone" by (auto simp: plan_phase_def split: if_splits)
    moreover have "spent (aw_docs w) j \<Longrightarrow> spent docs' j" using le plan_docs_le_spent by blast
    moreover have "applied_ids (w\<lparr>aw_docs := docs'\<rparr>) = applied_ids w" "tofu.tickets j (w\<lparr>aw_docs := docs'\<rparr>) ts = tofu.tickets j w ts"
      by (simp_all add: applied_ids_def tofu.tickets_def)
    ultimately show "(plan_phase d \<noteq> PNone \<longrightarrow> spent (aw_docs (w\<lparr>aw_docs := docs'\<rparr>)) j) \<and>
        (plan_phase d \<in> PStr ` set NO_APPLY_PHASES \<longrightarrow> tofu.tickets j (w\<lparr>aw_docs := docs'\<rparr>) ts = 0) \<and>
        (plan_phase d = PStr ''applied'' \<longrightarrow> j \<in> set (applied_ids (w\<lparr>aw_docs := docs'\<rparr>)))"
      using inv by (auto simp: tofu_inv_def phases_ok_def)
  qed
  moreover have "\<forall>t \<in> set ts. tofu_thread_ok sha mac cfg objects (w\<lparr>aw_docs := docs'\<rparr>) t"
    using inv tofu_thread_ok_le [OF wle] unfolding tofu_inv_def by blast
  moreover have "\<forall>e \<in> set (aw_applies w). event_ok sha mac cfg objects docs' e"
    using inv event_ok_le [OF wle] by (simp add: tofu_inv_def)
  ultimately show ?thesis by (simp add: tofu_inv_def)
qed

lemma tofu_system_inv: "tofu_system sha mac cfg objects w ts \<Longrightarrow> tofu_inv sha mac cfg objects w ts"
proof (induction rule: tofu_system.induct)
  case start
  show ?case by (simp add: tofu_inv_def tofu.bounded_start phases_ok_def applied_ids_def)
next
  case (arrive_apply w ts req caller)
  then show ?case by (intro tofu_inv_arrive) simp_all
next
  case (arrive_deny w ts dreq caller)
  then show ?case by (intro tofu_inv_arrive) simp_all
next
  case (step w ts i inp t' w')
  have "tofu_thread_ok sha mac cfg objects w (ts ! i)" using step.IH step.hyps(2) by (simp add: tofu_inv_def)
  from tofu_inv_step [OF step.IH step.hyps(2) tofu_thread_step_ok [OF this step.hyps(3,4)]] show ?case .
next
  case (proposed w ts pinp caller preq r docs')
  from tofu_inv_propose [OF proposed.IH proposed.hyps(2) propose_plan_docs [OF proposed.hyps(4)]] show ?case .
qed

section \<open>What the worker guarantees\<close>

text \<open>C1: Only what was approved is applied, once: in every reachable state of the apply worker, however requests
  interleave and whatever the bucket, the token verifier and \<open>tofu\<close> answer, no approval ever leads to a second
  apply command, and each one was issued for a spent approval by a request whose token has the HMAC stored
  with that approval's signed payload, while the signed window was open, and for the signed approver; the
  binary plan and the plan JSON are the very objects, with the digests, that the signed metadata names; the
  JSON passes the denylist and touches only what the baked configuration declares; and a create-class plan was
  admitted only when the baked directory has the hash that the sidecar of the same signed run states.\<close>

theorem applied_plan_was_approved:
  assumes "tofu_system sha mac cfg objects w ts"
  shows "distinct (applied_ids w) \<and>
    (\<forall>e \<in> set (aw_applies w).
       spent (aw_docs w) (rq_approval_id (ae_request e)) \<and>
       approved sha mac cfg (aw_docs w) (ae_request e) (ae_caller e) (ae_verified e) \<and>
       plan_gated sha cfg objects (ae_verified e) (ae_gated e))"
proof -
  have inv: "tofu_inv sha mac cfg objects w ts" using assms by (rule tofu_system_inv)
  then have "tofu.bounded w ts" by (simp add: tofu_inv_def)
  from tofu.effects_once [OF this] inv show ?thesis
    by (auto simp: tofu_inv_def event_ok_def applied_ids_def)
qed

text \<open>C7: The recorded outcome of an apply is true: in every reachable state, an approval whose audit says that the
  artifacts, the tree, the fidelity, the plan or the freshness was refused has never led to an apply command,
  and no request under way can still issue one for it; one whose audit says \<open>applied\<close> has; and any audit at
  all is only on a spent approval, so a pending approval carries none.\<close>

theorem apply_audit_is_true:
  assumes "tofu_system sha mac cfg objects w ts" and "aw_docs w i = Some d"
  shows "(plan_phase d \<in> PStr ` set NO_APPLY_PHASES \<longrightarrow> i \<notin> set (applied_ids w) \<and> (\<forall>t \<in> set ts. \<not> tofu_holds i t)) \<and>
    (plan_phase d = PStr ''applied'' \<longrightarrow> i \<in> set (applied_ids w)) \<and>
    (dget d ''status'' = PStr ''pending'' \<longrightarrow> plan_phase d = PNone)"
proof -
  have "tofu_inv sha mac cfg objects w ts" using assms(1) by (rule tofu_system_inv)
  with assms(2) have p: "plan_phase d \<noteq> PNone \<longrightarrow> spent (aw_docs w) i"
    "plan_phase d \<in> PStr ` set NO_APPLY_PHASES \<longrightarrow> tofu.tickets i w ts = 0"
    "plan_phase d = PStr ''applied'' \<longrightarrow> i \<in> set (applied_ids w)"
    unfolding tofu_inv_def phases_ok_def by blast+
  have "tofu.tickets i w ts = 0 \<Longrightarrow> i \<notin> set (applied_ids w) \<and> (\<forall>t \<in> set ts. \<not> tofu_holds i t)"
    by (simp add: tofu.tickets_def count_list_0_iff filter_empty_conv)
  with p assms(2) show ?thesis by (auto simp: spent_def ap_pending_def)
qed

section \<open>A request ends\<close>

fun run_apply ::
  "(string \<Rightarrow> string) \<Rightarrow> (string \<Rightarrow> string \<Rightarrow> string) \<Rightarrow> apply_config \<Rightarrow> apply_request \<Rightarrow> string \<Rightarrow> apply_input list \<Rightarrow>
   apply_pc \<Rightarrow> apply_world \<Rightarrow> apply_pc \<times> apply_world" where
  "run_apply sha mac cfg req caller [] pc w = (pc, w)"
| "run_apply sha mac cfg req caller (inp # inps) pc w =
     (let (pc', w') = apply_step sha mac cfg req caller inp pc w in run_apply sha mac cfg req caller inps pc' w')"

fun apply_depth :: "apply_pc \<Rightarrow> nat" where
  "apply_depth AVerify = 12"
| "apply_depth (AClaim _) = 11"
| "apply_depth (AGate _ _) = 10"
| "apply_depth (AWorkdir _ _ _) = 9"
| "apply_depth (ATofu _ _ _ q) = Suc (steps_left q)"
| "apply_depth (AFail _ _ _ _ _ _) = 1"
| "apply_depth (ARecord _ _ _ _) = 1"
| "apply_depth (ADone _) = 0"

fun live :: "apply_pc \<Rightarrow> bool" where
  "live (ATofu _ _ _ q) = (steps_left q \<noteq> 0)"
| "live _ = True"

lemma after_tofu_depth: "apply_depth (after_tofu v att g r) \<le> 1 \<and> live (after_tofu v att g r)"
  by (cases r) auto

lemma apply_step_depth:
  assumes "apply_step sha mac cfg req caller inp pc w = (pc', w')" and "live pc"
  shows "apply_depth pc' \<le> apply_depth pc - 1 \<and> live pc'"
proof (cases pc)
  case (ATofu v att g q)
  have pc': "pc' = tofu_next v att g (seq_step (ai_tofu inp) q)" using assms(1) ATofu by (auto simp: tofu_next_def)
  have small: "steps_left (seq_step (ai_tofu inp) q) \<le> steps_left q - 1" by (rule step_decreases)
  have pos: "steps_left q \<noteq> 0" using assms(2) ATofu by simp
  from tofu_next_cases [of "seq_step (ai_tofu inp) q" v att g] show ?thesis
  proof (elim disjE exE conjE)
    fix r
    assume "tofu_next v att g (seq_step (ai_tofu inp) q) = after_tofu v att g r"
    with after_tofu_depth [of v att g r] pos show ?thesis unfolding pc' ATofu by simp
  next
    assume "tofu_next v att g (seq_step (ai_tofu inp) q) = ATofu v att g (seq_step (ai_tofu inp) q)"
      "steps_left (seq_step (ai_tofu inp) q) \<noteq> 0"
    with small show ?thesis unfolding pc' ATofu by simp
  qed
next
  case (AGate v att)
  show ?thesis
  proof (cases "map_of (vf_payload v) ''metadata''")
    case None
    with assms(1) AGate show ?thesis by auto
  next
    case (Some md)
    show ?thesis
    proof (cases "apply_gates sha cfg (ai_bucket inp) (ai_tofu inp) v md (rq_generation_iac_tree req)")
      case (Inl e)
      with assms(1) AGate Some have "pc' = gate_refusal v att e" by simp
      with gate_refusal_cases [of v att e] show ?thesis by (auto simp: AGate)
    next
      case (Inr g)
      with assms(1) AGate Some show ?thesis by auto
    qed
  qed
qed (use assms(1) in \<open>auto simp: apply_claim_def split: sum.splits prod.splits option.splits\<close>)

text \<open>An apply request always ends: after at most twelve interactions with the store, the bucket, the token
  verifier and \<open>tofu\<close>, whatever they answer, it has an answer of its own.\<close>

theorem apply_request_ends:
  assumes "12 \<le> length inps"
  shows "\<exists>r. fst (run_apply sha mac cfg req caller inps AVerify w) = ADone r"
proof -
  have "apply_depth (fst (run_apply sha mac cfg req caller inps pc w)) \<le> apply_depth pc - length inps" if "live pc" for inps pc w
    using that
  proof (induction inps arbitrary: pc w)
    case (Cons inp inps)
    obtain pc' w' where s: "apply_step sha mac cfg req caller inp pc w = (pc', w')" by force
    from apply_step_depth [OF s Cons.prems] have d: "apply_depth pc' \<le> apply_depth pc - 1" "live pc'" by simp_all
    from Cons.IH [OF d(2), of w'] d(1) s show ?case by simp
  qed simp
  from this [of AVerify inps w] assms have "apply_depth (fst (run_apply sha mac cfg req caller inps AVerify w)) = 0" by simp
  then show ?thesis by (cases "fst (run_apply sha mac cfg req caller inps AVerify w)") auto
qed

section \<open>A run of the worker\<close>


definition demo_dir :: string where "demo_dir = ''pr-7/'' @ replicate 40 (CHR ''a'') @ ''/run-12-1/''"

lemma fullmatch_RSeq: "fullmatch r a \<Longrightarrow> fullmatch s b \<Longrightarrow> fullmatch (RSeq r s) (a @ b)"
  unfolding fullmatch_iff lang.simps by blast

lemma fullmatch_rstr: "fullmatch (rstr s) s"
  by (simp add: fullmatch_iff)

lemma demo_object:
  assumes "fullmatch (RAlt (rstr ''metadata.json'') (RAlt (rstr ''plan.tfplan'') (RAlt (rstr ''plan.json'') (rstr ''iac-tree.json'')))) base"
  shows "fullmatch OBJECT (demo_dir @ base)"
proof -
  have d: "fullmatch POSITIVE_DIGITS ''7''" "fullmatch POSITIVE_DIGITS ''12''" "fullmatch POSITIVE_DIGITS ''1''" by code_simp+
  have h: "fullmatch HEX40 (replicate 40 (CHR ''a''))" by (simp add: hex_digits_iff lower_hex_cls_def)
  have "fullmatch OBJECT (''pr-'' @ ''7'' @ ''/'' @ replicate 40 (CHR ''a'') @ ''/run-'' @ ''12'' @ ''-'' @ ''1'' @ ''/'' @ base @ [])"
    unfolding OBJECT_def rseq_def list.simps foldr.simps comp_apply id_apply
    by (intro fullmatch_RSeq fullmatch_rstr d h assms) (simp add: fullmatch_iff)
  then show ?thesis by (simp add: demo_dir_def)
qed

lemma demo_objects_ok: "fullmatch OBJECT (demo_dir @ ''metadata.json'')" "fullmatch OBJECT (demo_dir @ ''plan.tfplan'')"
   "fullmatch OBJECT (demo_dir @ ''plan.json'')"
  by (rule demo_object; code_simp)+

definition demo_json :: string where "demo_json = emit (PDict update_bucket_plan)"

definition demo_objects :: "string \<Rightarrow> int \<Rightarrow> string option" where
  "demo_objects obj gen =
     (if obj = demo_dir @ ''plan.tfplan'' \<and> gen = 3 then Some ''bin''
      else if obj = demo_dir @ ''plan.json'' \<and> gen = 4 then Some demo_json
      else if obj = demo_dir @ ''metadata.json'' \<and> gen = 5 then Some (emit (PDict demo_metadata))
      else None)"

definition demo_bucket :: bucket where
  "demo_bucket obj gen = (case demo_objects obj gen of None \<Rightarrow> Inl ''NotFound'' | Some b \<Rightarrow> Inr b)"

definition demo_sha :: "string \<Rightarrow> string" where
  "demo_sha b =
     (if b = ''bin'' then replicate 64 (CHR ''c'') else if b = demo_json then replicate 64 (CHR ''d'')
      else if b = ''lock'' then replicate 64 (CHR ''e'') else ''0'')"

definition demo_config :: apply_config where
  "demo_config = \<lparr>cf_hmac_key = ''key'', cf_auth_mode = ''e2e'', cf_team_domain = [], cf_aud_tag = [],
     cf_iac = FDir [(''main.tf'', FFile ([CHR 0x72] @ ''esource '' @ [CHR 0x22] @ ''b'' @ [CHR 0x22, CHR 0x20, CHR 0x22] @ ''x'' @ [CHR 0x22])),
                    (LOCKFILE, FFile ''lock'')],
     cf_link = (\<lambda>_. Inl ''OSError'')\<rparr>"

definition demo_version :: tofu_answer where
  "demo_version = Inr (0, emit (PDict [(''terraform_version'', PStr ''1.9.0'')]), [])"

lemma demo_serves: "bucket_serves demo_objects demo_bucket"
  by (auto simp: bucket_serves_def demo_bucket_def split: option.splits)

lemma demo_json_facts: "utf8_decode demo_json = Some demo_json" "json_loads demo_json = Some (PDict update_bucket_plan)"
  "loads_bytes (emit (PDict demo_metadata)) = Some (PDict demo_metadata)"
proof -
  show "utf8_decode demo_json = Some demo_json" by code_simp
  have "printable (PDict update_bucket_plan)" "printable (PDict demo_metadata)" by code_simp+
  note json_loads_emit [OF this(1)] json_loads_emit [OF this(2)]
  moreover have "decode_json_bytes (emit (PDict demo_metadata)) = Some (emit (PDict demo_metadata))" by code_simp
  ultimately show "json_loads demo_json = Some (PDict update_bucket_plan)"
    "loads_bytes (emit (PDict demo_metadata)) = Some (PDict demo_metadata)"
    by (simp_all add: demo_json_def loads_bytes_def del: emit.simps)
qed

lemma validate_demo:
  assumes "fullmatch OBJECT (demo_dir @ base)"
  shows "validate_artifact_uri (artifact_uri (demo_dir @ base)) base = Inr (ARTIFACT_BUCKET, demo_dir @ base)"
proof -
  have "ends_with (''/'' @ base) (demo_dir @ base)" by (auto simp: ends_with_iff demo_dir_def intro: exI [of _ "''pr-7/'' @ replicate 40 (CHR ''a'') @ ''/run-12-1''"])
  moreover have "parse_gs_uri (artifact_uri (demo_dir @ base)) = Inr (ARTIFACT_BUCKET, demo_dir @ base)"
    by (simp add: parse_gs_uri_def starts_with_def Let_def ARTIFACT_BUCKET_def demo_dir_def artifact_uri_def)
  ultimately show ?thesis using assms by (simp add: validate_artifact_uri_def)
qed

lemma demo_gen: "to_int_generation (PStr ''3'') = Inr 3" "to_int_generation (PStr ''4'') = Inr 4" "to_int_generation (PStr ''5'') = Inr 5"
  by code_simp+

lemma demo_uris:
  "dget demo_metadata ''artifact_uri_plan'' = artifact_uri (demo_dir @ ''plan.tfplan'')"
  "dget demo_metadata ''artifact_uri_json'' = artifact_uri (demo_dir @ ''plan.json'')"
  "demo_uri = artifact_uri (demo_dir @ ''metadata.json'')"
  by (simp_all add: demo_metadata_def demo_uri_def demo_dir_def artifact_uri_def ARTIFACT_BUCKET_def)

lemma demo_fetch:
  "fetch_artifact demo_bucket (dget demo_metadata ''artifact_uri_plan'') (PStr ''3'') ''plan.tfplan'' = Inr ''bin''"
  "fetch_artifact demo_bucket (dget demo_metadata ''artifact_uri_json'') (PStr ''4'') ''plan.json'' = Inr demo_json"
  "fetched_metadata demo_bucket demo_uri (PStr ''5'') = Inr (PDict demo_metadata)"
  unfolding demo_uris fetched_metadata_def METADATA_BASENAME_def fetch_artifact_def
  by (simp_all add: validate_demo demo_objects_ok fetch_object_pinned_def demo_gen demo_bucket_def demo_objects_def lift_exc_def
      demo_json_facts del: emit.simps)

lemma demo_sha_values: "demo_sha ''bin'' = replicate 64 (CHR ''c'')" "demo_sha demo_json = replicate 64 (CHR ''d'')"
  "demo_sha ''lock'' = replicate 64 (CHR ''e'')"
proof -
  have "length demo_json \<noteq> length ''bin''" "length demo_json \<noteq> length ''lock''" by code_simp+
  then have "demo_json \<noteq> ''bin''" "demo_json \<noteq> ''lock''" by (metis (no_types))+
  then show "demo_sha ''bin'' = replicate 64 (CHR ''c'')" "demo_sha demo_json = replicate 64 (CHR ''d'')"
  "demo_sha ''lock'' = replicate 64 (CHR ''e'')" by (simp_all add: demo_sha_def)
qed

text \<open>The gates read the metadata by key only.\<close>

lemma demo_verified:
  assumes m: "map_of m = map_of demo_metadata"
  shows "fetch_and_verify_artifacts demo_sha demo_bucket (PDict m) = Inr (update_bucket_plan, ''bin'')"
proof -
  have f: "field (PDict m) k = Inr (dget demo_metadata k)" if "map_of demo_metadata k \<noteq> None" for k
    using that m by (auto simp: field_def subscript_def lift_exc_def dget_or_def)
  have k: "map_of demo_metadata ''artifact_uri_plan'' \<noteq> None" "map_of demo_metadata ''generation_plan'' \<noteq> None"
    "map_of demo_metadata ''artifact_uri_json'' \<noteq> None" "map_of demo_metadata ''generation_json'' \<noteq> None"
    "map_of demo_metadata ''plan_sha256'' \<noteq> None" "map_of demo_metadata ''plan_json_sha256'' \<noteq> None"
    by (simp_all add: demo_metadata_def)
  have g: "dget demo_metadata ''generation_plan'' = PStr ''3''" "dget demo_metadata ''generation_json'' = PStr ''4''"
    "dget demo_metadata ''plan_sha256'' = PStr (replicate 64 (CHR ''c''))"
    "dget demo_metadata ''plan_json_sha256'' = PStr (replicate 64 (CHR ''d''))"
    by (simp_all add: demo_metadata_def)
  have "verify_artifact_integrity demo_sha ''bin'' demo_json (PStr (replicate 64 (CHR ''c''))) (PStr (replicate 64 (CHR ''d''))) = Inr ()"
    by (simp add: artifact_integrity_iff demo_sha_values hex_digits_iff lower_hex_cls_def)
  moreover have "parse_plan demo_json = Inr update_bucket_plan"
    by (simp add: parse_plan_def demo_json_facts load_plan_json_def loads_text_def)
  ultimately show ?thesis
    by (simp add: fetch_and_verify_artifacts_def f k g demo_fetch lift_exc_def)
qed


lemma demo_gates:
  assumes same: "map_of m = map_of demo_metadata"
  shows "run_gates demo_sha (cf_link demo_config) (cf_iac demo_config) demo_bucket demo_version (PDict m) demo_uri None =
    Inr (update_bucket_plan, ''bin'', False)"
proof -
  have nc: "plan_has_create (PDict update_bucket_plan) = False"
    by (simp add: plan_has_create_def update_bucket_plan_def plan_of_def change_entry_def)
  have d: "denylist_or_raise update_bucket_plan = Inr ()" by (simp add: denylist_or_raise_def update_bucket_admissible require_def)
  have "json_loads (emit (PDict [(''terraform_version'', PStr ''1.9.0'')])) = Some (PDict [(''terraform_version'', PStr ''1.9.0'')])"
    by (rule json_loads_emit) (simp add: dkeys_def)
  then have v: "baked_tofu_version demo_version = Inr ''1.9.0''" by (simp add: baked_tofu_version_def demo_version_def del: emit.simps)
  have l: "baked_lockfile_sha256 demo_sha (cf_link demo_config) (cf_iac demo_config) = Inr (replicate 64 (CHR ''e''))"
    by (simp add: baked_lockfile_sha256_def demo_config_def root_files_def LOCKFILE_def read_file_def demo_sha_values)
  obtain t where t: "baked_texts (cf_link demo_config) (cf_iac demo_config) = Inr [t]" "extract_declared_addresses [t] = [''b.x'']"
  proof
    show "baked_texts (cf_link demo_config) (cf_iac demo_config) = Inr [[CHR 0x72] @ ''esource '' @ [CHR 0x22] @ ''b'' @ [CHR 0x22, CHR 0x20, CHR 0x22] @ ''x'' @ [CHR 0x22]]"
      by code_simp
    show "extract_declared_addresses [[CHR 0x72] @ ''esource '' @ [CHR 0x22] @ ''b'' @ [CHR 0x22, CHR 0x20, CHR 0x22] @ ''x'' @ [CHR 0x22]] = [''b.x'']"
      by code_simp
  qed
  have g: "resource_set_guard update_bucket_plan [''b.x''] False False = None"
    by (simp add: resource_set_guard_def update_bucket_plan_def plan_of_def change_entry_def entry_refusal_def
        change_refusal_def starts_with_def)
  have m: "dget m ''opentofu_version'' = PStr ''1.9.0''" "dget m ''provider_lockfile_sha256'' = PStr (replicate 64 (CHR ''e''))"
    by (simp_all add: dget_or_def same) (simp_all add: demo_metadata_def)
  have "fidelity_or_raise demo_sha (cf_link demo_config) (cf_iac demo_config) demo_version (PDict m) update_bucket_plan False False = Inr ()"
    by (simp add: fidelity_or_raise_def v l t assert_fidelity_def dict_of_def m g lift_exc_def)
  with nc d show ?thesis by (simp add: run_gates_def demo_verified [OF same] Let_def)
qed


subsection \<open>The run\<close>

lemma read_known:
  assumes "\<forall>k \<in> set PLAN_APPROVAL_REQUIRED. map_of d k \<noteq> None"
  shows "\<exists>a. read_plan_approval aid d = Inr a"
proof -
  have "set PLAN_APPROVAL_REQUIRED \<subseteq> set PLAN_APPROVAL_FIELDS" by (simp add: PLAN_APPROVAL_FIELDS_def)
  with assms show ?thesis
    by (auto simp: read_plan_approval_def PlanApproval_def map_of_drop_unknown dkeys_drop_unknown)
qed

definition demo_now :: instant where "demo_now = 63915904800000000"

definition demo_tofu_mac :: "string \<Rightarrow> string \<Rightarrow> string" where "demo_tofu_mac k m = ''0a''"

definition demo_propose_input :: propose_plan_input where
  "demo_propose_input = \<lparr>pl_jwt = (\<lambda>_. Inl (Escapes [])), pl_bucket = demo_bucket, pl_version = demo_version,
     pl_window_now = demo_now, pl_create_now = demo_now, pl_approval_id = ''id'', pl_token = ''tok''\<rparr>"

definition demo_tofu_propose :: propose_plan_request where
  "demo_tofu_propose =
     \<lparr>pp_artifact_uri_metadata = the (as_str demo_uri), pp_generation_metadata = ''5'', pp_approver = ''op'', pp_operator_jwt = None,
      pp_generation_iac_tree = None\<rparr>"

definition demo_apply_request :: apply_request where
  "demo_apply_request = \<lparr>rq_approval_id = ''id'', rq_approval_token = ''tok'', rq_operator_jwt = None, rq_generation_iac_tree = None\<rparr>"

definition demo_apply_input :: "tofu_answer \<Rightarrow> apply_input" where
  "demo_apply_input ans = \<lparr>ai_now = demo_now, ai_jwt = (\<lambda>_. Inl (Escapes [])), ai_attempt = ''att'', ai_bucket = demo_bucket,
     ai_tofu = ans, ai_workdir = Inr (), ai_store_error = None\<rparr>"

text \<open>A proposal stores this pending approval.\<close>

definition pending_doc :: "pydict \<Rightarrow> pydict \<Rightarrow> pydict \<Rightarrow> bool" where
  "pending_doc p q d \<longleftrightarrow>
     (\<exists>i e. build_plan_approval_payload (PDict demo_metadata) demo_uri (PStr ''5'') (PStr ''op'') (PStr i) (PStr e) = Inr p \<and>
        parse_rfc3339 e = Inr (demo_now + 900000000) \<and>
        p = payload_dict (metadata_dict (metadata_input_of demo_metadata)) demo_uri (PStr ''5'') (PStr ''op'') (PStr i) (PStr e)) \<and>
     printable (PDict p) \<and> canon (PDict p) = PDict q \<and> dkeys d = PLAN_APPROVAL_REQUIRED \<and>
     dget d ''status'' = PStr ''pending'' \<and> dget d ''payload_canonical'' = PStr (emit (PDict q)) \<and> dget d ''token_hmac'' = PStr ''0a''"

lemma demo_proposal:
  "\<exists>p q d r. pending_doc p q d \<and>
     propose_plan demo_sha demo_tofu_mac demo_config demo_propose_input ''op'' demo_tofu_propose Map.empty = (r, [''id'' \<mapsto> d])"
proof -
  obtain i e where w: "new_approval_window (Aware demo_now 0) 15 = Inr (i, e)"
    by (simp add: new_approval_window_def MAX_APPROVAL_TTL_MINUTES_def iso_of_def to_instant_def add_minutes_def demo_now_def
        max_day_def usec_per_day_def require_def)
  from approval_window_accepted [OF w] have e: "parse_rfc3339 e = Inr (demo_now + 900000000)" "check_window (PStr i) (PStr e) = Inr ()"
    by (simp_all add: whole_seconds_def demo_now_def)
  define p where "p = payload_dict (metadata_dict (metadata_input_of demo_metadata)) demo_uri (PStr ''5'') (PStr ''op'') (PStr i) (PStr e)"
  have acc: "payload_accepted demo_metadata demo_uri (PStr ''5'') (PStr ''op'') (PStr i) (PStr e)"
    using demo_accepted e(2) by (simp add: payload_accepted_def)
  then have b: "build_plan_approval_payload (PDict demo_metadata) demo_uri (PStr ''5'') (PStr ''op'') (PStr i) (PStr e) = Inr p"
    by (simp add: build_payload_iff p_def)
  have pr: "printable (PDict p)" using payload_printable [OF acc] by (simp only: p_def)
  obtain q where q: "canon (PDict p) = PDict q" by simp
  have "\<exists>d. plan_create_data demo_sha demo_tofu_mac demo_now ''id'' ''tok'' p ''key'' ''op'' = Inr d"
    using json_dumps_printable [OF pr] e(1)
    by (simp add: plan_create_data_def canonicalize_payload_def Let_def p_def payload_dict_def parse_rfc3339_utc_def subscript_def
        metadata_dict_def del: emit.simps canon.simps)
  then obtain d where d: "plan_create_data demo_sha demo_tofu_mac demo_now ''id'' ''tok'' p ''key'' ''op'' = Inr d" ..
  have "dkeys p = PLAN_PAYLOAD_TOP_KEYS" "dget p ''approval_schema_version'' = PStr PLAN_APPROVAL_SCHEMA_VERSION"
    by (simp_all add: p_def payload_dict_def dkeys_def PLAN_PAYLOAD_TOP_KEYS_def)
  then have c: "plan_create demo_sha demo_tofu_mac demo_now ''id'' ''tok'' p ''key'' ''op'' Map.empty =
      (Inr (plan_approval_of ''id'' d, ''tok''), [''id'' \<mapsto> d])"
    using d plan_create_data_keys [OF d] by (simp add: plan_create_def)
  have k: "dkeys d = PLAN_APPROVAL_REQUIRED" using plan_create_data_keys [OF d] by simp
  from d json_dumps_printable [OF pr] q have dd: "dget d ''status'' = PStr ''pending''" "dget d ''payload_canonical'' = PStr (emit (PDict q))"
    "dget d ''token_hmac'' = PStr ''0a''"
    by (auto simp: plan_create_data_def canonicalize_payload_def result_simps Let_def compute_plan_approval_hmac_def demo_tofu_mac_def
        simp del: emit.simps canon.simps)
  have u: "PStr (pp_artifact_uri_metadata demo_tofu_propose) = demo_uri" by (simp add: demo_tofu_propose_def demo_uri_def)
  have "propose_gates demo_sha demo_config demo_propose_input demo_tofu_propose = Inr (PDict demo_metadata)"
    unfolding propose_gates_def Let_def u
    by (simp add: demo_tofu_propose_def demo_propose_input_def demo_fetch demo_gates require_def)
  then have "propose_plan demo_sha demo_tofu_mac demo_config demo_propose_input ''op'' demo_tofu_propose Map.empty =
      (Ok [(''approval_id'', PStr (pa_id (plan_approval_of ''id'' d))), (''approval_token'', PStr ''tok''), (''expires_at'', PStr e)], [''id'' \<mapsto> d])"
    unfolding propose_plan_def u
    by (simp add: verify_operator_def demo_config_def demo_tofu_propose_def demo_propose_input_def w b c)
  moreover have "pending_doc p q d" using b e(1) p_def pr q k dd unfolding pending_doc_def by blast
  ultimately show ?thesis by blast
qed

lemma pending_payload:
  assumes "pending_doc p q d"
  shows "map_of q ''artifact_uri_metadata'' = Some demo_uri \<and> map_of q ''generation_metadata'' = Some (PStr ''5'') \<and>
    map_of q ''approver'' = Some (PStr ''op'') \<and> json_loads (emit (PDict q)) = Some (PDict q) \<and>
    (\<exists>m. map_of q ''metadata'' = Some (PDict m) \<and> map_of m = map_of demo_metadata) \<and>
    (\<exists>i e. map_of q ''issued_at'' = Some (PStr i) \<and> map_of q ''expires_at'' = Some (PStr e) \<and> parse_rfc3339 e = Inr (demo_now + 900000000) \<and>
       build_plan_approval_payload (PDict demo_metadata) demo_uri (PStr ''5'') (PStr ''op'') (PStr i) (PStr e) = Inr p)"
proof -
  from assms obtain i e where b: "build_plan_approval_payload (PDict demo_metadata) demo_uri (PStr ''5'') (PStr ''op'') (PStr i) (PStr e) = Inr p"
    "parse_rfc3339 e = Inr (demo_now + 900000000)"
    and p: "p = payload_dict (metadata_dict (metadata_input_of demo_metadata)) demo_uri (PStr ''5'') (PStr ''op'') (PStr i) (PStr e)"
    and pr: "printable (PDict p)" and q: "canon (PDict p) = PDict q"
    unfolding pending_doc_def by blast
  have "distinct (dkeys p)" using pr by simp
  note look = canon_lookup [OF q this]
  have "json_loads (emit (PDict q)) = Some (PDict q)" using json_loads_emit [OF printable_canon [OF pr]] q by metis
  moreover obtain m where m: "canon (PDict (metadata_dict (metadata_input_of demo_metadata))) = PDict m" by simp
  have md: "metadata_dict (metadata_input_of demo_metadata) = demo_metadata"
    by (simp add: metadata_dict_def metadata_input_of_def demo_metadata_def METADATA_SCHEMA_VERSION_def)
  have "map_of q ''metadata'' = Some (PDict m)" using look [of "''metadata''"] m by (simp add: p payload_dict_def del: canon.simps)
  moreover have "map_of m = map_of demo_metadata"
  proof
    fix k
    have "distinct (dkeys demo_metadata)" by (simp add: demo_metadata_def dkeys_def)
    from canon_lookup [OF m [unfolded md] this, of k] have "map_of m k = map_option canon (map_of demo_metadata k)" .
    also have "\<dots> = map_of demo_metadata k" by (simp add: demo_metadata_def)
    finally show "map_of m k = map_of demo_metadata k" .
  qed
  moreover have "map_of q ''artifact_uri_metadata'' = Some demo_uri" "map_of q ''generation_metadata'' = Some (PStr ''5'')"
    "map_of q ''approver'' = Some (PStr ''op'')" "map_of q ''issued_at'' = Some (PStr i)" "map_of q ''expires_at'' = Some (PStr e)"
    using look by (simp_all add: p payload_dict_def demo_uri_def)
  ultimately show ?thesis using b by blast
qed


lemma demo_verify:
  assumes "pending_doc p q d"
  shows "verify_apply demo_sha demo_tofu_mac demo_config demo_now jwt ''op'' demo_apply_request [''id'' \<mapsto> d] =
    Inr \<lparr>vf_canonical = PStr (emit (PDict q)), vf_payload = q, vf_operator = None, vf_at = demo_now\<rparr>"
proof -
  from assms have d: "dkeys d = PLAN_APPROVAL_REQUIRED" "dget d ''status'' = PStr ''pending''"
    "dget d ''payload_canonical'' = PStr (emit (PDict q))" "dget d ''token_hmac'' = PStr ''0a''" unfolding pending_doc_def by blast+
  from pending_payload [OF assms] obtain e where q: "map_of q ''approver'' = Some (PStr ''op'')"
    "json_loads (emit (PDict q)) = Some (PDict q)" "map_of q ''expires_at'' = Some (PStr e)" "parse_rfc3339 e = Inr (demo_now + 900000000)"
    by blast
  have "\<forall>k \<in> set PLAN_APPROVAL_REQUIRED. map_of d k \<noteq> None" using d(1) by (metis dkeys_def list.set_map map_of_eq_None_iff)
  from read_known [OF this, of "''id''"] obtain a where "plan_get ''id'' [''id'' \<mapsto> d] = Inr (Some a)" by (auto simp: plan_get_def)
  moreover from plan_get_Some [OF this] d have a: "pa_id a = ''id''" "pa_status a = PStr ''pending''" "pa_token_hmac a = PStr ''0a''"
    "pa_payload_canonical a = PStr (emit (PDict q))" by auto
  ultimately have "token_check demo_sha demo_tofu_mac ''key'' ''id'' ''tok'' [''id'' \<mapsto> d] = Inr a"
    by (simp add: token_check_def verify_plan_approval_def compute_plan_approval_hmac_def demo_tofu_mac_def compare_digest_def is_ascii_def
        del: emit.simps)
  moreover have "signed_payload a = Inr (PDict q)" using a(4) q(2) by (simp add: signed_payload_def del: emit.simps)
  moreover from this q have "plan_approval_is_expired a demo_now = Inr False"
    by (simp add: plan_approval_is_expired_def subscript_def parse_rfc3339_utc_def)
  ultimately show ?thesis using q a(4)
    by (simp add: verify_apply_def demo_apply_request_def demo_config_def subscript_def verify_operator_def require_def dict_of_def unhandled_def
        lift_exc_def del: emit.simps)
qed

lemma demo_claim:
  assumes "pending_doc p q d"
  shows "\<exists>docs'. apply_claim demo_now ''att'' ''id'' ''op'' v [''id'' \<mapsto> d] = (AGate v ''att'', docs') \<and> docs' ''id'' \<noteq> None"
proof -
  from assms have d: "dkeys d = PLAN_APPROVAL_REQUIRED" "dget d ''status'' = PStr ''pending''" unfolding pending_doc_def by blast+
  have kd: "map_of d k \<noteq> None" if "k \<in> set PLAN_APPROVAL_REQUIRED" for k
    using d(1) that by (metis dkeys_def list.set_map map_of_eq_None_iff)
  define d' where "d' = dupdate d [(''status'', PStr ''used''), (''used_by'', PStr ''op''), (''used_at'', PTime demo_now),
    (''apply_audit'', claimed_plan_audit demo_now ''att'' ''op'' (vf_operator v))]"
  have "\<forall>k \<in> set PLAN_APPROVAL_REQUIRED. map_of d' k \<noteq> None"
    using kd by (auto simp: d'_def)
  from read_known [OF this] obtain a where "read_plan_approval ''id'' d' = Inr a" by blast
  then have "plan_claim_pending ''id'' (PStr ''op'') demo_now (claimed_plan_audit demo_now ''att'' ''op'' (vf_operator v)) [''id'' \<mapsto> d] =
      (Inr (Some a), [''id'' \<mapsto> d'])"
    using d(2) by (simp add: plan_claim_pending_def plan_claim_def claimed_plan_audit_def d'_def)
  then show ?thesis by (simp add: apply_claim_def)
qed

lemma demo_apply_gates:
  assumes "pending_doc p q d" and v: "vf_payload v = q" "vf_canonical v = PStr (emit (PDict q))"
    and md: "map_of q ''metadata'' = Some md"
  shows "apply_gates demo_sha demo_config demo_bucket demo_version v md None = Inr \<lparr>gt_plan = ''bin'', gt_json = update_bucket_plan, gt_create = False\<rparr>"
proof -
  from pending_payload [OF assms(1)] obtain m i e where q: "map_of q ''artifact_uri_metadata'' = Some demo_uri"
    "map_of q ''generation_metadata'' = Some (PStr ''5'')" "map_of q ''approver'' = Some (PStr ''op'')"
    "map_of q ''metadata'' = Some (PDict m)" "map_of m = map_of demo_metadata"
    "map_of q ''issued_at'' = Some (PStr i)" "map_of q ''expires_at'' = Some (PStr e)"
    "build_plan_approval_payload (PDict demo_metadata) demo_uri (PStr ''5'') (PStr ''op'') (PStr i) (PStr e) = Inr p" by blast
  from assms(1) have "printable (PDict p)" "canon (PDict p) = PDict q" unfolding pending_doc_def by blast+
  then have c: "canonicalize_payload p = Inr (emit (PDict q))" by (simp only: canonicalize_payload_def json_dumps_printable)
  have f: "field (PDict q) k = Inr x" if "map_of q k = Some x" for k x using that by (simp add: field_def subscript_def lift_exc_def)
  have "rebuild_check demo_bucket v = Inr ()"
    unfolding rebuild_check_def v Let_def by (simp add: f q demo_fetch lift_exc_def c require_def del: emit.simps)
  with q(1,4) md demo_gates [OF q(5)] v show ?thesis by (simp add: apply_gates_def dget_or_def)
qed

text \<open>A proposal, and an apply request up to its apply command.\<close>

lemma demo_tofu_run:
  "\<exists>w ts e. tofu_system demo_sha demo_tofu_mac demo_config demo_objects w ts \<and> aw_applies w = [e] \<and> gt_plan (ae_gated e) = ''bin'' \<and>
     aw_docs w ''id'' \<noteq> None"
proof -
  let ?sys = "tofu_system demo_sha demo_tofu_mac demo_config demo_objects" and ?rq = "TApply demo_apply_request ''op''"
  obtain p q d r where pd: "pending_doc p q d" and pr: "propose_plan demo_sha demo_tofu_mac demo_config demo_propose_input ''op'' demo_tofu_propose Map.empty =
      (r, [''id'' \<mapsto> d])" using demo_proposal by blast
  define w0 where "w0 = \<lparr>aw_docs = [''id'' \<mapsto> d], aw_applies = []\<rparr>"
  have s0: "?sys w0 []"
    using tofu_system.proposed [OF tofu_system.start, of demo_propose_input demo_objects demo_sha demo_tofu_mac demo_config "''op''"
        demo_tofu_propose r "[''id'' \<mapsto> d]"] pr demo_serves
    by (simp add: w0_def demo_propose_input_def)
  have one: "?sys w' [?rq pc']" if "?sys w [?rq pc]" "apply_step demo_sha demo_tofu_mac demo_config demo_apply_request ''op'' (demo_apply_input ans) pc w = (pc', w')"
    for w pc w' pc' ans
    using tofu_system.step [OF that(1), of 0 "demo_apply_input ans" "?rq pc'" w'] that(2) demo_serves by (simp add: demo_apply_input_def)
  define v where "v = \<lparr>vf_canonical = PStr (emit (PDict q)), vf_payload = q, vf_operator = None, vf_at = demo_now\<rparr>"
  have "?sys w0 [?rq AVerify]" using tofu_system.arrive_apply [OF s0, of demo_apply_request "''op''"] by simp
  then have s1: "?sys w0 [?rq (AClaim v)]"
    by (rule one [where ans = "Inl []"]) (simp add: w0_def demo_apply_input_def demo_verify [OF pd] v_def del: emit.simps)
  from demo_claim [OF pd] obtain docs' where c: "apply_claim demo_now ''att'' ''id'' ''op'' v [''id'' \<mapsto> d] = (AGate v ''att'', docs')"
    "docs' ''id'' \<noteq> None" by blast
  define w1 where "w1 = \<lparr>aw_docs = docs', aw_applies = []\<rparr>"
  from s1 have s2: "?sys w1 [?rq (AGate v ''att'')]"
    by (rule one [where ans = "Inl []"]) (simp add: w0_def w1_def demo_apply_input_def demo_apply_request_def c)
  from pending_payload [OF pd] obtain m where m: "map_of q ''metadata'' = Some (PDict m)" by blast
  define g where "g = \<lparr>gt_plan = ''bin'', gt_json = update_bucket_plan, gt_create = False\<rparr>"
  have gates: "apply_gates demo_sha demo_config demo_bucket demo_version v (PDict m) None = Inr g"
    unfolding g_def by (rule demo_apply_gates [OF pd _ _ m]) (simp_all add: v_def)
  from s2 have s3: "?sys w1 [?rq (AWorkdir v ''att'' g)]"
    by (rule one [where ans = demo_version]) (use gates m in \<open>simp add: demo_apply_input_def demo_apply_request_def v_def\<close>)
  from s3 have s4: "?sys w1 [?rq (ATofu v ''att'' g QInit)]"
    by (rule one [where ans = "Inl []"]) (simp add: demo_apply_input_def)
  from s4 have s5: "?sys w1 [?rq (ATofu v ''att'' g QRefresh)]"
    by (rule one [where ans = "Inr (0, [], [])"]) (simp add: demo_apply_input_def or_raise_def tofu_commands)
  from s5 have s6: "?sys w1 [?rq (ATofu v ''att'' g (QBaseline 0 []))]"
    by (rule one [where ans = "Inr (0, [], [])"]) (simp add: demo_apply_input_def or_raise_def tofu_commands)
  from s6 have s7: "?sys w1 [?rq (ATofu v ''att'' g (QApply 0 [] (state_serial_lineage demo_state)))]"
    by (rule one [where ans = demo_state]) (simp add: demo_apply_input_def tofu_commands)
  from s7 have s8: "?sys (w1\<lparr>aw_applies := [event_of demo_apply_request ''op'' v g]\<rparr>) [?rq (ATofu v ''att'' g (QOutcome 0 []))]"
    by (rule one [where ans = "Inr (0, [], [])"]) (simp add: demo_apply_input_def or_raise_def w1_def event_of_def)
  show ?thesis
    by (rule exI [of _ "w1\<lparr>aw_applies := [event_of demo_apply_request ''op'' v g]\<rparr>"],
        rule exI [of _ "[?rq (ATofu v ''att'' g (QOutcome 0 []))]"], rule exI [of _ "event_of demo_apply_request ''op'' v g"],
        intro conjI, rule s8) (simp_all add: w1_def event_of_def g_def c(2))
qed

lemma applied_plan_was_approved_witness:
  "\<exists>w ts e. tofu_system demo_sha demo_tofu_mac demo_config demo_objects w ts \<and> aw_applies w = [e] \<and> gt_plan (ae_gated e) = ''bin'' \<and>
     distinct (applied_ids w) \<and> spent (aw_docs w) (rq_approval_id (ae_request e)) \<and>
     approved demo_sha demo_tofu_mac demo_config (aw_docs w) (ae_request e) (ae_caller e) (ae_verified e) \<and>
     plan_gated demo_sha demo_config demo_objects (ae_verified e) (ae_gated e)"
proof -
  obtain w ts e where w: "tofu_system demo_sha demo_tofu_mac demo_config demo_objects w ts" "aw_applies w = [e]" "gt_plan (ae_gated e) = ''bin''"
    using demo_tofu_run by blast
  from applied_plan_was_approved [OF w(1)] w(2) show ?thesis
    by (intro exI [of _ w] exI [of _ ts] exI [of _ e] conjI w) simp_all
qed

lemma apply_audit_is_true_witness:
  "\<exists>w ts d. tofu_system demo_sha demo_tofu_mac demo_config demo_objects w ts \<and> aw_docs w ''id'' = Some d \<and>
     (plan_phase d = PStr ''applied'' \<longrightarrow> ''id'' \<in> set (applied_ids w))"
proof -
  obtain w ts d where w: "tofu_system demo_sha demo_tofu_mac demo_config demo_objects w ts" "aw_docs w ''id'' = Some d"
    using demo_tofu_run by (auto simp: not_None_eq)
  from apply_audit_is_true [OF w] show ?thesis
    by (intro exI [of _ w] exI [of _ ts] exI [of _ d] conjI w) blast
qed

lemma apply_request_ends_witness:
  "\<exists>r. fst (run_apply demo_sha demo_tofu_mac demo_config demo_apply_request ''op'' (replicate 12 (demo_apply_input (Inl []))) AVerify
      \<lparr>aw_docs = Map.empty, aw_applies = []\<rparr>) = ADone r"
  by (rule apply_request_ends) simp

end
