(* ===== verification/GitHub.thy ===== *)
theory GitHub
  imports UpgradeWorker RollbackWorker Renderer
begin

text \<open>
  The gates in front of every write to an existing pull request (\<open>driftscribe_lib/github.py\<close>) and the
  upgrade worker's \<open>/close\<close> and \<open>/merge\<close> handlers around them (\<open>workers/upgrade_docs/main.py\<close>).  GitHub's
  answers are inputs: the successive reads of the pull request, the check runs of a commit, and what the
  write calls answer.  An operation returns the writes it made with its result or exception.
\<close>

section \<open>GitHub's answers\<close>

record pull =
  pu_number :: int
  pu_url :: string
  pu_labels :: "string list"
  pu_head_ref :: string
  pu_head_sha :: string
  pu_base_ref :: string
  pu_state :: string
  pu_merged :: bool
  pu_draft :: bool
  pu_mergeable :: "bool option"
  pu_mergeable_state :: string

record check_run =
  cr_name :: string
  cr_status :: string
  cr_conclusion :: "string option"
  cr_started_at :: "instant option"
  cr_completed_at :: "instant option"

text \<open>\<open>Refused\<close> is a \<open>GithubException\<close> with its message; the names are those of other exceptions.\<close>

datatype merge_answer = Refused string | MergeRaises string | Merged bool "string option" string

datatype call_answer = Done | GithubFails string | CallRaises string

record github =
  gh_pull :: "nat \<Rightarrow> (string, pull) res"
  gh_check_runs :: "string \<Rightarrow> (string, check_run list) res"
  gh_merge :: merge_answer
  gh_edit :: "(string, unit) res"
  gh_comment :: call_answer

datatype pr_error =
    PrNotEligibleError string nat
  | PrMergeBlockedError string bool
  | GhRaises string

datatype gh_write = MergePull int string string | ClosePull int | CommentOn int string

definition MERGEABILITY_RETRIES :: nat where "MERGEABILITY_RETRIES = 3"
definition MERGE_ALLOWED_STATES :: "string list" where "MERGE_ALLOWED_STATES = [''clean'', ''unstable'']"

definition quoted_str :: "string \<Rightarrow> string" where "quoted_str s = py_repr (PStr s)"
definition pr_text :: "int \<Rightarrow> string" where "pr_text n = ''PR #'' @ show_int n"

definition blocked :: "string \<Rightarrow> pr_error" where "blocked m = PrMergeBlockedError m False"

definition NO_REQUIRED_CHECKS :: string where
  "NO_REQUIRED_CHECKS = ''no required checks configured '' @ [CHR 0x97] @ '' merge disabled''"

text \<open>The first read of a pull request; an absent one is a 404 of our own.\<close>

definition fetch_pull :: "github \<Rightarrow> int \<Rightarrow> (pr_error, pull) res" where
  "fetch_pull gh n =
     (case gh_pull gh 0 of
        Inr pr \<Rightarrow> Inr pr
      | Inl e \<Rightarrow> Inl (if e = ''UnknownObjectException'' then PrNotEligibleError (pr_text n @ '' not found'') 404 else GhRaises e))"

section \<open>Provenance\<close>

definition assert_pr_eligible ::
  "pull \<Rightarrow> string option \<Rightarrow> string option \<Rightarrow> string option \<Rightarrow> (pr_error, unit) res" where
  "assert_pr_eligible pr required_label required_head_prefix required_base =
     rbind (case required_label of None \<Rightarrow> Inr ()
       | Some l \<Rightarrow> require (l \<in> set (pu_labels pr))
           (PrNotEligibleError (pr_text (pu_number pr) @ '' is not a DriftScribe PR (missing '' @ quoted_str l @ '' label)'') 403)) (\<lambda>_.
     rbind (case required_head_prefix of None \<Rightarrow> Inr ()
       | Some p \<Rightarrow> require (starts_with p (pu_head_ref pr))
           (PrNotEligibleError (pr_text (pu_number pr) @ '' head '' @ quoted_str (pu_head_ref pr) @
              '' is not a DriftScribe branch (expected prefix '' @ quoted_str p @ '')'') 403)) (\<lambda>_.
     case required_base of None \<Rightarrow> Inr ()
       | Some b \<Rightarrow> require (pu_base_ref pr = b)
           (PrNotEligibleError (pr_text (pu_number pr) @ '' base '' @ quoted_str (pu_base_ref pr) @ '' is not '' @ quoted_str b) 403)))"

section \<open>Check runs\<close>

text \<open>The recency key; a run with neither time is older than every other.\<close>

definition check_run_order_key :: "check_run \<Rightarrow> instant option" where
  "check_run_order_key cr = (case cr_completed_at cr of None \<Rightarrow> cr_started_at cr | Some t \<Rightarrow> Some t)"

fun key_le :: "instant option \<Rightarrow> instant option \<Rightarrow> bool" where
  "key_le None _ = True"
| "key_le (Some _) None = False"
| "key_le (Some s) (Some t) = (s \<le> t)"

definition newer_run :: "check_run \<Rightarrow> check_run option \<Rightarrow> bool" where
  "newer_run cr prev = (case prev of None \<Rightarrow> True | Some p \<Rightarrow> key_le (check_run_order_key p) (check_run_order_key cr))"

fun latest_from :: "(string \<rightharpoonup> check_run) \<Rightarrow> check_run list \<Rightarrow> (string \<rightharpoonup> check_run)" where
  "latest_from latest [] = latest"
| "latest_from latest (cr # crs) =
     latest_from (if newer_run cr (latest (cr_name cr)) then latest(cr_name cr \<mapsto> cr) else latest) crs"

definition latest_check_runs :: "check_run list \<Rightarrow> (string \<rightharpoonup> check_run)" where
  "latest_check_runs crs = latest_from Map.empty crs"

definition check_green :: "(string \<rightharpoonup> check_run) \<Rightarrow> string \<Rightarrow> string \<Rightarrow> (pr_error, unit) res" where
  "check_green runs head_sha name =
     (case runs name of
        None \<Rightarrow> Inl (blocked (''required check '' @ quoted_str name @ '' has not reported on '' @ take 7 head_sha @ '' yet''))
      | Some cr \<Rightarrow>
          if cr_status cr \<noteq> ''completed''
            then Inl (blocked (''required check '' @ quoted_str name @ '' is still '' @ quoted_str (cr_status cr)))
          else if cr_conclusion cr \<noteq> Some ''success''
            then Inl (blocked (''required check '' @ quoted_str name @ '' concluded '' @
              (case cr_conclusion cr of None \<Rightarrow> ''None'' | Some c \<Rightarrow> quoted_str c) @ '', not '' @ quoted_str ''success''))
          else Inr ())"

definition assert_required_checks_green :: "github \<Rightarrow> string \<Rightarrow> string list \<Rightarrow> (pr_error, unit) res" where
  "assert_required_checks_green gh head_sha required =
     (case gh_check_runs gh head_sha of
        Inl e \<Rightarrow> Inl (GhRaises e)
      | Inr crs \<Rightarrow>
          rbind (traverse (check_green (latest_check_runs crs) head_sha) (sort (remdups required))) (\<lambda>_. Inr ()))"

section \<open>Merging\<close>

definition already_merged :: "pull \<Rightarrow> pydict" where
  "already_merged pr =
     [(''dry_run'', PBool False), (''merged'', PBool True), (''already_merged'', PBool True), (''url'', PStr (pu_url pr)),
      (''number'', PInt (pu_number pr)), (''comment_posted'', PBool False)]"

text \<open>The static gates: an early answer for a merged pull request, or nothing.\<close>

definition assert_merge_preconditions ::
  "pull \<Rightarrow> int \<Rightarrow> string option \<Rightarrow> string option \<Rightarrow> string option \<Rightarrow> (pr_error, pydict option) res" where
  "assert_merge_preconditions pr n required_label required_head_prefix required_base =
     rbind (assert_pr_eligible pr required_label required_head_prefix required_base) (\<lambda>_.
     if pu_merged pr then Inr (Some (already_merged pr))
     else rbind (require (pu_state pr \<noteq> ''closed'') (blocked (pr_text n @ '' is closed and was not merged''))) (\<lambda>_.
     rbind (require (\<not> pu_draft pr) (blocked (pr_text n @ '' is a draft''))) (\<lambda>_. Inr None)))"

text \<open>The bounded wait for the mergeability, on the reads left.\<close>

fun poll_mergeability :: "(string, pull) res list \<Rightarrow> pull \<Rightarrow> (pr_error, pull) res" where
  "poll_mergeability [] pr = Inr pr"
| "poll_mergeability (r # rs) pr =
     (if pu_mergeable pr \<noteq> None then Inr pr
      else case r of Inl e \<Rightarrow> Inl (GhRaises e) | Inr pr' \<Rightarrow> poll_mergeability rs pr')"

definition computed_mergeability :: "github \<Rightarrow> int \<Rightarrow> pull \<Rightarrow> (pr_error, pull) res" where
  "computed_mergeability gh n pr =
     rbind (poll_mergeability (map (gh_pull gh) [1..<Suc MERGEABILITY_RETRIES]) pr) (\<lambda>pr.
     rbind (require (pu_mergeable pr \<noteq> None) (blocked (pr_text n @ '' mergeability is still computing; retry shortly''))) (\<lambda>_.
     Inr pr))"

definition BLOCKED_BY_PROTECTION :: string where
  "BLOCKED_BY_PROTECTION =
     [CHR 0x20, CHR 0x97] @ '' blocked by branch protection (a required review or status is not yet satisfied); '' @
     ''resolve out-of-band (approve the review, satisfy the required check, or admin-merge)''"

definition assert_mergeable :: "int \<Rightarrow> pull \<Rightarrow> (pr_error, unit) res" where
  "assert_mergeable n pr =
     rbind (require (pu_mergeable pr = Some True)
       (blocked (pr_text n @ '' is not mergeable (state='' @ quoted_str (pu_mergeable_state pr) @ '')''))) (\<lambda>_.
     let permanent = (pu_mergeable_state pr = ''blocked'') in
     require (pu_mergeable_state pr \<in> set MERGE_ALLOWED_STATES)
       (PrMergeBlockedError
         (pr_text n @ '' cannot be merged in state '' @ quoted_str (pu_mergeable_state pr) @ (if permanent then BLOCKED_BY_PROTECTION else []))
         permanent))"

text \<open>The merge call at a given head, and the comment that follows it.\<close>

definition comment_result :: "call_answer \<Rightarrow> (pr_error, pydict) res" where
  "comment_result a =
     (case a of
        Done \<Rightarrow> Inr [(''comment_posted'', PBool True), (''comment_error'', PNone)]
      | GithubFails m \<Rightarrow> Inr [(''comment_posted'', PBool False), (''comment_error'', PStr m)]
      | CallRaises e \<Rightarrow> Inl (GhRaises e))"

definition merge_call ::
  "github \<Rightarrow> int \<Rightarrow> string \<Rightarrow> string \<Rightarrow> string \<Rightarrow> gh_write list \<times> (pr_error, string \<times> pydict) res" where
  "merge_call gh n merge_method head_sha remark =
     (case gh_merge gh of
        MergeRaises e \<Rightarrow> ([MergePull n merge_method head_sha], Inl (GhRaises e))
      | Refused m \<Rightarrow> ([MergePull n merge_method head_sha], Inl (blocked (''GitHub refused the merge: '' @ m)))
      | Merged False m _ \<Rightarrow>
          ([MergePull n merge_method head_sha],
           Inl (blocked (''merge was not completed: '' @ (case m of Some (c # t) \<Rightarrow> c # t | _ \<Rightarrow> ''unknown reason''))))
      | Merged True _ sha \<Rightarrow>
          ([MergePull n merge_method head_sha, CommentOn n remark],
           rbind (comment_result (gh_comment gh)) (\<lambda>c. Inr (sha, c))))"

definition merge_pr ::
  "github \<Rightarrow> int \<Rightarrow> bool \<Rightarrow> string \<Rightarrow> string list \<Rightarrow> string option \<Rightarrow> string option \<Rightarrow> string option \<Rightarrow>
   gh_write list \<times> (pr_error, pydict) res" where
  "merge_pr gh n dry_run merge_method required_checks required_label required_head_prefix required_base =
     (if dry_run then ([], Inr [(''dry_run'', PBool True), (''number'', PInt n), (''would_merge'', PBool True)])
      else
        (case rbind (fetch_pull gh n) (\<lambda>pr.
              rbind (assert_merge_preconditions pr n required_label required_head_prefix required_base) (\<lambda>early.
              case early of Some d \<Rightarrow> Inr (Inl d) | None \<Rightarrow>
                rbind (require (required_checks \<noteq> []) (blocked NO_REQUIRED_CHECKS)) (\<lambda>_.
                rbind (computed_mergeability gh n pr) (\<lambda>pr.
                rbind (assert_merge_preconditions pr n required_label required_head_prefix required_base) (\<lambda>early.
                case early of Some d \<Rightarrow> Inr (Inl d) | None \<Rightarrow>
                  rbind (assert_mergeable n pr) (\<lambda>_.
                  rbind (assert_required_checks_green gh (pu_head_sha pr) required_checks) (\<lambda>_.
                  Inr (Inr pr)))))))) of
           Inl e \<Rightarrow> ([], Inl e)
         | Inr (Inl d) \<Rightarrow> ([], Inr d)
         | Inr (Inr pr) \<Rightarrow>
             (case merge_call gh n merge_method (pu_head_sha pr) (''Merged by DriftScribe ('' @ merge_method @ '').'') of
                (ws, r) \<Rightarrow>
                  (ws, rbind r (\<lambda>(sha, comment).
                    Inr ([(''dry_run'', PBool False), (''merged'', PBool True), (''already_merged'', PBool False),
                          (''url'', PStr (pu_url pr)), (''number'', PInt (pu_number pr)), (''sha'', PStr sha),
                          (''merge_method'', PStr merge_method)] @ comment))))))"

section \<open>Closing\<close>

definition close_pr ::
  "github \<Rightarrow> int \<Rightarrow> string \<Rightarrow> bool \<Rightarrow> string option \<Rightarrow> string option \<Rightarrow> string option \<Rightarrow> gh_write list \<times> (pr_error, pydict) res" where
  "close_pr gh n reason dry_run required_label required_head_prefix required_base =
     (if dry_run then ([], Inr [(''dry_run'', PBool True), (''number'', PInt n), (''would_close'', PBool True)])
      else case rbind (fetch_pull gh n) (\<lambda>pr.
                rbind (assert_pr_eligible pr required_label required_head_prefix required_base) (\<lambda>_. Inr pr)) of
        Inl e \<Rightarrow> ([], Inl e)
      | Inr pr \<Rightarrow>
          if pu_state pr = ''closed''
          then ([], Inr [(''dry_run'', PBool False), (''closed'', PBool True), (''already_closed'', PBool True), (''url'', PStr (pu_url pr)),
                         (''number'', PInt (pu_number pr)), (''comment_posted'', PBool False)])
          else (case gh_edit gh of
              Inl e \<Rightarrow> ([ClosePull n], Inl (GhRaises e))
            | Inr _ \<Rightarrow>
                ([ClosePull n, CommentOn n (''Closed by DriftScribe: '' @ reason)],
                 rbind (comment_result (gh_comment gh)) (\<lambda>comment.
                   Inr ([(''dry_run'', PBool False), (''closed'', PBool True), (''already_closed'', PBool False),
                         (''url'', PStr (pu_url pr)), (''number'', PInt (pu_number pr)), (''reason'', PStr reason)] @ comment)))))"

section \<open>Readiness and merge at a fixed head\<close>

definition assert_pr_ready_at_sha ::
  "github \<Rightarrow> int \<Rightarrow> string \<Rightarrow> string list \<Rightarrow> string \<Rightarrow> (pr_error, string) res" where
  "assert_pr_ready_at_sha gh n expected_head_sha required_checks required_base =
     rbind (require (required_checks \<noteq> []) (blocked NO_REQUIRED_CHECKS)) (\<lambda>_.
     rbind (fetch_pull gh n) (\<lambda>pr.
     rbind (require (pu_base_ref pr = required_base)
       (PrNotEligibleError (pr_text n @ '' base '' @ quoted_str (pu_base_ref pr) @ '' is not '' @ quoted_str required_base) 403)) (\<lambda>_.
     rbind (require (\<not> pu_merged pr) (blocked (pr_text n @ '' is already merged''))) (\<lambda>_.
     rbind (require (pu_state pr = ''open'') (blocked (pr_text n @ '' is '' @ quoted_str (pu_state pr) @ '', not open''))) (\<lambda>_.
     rbind (require (\<not> pu_draft pr) (blocked (pr_text n @ '' is a draft''))) (\<lambda>_.
     rbind (require (pu_head_sha pr = expected_head_sha)
       (blocked (''PR head moved (expected '' @ take 7 expected_head_sha @ '')''))) (\<lambda>_.
     rbind (assert_required_checks_green gh expected_head_sha required_checks) (\<lambda>_.
     Inr expected_head_sha))))))))"

definition assert_base_and_head :: "pull \<Rightarrow> int \<Rightarrow> string \<Rightarrow> string \<Rightarrow> (pr_error, unit) res" where
  "assert_base_and_head pr n expected_head_sha required_base =
     rbind (require (pu_base_ref pr = required_base)
       (blocked (pr_text n @ '' base '' @ quoted_str (pu_base_ref pr) @ '' is not '' @ quoted_str required_base))) (\<lambda>_.
     require (pu_head_sha pr = expected_head_sha) (blocked (''PR head moved (expected '' @ take 7 expected_head_sha @ '')'')))"

definition merged_at :: "pull \<Rightarrow> int \<Rightarrow> bool \<Rightarrow> pydict" where
  "merged_at pr n already =
     [(''merged'', PBool True), (''already_merged'', PBool already), (''number'', PInt n), (''url'', PStr (pu_url pr))]"

text \<open>The checks before the merge call: an early answer, or the pull request to merge.\<close>

definition merge_gates_at_sha ::
  "github \<Rightarrow> int \<Rightarrow> string \<Rightarrow> string list \<Rightarrow> string \<Rightarrow> (pr_error, pydict + pull) res" where
  "merge_gates_at_sha gh n expected_head_sha required_checks required_base =
     rbind (require (required_checks \<noteq> []) (blocked NO_REQUIRED_CHECKS)) (\<lambda>_.
     rbind (fetch_pull gh n) (\<lambda>pr.
     rbind (assert_base_and_head pr n expected_head_sha required_base) (\<lambda>_.
     if pu_merged pr then Inr (Inl (merged_at pr n True))
     else rbind (require (pu_state pr = ''open'') (blocked (pr_text n @ '' is '' @ quoted_str (pu_state pr) @ '', not open''))) (\<lambda>_.
     rbind (require (\<not> pu_draft pr) (blocked (pr_text n @ '' is a draft''))) (\<lambda>_.
     rbind (computed_mergeability gh n pr) (\<lambda>pr.
     rbind (assert_base_and_head pr n expected_head_sha required_base) (\<lambda>_.
     if pu_merged pr then Inr (Inl (merged_at pr n True))
     else rbind (assert_mergeable n pr) (\<lambda>_.
     rbind (assert_required_checks_green gh expected_head_sha required_checks) (\<lambda>_.
     Inr (Inr pr))))))))))"

definition merge_pr_at_sha ::
  "github \<Rightarrow> int \<Rightarrow> string \<Rightarrow> string list \<Rightarrow> string \<Rightarrow> bool \<Rightarrow> string \<Rightarrow> gh_write list \<times> (pr_error, pydict) res" where
  "merge_pr_at_sha gh n expected_head_sha required_checks merge_method dry_run required_base =
     (if dry_run then ([], Inr [(''dry_run'', PBool True), (''number'', PInt n), (''would_merge'', PBool True)])
      else case merge_gates_at_sha gh n expected_head_sha required_checks required_base of
        Inl e \<Rightarrow> ([], Inl e)
      | Inr (Inl d) \<Rightarrow> ([], Inr d)
      | Inr (Inr pr) \<Rightarrow>
          (case merge_call gh n merge_method expected_head_sha (''Merged by DriftScribe IaC apply ('' @ merge_method @ '').'') of
             (ws, r) \<Rightarrow> (ws, rbind r (\<lambda>_. Inr (merged_at pr n False)))))"

definition get_pr_head_sha :: "github \<Rightarrow> (string, string) res" where
  "get_pr_head_sha gh = rbind (gh_pull gh 0) (\<lambda>pr. Inr (pu_head_sha pr))"

definition is_pr_merged_at_head :: "github \<Rightarrow> string \<Rightarrow> (string, bool) res" where
  "is_pr_merged_at_head gh head_sha = rbind (gh_pull gh 0) (\<lambda>pr. Inr (pu_merged pr \<and> pu_head_sha pr = head_sha))"

definition get_pr_body :: "string option \<Rightarrow> nat \<Rightarrow> pydict" where
  "get_pr_body body max_chars =
     (case body of
        Some (c # s) \<Rightarrow>
          if max_chars < length (c # s) then [(''body'', PStr (take max_chars (c # s))), (''truncated'', PBool True)]
          else [(''body'', PStr (c # s)), (''truncated'', PBool False)]
      | _ \<Rightarrow> [(''body'', PNone), (''truncated'', PBool False)])"

definition fresh_apply_blocker :: "github \<Rightarrow> string \<Rightarrow> string \<Rightarrow> (string, string option) res" where
  "fresh_apply_blocker gh expected_head_sha required_base =
     rbind (gh_pull gh 0) (\<lambda>pr.
     Inr (if pu_merged pr then Some ''merged''
          else if pu_state pr \<noteq> ''open'' then Some ''closed''
          else if pu_draft pr then Some ''draft''
          else if pu_base_ref pr \<noteq> required_base then Some ''base_moved''
          else if pu_head_sha pr \<noteq> expected_head_sha then Some ''head_moved''
          else None))"

section \<open>The upgrade worker's close and merge handlers\<close>

record upgrade_config =
  uc_target_repo :: string
  uc_merge_method :: string
  uc_required_checks :: "string list"

text \<open>The request bodies as the schemas validated them: the number is positive, the reason has at most 1000
  characters and at least one.\<close>

record close_request =
  cq_target_repo :: string
  cq_pr_number :: int
  cq_reason :: string

record merge_request =
  mq_target_repo :: string
  mq_pr_number :: int

fun pr_outcome :: "(pr_error, pydict) res \<Rightarrow> outcome" where
  "pr_outcome (Inr d) = Ok d"
| "pr_outcome (Inl (PrNotEligibleError m code)) = HTTPException code m"
| "pr_outcome (Inl (PrMergeBlockedError m permanent)) = HTTPException 409 m"
| "pr_outcome (Inl (GhRaises e)) = Unhandled e"

definition close_handler :: "upgrade_config \<Rightarrow> github \<Rightarrow> close_request \<Rightarrow> gh_write list \<times> outcome" where
  "close_handler cfg gh req =
     (if cq_target_repo req \<noteq> uc_target_repo cfg then ([], HTTPException 403 ''target_repo does not match deployed allowlist'')
      else if strip (cq_reason req) = [] then ([], HTTPException 422 ''reason must not be blank'')
      else (case close_pr gh (cq_pr_number req) (cq_reason req) False (Some ''driftscribe'') (Some ALLOWED_BRANCH_PREFIX) (Some ALLOWED_BASE) of
        (ws, r) \<Rightarrow> (ws, pr_outcome r)))"

definition merge_handler :: "upgrade_config \<Rightarrow> github \<Rightarrow> merge_request \<Rightarrow> gh_write list \<times> outcome" where
  "merge_handler cfg gh req =
     (if mq_target_repo req \<noteq> uc_target_repo cfg then ([], HTTPException 403 ''target_repo does not match deployed allowlist'')
      else (case merge_pr gh (mq_pr_number req) False (uc_merge_method cfg) (uc_required_checks cfg) (Some ''driftscribe'')
                  (Some ALLOWED_BRANCH_PREFIX) (Some ALLOWED_BASE) of
        (ws, r) \<Rightarrow> (ws, pr_outcome r)))"

section \<open>The latest run of a check\<close>

text \<open>The last of the runs of that name with the greatest key.\<close>

definition newest :: "check_run list \<Rightarrow> string \<Rightarrow> check_run \<Rightarrow> bool" where
  "newest crs name cr \<longleftrightarrow>
     (\<exists>pre post. crs = pre @ cr # post \<and> cr_name cr = name \<and>
        (\<forall>x \<in> set pre. cr_name x = name \<longrightarrow> key_le (check_run_order_key x) (check_run_order_key cr)) \<and>
        (\<forall>x \<in> set post. cr_name x = name \<longrightarrow> \<not> key_le (check_run_order_key cr) (check_run_order_key x)))"

definition passed :: "check_run list \<Rightarrow> string \<Rightarrow> bool" where
  "passed crs name \<longleftrightarrow> (\<exists>cr. newest crs name cr \<and> cr_status cr = ''completed'' \<and> cr_conclusion cr = Some ''success'')"

lemma key_le_total: "\<not> key_le a b \<Longrightarrow> key_le b a"
  by (cases a; cases b) auto

lemma key_le_trans: "key_le a b \<Longrightarrow> key_le b c \<Longrightarrow> key_le a c"
  by (cases a; cases b; cases c) auto

lemma latest_from_snoc: "latest_from m (crs @ [cr]) =
    (let m' = latest_from m crs in if newer_run cr (m' (cr_name cr)) then m'(cr_name cr \<mapsto> cr) else m')"
  by (induction crs arbitrary: m) (simp_all add: Let_def)

lemma newest_snoc_other: "newest crs name cr \<Longrightarrow> cr_name x \<noteq> name \<or> \<not> key_le (check_run_order_key cr) (check_run_order_key x) \<Longrightarrow>
    newest (crs @ [x]) name cr"
  unfolding newest_def by (elim exE conjE, rule_tac x = pre in exI, rule_tac x = "post @ [x]" in exI) auto

lemma newest_bound: "newest crs name cr \<Longrightarrow> x \<in> set crs \<Longrightarrow> cr_name x = name \<Longrightarrow>
    key_le (check_run_order_key x) (check_run_order_key cr)"
  unfolding newest_def
proof (elim exE conjE)
  fix pre post
  assume h: "x \<in> set crs" "cr_name x = name" "crs = pre @ cr # post"
    "\<forall>x \<in> set pre. cr_name x = name \<longrightarrow> key_le (check_run_order_key x) (check_run_order_key cr)"
    "\<forall>x \<in> set post. cr_name x = name \<longrightarrow> \<not> key_le (check_run_order_key cr) (check_run_order_key x)"
  then have "x \<in> set pre \<or> x = cr \<or> x \<in> set post" by auto
  with h(2,4,5) show "key_le (check_run_order_key x) (check_run_order_key cr)"
    using key_le_total [of "check_run_order_key cr" "check_run_order_key x"] key_le_total [of "check_run_order_key cr" "check_run_order_key cr"]
    by blast
qed

lemma latest_check_runs_newest:
  "(latest_check_runs crs name = None \<longrightarrow> (\<forall>x \<in> set crs. cr_name x \<noteq> name)) \<and>
   (\<forall>cr. latest_check_runs crs name = Some cr \<longrightarrow> newest crs name cr)"
proof (induction crs rule: rev_induct)
  case Nil
  then show ?case by (simp add: latest_check_runs_def)
next
  case (snoc x crs)
  let ?m = "latest_check_runs crs"
  have step: "latest_check_runs (crs @ [x]) = (if newer_run x (?m (cr_name x)) then ?m(cr_name x \<mapsto> x) else ?m)"
    by (simp add: latest_check_runs_def latest_from_snoc Let_def)
  show ?case
  proof (cases "cr_name x = name")
    case False
    with step have "latest_check_runs (crs @ [x]) name = ?m name" by simp
    with snoc False newest_snoc_other show ?thesis by auto
  next
    case True
    show ?thesis
    proof (cases "newer_run x (?m name)")
      case newer: True
      have "key_le (check_run_order_key y) (check_run_order_key x)" if y: "y \<in> set crs" "cr_name y = name" for y
      proof (cases "?m name")
        case None
        with snoc y show ?thesis by blast
      next
        case (Some p)
        with snoc have "newest crs name p" by blast
        from newest_bound [OF this y] newer Some show ?thesis by (auto simp: newer_run_def intro: key_le_trans)
      qed
      then have "newest (crs @ [x]) name x"
        unfolding newest_def using True by (intro exI [of _ crs] exI [of _ "[]"]) simp
      with step newer True show ?thesis by simp
    next
      case False
      then obtain p where p: "?m name = Some p" "\<not> key_le (check_run_order_key p) (check_run_order_key x)"
        by (auto simp: newer_run_def split: option.splits)
      with snoc newest_snoc_other have "newest (crs @ [x]) name p" by blast
      with step False True p show ?thesis by simp
    qed
  qed
qed

lemma green_passed:
  "assert_required_checks_green gh sha required = Inr u \<Longrightarrow>
     \<exists>crs. gh_check_runs gh sha = Inr crs \<and> (\<forall>name \<in> set required. passed crs name)"
proof -
  assume a: "assert_required_checks_green gh sha required = Inr u"
  then obtain crs where crs: "gh_check_runs gh sha = Inr crs"
    by (auto simp: assert_required_checks_green_def split: sum.splits)
  with a have "traverse (check_green (latest_check_runs crs) sha) (sort (remdups required)) \<noteq> Inl e" for e
    by (auto simp: assert_required_checks_green_def)
  then have "returns (traverse (check_green (latest_check_runs crs) sha) (sort (remdups required)))"
    by (metis returns_iff sum.exhaust)
  then have "\<forall>name \<in> set required. returns (check_green (latest_check_runs crs) sha name)" by (simp add: returns_traverse)
  then have "\<forall>name \<in> set required. passed crs name"
    using latest_check_runs_newest [of crs]
    by (fastforce simp: check_green_def passed_def returns_iff split: option.splits if_splits)
  with crs show ?thesis by blast
qed

section \<open>Merges\<close>

definition mergeable_now :: "pull \<Rightarrow> bool" where
  "mergeable_now pr \<longleftrightarrow> \<not> pu_merged pr \<and> pu_mergeable pr = Some True \<and> pu_mergeable_state pr \<in> {''clean'', ''unstable''}"

lemma poll_reads: "poll_mergeability rs pr = Inr p \<Longrightarrow> p = pr \<or> (\<exists>r \<in> set rs. r = Inr p)"
  by (induction rs pr rule: poll_mergeability.induct) (auto split: if_splits sum.splits)

lemma computed_reads:
  "computed_mergeability gh n pr = Inr p \<Longrightarrow> p = pr \<or> (\<exists>k \<le> 3. gh_pull gh k = Inr p)"
proof -
  assume "computed_mergeability gh n pr = Inr p"
  then have "poll_mergeability (map (gh_pull gh) [1..<Suc MERGEABILITY_RETRIES]) pr = Inr p"
    unfolding computed_mergeability_def rbind_Inr_iff require_iff by blast
  from poll_reads [OF this] show ?thesis
  proof
    assume "\<exists>r \<in> set (map (gh_pull gh) [1..<Suc MERGEABILITY_RETRIES]). r = Inr p"
    then obtain k where "k < Suc MERGEABILITY_RETRIES" "gh_pull gh k = Inr p"
      unfolding set_map image_iff bex_simps set_upt using atLeastLessThan_iff by blast
    then show ?thesis unfolding MERGEABILITY_RETRIES_def by (intro disjI2 exI [of _ k]) simp
  qed simp
qed

lemma fetch_pull_Inr: "fetch_pull gh n = Inr p \<longleftrightarrow> gh_pull gh 0 = Inr p"
  by (auto simp: fetch_pull_def split: sum.splits)

lemma eligible_Inr: "assert_pr_eligible pr (Some l) (Some p) (Some b) = Inr u \<longleftrightarrow>
    l \<in> set (pu_labels pr) \<and> starts_with p (pu_head_ref pr) \<and> pu_base_ref pr = b"
  by (auto simp: assert_pr_eligible_def result_simps)

lemma preconditions_Inr: "assert_merge_preconditions pr n l p b = Inr None \<longleftrightarrow>
    assert_pr_eligible pr l p b = Inr () \<and> \<not> pu_merged pr \<and> pu_state pr \<noteq> ''closed'' \<and> \<not> pu_draft pr"
  by (auto simp: assert_merge_preconditions_def result_simps split: if_splits)

lemma mergeable_Inr: "assert_mergeable n pr = Inr u \<longleftrightarrow>
    pu_mergeable pr = Some True \<and> pu_mergeable_state pr \<in> {''clean'', ''unstable''}"
  by (auto simp: assert_mergeable_def Let_def MERGE_ALLOWED_STATES_def result_simps)

lemma merge_call_writes:
  "merge_call gh n way sha remark = (ws, r) \<Longrightarrow>
     ws = [MergePull n way sha] \<or> (ws = [MergePull n way sha, CommentOn n remark] \<and> (\<exists>m s. gh_merge gh = Merged True m s))"
  by (cases "gh_merge gh") (auto simp: merge_call_def split: if_splits bool.splits merge_answer.splits)

lemma merge_pr_writes:
  assumes "merge_pr gh n False way checks (Some l) (Some p) (Some b) = (ws, r)" and "ws \<noteq> []"
  shows "\<exists>pr k crs rest. k \<le> 3 \<and> gh_pull gh k = Inr pr \<and> ws = MergePull n way (pu_head_sha pr) # rest \<and>
    (rest = [] \<or> (\<exists>t m s. rest = [CommentOn n t] \<and> gh_merge gh = Merged True m s)) \<and>
    l \<in> set (pu_labels pr) \<and> starts_with p (pu_head_ref pr) \<and> pu_base_ref pr = b \<and> pu_state pr \<noteq> ''closed'' \<and> \<not> pu_draft pr \<and>
    mergeable_now pr \<and> checks \<noteq> [] \<and> gh_check_runs gh (pu_head_sha pr) = Inr crs \<and> (\<forall>name \<in> set checks. passed crs name)"
proof -
  let ?remark = "''Merged by DriftScribe ('' @ way @ '').''"
  from assms obtain pr0 pr where g: "fetch_pull gh n = Inr pr0" "checks \<noteq> []" "computed_mergeability gh n pr0 = Inr pr"
      "assert_merge_preconditions pr n (Some l) (Some p) (Some b) = Inr None" "assert_mergeable n pr = Inr ()"
      "assert_required_checks_green gh (pu_head_sha pr) checks = Inr ()"
    and w: "ws = fst (merge_call gh n way (pu_head_sha pr) ?remark)"
    by (auto simp: merge_pr_def rbind_Inr_iff require_iff split: sum.splits option.splits prod.splits)
  from computed_reads [OF g(3)] g(1) obtain k where "k \<le> 3" "gh_pull gh k = Inr pr" by (auto simp: fetch_pull_Inr)
  moreover from green_passed [OF g(6)] obtain crs where
    "gh_check_runs gh (pu_head_sha pr) = Inr crs" "\<forall>name \<in> set checks. passed crs name" by blast
  moreover from w merge_call_writes [of gh n way "pu_head_sha pr" ?remark ws] obtain rest where
    "ws = MergePull n way (pu_head_sha pr) # rest" "rest = [] \<or> (\<exists>t m s. rest = [CommentOn n t] \<and> gh_merge gh = Merged True m s)"
    by (metis prod.collapse)
  ultimately show ?thesis using g(2,4,5) unfolding preconditions_Inr eligible_Inr mergeable_Inr
    by (intro exI [of _ pr] exI [of _ k] exI [of _ crs] exI [of _ rest] conjI) (simp_all add: mergeable_now_def)
qed

lemma merge_at_sha_writes:
  assumes "merge_pr_at_sha gh n sha checks way dry b = (ws, r)" and "ws \<noteq> []"
  shows "\<exists>pr k crs rest. k \<le> 3 \<and> gh_pull gh k = Inr pr \<and> ws = MergePull n way sha # rest \<and>
    (rest = [] \<or> (\<exists>t m s. rest = [CommentOn n t] \<and> gh_merge gh = Merged True m s)) \<and> \<not> dry \<and>
    pu_head_sha pr = sha \<and> pu_base_ref pr = b \<and> mergeable_now pr \<and> checks \<noteq> [] \<and>
    gh_check_runs gh sha = Inr crs \<and> (\<forall>name \<in> set checks. passed crs name)"
proof -
  let ?remark = "''Merged by DriftScribe IaC apply ('' @ way @ '').''"
  from assms have dry: "\<not> dry" by (auto simp: merge_pr_at_sha_def)
  with assms obtain pr where g: "merge_gates_at_sha gh n sha checks b = Inr (Inr pr)"
    and w: "ws = fst (merge_call gh n way sha ?remark)"
    by (auto simp: merge_pr_at_sha_def split: sum.splits prod.splits)
  from g obtain pr0 where h: "checks \<noteq> []" "fetch_pull gh n = Inr pr0" "computed_mergeability gh n pr0 = Inr pr"
      "assert_base_and_head pr n sha b = Inr ()" "\<not> pu_merged pr" "assert_mergeable n pr = Inr ()"
      "assert_required_checks_green gh sha checks = Inr ()"
    by (auto simp: merge_gates_at_sha_def rbind_Inr_iff require_iff split: if_splits)
  from computed_reads [OF h(3)] h(2) obtain k where "k \<le> 3" "gh_pull gh k = Inr pr" by (auto simp: fetch_pull_Inr)
  moreover from green_passed [OF h(7)] obtain crs where "gh_check_runs gh sha = Inr crs" "\<forall>name \<in> set checks. passed crs name" by blast
  moreover from w merge_call_writes [of gh n way sha ?remark ws] obtain rest where
    "ws = MergePull n way sha # rest" "rest = [] \<or> (\<exists>t m s. rest = [CommentOn n t] \<and> gh_merge gh = Merged True m s)"
    by (metis prod.collapse)
  moreover from h(4) have "pu_base_ref pr = b" "pu_head_sha pr = sha" unfolding assert_base_and_head_def rbind_Inr_iff require_iff by blast+
  ultimately show ?thesis using h(1,5,6) dry unfolding mergeable_Inr
    by (intro exI [of _ pr] exI [of _ k] exI [of _ crs] exI [of _ rest] conjI) (simp_all add: mergeable_now_def)
qed

text \<open>C35: The upgrade worker merges only what CI passed: any write \<open>/merge\<close> makes begins with one merge call, for
  the deployed repository, by the deployed method, at the head of a pull request that GitHub reported as
  labelled, on an upgrade branch, onto main, open, not a draft, mergeable and not protected; and on that very
  head every required check's latest run has completed with success.  A comment follows only a merge that
  GitHub confirmed.\<close>

theorem upgrade_merge_verified:
  assumes "merge_handler cfg gh req = (ws, r)" and "ws \<noteq> []"
  shows "\<exists>pr k crs rest. k \<le> 3 \<and> gh_pull gh k = Inr pr \<and> mq_target_repo req = uc_target_repo cfg \<and>
    ws = MergePull (mq_pr_number req) (uc_merge_method cfg) (pu_head_sha pr) # rest \<and>
    (rest = [] \<or> (\<exists>t m s. rest = [CommentOn (mq_pr_number req) t] \<and> gh_merge gh = Merged True m s)) \<and>
    ''driftscribe'' \<in> set (pu_labels pr) \<and> starts_with ''upgrade/'' (pu_head_ref pr) \<and> pu_base_ref pr = ''main'' \<and>
    pu_state pr \<noteq> ''closed'' \<and> \<not> pu_draft pr \<and> mergeable_now pr \<and> uc_required_checks cfg \<noteq> [] \<and>
    gh_check_runs gh (pu_head_sha pr) = Inr crs \<and> (\<forall>name \<in> set (uc_required_checks cfg). passed crs name)"
proof -
  from assms have t: "mq_target_repo req = uc_target_repo cfg" by (auto simp: merge_handler_def split: if_splits)
  with assms obtain r' where m: "merge_pr gh (mq_pr_number req) False (uc_merge_method cfg) (uc_required_checks cfg) (Some ''driftscribe'')
      (Some ''upgrade/'') (Some ''main'') = (ws, r')"
    by (auto simp: merge_handler_def ALLOWED_BRANCH_PREFIX_def ALLOWED_BASE_def split: prod.splits)
  from merge_pr_writes [OF m assms(2)] t show ?thesis by blast
qed

text \<open>C30: The page's blocker and the readiness gate agree: a pull request is ready for a fresh apply of a head exactly
  when the one-read blocker of the approval page reports nothing, required checks are configured, and they
  are green on that head.  So a button is hidden only where the POST would be refused.\<close>

theorem ready_iff_no_blocker:
  "assert_pr_ready_at_sha gh n sha checks base = Inr x \<longleftrightarrow>
     x = sha \<and> checks \<noteq> [] \<and> fresh_apply_blocker gh sha base = Inr None \<and> assert_required_checks_green gh sha checks = Inr ()"
proof (cases "gh_pull gh 0")
  case (Inl e)
  then have "fetch_pull gh n \<noteq> Inr p" for p by (simp add: fetch_pull_Inr)
  then have "assert_pr_ready_at_sha gh n sha checks base \<noteq> Inr x"
    unfolding assert_pr_ready_at_sha_def rbind_Inr_iff require_iff by blast
  moreover from Inl have "fresh_apply_blocker gh sha base \<noteq> Inr None" by (simp add: fresh_apply_blocker_def)
  ultimately show ?thesis by blast
next
  case (Inr pr)
  then have "fresh_apply_blocker gh sha base = Inr None \<longleftrightarrow>
      pu_base_ref pr = base \<and> \<not> pu_merged pr \<and> pu_state pr = ''open'' \<and> \<not> pu_draft pr \<and> pu_head_sha pr = sha"
    by (auto simp: fresh_apply_blocker_def)
  moreover have "assert_pr_ready_at_sha gh n sha checks base = Inr x \<longleftrightarrow>
      checks \<noteq> [] \<and> (pu_base_ref pr = base \<and> \<not> pu_merged pr \<and> pu_state pr = ''open'' \<and> \<not> pu_draft pr \<and> pu_head_sha pr = sha) \<and>
      assert_required_checks_green gh sha checks = Inr () \<and> x = sha"
    using Inr unfolding assert_pr_ready_at_sha_def rbind_Inr_iff require_iff fetch_pull_Inr by auto
  ultimately show ?thesis by blast
qed

definition demo_pull :: pull where
  "demo_pull = \<lparr>pu_number = 7, pu_url = ''u'', pu_labels = [''driftscribe''], pu_head_ref = ''upgrade/lodash'', pu_head_sha = ''abc'',
     pu_base_ref = ''main'', pu_state = ''open'', pu_merged = False, pu_draft = False, pu_mergeable = Some True,
     pu_mergeable_state = ''clean''\<rparr>"

definition demo_github :: github where
  "demo_github = \<lparr>gh_pull = (\<lambda>k. Inr (if k = 0 then demo_pull\<lparr>pu_mergeable := None\<rparr> else demo_pull)),
     gh_check_runs = (\<lambda>_. Inr [\<lparr>cr_name = ''lint-test'', cr_status = ''completed'', cr_conclusion = Some ''failure'',
                                cr_started_at = Some 1, cr_completed_at = Some 2\<rparr>,
                              \<lparr>cr_name = ''lint-test'', cr_status = ''completed'', cr_conclusion = Some ''success'',
                                cr_started_at = Some 3, cr_completed_at = Some 4\<rparr>]),
     gh_merge = Merged True None ''def'', gh_edit = Inr (), gh_comment = Done\<rparr>"

definition demo_upgrade_config :: upgrade_config where
  "demo_upgrade_config = \<lparr>uc_target_repo = ''o/r'', uc_merge_method = ''squash'', uc_required_checks = [''lint-test'']\<rparr>"

theorem upgrade_merge_verified_witness:
  "\<exists>rest. fst (merge_handler demo_upgrade_config demo_github \<lparr>mq_target_repo = ''o/r'', mq_pr_number = 7\<rparr>) = MergePull 7 ''squash'' ''abc'' # rest"
proof -
  let ?h = "merge_handler demo_upgrade_config demo_github \<lparr>mq_target_repo = ''o/r'', mq_pr_number = 7\<rparr>"
  have "fst ?h = [MergePull 7 ''squash'' ''abc'', CommentOn 7 ''Merged by DriftScribe (squash).'']" by code_simp
  then obtain ws r where h: "?h = (ws, r)" "ws \<noteq> []" "ws = [MergePull 7 ''squash'' ''abc'', CommentOn 7 ''Merged by DriftScribe (squash).'']"
    by (cases ?h) auto
  from upgrade_merge_verified [OF h(1,2)] show ?thesis using h by auto
qed

end
