(* ===== verification/IacCsrf.thy ===== *)
theory IacCsrf
  imports TofuGates
begin

text \<open>
  The form token of the plan approval page (\<open>agent/iac_csrf.py\<close>): minted when the page is shown, checked when the
  form is posted.  It names the plan the operator saw.  HMAC-SHA256 is a parameter on bytes; times are in
  microseconds.
\<close>

section \<open>Base64, URL-safe and without padding\<close>

definition b64_char :: "nat \<Rightarrow> char" where
  "b64_char v =
     (if v < 26 then char_of (65 + v) else if v < 52 then char_of (71 + v) else if v < 62 then char_of (v - 4)
      else if v = 62 then CHR ''-'' else CHR ''_'')"

fun b64url_nopad :: "string \<Rightarrow> string" where
  "b64url_nopad [] = []"
| "b64url_nopad [a] = (let x = (of_char a :: nat) in [b64_char (x div 4), b64_char (x mod 4 * 16)])"
| "b64url_nopad [a, b] =
     (let x = (of_char a :: nat); y = (of_char b :: nat) in
      [b64_char (x div 4), b64_char (x mod 4 * 16 + y div 16), b64_char (y mod 16 * 4)])"
| "b64url_nopad (a # b # c # s) =
     (let x = (of_char a :: nat); y = (of_char b :: nat); z = (of_char c :: nat) in
      b64_char (x div 4) # b64_char (x mod 4 * 16 + y div 16) # b64_char (y mod 16 * 4 + z div 64) # b64_char (z mod 64) #
      b64url_nopad s)"

text \<open>The decoder's table after the translation of the two URL-safe characters.\<close>

definition b64_value :: "char \<Rightarrow> nat option" where
  "b64_value ch =
     (let n = (of_char ch :: nat) in
      if 65 \<le> n \<and> n \<le> 90 then Some (n - 65) else if 97 \<le> n \<and> n \<le> 122 then Some (n - 71)
      else if 48 \<le> n \<and> n \<le> 57 then Some (n + 4) else if n = 45 \<or> n = 43 then Some 62
      else if n = 95 \<or> n = 47 then Some 63 else None)"

text \<open>\<open>binascii.a2b_base64\<close>, not strict: characters outside the table are skipped, enough padding ends the
  input, and an unfinished group is an error.  The state is the place in the group of four, the padding
  characters in a row, and the bits left over.\<close>

fun a2b_base64 :: "nat \<Rightarrow> nat \<Rightarrow> nat \<Rightarrow> string \<Rightarrow> string option" where
  "a2b_base64 quad pads left [] = (if quad = 0 then Some [] else None)"
| "a2b_base64 quad pads left (ch # s) =
     (if ch = CHR ''='' then
        (if 2 \<le> quad then if 4 \<le> quad + Suc pads then Some [] else a2b_base64 quad (Suc pads) left s
         else a2b_base64 quad pads left s)
      else case b64_value ch of
        None \<Rightarrow> a2b_base64 quad pads left s
      | Some v \<Rightarrow>
          if quad = 0 then a2b_base64 1 0 v s
          else if quad = 1 then map_option (Cons (char_of (left * 4 + v div 16))) (a2b_base64 2 0 (v mod 16) s)
          else if quad = 2 then map_option (Cons (char_of (left * 16 + v div 4))) (a2b_base64 3 0 (v mod 4) s)
          else map_option (Cons (char_of (left * 64 + v))) (a2b_base64 0 0 0 s))"

text \<open>The padding is restored first; a text that is not ASCII is an error.\<close>

definition b64url_decode :: "string \<Rightarrow> string option" where
  "b64url_decode t =
     (if is_ascii t then a2b_base64 0 0 0 (t @ replicate (nat (- int (length t) mod 4)) (CHR ''='')) else None)"

section \<open>The token\<close>

definition KEY_TAG :: string where "KEY_TAG = ''iac-csrf-key''"
definition DEFAULT_TTL_SECONDS :: nat where "DEFAULT_TTL_SECONDS = 1800"

definition PAYLOAD_KEYS :: "string list" where
  "PAYLOAD_KEYS =
     [''pr'', ''head_sha'', ''artifact_uri_metadata'', ''generation_metadata'', ''plan_sha256'', ''plan_json_sha256'',
      ''comment_id'', ''generation_iac_tree'', ''iac_tree_hash'', ''exp'']"

definition STR_FIELDS :: "string list" where
  "STR_FIELDS =
     [''head_sha'', ''artifact_uri_metadata'', ''generation_metadata'', ''plan_sha256'', ''plan_json_sha256'',
      ''generation_iac_tree'', ''iac_tree_hash'']"

fun is_int :: "pyval \<Rightarrow> bool" where
  "is_int (PInt _) = True"
| "is_int _ = False"

definition payload_well_formed :: "pydict \<Rightarrow> bool" where
  "payload_well_formed p \<longleftrightarrow>
     set (dkeys p) = set PAYLOAD_KEYS \<and> is_int (dget p ''pr'') \<and> is_int (dget p ''exp'') \<and>
     (dget p ''comment_id'' = PNone \<or> is_int (dget p ''comment_id'')) \<and> list_all (\<lambda>k. is_str (dget p k)) STR_FIELDS"

datatype csrf_error = IacCsrfError | CsrfTypeError

definition derive_key :: "(string \<Rightarrow> string \<Rightarrow> string) \<Rightarrow> string \<Rightarrow> (csrf_error, string) res" where
  "derive_key hmac secret = (if secret = [] then Inl IacCsrfError else Inr (hmac (utf8 secret) KEY_TAG))"

record plan_pin =
  pin_pr :: int
  pin_head_sha :: string
  pin_artifact_uri_metadata :: string
  pin_generation_metadata :: string
  pin_plan_sha256 :: string
  pin_plan_json_sha256 :: string
  pin_comment_id :: "int option"
  pin_generation_iac_tree :: string
  pin_iac_tree_hash :: string

definition pin_payload :: "plan_pin \<Rightarrow> int \<Rightarrow> pydict" where
  "pin_payload p expires =
     [(''pr'', PInt (pin_pr p)), (''head_sha'', PStr (pin_head_sha p)),
      (''artifact_uri_metadata'', PStr (pin_artifact_uri_metadata p)),
      (''generation_metadata'', PStr (pin_generation_metadata p)), (''plan_sha256'', PStr (pin_plan_sha256 p)),
      (''plan_json_sha256'', PStr (pin_plan_json_sha256 p)),
      (''comment_id'', case pin_comment_id p of None \<Rightarrow> PNone | Some c \<Rightarrow> PInt c),
      (''generation_iac_tree'', PStr (pin_generation_iac_tree p)), (''iac_tree_hash'', PStr (pin_iac_tree_hash p)),
      (''exp'', PInt expires)]"

text \<open>\<open>json.dumps\<close> with sorted keys and no blanks; its text is ASCII, so its bytes are its characters.\<close>

definition canonical_json :: "pydict \<Rightarrow> string" where
  "canonical_json p = emit (canon (PDict p))"

definition mint_form_token ::
  "(string \<Rightarrow> string \<Rightarrow> string) \<Rightarrow> string \<Rightarrow> plan_pin \<Rightarrow> nat \<Rightarrow> instant \<Rightarrow> (csrf_error, string) res" where
  "mint_form_token hmac secret p ttl_seconds now =
     rbind (derive_key hmac secret) (\<lambda>key.
     let canonical = canonical_json (pin_payload p (int (now div 1000000) + int ttl_seconds)) in
     Inr (b64url_nopad canonical @ ''.'' @ hexenc (hmac key canonical)))"

definition partition_dot :: "string \<Rightarrow> string \<times> string" where
  "partition_dot t = (takeWhile (\<lambda>c. c \<noteq> CHR ''.'') t, drop 1 (dropWhile (\<lambda>c. c \<noteq> CHR ''.'') t))"

definition checked_payload :: "pyval option \<Rightarrow> int \<Rightarrow> instant \<Rightarrow> pydict option" where
  "checked_payload parsed pr now =
     (case parsed of
        Some (PDict p) \<Rightarrow>
          if payload_well_formed p \<and> dget p ''pr'' = PInt pr \<and>
             (case dget p ''exp'' of PInt e \<Rightarrow> int now < e * 1000000 | _ \<Rightarrow> False)
          then Some p else None
      | _ \<Rightarrow> None)"

definition verify_form_token ::
  "(string \<Rightarrow> string \<Rightarrow> string) \<Rightarrow> string \<Rightarrow> string \<Rightarrow> int \<Rightarrow> instant \<Rightarrow> (csrf_error, pydict option) res" where
  "verify_form_token hmac secret token pr now =
     rbind (derive_key hmac secret) (\<lambda>key.
     let (payload_b64, sig_hex) = partition_dot token in
     if payload_b64 = [] \<or> sig_hex = [] then Inr None
     else case b64url_decode payload_b64 of
       None \<Rightarrow> Inr None
     | Some canonical \<Rightarrow>
         if \<not> is_ascii sig_hex then Inl CsrfTypeError
         else if hexenc (hmac key canonical) \<noteq> sig_hex then Inr None
         else Inr (checked_payload (Option.bind (utf8_decode canonical) json_loads) pr now))"

section \<open>Decoding what was encoded\<close>

lemma b64_table:
  assumes "v < 64"
  shows "b64_value (b64_char v) = Some v \<and> b64_char v \<noteq> CHR ''='' \<and> b64_char v \<noteq> CHR ''.'' \<and> (of_char (b64_char v) :: nat) < 128"
proof -
  from assms consider "v < 26" | "26 \<le> v" "v < 52" | "52 \<le> v" "v < 62" | "v = 62" | "v = 63" by linarith
  then show ?thesis by cases (simp_all add: b64_char_def b64_value_def Let_def char_by_code, linarith)
qed

lemma byte_bounds: "(of_char (c :: char) :: nat) div 4 < 64" "(of_char c :: nat) div 16 < 16" "(of_char c :: nat) div 64 < 4"
  by (simp_all add: less_mult_imp_div_less)

lemma join_bits:
  "b < 16 \<Longrightarrow> (a * 16 + b) div 16 = (a :: nat)" "b < 16 \<Longrightarrow> (a * 16 + b) mod 16 = b"
  "d < 4 \<Longrightarrow> (c * 4 + d) div 4 = (c :: nat)" "d < 4 \<Longrightarrow> (c * 4 + d) mod 4 = d"
  by simp_all

lemma a2b_char:
  assumes "v < 64"
  shows "a2b_base64 0 pads left (b64_char v # s) = a2b_base64 (Suc 0) 0 v s"
    "a2b_base64 (Suc 0) pads left (b64_char v # s) = map_option (Cons (char_of (left * 4 + v div 16))) (a2b_base64 2 0 (v mod 16) s)"
    "a2b_base64 2 pads left (b64_char v # s) = map_option (Cons (char_of (left * 16 + v div 4))) (a2b_base64 3 0 (v mod 4) s)"
    "a2b_base64 3 pads left (b64_char v # s) = map_option (Cons (char_of (left * 64 + v))) (a2b_base64 0 0 0 s)"
  using b64_table [OF assms] by simp_all

lemma sextets:
  "(of_char (a :: char) :: nat) div 4 < 64" "(of_char a :: nat) mod 4 * 16 < 64" "(of_char a :: nat) mod 16 * 4 < 64" "(of_char a :: nat) mod 64 < 64"
  "(of_char a :: nat) mod 4 * 16 + (of_char (b :: char) :: nat) div 16 < 64" "(of_char a :: nat) mod 16 * 4 + (of_char b :: nat) div 64 < 64"
proof -
  show "(of_char a :: nat) div 4 < 64" by (rule byte_bounds)
  show "(of_char a :: nat) mod 4 * 16 < 64" "(of_char a :: nat) mod 16 * 4 < 64" "(of_char a :: nat) mod 64 < 64"
    using mod_less_divisor [of 4 "of_char a :: nat"] mod_less_divisor [of 16 "of_char a :: nat"] by simp_all
  show "(of_char a :: nat) mod 4 * 16 + (of_char b :: nat) div 16 < 64"
    using mod_less_divisor [of 4 "of_char a :: nat"] byte_bounds(2) [of b] by linarith
  show "(of_char a :: nat) mod 16 * 4 + (of_char b :: nat) div 64 < 64"
    using mod_less_divisor [of 16 "of_char a :: nat"] byte_bounds(3) [of b] by linarith
qed

declare a2b_base64.simps [simp del]

lemma a2b_end: "a2b_base64 0 pads left [] = Some []" "a2b_base64 2 0 left [CHR ''='', CHR ''=''] = Some []" "a2b_base64 3 0 left [CHR ''=''] = Some []"
  by (simp_all add: a2b_base64.simps)

lemma reassembled:
  "char_of ((of_char (a :: char) :: nat) div 4 * 4 + (of_char a :: nat) mod 4) = a"
  "char_of ((of_char (a :: char) :: nat) div 16 * 16 + (of_char a :: nat) mod 16) = a"
  "char_of ((of_char (a :: char) :: nat) div 64 * 64 + (of_char a :: nat) mod 64) = a"
  by (simp_all only: div_mult_mod_eq char_of_char)

definition b64_padding :: "string \<Rightarrow> string" where
  "b64_padding t = replicate (nat (- int (length t) mod 4)) (CHR ''='')"

lemma b64_padding_simps: "b64_padding [] = []" "b64_padding [p, q] = ''==''" "b64_padding [p, q, r] = ''=''"
  "b64_padding (p # q # r # u # t) = b64_padding t"
proof -
  have "- int (length (p # q # r # u # t)) mod 4 = - int (length t) mod 4" unfolding list.size by presburger
  then show "b64_padding (p # q # r # u # t) = b64_padding t" by (simp only: b64_padding_def)
qed (simp_all add: b64_padding_def numeral_eq_Suc)

lemma decode_encode: "a2b_base64 0 0 0 (b64url_nopad s @ b64_padding (b64url_nopad s)) = Some s"
proof (induction s rule: b64url_nopad.induct)
  case 1
  show ?case by (simp add: b64_padding_simps a2b_end)
next
  case (2 a)
  have "(of_char a :: nat) mod 4 * 16 mod 16 = 0" "(of_char a :: nat) mod 4 * 16 div 16 = of_char a mod 4" by simp_all
  then show ?case
    by (simp add: Let_def b64_padding_simps a2b_char sextets a2b_end reassembled)
next
  case (3 a b)
  then show ?case
    by (simp add: Let_def b64_padding_simps a2b_char sextets join_bits byte_bounds a2b_end reassembled)
next
  case (4 a b c s)
  then show ?case
    by (simp add: Let_def b64_padding_simps a2b_char sextets join_bits byte_bounds a2b_end reassembled)
qed

section \<open>Minted tokens\<close>

lemma b64url_chars: "c \<in> set (b64url_nopad s) \<Longrightarrow> c \<noteq> CHR ''.'' \<and> (of_char c :: nat) < 128"
  by (induction s rule: b64url_nopad.induct) (auto simp: Let_def b64_table sextets)

lemma b64url_decode_encode: "b64url_decode (b64url_nopad s) = Some s"
  using decode_encode [of s] b64url_chars [of _ s] by (simp add: b64url_decode_def b64_padding_def is_ascii_def)

lemma hex2_ascii: "n < 256 \<Longrightarrow> \<forall>c \<in> set (hex2 n). (of_char c :: nat) < 128"
proof -
  have "d < 16 \<Longrightarrow> (of_char (hex_digit d) :: nat) < 128" for d by (simp add: hex_digit_def)
  then show "n < 256 \<Longrightarrow> \<forall>c \<in> set (hex2 n). (of_char c :: nat) < 128" by (simp add: hex2_def less_mult_imp_div_less)
qed

lemma js_char_ascii: "is_ascii (js_char c)"
proof -
  have "\<forall>d \<in> set (hex4 (of_char c)). (of_char d :: nat) < 128"
    using hex2_ascii [of "of_char c div 256"] hex2_ascii [of "of_char c mod 256"] by (simp add: hex4_def ball_Un)
  then show ?thesis by (auto simp: js_char_def is_ascii_def Let_def)
qed

lemma is_ascii_append [simp]: "is_ascii (s @ t) \<longleftrightarrow> is_ascii s \<and> is_ascii t" "is_ascii []" "is_ascii (c # s) \<longleftrightarrow> (of_char c :: nat) < 128 \<and> is_ascii s"
  by (auto simp: is_ascii_def)

lemma js_str_ascii: "is_ascii (js_str s)"
  unfolding js_str_def by (induction s) (use js_char_ascii in auto)

lemma utf8_ascii: "is_ascii s \<Longrightarrow> utf8_decode s = Some s"
  by (induction s) (simp_all add: Let_def)

lemma partition_dot_at: "CHR ''.'' \<notin> set a \<Longrightarrow> partition_dot (a @ CHR ''.'' # b) = (a, b)"
  unfolding partition_dot_def by (induction a) auto

lemma show_int_ascii: "is_ascii (show_int i)"
proof -
  have "c \<in> set (show_nat n) \<Longrightarrow> (of_char c :: nat) < 128" for c n
    using show_nat_digits [of c n] by (simp add: is_digit_def)
  then show ?thesis by (auto simp: show_int_def is_ascii_def)
qed

lemma join_ascii: "\<forall>x \<in> set xs. is_ascii x \<Longrightarrow> is_ascii sep \<Longrightarrow> is_ascii (join_str sep xs)"
  by (induction sep xs rule: join_str.induct) auto

lemma emit_ascii: "printable v \<Longrightarrow> is_ascii (emit v)"
proof (induction v rule: printable.induct)
  case (3 l)
  then show ?case by (auto simp: list_all_iff intro!: join_ascii)
next
  case (4 d)
  have "is_ascii (js_str k @ '':'' @ emit v)" if "(k, v) \<in> set d" for k v
    using 4 that by (fastforce simp: list_all_iff js_str_ascii)
  then have "is_ascii (join_str '','' (map (\<lambda>(k, v). js_str k @ '':'' @ emit v) d))"
    by (intro join_ascii) (force, simp)
  then show ?case by simp
qed (auto simp: js_str_ascii show_int_ascii)

definition plan_seen :: "plan_pin \<Rightarrow> int \<Rightarrow> pydict \<Rightarrow> bool" where
  "plan_seen p expires q \<longleftrightarrow> map_of q = map_of (pin_payload p expires)"

lemma pin_canonical:
  "\<exists>q. canon (PDict (pin_payload p e)) = PDict q \<and> plan_seen p e q \<and> payload_well_formed q \<and>
     json_loads (canonical_json (pin_payload p e)) = Some (PDict q) \<and> is_ascii (canonical_json (pin_payload p e))"
proof -
  have pr: "printable (PDict (pin_payload p e))"
    by (cases "pin_comment_id p") (simp_all add: pin_payload_def dkeys_def)
  obtain q where q: "canon (PDict (pin_payload p e)) = PDict q" by simp
  have v: "map_option canon (map_of (pin_payload p e) k) = map_of (pin_payload p e) k" for k
    by (cases "pin_comment_id p") (simp_all add: pin_payload_def)
  have m: "map_of q k = map_of (pin_payload p e) k" for k
    using canon_lookup [of "pin_payload p e" q k] q pr v [of k] by simp
  have keys: "set (dkeys q) = set PAYLOAD_KEYS"
  proof -
    have "set (dkeys q) = dom (map_of q)" by (simp add: dkeys_def dom_map_of_conv_image_fst)
    also have "\<dots> = dom (map_of (pin_payload p e))" using m by presburger
    also have "\<dots> = set PAYLOAD_KEYS" by (simp add: dom_map_of_conv_image_fst pin_payload_def PAYLOAD_KEYS_def)
    finally show ?thesis .
  qed
  have "payload_well_formed q"
    using keys by (cases "pin_comment_id p") (simp_all add: payload_well_formed_def dget_or_def m, simp_all add: pin_payload_def STR_FIELDS_def)
  moreover have "json_loads (canonical_json (pin_payload p e)) = Some (PDict q)"
    unfolding canonical_json_def q using json_loads_emit [OF printable_canon [OF pr]] q by simp
  moreover have "is_ascii (canonical_json (pin_payload p e))"
    unfolding canonical_json_def by (rule emit_ascii [OF printable_canon [OF pr]])
  ultimately show ?thesis using q m by (intro exI [of _ q]) (auto simp: plan_seen_def)
qed

lemma token_verifies:
  assumes "mint_form_token hmac secret p ttl minted = Inr token" and "\<forall>k m. length (hmac k m) = 32"
  shows "\<exists>q. plan_seen p (int (minted div 1000000) + int ttl) q \<and>
    verify_form_token hmac secret token pr now =
      Inr (if pr = pin_pr p \<and> int now < (int (minted div 1000000) + int ttl) * 1000000 then Some q else None)"
proof -
  let ?e = "int (minted div 1000000) + int ttl"
  let ?c = "canonical_json (pin_payload p ?e)"
  obtain q where q: "plan_seen p ?e q" "payload_well_formed q" "json_loads ?c = Some (PDict q)" "is_ascii ?c"
    using pin_canonical by blast
  from assms(1) obtain key where key: "derive_key hmac secret = Inr key" by (cases "derive_key hmac secret") (auto simp: mint_form_token_def)
  with assms(1) have token: "token = b64url_nopad ?c @ ''.'' @ hexenc (hmac key ?c)" by (simp add: mint_form_token_def Let_def)
  have "CHR ''.'' \<notin> set (b64url_nopad ?c)" using b64url_chars by blast
  then have part: "partition_dot token = (b64url_nopad ?c, hexenc (hmac key ?c))" using partition_dot_at token by simp
  have "?c \<noteq> []" using q(3) by (auto simp: canonical_json_def)
  then have ne: "b64url_nopad ?c \<noteq> []" by (cases ?c rule: b64url_nopad.cases) (auto simp: Let_def)
  have "hmac key ?c \<noteq> []" using assms(2) by (metis list.size(3) zero_neq_numeral)
  then have sig: "hexenc (hmac key ?c) \<noteq> []" by (cases "hmac key ?c") (auto simp: hexenc_def hex2_def)
  have "dget q ''pr'' = PInt (pin_pr p)" "dget q ''exp'' = PInt ?e"
    using q(1) by (simp_all add: plan_seen_def dget_or_def, simp_all add: pin_payload_def)
  then have "checked_payload (Some (PDict q)) pr now = (if pr = pin_pr p \<and> int now < ?e * 1000000 then Some q else None)"
    using q(2) by (auto simp: checked_payload_def)
  then have "verify_form_token hmac secret token pr now = Inr (if pr = pin_pr p \<and> int now < ?e * 1000000 then Some q else None)"
    using key part ne sig q(3) utf8_ascii [OF q(4)]
    by (simp add: verify_form_token_def b64url_decode_encode hexenc_ascii Let_def)
  with q(1) show ?thesis by blast
qed

text \<open>C36: The form token is accepted exactly for what it was minted for: a token minted for a plan verifies on the
  same server's secret, for every time before its expiry and for no time after, only for the pull request of
  the plan, and then returns exactly the fields that were minted into it (the base64 text, the JSON text and
  the signature all read back).\<close>

theorem form_token_roundtrip:
  assumes "mint_form_token hmac secret p ttl minted = Inr token" and "\<forall>k m. length (hmac k m) = 32"
  shows "\<exists>q. plan_seen p (int (minted div 1000000) + int ttl) q \<and>
    verify_form_token hmac secret token pr now =
      Inr (if pr = pin_pr p \<and> int now < (int (minted div 1000000) + int ttl) * 1000000 then Some q else None)"
  using assms by (rule token_verifies)

definition demo_pin :: plan_pin where
  "demo_pin = \<lparr>pin_pr = 7, pin_head_sha = ''abc'', pin_artifact_uri_metadata = ''gs://b/m'', pin_generation_metadata = ''5'',
     pin_plan_sha256 = ''c'', pin_plan_json_sha256 = ''d'', pin_comment_id = Some 3, pin_generation_iac_tree = [], pin_iac_tree_hash = []\<rparr>"

theorem form_token_roundtrip_witness:
  "\<exists>token q. mint_form_token (\<lambda>k m. replicate 32 (CHR ''x'')) ''secret'' demo_pin 1800 5000000 = Inr token \<and>
     verify_form_token (\<lambda>k m. replicate 32 (CHR ''x'')) ''secret'' token 7 6000000 = Inr (Some q) \<and>
     verify_form_token (\<lambda>k m. replicate 32 (CHR ''x'')) ''secret'' token 8 6000000 = Inr None"
proof -
  let ?h = "\<lambda>k m :: string. replicate 32 (CHR ''x'')"
  obtain token where t: "mint_form_token ?h ''secret'' demo_pin 1800 5000000 = Inr token"
    by (simp add: mint_form_token_def derive_key_def Let_def)
  have l: "\<forall>k m. length (?h k m) = 32" by simp
  from form_token_roundtrip [OF t l, of 7 6000000] form_token_roundtrip [OF t l, of 8 6000000]
  show ?thesis using t by (auto simp: demo_pin_def)
qed

end
