(* ===== verification/IacApproval.thy ===== *)
theory IacApproval
  imports IacCsrf GitHub StateStore OperatorControls PlanClassify ApprovalLink
begin

text \<open>
  The coordinator's plan approval (\<open>agent/main.py\<close>, the POST of \<open>/iac-approvals/{pr_number}\<close>): the gates before
  anything is written, the claim of the plan, the calls to the apply worker, the merge, and the decision
  document that a later POST resumes from.  One step is one interaction with the store, GitHub or the worker.
  The resolved plan (\<open>IacPlanView\<close>) is an input of the request; pages are named by what they say.
\<close>

section \<open>The plan under review\<close>

record plan_view =
  vw_metadata :: pydict
  vw_integrity_ok :: bool
  vw_denylist_violations :: "(string \<times> string) list"
  vw_unverifiable :: bool
  vw_artifact_uri_metadata :: string
  vw_generation_metadata :: string
  vw_generation_iac_tree :: string
  vw_iac_tree_hash :: string
  vw_plan_json :: pyval

definition view_text :: "plan_view \<Rightarrow> string \<Rightarrow> string" where
  "view_text v k = py_str (dget_or (vw_metadata v) k (PStr []))"

definition view_head_sha :: "plan_view \<Rightarrow> string" where "view_head_sha v = view_text v ''head_sha''"
definition view_plan_sha256 :: "plan_view \<Rightarrow> string" where "view_plan_sha256 v = view_text v ''plan_sha256''"
definition view_plan_json_sha256 :: "plan_view \<Rightarrow> string" where "view_plan_json_sha256 v = view_text v ''plan_json_sha256''"
definition view_has_create :: "plan_view \<Rightarrow> bool" where "view_has_create v = plan_has_create (vw_plan_json v)"
definition view_has_import :: "plan_view \<Rightarrow> bool" where "view_has_import v = plan_has_import (vw_plan_json v)"

record c2_ref =
  rf_comment_id :: "int option"
  rf_head_sha :: string
  rf_plan_sha256 :: string
  rf_plan_json_sha256 :: string
  rf_artifact_uri_plan :: string
  rf_artifact_uri_json :: string
  rf_generation_plan :: string
  rf_generation_json :: string

text \<open>\<open>int(v)\<close>.\<close>

definition py_int :: "pyval \<Rightarrow> (pyexc, int) res" where
  "py_int v =
     (case v of
        PInt i \<Rightarrow> Inr i
      | PBool b \<Rightarrow> Inr (bool_int b)
      | PFloat r \<Rightarrow> trunc_float r
      | PStr s \<Rightarrow> (case parse_int_text s of Some i \<Rightarrow> Inr i | None \<Rightarrow> Inl (ValueError ''invalid literal for int()''))
      | _ \<Rightarrow> Inl TypeError)"

definition iac_artifact_consistent :: "c2_ref option \<Rightarrow> plan_view \<Rightarrow> int \<Rightarrow> (pyexc, bool) res" where
  "iac_artifact_consistent ref v pr =
     (case ref of
        None \<Rightarrow> Inr False
      | Some r \<Rightarrow>
          let md = vw_metadata v in
          (case py_int (dget md ''pr_number'') of
             Inl OverflowError \<Rightarrow> Inl OverflowError
           | Inl _ \<Rightarrow> Inr False
           | Inr n \<Rightarrow>
               Inr (n = pr \<and> PStr (rf_head_sha r) = dget md ''head_sha'' \<and> PStr (rf_plan_sha256 r) = dget md ''plan_sha256'' \<and>
                 PStr (rf_plan_json_sha256 r) = dget md ''plan_json_sha256'' \<and>
                 PStr (rf_artifact_uri_plan r) = dget md ''artifact_uri_plan'' \<and>
                 PStr (rf_artifact_uri_json r) = dget md ''artifact_uri_json'' \<and>
                 PStr (rf_generation_plan r) = dget md ''generation_plan'' \<and>
                 PStr (rf_generation_json r) = dget md ''generation_json'')))"

text \<open>What the form token pins is what is resolved now.\<close>

definition pinned :: "pydict \<Rightarrow> c2_ref option \<Rightarrow> plan_view \<Rightarrow> bool" where
  "pinned payload ref v \<longleftrightarrow>
     dget payload ''head_sha'' = PStr (view_head_sha v) \<and>
     dget payload ''artifact_uri_metadata'' = PStr (vw_artifact_uri_metadata v) \<and>
     dget payload ''generation_metadata'' = PStr (vw_generation_metadata v) \<and>
     dget payload ''plan_sha256'' = PStr (view_plan_sha256 v) \<and>
     dget payload ''plan_json_sha256'' = PStr (view_plan_json_sha256 v) \<and>
     dget payload ''comment_id'' = (case ref of None \<Rightarrow> PNone | Some r \<Rightarrow> (case rf_comment_id r of None \<Rightarrow> PNone | Some c \<Rightarrow> PInt c)) \<and>
     dget payload ''generation_iac_tree'' = PStr (vw_generation_iac_tree v) \<and>
     dget payload ''iac_tree_hash'' = PStr (vw_iac_tree_hash v)"

section \<open>Same origin\<close>

text \<open>\<open>SplitResult._hostinfo\<close>, \<open>hostname\<close> and \<open>port\<close>; a port that is not a number up to 65535 raises.\<close>

definition hostinfo :: "string \<Rightarrow> string \<times> string" where
  "hostinfo netloc =
     (let h = snd (rsplit_char (CHR ''@'') netloc) in
      if CHR ''['' \<in> set h
      then (let (name, rest) = split_at (CHR '']'') (snd (split_at (CHR ''['') h)) in (name, snd (split_at (CHR '':'') rest)))
      else split_at (CHR '':'') h)"

definition url_hostname :: "url \<Rightarrow> string option" where
  "url_hostname u =
     (let h = fst (hostinfo (u_netloc u)) in
      if h = [] then None
      else Some (map lower_char (takeWhile (\<lambda>c. c \<noteq> CHR ''%'') h) @ dropWhile (\<lambda>c. c \<noteq> CHR ''%'') h))"

definition url_port :: "url \<Rightarrow> (unit, nat option) res" where
  "url_port u =
     (let p = snd (hostinfo (u_netloc u)) in
      if p = [] then Inr None
      else if list_all is_digit p \<and> read_nat p \<le> 65535 then Inr (Some (read_nat p)) else Inl ())"

definition same_site :: "url option \<Rightarrow> url option \<Rightarrow> bool" where
  "same_site got want \<longleftrightarrow>
     (\<exists>g \<in> set_option got. \<exists>w \<in> set_option want.
        u_scheme g = u_scheme w \<and> url_hostname g = url_hostname w \<and> url_port g = url_port w \<and> returns (url_port g))"

definition check_iac_origin ::
  "(string \<Rightarrow> bool) \<Rightarrow> string \<Rightarrow> string option \<Rightarrow> string option \<Rightarrow> bool" where
  "check_iac_origin ip_literal coordinator_origin origin sec_fetch_site =
     (if coordinator_origin = [] then False
      else case origin of
        Some (c # s) \<Rightarrow>
          if c # s = ''null'' then sec_fetch_site = Some ''same-origin''
          else same_site (urlsplit ip_literal (c # s)) (urlsplit ip_literal coordinator_origin)
      | _ \<Rightarrow> sec_fetch_site = Some ''same-origin'')"

section \<open>Settings, requests, answers\<close>

record iac_settings =
  is_sha256 :: "string \<Rightarrow> string"
  is_hmac :: "string \<Rightarrow> string \<Rightarrow> string"
  is_ip_literal :: "string \<Rightarrow> bool"
  is_coordinator_origin :: string
  is_driftscribe_token :: string
  is_dry_run :: bool
  is_github_repo :: string
  is_iac_required_checks :: string
  is_iac_merge_method :: string

record iac_request =
  iq_pr_number :: int
  iq_operator :: string
  iq_reject :: bool
  iq_form_token :: string
  iq_origin :: "string option"
  iq_sec_fetch_site :: "string option"

text \<open>What the HTTP client reports of a worker call, and what \<open>worker_client.call\<close> makes of it: a JSON value of any
  shape, a \<open>WorkerClientError\<close> with its status and truncated body, or another exception.  A body that is not
  JSON under a success status becomes the status 502.\<close>

datatype http_answer = Unreachable string | HttpResponse nat string | ClientRaises string

datatype worker_answer = Answered pyval | WorkerFails nat string | WorkerRaises string

definition worker_call :: "http_answer \<Rightarrow> worker_answer" where
  "worker_call a =
     (case a of
        Unreachable m \<Rightarrow> WorkerFails 503 (take 500 m)
      | ClientRaises e \<Rightarrow> WorkerRaises e
      | HttpResponse code body \<Rightarrow>
          if 200 \<le> code \<and> code < 300
          then (case loads_bytes body of Some v \<Rightarrow> Answered v | None \<Rightarrow> WorkerFails 502 ''tofu_apply returned non-JSON body'')
          else WorkerFails code (take 500 body))"

datatype store_fault = NoFault | LostBefore | LostAfter

record iac_input =
  ii_now :: instant
  ii_pause :: control_read
  ii_dial :: control_read
  ii_plan :: "c2_ref option \<times> plan_view option"
  ii_repo :: "(string, unit) res"
  ii_title :: "(string, string option) res"
  ii_github :: github
  ii_worker :: http_answer
  ii_fault :: store_fault
  ii_decision_id :: string
  ii_trace_id :: string

datatype iac_page =
    PgRejected
  | PgSuperseded int
  | PgAlreadyApplied
  | PgTerminal string
  | PgAppliedAndMerged
  | PgMergeBlocked
  | PgMergePending
  | PgMergedRebake
  | PgNotRebaked string
  | PgNotReady string nat
  | PgResumeApplied bool

datatype iac_answer = Page iac_page | Refuse nat string | Crash string

section \<open>Texts\<close>

definition worker_error_text :: "nat \<Rightarrow> string \<Rightarrow> string" where
  "worker_error_text code body = ''tofu_apply returned '' @ show_nat code @ '': '' @ body"

definition map_tofu_apply_error :: "nat \<Rightarrow> string \<Rightarrow> string \<Rightarrow> iac_answer" where
  "map_tofu_apply_error code body action =
     (if code = 423 then Refuse 423 (''tofu-apply state lock held on '' @ action @ '': force-unlock then re-approve. '' @ worker_error_text code body)
      else if code = 409 then Refuse 409 (''tofu-apply plan no longer matches live state on '' @ action @ '': re-run C2. '' @ worker_error_text code body)
      else if code = 422 then Refuse 403 ''tofu-apply rejected the plan''
      else if code = 404 then Refuse 403 ''tofu-apply approval not found''
      else if code = 403 then Refuse 403 ''tofu-apply rejected the request''
      else Refuse 502 (''tofu-apply unavailable on '' @ action @ '': '' @ worker_error_text code body))"

definition PAUSED_DETAIL :: string where
  "PAUSED_DETAIL = ''DriftScribe is paused '' @ [CHR 0x97] @ '' an operator suspended agent activity. Resume from the operator UI to allow changes again.''"

definition MODE_LABELS :: "(string \<times> string) list" where
  "MODE_LABELS = [(''observe'', ''Observe''), (''propose'', ''Propose''), (''propose_apply'', ''Propose + Apply'')]"

definition autonomy_apply_blocked_detail :: "string \<Rightarrow> string" where
  "autonomy_apply_blocked_detail mode =
     ''autonomy is set to '' @ (case map_of MODE_LABELS mode of None \<Rightarrow> mode | Some l \<Rightarrow> l) @ [CHR 0x20, CHR 0x97] @
     '' applying changes is disabled. Raise the dial to Propose + Apply in the operator UI to enable this approval. The proposal itself remains valid and waiting.''"

definition UNCERTAIN :: string where
  "UNCERTAIN = ''tofu-apply outcome uncertain (timeout/unreachable after send); infra may have changed. Manual verification required; do NOT retry blindly.''"

definition UNEXPECTED :: string where
  "UNEXPECTED = ''tofu-apply returned an unexpected status; outcome uncertain. Manual verification required; do NOT retry blindly.''"

definition MALFORMED_SUCCESS :: string where
  "MALFORMED_SUCCESS = ''tofu-apply returned a malformed success response; outcome uncertain. Manual verification required; do NOT retry blindly.''"

definition SUSPECT_STATE :: string where
  "SUSPECT_STATE = ''tofu-apply failed and state may be partially mutated (failed_state_suspect); run the apply-failure recovery runbook (state reconcile) before any retry.''"

definition APPLY_FAILED :: string where
  "APPLY_FAILED = ''tofu-apply failed; infra may be partially mutated. Manual verification required; do NOT retry blindly.''"

definition NO_SIDECAR :: string where
  "NO_SIDECAR = ''create-class plan has no iac-tree sidecar in the C2 comment; re-run the plan-builder (C2) so the sidecar is produced''"

definition MALFORMED_PROPOSE :: string where "MALFORMED_PROPOSE = ''tofu-apply returned a malformed propose response''"
definition IN_PROGRESS_DETAIL :: string where "IN_PROGRESS_DETAIL = ''an apply for this plan is already in progress''"

definition resume_failed_detail :: "string \<Rightarrow> bool \<Rightarrow> string" where
  "resume_failed_detail apply_status has_import =
     ''tofu-apply '' @ apply_status @
     (if has_import
      then '' on the adopt-class resume; the PR is already merged. An import that fails normally writes no state and creates nothing, but that is verified, never assumed '' @ [CHR 0x97] @
           '' run the apply-failure recovery runbook before any retry.''
      else '' on the create-class resume; the PR is already merged and a created resource may exist out of state '' @ [CHR 0x97] @
           '' run the apply-failure recovery runbook (orphan check) before any retry.'')"

text \<open>The text of an exception of the merge, and whether it is the permanent kind.\<close>

fun pr_error_text :: "pr_error \<Rightarrow> string" where
  "pr_error_text (PrNotEligibleError m code) = m"
| "pr_error_text (PrMergeBlockedError m permanent) = m"
| "pr_error_text (GhRaises e) = e"

fun is_permanent :: "pr_error \<Rightarrow> bool" where
  "is_permanent (PrMergeBlockedError m permanent) = permanent"
| "is_permanent _ = False"

definition merge_first_detail :: "int \<Rightarrow> pr_error \<Rightarrow> string" where
  "merge_first_detail pr e =
     ''merge for PR #'' @ show_int pr @
     (if is_permanent e
      then '' is blocked by branch protection ('' @ pr_error_text e @ ''); resolve out-of-band (approve the required review / satisfy the required check / admin-merge), then re-submit '' @
           [CHR 0x97] @ '' nothing was applied''
      else '' failed ('' @ pr_error_text e @ ''); nothing was applied '' @ [CHR 0x97] @ '' re-submit to retry'')"

section \<open>The gates\<close>

text \<open>\<open>s.split(",")\<close>, stripped, without the empty ones.\<close>

definition required_checks :: "iac_settings \<Rightarrow> string list" where
  "required_checks s = filter (\<lambda>c. c \<noteq> []) (map strip (split_char (CHR '','') (is_iac_required_checks s)))"

definition merge_method :: "iac_settings \<Rightarrow> string" where
  "merge_method s = (if is_iac_merge_method s = [] then ''squash'' else is_iac_merge_method s)"

definition iac_event_key :: "iac_settings \<Rightarrow> int \<Rightarrow> string \<Rightarrow> string \<Rightarrow> string" where
  "iac_event_key s pr head generation =
     ''iac-apply-'' @ show_int pr @ ''-'' @
     take 32 (is_sha256 s (emit_spaced (canon (PDict
       [(''repo'', PStr (is_github_repo s)), (''pr_number'', PInt pr), (''head_sha'', PStr head),
        (''generation_metadata'', PStr generation)]))))"

text \<open>\<open>" ".join(raw.split())[:200] or None\<close>; a failed read gives none.\<close>

fun words_of_text :: "string \<Rightarrow> string \<Rightarrow> string list" where
  "words_of_text w [] = (if w = [] then [] else [rev w])"
| "words_of_text w (c # s) = (if is_space c then (if w = [] then [] else [rev w]) @ words_of_text [] s else words_of_text (c # w) s)"

definition fetch_pr_title :: "(string, string option) res \<Rightarrow> string option" where
  "fetch_pr_title raw =
     (case raw of
        Inr (Some t) \<Rightarrow> (let x = take 200 (join_str '' '' (words_of_text [] t)) in if x = [] then None else Some x)
      | _ \<Rightarrow> None)"

record iac_ctx =
  cx_view :: plan_view
  cx_key :: string
  cx_title :: "string option"

definition pin_checks :: "iac_settings \<Rightarrow> iac_request \<Rightarrow> iac_input \<Rightarrow> pydict \<Rightarrow> (iac_answer, plan_view) res" where
  "pin_checks s rq inp payload =
     (case ii_plan inp of
        (ref, None) \<Rightarrow> Inl (Refuse 403 ''artifact unverifiable'')
      | (ref, Some v) \<Rightarrow>
          rbind (require (\<not> vw_unverifiable v) (Refuse 403 ''artifact unverifiable'')) (\<lambda>_.
          rbind (require (vw_integrity_ok v) (Refuse 403 ''integrity mismatch'')) (\<lambda>_.
          rbind (require (vw_denylist_violations v = []) (Refuse 403 ''denylist violations'')) (\<lambda>_.
          rbind (lift_exc (\<lambda>e. Crash (exc_name e)) (iac_artifact_consistent ref v (iq_pr_number rq))) (\<lambda>consistent.
          rbind (require consistent (Refuse 403 ''artifact does not match this PR'')) (\<lambda>_.
          rbind (require (pinned payload ref v) (Refuse 409 ''the plan changed since you loaded this page; reload and re-review'')) (\<lambda>_.
          Inr v)))))))"

definition iac_gates :: "iac_settings \<Rightarrow> iac_request \<Rightarrow> iac_input \<Rightarrow> (iac_answer, iac_ctx) res" where
  "iac_gates s rq inp =
     rbind (require (check_iac_origin (is_ip_literal s) (is_coordinator_origin s) (iq_origin rq) (iq_sec_fetch_site rq))
              (Refuse 403 ''bad origin'')) (\<lambda>_.
     rbind (lift_exc (\<lambda>e. case e of IacCsrfError \<Rightarrow> Refuse 503 ''approvals not configured'' | CsrfTypeError \<Rightarrow> Crash ''TypeError'')
              (verify_form_token (is_hmac s) (is_driftscribe_token s) (iq_form_token rq) (iq_pr_number rq) (ii_now inp))) (\<lambda>token.
     case token of
       None \<Rightarrow> Inl (Refuse 403 ''stale or invalid form token; reload the approval page'')
     | Some payload \<Rightarrow>
         rbind (require (\<not> is_dry_run s) (Refuse 503 ''infra apply is disabled while the coordinator runs in dry-run mode'')) (\<lambda>_.
         rbind (require (\<not> ps_paused (read_pause_state (ii_pause inp))) (Refuse 423 PAUSED_DETAIL)) (\<lambda>_.
         let mode = as_mode (read_autonomy_state (ii_dial inp)) in
         rbind (require (mode = ''propose_apply'') (Refuse 409 (autonomy_apply_blocked_detail mode))) (\<lambda>_.
         rbind (pin_checks s rq inp payload) (\<lambda>v.
         rbind (lift_exc Crash (ii_repo inp)) (\<lambda>_.
         Inr \<lparr>cx_view = v, cx_key = iac_event_key s (iq_pr_number rq) (view_head_sha v) (vw_generation_metadata v),
              cx_title = fetch_pr_title (ii_title inp)\<rparr>)))))))"

section \<open>The decision document\<close>

record decision_fields =
  df_apply_status :: string
  df_merge_state :: string
  df_approval_id :: pyval
  df_attempt_id :: pyval
  df_applied_at :: "string option"

definition opt_title :: "string option \<Rightarrow> pydict" where
  "opt_title t = (case t of Some (c # cs) \<Rightarrow> [(''pr_title'', PStr (c # cs))] | _ \<Rightarrow> [])"

definition iac_decision :: "iac_request \<Rightarrow> iac_ctx \<Rightarrow> decision_fields \<Rightarrow> instant \<Rightarrow> string \<Rightarrow> string \<Rightarrow> pydict" where
  "iac_decision rq cx f now decision_id trace_id =
     [(''decision_id'', PStr decision_id), (''event_key'', PStr (cx_key cx)), (''trace_id'', PStr trace_id), (''action'', PStr ''iac_apply''),
      (''apply_status'', PStr (df_apply_status f)), (''merge_state'', PStr (df_merge_state f)), (''approval_id'', df_approval_id f),
      (''apply_attempt_id'', df_attempt_id f), (''head_sha'', PStr (view_head_sha (cx_view cx))), (''pr_number'', PInt (iq_pr_number rq)),
      (''approver'', PStr (iq_operator rq))] @
     opt_title (cx_title cx) @
     (if df_apply_status f = ''applied''
      then [(''applied_at'', PStr (case df_applied_at f of Some (c # cs) \<Rightarrow> c # cs | _ \<Rightarrow> iso_micro now))] else [])"

definition claim_payload :: "iac_request \<Rightarrow> iac_ctx \<Rightarrow> pydict" where
  "claim_payload rq cx =
     [(''approver'', PStr (iq_operator rq)), (''pr_number'', PInt (iq_pr_number rq)), (''head_sha'', PStr (view_head_sha (cx_view cx))),
      (''trigger'', PStr ''iac_apply'')]"

text \<open>The worker's answers: the identifiers of a proposal, and whether an apply is confirmed for an approval.\<close>

definition propose_ids :: "pyval \<Rightarrow> (string \<times> string) option" where
  "propose_ids v =
     (case v of
        PDict d \<Rightarrow>
          (case (dget d ''approval_id'', dget d ''approval_token'') of
             (PStr (a # i), PStr (b # t)) \<Rightarrow> Some (a # i, b # t)
           | _ \<Rightarrow> None)
      | _ \<Rightarrow> None)"

definition answered_attempt :: "pyval \<Rightarrow> pyval" where
  "answered_attempt v = (case v of PDict d \<Rightarrow> (case dget d ''apply_attempt_id'' of PStr a \<Rightarrow> PStr a | _ \<Rightarrow> PNone) | _ \<Rightarrow> PNone)"

fun nonempty_str :: "pyval \<Rightarrow> bool" where
  "nonempty_str (PStr s) = (s \<noteq> [])"
| "nonempty_str _ = False"

definition apply_confirmed :: "pyval \<Rightarrow> string \<Rightarrow> bool" where
  "apply_confirmed v approval_id \<longleftrightarrow>
     (case v of
        PDict d \<Rightarrow> dget d ''status'' = PStr ''applied'' \<and> dget d ''approval_id'' = PStr approval_id \<and>
          nonempty_str (dget d ''apply_attempt_id'')
      | _ \<Rightarrow> False)"

definition says_suspect :: "string \<Rightarrow> bool" where "says_suspect body \<longleftrightarrow> contains_str ''failed_state_suspect'' body"

section \<open>The state machine\<close>

text \<open>What follows the write of a decision, and the point a request has reached.  The texts are the worker's
  approval identifier and token.\<close>

datatype after_record = FinishWith iac_answer | NotifyThen iac_answer | MergeNext

datatype merge_mode = AfterApply pyval pyval "string option" | MergeFirst

datatype iac_pc =
    IStart
  | IFind iac_ctx
  | IReady iac_ctx
  | IClaim iac_ctx
  | IRefind iac_ctx
  | IPropose iac_ctx
  | IHead iac_ctx string string
  | IApply iac_ctx string string
  | IDeny iac_ctx string string iac_answer
  | IRelease iac_ctx iac_answer
  | IMerge iac_ctx merge_mode
  | IRecord iac_ctx decision_fields after_record
  | INotify iac_answer
  | IBaked iac_ctx
  | IResumePropose iac_ctx
  | IResumeApply iac_ctx string string
  | IResumeDeny iac_ctx string string iac_answer
  | IDone iac_answer

text \<open>A request that meets a recorded decision.\<close>

definition handle_existing_iac_decision :: "iac_ctx \<Rightarrow> pydict \<Rightarrow> iac_pc" where
  "handle_existing_iac_decision cx0 existing =
     (let status = dget existing ''apply_status''; merge_state = dget existing ''merge_state'';
          superseded_by = (case dget existing ''superseded_by_pr'' of PInt n \<Rightarrow> n | _ \<Rightarrow> 0);
          cx = cx0\<lparr>cx_title := (case py_or (dget existing ''pr_title'') (opt_val (cx_title cx0)) of PStr t \<Rightarrow> Some t | _ \<Rightarrow> None)\<rparr>
      in if status = PStr ''waiting_for_rebake'' \<and> 0 < superseded_by then IDone (Page (PgSuperseded superseded_by))
         else if status = PStr ''waiting_for_rebake'' then (if merge_state \<noteq> PStr ''merged'' then IMerge cx MergeFirst else IBaked cx)
         else if status = PStr ''applied'' \<and> merge_state = PStr ''merged'' then IDone (Page PgAlreadyApplied)
         else if status = PStr ''applied'' \<and> merge_state = PStr ''failed''
           then IMerge cx (AfterApply (dget existing ''approval_id'') (dget existing ''apply_attempt_id'')
                  (case dget existing ''applied_at'' of PStr (c # cs) \<Rightarrow> Some (c # cs) | _ \<Rightarrow> None))
         else case in_set status [''failed'', ''failed_state_suspect'', ''ambiguous''] of
             Inl e \<Rightarrow> IDone (Crash (exc_name e))
           | Inr terminal \<Rightarrow> if terminal then IDone (Page (PgTerminal (py_str status))) else IDone (Refuse 409 IN_PROGRESS_DETAIL))"

definition ready_answer :: "pr_error \<Rightarrow> iac_answer" where
  "ready_answer e =
     (case e of
        PrNotEligibleError m code \<Rightarrow> Refuse code m
      | PrMergeBlockedError m permanent \<Rightarrow> Refuse 409 m
      | GhRaises x \<Rightarrow> Crash x)"

definition fields_of :: "string \<Rightarrow> string \<Rightarrow> pyval \<Rightarrow> pyval \<Rightarrow> decision_fields" where
  "fields_of status merge_state approval attempt =
     \<lparr>df_apply_status = status, df_merge_state = merge_state, df_approval_id = approval, df_attempt_id = attempt, df_applied_at = None\<rparr>"

text \<open>The claim is won: a create-class plan is merged first, every other one proposed.\<close>

definition route_claimed :: "iac_ctx \<Rightarrow> iac_pc" where
  "route_claimed cx =
     (if view_has_create (cx_view cx)
      then if vw_generation_iac_tree (cx_view cx) = [] \<or> vw_iac_tree_hash (cx_view cx) = []
           then IRelease cx (Refuse 409 NO_SIDECAR)
           else IRecord cx (fields_of ''waiting_for_rebake'' ''pending'' PNone PNone) MergeNext
      else IPropose cx)"

text \<open>What an answer to \<open>/propose\<close> and to \<open>/apply\<close> leads to, on the path that applies first.\<close>

definition after_propose :: "iac_ctx \<Rightarrow> worker_answer \<Rightarrow> iac_pc" where
  "after_propose cx a =
     (case a of
        WorkerRaises e \<Rightarrow> IDone (Crash e)
      | WorkerFails code body \<Rightarrow> IRelease cx (map_tofu_apply_error code body ''propose'')
      | Answered v \<Rightarrow>
          (case propose_ids v of
             None \<Rightarrow> IRelease cx (Refuse 502 MALFORMED_PROPOSE)
           | Some (aid, tok) \<Rightarrow> IHead cx aid tok))"

definition after_head :: "iac_ctx \<Rightarrow> string \<Rightarrow> string \<Rightarrow> (string, string) res \<Rightarrow> iac_pc" where
  "after_head cx aid tok head_now =
     (case head_now of
        Inl _ \<Rightarrow> IDeny cx aid tok (Refuse 409 ''could not confirm PR head before apply; re-approve'')
      | Inr h \<Rightarrow>
          if h \<noteq> view_head_sha (cx_view cx) then IDeny cx aid tok (Refuse 409 ''PR head moved after propose; re-approve'')
          else IApply cx aid tok)"

definition after_apply_error :: "iac_ctx \<Rightarrow> string \<Rightarrow> string \<Rightarrow> nat \<Rightarrow> string \<Rightarrow> iac_pc" where
  "after_apply_error cx aid tok code body =
     (if code \<in> {403, 404} then IDeny cx aid tok (map_tofu_apply_error code body ''apply'')
      else if code \<in> {422, 423, 409} then IRelease cx (map_tofu_apply_error code body ''apply'')
      else if code = 502 \<or> 500 \<le> code then
        (let ambiguous = (code \<noteq> 502); suspect = (\<not> ambiguous \<and> says_suspect body);
             status = (if ambiguous then ''ambiguous'' else if suspect then ''failed_state_suspect'' else ''failed'')
         in IRecord cx (fields_of status ''n/a'' (PStr aid) PNone)
              (NotifyThen (if ambiguous then Refuse 504 UNCERTAIN
                           else Refuse 502 (if suspect then SUSPECT_STATE else APPLY_FAILED))))
      else IRecord cx (fields_of ''ambiguous'' ''n/a'' (PStr aid) PNone) (NotifyThen (Refuse 504 UNEXPECTED)))"

definition after_apply :: "iac_ctx \<Rightarrow> string \<Rightarrow> string \<Rightarrow> worker_answer \<Rightarrow> iac_pc" where
  "after_apply cx aid tok a =
     (case a of
        WorkerRaises e \<Rightarrow> IDone (Crash e)
      | WorkerFails code body \<Rightarrow> after_apply_error cx aid tok code body
      | Answered v \<Rightarrow>
          if apply_confirmed v aid then IMerge cx (AfterApply (PStr aid) (answered_attempt v) None)
          else IRecord cx (fields_of ''ambiguous'' ''n/a'' (PStr aid) (answered_attempt v)) (NotifyThen (Refuse 504 MALFORMED_SUCCESS)))"

text \<open>After the merge call, on either path.\<close>

definition after_merge :: "iac_request \<Rightarrow> iac_ctx \<Rightarrow> merge_mode \<Rightarrow> (pr_error, pydict) res \<Rightarrow> iac_pc" where
  "after_merge rq cx mode r =
     (case mode of
        AfterApply aid attempt applied_at \<Rightarrow>
          (case r of
             Inr _ \<Rightarrow> IRecord cx ((fields_of ''applied'' ''merged'' aid attempt)\<lparr>df_applied_at := applied_at\<rparr>) (FinishWith (Page PgAppliedAndMerged))
           | Inl e \<Rightarrow> IRecord cx ((fields_of ''applied'' ''failed'' aid attempt)\<lparr>df_applied_at := applied_at\<rparr>)
               (NotifyThen (Page (if is_permanent e then PgMergeBlocked else PgMergePending))))
      | MergeFirst \<Rightarrow>
          (case r of
             Inr _ \<Rightarrow> IRecord cx (fields_of ''waiting_for_rebake'' ''merged'' PNone PNone) (FinishWith (Page PgMergedRebake))
           | Inl e \<Rightarrow> IDone (Refuse 409 (merge_first_detail (iq_pr_number rq) e))))"

section \<open>Resuming a merged create-class plan\<close>

definition baked_pc :: "iac_ctx \<Rightarrow> worker_answer \<Rightarrow> iac_pc" where
  "baked_pc cx a =
     (let v = cx_view cx in
      if vw_generation_iac_tree v = [] then IDone (Refuse 409 ''create-class resume has no iac-tree sidecar; re-run the plan-builder'')
      else case (if vw_iac_tree_hash v = [] then PNone
                 else (case a of Answered (PDict d) \<Rightarrow> dget d ''iac_tree_hash'' | _ \<Rightarrow> PNone)) of
        PStr baked \<Rightarrow> if baked \<noteq> [] \<and> baked \<noteq> vw_iac_tree_hash v then IDone (Page (PgNotRebaked baked)) else IResumePropose cx
      | _ \<Rightarrow> IResumePropose cx)"

definition after_resume_propose :: "iac_ctx \<Rightarrow> worker_answer \<Rightarrow> iac_pc" where
  "after_resume_propose cx a =
     (case a of
        WorkerRaises e \<Rightarrow> IDone (Crash e)
      | WorkerFails code body \<Rightarrow> IDone (Page (PgNotReady ''propose'' code))
      | Answered v \<Rightarrow>
          (case propose_ids v of
             None \<Rightarrow> IDone (Refuse 502 MALFORMED_PROPOSE)
           | Some (aid, tok) \<Rightarrow> IResumeApply cx aid tok))"

definition after_resume_apply :: "iac_ctx \<Rightarrow> string \<Rightarrow> string \<Rightarrow> worker_answer \<Rightarrow> iac_pc" where
  "after_resume_apply cx aid tok a =
     (case a of
        WorkerRaises e \<Rightarrow> IDone (Crash e)
      | WorkerFails code body \<Rightarrow>
          if code \<in> {403, 404, 422, 423, 409} then IResumeDeny cx aid tok (Page (PgNotReady ''apply'' code))
          else (let status = (if code = 502 then ''failed_state_suspect'' else ''ambiguous'') in
                IRecord cx (fields_of status ''merged'' (PStr aid) PNone)
                  (NotifyThen (Refuse (if status \<noteq> ''ambiguous'' then 502 else 504)
                     (resume_failed_detail status (view_has_import (cx_view cx))))))
      | Answered v \<Rightarrow>
          if apply_confirmed v aid
          then IRecord cx (fields_of ''applied'' ''merged'' (PStr aid) (answered_attempt v))
                 (FinishWith (Page (PgResumeApplied (view_has_import (cx_view cx)))))
          else IRecord cx (fields_of ''ambiguous'' ''merged'' (PStr aid) PNone)
                 (FinishWith (Refuse 504 ''tofu-apply returned a malformed success on the create-class resume; verify manually'')))"

section \<open>Steps\<close>

text \<open>What happened, in order: a request that passed the gates, and with what input; a proposal; an apply call, on the
  resume path or not, with its answer; the answers of GitHub to a merge, and what the merge wrote.\<close>

datatype iac_event =
    EvAdmit iac_request iac_input iac_ctx
  | EvPropose iac_request iac_ctx
  | EvApply iac_request iac_ctx bool string worker_answer
  | EvMerge iac_request iac_ctx merge_mode github "gh_write list" "(pr_error, pydict) res"

record iac_world =
  iw_store :: store
  iw_log :: "iac_event list"

text \<open>A store write under a fault: it raises, before or after it took effect.\<close>

definition store_write :: "store_fault \<Rightarrow> (store \<Rightarrow> store) \<Rightarrow> iac_pc \<Rightarrow> iac_world \<Rightarrow> iac_pc \<times> iac_world" where
  "store_write fault f next w =
     (case fault of
        NoFault \<Rightarrow> (next, w\<lparr>iw_store := f (iw_store w)\<rparr>)
      | LostBefore \<Rightarrow> (IDone (Crash ''store''), w)
      | LostAfter \<Rightarrow> (IDone (Crash ''store''), w\<lparr>iw_store := f (iw_store w)\<rparr>))"

definition logged :: "iac_event \<Rightarrow> iac_world \<Rightarrow> iac_world" where
  "logged e w = w\<lparr>iw_log := iw_log w @ [e]\<rparr>"

fun recorded_next :: "after_record \<Rightarrow> iac_ctx \<Rightarrow> iac_pc" where
  "recorded_next (FinishWith a) cx = IDone a"
| "recorded_next (NotifyThen a) cx = INotify a"
| "recorded_next MergeNext cx = IMerge cx MergeFirst"

definition found_pc :: "iac_ctx \<Rightarrow> store_fault \<Rightarrow> store \<Rightarrow> iac_pc \<Rightarrow> iac_pc" where
  "found_pc cx fault st otherwise =
     (if fault \<noteq> NoFault then IDone (Crash ''store'')
      else case find_decision_for_event (cx_key cx) st of
        Some d \<Rightarrow> handle_existing_iac_decision cx d
      | None \<Rightarrow> otherwise)"

fun iac_step :: "iac_settings \<Rightarrow> iac_request \<Rightarrow> iac_input \<Rightarrow> iac_pc \<Rightarrow> iac_world \<Rightarrow> iac_pc \<times> iac_world" where
  "iac_step s rq inp IStart w =
     (if iq_reject rq then (IDone (Page PgRejected), w)
      else (case iac_gates s rq inp of Inl a \<Rightarrow> (IDone a, w) | Inr cx \<Rightarrow> (IFind cx, logged (EvAdmit rq inp cx) w)))"
| "iac_step s rq inp (IFind cx) w = (found_pc cx (ii_fault inp) (iw_store w) (IReady cx), w)"
| "iac_step s rq inp (IReady cx) w =
     (case assert_pr_ready_at_sha (ii_github inp) (iq_pr_number rq) (view_head_sha (cx_view cx)) (required_checks s) ''main'' of
        Inl e \<Rightarrow> IDone (ready_answer e) | Inr _ \<Rightarrow> IClaim cx, w)"
| "iac_step s rq inp (IClaim cx) w =
     (let (won, st') = record_event (cx_key cx) (claim_payload rq cx) (iw_store w) in
      store_write (ii_fault inp) (\<lambda>_. st') (if won then route_claimed cx else IRefind cx) w)"
| "iac_step s rq inp (IRefind cx) w =
     (found_pc cx (ii_fault inp) (iw_store w) (IDone (Refuse 409 IN_PROGRESS_DETAIL)), w)"
| "iac_step s rq inp (IPropose cx) w = (after_propose cx (worker_call (ii_worker inp)), logged (EvPropose rq cx) w)"
| "iac_step s rq inp (IHead cx aid tok) w = (after_head cx aid tok (get_pr_head_sha (ii_github inp)), w)"
| "iac_step s rq inp (IApply cx aid tok) w =
     (after_apply cx aid tok (worker_call (ii_worker inp)), logged (EvApply rq cx False aid (worker_call (ii_worker inp))) w)"
| "iac_step s rq inp (IDeny cx aid tok a) w = (IRelease cx a, w)"
| "iac_step s rq inp (IRelease cx a) w = store_write (ii_fault inp) (release_event (cx_key cx)) (IDone a) w"
| "iac_step s rq inp (IMerge cx mode) w =
     (case merge_pr_at_sha (ii_github inp) (iq_pr_number rq) (view_head_sha (cx_view cx)) (required_checks s) (merge_method s)
             (is_dry_run s) ''main'' of
        (ws, r) \<Rightarrow> (after_merge rq cx mode r, logged (EvMerge rq cx mode (ii_github inp) ws r) w))"
| "iac_step s rq inp (IRecord cx f next) w =
     store_write (ii_fault inp)
       (record_decision (ii_now inp) (ii_decision_id inp) (cx_key cx)
          (iac_decision rq cx f (ii_now inp) (ii_decision_id inp) (ii_trace_id inp)))
       (recorded_next next cx) w"
| "iac_step s rq inp (INotify a) w = (IDone a, w)"
| "iac_step s rq inp (IBaked cx) w = (baked_pc cx (worker_call (ii_worker inp)), w)"
| "iac_step s rq inp (IResumePropose cx) w = (after_resume_propose cx (worker_call (ii_worker inp)), logged (EvPropose rq cx) w)"
| "iac_step s rq inp (IResumeApply cx aid tok) w =
     (after_resume_apply cx aid tok (worker_call (ii_worker inp)), logged (EvApply rq cx True aid (worker_call (ii_worker inp))) w)"
| "iac_step s rq inp (IResumeDeny cx aid tok a) w = (IDone a, w)"
| "iac_step s rq inp (IDone a) w = (IDone a, w)"

end
