(* ===== verification/IacApprovalSystem.thy ===== *)
theory IacApprovalSystem
  imports IacApproval Tickets
begin

text \<open>
  Plan approvals under concurrency: any number of POSTs, for any pull requests and plans, interleaved one
  interaction at a time over one store, each possibly stopped for good at any point, with store writes that may
  be lost before or after they took effect, and GitHub and the apply worker free to answer anything.
\<close>

section \<open>The system\<close>

datatype iac_thread = Iac iac_request iac_pc

text \<open>A store without decisions of this kind, whose event pointers lead somewhere.\<close>

definition iac_start :: "store \<Rightarrow> bool" where
  "iac_start st \<longleftrightarrow>
     (\<forall>d \<in> set (map snd (st_decisions st)). dget d ''apply_status'' = PNone \<and> dget d ''merge_state'' = PNone) \<and>
     (\<forall>k did. pointer k st = Some did \<longrightarrow> map_of (st_decisions st) did \<noteq> None)"

inductive iac_system :: "iac_settings \<Rightarrow> iac_world \<Rightarrow> iac_thread list \<Rightarrow> bool" for s :: iac_settings where
  start: "iac_start st \<Longrightarrow> iac_system s \<lparr>iw_store = st, iw_log = []\<rparr> []"
| arrive: "iac_system s w ts \<Longrightarrow> iac_system s w (ts @ [Iac rq IStart])"
| step: "iac_system s w ts \<Longrightarrow> i < length ts \<Longrightarrow> ts ! i = Iac rq pc \<Longrightarrow>
     ii_decision_id inp \<noteq> [] \<Longrightarrow> map_of (st_decisions (iw_store w)) (ii_decision_id inp) = None \<Longrightarrow>
     iac_step s rq inp pc w = (pc', w') \<Longrightarrow> iac_system s w' (ts[i := Iac rq pc'])"

section \<open>One apply per claim\<close>

text \<open>The worker's refusals: it says that nothing was applied.\<close>

definition refused :: "worker_answer \<Rightarrow> bool" where
  "refused a \<longleftrightarrow> (case a of WorkerFails code body \<Rightarrow> code \<in> {403, 404, 409, 422, 423} | _ \<Rightarrow> False)"

text \<open>The claims under which a first apply was called that the worker did not refuse.\<close>

fun event_effect :: "iac_event \<Rightarrow> string list" where
  "event_effect (EvApply rq cx resumed aid a) = (if resumed \<or> refused a then [] else [cx_key cx])"
| "event_effect _ = []"

definition may_have_applied :: "iac_world \<Rightarrow> string list" where
  "may_have_applied w = concat (map event_effect (iw_log w))"

fun holds_claim :: "string \<Rightarrow> iac_thread \<Rightarrow> bool" where
  "holds_claim k (Iac rq (IPropose cx)) = (cx_key cx = k)"
| "holds_claim k (Iac rq (IHead cx aid tok)) = (cx_key cx = k)"
| "holds_claim k (Iac rq (IApply cx aid tok)) = (cx_key cx = k)"
| "holds_claim k (Iac rq (IDeny cx aid tok a)) = (cx_key cx = k)"
| "holds_claim k (Iac rq (IRelease cx a)) = (cx_key cx = k)"
| "holds_claim k _ = False"

definition plan_claimed :: "iac_world \<Rightarrow> string \<Rightarrow> bool" where
  "plan_claimed w k \<longleftrightarrow> st_events (iw_store w) k \<noteq> None"

definition iac_move :: "iac_settings \<Rightarrow> iac_world \<Rightarrow> iac_thread \<Rightarrow> iac_world \<Rightarrow> iac_thread \<Rightarrow> bool" where
  "iac_move s w t w' t' \<longleftrightarrow>
     (\<exists>rq pc pc' inp. t = Iac rq pc \<and> t' = Iac rq pc' \<and> iac_step s rq inp pc w = (pc', w'))"

lemma effects_logged [simp]: "may_have_applied (logged e w) = may_have_applied w @ event_effect e"
  by (simp add: may_have_applied_def logged_def)

lemma effects_store [simp]: "may_have_applied (w\<lparr>iw_store := st\<rparr>) = may_have_applied w"
  by (simp add: may_have_applied_def)

lemma claimed_logged [simp]: "plan_claimed (logged e w) k = plan_claimed w k"
  by (simp add: plan_claimed_def logged_def)

lemma store_logged [simp]: "iw_store (logged e w) = iw_store w" "iw_log (logged e w) = iw_log w @ [e]"
  by (simp_all add: logged_def)

text \<open>Where no branch leads to a held claim.\<close>

lemma handle_existing_free: "\<not> holds_claim k (Iac rq (handle_existing_iac_decision cx d))"
  by (auto simp: handle_existing_iac_decision_def Let_def split: sum.splits)

lemma found_free: "\<not> holds_claim k (Iac rq other) \<Longrightarrow> \<not> holds_claim k (Iac rq (found_pc cx fault st other))"
  by (auto simp: found_pc_def handle_existing_free split: option.splits)

lemma after_merge_free: "\<not> holds_claim k (Iac rq (after_merge rq' cx mode r))"
  by (auto simp: after_merge_def split: merge_mode.splits sum.splits)

lemma recorded_free: "\<not> holds_claim k (Iac rq (recorded_next nx cx))"
  by (cases nx) simp_all

lemma resume_free:
  "\<not> holds_claim k (Iac rq (baked_pc cx a))" "\<not> holds_claim k (Iac rq (after_resume_propose cx a))"
  "\<not> holds_claim k (Iac rq (after_resume_apply cx aid tok a))"
  by (auto simp: baked_pc_def after_resume_propose_def after_resume_apply_def Let_def
        split: pyval.splits worker_answer.splits option.splits)

text \<open>Where a branch keeps the claim, it is its own.\<close>

lemma propose_keeps: "holds_claim k (Iac rq (after_propose cx a)) \<Longrightarrow> cx_key cx = k"
  by (auto simp: after_propose_def split: worker_answer.splits option.splits)

lemma head_keeps: "holds_claim k (Iac rq (after_head cx aid tok h)) \<Longrightarrow> cx_key cx = k"
  by (auto simp: after_head_def split: sum.splits if_splits)

lemma apply_keeps: "holds_claim k (Iac rq (after_apply cx aid tok a)) \<Longrightarrow> cx_key cx = k \<and> refused a"
  by (auto simp: after_apply_def after_apply_error_def refused_def Let_def split: worker_answer.splits if_splits)

lemma route_keeps: "holds_claim k (Iac rq (route_claimed cx)) \<Longrightarrow> cx_key cx = k"
  by (auto simp: route_claimed_def split: if_splits)

definition held :: "string \<Rightarrow> iac_thread \<Rightarrow> nat" where
  "held k t = (if holds_claim k t then 1 else 0)"

definition applied_count :: "string \<Rightarrow> iac_world \<Rightarrow> nat" where
  "applied_count k w = count_list (may_have_applied w) k"

text \<open>The three kinds of steps.\<close>

definition keeps :: "iac_world \<Rightarrow> iac_thread \<Rightarrow> iac_world \<Rightarrow> iac_thread \<Rightarrow> string \<Rightarrow> bool" where
  "keeps w t w' t' k \<longleftrightarrow>
     held k t' + applied_count k w' \<le> held k t + applied_count k w \<and> (plan_claimed w k \<longrightarrow> plan_claimed w' k)"

definition wins :: "iac_world \<Rightarrow> iac_thread \<Rightarrow> iac_world \<Rightarrow> iac_thread \<Rightarrow> string \<Rightarrow> bool" where
  "wins w t w' t' k \<longleftrightarrow>
     \<not> plan_claimed w k \<and> plan_claimed w' k \<and> held k t' + applied_count k w' \<le> held k t + applied_count k w + 1"

definition gives_up :: "iac_world \<Rightarrow> iac_thread \<Rightarrow> iac_world \<Rightarrow> iac_thread \<Rightarrow> string \<Rightarrow> bool" where
  "gives_up w t w' t' k \<longleftrightarrow> held k t' + applied_count k w' + 1 \<le> held k t + applied_count k w"

lemma keeps_free:
  "\<not> holds_claim k t' \<or> holds_claim k t \<Longrightarrow> may_have_applied w' = may_have_applied w \<Longrightarrow> st_events (iw_store w') = st_events (iw_store w) \<Longrightarrow>
     keeps w t w' t' k"
  by (auto simp: keeps_def held_def applied_count_def plan_claimed_def)

lemma store_write_cases:
  assumes "store_write fault f nx w = (pc', w')"
  obtains "pc' = nx" "w' = w\<lparr>iw_store := f (iw_store w)\<rparr>"
  | "pc' = IDone (Crash ''store'')" "w' = w"
  | "pc' = IDone (Crash ''store'')" "w' = w\<lparr>iw_store := f (iw_store w)\<rparr>"
  using assms by (cases fault) (auto simp: store_write_def)

lemma claim_move:
  assumes "iac_step s rq inp (IClaim cx) w = (pc', w')"
  shows "keeps w (Iac rq (IClaim cx)) w' (Iac rq pc') k \<or> wins w (Iac rq (IClaim cx)) w' (Iac rq pc') k"
proof -
  obtain won st' where rec: "record_event (cx_key cx) (claim_payload rq cx) (iw_store w) = (won, st')" by fastforce
  with assms have sw: "store_write (ii_fault inp) (\<lambda>_. st') (if won then route_claimed cx else IRefind cx) w = (pc', w')" by simp
  from record_event_cases [OF rec] consider
    (won) "won" "st_events (iw_store w) (cx_key cx) = None"
      "st_events st' = (st_events (iw_store w))(cx_key cx \<mapsto> \<lparr>ev_payload = claim_payload rq cx, ev_decision_id = None\<rparr>)"
  | (lost) "\<not> won" "st' = iw_store w" by auto
  then show ?thesis
  proof cases
    case won
    have h: "holds_claim k (Iac rq pc') \<Longrightarrow> cx_key cx = k \<and> w' = w\<lparr>iw_store := st'\<rparr>"
      using sw won(1) route_keeps by (elim store_write_cases) auto
    have "w' = w \<or> w' = w\<lparr>iw_store := st'\<rparr>" using sw by (elim store_write_cases) auto
    with h won(2,3) show ?thesis
      by (cases "cx_key cx = k") (auto simp: keeps_def wins_def held_def applied_count_def plan_claimed_def)
  next
    case lost
    then have "w' = w" "\<not> holds_claim k (Iac rq pc')" using sw by (elim store_write_cases; simp)+
    then show ?thesis by (simp add: keeps_free)
  qed
qed

lemma release_move:
  assumes "iac_step s rq inp (IRelease cx a) w = (pc', w')"
  shows "keeps w (Iac rq (IRelease cx a)) w' (Iac rq pc') k \<or> gives_up w (Iac rq (IRelease cx a)) w' (Iac rq pc') k"
proof -
  from assms have sw: "store_write (ii_fault inp) (release_event (cx_key cx)) (IDone a) w = (pc', w')" by simp
  then have "\<not> holds_claim k (Iac rq pc')" and "w' = w \<or> w' = w\<lparr>iw_store := release_event (cx_key cx) (iw_store w)\<rparr>"
    by (elim store_write_cases; simp)+
  then show ?thesis
    by (cases "cx_key cx = k") (auto simp: keeps_def gives_up_def held_def applied_count_def plan_claimed_def release_events)
qed

lemma record_move:
  assumes "iac_step s rq inp (IRecord cx f nx) w = (pc', w')"
  shows "keeps w (Iac rq (IRecord cx f nx)) w' (Iac rq pc') k"
proof -
  let ?g = "record_decision (ii_now inp) (ii_decision_id inp) (cx_key cx)
          (iac_decision rq cx f (ii_now inp) (ii_decision_id inp) (ii_trace_id inp))"
  from assms have sw: "store_write (ii_fault inp) ?g (recorded_next nx cx) w = (pc', w')" by simp
  then have "\<not> holds_claim k (Iac rq pc')" using recorded_free by (elim store_write_cases) auto
  moreover have "w' = w \<or> w' = w\<lparr>iw_store := ?g (iw_store w)\<rparr>" using sw by (elim store_write_cases) auto
  ultimately show ?thesis
    by (auto simp: keeps_def held_def applied_count_def plan_claimed_def record_decision_events)
qed

lemma apply_move:
  assumes "iac_step s rq inp (IApply cx aid tok) w = (pc', w')"
  shows "keeps w (Iac rq (IApply cx aid tok)) w' (Iac rq pc') k"
  using assms apply_keeps [of k rq cx aid tok "worker_call (ii_worker inp)"]
  by (auto simp: keeps_def held_def applied_count_def)

text \<open>A step that calls nobody who applies and leaves the claims alone.\<close>

lemma quiet_move:
  assumes "iac_step s rq inp pc w = (pc', w')" and "\<forall>cx. pc \<noteq> IClaim cx" and "\<forall>cx a. pc \<noteq> IRelease cx a"
    and "\<forall>cx f nx. pc \<noteq> IRecord cx f nx" and "\<forall>cx aid tok. pc \<noteq> IApply cx aid tok"
  shows "keeps w (Iac rq pc) w' (Iac rq pc') k"
proof (rule keeps_free)
  show "\<not> holds_claim k (Iac rq pc') \<or> holds_claim k (Iac rq pc)"
    using assms found_free after_merge_free resume_free propose_keeps head_keeps
    by (cases pc) (auto split: sum.splits if_splits prod.splits simp: Let_def)
  show "may_have_applied w' = may_have_applied w" "st_events (iw_store w') = st_events (iw_store w)"
    using assms by (cases pc; auto split: sum.splits if_splits prod.splits)+
qed

lemma iac_move_law:
  assumes "iac_move s w t w' t'"
  shows "keeps w t w' t' k \<or> wins w t w' t' k \<or> gives_up w t w' t' k"
proof -
  from assms obtain rq pc pc' inp where t: "t = Iac rq pc" "t' = Iac rq pc'" and st: "iac_step s rq inp pc w = (pc', w')"
    by (auto simp: iac_move_def)
  show ?thesis
  proof (cases "(\<forall>cx. pc \<noteq> IClaim cx) \<and> (\<forall>cx a. pc \<noteq> IRelease cx a) \<and> (\<forall>cx f nx. pc \<noteq> IRecord cx f nx) \<and> (\<forall>cx aid tok. pc \<noteq> IApply cx aid tok)")
    case True
    with quiet_move [OF st] t show ?thesis by blast
  next
    case False
    then consider (cl) cx where "pc = IClaim cx" | (rel) cx a where "pc = IRelease cx a"
      | (rec) cx f nx where "pc = IRecord cx f nx" | (app) cx aid tok where "pc = IApply cx aid tok" by blast
    then show ?thesis
    proof cases
      case cl with claim_move st t show ?thesis by blast
    next
      case rel with release_move st t show ?thesis by blast
    next
      case rec with record_move st t show ?thesis by blast
    next
      case app with apply_move st t show ?thesis by blast
    qed
  qed
qed

interpretation iac: leased plan_claimed holds_claim may_have_applied "iac_move s" for s
  by unfold_locales (use iac_move_law in \<open>auto simp: keeps_def wins_def gives_up_def held_def applied_count_def\<close>)

lemma system_moves:
  assumes "iac_step s rq inp pc w = (pc', w')"
  shows "iac_move s w (Iac rq pc) w' (Iac rq pc')"
  using assms by (auto simp: iac_move_def)

lemma system_bounded: "iac_system s w ts \<Longrightarrow> iac.bounded w ts"
proof (induction rule: iac_system.induct)
  case (start st)
  then show ?case by (intro iac.bounded_start) (simp add: may_have_applied_def)
next
  case (arrive w ts rq)
  then show ?case by (intro iac.bounded_arrive) auto
next
  case (step w ts i rq pc inp pc' w')
  have "iac_move s w (ts ! i) w' (Iac rq pc')" using system_moves [OF step.hyps(6)] step.hyps(3) by simp
  with step.IH step.hyps(2) show ?case by (rule iac.bounded_step)
qed

section \<open>What the log shows\<close>

text \<open>A request passed the gates with this plan under this claim; a create-class plan with its sidecar did.\<close>

definition admitted :: "iac_event list \<Rightarrow> iac_request \<Rightarrow> iac_ctx \<Rightarrow> bool" where
  "admitted evs rq cx \<longleftrightarrow>
     (\<exists>inp cx0. EvAdmit rq inp cx0 \<in> set evs \<and> cx_view cx0 = cx_view cx \<and> cx_key cx0 = cx_key cx)"

definition create_class :: "iac_event list \<Rightarrow> string \<Rightarrow> bool" where
  "create_class evs k \<longleftrightarrow>
     (\<exists>rq cx. admitted evs rq cx \<and> cx_key cx = k \<and> view_has_create (cx_view cx) \<and>
        vw_generation_iac_tree (cx_view cx) \<noteq> [] \<and> vw_iac_tree_hash (cx_view cx) \<noteq> [])"

definition confirms :: "worker_answer \<Rightarrow> string \<Rightarrow> bool" where
  "confirms a aid \<longleftrightarrow> (case a of Answered v \<Rightarrow> apply_confirmed v aid | _ \<Rightarrow> False)"

text \<open>The worker confirmed an apply of the approval; it did not confirm one; GitHub confirmed the merge, or refused.\<close>

definition confirmed :: "iac_event list \<Rightarrow> string \<Rightarrow> pyval \<Rightarrow> bool" where
  "confirmed evs k approval \<longleftrightarrow>
     (\<exists>rq cx resumed aid a. EvApply rq cx resumed aid a \<in> set evs \<and> cx_key cx = k \<and> approval = PStr aid \<and> confirms a aid)"

definition unconfirmed :: "iac_event list \<Rightarrow> string \<Rightarrow> pyval \<Rightarrow> bool" where
  "unconfirmed evs k approval \<longleftrightarrow>
     (\<exists>rq cx resumed aid a. EvApply rq cx resumed aid a \<in> set evs \<and> cx_key cx = k \<and> approval = PStr aid \<and> \<not> confirms a aid)"

definition merged_under :: "iac_event list \<Rightarrow> string \<Rightarrow> bool" where
  "merged_under evs k \<longleftrightarrow> (\<exists>rq cx mode gh ws d. EvMerge rq cx mode gh ws (Inr d) \<in> set evs \<and> cx_key cx = k)"

definition merge_failed :: "iac_event list \<Rightarrow> string \<Rightarrow> bool" where
  "merge_failed evs k \<longleftrightarrow> (\<exists>rq cx mode gh ws e. EvMerge rq cx mode gh ws (Inl e) \<in> set evs \<and> cx_key cx = k)"

text \<open>A decision says what happened.\<close>

definition outcome_true :: "iac_event list \<Rightarrow> string \<Rightarrow> pyval \<Rightarrow> pyval \<Rightarrow> pyval \<Rightarrow> bool" where
  "outcome_true evs k status merge_state approval \<longleftrightarrow>
     (status = PStr ''applied'' \<longrightarrow> confirmed evs k approval) \<and>
     (status \<in> {PStr ''failed'', PStr ''failed_state_suspect'', PStr ''ambiguous''} \<longrightarrow> unconfirmed evs k approval) \<and>
     (status = PStr ''waiting_for_rebake'' \<longrightarrow> create_class evs k) \<and>
     (merge_state = PStr ''merged'' \<longrightarrow> merged_under evs k) \<and>
     (merge_state = PStr ''failed'' \<longrightarrow> merge_failed evs k)"

definition doc_true :: "iac_event list \<Rightarrow> string \<Rightarrow> pydict \<Rightarrow> bool" where
  "doc_true evs k d \<longleftrightarrow> outcome_true evs k (dget d ''apply_status'') (dget d ''merge_state'') (dget d ''approval_id'')"

definition store_true :: "iac_event list \<Rightarrow> store \<Rightarrow> bool" where
  "store_true evs st \<longleftrightarrow>
     (\<forall>d \<in> set (map snd (st_decisions st)). \<forall>k. dget d ''event_key'' = PStr k \<longrightarrow> doc_true evs k d) \<and>
     (\<forall>k did. pointer k st = Some did \<longrightarrow> (\<exists>d. map_of (st_decisions st) did = Some d \<and> doc_true evs k d))"

text \<open>What a request has learned by the point it stands at.\<close>

fun mode_earned :: "iac_event list \<Rightarrow> string \<Rightarrow> merge_mode \<Rightarrow> bool" where
  "mode_earned evs k (AfterApply approval attempt applied_at) = confirmed evs k approval"
| "mode_earned evs k MergeFirst = create_class evs k"

definition resumable :: "iac_event list \<Rightarrow> string \<Rightarrow> bool" where
  "resumable evs k \<longleftrightarrow> create_class evs k \<and> merged_under evs k"

definition fields_true :: "iac_event list \<Rightarrow> string \<Rightarrow> decision_fields \<Rightarrow> bool" where
  "fields_true evs k f \<longleftrightarrow> outcome_true evs k (PStr (df_apply_status f)) (PStr (df_merge_state f)) (df_approval_id f)"

fun pc_earned :: "iac_event list \<Rightarrow> iac_request \<Rightarrow> iac_pc \<Rightarrow> bool" where
  "pc_earned evs rq (IFind cx) = admitted evs rq cx"
| "pc_earned evs rq (IReady cx) = admitted evs rq cx"
| "pc_earned evs rq (IClaim cx) = admitted evs rq cx"
| "pc_earned evs rq (IRefind cx) = admitted evs rq cx"
| "pc_earned evs rq (IPropose cx) = (admitted evs rq cx \<and> \<not> view_has_create (cx_view cx))"
| "pc_earned evs rq (IHead cx aid tok) = (admitted evs rq cx \<and> \<not> view_has_create (cx_view cx))"
| "pc_earned evs rq (IApply cx aid tok) = (admitted evs rq cx \<and> \<not> view_has_create (cx_view cx))"
| "pc_earned evs rq (IMerge cx mode) = (admitted evs rq cx \<and> mode_earned evs (cx_key cx) mode)"
| "pc_earned evs rq (IRecord cx f nx) =
     (admitted evs rq cx \<and> fields_true evs (cx_key cx) f \<and> (nx = MergeNext \<longrightarrow> create_class evs (cx_key cx)))"
| "pc_earned evs rq (IBaked cx) = (admitted evs rq cx \<and> resumable evs (cx_key cx))"
| "pc_earned evs rq (IResumePropose cx) = (admitted evs rq cx \<and> resumable evs (cx_key cx))"
| "pc_earned evs rq (IResumeApply cx aid tok) = (admitted evs rq cx \<and> resumable evs (cx_key cx))"
| "pc_earned evs rq _ = True"

fun event_earned :: "iac_settings \<Rightarrow> iac_event list \<Rightarrow> iac_event \<Rightarrow> bool" where
  "event_earned s evs (EvAdmit rq inp cx) = (iac_gates s rq inp = Inr cx)"
| "event_earned s evs (EvPropose rq cx) = admitted evs rq cx"
| "event_earned s evs (EvApply rq cx resumed aid a) =
     (admitted evs rq cx \<and> (if resumed then resumable evs (cx_key cx) else \<not> view_has_create (cx_view cx)))"
| "event_earned s evs (EvMerge rq cx mode gh ws r) =
     (admitted evs rq cx \<and> mode_earned evs (cx_key cx) mode \<and>
      merge_pr_at_sha gh (iq_pr_number rq) (view_head_sha (cx_view cx)) (required_checks s) (merge_method s)
        (is_dry_run s) ''main'' = (ws, r))"

definition log_earned :: "iac_settings \<Rightarrow> iac_event list \<Rightarrow> bool" where
  "log_earned s evs \<longleftrightarrow> (\<forall>before e later. evs = before @ e # later \<longrightarrow> event_earned s before e)"

lemma log_earned_Nil [simp]: "log_earned s []"
  by (simp add: log_earned_def)

lemma log_earned_snoc [simp]: "log_earned s (evs @ [e]) \<longleftrightarrow> log_earned s evs \<and> event_earned s evs e"
proof
  assume l: "log_earned s (evs @ [e])"
  have "event_earned s before e'" if "evs = before @ e' # later" for before e' later
    using l that unfolding log_earned_def by (metis append.assoc append_Cons)
  with l show "log_earned s evs \<and> event_earned s evs e" unfolding log_earned_def by blast
next
  assume l: "log_earned s evs \<and> event_earned s evs e"
  show "log_earned s (evs @ [e])"
    unfolding log_earned_def
  proof (intro allI impI)
    fix before e' later
    assume "evs @ [e] = before @ e' # later"
    then show "event_earned s before e'"
      using l by (cases later rule: rev_cases) (auto simp: log_earned_def)
  qed
qed

section \<open>What happened stays so\<close>

named_theorems log_mono \<open>facts of the log that later events keep\<close>

lemma admitted_mono [log_mono]: "admitted evs rq cx \<Longrightarrow> admitted (evs @ es) rq cx"
  by (auto simp: admitted_def)

lemma create_class_mono [log_mono]: "create_class evs k \<Longrightarrow> create_class (evs @ es) k"
  using admitted_mono by (fastforce simp: create_class_def)

lemma confirmed_mono [log_mono]: "confirmed evs k v \<Longrightarrow> confirmed (evs @ es) k v"
  unfolding confirmed_def by fastforce

lemma unconfirmed_mono [log_mono]: "unconfirmed evs k v \<Longrightarrow> unconfirmed (evs @ es) k v"
  unfolding unconfirmed_def by fastforce

lemma merged_under_mono [log_mono]: "merged_under evs k \<Longrightarrow> merged_under (evs @ es) k"
  unfolding merged_under_def by fastforce

lemma merge_failed_mono [log_mono]: "merge_failed evs k \<Longrightarrow> merge_failed (evs @ es) k"
  unfolding merge_failed_def by fastforce

lemma outcome_mono [log_mono]: "outcome_true evs k a b c \<Longrightarrow> outcome_true (evs @ es) k a b c"
  unfolding outcome_true_def using confirmed_mono unconfirmed_mono create_class_mono merged_under_mono merge_failed_mono by meson

lemma doc_mono [log_mono]: "doc_true evs k d \<Longrightarrow> doc_true (evs @ es) k d"
  unfolding doc_true_def by (rule outcome_mono)

lemma store_mono [log_mono]: "store_true evs st \<Longrightarrow> store_true (evs @ es) st"
  unfolding store_true_def using doc_mono by meson

lemma mode_mono [log_mono]: "mode_earned evs k m \<Longrightarrow> mode_earned (evs @ es) k m"
  by (cases m) (simp_all add: log_mono)

lemma pc_mono [log_mono]: "pc_earned evs rq pc \<Longrightarrow> pc_earned (evs @ es) rq pc"
  by (cases pc) (simp_all add: resumable_def fields_true_def log_mono)

section \<open>The store says what happened\<close>

lemma store_find:
  assumes "store_true evs st" and "find_decision_for_event k st = Some d"
  shows "doc_true evs k d"
proof (cases "pointer k st")
  case None
  with assms(2) have ne: "decisions_with_key k st \<noteq> []" and d: "d = last (decisions_with_key k st)"
    by (auto simp: find_decision_for_event_def Let_def split: if_splits)
  from last_in_set [OF ne] d have "d \<in> set (map snd (st_decisions st))" "dget d ''event_key'' = PStr k"
    by (auto simp: decisions_with_key_def)
  with assms(1) show ?thesis unfolding store_true_def by blast
next
  case (Some did)
  with assms(2) have "map_of (st_decisions st) did = Some d" by (simp add: find_decision_for_event_def get_decision_def)
  with Some assms(1) show ?thesis unfolding store_true_def by fastforce
qed

lemma store_true_claim:
  assumes "store_true evs st" and "record_event k p st = (first, st')"
  shows "store_true evs st'"
  using record_event_cases [OF assms(2)] assms(1) by (auto simp: store_true_def pointer_def split: if_splits)

lemma store_true_release: "store_true evs st \<Longrightarrow> store_true evs (release_event k st)"
  by (auto simp: store_true_def pointer_def store_simps split: if_splits)

lemma iac_decision_record:
  "dget (decision_record t k (iac_decision rq cx f now did trace)) ''apply_status'' = PStr (df_apply_status f)"
  "dget (decision_record t k (iac_decision rq cx f now did trace)) ''merge_state'' = PStr (df_merge_state f)"
  "dget (decision_record t k (iac_decision rq cx f now did trace)) ''approval_id'' = df_approval_id f"
  "dget (decision_record t k (iac_decision rq cx f now did trace)) ''event_key'' = PStr k"
  by (simp_all add: decision_record_def iac_decision_def dget_or_def)

lemma store_true_record:
  assumes st: "store_true evs st" and f: "fields_true evs k f" and did: "did \<noteq> []" "map_of (st_decisions st) did = None"
  shows "store_true evs (record_decision now did k (iac_decision rq cx f now did trace) st)"
proof -
  let ?d = "decision_record now k (iac_decision rq cx f now did trace)"
  let ?st = "record_decision now did k (iac_decision rq cx f now did trace) st"
  have d: "doc_true evs k ?d" using f by (simp add: doc_true_def fields_true_def iac_decision_record)
  have ds: "st_decisions ?st = st_decisions st @ [(did, ?d)]" using update_new [OF did(2)] by (simp add: record_decision_def)
  have "doc_true evs j e" if "e \<in> set (map snd (st_decisions ?st))" "dget e ''event_key'' = PStr j" for e j
    using that ds d st by (auto simp: store_true_def iac_decision_record)
  moreover have "\<exists>e. map_of (st_decisions ?st) i = Some e \<and> doc_true evs j e" if "pointer j ?st = Some i" for i j
  proof (cases "j = k")
    case True
    with that did have "i = did" by (auto simp: pointer_def store_simps split: list.splits)
    with True d ds did show ?thesis by (simp add: map_add_def)
  next
    case False
    with that have "pointer j st = Some i" by (simp add: pointer_def store_simps)
    with st obtain e where "map_of (st_decisions st) i = Some e" "doc_true evs j e" unfolding store_true_def by blast
    with ds did show ?thesis by (auto simp: map_add_def)
  qed
  ultimately show ?thesis unfolding store_true_def by blast
qed

section \<open>Every step keeps it\<close>

lemma admitted_title [simp]: "admitted evs rq (cx\<lparr>cx_title := t\<rparr>) = admitted evs rq cx"
  by (simp add: admitted_def)

lemma handle_existing_earned:
  assumes "admitted evs rq cx" and "doc_true evs (cx_key cx) d"
  shows "pc_earned evs rq (handle_existing_iac_decision cx d)"
  using assms
  by (auto simp: handle_existing_iac_decision_def Let_def doc_true_def outcome_true_def resumable_def split: sum.split)

lemma found_earned:
  assumes "admitted evs rq cx" and "store_true evs st" and "pc_earned evs rq other"
  shows "pc_earned evs rq (found_pc cx fault st other)"
  using assms handle_existing_earned store_find by (auto simp: found_pc_def split: option.split)

lemma outcome_simps [simp]:
  "outcome_true evs k (PStr ''waiting_for_rebake'') (PStr ''pending'') v = create_class evs k"
  "outcome_true evs k (PStr ''waiting_for_rebake'') (PStr ''merged'') v = (create_class evs k \<and> merged_under evs k)"
  "outcome_true evs k (PStr ''applied'') (PStr ''merged'') v = (confirmed evs k v \<and> merged_under evs k)"
  "outcome_true evs k (PStr ''applied'') (PStr ''failed'') v = (confirmed evs k v \<and> merge_failed evs k)"
  "outcome_true evs k (PStr ''failed'') (PStr ''n/a'') v = unconfirmed evs k v"
  "outcome_true evs k (PStr ''failed_state_suspect'') (PStr ''n/a'') v = unconfirmed evs k v"
  "outcome_true evs k (PStr ''ambiguous'') (PStr ''n/a'') v = unconfirmed evs k v"
  "outcome_true evs k (PStr ''failed_state_suspect'') (PStr ''merged'') v = (unconfirmed evs k v \<and> merged_under evs k)"
  "outcome_true evs k (PStr ''ambiguous'') (PStr ''merged'') v = (unconfirmed evs k v \<and> merged_under evs k)"
  by (simp_all add: outcome_true_def)

lemma fields_of_true [simp]:
  "fields_true evs k (fields_of a b c d) = outcome_true evs k (PStr a) (PStr b) c"
  "fields_true evs k ((fields_of a b c d)\<lparr>df_applied_at := t\<rparr>) = outcome_true evs k (PStr a) (PStr b) c"
  by (simp_all add: fields_true_def fields_of_def)

lemma route_earned: "admitted evs rq cx \<Longrightarrow> pc_earned evs rq (route_claimed cx)"
  by (auto simp: route_claimed_def create_class_def)

lemma propose_earned:
  "admitted evs rq cx \<Longrightarrow> \<not> view_has_create (cx_view cx) \<Longrightarrow> pc_earned evs rq (after_propose cx a)"
  by (auto simp: after_propose_def split: worker_answer.split option.split)

lemma head_earned:
  "admitted evs rq cx \<Longrightarrow> \<not> view_has_create (cx_view cx) \<Longrightarrow> pc_earned evs rq (after_head cx aid tok h)"
  by (auto simp: after_head_def split: sum.split)

lemma logged_answer:
  "EvApply rq cx resumed aid a \<in> set evs \<Longrightarrow> confirms a aid \<Longrightarrow> confirmed evs (cx_key cx) (PStr aid)"
  "EvApply rq cx resumed aid a \<in> set evs \<Longrightarrow> \<not> confirms a aid \<Longrightarrow> unconfirmed evs (cx_key cx) (PStr aid)"
  unfolding confirmed_def unconfirmed_def by blast+

lemma apply_earned:
  assumes "admitted evs rq cx" and "EvApply rq cx False aid a \<in> set evs"
  shows "pc_earned evs rq (after_apply cx aid tok a)"
  using assms logged_answer [OF assms(2)]
  by (auto simp: after_apply_def after_apply_error_def Let_def confirms_def split: worker_answer.split)

lemma resume_apply_earned:
  assumes "admitted evs rq cx" and "resumable evs (cx_key cx)" and "EvApply rq cx True aid a \<in> set evs"
  shows "pc_earned evs rq (after_resume_apply cx aid tok a)"
  using assms(1,2) logged_answer [OF assms(3)]
  by (auto simp: after_resume_apply_def Let_def confirms_def resumable_def split: worker_answer.split)

lemma baked_earned:
  assumes "admitted evs rq cx" and "resumable evs (cx_key cx)"
  shows "pc_earned evs rq (baked_pc cx a)" "pc_earned evs rq (after_resume_propose cx a)"
  using assms by (auto simp: baked_pc_def after_resume_propose_def Let_def split: pyval.split worker_answer.split option.split)

lemma merge_earned:
  assumes "admitted evs rq cx" and "mode_earned evs (cx_key cx) mode" and "EvMerge rq cx mode gh ws r \<in> set evs"
  shows "pc_earned evs rq (after_merge rq cx mode r)"
proof -
  have "r = Inr d \<Longrightarrow> merged_under evs (cx_key cx)" "r = Inl e \<Longrightarrow> merge_failed evs (cx_key cx)" for d e
    using assms(3) unfolding merged_under_def merge_failed_def by blast+
  with assms(1,2) show ?thesis by (auto simp: after_merge_def split: merge_mode.splits sum.split)
qed

definition earned :: "iac_settings \<Rightarrow> iac_world \<Rightarrow> bool" where
  "earned s w \<longleftrightarrow> store_true (iw_log w) (iw_store w) \<and> log_earned s (iw_log w)"

definition step_earns :: "iac_settings \<Rightarrow> iac_world \<Rightarrow> iac_request \<Rightarrow> iac_pc \<Rightarrow> iac_world \<Rightarrow> bool" where
  "step_earns s w rq pc' w' \<longleftrightarrow> earned s w' \<and> pc_earned (iw_log w') rq pc' \<and> (\<exists>es. iw_log w' = iw_log w @ es)"

lemma earns_same: "earned s w \<Longrightarrow> pc_earned (iw_log w) rq pc' \<Longrightarrow> step_earns s w rq pc' w"
  by (simp add: step_earns_def)

lemma earns_logged:
  assumes "earned s w" and "event_earned s (iw_log w) e" and "pc_earned (iw_log w @ [e]) rq pc'"
  shows "step_earns s w rq pc' (logged e w)"
  using assms by (simp add: step_earns_def earned_def store_mono)

lemma earns_write:
  assumes "store_write fault f nx w = (pc', w')" and "earned s w" and "store_true (iw_log w) (f (iw_store w))"
    and "pc_earned (iw_log w) rq nx"
  shows "step_earns s w rq pc' w'"
  using assms by (elim store_write_cases) (auto simp: step_earns_def earned_def)

lemma step_earned:
  assumes e: "earned s w" and pc: "pc_earned (iw_log w) rq pc"
    and did: "ii_decision_id inp \<noteq> []" "map_of (st_decisions (iw_store w)) (ii_decision_id inp) = None"
    and st: "iac_step s rq inp pc w = (pc', w')"
  shows "step_earns s w rq pc' w'"
proof -
  have tr: "store_true (iw_log w) (iw_store w)" using e by (simp add: earned_def)
  let ?a = "worker_call (ii_worker inp)"
  show ?thesis
  proof (cases pc)
    case IStart
    show ?thesis
    proof (cases "iq_reject rq \<or> (\<exists>a. iac_gates s rq inp = Inl a)")
      case True
      with IStart st e show ?thesis by (auto intro!: earns_same split: if_splits)
    next
      case False
      then obtain cx where g: "iac_gates s rq inp = Inr cx" by (cases "iac_gates s rq inp") auto
      with IStart st False have "pc' = IFind cx" "w' = logged (EvAdmit rq inp cx) w" by simp_all
      moreover have "admitted (iw_log w @ [EvAdmit rq inp cx]) rq cx" unfolding admitted_def by fastforce
      ultimately show ?thesis using e g by (auto intro!: earns_logged)
    qed
  next
    case (IFind cx)
    with st e pc tr found_earned show ?thesis by (auto intro!: earns_same)
  next
    case (IReady cx)
    with st e pc show ?thesis by (auto intro!: earns_same split: sum.splits)
  next
    case (IClaim cx)
    obtain first st' where rec: "record_event (cx_key cx) (claim_payload rq cx) (iw_store w) = (first, st')" by fastforce
    with st IClaim have "store_write (ii_fault inp) (\<lambda>_. st') (if first then route_claimed cx else IRefind cx) w = (pc', w')" by simp
    from earns_write [OF this e] store_true_claim [OF tr rec] pc IClaim route_earned show ?thesis by auto
  next
    case (IRefind cx)
    with st e pc tr found_earned show ?thesis by (auto intro!: earns_same)
  next
    case (IPropose cx)
    with st e pc propose_earned show ?thesis by (auto intro!: earns_logged simp: log_mono)
  next
    case (IHead cx aid tok)
    with st e pc head_earned show ?thesis by (auto intro!: earns_same)
  next
    case (IApply cx aid tok)
    then have "pc' = after_apply cx aid tok ?a" "w' = logged (EvApply rq cx False aid ?a) w" using st by simp_all
    moreover have "pc_earned (iw_log w @ [EvApply rq cx False aid ?a]) rq (after_apply cx aid tok ?a)"
      using pc IApply by (intro apply_earned) (auto simp: log_mono)
    ultimately show ?thesis using e pc IApply by (auto intro!: earns_logged)
  next
    case (IDeny cx aid tok a)
    with st e show ?thesis by (auto intro!: earns_same)
  next
    case (IRelease cx a)
    with st have "store_write (ii_fault inp) (release_event (cx_key cx)) (IDone a) w = (pc', w')" by simp
    from earns_write [OF this e] store_true_release [OF tr] show ?thesis by simp
  next
    case (IMerge cx mode)
    obtain ws r where m: "merge_pr_at_sha (ii_github inp) (iq_pr_number rq) (view_head_sha (cx_view cx)) (required_checks s)
        (merge_method s) (is_dry_run s) ''main'' = (ws, r)" by fastforce
    with IMerge st have r: "pc' = after_merge rq cx mode r" "w' = logged (EvMerge rq cx mode (ii_github inp) ws r) w" by simp_all
    have "pc_earned (iw_log w @ [EvMerge rq cx mode (ii_github inp) ws r]) rq (after_merge rq cx mode r)"
      using pc IMerge by (intro merge_earned) (auto simp: log_mono)
    moreover have "event_earned s (iw_log w) (EvMerge rq cx mode (ii_github inp) ws r)" using m pc IMerge by auto
    ultimately show ?thesis using e r by (auto intro!: earns_logged)
  next
    case (IRecord cx f nx)
    let ?g = "record_decision (ii_now inp) (ii_decision_id inp) (cx_key cx)
          (iac_decision rq cx f (ii_now inp) (ii_decision_id inp) (ii_trace_id inp))"
    have sw: "store_write (ii_fault inp) ?g (recorded_next nx cx) w = (pc', w')" using st IRecord by simp
    have "store_true (iw_log w) (?g (iw_store w))" using pc IRecord by (intro store_true_record tr did) simp
    moreover have "pc_earned (iw_log w) rq (recorded_next nx cx)" using pc IRecord by (cases nx) auto
    ultimately show ?thesis using earns_write [OF sw e] by simp
  next
    case (INotify a)
    with st e show ?thesis by (auto intro!: earns_same)
  next
    case (IBaked cx)
    with st e pc baked_earned show ?thesis by (auto intro!: earns_same)
  next
    case (IResumePropose cx)
    with st e pc show ?thesis by (auto intro!: earns_logged baked_earned simp: log_mono resumable_def)
  next
    case (IResumeApply cx aid tok)
    then have "pc' = after_resume_apply cx aid tok ?a" "w' = logged (EvApply rq cx True aid ?a) w" using st by simp_all
    moreover have "pc_earned (iw_log w @ [EvApply rq cx True aid ?a]) rq (after_resume_apply cx aid tok ?a)"
      using pc IResumeApply by (intro resume_apply_earned) (auto simp: log_mono resumable_def)
    ultimately show ?thesis using e pc IResumeApply by (auto intro!: earns_logged)
  next
    case (IResumeDeny cx aid tok a)
    with st e show ?thesis by (auto intro!: earns_same)
  next
    case (IDone a)
    with st e show ?thesis by (auto intro!: earns_same)
  qed
qed

fun thread_earned :: "iac_event list \<Rightarrow> iac_thread \<Rightarrow> bool" where
  "thread_earned evs (Iac rq pc) = pc_earned evs rq pc"

lemma doc_true_blank: "dget d ''apply_status'' = PNone \<Longrightarrow> dget d ''merge_state'' = PNone \<Longrightarrow> doc_true evs k d"
  by (simp add: doc_true_def outcome_true_def)

lemma start_true: "iac_start st \<Longrightarrow> store_true evs st"
  unfolding store_true_def
proof (intro conjI ballI allI impI)
  fix d k
  assume "iac_start st" "d \<in> set (map snd (st_decisions st))"
  then show "doc_true evs k d" by (intro doc_true_blank) (auto simp: iac_start_def)
next
  fix k did
  assume st: "iac_start st" "pointer k st = Some did"
  then obtain d where d: "map_of (st_decisions st) did = Some d" unfolding iac_start_def by blast
  with st(1) have "doc_true evs k d" by (intro doc_true_blank) (auto simp: iac_start_def dest!: map_of_SomeD)
  with d show "\<exists>d. map_of (st_decisions st) did = Some d \<and> doc_true evs k d" by blast
qed

lemma iac_system_earned: "iac_system s w ts \<Longrightarrow> earned s w \<and> (\<forall>t \<in> set ts. thread_earned (iw_log w) t)"
proof (induction rule: iac_system.induct)
  case (start st)
  then show ?case by (simp add: earned_def start_true)
next
  case (arrive w ts rq)
  then show ?case by simp
next
  case (step w ts i rq pc inp pc' w')
  have "thread_earned (iw_log w) (ts ! i)" using step.IH nth_mem [OF step.hyps(2)] by blast
  then have "pc_earned (iw_log w) rq pc" using step.hyps(3) by simp
  from step_earned [OF _ this step.hyps(4,5,6)] step.IH have se: "step_earns s w rq pc' w'" by simp
  then obtain es where es: "iw_log w' = iw_log w @ es" by (auto simp: step_earns_def)
  have "thread_earned (iw_log w') t" if "t \<in> set ts" for t
    using step.IH that pc_mono es by (cases t) fastforce
  with se set_update_subset_insert [of ts i "Iac rq pc'"] show ?case by (auto simp: step_earns_def)
qed

section \<open>What the coordinator guarantees\<close>

lemma pin_checks_Inr:
  assumes "pin_checks s rq inp payload = Inr v"
  obtains ref where "ii_plan inp = (ref, Some v)" "\<not> vw_unverifiable v" "vw_integrity_ok v" "vw_denylist_violations v = []"
    "iac_artifact_consistent ref v (iq_pr_number rq) = Inr True" "pinned payload ref v"
proof -
  obtain ref vo where p: "ii_plan inp = (ref, vo)" by fastforce
  with assms obtain u where vo: "vo = Some u" by (cases vo) (auto simp: pin_checks_def)
  with assms p have "u = v \<and> \<not> vw_unverifiable v \<and> vw_integrity_ok v \<and> vw_denylist_violations v = [] \<and>
      iac_artifact_consistent ref v (iq_pr_number rq) = Inr True \<and> pinned payload ref v"
    by (auto simp: pin_checks_def rbind_Inr_iff lift_exc_def split: sum.splits)
  with p vo show ?thesis using that by blast
qed

lemma iac_gates_Inr:
  assumes "iac_gates s rq inp = Inr cx"
  obtains payload ref where
    "check_iac_origin (is_ip_literal s) (is_coordinator_origin s) (iq_origin rq) (iq_sec_fetch_site rq)"
    "verify_form_token (is_hmac s) (is_driftscribe_token s) (iq_form_token rq) (iq_pr_number rq) (ii_now inp) = Inr (Some payload)"
    "\<not> is_dry_run s" "\<not> ps_paused (read_pause_state (ii_pause inp))" "as_mode (read_autonomy_state (ii_dial inp)) = ''propose_apply''"
    "pin_checks s rq inp payload = Inr (cx_view cx)"
    "cx_key cx = iac_event_key s (iq_pr_number rq) (view_head_sha (cx_view cx)) (vw_generation_metadata (cx_view cx))"
proof -
  from assms obtain got where o: "check_iac_origin (is_ip_literal s) (is_coordinator_origin s) (iq_origin rq) (iq_sec_fetch_site rq)"
    and g: "verify_form_token (is_hmac s) (is_driftscribe_token s) (iq_form_token rq) (iq_pr_number rq) (ii_now inp) = Inr got"
    by (auto simp: iac_gates_def rbind_Inr_iff lift_exc_def split: sum.splits)
  with assms obtain payload where p: "got = Some payload"
    by (cases got) (auto simp: iac_gates_def rbind_Inr_iff lift_exc_def split: sum.splits)
  with assms o g have "\<not> is_dry_run s \<and> \<not> ps_paused (read_pause_state (ii_pause inp)) \<and>
      as_mode (read_autonomy_state (ii_dial inp)) = ''propose_apply'' \<and> pin_checks s rq inp payload = Inr (cx_view cx) \<and>
      cx_key cx = iac_event_key s (iq_pr_number rq) (view_head_sha (cx_view cx)) (vw_generation_metadata (cx_view cx))"
    by (auto simp: iac_gates_def rbind_Inr_iff lift_exc_def Let_def)
  with o g p that show ?thesis by blast
qed

lemma log_event:
  assumes "iac_system s w ts" and "iw_log w = before @ e # later"
  shows "event_earned s before e"
  using iac_system_earned [OF assms(1)] assms(2) by (auto simp: earned_def log_earned_def)

text \<open>C2: A plan is applied once: in every state that the approval requests can reach, however they interleave,
  wherever they die and whichever store writes are lost, no plan (a pull request, its head and the generation of
  its metadata) has two first applies that the worker did not refuse; and the claim of a plan with one such
  apply, answered or not, still stands, so that no later request can win it.\<close>

theorem plan_applied_once_per_claim:
  assumes "iac_system s w ts"
  shows "distinct (may_have_applied w) \<and> (\<forall>k \<in> set (may_have_applied w). plan_claimed w k)"
  using iac.effects_once [OF system_bounded [OF assms]] .

text \<open>The request and the plan of a call.\<close>

fun acts :: "iac_event \<Rightarrow> (iac_request \<times> iac_ctx) option" where
  "acts (EvAdmit rq inp cx) = None"
| "acts (EvPropose rq cx) = Some (rq, cx)"
| "acts (EvApply rq cx resumed aid a) = Some (rq, cx)"
| "acts (EvMerge rq cx mode gh ws r) = Some (rq, cx)"

lemma acts_admitted: "event_earned s before e \<Longrightarrow> acts e = Some (rq, cx) \<Longrightarrow> admitted before rq cx"
  by (cases e) auto

text \<open>C4: Nothing is proposed, applied or merged that did not pass every gate first: before any such call, its
  request was same-origin, presented a form token that verifies for its pull request and is not expired, found
  the coordinator outside dry-run, unpaused and with the dial at its highest setting; and the plan it acts on is
  the one then resolved, verifiable, intact, with no denylist violation, consistent with the review comment,
  and in every pinned field the one whose page the operator saw.  The claim is the key of that plan.\<close>

theorem changes_were_admitted:
  assumes "iac_system s w ts" and "iw_log w = before @ e # later" and "acts e = Some (rq, cx)"
  shows "\<exists>inp cx0 payload ref. EvAdmit rq inp cx0 \<in> set before \<and> cx_view cx0 = cx_view cx \<and>
    cx_key cx = iac_event_key s (iq_pr_number rq) (view_head_sha (cx_view cx)) (vw_generation_metadata (cx_view cx)) \<and>
    check_iac_origin (is_ip_literal s) (is_coordinator_origin s) (iq_origin rq) (iq_sec_fetch_site rq) \<and>
    verify_form_token (is_hmac s) (is_driftscribe_token s) (iq_form_token rq) (iq_pr_number rq) (ii_now inp) = Inr (Some payload) \<and>
    \<not> is_dry_run s \<and> \<not> ps_paused (read_pause_state (ii_pause inp)) \<and> as_mode (read_autonomy_state (ii_dial inp)) = ''propose_apply'' \<and>
    ii_plan inp = (ref, Some (cx_view cx)) \<and> \<not> vw_unverifiable (cx_view cx) \<and> vw_integrity_ok (cx_view cx) \<and>
    vw_denylist_violations (cx_view cx) = [] \<and>
    iac_artifact_consistent ref (cx_view cx) (iq_pr_number rq) = Inr True \<and> pinned payload ref (cx_view cx)"
proof -
  from acts_admitted [OF log_event [OF assms(1,2)] assms(3)] obtain inp cx0 where
    ev: "EvAdmit rq inp cx0 \<in> set before" and same: "cx_view cx0 = cx_view cx" "cx_key cx0 = cx_key cx"
    unfolding admitted_def by blast
  from ev obtain b1 b2 where "before = b1 @ EvAdmit rq inp cx0 # b2" by (meson split_list)
  with assms(2) have "iw_log w = b1 @ EvAdmit rq inp cx0 # (b2 @ e # later)" by simp
  from log_event [OF assms(1) this] have g: "iac_gates s rq inp = Inr cx0" by simp
  from iac_gates_Inr [OF g] obtain payload where
    a: "check_iac_origin (is_ip_literal s) (is_coordinator_origin s) (iq_origin rq) (iq_sec_fetch_site rq)"
    "verify_form_token (is_hmac s) (is_driftscribe_token s) (iq_form_token rq) (iq_pr_number rq) (ii_now inp) = Inr (Some payload)"
    "\<not> is_dry_run s" "\<not> ps_paused (read_pause_state (ii_pause inp))" "as_mode (read_autonomy_state (ii_dial inp)) = ''propose_apply''"
    "pin_checks s rq inp payload = Inr (cx_view cx0)"
    "cx_key cx0 = iac_event_key s (iq_pr_number rq) (view_head_sha (cx_view cx0)) (vw_generation_metadata (cx_view cx0))"
    by metis
  from pin_checks_Inr [OF a(6)] obtain ref where "ii_plan inp = (ref, Some (cx_view cx0))" "\<not> vw_unverifiable (cx_view cx0)"
    "vw_integrity_ok (cx_view cx0)" "vw_denylist_violations (cx_view cx0) = []"
    "iac_artifact_consistent ref (cx_view cx0) (iq_pr_number rq) = Inr True" "pinned payload ref (cx_view cx0)"
    by metis
  with a ev same show ?thesis
    by (intro exI [of _ inp] exI [of _ cx0] exI [of _ payload] exI [of _ ref]) simp
qed

text \<open>C5: Every merge was earned: a merge that wrote anything first asked GitHub to merge this pull request at the
  reviewed head and nothing else, with that head mergeable, on main, and every required check green on it; and
  before it either the worker had confirmed, under the same claim, an apply of the approval it records, or a
  create-class plan with its tree sidecar had been admitted under that claim.\<close>

theorem merges_were_earned:
  assumes "iac_system s w ts" and "iw_log w = before @ EvMerge rq cx mode gh ws r # later" and "ws \<noteq> []"
  shows "(\<exists>pr k crs rest. k \<le> 3 \<and> gh_pull gh k = Inr pr \<and>
      ws = MergePull (iq_pr_number rq) (merge_method s) (view_head_sha (cx_view cx)) # rest \<and>
      (rest = [] \<or> (\<exists>t m sha. rest = [CommentOn (iq_pr_number rq) t] \<and> gh_merge gh = Merged True m sha)) \<and>
      pu_head_sha pr = view_head_sha (cx_view cx) \<and> pu_base_ref pr = ''main'' \<and> mergeable_now pr \<and> required_checks s \<noteq> [] \<and>
      gh_check_runs gh (view_head_sha (cx_view cx)) = Inr crs \<and> (\<forall>name \<in> set (required_checks s). passed crs name)) \<and>
    (case mode of
       AfterApply approval attempt applied_at \<Rightarrow> confirmed before (cx_key cx) approval
     | MergeFirst \<Rightarrow> create_class before (cx_key cx))"
proof
  have e: "mode_earned before (cx_key cx) mode" "merge_pr_at_sha gh (iq_pr_number rq) (view_head_sha (cx_view cx)) (required_checks s)
      (merge_method s) (is_dry_run s) ''main'' = (ws, r)"
    using log_event [OF assms(1,2)] by simp_all
  from merge_at_sha_writes [OF e(2) assms(3)] show "\<exists>pr k crs rest. k \<le> 3 \<and> gh_pull gh k = Inr pr \<and>
      ws = MergePull (iq_pr_number rq) (merge_method s) (view_head_sha (cx_view cx)) # rest \<and>
      (rest = [] \<or> (\<exists>t m sha. rest = [CommentOn (iq_pr_number rq) t] \<and> gh_merge gh = Merged True m sha)) \<and>
      pu_head_sha pr = view_head_sha (cx_view cx) \<and> pu_base_ref pr = ''main'' \<and> mergeable_now pr \<and> required_checks s \<noteq> [] \<and>
      gh_check_runs gh (view_head_sha (cx_view cx)) = Inr crs \<and> (\<forall>name \<in> set (required_checks s). passed crs name)"
    by metis
  show "case mode of AfterApply approval attempt applied_at \<Rightarrow> confirmed before (cx_key cx) approval
     | MergeFirst \<Rightarrow> create_class before (cx_key cx)"
    using e(1) by (cases mode) simp_all
qed

text \<open>C6: What the coordinator records, and later resumes from, is what happened: the decision that any request finds
  for a plan says \<open>applied\<close> only if the worker confirmed an apply of that very approval under the plan's claim,
  an outcome that failed or is uncertain only if an apply of that approval was called and not confirmed, and a
  merge done or failed only if GitHub was asked and answered so; and it waits for a rebuild only for an
  admitted create-class plan.\<close>

theorem recorded_outcomes_true:
  assumes "iac_system s w ts" and "find_decision_for_event k (iw_store w) = Some d"
  shows "(dget d ''apply_status'' = PStr ''applied'' \<longrightarrow> confirmed (iw_log w) k (dget d ''approval_id'')) \<and>
    (dget d ''apply_status'' \<in> {PStr ''failed'', PStr ''failed_state_suspect'', PStr ''ambiguous''} \<longrightarrow>
       unconfirmed (iw_log w) k (dget d ''approval_id'')) \<and>
    (dget d ''apply_status'' = PStr ''waiting_for_rebake'' \<longrightarrow> create_class (iw_log w) k) \<and>
    (dget d ''merge_state'' = PStr ''merged'' \<longrightarrow> merged_under (iw_log w) k) \<and>
    (dget d ''merge_state'' = PStr ''failed'' \<longrightarrow> merge_failed (iw_log w) k)"
proof -
  have "store_true (iw_log w) (iw_store w)" using iac_system_earned [OF assms(1)] by (simp add: earned_def)
  from store_find [OF this assms(2)] show ?thesis unfolding doc_true_def outcome_true_def .
qed

section \<open>A request ends\<close>

text \<open>One request on its own, while everything around it changes from step to step.\<close>

fun post_run :: "iac_settings \<Rightarrow> iac_request \<Rightarrow> (iac_input \<times> iac_world) list \<Rightarrow> iac_pc \<Rightarrow> iac_pc" where
  "post_run s rq [] pc = pc"
| "post_run s rq ((inp, w) # rest) pc = post_run s rq rest (fst (iac_step s rq inp pc w))"

fun iac_depth :: "iac_pc \<Rightarrow> nat" where
  "iac_depth IStart = 10"
| "iac_depth (IFind _) = 9"
| "iac_depth (IReady _) = 8"
| "iac_depth (IClaim _) = 7"
| "iac_depth (IRefind _) = 6"
| "iac_depth (IPropose _) = 6"
| "iac_depth (IHead _ _ _) = 5"
| "iac_depth (IApply _ _ _) = 4"
| "iac_depth (IDeny _ _ _ _) = 2"
| "iac_depth (IRelease _ _) = 1"
| "iac_depth (IMerge _ _) = 3"
| "iac_depth (IRecord _ _ nx) = (if nx = MergeNext then 4 else 2)"
| "iac_depth (INotify _) = 1"
| "iac_depth (IBaked _) = 5"
| "iac_depth (IResumePropose _) = 4"
| "iac_depth (IResumeApply _ _ _) = 3"
| "iac_depth (IResumeDeny _ _ _ _) = 1"
| "iac_depth (IDone _) = 0"

lemma depth_0: "iac_depth pc = 0 \<Longrightarrow> \<exists>a. pc = IDone a"
  by (cases pc) (auto split: if_splits)

lemma existing_depth: "iac_depth (handle_existing_iac_decision cx d) \<le> 5"
  by (auto simp: handle_existing_iac_decision_def Let_def split: sum.split)

lemma found_depth: "iac_depth other \<le> n \<Longrightarrow> 5 \<le> n \<Longrightarrow> iac_depth (found_pc cx fault st other) \<le> n"
  by (auto simp: found_pc_def intro: le_trans [OF existing_depth] split: option.split)

lemma write_depth: "iac_depth nx \<le> n \<Longrightarrow> iac_depth (fst (store_write fault f nx w)) \<le> n"
  by (cases fault) (auto simp: store_write_def)

lemma route_depth: "iac_depth (route_claimed cx) \<le> 6"
  by (simp add: route_claimed_def)

lemma after_depth:
  "iac_depth (after_propose cx a) \<le> 5" "iac_depth (after_head cx aid tok h) \<le> 4" "iac_depth (after_apply cx aid tok a) \<le> 3"
  "iac_depth (after_merge rq cx mode r) \<le> 2" "iac_depth (baked_pc cx a) \<le> 4" "iac_depth (after_resume_propose cx a) \<le> 3"
  "iac_depth (after_resume_apply cx aid tok a) \<le> 2"
  by (auto simp: after_propose_def after_head_def after_apply_def after_apply_error_def after_merge_def baked_pc_def
        after_resume_propose_def after_resume_apply_def Let_def
      split: worker_answer.split option.split sum.split merge_mode.split pyval.split)

lemma iac_step_depth: "iac_depth (fst (iac_step s rq inp pc w)) \<le> iac_depth pc - 1"
proof (cases pc)
  case (IRecord cx f nx)
  then show ?thesis by (cases nx) (auto intro!: write_depth)
next
  case (IClaim cx)
  then show ?thesis using route_depth [of cx] by (auto intro!: write_depth split: prod.split)
next
  case (IRelease cx a)
  then show ?thesis using write_depth [of "IDone a" 0] by simp
qed (use after_depth in \<open>auto intro!: found_depth write_depth split: sum.split prod.split\<close>)

lemma post_run_depth: "iac_depth (post_run s rq steps pc) \<le> iac_depth pc - length steps"
proof (induction steps arbitrary: pc)
  case (Cons x steps)
  obtain inp w where x: "x = (inp, w)" by fastforce
  have "iac_depth (post_run s rq steps (fst (iac_step s rq inp pc w))) \<le> iac_depth (fst (iac_step s rq inp pc w)) - length steps"
    by (rule Cons.IH)
  with iac_step_depth [of s rq inp pc w] show ?case unfolding x by simp
qed simp

text \<open>An approval request always ends: after ten interactions with the store, GitHub and the worker, whatever each
  of them answers and whatever other requests change in between, it has an answer.\<close>

theorem approval_post_ends:
  "\<exists>a. post_run s rq (map environment [0..<10]) IStart = IDone a"
  using post_run_depth [of s rq "map environment [0..<10]" IStart] by (intro depth_0) simp

section \<open>A run\<close>

definition demo_iac_settings :: iac_settings where
  "demo_iac_settings = \<lparr>is_sha256 = (\<lambda>_. ''00''), is_hmac = (\<lambda>k m. replicate 32 (CHR ''x'')), is_ip_literal = (\<lambda>_. False),
     is_coordinator_origin = ''https://drift.example'', is_driftscribe_token = ''secret'', is_dry_run = False,
     is_github_repo = ''o/r'', is_iac_required_checks = ''lint-test'', is_iac_merge_method = ''squash''\<rparr>"

definition demo_view :: plan_view where
  "demo_view = \<lparr>vw_metadata = [(''pr_number'', PInt 7), (''head_sha'', PStr ''abc''), (''plan_sha256'', PStr ''c''),
       (''plan_json_sha256'', PStr ''d''), (''artifact_uri_plan'', PStr ''p''), (''artifact_uri_json'', PStr ''j''),
       (''generation_plan'', PStr ''3''), (''generation_json'', PStr ''4'')],
     vw_integrity_ok = True, vw_denylist_violations = [], vw_unverifiable = False, vw_artifact_uri_metadata = ''gs://b/m'',
     vw_generation_metadata = ''5'', vw_generation_iac_tree = [], vw_iac_tree_hash = [], vw_plan_json = PDict [(''resource_changes'', PList [])]\<rparr>"

definition demo_ref :: c2_ref where
  "demo_ref = \<lparr>rf_comment_id = Some 3, rf_head_sha = ''abc'', rf_plan_sha256 = ''c'', rf_plan_json_sha256 = ''d'',
     rf_artifact_uri_plan = ''p'', rf_artifact_uri_json = ''j'', rf_generation_plan = ''3'', rf_generation_json = ''4''\<rparr>"

definition demo_form_token :: string where
  "demo_form_token = (case mint_form_token (is_hmac demo_iac_settings) ''secret'' demo_pin 1800 5000000 of Inr t \<Rightarrow> t | Inl e \<Rightarrow> [])"

definition demo_post :: iac_request where
  "demo_post = \<lparr>iq_pr_number = 7, iq_operator = ''op'', iq_reject = False, iq_form_token = demo_form_token, iq_origin = None,
     iq_sec_fetch_site = Some ''same-origin''\<rparr>"

definition demo_reply :: "pydict \<Rightarrow> http_answer" where
  "demo_reply d = HttpResponse 200 (emit (PDict d))"

definition demo_iac_input :: "http_answer \<Rightarrow> iac_input" where
  "demo_iac_input a = \<lparr>ii_now = 6000000, ii_pause = Inr None, ii_dial = Inr None, ii_plan = (Some demo_ref, Some demo_view),
     ii_repo = Inr (), ii_title = Inr None, ii_github = demo_github, ii_worker = a, ii_fault = NoFault, ii_decision_id = ''d1'',
     ii_trace_id = ''t''\<rparr>"

definition demo_proposed :: pydict where
  "demo_proposed = [(''approval_id'', PStr ''a1''), (''approval_token'', PStr ''tok'')]"

definition demo_applied :: pydict where
  "demo_applied = [(''status'', PStr ''applied''), (''approval_id'', PStr ''a1''), (''apply_attempt_id'', PStr ''t1'')]"

definition demo_ctx :: iac_ctx where
  "demo_ctx = \<lparr>cx_view = demo_view, cx_key = iac_event_key demo_iac_settings 7 ''abc'' ''5'', cx_title = None\<rparr>"

lemma demo_replies: "worker_call (demo_reply demo_proposed) = Answered (PDict demo_proposed)"
  "worker_call (demo_reply demo_applied) = Answered (PDict demo_applied)"
proof -
  have "printable (PDict demo_proposed)" "printable (PDict demo_applied)" by code_simp+
  note json_loads_emit [OF this(1)] json_loads_emit [OF this(2)]
  moreover have "decode_json_bytes (emit (PDict demo_proposed)) = Some (emit (PDict demo_proposed))"
    "decode_json_bytes (emit (PDict demo_applied)) = Some (emit (PDict demo_applied))" by code_simp+
  ultimately show "worker_call (demo_reply demo_proposed) = Answered (PDict demo_proposed)"
    "worker_call (demo_reply demo_applied) = Answered (PDict demo_applied)"
    by (simp_all add: worker_call_def demo_reply_def loads_bytes_def del: emit.simps)
qed

lemma demo_reply_fields: "propose_ids (PDict demo_proposed) = Some (''a1'', ''tok'')"
  "apply_confirmed (PDict demo_applied) ''a1''" "answered_attempt (PDict demo_applied) = PStr ''t1''"
  by (simp_all add: propose_ids_def apply_confirmed_def answered_attempt_def demo_proposed_def demo_applied_def dget_or_def)

lemma demo_view_simps [simp]: "view_head_sha demo_view = ''abc''" "vw_generation_metadata demo_view = ''5''"
  "view_has_create demo_view = False"
  by (simp_all add: view_head_sha_def view_text_def demo_view_def dget_or_def view_has_create_def plan_has_create_def)

lemma demo_gates_pass: "iac_gates demo_iac_settings demo_post (demo_iac_input a) = Inr demo_ctx"
proof -
  let ?h = "is_hmac demo_iac_settings"
  have m: "mint_form_token ?h ''secret'' demo_pin 1800 5000000 = Inr demo_form_token"
    by (simp add: demo_form_token_def mint_form_token_def derive_key_def Let_def)
  have l: "\<forall>k m. length (?h k m) = 32" by (simp add: demo_iac_settings_def)
  from token_verifies [OF m l, of 7 6000000] obtain q where q: "plan_seen demo_pin 1805 q"
    "verify_form_token ?h ''secret'' demo_form_token 7 6000000 = Inr (Some q)" by (auto simp: demo_pin_def)
  from q(1) have "pinned q (Some demo_ref) demo_view"
    by (simp add: pinned_def dget_or_def plan_seen_def)
      (simp add: pin_payload_def demo_pin_def demo_view_def demo_ref_def view_head_sha_def view_plan_sha256_def
        view_plan_json_sha256_def view_text_def dget_or_def)
  moreover have "iac_artifact_consistent (Some demo_ref) demo_view 7 = Inr True"
    by (simp add: iac_artifact_consistent_def demo_ref_def demo_view_def dget_or_def py_int_def Let_def)
  ultimately have "pin_checks demo_iac_settings demo_post (demo_iac_input a) q = Inr demo_view"
    by (simp add: pin_checks_def demo_iac_input_def demo_post_def lift_exc_def require_def)
      (simp add: demo_view_def)
  moreover have "check_iac_origin (is_ip_literal demo_iac_settings) (is_coordinator_origin demo_iac_settings) (iq_origin demo_post) (iq_sec_fetch_site demo_post)"
    by (simp add: check_iac_origin_def demo_iac_settings_def demo_post_def)
  moreover have "verify_form_token (is_hmac demo_iac_settings) (is_driftscribe_token demo_iac_settings) (iq_form_token demo_post)
      (iq_pr_number demo_post) (ii_now (demo_iac_input a)) = Inr (Some q)"
    using q(2) by (simp add: demo_iac_settings_def demo_post_def demo_iac_input_def)
  moreover have "\<not> is_dry_run demo_iac_settings" "read_pause_state (ii_pause (demo_iac_input a)) = read_pause_state (Inr None)"
    "read_autonomy_state (ii_dial (demo_iac_input a)) = read_autonomy_state (Inr None)"
    by (simp_all add: demo_iac_settings_def demo_iac_input_def)
  ultimately show ?thesis
    by (simp add: iac_gates_def lift_exc_def require_def read_pause_state_def read_autonomy_state_def DEFAULT_MODE_def Let_def)
      (simp add: demo_ctx_def demo_iac_input_def demo_post_def fetch_pr_title_def)
qed

lemma step_alone:
  assumes "iac_system s w [Iac rq pc]" and "ii_decision_id inp \<noteq> []" and "map_of (st_decisions (iw_store w)) (ii_decision_id inp) = None"
    and "iac_step s rq inp pc w = (pc', w')"
  shows "iac_system s w' [Iac rq pc']"
  using iac_system.step [OF assms(1), of 0, OF _ _ assms(2-4)] by simp

definition demo_pr_reply :: pydict where
  "demo_pr_reply = merged_at demo_pull 7 False"

definition demo_merge_writes :: "gh_write list" where
  "demo_merge_writes = [MergePull 7 ''squash'' ''abc'', CommentOn 7 ''Merged by DriftScribe IaC apply (squash).'']"

lemma demo_github_facts:
  "assert_pr_ready_at_sha demo_github 7 ''abc'' [''lint-test''] ''main'' = Inr ''abc''"
  "get_pr_head_sha demo_github = Inr ''abc''"
  "merge_pr_at_sha demo_github 7 ''abc'' [''lint-test''] ''squash'' False ''main'' = (demo_merge_writes, Inr demo_pr_reply)"
  by code_simp+

lemma demo_settings_facts: "required_checks demo_iac_settings = [''lint-test'']" "merge_method demo_iac_settings = ''squash''"
  "is_dry_run demo_iac_settings = False"
  by code_simp+

definition demo_before :: "iac_event list" where
  "demo_before =
     [EvAdmit demo_post (demo_iac_input (demo_reply demo_proposed)) demo_ctx, EvPropose demo_post demo_ctx,
      EvApply demo_post demo_ctx False ''a1'' (Answered (PDict demo_applied))]"

definition demo_merge_event :: iac_event where
  "demo_merge_event =
     EvMerge demo_post demo_ctx (AfterApply (PStr ''a1'') (PStr ''t1'') None) demo_github demo_merge_writes (Inr demo_pr_reply)"

lemma demo_post_reached:
  "\<exists>w d. iac_system demo_iac_settings w [Iac demo_post (IDone (Page PgAppliedAndMerged))] \<and>
     iw_log w = demo_before @ [demo_merge_event] \<and>
     find_decision_for_event (cx_key demo_ctx) (iw_store w) = Some d \<and>
     dget d ''apply_status'' = PStr ''applied'' \<and> dget d ''merge_state'' = PStr ''merged'' \<and> dget d ''approval_id'' = PStr ''a1''"
proof -
  let ?s = demo_iac_settings
  let ?i = "demo_iac_input (demo_reply demo_proposed)" and ?j = "demo_iac_input (demo_reply demo_applied)"
  define st0 :: store where "st0 = \<lparr>st_events = Map.empty, st_decisions = []\<rparr>"
  define st1 where "st1 = snd (record_event (cx_key demo_ctx) (claim_payload demo_post demo_ctx) st0)"
  have r1: "record_event (cx_key demo_ctx) (claim_payload demo_post demo_ctx) st0 = (True, st1)"
    by (simp add: st1_def st0_def record_event_def)
  let ?f = "(fields_of ''applied'' ''merged'' (PStr ''a1'') (PStr ''t1''))\<lparr>df_applied_at := None\<rparr>"
  let ?d = "iac_decision demo_post demo_ctx ?f 6000000 ''d1'' ''t''"
  let ?st2 = "record_decision 6000000 ''d1'' (cx_key demo_ctx) ?d st1"
  have empty: "st_decisions st0 = []" "st_decisions st1 = []" by (simp_all add: st1_def st0_def record_event_def)
  have nodoc: "find_decision_for_event (cx_key demo_ctx) st0 = None"
    by (simp add: find_decision_for_event_def pointer_def decisions_with_key_def st0_def Let_def)
  have cx: "cx_view demo_ctx = demo_view" by (simp add: demo_ctx_def)
  have rq: "iq_pr_number demo_post = 7" "\<not> iq_reject demo_post" by (simp_all add: demo_post_def)
  have inp: "ii_decision_id (demo_iac_input a) = ''d1''" "ii_fault (demo_iac_input a) = NoFault" "ii_github (demo_iac_input a) = demo_github"
    "ii_worker (demo_iac_input a) = a" "ii_now (demo_iac_input a) = 6000000" "ii_trace_id (demo_iac_input a) = ''t''" for a
    by (simp_all add: demo_iac_input_def)
  define w1 where "w1 = \<lparr>iw_store = st0, iw_log = [EvAdmit demo_post ?i demo_ctx]\<rparr>"
  have "iac_start st0" by (simp add: iac_start_def st0_def pointer_def)
  from iac_system.arrive [OF iac_system.start [OF this]] have "iac_system ?s \<lparr>iw_store = st0, iw_log = []\<rparr> [Iac demo_post IStart]" by simp
  then have "iac_system ?s w1 [Iac demo_post (IFind demo_ctx)]"
    by (rule step_alone [of _ _ _ _ "?i"]) (simp_all add: inp empty rq demo_gates_pass logged_def w1_def)
  then have "iac_system ?s w1 [Iac demo_post (IReady demo_ctx)]"
    by (rule step_alone [of _ _ _ _ "?i"]) (simp_all add: inp empty w1_def found_pc_def nodoc)
  then have "iac_system ?s w1 [Iac demo_post (IClaim demo_ctx)]"
    by (rule step_alone [of _ _ _ _ "?i"]) (simp_all add: inp empty w1_def demo_github_facts demo_settings_facts rq cx)
  then have "iac_system ?s (w1\<lparr>iw_store := st1\<rparr>) [Iac demo_post (IPropose demo_ctx)]"
    by (rule step_alone [of _ _ _ _ "?i"]) (simp_all add: inp empty w1_def r1 store_write_def route_claimed_def cx)
  then have "iac_system ?s \<lparr>iw_store = st1, iw_log = [EvAdmit demo_post ?i demo_ctx, EvPropose demo_post demo_ctx]\<rparr>
      [Iac demo_post (IHead demo_ctx ''a1'' ''tok'')]"
    by (rule step_alone [of _ _ _ _ "?i"]) (simp_all add: inp empty w1_def logged_def demo_replies after_propose_def demo_reply_fields)
  then have "iac_system ?s \<lparr>iw_store = st1, iw_log = [EvAdmit demo_post ?i demo_ctx, EvPropose demo_post demo_ctx]\<rparr>
      [Iac demo_post (IApply demo_ctx ''a1'' ''tok'')]"
    by (rule step_alone [of _ _ _ _ "?i"]) (simp_all add: inp empty after_head_def demo_github_facts cx)
  then have "iac_system ?s \<lparr>iw_store = st1, iw_log = demo_before\<rparr>
      [Iac demo_post (IMerge demo_ctx (AfterApply (PStr ''a1'') (PStr ''t1'') None))]"
    by (rule step_alone [of _ _ _ _ "?j"]) (simp_all add: inp empty logged_def demo_replies after_apply_def demo_reply_fields demo_before_def)
  then have "iac_system ?s \<lparr>iw_store = st1, iw_log = demo_before @ [demo_merge_event]\<rparr>
      [Iac demo_post (IRecord demo_ctx ?f (FinishWith (Page PgAppliedAndMerged)))]"
    by (rule step_alone [of _ _ _ _ "?j"]) (simp_all add: inp empty logged_def rq cx demo_github_facts demo_settings_facts after_merge_def demo_merge_event_def)
  then have "iac_system ?s \<lparr>iw_store = ?st2, iw_log = demo_before @ [demo_merge_event]\<rparr>
      [Iac demo_post (IDone (Page PgAppliedAndMerged))]"
    by (rule step_alone [of _ _ _ _ "?j"]) (simp_all add: inp empty store_write_def)
  moreover have "find_decision_for_event (cx_key demo_ctx) ?st2 = Some (decision_record 6000000 (cx_key demo_ctx) ?d)"
    by (simp add: find_decision_for_event_def pointer_def get_decision_def store_simps) (simp add: record_decision_def empty)
  moreover have "dget (decision_record 6000000 (cx_key demo_ctx) ?d) ''apply_status'' = PStr ''applied''"
    "dget (decision_record 6000000 (cx_key demo_ctx) ?d) ''merge_state'' = PStr ''merged''"
    "dget (decision_record 6000000 (cx_key demo_ctx) ?d) ''approval_id'' = PStr ''a1''"
    unfolding iac_decision_record by (simp_all add: fields_of_def)
  ultimately show ?thesis
    by (intro exI [of _ "\<lparr>iw_store = ?st2, iw_log = demo_before @ [demo_merge_event]\<rparr>"]
        exI [of _ "decision_record 6000000 (cx_key demo_ctx) ?d"]) simp
qed

theorem plan_applied_once_per_claim_witness:
  "\<exists>w ts. iac_system demo_iac_settings w ts \<and> may_have_applied w = [cx_key demo_ctx] \<and> plan_claimed w (cx_key demo_ctx)"
proof -
  obtain w where w: "iac_system demo_iac_settings w [Iac demo_post (IDone (Page PgAppliedAndMerged))]"
    "iw_log w = demo_before @ [demo_merge_event]" using demo_post_reached by blast
  then have "may_have_applied w = [cx_key demo_ctx]"
    by (simp add: may_have_applied_def demo_before_def demo_merge_event_def refused_def)
  with plan_applied_once_per_claim [OF w(1)] w(1) show ?thesis by auto
qed

theorem changes_were_admitted_witness:
  "\<exists>w ts payload. iac_system demo_iac_settings w ts \<and> demo_merge_event \<in> set (iw_log w) \<and> pinned payload (Some demo_ref) demo_view"
proof -
  obtain w where w: "iac_system demo_iac_settings w [Iac demo_post (IDone (Page PgAppliedAndMerged))]"
    "iw_log w = demo_before @ demo_merge_event # []" using demo_post_reached by auto
  have "acts demo_merge_event = Some (demo_post, demo_ctx)" by (simp add: demo_merge_event_def)
  from changes_were_admitted [OF w this] obtain inp cx0 payload ref where
    a: "EvAdmit demo_post inp cx0 \<in> set demo_before" "ii_plan inp = (ref, Some demo_view)" "pinned payload ref demo_view"
    by (auto simp: demo_ctx_def)
  from a(1) have "inp = demo_iac_input (demo_reply demo_proposed)" by (simp add: demo_before_def)
  with a(2) have "ref = Some demo_ref" by (simp add: demo_iac_input_def)
  with a(3) w show ?thesis by fastforce
qed

theorem merges_were_earned_witness:
  "\<exists>w ts. iac_system demo_iac_settings w ts \<and> iw_log w = demo_before @ [demo_merge_event] \<and>
     confirmed demo_before (cx_key demo_ctx) (PStr ''a1'')"
proof -
  obtain w where w: "iac_system demo_iac_settings w [Iac demo_post (IDone (Page PgAppliedAndMerged))]"
    "iw_log w = demo_before @ demo_merge_event # []" using demo_post_reached by auto
  have "demo_merge_writes \<noteq> []" by (simp add: demo_merge_writes_def)
  from merges_were_earned [OF w(1) w(2) [unfolded demo_merge_event_def] this] w show ?thesis by auto
qed

theorem recorded_outcomes_true_witness:
  "\<exists>w ts. iac_system demo_iac_settings w ts \<and> confirmed (iw_log w) (cx_key demo_ctx) (PStr ''a1'') \<and> merged_under (iw_log w) (cx_key demo_ctx)"
proof -
  obtain w d where w: "iac_system demo_iac_settings w [Iac demo_post (IDone (Page PgAppliedAndMerged))]"
    "find_decision_for_event (cx_key demo_ctx) (iw_store w) = Some d"
    "dget d ''apply_status'' = PStr ''applied''" "dget d ''merge_state'' = PStr ''merged''" "dget d ''approval_id'' = PStr ''a1''"
    using demo_post_reached by blast
  from recorded_outcomes_true [OF w(1,2)] w show ?thesis by auto
qed

end
