(* ===== verification/HclGate.thy ===== *)
theory HclGate
  imports Denylist Regex
begin

text \<open>
  The static gate on authored Terraform text (\<open>tools/iac_static_gate.py\<close>) over the parsing primitives of
  \<open>driftscribe_lib/iac_hcl.py\<close>.  The parser (\<open>hcl2.loads\<close>) is a parameter: it gives a dict, or nothing when it
  raises.  The gate is shown to pass exactly the files that a direct reading of its rules admits.
\<close>

section \<open>What the parser leaves\<close>

definition is_meta_key :: "string \<Rightarrow> bool" where
  "is_meta_key k \<longleftrightarrow> starts_with ''__'' k \<and> ends_with ''__'' k"

definition wrapped :: "string \<Rightarrow> bool" where
  "wrapped s \<longleftrightarrow> 2 \<le> length s \<and> hd s = dquote \<and> last s = dquote"

definition block_label :: "string \<Rightarrow> string" where
  "block_label s = (if wrapped s then butlast (tl s) else s)"

fun unwrap :: "pyval \<Rightarrow> pyval" where
  "unwrap (PStr s) = PStr (block_label s)"
| "unwrap v = v"

fun blocks_of :: "pyval \<Rightarrow> pydict list" where
  "blocks_of (PList bs) = concat (map (\<lambda>b. case b of PDict d \<Rightarrow> [d] | _ \<Rightarrow> []) bs)"
| "blocks_of (PDict d) = [d]"
| "blocks_of _ = []"

definition iter_blocks :: "pydict \<Rightarrow> string \<Rightarrow> pydict list" where
  "iter_blocks parsed kind = blocks_of (dget parsed kind)"

text \<open>The items of a block that are not the parser's own.\<close>

definition own_items :: "pydict \<Rightarrow> (string \<times> pyval) list" where
  "own_items d = filter (\<lambda>(k, v). \<not> is_meta_key k) d"

fun dict_or_empty :: "pyval \<Rightarrow> pydict" where
  "dict_or_empty (PDict d) = d"
| "dict_or_empty _ = []"

definition iter_typed_blocks :: "pydict \<Rightarrow> string \<Rightarrow> (string \<times> string \<times> pydict) list" where
  "iter_typed_blocks parsed kind =
     concat (map (\<lambda>block.
       concat (map (\<lambda>(type_label, by_name).
         (case by_name of
            PDict names \<Rightarrow> map (\<lambda>(name_label, body). (block_label type_label, block_label name_label, dict_or_empty body)) (own_items names)
          | _ \<Rightarrow> [])) (own_items block))) (iter_blocks parsed kind))"

text \<open>The text inside a wrapped reference: a dollar sign, a brace, something without a newline, a brace; the
  final dollar of the pattern also matches before one last newline.\<close>

definition ref_inner :: "string \<Rightarrow> string option" where
  "ref_inner s =
     (let t = (if s \<noteq> [] \<and> last s = CHR 0x0A then butlast s else s); inner = drop 2 (butlast t) in
      if starts_with ''${'' t \<and> 4 \<le> length t \<and> last t = CHR ''}'' \<and> CHR 0x0A \<notin> set inner then Some inner else None)"

fun unwrap_ref :: "pyval \<Rightarrow> string option" where
  "unwrap_ref (PStr s) = (case ref_inner (block_label s) of Some x \<Rightarrow> Some x | None \<Rightarrow> Some (block_label s))"
| "unwrap_ref _ = None"

section \<open>The rules' constants\<close>

definition BUILTIN_PROVIDERS :: "string list" where "BUILTIN_PROVIDERS = [''terraform'', ''tofu'']"
definition IAC_PREFIX :: string where "IAC_PREFIX = ''iac/''"

definition PROTECTED_FOUNDATION :: "string list" where
  "PROTECTED_FOUNDATION =
     [''iac/.terraform.lock.hcl'', ''iac/versions.tf'', ''iac/providers.tf'', ''iac/variables.tf'', ''iac/imports.tf'']"

definition ALLOWED_AGENT_SUFFIX :: string where "ALLOWED_AGENT_SUFFIX = ''.tf''"
definition ALLOWED_AGENT_DOC_SUFFIX :: string where "ALLOWED_AGENT_DOC_SUFFIX = ''.md''"

definition REJECTED_IAC_SUFFIXES :: "string list" where
  "REJECTED_IAC_SUFFIXES = [''.tofu'', ''.tofu.json'', ''.tf.json'', ''.tfvars'']"

definition ALLOWED_PROVIDERS :: "string list" where "ALLOWED_PROVIDERS = [''google'']"

definition REQUIRED_PROVIDER_SOURCES :: "(string \<times> string) list" where
  "REQUIRED_PROVIDER_SOURCES = [(''google'', ''hashicorp/google'')]"

definition ARBITRARY_EXECUTION_RESOURCE_TYPES :: "string list" where
  "ARBITRARY_EXECUTION_RESOURCE_TYPES = [''null_resource'', ''terraform_data'']"

definition ARBITRARY_EXECUTION_BLOCK_KEYS :: "string list" where
  "ARBITRARY_EXECUTION_BLOCK_KEYS = [''provisioner'', ''connection'']"

definition FORBIDDEN_DATA_SOURCE_TYPES :: "string list" where
  "FORBIDDEN_DATA_SOURCE_TYPES = [''external'', ''terraform_remote_state'']"

definition SECRET_MATERIAL_RESOURCE_TYPES :: "string list" where
  "SECRET_MATERIAL_RESOURCE_TYPES =
     [''google_secret_manager_secret'', ''google_secret_manager_secret_version'',
      ''google_secret_manager_regional_secret'', ''google_secret_manager_regional_secret_version'']"

definition SECRET_MATERIAL_ATTR_KEY :: string where "SECRET_MATERIAL_ATTR_KEY = ''secret_data''"
definition DYNAMIC_BLOCK_KEY :: string where "DYNAMIC_BLOCK_KEY = ''dynamic''"

text \<open>\<open>[^/\s]\<close>, \<open>\w\<close> and \<open>[A-Za-z_]\<close> on the characters below 256.\<close>

definition not_slash_space :: rx where
  "not_slash_space = RCls [(0, 8), (14, 27), (33, 46), (48, 132), (134, 159), (161, 255)]"

definition word_ranges :: "(nat \<times> nat) list" where
  "word_ranges =
     [(48, 57), (65, 90), (95, 95), (97, 122), (170, 170), (178, 179), (181, 181), (185, 186), (188, 190), (192, 214),
      (216, 246), (248, 255)]"

definition ident_rx :: rx where
  "ident_rx = RSeq (RCls [(65, 90), (95, 95), (97, 122)]) (RStar (RCls ((45, 45) # word_ranges)))"

definition PLAIN_ADDRESS :: rx where
  "PLAIN_ADDRESS = RSeq ident_rx (RSeq (rstr ''.'') ident_rx)"

definition ADOPT_IMPORT_ID_SHAPES :: "(string \<times> rx) list" where
  "ADOPT_IMPORT_ID_SHAPES =
     (let part = rplus not_slash_space; under = (\<lambda>name. RSeq (rstr name) part); project = under ''projects/'' in
      [(''google_storage_bucket'', part),
       (''google_pubsub_topic'', RSeq project (under ''/topics/'')),
       (''google_pubsub_subscription'', RSeq project (under ''/subscriptions/'')),
       (''google_cloud_run_v2_service'', RSeq project (RSeq (under ''/locations/'') (under ''/services/'')))])"

section \<open>The gate\<close>

datatype gate_mode = AGENT | OPERATOR

definition is_disallowed_iac_suffix :: "string \<Rightarrow> bool" where
  "is_disallowed_iac_suffix p \<longleftrightarrow>
     ends_with ''.auto.tfvars'' p \<or> (\<exists>s \<in> set REJECTED_IAC_SUFFIXES. ends_with s p) \<or>
     \<not> (ends_with ALLOWED_AGENT_SUFFIX p \<or> ends_with ALLOWED_AGENT_DOC_SUFFIX p)"

definition path_violations :: "gate_mode \<Rightarrow> string \<Rightarrow> violation list" where
  "path_violations mode p =
     (if \<not> starts_with IAC_PREFIX p then (if mode = AGENT then [Violation ''path-outside-iac'' p] else [])
      else if mode = AGENT then
        (if p \<in> set PROTECTED_FOUNDATION then [Violation ''foundation-edit-agent-mode'' p]
         else if is_disallowed_iac_suffix p then [Violation ''disallowed-file-type'' p] else [])
      else [])"

text \<open>A provider with the source it declares, if any; required providers first, then provider blocks.\<close>

definition declared_source :: "pyval \<Rightarrow> pyval option" where
  "declared_source body =
     (case body of
        PDict d \<Rightarrow> (let raw = dget d ''source'' in if raw = PNone then None else Some (unwrap raw))
      | _ \<Rightarrow> None)"

definition collect_providers :: "pydict \<Rightarrow> (string \<times> pyval option) list" where
  "collect_providers parsed =
     concat (map (\<lambda>tf.
       concat (map (\<lambda>rp. map (\<lambda>(name, body). (name, declared_source body)) (own_items rp)) (iter_blocks tf ''required_providers'')))
       (iter_blocks parsed ''terraform'')) @
     concat (map (\<lambda>block. map (\<lambda>(label, v). (block_label label, None)) (own_items block)) (iter_blocks parsed ''provider''))"

fun body_has_block :: "string \<Rightarrow> pyval \<Rightarrow> bool" where
  "body_has_block key (PDict d) =
     (key \<in> set (dkeys d) \<or>
      list_ex (\<lambda>(k, v). \<not> is_meta_key k \<and>
        (case v of
           PDict b \<Rightarrow> body_has_block key v
         | PList vs \<Rightarrow> list_ex (\<lambda>x. (case x of PDict b \<Rightarrow> body_has_block key x | _ \<Rightarrow> False)) vs
         | _ \<Rightarrow> False)) d)"
| "body_has_block key _ = False"

definition provider_violations :: "string \<Rightarrow> string \<times> pyval option \<Rightarrow> violation list" where
  "provider_violations path p =
     (case p of (name, source) \<Rightarrow>
        if name \<in> set BUILTIN_PROVIDERS then []
        else if name \<notin> set ALLOWED_PROVIDERS
        then [Violation ''disallowed-provider'' (path @ '': provider '' @ repr_str name @ '' not allowlisted'')]
        else (case (source, map_of REQUIRED_PROVIDER_SOURCES name) of
            (Some src, Some req) \<Rightarrow>
              if src \<noteq> PStr req
              then [Violation ''disallowed-provider-source''
                     (path @ '': provider '' @ repr_str name @ '' source '' @ py_repr src @ '' != '' @ repr_str req)]
              else []
          | _ \<Rightarrow> []))"

definition module_violations :: "string \<Rightarrow> pydict \<Rightarrow> violation list" where
  "module_violations path parsed =
     concat (map (\<lambda>block. map (\<lambda>(label, v).
       Violation ''module-block-forbidden'' (path @ '': module '' @ repr_str (block_label label) @ '' (all modules forbidden in v1)''))
       (own_items block)) (iter_blocks parsed ''module''))"

definition resource_violations :: "gate_mode \<Rightarrow> string \<Rightarrow> string \<times> string \<times> pydict \<Rightarrow> violation list" where
  "resource_violations mode path r =
     (case r of (rtype, name, body) \<Rightarrow>
        (if rtype \<in> set ARBITRARY_EXECUTION_RESOURCE_TYPES
         then [Violation ''arbitrary-execution'' (path @ '': resource type '' @ repr_str rtype @ '' (command-execution resource)'')] else []) @
        (if mode = AGENT \<and> rtype \<in> set SECRET_MATERIAL_RESOURCE_TYPES
         then [Violation ''secret-material-forbidden''
                (path @ '': resource type '' @ repr_str rtype @ '' (secret material is operator-only)'')] else []) @
        (if mode = AGENT \<and> SECRET_MATERIAL_ATTR_KEY \<in> set (dkeys body)
         then [Violation ''secret-material-forbidden''
                (path @ '': resource '' @ repr_str rtype @ '' has a '' @ repr_str SECRET_MATERIAL_ATTR_KEY @
                 '' attribute (secret material is operator-only)'')] else []) @
        concat (map (\<lambda>key. if body_has_block key (PDict body)
          then [Violation ''arbitrary-execution'' (path @ '': resource '' @ repr_str rtype @ '' contains a '' @ repr_str key @ '' block'')]
          else []) ARBITRARY_EXECUTION_BLOCK_KEYS) @
        (if body_has_block DYNAMIC_BLOCK_KEY (PDict body)
         then [Violation ''dynamic-block-forbidden'' (path @ '': resource '' @ repr_str rtype @ '' contains a '' @ repr_str ''dynamic'' @ '' block'')] else []))"

definition data_violations :: "string \<Rightarrow> string \<times> string \<times> pydict \<Rightarrow> violation list" where
  "data_violations path d =
     (case d of (dtype, name, body) \<Rightarrow>
        if dtype \<in> set FORBIDDEN_DATA_SOURCE_TYPES
        then [Violation ''forbidden-data-source'' (path @ '': data source '' @ repr_str dtype @ '' is forbidden'')] else [])"

definition file_violations :: "gate_mode \<Rightarrow> string \<Rightarrow> pydict \<Rightarrow> violation list" where
  "file_violations mode path parsed =
     concat (map (provider_violations path) (collect_providers parsed)) @
     module_violations path parsed @
     concat (map (resource_violations mode path) (iter_typed_blocks parsed ''resource'')) @
     concat (map (data_violations path) (iter_typed_blocks parsed ''data''))"

definition split_dot :: "string \<Rightarrow> string" where
  "split_dot s = takeWhile (\<lambda>c. c \<noteq> CHR ''.'') s"

text \<open>The rules for one import block: its target, which gives the resource type when it is a plain address, and its
  identifier.\<close>

definition import_target :: "string \<Rightarrow> (string \<Rightarrow> pydict option) \<Rightarrow> pydict \<Rightarrow> violation list \<times> string option" where
  "import_target path declared imp =
     (case unwrap_ref (dget imp ''to'') of
        None \<Rightarrow> ([Violation ''import-target-undeclared'' (path @ '': import block has no parseable '' @ repr_str ''to'')], None)
      | Some t \<Rightarrow>
          let says = path @ '': import target '' @ repr_str t in
          if CHR ''['' \<in> set t \<or> CHR '']'' \<in> set t
          then ([Violation ''import-target-indexed'' (says @ '' is indexed '' @ [CHR 0x97] @ '' v1 adopts plain type.name addresses only'')], None)
          else if \<not> fullmatch PLAIN_ADDRESS t
          then ([Violation ''import-target-undeclared'' (says @ '' is not a plain type.name resource address'')], None)
          else
            (let rtype = split_dot t in
             ((if rtype \<notin> set ADOPTABLE_RESOURCE_TYPES
               then [Violation ''import-type-not-adoptable'' (path @ '': import target type '' @ repr_str rtype @ '' is not adoptable in v1'')] else []) @
              (case declared t of
                 None \<Rightarrow> [Violation ''import-target-undeclared'' (says @ '' has no resource block in the PR'' @ [squote] @
                           ''s changed files (the adopt pair must travel together)'')]
               | Some body \<Rightarrow>
                   if ''count'' \<in> set (dkeys body) \<or> ''for_each'' \<in> set (dkeys body)
                   then [Violation ''import-target-indexed'' (says @ '' resource block uses count/for_each'')] else []),
              Some rtype)))"

fun literal_id :: "pyval \<Rightarrow> string option" where
  "literal_id (PStr s) = (if wrapped s \<and> \<not> contains_str ''${'' s then Some (block_label s) else None)"
| "literal_id _ = None"

definition import_id_violations :: "string \<Rightarrow> string option \<Rightarrow> pyval \<Rightarrow> violation list" where
  "import_id_violations path rtype raw =
     (case literal_id raw of
        None \<Rightarrow> [Violation ''import-id-not-literal'' (path @ '': import id must be a plain literal string (got '' @ py_repr raw @ '')'')]
      | Some i \<Rightarrow>
          (case Option.bind rtype (map_of ADOPT_IMPORT_ID_SHAPES) of
             None \<Rightarrow> []
           | Some shape \<Rightarrow>
               if fullmatch shape i then []
               else [Violation ''import-id-not-literal''
                 (path @ '': import id '' @ repr_str i @ '' does not match the CAI-normalized shape for '' @ repr_str (the rtype))]))"

definition check_import_block :: "string \<Rightarrow> pydict \<Rightarrow> (string \<Rightarrow> pydict option) \<Rightarrow> violation list" where
  "check_import_block path imp declared =
     (let (target, rtype) = import_target path declared imp in
      (if ''for_each'' \<in> set (dkeys imp) \<or> ''count'' \<in> set (dkeys imp)
       then [Violation ''import-foreach-forbidden'' (path @ '': import block declares for_each/count (imports must be statically analyzable)'')]
       else []) @
      target @
      (if ''identity'' \<in> set (dkeys imp)
       then [Violation ''import-id-not-literal'' (path @ '': import block uses the '' @ repr_str ''identity'' @ '' attribute '' @ [CHR 0x97] @
              '' unsupported (the declared-identity resolver consumes '' @ repr_str ''id'' @ '' only)'')]
       else []) @
      import_id_violations path rtype (dget imp ''id''))"

text \<open>The resource block of an address; a later declaration of one address wins.\<close>

definition declared_bodies :: "(string \<times> pydict) list \<Rightarrow> string \<Rightarrow> pydict option" where
  "declared_bodies pfs =
     map_of (rev (concat (map (\<lambda>(path, parsed). map (\<lambda>(rtype, name, body). (rtype @ ''.'' @ name, body))
       (iter_typed_blocks parsed ''resource'')) pfs)))"

definition import_blocks :: "(string \<times> pydict) list \<Rightarrow> (string \<times> pydict) list" where
  "import_blocks pfs = concat (map (\<lambda>(path, parsed). map (Pair path) (iter_blocks parsed ''import'')) pfs)"

definition parsed_files :: "(string \<Rightarrow> pydict option) \<Rightarrow> (string \<times> string) list \<Rightarrow> (string \<times> pydict) list" where
  "parsed_files parse files = concat (map (\<lambda>(path, text). case parse text of None \<Rightarrow> [] | Some d \<Rightarrow> [(path, d)]) files)"

definition import_violations :: "(string \<times> pydict) list \<Rightarrow> violation list" where
  "import_violations parsed =
     (let imports = import_blocks parsed in
      concat (map (\<lambda>(path, imp). check_import_block path imp (declared_bodies parsed)) imports) @
      (if 1 < length imports
       then [Violation ''import-batch-forbidden''
              (show_nat (length imports) @ '' import blocks across the changed files (at most one adoption per PR)'')] else []))"

definition evaluate_gate :: "(string \<Rightarrow> pydict option) \<Rightarrow> gate_mode \<Rightarrow> string list \<Rightarrow> (string \<times> string) list \<Rightarrow> violation list" where
  "evaluate_gate parse mode paths files =
     concat (map (path_violations mode) paths) @
     concat (map (\<lambda>(path, text). case parse text of
        None \<Rightarrow> [Violation ''hcl-parse-error'' path]
      | Some parsed \<Rightarrow> file_violations mode path parsed) files) @
     (if mode = AGENT then import_violations (parsed_files parse files) else [])"

text \<open>The command: git gives the changed paths and the content of a path at the head, or nothing when the change
  deleted it; the answer is the exit code and the printed lines.\<close>

definition HCL_CONTENT_SUFFIXES :: "string list" where "HCL_CONTENT_SUFFIXES = [''.tf'']"

definition changed_hcl_files :: "(string \<Rightarrow> string option) \<Rightarrow> string list \<Rightarrow> (string \<times> string) list" where
  "changed_hcl_files git_show paths =
     concat (map (\<lambda>p.
       if \<not> starts_with IAC_PREFIX p then []
       else if \<not> list_ex (\<lambda>x. ends_with x p) HCL_CONTENT_SUFFIXES then []
       else (case git_show p of None \<Rightarrow> [] | Some content \<Rightarrow> [(p, content)])) paths)"

fun gate_mode_value :: "gate_mode \<Rightarrow> string" where
  "gate_mode_value AGENT = ''agent''"
| "gate_mode_value OPERATOR = ''operator''"

definition gate_main ::
  "(string \<Rightarrow> pydict option) \<Rightarrow> gate_mode \<Rightarrow> string list \<Rightarrow> (string \<Rightarrow> string option) \<Rightarrow> nat \<times> string list" where
  "gate_main parse mode paths git_show =
     (let vs = evaluate_gate parse mode paths (changed_hcl_files git_show paths) in
      if vs \<noteq> []
      then (1, (''iac static gate: '' @ show_nat (length vs) @ '' violation(s) (mode='' @ gate_mode_value mode @ ''):'') #
               map (\<lambda>v. ''  ['' @ rule v @ ''] '' @ detail v) vs)
      else (0, [''iac static gate: PASS (mode='' @ gate_mode_value mode @ '', '' @ show_nat (length paths) @ '' changed path(s))'']))"

section \<open>What the rules mean\<close>

text \<open>The bodies nested in a body: the body itself, and through any of its own keys the dicts there, or in a list there.\<close>

inductive nested :: "pydict \<Rightarrow> pydict \<Rightarrow> bool" where
  nested_self: "nested d d"
| nested_dict: "(k, PDict b) \<in> set d \<Longrightarrow> \<not> is_meta_key k \<Longrightarrow> nested b c \<Longrightarrow> nested d c"
| nested_list: "(k, PList vs) \<in> set d \<Longrightarrow> \<not> is_meta_key k \<Longrightarrow> PDict b \<in> set vs \<Longrightarrow> nested b c \<Longrightarrow> nested d c"

definition agent_path :: "string \<Rightarrow> bool" where
  "agent_path p \<longleftrightarrow>
     starts_with ''iac/'' p \<and> p \<notin> set PROTECTED_FOUNDATION \<and> (ends_with ''.tf'' p \<or> ends_with ''.md'' p)"

definition provider_ok :: "string \<times> pyval option \<Rightarrow> bool" where
  "provider_ok p \<longleftrightarrow>
     fst p \<in> {''terraform'', ''tofu''} \<or>
     (fst p = ''google'' \<and> (snd p = None \<or> snd p = Some (PStr ''hashicorp/google'')))"

definition resource_ok :: "string \<times> string \<times> pydict \<Rightarrow> bool" where
  "resource_ok r \<longleftrightarrow>
     (case r of (rtype, name, body) \<Rightarrow>
        rtype \<notin> set ARBITRARY_EXECUTION_RESOURCE_TYPES \<and> rtype \<notin> set SECRET_MATERIAL_RESOURCE_TYPES \<and>
        ''secret_data'' \<notin> set (dkeys body) \<and>
        (\<forall>b. nested body b \<longrightarrow> set (dkeys b) \<inter> {''provisioner'', ''connection'', ''dynamic''} = {}))"

definition file_ok :: "pydict \<Rightarrow> bool" where
  "file_ok parsed \<longleftrightarrow>
     (\<forall>p \<in> set (collect_providers parsed). provider_ok p) \<and>
     (\<forall>block \<in> set (iter_blocks parsed ''module''). own_items block = []) \<and>
     (\<forall>r \<in> set (iter_typed_blocks parsed ''resource''). resource_ok r) \<and>
     (\<forall>(dtype, name, body) \<in> set (iter_typed_blocks parsed ''data''). dtype \<notin> {''external'', ''terraform_remote_state''})"

definition import_ok :: "(string \<Rightarrow> pydict option) \<Rightarrow> pydict \<Rightarrow> bool" where
  "import_ok declared imp \<longleftrightarrow>
     set (dkeys imp) \<inter> {''for_each'', ''count'', ''identity''} = {} \<and>
     (\<exists>rtype name body i shape.
        unwrap_ref (dget imp ''to'') = Some (rtype @ ''.'' @ name) \<and> fullmatch ident_rx name \<and>
        map_of ADOPT_IMPORT_ID_SHAPES rtype = Some shape \<and>
        declared (rtype @ ''.'' @ name) = Some body \<and> set (dkeys body) \<inter> {''for_each'', ''count''} = {} \<and>
        dget imp ''id'' = PStr (dquote # i @ [dquote]) \<and> \<not> contains_str ''${'' i \<and> fullmatch shape i)"

lemma body_has_block_nested: "body_has_block key (PDict d) \<longleftrightarrow> (\<exists>b. nested d b \<and> key \<in> set (dkeys b))"
proof
  assume "body_has_block key (PDict d)"
  moreover have "body_has_block key v \<Longrightarrow> \<exists>d b. v = PDict d \<and> nested d b \<and> key \<in> set (dkeys b)" for v
  proof (induction key v rule: body_has_block.induct)
    case (1 key d)
    show ?case
    proof (cases "key \<in> set (dkeys d)")
      case True
      then show ?thesis using nested_self by blast
    next
      case False
      with "1.prems" obtain k v where kv: "(k, v) \<in> set d" "\<not> is_meta_key k"
        and h: "case v of PDict b \<Rightarrow> body_has_block key v
           | PList vs \<Rightarrow> list_ex (\<lambda>x. (case x of PDict b \<Rightarrow> body_has_block key x | _ \<Rightarrow> False)) vs | _ \<Rightarrow> False"
        by (auto simp: list_ex_iff)
      have "(\<exists>b. v = PDict b \<and> body_has_block key v) \<or> (\<exists>vs b. v = PList vs \<and> PDict b \<in> set vs \<and> body_has_block key (PDict b))"
      proof (cases v)
        case (PList vs)
        with h obtain x where "x \<in> set vs" "case x of PDict b \<Rightarrow> body_has_block key x | _ \<Rightarrow> False"
          by (auto simp only: list_ex_iff pyval.case)
        with PList show ?thesis by (cases x) (auto simp del: body_has_block.simps)
      qed (use h in \<open>simp_all del: body_has_block.simps\<close>)
      then consider (dict) b where "v = PDict b" "body_has_block key v"
        | (list) vs x b where "v = PList vs" "x \<in> set vs" "x = PDict b" "body_has_block key x" by blast
      then show ?thesis
      proof cases
        case dict
        from "1.IH"(2) [OF kv(1) refl dict] dict(1) obtain c where "nested b c" "key \<in> set (dkeys c)" by auto
        with nested_dict [of k b d c] kv dict show ?thesis by blast
      next
        case list
        from "1.IH"(1) [OF kv(1) refl list] list(3) obtain c where "nested b c" "key \<in> set (dkeys c)" by auto
        with nested_list [of k vs d b c] kv list show ?thesis by blast
      qed
    qed
  qed auto
  ultimately show "\<exists>b. nested d b \<and> key \<in> set (dkeys b)" by blast
next
  assume "\<exists>b. nested d b \<and> key \<in> set (dkeys b)"
  then obtain b where "nested d b" "key \<in> set (dkeys b)" by blast
  then show "body_has_block key (PDict d)"
  proof (induction rule: nested.induct)
    case (nested_dict k b d c)
    then have h: "body_has_block key (PDict b)" by blast
    show ?case unfolding body_has_block.simps(1) [of key d] list_ex_iff using h nested_dict(1,2)
      by (intro disjI2 bexI [of _ "(k, PDict b)"]) (simp_all del: body_has_block.simps)
  next
    case (nested_list k vs d b c)
    then have h: "body_has_block key (PDict b)" by blast
    with nested_list(3) have "list_ex (\<lambda>x. (case x of PDict b \<Rightarrow> body_has_block key x | _ \<Rightarrow> False)) vs"
      unfolding list_ex_iff by (intro bexI [of _ "PDict b"]) (simp_all del: body_has_block.simps)
    then show ?case unfolding body_has_block.simps(1) [of key d] list_ex_iff [of _ d] using nested_list(1,2)
      by (intro disjI2 bexI [of _ "(k, PList vs)"]) (simp_all del: body_has_block.simps)
  qed simp
qed

lemma ends_with_last: "ends_with a p \<Longrightarrow> a \<noteq> [] \<Longrightarrow> last p = last a"
  by (auto simp: ends_with_iff)

lemma agent_path_iff: "path_violations AGENT p = [] \<longleftrightarrow> agent_path p"
proof -
  have "\<not> (ends_with s p \<and> (ends_with ''.tf'' p \<or> ends_with ''.md'' p))" if "s \<in> {''.tofu'', ''.tofu.json'', ''.tf.json'', ''.tfvars'', ''.auto.tfvars''}" for s
    using that ends_with_last [of s p] ends_with_last [of "''.tf''" p] ends_with_last [of "''.md''" p] by auto
  then show ?thesis
    by (auto simp: path_violations_def agent_path_def IAC_PREFIX_def is_disallowed_iac_suffix_def REJECTED_IAC_SUFFIXES_def
        ALLOWED_AGENT_SUFFIX_def ALLOWED_AGENT_DOC_SUFFIX_def)
qed

lemma provider_violations_iff: "provider_violations path p = [] \<longleftrightarrow> provider_ok p"
  by (cases p) (auto simp: provider_violations_def provider_ok_def BUILTIN_PROVIDERS_def ALLOWED_PROVIDERS_def
      REQUIRED_PROVIDER_SOURCES_def split: option.splits)

lemma resource_violations_iff: "resource_violations AGENT path r = [] \<longleftrightarrow> resource_ok r"
  by (cases r) (auto simp: resource_violations_def resource_ok_def SECRET_MATERIAL_ATTR_KEY_def DYNAMIC_BLOCK_KEY_def
      ARBITRARY_EXECUTION_BLOCK_KEYS_def body_has_block_nested simp del: body_has_block.simps)

lemma data_violations_iff: "data_violations path d = [] \<longleftrightarrow> fst d \<notin> {''external'', ''terraform_remote_state''}"
  by (cases d) (simp add: data_violations_def FORBIDDEN_DATA_SOURCE_TYPES_def)

lemma file_violations_iff: "file_violations AGENT path parsed = [] \<longleftrightarrow> file_ok parsed"
  by (auto simp: file_violations_def file_ok_def module_violations_def concat_eq_Nil provider_violations_iff
      resource_violations_iff data_violations_iff)

lemma wrapped_iff: "wrapped s \<longleftrightarrow> (\<exists>i. s = dquote # i @ [dquote])"
proof
  assume w: "wrapped s"
  then obtain c d t where "s = c # d # t" by (cases s; cases "tl s") (auto simp: wrapped_def)
  then have "s = hd s # butlast (tl s) @ [last s]" by simp
  with w show "\<exists>i. s = dquote # i @ [dquote]" unfolding wrapped_def by metis
qed (auto simp: wrapped_def)

lemma block_label_wrapped [simp]: "block_label (dquote # i @ [dquote]) = i"
  by (simp add: block_label_def wrapped_def)

lemma interpolation_wrapped: "contains_str ''${'' (dquote # i @ [dquote]) \<longleftrightarrow> contains_str ''${'' i"
proof
  assume "contains_str ''${'' (dquote # i @ [dquote])"
  then obtain a b where e: "dquote # i @ [dquote] = a @ ''${'' @ b" by (auto simp: contains_str_iff)
  have "dquote \<noteq> CHR ''$''" "dquote \<noteq> CHR ''{''" by code_simp+
  note q = this
  have "a \<noteq> []" using e q by auto
  then obtain a' where a: "a = dquote # a'" using e by (cases a) auto
  have "b \<noteq> []"
  proof
    assume "b = []"
    with arg_cong [OF e, of last] q(2) show False by simp
  qed
  then obtain b' where "b = b' @ [dquote]" using e by (cases b rule: rev_cases) auto
  with e a have "i = a' @ ''${'' @ b'" by simp
  then show "contains_str ''${'' i" unfolding contains_str_iff by blast
next
  assume "contains_str ''${'' i"
  then obtain a b where "i = a @ ''${'' @ b" by (auto simp: contains_str_iff)
  then have "dquote # i @ [dquote] = (dquote # a) @ ''${'' @ (b @ [dquote])" by simp
  then show "contains_str ''${'' (dquote # i @ [dquote])" unfolding contains_str_iff by blast
qed

lemma literal_id_iff: "literal_id raw = Some i \<longleftrightarrow> raw = PStr (dquote # i @ [dquote]) \<and> \<not> contains_str ''${'' i"
proof (cases raw)
  case (PStr s)
  show ?thesis
  proof
    assume l: "literal_id raw = Some i"
    with PStr obtain j where "s = dquote # j @ [dquote]" by (auto simp: wrapped_iff split: if_splits)
    with l PStr show "raw = PStr (dquote # i @ [dquote]) \<and> \<not> contains_str ''${'' i"
      by (auto simp: interpolation_wrapped split: if_splits)
  qed (use PStr in \<open>auto simp: wrapped_iff interpolation_wrapped\<close>)
qed auto

lemma ident_lang: "fullmatch ident_rx s \<longleftrightarrow> s \<noteq> [] \<and> in_ranges [(65, 90), (95, 95), (97, 122)] (hd s) \<and>
    (\<forall>c \<in> set (tl s). in_ranges ((45, 45) # word_ranges) c)"
  unfolding fullmatch_iff ident_rx_def lang_seq_cls lang_rstar_cls by (cases s) auto

lemma ident_excludes: "fullmatch ident_rx s \<Longrightarrow> c \<in> {CHR ''.'', CHR ''['', CHR '']''} \<Longrightarrow> c \<notin> set s"
  unfolding ident_lang by (cases s) (auto simp: word_ranges_def)

lemma plain_address_iff:
  "fullmatch PLAIN_ADDRESS t \<longleftrightarrow> (\<exists>rtype name. t = rtype @ ''.'' @ name \<and> fullmatch ident_rx rtype \<and> fullmatch ident_rx name)"
  unfolding PLAIN_ADDRESS_def fullmatch_iff by auto

lemma split_dot_plain: "fullmatch ident_rx rtype \<Longrightarrow> split_dot (rtype @ ''.'' @ name) = rtype"
proof -
  assume "fullmatch ident_rx rtype"
  then have "CHR ''.'' \<notin> set rtype" by (rule ident_excludes) simp
  then have "\<forall>c \<in> set rtype. c \<noteq> CHR ''.''" by blast
  then show ?thesis by (simp add: split_dot_def takeWhile_append2)
qed

lemma shapes_adoptable: "map_of ADOPT_IMPORT_ID_SHAPES rtype = Some shape \<Longrightarrow> rtype \<in> set ADOPTABLE_RESOURCE_TYPES \<and> fullmatch ident_rx rtype"
proof -
  assume "map_of ADOPT_IMPORT_ID_SHAPES rtype = Some shape"
  then have r: "rtype \<in> set ADOPTABLE_RESOURCE_TYPES"
    by (auto simp: ADOPT_IMPORT_ID_SHAPES_def ADOPTABLE_RESOURCE_TYPES_def Let_def split: if_splits)
  moreover have "list_all (fullmatch ident_rx) ADOPTABLE_RESOURCE_TYPES" by code_simp
  ultimately show ?thesis by (auto simp: list_all_iff)
qed

lemma adoptable_shape: "rtype \<in> set ADOPTABLE_RESOURCE_TYPES \<Longrightarrow> \<exists>shape. map_of ADOPT_IMPORT_ID_SHAPES rtype = Some shape"
  by (auto simp: ADOPT_IMPORT_ID_SHAPES_def ADOPTABLE_RESOURCE_TYPES_def Let_def)

text \<open>A clean target is a plain address of an adoptable type with its resource block at hand.\<close>

lemma import_target_iff:
  "import_target path declared imp = ([], rt) \<longleftrightarrow>
     (\<exists>rtype name body shape. rt = Some rtype \<and> unwrap_ref (dget imp ''to'') = Some (rtype @ ''.'' @ name) \<and> fullmatch ident_rx name \<and>
        map_of ADOPT_IMPORT_ID_SHAPES rtype = Some shape \<and>
        declared (rtype @ ''.'' @ name) = Some body \<and> set (dkeys body) \<inter> {''for_each'', ''count''} = {})"
  (is "?l \<longleftrightarrow> ?r")
proof
  assume l: ?l
  then obtain t where t: "unwrap_ref (dget imp ''to'') = Some t" by (auto simp: import_target_def split: option.splits)
  with l have plain: "fullmatch PLAIN_ADDRESS t" by (auto simp: import_target_def Let_def split: if_splits)
  then obtain rtype name where n: "t = rtype @ ''.'' @ name" "fullmatch ident_rx rtype" "fullmatch ident_rx name"
    by (auto simp: plain_address_iff)
  from l t plain have "rt = Some (split_dot t)" "split_dot t \<in> set ADOPTABLE_RESOURCE_TYPES"
    "\<exists>body. declared t = Some body \<and> set (dkeys body) \<inter> {''for_each'', ''count''} = {}"
    by (auto simp: import_target_def Let_def split: if_splits option.splits)
  moreover have "split_dot t = rtype" using n split_dot_plain by blast
  ultimately show ?r using n t adoptable_shape [of rtype] by (metis (no_types))
next
  assume ?r
  then obtain rtype name body shape where r: "rt = Some rtype" "unwrap_ref (dget imp ''to'') = Some (rtype @ ''.'' @ name)"
    "fullmatch ident_rx name" "map_of ADOPT_IMPORT_ID_SHAPES rtype = Some shape" "declared (rtype @ ''.'' @ name) = Some body"
    "set (dkeys body) \<inter> {''for_each'', ''count''} = {}" by (elim exE conjE) (rule that)
  note a = shapes_adoptable [OF r(4)]
  have "fullmatch PLAIN_ADDRESS (rtype @ ''.'' @ name)" using a r(3) plain_address_iff by blast
  moreover have "CHR ''['' \<notin> set (rtype @ ''.'' @ name)" "CHR '']'' \<notin> set (rtype @ ''.'' @ name)"
    using ident_excludes [OF r(3)] a ident_excludes [of rtype] by auto
  moreover have "split_dot (rtype @ ''.'' @ name) = rtype" using a split_dot_plain by blast
  ultimately show ?l using r a by (auto simp: import_target_def Let_def)
qed

lemma check_import_iff: "check_import_block path imp declared = [] \<longleftrightarrow> import_ok declared imp"
proof -
  obtain vs rt where t: "import_target path declared imp = (vs, rt)" by fastforce
  have "check_import_block path imp declared = [] \<longleftrightarrow>
      set (dkeys imp) \<inter> {''for_each'', ''count'', ''identity''} = {} \<and> vs = [] \<and> import_id_violations path rt (dget imp ''id'') = []"
    by (auto simp: check_import_block_def t)
  also have "\<dots> \<longleftrightarrow> import_ok declared imp"
  proof
    assume c: "set (dkeys imp) \<inter> {''for_each'', ''count'', ''identity''} = {} \<and> vs = [] \<and> import_id_violations path rt (dget imp ''id'') = []"
    with t have "import_target path declared imp = ([], rt)" by simp
    then obtain rtype name body shape where
      r: "rt = Some rtype" "unwrap_ref (dget imp ''to'') = Some (rtype @ ''.'' @ name)" "fullmatch ident_rx name"
      "map_of ADOPT_IMPORT_ID_SHAPES rtype = Some shape" "declared (rtype @ ''.'' @ name) = Some body"
      "set (dkeys body) \<inter> {''for_each'', ''count''} = {}"
      unfolding import_target_iff by (elim exE conjE) (rule that)
    from c have v: "import_id_violations path rt (dget imp ''id'') = []" by blast
    then obtain i where i: "literal_id (dget imp ''id'') = Some i"
      by (cases "literal_id (dget imp ''id'')") (simp_all add: import_id_violations_def)
    from v i r(1,4) have f: "fullmatch shape i" by (simp add: import_id_violations_def split: if_splits)
    note d = c [THEN conjunct1] and i' = i [unfolded literal_id_iff, THEN conjunct1] i [unfolded literal_id_iff, THEN conjunct2]
    show "import_ok declared imp" unfolding import_ok_def by (intro conjI exI) (rule d r i' f)+
  next
    assume "import_ok declared imp"
    then obtain rtype name body i shape where c: "set (dkeys imp) \<inter> {''for_each'', ''count'', ''identity''} = {}"
      "unwrap_ref (dget imp ''to'') = Some (rtype @ ''.'' @ name)" "fullmatch ident_rx name"
      "map_of ADOPT_IMPORT_ID_SHAPES rtype = Some shape" "declared (rtype @ ''.'' @ name) = Some body"
      "set (dkeys body) \<inter> {''for_each'', ''count''} = {}" "dget imp ''id'' = PStr (dquote # i @ [dquote])" "\<not> contains_str ''${'' i" "fullmatch shape i"
      unfolding import_ok_def by (elim exE conjE) (rule that)
    then have l: "literal_id (dget imp ''id'') = Some i" unfolding literal_id_iff by (intro conjI)
    from c have "import_target path declared imp = ([], Some rtype)"
      unfolding import_target_iff by (intro exI conjI) (rule refl c)+
    with t have v: "vs = []" "rt = Some rtype" by simp_all
    have "import_id_violations path rt (dget imp ''id'') = []"
      using l c(4,9) v by (simp add: import_id_violations_def)
    with c(1) v show "set (dkeys imp) \<inter> {''for_each'', ''count'', ''identity''} = {} \<and> vs = [] \<and>
        import_id_violations path rt (dget imp ''id'') = []" by blast
  qed
  finally show ?thesis .
qed

lemma parsed_all:
  "(\<forall>(path, text) \<in> set files. \<exists>parsed. parse text = Some parsed \<and> P parsed) \<longleftrightarrow>
     (\<forall>(path, text) \<in> set files. parse text \<noteq> None) \<and> (\<forall>(path, parsed) \<in> set (parsed_files parse files). P parsed)"
  by (fastforce simp: parsed_files_def split: option.splits)

lemma gate_passes_iff:
  "evaluate_gate parse AGENT paths files = [] \<longleftrightarrow>
     (\<forall>p \<in> set paths. agent_path p) \<and>
     (\<forall>(path, text) \<in> set files. \<exists>parsed. parse text = Some parsed \<and> file_ok parsed) \<and>
     (let all = parsed_files parse files in
      length (import_blocks all) \<le> 1 \<and> (\<forall>(path, imp) \<in> set (import_blocks all). import_ok (declared_bodies all) imp))"
proof -
  have f: "concat (map (\<lambda>(path, text). case parse text of None \<Rightarrow> [Violation ''hcl-parse-error'' path]
      | Some parsed \<Rightarrow> file_violations AGENT path parsed) files) = [] \<longleftrightarrow>
     (\<forall>(path, text) \<in> set files. \<exists>parsed. parse text = Some parsed \<and> file_ok parsed)"
    by (auto simp: concat_eq_Nil file_violations_iff split: option.splits prod.splits) force+
  have i: "import_violations all = [] \<longleftrightarrow>
      length (import_blocks all) \<le> 1 \<and> (\<forall>(path, imp) \<in> set (import_blocks all). import_ok (declared_bodies all) imp)" for all
    by (auto simp: import_violations_def Let_def concat_eq_Nil check_import_iff split: prod.splits)
  show ?thesis
    unfolding evaluate_gate_def append_is_Nil_conv f by (simp add: i Let_def concat_eq_Nil agent_path_iff conj_ac)
qed

lemma gate_exit_zero: "fst (gate_main parse mode paths git_show) = 0 \<longleftrightarrow>
    evaluate_gate parse mode paths (changed_hcl_files git_show paths) = []"
  by (simp add: gate_main_def Let_def)

lemma changed_hcl_files_iff: "(p, content) \<in> set (changed_hcl_files git_show paths) \<longleftrightarrow>
    p \<in> set paths \<and> starts_with ''iac/'' p \<and> ends_with ''.tf'' p \<and> git_show p = Some content"
  by (auto simp: changed_hcl_files_def IAC_PREFIX_def HCL_CONTENT_SUFFIXES_def split: option.splits if_splits)

text \<open>C37: The command passes an agent's change exactly when all of this holds: every path is a .tf or .md file
  under iac/ and none of the foundation files; every Terraform file that the change leaves in place parses,
  declares no provider but google from its canonical source (or a built-in one), no module, no resource that runs
  commands or holds secret material, none with a secret_data attribute or with a provisioner, connection or
  dynamic block nested at any depth, and no external or cross-state data source; and there is at most one import
  block, of a plain adoptable address whose resource block is in the same change without count or for_each, with
  a literal identifier of the shape of its type.\<close>

theorem gate_exit_iff:
  "fst (gate_main parse AGENT paths git_show) = 0 \<longleftrightarrow>
     (\<forall>p \<in> set paths. agent_path p \<and>
        (case git_show p of
           None \<Rightarrow> True
         | Some content \<Rightarrow> \<not> ends_with ''.tf'' p \<or> (\<exists>parsed. parse content = Some parsed \<and> file_ok parsed))) \<and>
     (let all = parsed_files parse (changed_hcl_files git_show paths) in
      length (import_blocks all) \<le> 1 \<and> (\<forall>(path, imp) \<in> set (import_blocks all). import_ok (declared_bodies all) imp))"
proof -
  have "(\<forall>p \<in> set paths. agent_path p) \<and>
      (\<forall>(path, content) \<in> set (changed_hcl_files git_show paths). \<exists>parsed. parse content = Some parsed \<and> file_ok parsed) \<longleftrightarrow>
      (\<forall>p \<in> set paths. agent_path p \<and>
        (case git_show p of
           None \<Rightarrow> True
         | Some content \<Rightarrow> \<not> ends_with ''.tf'' p \<or> (\<exists>parsed. parse content = Some parsed \<and> file_ok parsed)))"
    by (fastforce simp: changed_hcl_files_iff agent_path_def split: option.splits)
  then show ?thesis unfolding gate_exit_zero gate_passes_iff by blast
qed

definition adopt_change :: pydict where
  "adopt_change =
     [(''resource'', PList [PDict [(dquote # ''google_storage_bucket'' @ [dquote],
         PDict [(dquote # ''b'' @ [dquote], PDict [(''name'', PStr (dquote # ''shop'' @ [dquote]))])])]]),
      (''import'', PList [PDict [(''to'', PStr (dquote # ''${google_storage_bucket.b}'' @ [dquote])),
         (''id'', PStr (dquote # ''shop'' @ [dquote]))]])]"

lemma adopt_change_passes: "fst (gate_main (\<lambda>_. Some adopt_change) AGENT [''iac/b.tf''] (\<lambda>_. Some [])) = 0"
  by code_simp

theorem gate_exit_iff_witness: "agent_path ''iac/b.tf'' \<and> file_ok adopt_change"
  using gate_exit_iff [of "\<lambda>_. Some adopt_change" "[''iac/b.tf'']" "\<lambda>_. Some []"] adopt_change_passes
  by (simp add: ends_with_iff)

text \<open>What sets authority is protected by file, not by block: a file of the agent may hold an aliased provider of
  another project and a backend.\<close>

definition authority_change :: pydict where
  "authority_change =
     [(''provider'', PList [PDict [(dquote # ''google'' @ [dquote],
         PDict [(''alias'', PStr (dquote # ''other'' @ [dquote])), (''project'', PStr (dquote # ''victim'' @ [dquote]))])]]),
      (''terraform'', PList [PDict [(''backend'', PList [PDict [(dquote # ''gcs'' @ [dquote],
         PDict [(''bucket'', PStr (dquote # ''elsewhere'' @ [dquote]))])]])]])]"

lemma authority_outside_foundation:
  "fst (gate_main (\<lambda>_. Some authority_change) AGENT [''iac/extra.tf''] (\<lambda>_. Some [])) = 0"
  by code_simp

text \<open>The ban on secret values reads the attributes of the resource itself, not of the blocks in it.\<close>

definition nested_secret_change :: pydict where
  "nested_secret_change =
     [(''resource'', PList [PDict [(dquote # ''google_cloud_run_v2_service'' @ [dquote],
         PDict [(dquote # ''s'' @ [dquote], PDict [(''template'', PList [PDict [(''secret_data'', PStr (dquote # ''hunter2'' @ [dquote]))]])])])]])]"

lemma nested_secret_passes:
  "fst (gate_main (\<lambda>_. Some nested_secret_change) AGENT [''iac/s.tf''] (\<lambda>_. Some [])) = 0"
  by code_simp

end
