(* ===== verification/HclIdentity.thy ===== *)
theory HclIdentity
  imports HclGate
begin

text \<open>
  The identities that the Terraform text declares (\<open>extract_declared_identities\<close> of \<open>driftscribe_lib/iac_hcl.py\<close>).
  An adoption that passes the static gate is in the declared set under the identity it imports, with the asset
  type that makes it comparable to a live resource.
\<close>

text \<open>An identity is what the text gave, usually a string; \<open>PNone\<close> is an unresolved one.\<close>

record declared_identity =
  di_identity :: pyval
  di_address :: string
  di_source :: string
  di_confidence :: string
  di_asset_type :: "string option"

definition DeclaredIdentity :: "pyval \<Rightarrow> string \<Rightarrow> string \<Rightarrow> string \<Rightarrow> string option \<Rightarrow> declared_identity" where
  "DeclaredIdentity i address src conf t =
     \<lparr>di_identity = i, di_address = address, di_source = src, di_confidence = conf, di_asset_type = t\<rparr>"

lemma DeclaredIdentity_simps [simp]:
  "di_identity (DeclaredIdentity i address src conf t) = i"
  "di_address (DeclaredIdentity i address src conf t) = address"
  "di_source (DeclaredIdentity i address src conf t) = src"
  "di_confidence (DeclaredIdentity i address src conf t) = conf"
  "di_asset_type (DeclaredIdentity i address src conf t) = t"
  by (simp_all add: DeclaredIdentity_def)

definition SUPPORTED_RESOURCE_ASSET_TYPES :: "(string \<times> string) list" where
  "SUPPORTED_RESOURCE_ASSET_TYPES =
     [(''google_cloud_run_v2_service'', ''run.googleapis.com/Service''),
      (''google_storage_bucket'', ''storage.googleapis.com/Bucket''),
      (''google_pubsub_topic'', ''pubsub.googleapis.com/Topic''),
      (''google_pubsub_subscription'', ''pubsub.googleapis.com/Subscription''),
      (''google_service_account'', ''iam.googleapis.com/ServiceAccount'')]"

section \<open>Scalars\<close>

text \<open>The defaults of the variables; a later block wins.\<close>

definition variable_defaults :: "(string \<times> pydict) list \<Rightarrow> string \<Rightarrow> string option" where
  "variable_defaults pfs =
     map_of (rev (concat (map (\<lambda>(path, parsed).
       concat (map (\<lambda>var_block.
         concat (map (\<lambda>(name, body).
           (case body of
              PDict d \<Rightarrow> (case dget d ''default'' of PStr s \<Rightarrow> [(block_label name, block_label s)] | _ \<Rightarrow> [])
            | _ \<Rightarrow> [])) (own_items var_block))) (iter_blocks parsed ''variable''))) pfs)))"

text \<open>The name of a variable reference; the text in a wrapped reference has no newline.\<close>

definition var_rx :: rx where
  "var_rx = RSeq (RCls [(65, 90), (95, 95), (97, 122)]) (RStar (RCls [(65, 90), (95, 95), (97, 122), (48, 57)]))"

definition var_name :: "string \<Rightarrow> string option" where
  "var_name e = (if starts_with ''var.'' e \<and> fullmatch var_rx (drop 4 e) then Some (drop 4 e) else None)"

fun resolve_scalar :: "(string \<Rightarrow> string option) \<Rightarrow> pyval \<Rightarrow> string option" where
  "resolve_scalar defaults (PStr v) =
     (let s = block_label v in
      case ref_inner s of
        Some e \<Rightarrow> Option.bind (var_name e) defaults
      | None \<Rightarrow> if contains_str ''${'' s then None else Some s)"
| "resolve_scalar defaults _ = None"

definition asset_type_for_address :: "string \<Rightarrow> string option" where
  "asset_type_for_address address =
     (if address = [] \<or> CHR ''.'' \<notin> set address then None
      else map_of SUPPORTED_RESOURCE_ASSET_TYPES (split_dot address))"

fun is_short :: "string option \<Rightarrow> bool" where
  "is_short (Some s) = (s \<noteq> [] \<and> CHR ''/'' \<notin> set s)"
| "is_short None = False"

section \<open>Identities\<close>

definition derive_identity :: "string \<Rightarrow> pydict \<Rightarrow> (string \<Rightarrow> string option) \<Rightarrow> string option" where
  "derive_identity rtype body defaults =
     (let attr = (\<lambda>k. resolve_scalar defaults (dget body k)); proj = attr ''project'' in
      if rtype = ''google_cloud_run_v2_service'' then
        (let l = attr ''location''; svc = attr ''name'' in
         if is_short proj \<and> is_short l \<and> is_short svc
         then Some (''projects/'' @ the proj @ ''/locations/'' @ the l @ ''/services/'' @ the svc) else None)
      else if rtype = ''google_storage_bucket'' then
        (let name = attr ''name'' in if is_short name then name else None)
      else if rtype = ''google_pubsub_topic'' then
        (let name = attr ''name'' in
         if is_short proj \<and> is_short name then Some (''projects/'' @ the proj @ ''/topics/'' @ the name) else None)
      else if rtype = ''google_pubsub_subscription'' then
        (let name = attr ''name'' in
         if is_short proj \<and> is_short name then Some (''projects/'' @ the proj @ ''/subscriptions/'' @ the name) else None)
      else if rtype = ''google_service_account'' then
        (let acct = attr ''account_id'' in
         if is_short proj \<and> is_short acct
         then Some (''projects/'' @ the proj @ ''/serviceAccounts/'' @ the acct @ ''@'' @ the proj @ ''.iam.gserviceaccount.com'')
         else None)
      else None)"

definition import_identities :: "(string \<times> pydict) list \<Rightarrow> declared_identity list" where
  "import_identities pfs =
     concat (map (\<lambda>(path, imp).
       if dget imp ''id'' = PNone then []
       else (let address = (case unwrap_ref (dget imp ''to'') of Some a \<Rightarrow> a | None \<Rightarrow> []) in
             [DeclaredIdentity (unwrap (dget imp ''id'')) address ''import_id'' ''high'' (asset_type_for_address address)]))
       (import_blocks pfs))"

definition resource_identity :: "(string \<Rightarrow> string option) \<Rightarrow> string \<times> string \<times> pydict \<Rightarrow> declared_identity" where
  "resource_identity defaults r =
     (case r of (rtype, name, body) \<Rightarrow>
        let address = rtype @ ''.'' @ name in
        (case map_of SUPPORTED_RESOURCE_ASSET_TYPES rtype of
           None \<Rightarrow> DeclaredIdentity PNone address ''derived_resource'' ''derived'' None
         | Some t \<Rightarrow>
             DeclaredIdentity (case derive_identity rtype body defaults of None \<Rightarrow> PNone | Some i \<Rightarrow> PStr i)
               address ''derived_resource'' ''derived'' (Some t)))"

definition resource_identities :: "(string \<times> pydict) list \<Rightarrow> declared_identity list" where
  "resource_identities pfs =
     concat (map (\<lambda>(path, parsed). map (resource_identity (variable_defaults pfs)) (iter_typed_blocks parsed ''resource'')) pfs)"

section \<open>One declaration per type and identity\<close>

text \<open>As a dict key a boolean is the integer it equals; a list or a dict has no hash.\<close>

type_synonym identity_key = "string option \<times> pyval"

fun key_value :: "pyval \<Rightarrow> pyval" where
  "key_value (PBool b) = PInt (if b then 1 else 0)"
| "key_value v = v"

definition identity_key :: "declared_identity \<Rightarrow> identity_key" where
  "identity_key d = (di_asset_type d, key_value (di_identity d))"

fun put_best :: "(identity_key \<times> declared_identity) list \<Rightarrow> declared_identity \<Rightarrow> (identity_key \<times> declared_identity) list" where
  "put_best [] d = [(identity_key d, d)]"
| "put_best ((k, prev) # best) d =
     (if k = identity_key d
      then (k, if di_confidence prev = ''derived'' \<and> di_confidence d = ''high'' then d else prev) # best
      else (k, prev) # put_best best d)"

fun best_of :: "(identity_key \<times> declared_identity) list \<Rightarrow> declared_identity list \<Rightarrow> (pyexc, (identity_key \<times> declared_identity) list) res" where
  "best_of best [] = Inr best"
| "best_of best (d # ds) =
     (if di_identity d = PNone then best_of best ds
      else if \<not> hashable (di_identity d) then Inl TypeError
      else best_of (put_best best d) ds)"

definition extract_declared_identities ::
  "(string \<Rightarrow> pydict option) \<Rightarrow> (string \<times> string) list \<Rightarrow> (pyexc, declared_identity list \<times> string list) res" where
  "extract_declared_identities parse files =
     (let pfs = parsed_files parse files;
          parse_errors = map fst (filter (\<lambda>(fn, content). parse content = None) files);
          found = import_identities pfs @ resource_identities pfs in
      rbind (best_of [] found) (\<lambda>best.
      Inr (map snd best @ filter (\<lambda>d. di_identity d = PNone) found, parse_errors)))"

section \<open>Adoptions are declared\<close>

lemma put_best_keeps: "(k, d) \<in> set best \<Longrightarrow> di_confidence d \<noteq> ''derived'' \<Longrightarrow> (k, d) \<in> set (put_best best d')"
  by (induction best d' rule: put_best.induct) auto

lemma best_of_keeps:
  "best_of best ds = Inr best' \<Longrightarrow> (k, d) \<in> set best \<Longrightarrow> di_confidence d \<noteq> ''derived'' \<Longrightarrow> (k, d) \<in> set best'"
  by (induction best ds rule: best_of.induct) (auto simp: put_best_keeps split: if_splits)

lemma best_of_returns: "(\<forall>d \<in> set ds. hashable (di_identity d)) \<Longrightarrow> \<exists>best'. best_of best ds = Inr best'"
  by (induction best ds rule: best_of.induct) auto

lemma resource_identity_hashable: "hashable (di_identity (resource_identity defaults r))"
  by (cases r) (auto simp: resource_identity_def Let_def split: option.splits)

lemma resource_identities_hashable: "d \<in> set (resource_identities pfs) \<Longrightarrow> hashable (di_identity d)"
  by (auto simp: resource_identities_def resource_identity_hashable)

lemma shapes_supported: "map_of ADOPT_IMPORT_ID_SHAPES rtype = Some shape \<Longrightarrow> \<exists>t. map_of SUPPORTED_RESOURCE_ASSET_TYPES rtype = Some t"
  by (auto simp: ADOPT_IMPORT_ID_SHAPES_def SUPPORTED_RESOURCE_ASSET_TYPES_def Let_def split: if_splits)

lemma first_is_declared:
  assumes "import_identities pfs = [d]" "di_identity d = PStr i" "di_confidence d = ''high''"
  shows "\<exists>best. best_of [] (import_identities pfs @ resource_identities pfs) = Inr best \<and> (identity_key d, d) \<in> set best"
proof -
  from best_of_returns [of "resource_identities pfs" "[(identity_key d, d)]"] resource_identities_hashable
  obtain best where b: "best_of [(identity_key d, d)] (resource_identities pfs) = Inr best" by blast
  from best_of_keeps [OF b, of "identity_key d" d] assms(3) have "(identity_key d, d) \<in> set best" by simp
  with b assms show ?thesis by simp
qed

text \<open>The only import of an admitted change comes first among the declarations, and no later one replaces it.\<close>

lemma adopted_identity_declared:
  assumes "evaluate_gate parse AGENT paths files = []"
    and "(path, imp) \<in> set (import_blocks (parsed_files parse files))"
  shows "\<exists>rtype name i shape t ds.
    unwrap_ref (dget imp ''to'') = Some (rtype @ ''.'' @ name) \<and> dget imp ''id'' = PStr (dquote # i @ [dquote]) \<and>
    map_of ADOPT_IMPORT_ID_SHAPES rtype = Some shape \<and> fullmatch shape i \<and>
    map_of SUPPORTED_RESOURCE_ASSET_TYPES rtype = Some t \<and>
    extract_declared_identities parse files = Inr (ds, []) \<and>
    DeclaredIdentity (PStr i) (rtype @ ''.'' @ name) ''import_id'' ''high'' (Some t) \<in> set ds"
proof -
  let ?all = "parsed_files parse files"
  from assms(1) have one: "length (import_blocks ?all) \<le> 1" and parsed: "\<forall>(path, content) \<in> set files. parse content \<noteq> None"
    and ok: "\<forall>(path, imp) \<in> set (import_blocks ?all). import_ok (declared_bodies ?all) imp"
    unfolding gate_passes_iff Let_def by auto
  from one assms(2) have only: "import_blocks ?all = [(path, imp)]"
    by (cases "import_blocks ?all" rule: list.exhaust) auto
  from ok assms(2) have "import_ok (declared_bodies ?all) imp" by blast
  then obtain rtype name body i shape where r: "unwrap_ref (dget imp ''to'') = Some (rtype @ ''.'' @ name)"
    "map_of ADOPT_IMPORT_ID_SHAPES rtype = Some shape" "dget imp ''id'' = PStr (dquote # i @ [dquote])" "fullmatch shape i"
    unfolding import_ok_def by (elim exE conjE) (rule that)
  from shapes_supported [OF r(2)] obtain t where t: "map_of SUPPORTED_RESOURCE_ASSET_TYPES rtype = Some t" by blast
  have "fullmatch ident_rx rtype" using shapes_adoptable [OF r(2)] by blast
  then have "asset_type_for_address (rtype @ ''.'' @ name) = Some t"
    using t by (simp only: asset_type_for_address_def split_dot_plain) simp
  then have d: "import_identities ?all = [DeclaredIdentity (PStr i) (rtype @ ''.'' @ name) ''import_id'' ''high'' (Some t)]"
    unfolding import_identities_def only using r by simp
  from first_is_declared [OF d] obtain best where
    b: "best_of [] (import_identities ?all @ resource_identities ?all) = Inr best"
    and m: "DeclaredIdentity (PStr i) (rtype @ ''.'' @ name) ''import_id'' ''high'' (Some t) \<in> snd ` set best" by force
  from parsed have none: "filter (\<lambda>(fn, content). parse content = None) files = []" by (auto simp: filter_empty_conv)
  have "\<exists>ds. extract_declared_identities parse files = Inr (ds, []) \<and>
      DeclaredIdentity (PStr i) (rtype @ ''.'' @ name) ''import_id'' ''high'' (Some t) \<in> set ds"
    unfolding extract_declared_identities_def Let_def none b using m by simp
  with r t show ?thesis by blast
qed

end
