(* ===== verification/Inventory.thy ===== *)
theory Inventory
  imports HclIdentity "HOL-Library.AList" "HOL-Library.List_Lexorder" "HOL-Library.Char_ord"
begin

text \<open>
  The summary of the live estate against the declared set (\<open>driftscribe_lib/infra_inventory.py\<close>): which live
  resources the Terraform text declares, which declarations have no live resource, and what is withheld.
\<close>

section \<open>Rows and results\<close>

definition SENSITIVE_ASSET_TYPES :: "string list" where
  "SENSITIVE_ASSET_TYPES = [''secretmanager.googleapis.com/Secret'', ''secretmanager.googleapis.com/SecretVersion'']"

definition SAMPLE_CAP :: nat where "SAMPLE_CAP = 10"
definition UNMATCHED_IAC_CAP :: nat where "UNMATCHED_IAC_CAP = 10"
definition RUN_ASSET_TYPE :: string where "RUN_ASSET_TYPE = ''run.googleapis.com/Service''"

record cai_resource =
  cr_name :: string
  cr_asset_type :: string
  cr_location :: string
  cr_topic :: "string option"
  cr_image :: "string option"

record sample =
  sm_name :: string
  sm_location :: string
  sm_iac :: bool
  sm_confidence :: "string option"
  sm_topic :: "string option"
  sm_image :: "string option"

record type_bucket =
  bk_count :: nat
  bk_declared :: nat
  bk_undeclared :: nat
  bk_control_plane :: nat
  bk_samples :: "sample list"

record type_entry =
  te_count :: nat
  te_declared :: nat
  te_undeclared :: nat
  te_control_plane :: nat
  te_sensitive :: bool
  te_sample :: "sample list option"

record not_found =
  nf_address :: "string option"
  nf_asset_type :: "string option"
  nf_source :: string
  nf_confidence :: string
  nf_causes :: "string list"
  nf_redacted :: bool
  nf_identity :: pyval

record unmatched =
  um_asset_type :: string
  um_name :: string
  um_address :: "string option"

text \<open>The projection of the unmatched declarations has a count, the entries kept and how many were cut.\<close>

record inventory =
  iv_project :: string
  iv_generated_at :: string
  iv_snapshot_sha :: string
  iv_tree_hash :: "string option"
  iv_total :: nat
  iv_declared :: nat
  iv_undeclared :: nat
  iv_by_type :: "(string \<times> type_entry) list"
  iv_not_found :: "not_found list"
  iv_unmatched :: "(nat \<times> unmatched list \<times> nat) option"
  iv_parse_error :: bool

section \<open>Names\<close>

definition shorten_topic :: "string \<Rightarrow> string \<Rightarrow> string" where
  "shorten_topic topic project =
     (let prefix = ''projects/'' @ project @ ''/topics/'' in
      if starts_with prefix topic then drop (length prefix) topic else topic)"

definition normalize_cai_name :: "string \<Rightarrow> string" where
  "normalize_cai_name name =
     (if starts_with ''//'' name
      then (let rest = drop 2 name in
            if CHR ''/'' \<in> set rest then tl (dropWhile (\<lambda>c. c \<noteq> CHR ''/'') rest) else rest)
      else name)"

definition is_sensitive :: "string \<Rightarrow> bool" where
  "is_sensitive t \<longleftrightarrow> t \<in> set SENSITIVE_ASSET_TYPES"

definition display_name :: "cai_resource \<Rightarrow> string" where
  "display_name r =
     (let norm = normalize_cai_name (cr_name r) in if norm \<noteq> [] then base_name norm else cr_name r)"

definition row_control_plane :: "cai_resource \<Rightarrow> bool" where
  "row_control_plane r \<longleftrightarrow> is_control_plane_node (PStr (cr_asset_type r)) (PStr (display_name r)) = Inr True"

section \<open>Matching\<close>

definition is_matchable :: "declared_identity \<Rightarrow> bool" where
  "is_matchable d \<longleftrightarrow> di_asset_type d \<noteq> None \<and> di_identity d \<noteq> PNone"

definition matchable :: "declared_identity list \<Rightarrow> identity_key \<Rightarrow> declared_identity option" where
  "matchable declared = map_of (rev (map (\<lambda>d. (identity_key d, d)) (filter is_matchable declared)))"

definition row_key :: "cai_resource \<Rightarrow> identity_key" where
  "row_key r = (Some (cr_asset_type r), PStr (normalize_cai_name (cr_name r)))"

fun nonempty :: "string option \<Rightarrow> string option" where
  "nonempty (Some s) = (if s = [] then None else Some s)"
| "nonempty None = None"

definition sample_of :: "declared_identity option \<Rightarrow> cai_resource \<Rightarrow> sample" where
  "sample_of decl r =
     \<lparr>sm_name = display_name r, sm_location = cr_location r, sm_iac = (decl \<noteq> None),
      sm_confidence = map_option di_confidence decl, sm_topic = nonempty (cr_topic r),
      sm_image = (if cr_asset_type r = RUN_ASSET_TYPE \<and> \<not> row_control_plane r then nonempty (cr_image r) else None)\<rparr>"

text \<open>The state of the loop over the rows: the buckets by type, the keys matched so far and how many rows matched.\<close>

type_synonym inv_state = "(string \<times> type_bucket) list \<times> identity_key list \<times> nat"

definition empty_bucket :: type_bucket where
  "empty_bucket = \<lparr>bk_count = 0, bk_declared = 0, bk_undeclared = 0, bk_control_plane = 0, bk_samples = []\<rparr>"

definition count_in_bucket :: "declared_identity option \<Rightarrow> cai_resource \<Rightarrow> type_bucket \<Rightarrow> type_bucket" where
  "count_in_bucket decl r b =
     (let b = b\<lparr>bk_count := bk_count b + 1\<rparr>;
          b = (if decl \<noteq> None then b\<lparr>bk_declared := bk_declared b + 1\<rparr>
               else b\<lparr>bk_undeclared := bk_undeclared b + 1,
                      bk_control_plane := bk_control_plane b + (if row_control_plane r then 1 else 0)\<rparr>) in
      if length (bk_samples b) < SAMPLE_CAP then b\<lparr>bk_samples := bk_samples b @ [sample_of decl r]\<rparr> else b)"

definition count_row :: "(identity_key \<Rightarrow> declared_identity option) \<Rightarrow> inv_state \<Rightarrow> cai_resource \<Rightarrow> inv_state" where
  "count_row index st r =
     (case st of (buckets, matched, hits) \<Rightarrow>
        let decl = index (row_key r);
            b = (case map_of buckets (cr_asset_type r) of None \<Rightarrow> empty_bucket | Some b \<Rightarrow> b) in
        (AList.update (cr_asset_type r) (count_in_bucket decl r b) buckets,
         if decl \<noteq> None then row_key r # matched else matched,
         if decl \<noteq> None then hits + 1 else hits))"

definition entry_of :: "string \<Rightarrow> type_bucket \<Rightarrow> type_entry" where
  "entry_of t b =
     \<lparr>te_count = bk_count b, te_declared = bk_declared b, te_undeclared = bk_undeclared b,
      te_control_plane = bk_control_plane b, te_sensitive = is_sensitive t,
      te_sample = (if is_sensitive t then None else Some (bk_samples b))\<rparr>"

section \<open>Declarations without a live resource\<close>

definition causes_of :: "declared_identity \<Rightarrow> string list" where
  "causes_of d =
     (if is_matchable d then [''cai_lag'', ''not_yet_applied'', ''format_mismatch'']
      else if di_identity d = PNone then [''identity_unresolved'']
      else [''asset_type_not_supported''])"

definition declared_sensitive :: "declared_identity \<Rightarrow> bool" where
  "declared_sensitive d \<longleftrightarrow> (case di_asset_type d of None \<Rightarrow> False | Some t \<Rightarrow> is_sensitive t)"

definition not_found_entry :: "declared_identity \<Rightarrow> not_found" where
  "not_found_entry d =
     \<lparr>nf_address = (if di_address d = [] then None else Some (di_address d)), nf_asset_type = di_asset_type d,
      nf_source = di_source d, nf_confidence = di_confidence d, nf_causes = causes_of d,
      nf_redacted = declared_sensitive d, nf_identity = (if declared_sensitive d then PNone else di_identity d)\<rparr>"

definition declared_not_found :: "identity_key list \<Rightarrow> declared_identity list \<Rightarrow> not_found list" where
  "declared_not_found matched declared =
     map not_found_entry (filter (\<lambda>d. \<not> (is_matchable d \<and> identity_key d \<in> set matched)) declared)"

definition last_segment :: "string \<Rightarrow> string" where
  "last_segment s = (case rev (filter (\<lambda>p. p \<noteq> []) (split_char (CHR ''/'') s)) of [] \<Rightarrow> [] | p # _ \<Rightarrow> p)"

definition unmatched_of :: "not_found \<Rightarrow> unmatched list" where
  "unmatched_of nf =
     (case (nf_asset_type nf, nf_identity nf) of
        (Some t, PStr i) \<Rightarrow>
          if is_sensitive t then []
          else if last_segment i = [] then []
          else [\<lparr>um_asset_type = t, um_name = last_segment i, um_address = nf_address nf\<rparr>]
      | _ \<Rightarrow> [])"

definition unmatched_key :: "unmatched \<Rightarrow> string list" where
  "unmatched_key u = [um_asset_type u, um_name u, (case um_address u of None \<Rightarrow> [] | Some a \<Rightarrow> a)]"

definition unmatched_iac_projection :: "not_found list \<Rightarrow> (nat \<times> unmatched list \<times> nat) option" where
  "unmatched_iac_projection nfs =
     (let entries = concat (map unmatched_of nfs); n = length entries;
          capped = take UNMATCHED_IAC_CAP (sort_key unmatched_key entries) in
      if n = 0 then None else Some (n, capped, n - length capped))"

text \<open>The index hashes every matchable identity, so one without a hash raises.\<close>

definition build_inventory ::
  "cai_resource list \<Rightarrow> declared_identity list \<Rightarrow> string \<Rightarrow> string \<Rightarrow> string option \<Rightarrow> bool \<Rightarrow> string \<Rightarrow> (pyexc, inventory) res" where
  "build_inventory resources declared project snapshot tree_hash parse_ok now =
     (if \<exists>d \<in> set declared. is_matchable d \<and> \<not> hashable (di_identity d) then Inl TypeError
      else
        (case foldl (count_row (matchable declared)) ([], [], 0) resources of (buckets, matched, hits) \<Rightarrow>
         let nfs = declared_not_found matched declared in
         Inr \<lparr>iv_project = project, iv_generated_at = now, iv_snapshot_sha = snapshot, iv_tree_hash = tree_hash,
              iv_total = length resources, iv_declared = hits, iv_undeclared = length resources - hits,
              iv_by_type = map (\<lambda>(t, b). (t, entry_of t b)) (sort_key fst buckets), iv_not_found = nfs,
              iv_unmatched = unmatched_iac_projection nfs, iv_parse_error = (\<not> parse_ok)\<rparr>))"

section \<open>What the loop computes\<close>

definition own_rows :: "cai_resource list \<Rightarrow> string \<Rightarrow> cai_resource list" where
  "own_rows resources t = filter (\<lambda>r. cr_asset_type r = t) resources"

definition bucket_for :: "(identity_key \<Rightarrow> declared_identity option) \<Rightarrow> cai_resource list \<Rightarrow> type_bucket" where
  "bucket_for index own =
     \<lparr>bk_count = length own, bk_declared = length (filter (\<lambda>r. index (row_key r) \<noteq> None) own),
      bk_undeclared = length (filter (\<lambda>r. index (row_key r) = None) own),
      bk_control_plane = length (filter (\<lambda>r. index (row_key r) = None \<and> row_control_plane r) own),
      bk_samples = take SAMPLE_CAP (map (\<lambda>r. sample_of (index (row_key r)) r) own)\<rparr>"

lemma bucket_for_Nil: "bucket_for index [] = empty_bucket"
  by (simp add: bucket_for_def empty_bucket_def)

lemma count_in_bucket_for: "count_in_bucket (index (row_key r)) r (bucket_for index own) = bucket_for index (own @ [r])"
  by (auto simp: count_in_bucket_def bucket_for_def Let_def min_def)

definition loop_inv :: "(identity_key \<Rightarrow> declared_identity option) \<Rightarrow> cai_resource list \<Rightarrow> inv_state \<Rightarrow> bool" where
  "loop_inv index rs st \<longleftrightarrow>
     (case st of (buckets, matched, hits) \<Rightarrow>
        (\<forall>t. map_of buckets t = (if own_rows rs t = [] then None else Some (bucket_for index (own_rows rs t)))) \<and>
        distinct (map fst buckets) \<and>
        set matched = row_key ` {r \<in> set rs. index (row_key r) \<noteq> None} \<and>
        hits = length (filter (\<lambda>r. index (row_key r) \<noteq> None) rs))"

lemma own_rows_snoc: "own_rows (rs @ [r]) t = (if cr_asset_type r = t then own_rows rs t @ [r] else own_rows rs t)"
  by (simp add: own_rows_def)

lemma count_row_inv:
  assumes "loop_inv index rs st"
  shows "loop_inv index (rs @ [r]) (count_row index st r)"
proof -
  obtain buckets matched hits where st: "st = (buckets, matched, hits)" by (cases st)
  let ?t = "cr_asset_type r"
  from assms st have m: "map_of buckets t = (if own_rows rs t = [] then None else Some (bucket_for index (own_rows rs t)))" for t
    by (simp add: loop_inv_def)
  from assms st have others: "distinct (map fst buckets)" "set matched = row_key ` {r \<in> set rs. index (row_key r) \<noteq> None}"
      "hits = length (filter (\<lambda>r. index (row_key r) \<noteq> None) rs)"
    by (simp_all add: loop_inv_def)
  have "(case map_of buckets ?t of None \<Rightarrow> empty_bucket | Some b \<Rightarrow> b) = bucket_for index (own_rows rs ?t)"
    by (simp add: m bucket_for_Nil)
  then have b: "count_in_bucket (index (row_key r)) r (case map_of buckets ?t of None \<Rightarrow> empty_bucket | Some b \<Rightarrow> b) =
      bucket_for index (own_rows rs ?t @ [r])" by (simp add: count_in_bucket_for)
  have c: "count_row index st r =
      (AList.update ?t (bucket_for index (own_rows rs ?t @ [r])) buckets,
       if index (row_key r) \<noteq> None then row_key r # matched else matched, if index (row_key r) \<noteq> None then hits + 1 else hits)"
    unfolding count_row_def st prod.case Let_def b by (rule refl)
  show ?thesis unfolding loop_inv_def c
    using others by (auto simp: m own_rows_snoc update_conv distinct_update)
qed

lemma loop_inv_run: "loop_inv index rs (foldl (count_row index) ([], [], 0) rs)"
proof (induction rs rule: rev_induct)
  case Nil
  then show ?case by (simp add: loop_inv_def own_rows_def)
next
  case (snoc r rs)
  then show ?case using count_row_inv by simp
qed

section \<open>What the summary states\<close>

text \<open>A live resource is declared when some declaration has its type and its name without the service prefix.\<close>

definition in_iac :: "declared_identity list \<Rightarrow> cai_resource \<Rightarrow> bool" where
  "in_iac declared r \<longleftrightarrow>
     (\<exists>d \<in> set declared. di_asset_type d = Some (cr_asset_type r) \<and> di_identity d = PStr (normalize_cai_name (cr_name r)))"

lemma key_value_PStr: "key_value v = PStr s \<longleftrightarrow> v = PStr s"
  by (cases v) auto

lemma row_key_identity: "identity_key d = row_key r \<longleftrightarrow>
    di_asset_type d = Some (cr_asset_type r) \<and> di_identity d = PStr (normalize_cai_name (cr_name r))"
  by (simp add: identity_key_def row_key_def key_value_PStr)

lemma matchable_row: "matchable declared (row_key r) \<noteq> None \<longleftrightarrow> in_iac declared r"
proof -
  have "matchable declared (row_key r) \<noteq> None \<longleftrightarrow> (\<exists>d \<in> set declared. is_matchable d \<and> identity_key d = row_key r)"
    unfolding matchable_def map_of_eq_None_iff by (force simp: image_iff)
  also have "\<dots> \<longleftrightarrow> in_iac declared r"
    unfolding row_key_identity in_iac_def is_matchable_def by auto
  finally show ?thesis .
qed

lemma matchable_row_simps [simp]:
  "(\<exists>d. matchable declared (row_key r) = Some d) \<longleftrightarrow> in_iac declared r"
  "matchable declared (row_key r) = None \<longleftrightarrow> \<not> in_iac declared r"
  using matchable_row [of declared r] by auto

lemma sum_own_rows:
  assumes "finite T" "cr_asset_type ` set rs \<subseteq> T"
  shows "(\<Sum>t \<in> T. length (filter P (own_rows rs t))) = length (filter P rs)"
  using assms(2)
proof (induction rs)
  case Nil
  then show ?case by (simp add: own_rows_def)
next
  case (Cons r rs)
  have "(\<Sum>t \<in> T. length (filter P (own_rows (r # rs) t))) =
      (\<Sum>t \<in> T. (if t = cr_asset_type r then (if P r then 1 else 0) else 0) + length (filter P (own_rows rs t)))"
    by (intro sum.cong) (auto simp: own_rows_def)
  with Cons assms(1) show ?case by (simp add: sum.distrib)
qed

lemma built:
  assumes "build_inventory resources declared project snapshot tree_hash parse_ok now = Inr iv"
  obtains buckets matched hits where "loop_inv (matchable declared) resources (buckets, matched, hits)"
    "iv_by_type iv = map (\<lambda>(t, b). (t, entry_of t b)) (sort_key fst buckets)"
    "iv_total iv = length resources" "iv_declared iv = hits" "iv_undeclared iv = length resources - hits"
    "iv_not_found iv = declared_not_found matched declared" "iv_unmatched iv = unmatched_iac_projection (iv_not_found iv)"
proof -
  obtain buckets matched hits where f: "foldl (count_row (matchable declared)) ([], [], 0) resources = (buckets, matched, hits)"
    by (cases "foldl (count_row (matchable declared)) ([], [], 0) resources")
  show thesis
    by (rule that [of buckets matched hits])
      (use assms f loop_inv_run [of "matchable declared" resources] in \<open>auto simp: build_inventory_def Let_def split: if_splits\<close>)
qed

lemma bucket_types:
  assumes "loop_inv index rs (buckets, matched, hits)"
  shows "fst ` set buckets = cr_asset_type ` set rs" and "(t, b) \<in> set buckets \<Longrightarrow> b = bucket_for index (own_rows rs t)"
proof -
  from assms have m: "map_of buckets t = (if own_rows rs t = [] then None else Some (bucket_for index (own_rows rs t)))" for t
    by (simp add: loop_inv_def)
  have "own_rows rs t = [] \<longleftrightarrow> t \<notin> cr_asset_type ` set rs" for t by (auto simp: own_rows_def filter_empty_conv)
  then have "t \<in> fst ` set buckets \<longleftrightarrow> t \<in> cr_asset_type ` set rs" for t
    using map_of_eq_None_iff [of buckets t] m [of t] by (simp split: if_splits)
  then show "fst ` set buckets = cr_asset_type ` set rs" by blast
  from assms have "distinct (map fst buckets)" by (simp add: loop_inv_def)
  then show "(t, b) \<in> set buckets \<Longrightarrow> b = bucket_for index (own_rows rs t)"
    using m [of t] by (auto dest: map_of_is_SomeI split: if_splits)
qed

lemma by_type_keys:
  assumes "loop_inv index rs (buckets, matched, hits)"
  shows "map fst (map (\<lambda>(t, b). (t, entry_of t b)) (sort_key fst buckets)) = sorted_list_of_set (cr_asset_type ` set rs)"
proof -
  have "map fst (map (\<lambda>(t, b). (t, entry_of t b)) (sort_key fst buckets)) = map fst (sort_key fst buckets)"
    by (simp add: case_prod_beta comp_def)
  also have "\<dots> = sorted_list_of_set (cr_asset_type ` set rs)"
  proof (rule sorted_distinct_set_unique)
    from assms have "distinct (map fst buckets)" by (simp add: loop_inv_def)
    then show "distinct (map fst (sort_key fst buckets))" by (simp add: distinct_map)
  qed (simp_all add: bucket_types(1) [OF assms])
  finally show ?thesis .
qed

lemma sum_by_type:
  assumes "map fst bt = sorted_list_of_set (cr_asset_type ` set rs)"
    and "\<And>t e. (t, e) \<in> set bt \<Longrightarrow> f e = length (filter P (own_rows rs t))"
  shows "(\<Sum>(t, e) \<leftarrow> bt. f e) = length (filter P rs)"
proof -
  have "(\<Sum>(t, e) \<leftarrow> bt. f e) = (\<Sum>t \<leftarrow> map fst bt. length (filter P (own_rows rs t)))"
    using assms(2) by (auto simp: comp_def intro!: arg_cong [of _ _ sum_list])
  also have "\<dots> = (\<Sum>t \<in> cr_asset_type ` set rs. length (filter P (own_rows rs t)))"
    unfolding assms(1) by (simp add: sum_list_distinct_conv_sum_set)
  also have "\<dots> = length (filter P rs)" by (rule sum_own_rows) auto
  finally show ?thesis .
qed

text \<open>C38: The summary accounts for the whole estate: its types are those of the live resources, each once and in order;
  for each type it states how many resources there are, how many the Terraform text declares and how many it does
  not, and of those how many belong to the control plane; the totals are the sums over the types; and the
  declarations listed as not found are exactly those, in order, that no live resource answers to.\<close>

theorem inventory_accounts:
  assumes "build_inventory resources declared project snapshot tree_hash parse_ok now = Inr iv"
  shows "map fst (iv_by_type iv) = sorted_list_of_set (cr_asset_type ` set resources) \<and>
    (\<forall>(t, e) \<in> set (iv_by_type iv).
       let own = filter (\<lambda>r. cr_asset_type r = t) resources in
       te_count e = length own \<and>
       te_declared e = length (filter (in_iac declared) own) \<and>
       te_undeclared e = length (filter (\<lambda>r. \<not> in_iac declared r) own) \<and>
       te_control_plane e = length (filter (\<lambda>r. \<not> in_iac declared r \<and> row_control_plane r) own)) \<and>
    iv_total iv = (\<Sum>(t, e) \<leftarrow> iv_by_type iv. te_count e) \<and>
    iv_declared iv = (\<Sum>(t, e) \<leftarrow> iv_by_type iv. te_declared e) \<and>
    iv_undeclared iv = (\<Sum>(t, e) \<leftarrow> iv_by_type iv. te_undeclared e) \<and>
    iv_not_found iv =
      map not_found_entry (filter (\<lambda>d. \<forall>r \<in> set resources.
        \<not> (di_asset_type d = Some (cr_asset_type r) \<and> di_identity d = PStr (normalize_cai_name (cr_name r)))) declared)"
proof -
  let ?index = "matchable declared"
  from assms obtain buckets matched hits where l: "loop_inv ?index resources (buckets, matched, hits)"
    and bt: "iv_by_type iv = map (\<lambda>(t, b). (t, entry_of t b)) (sort_key fst buckets)"
    and fields: "iv_total iv = length resources" "iv_declared iv = hits" "iv_undeclared iv = length resources - hits"
      "iv_not_found iv = declared_not_found matched declared" by (rule built)
  from l have hits: "hits = length (filter (in_iac declared) resources)"
    and matched: "set matched = row_key ` {r \<in> set resources. in_iac declared r}"
    by (simp_all add: loop_inv_def)
  have keys: "map fst (iv_by_type iv) = sorted_list_of_set (cr_asset_type ` set resources)"
    unfolding bt by (rule by_type_keys [OF l])
  have e: "e = entry_of t (bucket_for ?index (own_rows resources t))" if "(t, e) \<in> set (iv_by_type iv)" for t e
    using that bucket_types(2) [OF l] by (auto simp: bt)
  have counts: "te_count e = length (filter (\<lambda>_. True) (own_rows resources t))"
    "te_declared e = length (filter (in_iac declared) (own_rows resources t))"
    "te_undeclared e = length (filter (\<lambda>r. \<not> in_iac declared r) (own_rows resources t))"
    "te_control_plane e = length (filter (\<lambda>r. \<not> in_iac declared r \<and> row_control_plane r) (own_rows resources t))"
    if "(t, e) \<in> set (iv_by_type iv)" for t e
    unfolding e [OF that] by (simp_all add: entry_of_def bucket_for_def)
  have sums: "(\<Sum>(t, e) \<leftarrow> iv_by_type iv. te_count e) = length (filter (\<lambda>_. True) resources)"
    "(\<Sum>(t, e) \<leftarrow> iv_by_type iv. te_declared e) = length (filter (in_iac declared) resources)"
    "(\<Sum>(t, e) \<leftarrow> iv_by_type iv. te_undeclared e) = length (filter (\<lambda>r. \<not> in_iac declared r) resources)"
    by (rule sum_by_type [OF keys], erule counts)+
  have "is_matchable d \<and> identity_key d \<in> set matched \<longleftrightarrow> (\<exists>r \<in> set resources. identity_key d = row_key r)"
    if "d \<in> set declared" for d
    using that unfolding matched row_key_identity [symmetric] in_iac_def is_matchable_def by (auto simp: row_key_identity)
  then have "iv_not_found iv = map not_found_entry (filter (\<lambda>d. \<not> (\<exists>r \<in> set resources. identity_key d = row_key r)) declared)"
    unfolding fields declared_not_found_def by (intro arg_cong [of _ _ "map not_found_entry"] filter_cong) auto
  then show ?thesis
    using keys counts sums sum_length_filter_compl [of "in_iac declared" resources]
    by (auto simp: fields hits own_rows_def row_key_identity Let_def)
qed

definition demo_rows :: "cai_resource list" where
  "demo_rows =
     [\<lparr>cr_name = ''//storage.googleapis.com/shop'', cr_asset_type = ''storage.googleapis.com/Bucket'', cr_location = ''us'',
       cr_topic = None, cr_image = None\<rparr>,
      \<lparr>cr_name = ''//storage.googleapis.com/logs'', cr_asset_type = ''storage.googleapis.com/Bucket'', cr_location = ''us'',
       cr_topic = None, cr_image = None\<rparr>]"

definition demo_declared :: "declared_identity list" where
  "demo_declared =
     [DeclaredIdentity (PStr ''shop'') ''google_storage_bucket.b'' ''import_id'' ''high'' (Some ''storage.googleapis.com/Bucket''),
      DeclaredIdentity (PStr ''gone'') ''google_storage_bucket.g'' ''derived_resource'' ''derived'' (Some ''storage.googleapis.com/Bucket'')]"

definition demo_inventory :: inventory where
  "demo_inventory =
     \<lparr>iv_project = ''p'', iv_generated_at = ''t'', iv_snapshot_sha = ''s'', iv_tree_hash = None, iv_total = 2, iv_declared = 1,
      iv_undeclared = 1,
      iv_by_type = [(''storage.googleapis.com/Bucket'', \<lparr>te_count = 2, te_declared = 1, te_undeclared = 1, te_control_plane = 0,
        te_sensitive = False, te_sample = Some
         [\<lparr>sm_name = ''shop'', sm_location = ''us'', sm_iac = True, sm_confidence = Some ''high'', sm_topic = None, sm_image = None\<rparr>,
          \<lparr>sm_name = ''logs'', sm_location = ''us'', sm_iac = False, sm_confidence = None, sm_topic = None, sm_image = None\<rparr>]\<rparr>)],
      iv_not_found = [\<lparr>nf_address = Some ''google_storage_bucket.g'', nf_asset_type = Some ''storage.googleapis.com/Bucket'',
        nf_source = ''derived_resource'', nf_confidence = ''derived'', nf_causes = [''cai_lag'', ''not_yet_applied'', ''format_mismatch''],
        nf_redacted = False, nf_identity = PStr ''gone''\<rparr>],
      iv_unmatched = Some (1, [\<lparr>um_asset_type = ''storage.googleapis.com/Bucket'', um_name = ''gone'',
        um_address = Some ''google_storage_bucket.g''\<rparr>], 0),
      iv_parse_error = False\<rparr>"

lemma demo_inventory_built: "build_inventory demo_rows demo_declared ''p'' ''s'' None True ''t'' = Inr demo_inventory"
  by code_simp

theorem inventory_accounts_witness:
  "iv_total demo_inventory = (\<Sum>(t, e) \<leftarrow> iv_by_type demo_inventory. te_count e) \<and> 
   map fst (iv_by_type demo_inventory) = sorted_list_of_set (cr_asset_type ` set demo_rows)"
  using inventory_accounts [OF demo_inventory_built] by blast

lemma node_verdict: "is_control_plane_node (PStr t) (PStr n) = Inr False \<longleftrightarrow> is_control_plane_node (PStr t) (PStr n) \<noteq> Inr True"
  by (simp add: is_control_plane_node_def)

text \<open>C39: The summary withholds what it must: a sensitive type has counts and no sample, a sensitive declaration without
  a live resource is listed without its identity, the projection for the operator holds no sensitive declaration and
  at most ten entries, a sample holds at most ten rows, and an image appears only for a Cloud Run service that is not
  one of the control plane's own.\<close>

theorem inventory_withholds:
  assumes "build_inventory resources declared project snapshot tree_hash parse_ok now = Inr iv"
  shows "(\<forall>(t, e) \<in> set (iv_by_type iv). te_sensitive e = is_sensitive t \<and> (te_sample e = None \<longleftrightarrow> is_sensitive t) \<and>
      (\<forall>samples. te_sample e = Some samples \<longrightarrow> length samples \<le> 10 \<and>
        (\<forall>sm \<in> set samples. sm_image sm \<noteq> None \<longrightarrow>
          t = ''run.googleapis.com/Service'' \<and> is_control_plane_node (PStr t) (PStr (sm_name sm)) = Inr False))) \<and>
    (\<forall>nf \<in> set (iv_not_found iv). \<forall>t. nf_asset_type nf = Some t \<longrightarrow> is_sensitive t \<longrightarrow> nf_identity nf = PNone \<and> nf_redacted nf) \<and>
    (\<forall>n us cut. iv_unmatched iv = Some (n, us, cut) \<longrightarrow>
      length us \<le> 10 \<and> n = length us + cut \<and> (\<forall>u \<in> set us. \<not> is_sensitive (um_asset_type u)))"
proof -
  from assms obtain buckets matched hits where l: "loop_inv (matchable declared) resources (buckets, matched, hits)"
    and bt: "iv_by_type iv = map (\<lambda>(t, b). (t, entry_of t b)) (sort_key fst buckets)"
    and nf: "iv_not_found iv = declared_not_found matched declared" and um: "iv_unmatched iv = unmatched_iac_projection (iv_not_found iv)"
    by (rule built)
  have e: "e = entry_of t (bucket_for (matchable declared) (own_rows resources t))" if "(t, e) \<in> set (iv_by_type iv)" for t e
    using that bucket_types(2) [OF l] by (auto simp: bt)
  have sample: "t = ''run.googleapis.com/Service'' \<and> is_control_plane_node (PStr t) (PStr (sm_name sm)) = Inr False"
    if "sm \<in> set (bk_samples (bucket_for index (own_rows resources t)))" "sm_image sm \<noteq> None" for index t sm
  proof -
    from that(1) obtain r where "cr_asset_type r = t" "sm = sample_of (index (row_key r)) r"
      by (auto simp: bucket_for_def own_rows_def dest!: in_set_takeD)
    with that(2) show ?thesis
      by (simp add: sample_of_def RUN_ASSET_TYPE_def row_control_plane_def node_verdict split: if_splits)
  qed
  have a: "\<forall>(t, e) \<in> set (iv_by_type iv). te_sensitive e = is_sensitive t \<and> (te_sample e = None \<longleftrightarrow> is_sensitive t) \<and>
      (\<forall>samples. te_sample e = Some samples \<longrightarrow> length samples \<le> 10 \<and>
        (\<forall>sm \<in> set samples. sm_image sm \<noteq> None \<longrightarrow>
          t = ''run.googleapis.com/Service'' \<and> is_control_plane_node (PStr t) (PStr (sm_name sm)) = Inr False))"
  proof (intro ballI, goal_cases)
    case (1 p)
    obtain t e where p: "p = (t, e)" by (cases p)
    with 1 have "e = entry_of t (bucket_for (matchable declared) (own_rows resources t))" using e by blast
    then show ?case unfolding p prod.case using sample [of _ "matchable declared" t] by (auto simp: entry_of_def bucket_for_def SAMPLE_CAP_def)
  qed
  have b: "\<forall>nf \<in> set (iv_not_found iv). \<forall>t. nf_asset_type nf = Some t \<longrightarrow> is_sensitive t \<longrightarrow> nf_identity nf = PNone \<and> nf_redacted nf"
    by (auto simp: nf declared_not_found_def not_found_entry_def declared_sensitive_def)
  have "\<not> is_sensitive (um_asset_type u)" if "u \<in> set (unmatched_of x)" for u x
    using that by (auto simp: unmatched_of_def split: option.splits pyval.splits if_splits)
  then have "\<forall>n us cut. iv_unmatched iv = Some (n, us, cut) \<longrightarrow>
      length us \<le> 10 \<and> n = length us + cut \<and> (\<forall>u \<in> set us. \<not> is_sensitive (um_asset_type u))"
    by (auto simp: um unmatched_iac_projection_def Let_def UNMATCHED_IAC_CAP_def dest!: in_set_takeD split: if_splits)
  with a b show ?thesis by blast
qed

theorem inventory_withholds_witness: "length (fst (snd (the (iv_unmatched demo_inventory)))) \<le> 10"
  using inventory_withholds [OF demo_inventory_built] by (simp add: demo_inventory_def)

section \<open>Adopted resources\<close>

lemma normalize_full_name: "CHR ''/'' \<notin> set service \<Longrightarrow> normalize_cai_name (''//'' @ service @ ''/'' @ path) = path"
proof -
  assume "CHR ''/'' \<notin> set service"
  then have "dropWhile (\<lambda>c. c \<noteq> CHR ''/'') (service @ ''/'' @ path) = ''/'' @ path"
    by (subst dropWhile_append2) auto
  then show ?thesis by (simp add: normalize_cai_name_def Let_def starts_with_def)
qed

text \<open>C40: An adoption that passes the static gate is recognised in the live estate: the reader of the declared set has
  no error on the change, and from then on every live resource of the imported type whose full name ends, after the
  service, in the imported identifier counts as declared.\<close>

theorem adopted_resource_is_managed:
  assumes "evaluate_gate parse AGENT paths files = []"
    and "(path, imp) \<in> set (import_blocks (parsed_files parse files))"
  shows "\<exists>rtype name i t ds.
    unwrap_ref (dget imp ''to'') = Some (rtype @ ''.'' @ name) \<and> dget imp ''id'' = PStr (dquote # i @ [dquote]) \<and>
    map_of SUPPORTED_RESOURCE_ASSET_TYPES rtype = Some t \<and>
    extract_declared_identities parse files = Inr (ds, []) \<and>
    (\<forall>r service. cr_asset_type r = t \<longrightarrow> CHR ''/'' \<notin> set service \<longrightarrow> cr_name r = ''//'' @ service @ ''/'' @ i \<longrightarrow> in_iac ds r)"
proof -
  from adopted_identity_declared [OF assms] obtain rtype name i shape t ds where
    r: "unwrap_ref (dget imp ''to'') = Some (rtype @ ''.'' @ name)" "dget imp ''id'' = PStr (dquote # i @ [dquote])"
      "map_of SUPPORTED_RESOURCE_ASSET_TYPES rtype = Some t" "extract_declared_identities parse files = Inr (ds, [])"
    and d: "DeclaredIdentity (PStr i) (rtype @ ''.'' @ name) ''import_id'' ''high'' (Some t) \<in> set ds" by (elim exE conjE) (rule that)
  have "in_iac ds r" if "cr_asset_type r = t" "CHR ''/'' \<notin> set service" "cr_name r = ''//'' @ service @ ''/'' @ i" for r service
    unfolding in_iac_def by (rule bexI [OF _ d]) (simp only: that normalize_full_name DeclaredIdentity_simps simp_thms)
  with r show ?thesis by blast
qed

lemma adopt_change_gate: "evaluate_gate (\<lambda>_. Some adopt_change) AGENT [''iac/b.tf''] [(''iac/b.tf'', [])] = []"
  by code_simp

lemma adopt_change_import: "import_blocks (parsed_files (\<lambda>_. Some adopt_change) [(''iac/b.tf'', [])]) =
    [(''iac/b.tf'', [(''to'', PStr (dquote # ''${google_storage_bucket.b}'' @ [dquote])), (''id'', PStr (dquote # ''shop'' @ [dquote]))])]"
  by code_simp

theorem adopted_resource_is_managed_witness:
  "\<exists>i ds. dquote # i @ [dquote] = dquote # ''shop'' @ [dquote] \<and>
     extract_declared_identities (\<lambda>_. Some adopt_change) [(''iac/b.tf'', [])] = Inr (ds, [])"
  using adopted_resource_is_managed [OF adopt_change_gate, unfolded adopt_change_import, OF list.set_intros(1)] by auto

end
