(* ===== verification/Spec2Isabelle.thy ===== *)
theory Spec2Isabelle
  imports Denylist PlanClassify PlanApprovals RollbackSystem UpgradeWorker RecheckSystem OperatorControls MemoryStore TofuSystem GitHub
    IacApprovalSystem Inventory
begin

text \<open>
  A verification library for DriftScribe: agents watch a Cloud Run service and its infrastructure and propose
  changes, and deterministic code decides which proposals may take effect.  This library models that code.

  \<^bold>\<open>The program.\<close>  A coordinator (\<open>src/agent\<close>) runs the agents, validates what they propose, keeps the decisions
  and the conversations, and serves the approval pages.  Workers (\<open>src/workers\<close>), each with credentials of its
  own, carry out the changes: the rollback worker moves traffic, the upgrade worker patches, merges and closes
  dependency pull requests, the apply worker runs \<open>tofu\<close> on a reviewed plan.  A library shared by all of them
  (\<open>src/driftscribe_lib\<close>) holds the approvals, the plan policy, the GitHub gates and the token checks.

  \<^bold>\<open>Theories and code.\<close>
  \<^item> \<open>Prelude\<close>, \<open>PyValue\<close>, \<open>PyJson\<close>, \<open>PyTime\<close>, \<open>Regex\<close>: returns-or-raises results, the dynamic values of Python,
    \<open>json\<close>, the part of \<open>datetime\<close> and the regular expressions that the code uses.
  \<^item> \<open>PlanMetadata\<close>, \<open>PlanClassify\<close>, \<open>Denylist\<close>: \<open>iac_plan_metadata.py\<close>, \<open>iac_plan_classify.py\<close>,
    \<open>iac_plan_denylist.py\<close>.  The denylist passes a plan exactly when a direct reading of its rules does.
  \<^item> \<open>HclGate\<close>: \<open>tools/iac_static_gate.py\<close> over the primitives of \<open>iac_hcl.py\<close>, the gate on authored Terraform text.
    It passes a change exactly when a direct reading of its rules does.
  \<^item> \<open>HclIdentity\<close>, \<open>Inventory\<close>: the declared identities of \<open>iac_hcl.py\<close> and the summary of \<open>infra_inventory.py\<close>.  An
    adoption that passes the gate counts as declared in the live estate.
  \<^item> \<open>SingleUse\<close>, \<open>Approvals\<close>, \<open>PlanApprovals\<close>: \<open>approvals.py\<close>.  \<open>SingleUse\<close> is the contract of both stores, a
    locale with the at-most-once lemmas; both models interpret it.
  \<^item> \<open>RollbackWorker\<close>, \<open>RollbackSystem\<close>: \<open>workers/rollback/main.py\<close> as a state machine, and any number of its
    requests interleaved.  \<open>ApprovalLink\<close>: the coordinator's check of the worker's answer (\<open>adk_tools.py\<close>).
  \<^item> \<open>UpgradeWorker\<close>, \<open>GitHub\<close>: \<open>workers/upgrade_docs\<close> and the pull request gates of \<open>github.py\<close>.
  \<^item> \<open>DriftDecision\<close>, \<open>Renderer\<close>, \<open>StateStore\<close>, \<open>Recheck\<close>, \<open>RecheckSystem\<close>: \<open>classifier.py\<close>, \<open>validator.py\<close>,
    \<open>contract.py\<close>, \<open>renderer.py\<close>, the decision store of \<open>state_store.py\<close> and \<open>_do_recheck\<close> of \<open>main.py\<close>,
    from one run to any interleaving of runs.
  \<^item> \<open>OperatorControls\<close>: \<open>pause.py\<close>, \<open>autonomy.py\<close> and the tool sets of the agents.
  \<^item> \<open>Handoff\<close>, \<open>Conversations\<close>, \<open>ConversationSystem\<close>, \<open>MemoryStore\<close>: \<open>handoff.py\<close>, the conversation transactions of
    \<open>state_store.py\<close>, the chat turn of \<open>main.py\<close>; the in-memory store refines the Firestore store.
  \<^item> \<open>IacTree\<close>, \<open>TofuGuards\<close>, \<open>DriftGate\<close>, \<open>TofuRunner\<close>, \<open>CfAccess\<close>, \<open>TofuGates\<close>, \<open>TofuApply\<close>, \<open>TofuSystem\<close>:
    \<open>iac_tree.py\<close>, \<open>cf_access.py\<close> and \<open>workers/tofu_apply\<close>, from the pure gates through the command sequence and
    the handlers to all requests interleaved.
  \<^item> \<open>IacCsrf\<close>, \<open>IacApproval\<close>, \<open>IacApprovalSystem\<close>: \<open>iac_csrf.py\<close> and the plan approval POST of \<open>main.py\<close>, which
    claims the plan, calls the apply worker and merges the pull request.
  \<^item> \<open>Tickets\<close>: the argument that the rollback worker, the apply worker and the plan approvals share, as locales: a
    claim never covers two effects.  Each of the three systems interprets one of them on its own step.

  \<^bold>\<open>State and steps.\<close>  A handler that talks to several services is a program counter (\<open>exec_pc\<close>, \<open>apply_pc\<close>, \<open>iac_pc\<close>,
  \<open>recheck_pc\<close>, ...) and a step function; a step is one interaction with the store or another service, whose
  answer is an input.  A system is an inductive relation over a world and a list of requests: a request
  arrives, or any request takes its next step; \<open>recheck_goes_on\<close> continues one from any state, and the key lookups
  of \<open>CfAccess\<close> interleave the same way.  A request that never steps again is one whose container died.
  Invariants are proved by induction over the system; the functional behaviour of every branch over the step.

  \<^bold>\<open>Groups of lemmas.\<close>  Fact collections (\<open>py_simps\<close>, \<open>result_simps\<close>, \<open>store_simps\<close>, \<open>log_mono\<close>) carry the routine
  steps.  In each component the lemmas say what an operation returns and changes, branch by branch; in each
  system there is a step lemma for every kind of step, the invariant, and the theorems that rest on it.

  \<^bold>\<open>Bounds and fuel.\<close>  \<open>json_loads\<close> runs on the length of the text plus one, which every recursive call pays for by
  a character.  A command sequence of the apply worker has at most seven answers, an apply request twelve
  interactions, an execute request of the rollback worker seven, a recheck six, a plan approval ten; each bound is
  a theorem or a lemma on a measure of the program counter, not an assumption.

  \<^bold>\<open>Conventions and hypotheses.\<close>  Characters are code points below 256; the em dash of the messages is written 0x97
  and the ellipsis 0x85, and \<open>utf8_decode\<close> has no result for text beyond the range.  Digests, HMACs, the
  signature check of PyJWT, the parser \<open>hcl2\<close>, git and clocks are parameters; where a theorem needs a collision to be excluded it
  exhibits one instead.  Two facts of the environment are hypotheses: an object of the bucket at a generation
  never changes (\<open>bucket_serves\<close>), and a freshly drawn identifier is not one in use.

  \<^bold>\<open>Not modelled.\<close>  The agents, their prompts and streams (\<open>adk_agent.py\<close>, most of \<open>adk_tools.py\<close>, \<open>fanout.py\<close>): calls
  of a language model.  Read-only views, caches and the frontend.  Editing of Terraform text
  (\<open>workers/tofu_editor\<close>) and opening of pull requests.  The loading of workloads from YAML.  The deployment
  scripts and the command-line tools.
\<close>

end
